(* ===== verification/Prelude.thy ===== *)
theory Prelude
  imports Main "HOL-Library.AList" "HOL-Library.Word" "HOL-Library.List_Lexorder" "HOL-Library.Char_ord"
begin

text \<open>
  Generic vocabulary of the development: the association-list model of the hash maps and hash
  sets of the Rust code, the index loop that drains a vector, and the lemmas the components share.

  A \<^typ>\<open>('k \<times> 'v) list\<close> with distinct keys stands for a \<open>HashMap\<close> or \<open>DashMap\<close>.  The order of
  the list is the iteration order, which the code never relies on; no theorem of the development
  depends on a particular one.  A list without duplicates stands for a \<open>HashSet\<close>.  Every operation
  below is named after the Rust operation it stands for.
\<close>

text \<open>Quantifiers over map keys that are pairs stay quantifiers over keys.\<close>

declare split_paired_All [simp del] split_paired_Ex [simp del]

section \<open>Bytes and hash maps\<close>

type_synonym byte = "8 word"
type_synonym ('k, 'v) hmap = "('k \<times> 'v) list"

abbreviation hm_get :: "('k, 'v) hmap \<Rightarrow> 'k \<Rightarrow> 'v option" where
  "hm_get m \<equiv> map_of m"

definition hm_insert :: "'k \<Rightarrow> 'v \<Rightarrow> ('k, 'v) hmap \<Rightarrow> ('k, 'v) hmap" where
  "hm_insert k v m = AList.update k v m"

definition hm_remove :: "'k \<Rightarrow> ('k, 'v) hmap \<Rightarrow> ('k, 'v) hmap" where
  "hm_remove k m = AList.delete k m"

definition hm_retain :: "('k \<Rightarrow> 'v \<Rightarrow> bool) \<Rightarrow> ('k, 'v) hmap \<Rightarrow> ('k, 'v) hmap" where
  "hm_retain P m = filter (\<lambda>(k, v). P k v) m"

definition hm_map_values :: "('v \<Rightarrow> 'u) \<Rightarrow> ('k, 'v) hmap \<Rightarrow> ('k, 'u) hmap" where
  "hm_map_values f m = map (\<lambda>(k, v). (k, f v)) m"

text \<open>\<open>entry(k).or_default()\<close> followed by an in-place change \<open>f\<close>, and \<open>get_mut(k)\<close> followed by one.\<close>

definition hm_entry :: "'k \<Rightarrow> 'v \<Rightarrow> ('v \<Rightarrow> 'v) \<Rightarrow> ('k, 'v) hmap \<Rightarrow> ('k, 'v) hmap" where
  "hm_entry k d f m = hm_insert k (f (case hm_get m k of None \<Rightarrow> d | Some v \<Rightarrow> v)) m"

definition hm_get_mut :: "'k \<Rightarrow> ('v \<Rightarrow> 'v) \<Rightarrow> ('k, 'v) hmap \<Rightarrow> ('k, 'v) hmap" where
  "hm_get_mut k f m = (case hm_get m k of None \<Rightarrow> m | Some v \<Rightarrow> hm_insert k (f v) m)"

definition hm_keys :: "('k, 'v) hmap \<Rightarrow> 'k list" where
  "hm_keys m = map fst m"

definition hm_values :: "('k, 'v) hmap \<Rightarrow> 'v list" where
  "hm_values m = map snd m"

definition hm_contains :: "'k \<Rightarrow> ('k, 'v) hmap \<Rightarrow> bool" where
  "hm_contains k m = (hm_get m k \<noteq> None)"

definition hm_ok :: "('k, 'v) hmap \<Rightarrow> bool" where
  "hm_ok m = distinct (map fst m)"

lemma hm_ok_Nil [simp]: "hm_ok []"
  by (simp add: hm_ok_def)

lemma hm_ok_single [simp]: "hm_ok [(k, v)]"
  by (simp add: hm_ok_def)

lemma hm_get_insert [simp]: "hm_get (hm_insert k v m) = (hm_get m)(k \<mapsto> v)"
  by (simp add: hm_insert_def update_conv')

lemma hm_get_remove [simp]: "hm_get (hm_remove k m) = (hm_get m)(k := None)"
  by (simp add: hm_remove_def delete_conv')

lemma hm_get_entry [simp]:
  "hm_get (hm_entry k d f m) = (hm_get m)(k \<mapsto> f (case hm_get m k of None \<Rightarrow> d | Some v \<Rightarrow> v))"
  by (simp add: hm_entry_def)

lemma hm_get_get_mut:
  "hm_get (hm_get_mut k f m) j = (if j = k then map_option f (hm_get m k) else hm_get m j)"
  by (simp add: hm_get_mut_def split: option.split)

lemma hm_get_map_values [simp]: "hm_get (hm_map_values f m) k = map_option f (hm_get m k)"
  by (induction m) (auto simp: hm_map_values_def)

lemma hm_get_retain:
  assumes "hm_ok m"
  shows "hm_get (hm_retain P m) k =
    (case hm_get m k of None \<Rightarrow> None | Some v \<Rightarrow> if P k v then Some v else None)"
  using assms
proof (induction m)
  case Nil
  then show ?case by (simp add: hm_retain_def)
next
  case (Cons kv m)
  obtain k' v where kv: "kv = (k', v)" by (cases kv)
  have ok: "hm_ok m" and notin: "k' \<notin> fst ` set m"
    using Cons.prems kv by (simp_all add: hm_ok_def)
  have none: "map_of (filter (\<lambda>(k, v). P k v) m) k' = None"
    using notin by (force simp: map_of_eq_None_iff)
  have "map_of m k' = None"
    using notin by (simp add: map_of_eq_None_iff)
  then show ?case
    using Cons.IH [OF ok] none kv by (auto simp: hm_retain_def)
qed

lemma hm_ok_insert [simp]: "hm_ok m \<Longrightarrow> hm_ok (hm_insert k v m)"
  by (simp add: hm_ok_def hm_insert_def distinct_update)

lemma hm_ok_remove [simp]: "hm_ok m \<Longrightarrow> hm_ok (hm_remove k m)"
  by (simp add: hm_ok_def hm_remove_def distinct_delete)

lemma hm_ok_entry [simp]: "hm_ok m \<Longrightarrow> hm_ok (hm_entry k d f m)"
  by (simp add: hm_entry_def)

lemma hm_ok_get_mut [simp]: "hm_ok m \<Longrightarrow> hm_ok (hm_get_mut k f m)"
  by (simp add: hm_get_mut_def split: option.split)

lemma hm_ok_retain [simp]: "hm_ok m \<Longrightarrow> hm_ok (hm_retain P m)"
  unfolding hm_ok_def hm_retain_def by (rule distinct_map_filter)

lemma hm_keys_map_values [simp]: "map fst (hm_map_values f m) = map fst m"
  by (induction m) (auto simp: hm_map_values_def)

lemma hm_ok_map_values [simp]: "hm_ok (hm_map_values f m) = hm_ok m"
  by (simp add: hm_ok_def)

lemma hm_in_set: "hm_ok m \<Longrightarrow> (k, v) \<in> set m \<longleftrightarrow> hm_get m k = Some v"
  by (simp add: hm_ok_def)

lemma hm_get_in_set: "hm_get m k = Some v \<Longrightarrow> (k, v) \<in> set m"
  by (rule map_of_SomeD)

lemma set_hm_keys: "set (hm_keys m) = dom (hm_get m)"
  by (simp add: hm_keys_def dom_map_of_conv_image_fst)

lemma set_hm_values: "hm_ok m \<Longrightarrow> set (hm_values m) = ran (hm_get m)"
  by (auto simp: hm_values_def hm_ok_def ran_def image_iff) force

lemma hm_contains_iff: "hm_contains k m \<longleftrightarrow> k \<in> dom (hm_get m)"
  by (auto simp: hm_contains_def)

section \<open>Sets of values stored under a key\<close>

text \<open>
  Several components keep a map from keys to collections and drop a key once its collection is
  empty.  \<open>hm_at\<close> reads such a map with the empty collection for a missing key.
\<close>

definition hm_at :: "('k, 'v list) hmap \<Rightarrow> 'k \<Rightarrow> 'v list" where
  "hm_at m k = (case hm_get m k of None \<Rightarrow> [] | Some vs \<Rightarrow> vs)"

lemma hm_at_Nil [simp]: "hm_at [] k = []"
  by (simp add: hm_at_def)

lemma hm_at_insert [simp]: "hm_at (hm_insert k v m) j = (if j = k then v else hm_at m j)"
  by (simp add: hm_at_def)

lemma hm_at_remove [simp]: "hm_at (hm_remove k m) j = (if j = k then [] else hm_at m j)"
  by (simp add: hm_at_def)

lemma hm_at_entry [simp]: "hm_at (hm_entry k [] f m) j = (if j = k then f (hm_at m k) else hm_at m j)"
  by (simp add: hm_at_def)

lemma hm_at_get_mut:
  "f [] = [] \<Longrightarrow> hm_at (hm_get_mut k f m) j = (if j = k then f (hm_at m k) else hm_at m j)"
  by (simp add: hm_at_def hm_get_get_mut split: option.split)

lemma hm_at_map_values: "f [] = [] \<Longrightarrow> hm_at (hm_map_values f m) k = f (hm_at m k)"
  by (simp add: hm_at_def split: option.split)

lemma hm_at_retain_nonempty [simp]:
  "hm_ok m \<Longrightarrow> hm_at (hm_retain (\<lambda>_ vs. vs \<noteq> []) m) k = hm_at m k"
  by (simp add: hm_at_def hm_get_retain split: option.split)

lemma set_concat_hm_values:
  assumes "hm_ok m"
  shows "set (concat (hm_values m)) = (\<Union>k. set (hm_at m k))"
proof -
  have "\<Union> (set ` ran (hm_get m)) = (\<Union>k. set (hm_at m k))"
    by (auto simp: hm_at_def ran_def split: option.splits) (metis option.simps(5))+
  then show ?thesis by (simp add: set_hm_values [OF assms])
qed

lemma concat_values_filter:
  "concat (hm_values (hm_map_values (filter P) m)) = filter P (concat (hm_values m))"
  by (induction m) (auto simp: hm_values_def hm_map_values_def)

lemma hm_at_in_set: "hm_ok m \<Longrightarrow> (k, vs) \<in> set m \<Longrightarrow> hm_at m k = vs"
  by (simp add: hm_at_def hm_in_set)

text \<open>No key is mapped to an empty collection.\<close>

definition hm_tight :: "('k, 'v list) hmap \<Rightarrow> bool" where
  "hm_tight m = (\<forall>(k, vs) \<in> set m. vs \<noteq> [])"

lemma hm_tight_Nil [simp]: "hm_tight []"
  by (simp add: hm_tight_def)

lemma hm_tight_get: "hm_ok m \<Longrightarrow> hm_tight m \<longleftrightarrow> (\<forall>k. hm_get m k \<noteq> Some [])"
  unfolding hm_tight_def by (auto simp: hm_in_set)

lemma hm_tight_retain [simp]: "hm_tight (hm_retain (\<lambda>_ vs. vs \<noteq> []) m)"
  by (auto simp: hm_tight_def hm_retain_def)

lemma hm_tight_insert [simp]:
  "hm_ok m \<Longrightarrow> hm_tight m \<Longrightarrow> v \<noteq> [] \<Longrightarrow> hm_tight (hm_insert k v m)"
  by (simp add: hm_tight_get)

lemma hm_tight_remove [simp]: "hm_ok m \<Longrightarrow> hm_tight m \<Longrightarrow> hm_tight (hm_remove k m)"
  by (simp add: hm_tight_get)

lemma hm_tight_entry [simp]:
  "hm_ok m \<Longrightarrow> hm_tight m \<Longrightarrow> (\<And>vs. f vs \<noteq> []) \<Longrightarrow> hm_tight (hm_entry k [] f m)"
  by (simp add: hm_entry_def)

lemma hm_tight_at: "hm_ok m \<Longrightarrow> hm_tight m \<Longrightarrow> hm_get m k = None \<longleftrightarrow> hm_at m k = []"
  by (auto simp: hm_tight_get hm_at_def split: option.splits)

section \<open>Draining a vector by index\<close>

text \<open>
  The loop \<open>let mut i = 0; while i < v.len() { if p(v[i]) { out.push(v.remove(i)) } else { i += 1 } }\<close>
  which the code uses to take the matching elements out of a vector.
\<close>

function drain_from :: "('a \<Rightarrow> bool) \<Rightarrow> nat \<Rightarrow> 'a list \<Rightarrow> 'a list \<Rightarrow> 'a list \<times> 'a list" where
  "drain_from p i v out =
    (if i < length v
     then if p (v ! i) then drain_from p i (take i v @ drop (Suc i) v) (out @ [v ! i])
          else drain_from p (Suc i) v out
     else (v, out))"
  by pat_completeness auto
termination
  by (relation "measure (\<lambda>(p, i, v, out). length v - i)") auto

declare drain_from.simps [simp del]

lemma drain_from_partition:
  "i \<le> length v \<Longrightarrow>
    drain_from p i v out = (take i v @ filter (\<lambda>x. \<not> p x) (drop i v), out @ filter p (drop i v))"
proof (induction p i v out rule: drain_from.induct)
  case (1 p i v out)
  show ?case
  proof (cases "i < length v")
    case False
    then show ?thesis using 1 by (simp add: drain_from.simps)
  next
    case True
    have split: "drop i v = v ! i # drop (Suc i) v"
      using True by (rule Cons_nth_drop_Suc [symmetric])
    have takei: "take i v @ [v ! i] = take (Suc i) v"
      using True by (rule take_Suc_conv_app_nth [symmetric])
    show ?thesis
    proof (cases "p (v ! i)")
      case True
      then show ?thesis
        using 1 \<open>i < length v\<close> split by (simp add: drain_from.simps min_def)
    next
      case False
      then show ?thesis
        using 1 \<open>i < length v\<close> split takei [symmetric] by (simp add: drain_from.simps)
    qed
  qed
qed

definition drain :: "('a \<Rightarrow> bool) \<Rightarrow> 'a list \<Rightarrow> 'a list \<times> 'a list" where
  "drain p v = drain_from p 0 v []"

lemma drain_eq [simp]: "drain p v = (filter (\<lambda>x. \<not> p x) v, filter p v)"
  by (simp add: drain_def drain_from_partition)

text \<open>The same loop run over every value of a map, as \<open>for v in m.values_mut() \<dots>\<close> does.\<close>

fun drain_values :: "('a \<Rightarrow> bool) \<Rightarrow> ('k, 'a list) hmap \<Rightarrow> ('k, 'a list) hmap \<times> 'a list" where
  "drain_values p [] = ([], [])"
| "drain_values p ((k, v) # m) =
    (let (v', out) = drain p v; (m', outs) = drain_values p m in ((k, v') # m', out @ outs))"

lemma drain_values_eq [simp]:
  "drain_values p m = (hm_map_values (filter (\<lambda>x. \<not> p x)) m, filter p (concat (hm_values m)))"
  by (induction p m rule: drain_values.induct) (simp_all add: hm_map_values_def hm_values_def)

section \<open>Sets\<close>

lemma UN_fibre:
  assumes "\<And>j e. e \<in> A j \<Longrightarrow> f e = g j"
  shows "(\<Union>j \<in> {j \<in> K. g j = t}. A j) = {e \<in> (\<Union>j \<in> K. A j). f e = t}"
proof (intro set_eqI iffI)
  fix x
  assume "x \<in> (\<Union>j \<in> {j \<in> K. g j = t}. A j)"
  then show "x \<in> {e \<in> (\<Union>j \<in> K. A j). f e = t}" using assms by auto
next
  fix x
  assume "x \<in> {e \<in> (\<Union>j \<in> K. A j). f e = t}"
  then obtain j where "j \<in> K" "x \<in> A j" "f x = t" by auto
  then show "x \<in> (\<Union>j \<in> {j \<in> K. g j = t}. A j)" using assms [of x j] by auto
qed

section \<open>Folds\<close>

lemma fold_invariant_on:
  assumes "P s" "\<And>x s. x \<in> set xs \<Longrightarrow> P s \<Longrightarrow> P (f x s)"
  shows "P (fold f xs s)"
  using assms by (induction xs arbitrary: s) auto

lemma foldl_invariant_on:
  assumes "P s" "\<And>x s. x \<in> set xs \<Longrightarrow> P s \<Longrightarrow> P (f s x)"
  shows "P (foldl f s xs)"
  using assms by (induction xs arbitrary: s) auto

section \<open>Machine integers\<close>

lemma unat_Suc_word:
  fixes w :: "'a::len word"
  assumes "w \<noteq> - 1"
  shows "unat (w + 1) = unat w + 1"
proof -
  have "w + 1 \<noteq> 0"
    using assms by (metis add_diff_cancel_right' diff_0)
  then show ?thesis
    by (metis Suc_eq_plus1 add.commute unatSuc)
qed

end
