(* ===== verification/Core.thy ===== *)
theory Core
  imports Prelude
begin

text \<open>
  The vocabulary every component uses: interned atoms (\<open>atom/mod.rs\<close>), node names and process
  identifiers (\<open>core/node.rs\<close>, \<open>core/pid.rs\<close>), references (\<open>core/reference.rs\<close>), exit reasons
  (\<open>core/exit_reason.rs\<close>) and system messages (\<open>core/system_message.rs\<close>).

  The atom table is modelled as the code has it, with 32-bit indices.  The theorem on interning
  shows that below \<open>2 ^ 32\<close> names an atom and its name determine each other, so the other
  theories write the name where the code stores the atom.
\<close>

section \<open>Atoms\<close>

type_synonym atom = "32 word"

record atom_table =
  string_to_index :: "(string, atom) hmap"
  index_to_string :: "string list"

definition atom_table_new :: atom_table where
  "atom_table_new = \<lparr> string_to_index = [], index_to_string = [] \<rparr>"

definition atom_intern :: "string \<Rightarrow> atom_table \<Rightarrow> atom \<times> atom_table" where
  "atom_intern s t =
    (case hm_get (string_to_index t) s of
       Some index \<Rightarrow> (index, t)
     | None \<Rightarrow>
        (let index = word_of_nat (length (index_to_string t)) in
         (index, t\<lparr> index_to_string := index_to_string t @ [s],
                    string_to_index := hm_insert s index (string_to_index t) \<rparr>)))"

definition atom_get :: "atom_table \<Rightarrow> atom \<Rightarrow> string option" where
  "atom_get t a =
    (if unat a < length (index_to_string t) then Some (index_to_string t ! unat a) else None)"

definition atom_table_ok :: "atom_table \<Rightarrow> bool" where
  "atom_table_ok t \<longleftrightarrow>
     hm_ok (string_to_index t) \<and> length (index_to_string t) \<le> 2 ^ 32 \<and>
     distinct (index_to_string t) \<and>
     (\<forall>s a. hm_get (string_to_index t) s = Some a \<longleftrightarrow> atom_get t a = Some s)"

lemma atom_table_new_ok [simp]: "atom_table_ok atom_table_new"
  by (simp add: atom_table_ok_def atom_table_new_def atom_get_def)

lemma atom_get_fresh:
  assumes "length (index_to_string t) < 2 ^ 32"
  shows "unat (word_of_nat (length (index_to_string t)) :: atom) = length (index_to_string t)"
  using assms by (simp add: unat_of_nat take_bit_nat_eq_self)

lemma atom_known:
  "atom_table_ok t \<Longrightarrow> s \<in> set (index_to_string t) \<longleftrightarrow> hm_get (string_to_index t) s \<noteq> None"
proof
  assume ok: "atom_table_ok t" and "s \<in> set (index_to_string t)"
  then obtain i where i: "i < length (index_to_string t)" "index_to_string t ! i = s"
    by (auto simp: in_set_conv_nth)
  have "i < 2 ^ 32" using i(1) ok by (simp add: atom_table_ok_def)
  then have "unat (word_of_nat i :: atom) = i"
    by (simp add: unat_of_nat take_bit_nat_eq_self)
  then have "atom_get t (word_of_nat i) = Some s" using i by (simp add: atom_get_def)
  then show "hm_get (string_to_index t) s \<noteq> None" using ok by (auto simp: atom_table_ok_def)
next
  assume ok: "atom_table_ok t" and "hm_get (string_to_index t) s \<noteq> None"
  then obtain a where "hm_get (string_to_index t) s = Some a" by auto
  then have "atom_get t a = Some s" using ok by (simp add: atom_table_ok_def)
  then show "s \<in> set (index_to_string t)"
    by (auto simp: atom_get_def split: if_splits)
qed

lemma atom_intern_ok:
  assumes ok: "atom_table_ok t" and room: "length (index_to_string t) < 2 ^ 32"
  shows "atom_table_ok (snd (atom_intern s t))"
proof (cases "hm_get (string_to_index t) s")
  case (Some a)
  then show ?thesis using ok by (simp add: atom_intern_def)
next
  case None
  let ?n = "length (index_to_string t)"
  let ?t = "snd (atom_intern s t)"
  have t: "index_to_string ?t = index_to_string t @ [s]"
    "string_to_index ?t = hm_insert s (word_of_nat ?n) (string_to_index t)"
    using None by (simp_all add: atom_intern_def Let_def)
  have new: "s \<notin> set (index_to_string t)" using atom_known [OF ok, of s] None by simp
  have un: "unat (word_of_nat ?n :: atom) = ?n" by (rule atom_get_fresh [OF room])
  have get: "atom_get ?t a = (if a = word_of_nat ?n then Some s else atom_get t a)" for a
  proof -
    have "unat a = ?n \<longleftrightarrow> a = word_of_nat ?n" using un by (metis word_unat_eq_iff)
    then show ?thesis using un by (auto simp: atom_get_def t(1) nth_append)
  qed
  have "atom_get t (word_of_nat ?n) = None" using un by (simp add: atom_get_def)
  moreover have "atom_get t a \<noteq> Some s" for a
    using ok None unfolding atom_table_ok_def by (metis option.distinct(1))
  ultimately have "\<forall>s' a. hm_get (string_to_index ?t) s' = Some a \<longleftrightarrow> atom_get ?t a = Some s'"
    using ok None get t(2) by (auto simp: atom_table_ok_def)
  then show ?thesis using ok new room t by (simp add: atom_table_ok_def)
qed

lemma atom_intern_get:
  assumes ok: "atom_table_ok t" and room: "length (index_to_string t) < 2 ^ 32"
  shows "atom_get (snd (atom_intern s t)) (fst (atom_intern s t)) = Some s"
proof (cases "hm_get (string_to_index t) s")
  case (Some a)
  then have "atom_get t a = Some s" using ok unfolding atom_table_ok_def by blast
  then show ?thesis using Some by (simp add: atom_intern_def)
next
  case None
  then show ?thesis using atom_get_fresh [OF room]
    by (simp add: atom_intern_def Let_def atom_get_def)
qed

lemma atom_intern_stable:
  assumes "atom_get t a = Some s'"
  shows "atom_get (snd (atom_intern s t)) a = Some s'"
  using assms
  by (auto simp: atom_intern_def atom_get_def Let_def nth_append split: option.splits if_splits)

fun atom_intern_all :: "string list \<Rightarrow> atom_table \<Rightarrow> atom list \<times> atom_table" where
  "atom_intern_all [] t = ([], t)"
| "atom_intern_all (s # ss) t =
    (let (a, t1) = atom_intern s t; (as, t2) = atom_intern_all ss t1 in (a # as, t2))"

lemma atom_intern_length:
  "length (index_to_string (snd (atom_intern s t))) \<le> Suc (length (index_to_string t))"
  by (simp add: atom_intern_def Let_def split: option.split)

lemma atom_intern_all_get:
  assumes "atom_table_ok t" "length (index_to_string t) + length ss \<le> 2 ^ 32"
  shows "atom_table_ok (snd (atom_intern_all ss t)) \<and>
    (\<forall>a s. atom_get t a = Some s \<longrightarrow> atom_get (snd (atom_intern_all ss t)) a = Some s) \<and>
    map (atom_get (snd (atom_intern_all ss t))) (fst (atom_intern_all ss t)) = map Some ss"
  using assms
proof (induction ss arbitrary: t)
  case Nil
  then show ?case by simp
next
  case (Cons s ss)
  obtain a t1 where i: "atom_intern s t = (a, t1)" by (cases "atom_intern s t")
  obtain as t2 where r: "atom_intern_all ss t1 = (as, t2)" by (cases "atom_intern_all ss t1")
  have room: "length (index_to_string t) < 2 ^ 32" using Cons.prems(2) by simp
  have ok1: "atom_table_ok t1" using atom_intern_ok [OF Cons.prems(1) room, of s] i by simp
  have "length (index_to_string t1) + length ss \<le> 2 ^ 32"
    using Cons.prems(2) atom_intern_length [of s t] i by simp
  note IH = Cons.IH [OF ok1 this, unfolded r fst_conv snd_conv]
  have "atom_get t1 a = Some s" using atom_intern_get [OF Cons.prems(1) room, of s] i by simp
  then have "atom_get t2 a = Some s" using IH by blast
  moreover have "atom_get t2 b = Some s'" if "atom_get t b = Some s'" for b s'
    using atom_intern_stable [OF that, of s] i IH by simp
  ultimately show ?case using IH i r by simp
qed

section \<open>Nodes, process identifiers and references\<close>

text \<open>
  \<open>THIS_NODE\<close> is a \<open>OnceLock\<close>: it is set at most once.  \<open>None\<close> is the undistributed node, whose name
  is the empty atom.
\<close>

type_synonym node = string

record node_identity =
  ni_name :: node
  ni_creation :: "32 word"

definition init_node :: "node \<Rightarrow> 32 word \<Rightarrow> node_identity option \<Rightarrow> (node_identity + unit) \<times> node_identity option" where
  "init_node name creation this =
    (let ident = \<lparr> ni_name = name, ni_creation = creation \<rparr> in
     case this of None \<Rightarrow> (Inr (), Some ident) | Some old \<Rightarrow> (Inl ident, Some old))"

definition node_name_atom :: "node_identity option \<Rightarrow> node" where
  "node_name_atom this = (case this of None \<Rightarrow> '''' | Some n \<Rightarrow> ni_name n)"

text \<open>The part before the first \<open>@\<close> of a node name, and the part between the first and the second.\<close>

definition short_name :: "node \<Rightarrow> string" where
  "short_name s = takeWhile (\<lambda>c. c \<noteq> CHR ''@'') s"

definition host :: "node \<Rightarrow> string" where
  "host s = takeWhile (\<lambda>c. c \<noteq> CHR ''@'') (drop 1 (dropWhile (\<lambda>c. c \<noteq> CHR ''@'') s))"

record pid =
  pid_node :: node
  pid_id :: "64 word"
  pid_creation :: "32 word"

record pid_source =
  ps_this :: "node_identity option"
  ps_counter :: "64 word"
  ps_creation :: "32 word"

definition pid_new :: "pid_source \<Rightarrow> pid \<times> pid_source" where
  "pid_new g =
    (\<lparr> pid_node = node_name_atom (ps_this g), pid_id = ps_counter g, pid_creation = ps_creation g \<rparr>,
     g\<lparr> ps_counter := ps_counter g + 1 \<rparr>)"

definition increment_creation :: "pid_source \<Rightarrow> 32 word \<times> pid_source" where
  "increment_creation g = (ps_creation g + 1, g\<lparr> ps_creation := ps_creation g + 1 \<rparr>)"

definition pid_is_local :: "node_identity option \<Rightarrow> pid \<Rightarrow> bool" where
  "pid_is_local this p = (pid_node p = node_name_atom this)"

fun pid_new_n :: "nat \<Rightarrow> pid_source \<Rightarrow> pid list \<times> pid_source" where
  "pid_new_n 0 g = ([], g)"
| "pid_new_n (Suc n) g =
    (let (p, g1) = pid_new g; (ps, g2) = pid_new_n n g1 in (p # ps, g2))"

lemma pid_new_n_ids:
  "map pid_id (fst (pid_new_n n g)) = map (\<lambda>i. ps_counter g + word_of_nat i) [0..<n]"
proof (induction n arbitrary: g)
  case 0
  then show ?case by simp
next
  case (Suc n)
  have "map pid_id (fst (pid_new_n n (snd (pid_new g)))) =
      map (\<lambda>i. ps_counter g + word_of_nat (Suc i)) [0..<n]"
    using Suc.IH [of "snd (pid_new g)"] by (simp add: pid_new_def ac_simps)
  then have "map pid_id (fst (pid_new_n (Suc n) g)) =
      ps_counter g # map (\<lambda>i. ps_counter g + word_of_nat (Suc i)) [0..<n]"
    by (simp add: pid_new_def case_prod_unfold Let_def)
  also have "\<dots> = map (\<lambda>i. ps_counter g + word_of_nat i) (0 # map Suc [0..<n])"
    by (simp add: o_def del: of_nat_Suc)
  finally show ?case by (simp only: map_Suc_upt upt_conv_Cons [of 0 "Suc n", OF zero_less_Suc])
qed

lemma pid_new_n_local:
  "p \<in> set (fst (pid_new_n n g)) \<Longrightarrow>
    pid_is_local (ps_this g) p \<and> pid_creation p = ps_creation g"
proof (induction n arbitrary: g)
  case (Suc n)
  let ?g = "snd (pid_new g)"
  have src: "ps_this ?g = ps_this g" "ps_creation ?g = ps_creation g"
    by (simp_all add: pid_new_def)
  have "fst (pid_new_n (Suc n) g) = fst (pid_new g) # fst (pid_new_n n ?g)"
    by (simp add: split_def Let_def)
  then consider "p = fst (pid_new g)" | "p \<in> set (fst (pid_new_n n ?g))"
    using Suc.prems by auto
  then show ?case
  proof cases
    case 1
    then show ?thesis by (simp add: pid_new_def pid_is_local_def)
  next
    case 2
    then show ?thesis using Suc.IH [OF 2] src by simp
  qed
qed simp

lemma word_of_nat_inj_64:
  assumes "i < 2 ^ 64" "j < 2 ^ 64" "(word_of_nat i :: 64 word) = word_of_nat j"
  shows "i = j"
proof -
  have "unat (word_of_nat n :: 64 word) = n" if "n < 2 ^ 64" for n
    using that by (simp add: unat_of_nat take_bit_nat_eq_self)
  then show ?thesis using assms by metis
qed

section \<open>Exit reasons\<close>

datatype exit_reason = Normal | Shutdown | ShutdownReason string | Killed | Error string

fun is_normal :: "exit_reason \<Rightarrow> bool" where
  "is_normal Normal = True"
| "is_normal Shutdown = True"
| "is_normal (ShutdownReason _) = True"
| "is_normal _ = False"

definition is_abnormal :: "exit_reason \<Rightarrow> bool" where
  "is_abnormal r = (\<not> is_normal r)"

fun is_killed :: "exit_reason \<Rightarrow> bool" where
  "is_killed Killed = True"
| "is_killed _ = False"

text \<open>\<open>Display\<close>, and the \<open>From<&str>\<close> with which a reason is read back from a remote node.\<close>

fun exit_display :: "exit_reason \<Rightarrow> string" where
  "exit_display Normal = ''normal''"
| "exit_display Shutdown = ''shutdown''"
| "exit_display (ShutdownReason reason) = ''shutdown: '' @ reason"
| "exit_display Killed = ''killed''"
| "exit_display (Error msg) = ''error: '' @ msg"

definition exit_from_str :: "string \<Rightarrow> exit_reason" where
  "exit_from_str s = Error s"

lemma exit_display_inj: "exit_display r = exit_display r' \<Longrightarrow> r = r'"
  by (cases r; cases r') simp_all

section \<open>System messages\<close>

type_synonym ref = "64 word"

datatype system_message =
    Exit (sm_from: pid) (sm_reason: exit_reason)
  | Down (sm_ref: ref) (sm_pid: pid) (sm_reason: exit_reason)
  | Timeout

section \<open>Names of processes\<close>

text \<open>Names under which a process can register; \<open>Via\<close> names a user-supplied registry object.\<close>

datatype name = NLocal string | NGlobal string | NVia string

section \<open>Properties\<close>

text \<open>Interning is a bijection between names and atoms.  Interning any list of names into a
  consistent table gives atoms that read back as exactly those names, two of the names get the same
  atom only when they are equal, and every atom interned before still reads back as its old name,
  as long as the table stays within the \<open>2 ^ 32\<close> names its 32-bit index can hold.\<close>

lemma atom_intern_bijection:
  assumes "atom_table_ok t" "length (index_to_string t) + length ss \<le> 2 ^ 32"
    and "atom_intern_all ss t = (atoms, t')"
  shows "map (atom_get t') atoms = map Some ss \<and>
    (\<forall>i j. i < length ss \<and> j < length ss \<longrightarrow> (atoms ! i = atoms ! j \<longleftrightarrow> ss ! i = ss ! j)) \<and>
    (\<forall>a s. atom_get t a = Some s \<longrightarrow> atom_get t' a = Some s)"
proof -
  have ok: "atom_table_ok t'" and stable: "\<forall>a s. atom_get t a = Some s \<longrightarrow> atom_get t' a = Some s"
    and get: "map (atom_get t') atoms = map Some ss"
    using atom_intern_all_get [OF assms(1,2)] assms(3) by simp_all
  have len: "length atoms = length ss" using get by (metis length_map)
  have nth: "atom_get t' (atoms ! i) = Some (ss ! i)" if "i < length ss" for i
    using get that len by (metis nth_map)
  have index: "hm_get (string_to_index t') (ss ! i) = Some (atoms ! i)" if "i < length ss" for i
    using ok nth [OF that] by (simp add: atom_table_ok_def)
  have "atoms ! i = atoms ! j \<longleftrightarrow> ss ! i = ss ! j" if "i < length ss" "j < length ss" for i j
    using nth index that by (metis option.inject)
  then show ?thesis using get stable by blast
qed

text \<open>Process identifiers are unique: the first \<open>2 ^ 64\<close> identifiers a node hands out with
  one creation number are pairwise different, carry the node's own name and that creation, and are
  recognised as local.\<close>

lemma pid_new_unique:
  assumes "n \<le> 2 ^ 64"
  shows "distinct (fst (pid_new_n n g)) \<and> length (fst (pid_new_n n g)) = n \<and>
    (\<forall>p \<in> set (fst (pid_new_n n g)).
       pid_is_local (ps_this g) p \<and> pid_creation p = ps_creation g)"
proof -
  have "inj_on (\<lambda>i. ps_counter g + word_of_nat i) {0..<n}"
    using assms by (auto intro!: inj_onI word_of_nat_inj_64)
  then have "distinct (map pid_id (fst (pid_new_n n g)))"
    by (simp only: pid_new_n_ids distinct_map set_upt) simp
  then have "distinct (fst (pid_new_n n g))" by (simp add: distinct_map)
  moreover have "length (fst (pid_new_n n g)) = n"
    using arg_cong [OF pid_new_n_ids [of n g], of length] by simp
  ultimately show ?thesis using pid_new_n_local by blast
qed

end
