(* ===== verification/Crdt.thy ===== *)
theory Crdt
  imports Core
begin

text \<open>
  The presence CRDT of \<open>presence/crdt.rs\<close>: an add-wins set of tracked entries with causal
  contexts.  A replica's state is the record \<open>crdt\<close> (the struct \<open>PresenceCrdt\<close>); each method is one
  definition here, in the order of the source.

  The theory proves the representation invariant, what each operation does to the entries stored
  under each key, and what a merge does as a set operation.  \<open>Crdt_Net\<close> then runs several
  replicas against each other.
\<close>

section \<open>Data\<close>

type_synonym replica = string
type_synonym clock = "64 word"
type_synonym causal_context = "(replica, clock) hmap"
type_synonym slot = "string \<times> string"

record tag =
  tag_replica :: replica
  tag_clock :: clock

record tracked_entry =
  te_topic :: string
  te_pid :: pid
  te_key :: string
  te_meta :: "byte list"
  te_tag :: tag

datatype replica_status = RUp | RDown (down_since: "64 word") (down_temporary: bool)

record presence_delta =
  d_joins :: "tracked_entry list"
  d_leave_tags :: "tag list"
  d_context :: causal_context

definition delta_default :: presence_delta where
  "delta_default = \<lparr> d_joins = [], d_leave_tags = [], d_context = [] \<rparr>"

definition delta_is_empty :: "presence_delta \<Rightarrow> bool" where
  "delta_is_empty d = (d_joins d = [] \<and> d_leave_tags d = [])"

definition joins_for_topic :: "string \<Rightarrow> presence_delta \<Rightarrow> tracked_entry list" where
  "joins_for_topic topic d = filter (\<lambda>e. te_topic e = topic) (d_joins d)"

record merge_result =
  mr_joins :: "tracked_entry list"
  mr_leaves :: "tracked_entry list"

definition merge_result_is_empty :: "merge_result \<Rightarrow> bool" where
  "merge_result_is_empty r = (mr_joins r = [] \<and> mr_leaves r = [])"

record crdt =
  c_replica :: replica
  c_clock :: clock
  c_context :: causal_context
  c_values :: "(slot, tracked_entry list) hmap"
  c_pid_index :: "(pid, slot list) hmap"
  c_replicas :: "(replica, replica_status) hmap"
  c_delta :: presence_delta

section \<open>Operations\<close>

definition crdt_new :: "replica \<Rightarrow> crdt" where
  "crdt_new r = \<lparr> c_replica = r, c_clock = 0, c_context = [(r, 0)], c_values = [],
     c_pid_index = [], c_replicas = [], c_delta = delta_default \<rparr>"

definition prune_empty :: "(slot, tracked_entry list) hmap \<Rightarrow> (slot, tracked_entry list) hmap" where
  "prune_empty = hm_retain (\<lambda>_ es. es \<noteq> [])"

definition track :: "string \<Rightarrow> pid \<Rightarrow> string \<Rightarrow> byte list \<Rightarrow> crdt \<Rightarrow> tag \<times> crdt" where
  "track topic p key meta s =
    (let clock = c_clock s + 1;
         tag = \<lparr> tag_replica = c_replica s, tag_clock = clock \<rparr>;
         context = hm_insert (c_replica s) clock (c_context s);
         entry = \<lparr> te_topic = topic, te_pid = p, te_key = key, te_meta = meta, te_tag = tag \<rparr>
     in (tag, s\<lparr> c_clock := clock, c_context := context,
       c_values := hm_entry (topic, key) [] (\<lambda>es. es @ [entry]) (c_values s),
       c_pid_index := hm_entry p [] (\<lambda>ks. ks @ [(topic, key)]) (c_pid_index s),
       c_delta := (c_delta s)\<lparr> d_joins := d_joins (c_delta s) @ [entry], d_context := context \<rparr> \<rparr>))"

definition untrack :: "string \<Rightarrow> string \<Rightarrow> pid \<Rightarrow> crdt \<Rightarrow> tag list \<times> crdt" where
  "untrack topic key p s =
    (let removed = map te_tag (filter (\<lambda>e. te_pid e = p) (hm_at (c_values s) (topic, key)));
         values = hm_get_mut (topic, key) (filter (\<lambda>e. te_pid e \<noteq> p)) (c_values s);
         delta = (c_delta s)\<lparr> d_leave_tags := d_leave_tags (c_delta s) @ removed \<rparr>;
         pid_index =
           (case hm_get (c_pid_index s) p of
              None \<Rightarrow> c_pid_index s
            | Some keys \<Rightarrow>
               (let keys' = filter (\<lambda>(t, k). t \<noteq> topic \<or> k \<noteq> key) keys
                in if keys' = [] then hm_remove p (c_pid_index s)
                   else hm_insert p keys' (c_pid_index s)))
     in (removed, s\<lparr> c_values := prune_empty values, c_pid_index := pid_index,
       c_delta := if removed \<noteq> [] then delta\<lparr> d_context := c_context s \<rparr> else delta \<rparr>))"

text \<open>One round of the loop of \<open>untrack_all\<close>: the entries of \<open>p\<close> under one slot are drained, their
  tags go to the delta and the entries to the result, grouped by topic.\<close>

fun untrack_slot :: "pid \<Rightarrow> slot \<Rightarrow>
    (slot, tracked_entry list) hmap \<times> tag list \<times> (string, tracked_entry list) hmap \<Rightarrow>
    (slot, tracked_entry list) hmap \<times> tag list \<times> (string, tracked_entry list) hmap" where
  "untrack_slot p (topic, key) (values, leaves, removed) =
    (case hm_get values (topic, key) of
       None \<Rightarrow> (values, leaves, removed)
     | Some entries \<Rightarrow>
        (let (keep, gone) = drain (\<lambda>e. te_pid e = p) entries
         in (hm_insert (topic, key) keep values, leaves @ map te_tag gone,
             fold (\<lambda>e. hm_entry topic [] (\<lambda>l. l @ [e])) gone removed)))"

definition untrack_all :: "pid \<Rightarrow> crdt \<Rightarrow> (string, tracked_entry list) hmap \<times> crdt" where
  "untrack_all p s =
    (let keys = hm_at (c_pid_index s) p;
         (values, leaves, removed) = fold (untrack_slot p) keys (c_values s, d_leave_tags (c_delta s), []);
         delta = (c_delta s)\<lparr> d_leave_tags := leaves \<rparr>
     in (removed, s\<lparr> c_values := prune_empty values, c_pid_index := hm_remove p (c_pid_index s),
       c_delta := if removed \<noteq> [] then delta\<lparr> d_context := c_context s \<rparr> else delta \<rparr>))"

definition is_replica_up :: "crdt \<Rightarrow> replica \<Rightarrow> bool" where
  "is_replica_up s r =
    (case hm_get (c_replicas s) r of Some (RDown _ _) \<Rightarrow> False | _ \<Rightarrow> True)"

definition online :: "crdt \<Rightarrow> tracked_entry list \<Rightarrow> tracked_entry list" where
  "online s es = filter (\<lambda>e. is_replica_up s (tag_replica (te_tag e))) es"

definition crdt_list :: "string \<Rightarrow> crdt \<Rightarrow> (string, tracked_entry list) hmap" where
  "crdt_list topic s =
    fold (\<lambda>((t, k), entries) result.
        if t \<noteq> topic then result
        else if online s entries = [] then result
        else hm_insert k (online s entries) result)
      (c_values s) []"

definition crdt_list_all :: "crdt \<Rightarrow> (string, (string, tracked_entry list) hmap) hmap" where
  "crdt_list_all s =
    fold (\<lambda>((t, k), entries) result.
        if online s entries = [] then result
        else hm_entry t [] (hm_insert k (online s entries)) result)
      (c_values s) []"

definition crdt_get :: "string \<Rightarrow> string \<Rightarrow> crdt \<Rightarrow> tracked_entry list option" where
  "crdt_get topic key s =
    (case hm_get (c_values s) (topic, key) of
       None \<Rightarrow> None
     | Some entries \<Rightarrow> (if online s entries = [] then None else Some (online s entries)))"

text \<open>The three phases of \<open>merge\<close>: leaves by tag, joins against the context the replica had at the
  start, then the contexts.\<close>

definition merge_leave ::
    "tag \<Rightarrow> (slot, tracked_entry list) hmap \<times> tracked_entry list \<Rightarrow>
     (slot, tracked_entry list) hmap \<times> tracked_entry list" where
  "merge_leave tag = (\<lambda>(values, leaves).
     let (values', gone) = drain_values (\<lambda>e. te_tag e = tag) values in (values', leaves @ gone))"

definition dominated :: "causal_context \<Rightarrow> tracked_entry \<Rightarrow> bool" where
  "dominated ctx e =
    (case hm_get ctx (tag_replica (te_tag e)) of
       Some clock \<Rightarrow> tag_clock (te_tag e) \<le> clock
     | None \<Rightarrow> False)"

definition merge_join ::
    "causal_context \<Rightarrow> tracked_entry \<Rightarrow>
     (slot, tracked_entry list) hmap \<times> (pid, slot list) hmap \<times> tracked_entry list \<Rightarrow>
     (slot, tracked_entry list) hmap \<times> (pid, slot list) hmap \<times> tracked_entry list" where
  "merge_join ctx e = (\<lambda>(values, pid_index, joins).
    (if \<not> dominated ctx e then
       let key = (te_topic e, te_key e);
           exists = (case hm_get values key of
                       Some entries \<Rightarrow> list_ex (\<lambda>x. te_tag x = te_tag e) entries
                     | None \<Rightarrow> False)
       in if \<not> exists then
            (hm_entry key [] (\<lambda>es. es @ [e]) values,
             hm_entry (te_pid e) [] (\<lambda>ks. ks @ [key]) pid_index,
             joins @ [e])
          else (values, pid_index, joins)
     else (values, pid_index, joins)))"

definition merge_clock :: "replica \<times> clock \<Rightarrow> causal_context \<Rightarrow> causal_context" where
  "merge_clock = (\<lambda>(r, clock) ctx.
    let ours = (case hm_get ctx r of Some c \<Rightarrow> c | None \<Rightarrow> 0)
    in if clock > ours then hm_insert r clock ctx else ctx)"

definition merge :: "presence_delta \<Rightarrow> crdt \<Rightarrow> merge_result \<times> crdt" where
  "merge remote s =
    (let original_context = c_context s;
         (values, leaves) = fold merge_leave (d_leave_tags remote) (c_values s, []);
         values = prune_empty values;
         (values, pid_index, joins) =
           fold (merge_join original_context) (d_joins remote) (values, c_pid_index s, []);
         context = fold merge_clock (d_context remote) (c_context s)
     in (\<lparr> mr_joins = joins, mr_leaves = leaves \<rparr>,
         s\<lparr> c_values := values, c_pid_index := pid_index, c_context := context \<rparr>))"

definition crdt_extract :: "causal_context \<Rightarrow> crdt \<Rightarrow> presence_delta" where
  "crdt_extract remote_context s =
    delta_default\<lparr>
      d_joins := filter (\<lambda>e.
          let remote_clock =
            (case hm_get remote_context (tag_replica (te_tag e)) of Some c \<Rightarrow> c | None \<Rightarrow> 0)
          in tag_clock (te_tag e) > remote_clock) (concat (hm_values (c_values s))),
      d_context := c_context s \<rparr>"

definition crdt_extract_all :: "crdt \<Rightarrow> presence_delta" where
  "crdt_extract_all s =
    delta_default\<lparr> d_joins := concat (hm_values (c_values s)), d_context := c_context s \<rparr>"

definition entries_of_replica :: "replica \<Rightarrow> crdt \<Rightarrow> tracked_entry list" where
  "entries_of_replica r s =
    filter (\<lambda>e. tag_replica (te_tag e) = r) (concat (hm_values (c_values s)))"

definition replica_up :: "replica \<Rightarrow> crdt \<Rightarrow> tracked_entry list \<times> crdt" where
  "replica_up r s =
    (let was_down = \<not> is_replica_up s r;
         s' = s\<lparr> c_replicas := hm_insert r RUp (c_replicas s) \<rparr>
     in (if was_down then entries_of_replica r s' else [], s'))"

definition replica_down :: "64 word \<Rightarrow> replica \<Rightarrow> bool \<Rightarrow> crdt \<Rightarrow> tracked_entry list \<times> crdt" where
  "replica_down now r temporary s =
    (let was_up = is_replica_up s r;
         s' = s\<lparr> c_replicas := hm_insert r (RDown now temporary) (c_replicas s) \<rparr>
     in (if was_up then entries_of_replica r s' else [], s'))"

definition remove_down_replica :: "replica \<Rightarrow> crdt \<Rightarrow> tracked_entry list \<times> crdt" where
  "remove_down_replica r s =
    (let (values, removed) = drain_values (\<lambda>e. tag_replica (te_tag e) = r) (c_values s)
     in (removed, s\<lparr> c_values := prune_empty values, c_replicas := hm_remove r (c_replicas s) \<rparr>))"

definition has_delta :: "crdt \<Rightarrow> bool" where
  "has_delta s = (\<not> delta_is_empty (c_delta s))"

definition take_delta :: "crdt \<Rightarrow> presence_delta option \<times> crdt" where
  "take_delta s =
    (if delta_is_empty (c_delta s) then (None, s)
     else (Some (c_delta s), s\<lparr> c_delta := delta_default \<rparr>))"

definition crdt_len :: "crdt \<Rightarrow> nat" where
  "crdt_len s = sum_list (map length (hm_values (c_values s)))"

definition crdt_is_empty :: "crdt \<Rightarrow> bool" where
  "crdt_is_empty s = (c_values s = [])"

section \<open>The representation invariant\<close>

text \<open>
  \<open>slot_at s t k\<close> is what is stored under topic \<open>t\<close> and key \<open>k\<close>.  The invariant: the maps are maps, no slot
  is stored empty, an entry lies in the slot it names, and the process index covers every entry
  (it may name slots a process no longer has: a merge that removes entries does not clean it).
\<close>

definition slot_at :: "crdt \<Rightarrow> slot \<Rightarrow> tracked_entry list" where
  "slot_at s = hm_at (c_values s)"

definition crdt_entries :: "crdt \<Rightarrow> tracked_entry set" where
  "crdt_entries s = set (concat (hm_values (c_values s)))"

definition values_ok :: "(slot, tracked_entry list) hmap \<Rightarrow> (pid, slot list) hmap \<Rightarrow> bool" where
  "values_ok values pidx \<longleftrightarrow> hm_ok values \<and> hm_ok pidx \<and>
     (\<forall>k. \<forall>e \<in> set (hm_at values k).
        (te_topic e, te_key e) = k \<and> k \<in> set (hm_at pidx (te_pid e)))"

definition crdt_ok :: "crdt \<Rightarrow> bool" where
  "crdt_ok s \<longleftrightarrow> values_ok (c_values s) (c_pid_index s) \<and> hm_tight (c_values s) \<and>
     hm_ok (c_context s) \<and> hm_ok (c_replicas s)"

lemma hm_ok_prune [simp]: "hm_ok m \<Longrightarrow> hm_ok (prune_empty m)"
  by (simp add: prune_empty_def)

lemma hm_at_prune [simp]: "hm_ok m \<Longrightarrow> hm_at (prune_empty m) k = hm_at m k"
  by (simp add: prune_empty_def)

lemma hm_tight_prune [simp]: "hm_tight (prune_empty m)"
  by (simp add: prune_empty_def)

lemma crdt_okD:
  assumes "crdt_ok s"
  shows "hm_ok (c_values s)" "hm_ok (c_pid_index s)" "hm_tight (c_values s)"
    "hm_ok (c_context s)" "hm_ok (c_replicas s)"
  using assms by (simp_all add: crdt_ok_def values_ok_def)

lemma crdt_ok_slot:
  "crdt_ok s \<Longrightarrow> e \<in> set (slot_at s k) \<Longrightarrow> (te_topic e, te_key e) = k"
  unfolding crdt_ok_def values_ok_def slot_at_def by blast

lemma crdt_ok_index:
  "crdt_ok s \<Longrightarrow> e \<in> set (slot_at s k) \<Longrightarrow> k \<in> set (hm_at (c_pid_index s) (te_pid e))"
  unfolding crdt_ok_def values_ok_def slot_at_def by blast

lemma crdt_entries_at: "crdt_ok s \<Longrightarrow> crdt_entries s = (\<Union>k. set (slot_at s k))"
  unfolding crdt_entries_def slot_at_def by (rule set_concat_hm_values [OF crdt_okD(1)])

lemma in_crdt_entries: "crdt_ok s \<Longrightarrow> e \<in> crdt_entries s \<longleftrightarrow> e \<in> set (slot_at s (te_topic e, te_key e))"
  using crdt_ok_slot by (auto simp: crdt_entries_at)

lemma values_ok_subset:
  assumes "values_ok v p" "hm_ok v'" "hm_ok p'"
    and "\<And>k e. e \<in> set (hm_at v' k) \<Longrightarrow> e \<in> set (hm_at v k) \<and> k \<in> set (hm_at p' (te_pid e))"
  shows "values_ok v' p'"
  using assms unfolding values_ok_def by blast

lemma values_ok_filter:
  assumes "values_ok v p"
  shows "values_ok (prune_empty (hm_map_values (filter Q) v)) p"
  using assms by (intro values_ok_subset [OF assms]) (auto simp: values_ok_def hm_at_map_values)

lemma values_ok_add:
  assumes "values_ok v p" "k = (te_topic e, te_key e)"
  shows "values_ok (hm_entry k [] (\<lambda>es. es @ [e]) v) (hm_entry (te_pid e) [] (\<lambda>ks. ks @ [k]) p)"
  using assms by (fastforce simp: values_ok_def)

section \<open>Local operations\<close>

lemma crdt_new_ok [simp]: "crdt_ok (crdt_new r)"
  by (simp add: crdt_ok_def crdt_new_def values_ok_def)

definition track_entry :: "string \<Rightarrow> pid \<Rightarrow> string \<Rightarrow> byte list \<Rightarrow> crdt \<Rightarrow> tracked_entry" where
  "track_entry topic p key meta s =
    \<lparr> te_topic = topic, te_pid = p, te_key = key, te_meta = meta,
      te_tag = \<lparr> tag_replica = c_replica s, tag_clock = c_clock s + 1 \<rparr> \<rparr>"

lemma track_at:
  "slot_at (snd (track t p k m s)) j =
    (if j = (t, k) then slot_at s j @ [track_entry t p k m s] else slot_at s j)"
  by (simp add: track_def Let_def slot_at_def track_entry_def)

lemma track_ok: "crdt_ok s \<Longrightarrow> crdt_ok (snd (track t p k m s))"
  using values_ok_add [of "c_values s" "c_pid_index s" "(t, k)" "track_entry t p k m s"]
  by (auto simp: crdt_ok_def track_def Let_def track_entry_def values_ok_def [of "c_values s"])

lemma untrack_values:
  "c_values (snd (untrack t k p s)) =
    prune_empty (hm_get_mut (t, k) (filter (\<lambda>e. te_pid e \<noteq> p)) (c_values s))"
  by (simp add: untrack_def Let_def)

lemma untrack_index:
  assumes "hm_ok (c_pid_index s)"
  shows "hm_ok (c_pid_index (snd (untrack t k p s)))"
    and "set (hm_at (c_pid_index (snd (untrack t k p s))) q) =
      (if q = p then set (hm_at (c_pid_index s) q) - {(t, k)} else set (hm_at (c_pid_index s) q))"
proof -
  have *: "hm_at (c_pid_index (snd (untrack t k p s))) q =
      (if q = p then filter (\<lambda>(t', k'). t' \<noteq> t \<or> k' \<noteq> k) (hm_at (c_pid_index s) q)
       else hm_at (c_pid_index s) q)"
    by (auto simp: untrack_def Let_def hm_at_def split: option.split)
  show "hm_ok (c_pid_index (snd (untrack t k p s)))"
    using assms by (simp add: untrack_def Let_def split: option.split)
  show "set (hm_at (c_pid_index (snd (untrack t k p s))) q) =
      (if q = p then set (hm_at (c_pid_index s) q) - {(t, k)} else set (hm_at (c_pid_index s) q))"
    unfolding * by auto
qed

lemma untrack_at:
  assumes "crdt_ok s"
  shows "slot_at (snd (untrack t k p s)) j =
    (if j = (t, k) then filter (\<lambda>e. te_pid e \<noteq> p) (slot_at s j) else slot_at s j)"
  using crdt_okD(1) [OF assms] by (simp add: slot_at_def untrack_values hm_at_get_mut)

lemma untrack_ok:
  assumes ok: "crdt_ok s"
  shows "crdt_ok (snd (untrack t k p s))"
proof -
  let ?s = "snd (untrack t k p s)"
  have "values_ok (c_values ?s) (c_pid_index ?s)"
  proof (rule values_ok_subset)
    show "values_ok (c_values s) (c_pid_index s)" using ok by (simp add: crdt_ok_def)
    show "hm_ok (c_values ?s)" using crdt_okD(1) [OF ok] by (simp add: untrack_values)
    show "hm_ok (c_pid_index ?s)" by (rule untrack_index(1) [OF crdt_okD(2) [OF ok]])
    fix j e
    assume "e \<in> set (hm_at (c_values ?s) j)"
    then have e: "e \<in> set (slot_at s j)" and "j = (t, k) \<longrightarrow> te_pid e \<noteq> p"
      using untrack_at [OF ok, of t k p j] by (auto simp: slot_at_def split: if_splits)
    then show "e \<in> set (hm_at (c_values s) j) \<and> j \<in> set (hm_at (c_pid_index ?s) (te_pid e))"
      using crdt_ok_index [OF ok e] untrack_index(2) [OF crdt_okD(2) [OF ok], of t k p "te_pid e"]
      by (auto simp: slot_at_def)
  qed
  moreover have "c_context ?s = c_context s" "c_replicas ?s = c_replicas s"
    by (simp_all add: untrack_def Let_def)
  ultimately show ?thesis
    using ok by (simp add: crdt_ok_def untrack_values)
qed

subsection \<open>\<open>untrack_all\<close>\<close>

lemma untrack_group:
  "hm_at (fold (\<lambda>e. hm_entry t [] (\<lambda>l. l @ [e])) gone removed) j =
    (if j = t then hm_at removed t @ gone else hm_at removed j)"
  by (induction gone arbitrary: removed) auto

lemma untrack_group_ok:
  "hm_ok removed \<Longrightarrow> hm_ok (fold (\<lambda>e. hm_entry t [] (\<lambda>l. l @ [e])) gone removed)"
  by (induction gone arbitrary: removed) auto

lemma untrack_group_tight:
  "hm_ok removed \<Longrightarrow> hm_tight removed \<Longrightarrow>
    hm_tight (fold (\<lambda>e. hm_entry t [] (\<lambda>l. l @ [e])) gone removed)"
  by (induction gone arbitrary: removed) auto

lemma untrack_slots:
  assumes "fold (untrack_slot p) keys (v, l, r) = (v', l', r')" "hm_ok v" "hm_ok r" "hm_tight r"
  shows "hm_ok v' \<and> hm_ok r' \<and> hm_tight r' \<and>
    (\<forall>j. hm_at v' j = (if j \<in> set keys then filter (\<lambda>e. te_pid e \<noteq> p) (hm_at v j) else hm_at v j)) \<and>
    set l' = set l \<union> te_tag ` (\<Union>j \<in> set keys. {e \<in> set (hm_at v j). te_pid e = p}) \<and>
    (\<forall>t. set (hm_at r' t) = set (hm_at r t) \<union>
      (\<Union>j \<in> {j \<in> set keys. fst j = t}. {e \<in> set (hm_at v j). te_pid e = p}))"
  using assms
proof (induction keys arbitrary: v l r)
  case Nil
  then show ?case by simp
next
  case (Cons j0 keys)
  obtain t0 k0 where j0: "j0 = (t0, k0)" by (cases j0)
  obtain v1 l1 r1 where step: "untrack_slot p j0 (v, l, r) = (v1, l1, r1)"
    by (cases "untrack_slot p j0 (v, l, r)")
  let ?gone = "filter (\<lambda>e. te_pid e = p) (hm_at v j0)"
  have v1: "hm_at v1 j = (if j = j0 then filter (\<lambda>e. te_pid e \<noteq> p) (hm_at v j) else hm_at v j)" for j
    using step j0 by (auto simp: hm_at_def split: option.splits)
  have l1: "l1 = l @ map te_tag ?gone"
    using step j0 by (auto simp: hm_at_def split: option.splits)
  have r1: "hm_at r1 t = (if t = t0 then hm_at r t0 @ ?gone else hm_at r t)" for t
    using step j0 by (auto simp: untrack_group hm_at_def [of v] split: option.splits)
  have ok: "hm_ok v1" "hm_ok r1" "hm_tight r1"
    using step j0 Cons.prems(2-4) untrack_group_ok untrack_group_tight
    by (auto split: option.splits)
  have rest: "fold (untrack_slot p) keys (v1, l1, r1) = (v', l', r')"
    using Cons.prems(1) step by simp
  note IH = Cons.IH [OF rest ok]
  have A1: "{e \<in> set (hm_at v j0). te_pid e = p} \<union>
      (\<Union>j \<in> set keys. {e \<in> set (hm_at v1 j). te_pid e = p}) =
      {e \<in> set (hm_at v j0). te_pid e = p} \<union> (\<Union>j \<in> set keys. {e \<in> set (hm_at v j). te_pid e = p})"
    by (auto simp: v1 split: if_splits)
  have "hm_at v' j = (if j \<in> set (j0 # keys) then filter (\<lambda>e. te_pid e \<noteq> p) (hm_at v j) else hm_at v j)" for j
    using IH v1 [of j] by (cases "j = j0") (simp_all add: conj_ac)
  moreover have "set l' = set l \<union>
      te_tag ` (\<Union>j \<in> set (j0 # keys). {e \<in> set (hm_at v j). te_pid e = p})"
  proof -
    have "set l' = set l \<union> te_tag ` {e \<in> set (hm_at v j0). te_pid e = p} \<union>
        te_tag ` (\<Union>j \<in> set keys. {e \<in> set (hm_at v1 j). te_pid e = p})"
      using IH l1 by (simp add: Un_assoc)
    then show ?thesis by (simp only: list.set UN_insert Un_assoc image_Un [symmetric] A1)
  qed
  moreover have "set (hm_at r' t) = set (hm_at r t) \<union>
      (\<Union>j \<in> {j \<in> set (j0 # keys). fst j = t}. {e \<in> set (hm_at v j). te_pid e = p})" for t
  proof -
    have "set (hm_at r' t) = set (hm_at r1 t) \<union>
      (\<Union>j \<in> {j \<in> set keys. fst j = t}. {e \<in> set (hm_at v1 j). te_pid e = p})"
      using IH by blast
    also have "set (hm_at r1 t) = set (hm_at r t) \<union>
        (if t = t0 then {e \<in> set (hm_at v j0). te_pid e = p} else {})"
      by (auto simp: r1)
    finally show ?thesis using j0 by (auto simp: v1 split: if_splits)
  qed
  ultimately show ?case using IH by blast
qed

lemma untrack_all_effect:
  assumes ok: "crdt_ok s" and res: "untrack_all p s = (removed, s')"
  shows "slot_at s' j = filter (\<lambda>e. te_pid e \<noteq> p) (slot_at s j)"
    and "hm_at (c_pid_index s') q = (if q = p then [] else hm_at (c_pid_index s) q)"
    and "set (d_leave_tags (c_delta s')) = set (d_leave_tags (c_delta s)) \<union>
      te_tag ` {e \<in> crdt_entries s. te_pid e = p}"
    and "set (hm_at removed t) = {e \<in> crdt_entries s. te_pid e = p \<and> te_topic e = t}"
    and "hm_tight removed" "hm_ok removed" "hm_ok (c_values s')" "hm_tight (c_values s')"
proof -
  obtain v l r where f: "fold (untrack_slot p) (hm_at (c_pid_index s) p)
      (c_values s, d_leave_tags (c_delta s), []) = (v, l, r)"
    by (cases "fold (untrack_slot p) (hm_at (c_pid_index s) p)
      (c_values s, d_leave_tags (c_delta s), [])")
  note U = untrack_slots [OF f crdt_okD(1) [OF ok] hm_ok_Nil hm_tight_Nil]
  have s': "c_values s' = prune_empty v" "c_pid_index s' = hm_remove p (c_pid_index s)"
    "d_leave_tags (c_delta s') = l" "removed = r"
    using res f by (auto simp: untrack_all_def Let_def)
  have idx: "k \<in> set (hm_at (c_pid_index s) p)" if "e \<in> set (slot_at s k)" "te_pid e = p" for e k
    using crdt_ok_index [OF ok that(1)] that(2) by simp
  show "slot_at s' j = filter (\<lambda>e. te_pid e \<noteq> p) (slot_at s j)"
  proof (cases "j \<in> set (hm_at (c_pid_index s) p)")
    case True
    then show ?thesis using U s'(1) by (simp add: slot_at_def)
  next
    case False
    then have "\<forall>e \<in> set (slot_at s j). te_pid e \<noteq> p" using idx by blast
    then show ?thesis using U s'(1) False by (simp add: slot_at_def)
  qed
  show "hm_at (c_pid_index s') q = (if q = p then [] else hm_at (c_pid_index s) q)"
    by (simp add: s')
  have mine: "(\<Union>j \<in> set (hm_at (c_pid_index s) p). {e \<in> set (slot_at s j). te_pid e = p}) =
      {e \<in> crdt_entries s. te_pid e = p}"
    using idx unfolding crdt_entries_at [OF ok] by blast
  then show "set (d_leave_tags (c_delta s')) = set (d_leave_tags (c_delta s)) \<union>
      te_tag ` {e \<in> crdt_entries s. te_pid e = p}"
    using U s'(3) by (simp add: slot_at_def)
  have topic: "te_topic e = fst j" if "e \<in> set (slot_at s j)" for e j
    using crdt_ok_slot [OF ok that] by force
  have "set (hm_at removed t) =
      (\<Union>j \<in> {j \<in> set (hm_at (c_pid_index s) p). fst j = t}. {e \<in> set (slot_at s j). te_pid e = p})"
    using U s'(4) by (simp add: slot_at_def)
  also have "\<dots> = {e \<in> (\<Union>j \<in> set (hm_at (c_pid_index s) p). {e \<in> set (slot_at s j). te_pid e = p}).
      te_topic e = t}"
    by (rule UN_fibre) (simp add: topic)
  finally show "set (hm_at removed t) = {e \<in> crdt_entries s. te_pid e = p \<and> te_topic e = t}"
    unfolding mine by simp
  show "hm_tight removed" "hm_ok removed" using U s'(4) by simp_all
  show "hm_ok (c_values s')" "hm_tight (c_values s')" using U s'(1) by simp_all
qed

lemma untrack_all_frame:
  "c_context (snd (untrack_all p s)) = c_context s"
  "c_replicas (snd (untrack_all p s)) = c_replicas s"
  "c_clock (snd (untrack_all p s)) = c_clock s"
  "c_replica (snd (untrack_all p s)) = c_replica s"
  "c_pid_index (snd (untrack_all p s)) = hm_remove p (c_pid_index s)"
  "d_joins (c_delta (snd (untrack_all p s))) = d_joins (c_delta s)"
  by (simp_all add: untrack_all_def Let_def split_def)

lemma untrack_all_ok:
  assumes ok: "crdt_ok s"
  shows "crdt_ok (snd (untrack_all p s))"
proof -
  obtain removed s' where res: "untrack_all p s = (removed, s')" by (cases "untrack_all p s")
  note eff = untrack_all_effect [OF ok res]
  have s': "c_context s' = c_context s" "c_replicas s' = c_replicas s"
    "c_pid_index s' = hm_remove p (c_pid_index s)"
    using untrack_all_frame [of p s] res by simp_all
  have "values_ok (c_values s') (c_pid_index s')"
  proof (rule values_ok_subset)
    show "values_ok (c_values s) (c_pid_index s)" using ok by (simp add: crdt_ok_def)
    fix k e
    assume "e \<in> set (hm_at (c_values s') k)"
    then have e: "e \<in> set (slot_at s k)" "te_pid e \<noteq> p"
      using eff(1) [of k] by (auto simp: slot_at_def)
    then show "e \<in> set (hm_at (c_values s) k) \<and> k \<in> set (hm_at (c_pid_index s') (te_pid e))"
      using crdt_ok_index [OF ok e(1)] by (simp add: slot_at_def s')
  qed (use eff crdt_okD [OF ok] s' in simp_all)
  then show ?thesis using res ok eff s' by (simp add: crdt_ok_def)
qed

section \<open>Merging\<close>

subsection \<open>The three phases\<close>

definition slot_of :: "tracked_entry \<Rightarrow> slot" where
  "slot_of e = (te_topic e, te_key e)"

lemma hm_map_values_comp: "hm_map_values f (hm_map_values g m) = hm_map_values (f \<circ> g) m"
  by (induction m) (auto simp: hm_map_values_def)

lemma hm_map_values_id: "hm_map_values (\<lambda>v. v) m = m"
  by (induction m) (auto simp: hm_map_values_def)

lemma merge_leaves:
  assumes "fold merge_leave tags (v, out) = (v', out')"
  shows "v' = hm_map_values (filter (\<lambda>e. te_tag e \<notin> set tags)) v \<and>
    set out' = set out \<union> {e \<in> set (concat (hm_values v)). te_tag e \<in> set tags}"
  using assms
proof (induction tags arbitrary: v out)
  case Nil
  then show ?case by (simp add: hm_map_values_id)
next
  case (Cons t tags)
  let ?v = "hm_map_values (filter (\<lambda>e. te_tag e \<noteq> t)) v"
  let ?o = "out @ filter (\<lambda>e. te_tag e = t) (concat (hm_values v))"
  have "merge_leave t (v, out) = (?v, ?o)" by (simp add: merge_leave_def)
  then have "fold merge_leave tags (?v, ?o) = (v', out')"
    using Cons.prems by simp
  note IH = Cons.IH [OF this]
  have all: "set (concat (hm_values ?v)) = {e \<in> set (concat (hm_values v)). te_tag e \<noteq> t}"
    by (auto simp: concat_values_filter simp del: set_concat)
  have "v' = hm_map_values (filter (\<lambda>e. te_tag e \<notin> set (t # tags))) v"
    using IH by (simp add: hm_map_values_comp o_def conj_commute)
  moreover have "set out' = set out \<union> {e \<in> set (concat (hm_values v)). te_tag e \<in> set (t # tags)}"
    using IH all by auto
  ultimately show ?case by blast
qed

text \<open>Adding entries to a slot, each unless its tag is there already.\<close>

definition add_new :: "tracked_entry list \<Rightarrow> tracked_entry \<Rightarrow> tracked_entry list" where
  "add_new es e = (if te_tag e \<in> te_tag ` set es then es else es @ [e])"

definition tags_unique :: "tracked_entry set \<Rightarrow> bool" where
  "tags_unique E = inj_on te_tag E"

lemma tags_unique_subset: "tags_unique E \<Longrightarrow> F \<subseteq> E \<Longrightarrow> tags_unique F"
  unfolding tags_unique_def by (rule inj_on_subset)

lemma tags_uniqueD: "tags_unique E \<Longrightarrow> e \<in> E \<Longrightarrow> e' \<in> E \<Longrightarrow> te_tag e = te_tag e' \<Longrightarrow> e = e'"
  unfolding tags_unique_def by (rule inj_onD)

lemma add_new_tags: "te_tag ` set (foldl add_new xs es) = te_tag ` set xs \<union> te_tag ` set es"
  by (induction es arbitrary: xs) (auto simp: add_new_def)

lemma add_new_set:
  "tags_unique (set xs \<union> set es) \<Longrightarrow> set (foldl add_new xs es) = set xs \<union> set es"
proof (induction es arbitrary: xs)
  case Nil
  then show ?case by simp
next
  case (Cons e es)
  have "set (add_new xs e) = insert e (set xs)"
    using tags_uniqueD [OF Cons.prems, of e] by (auto simp: add_new_def)
  then show ?case using Cons.IH [of "add_new xs e"] Cons.prems by (simp add: insert_commute)
qed

lemma merge_join_step:
  "merge_join ctx e (v, p, out) =
    (if dominated ctx e \<or> te_tag e \<in> te_tag ` set (hm_at v (slot_of e)) then (v, p, out)
     else (hm_entry (slot_of e) [] (\<lambda>es. es @ [e]) v,
           hm_entry (te_pid e) [] (\<lambda>ks. ks @ [slot_of e]) p, out @ [e]))"
proof -
  have "(case hm_get v (te_topic e, te_key e) of
           Some es \<Rightarrow> list_ex (\<lambda>x. te_tag x = te_tag e) es | None \<Rightarrow> False) \<longleftrightarrow>
        te_tag e \<in> te_tag ` set (hm_at v (slot_of e))"
    by (auto simp: hm_at_def slot_of_def list_ex_iff image_iff split: option.splits)
  then show ?thesis by (simp add: merge_join_def slot_of_def Let_def)
qed

lemma merge_joins_at:
  assumes "fold (merge_join ctx) es (v, p, out) = (v', p', out')" "values_ok v p" "hm_tight v"
  shows "values_ok v' p' \<and> hm_tight v' \<and>
    (\<forall>k. hm_at v' k =
      foldl add_new (hm_at v k) (filter (\<lambda>e. \<not> dominated ctx e \<and> slot_of e = k) es))"
  using assms
proof (induction es arbitrary: v p out)
  case Nil
  then show ?case by simp
next
  case (Cons e es)
  show ?case
  proof (cases "dominated ctx e \<or> te_tag e \<in> te_tag ` set (hm_at v (slot_of e))")
    case True
    then have "fold (merge_join ctx) es (v, p, out) = (v', p', out')"
      using Cons.prems(1) by (simp add: merge_join_step)
    note IH = Cons.IH [OF this Cons.prems(2,3)]
    show ?thesis using IH True by (auto simp: add_new_def)
  next
    case False
    let ?v = "hm_entry (slot_of e) [] (\<lambda>es. es @ [e]) v"
    let ?p = "hm_entry (te_pid e) [] (\<lambda>ks. ks @ [slot_of e]) p"
    have step: "fold (merge_join ctx) es (?v, ?p, out @ [e]) = (v', p', out')"
      using Cons.prems(1) False by (simp add: merge_join_step)
    have "values_ok ?v ?p" using Cons.prems(2) by (intro values_ok_add) (simp_all add: slot_of_def)
    moreover have "hm_tight ?v"
      using Cons.prems(2,3) by (simp add: values_ok_def)
    ultimately have IH: "values_ok v' p'" "hm_tight v'"
      "hm_at v' k = foldl add_new (hm_at ?v k) (filter (\<lambda>e. \<not> dominated ctx e \<and> slot_of e = k) es)" for k
      using Cons.IH [OF step] by blast+
    have "hm_at v' k =
        foldl add_new (hm_at v k) (filter (\<lambda>e. \<not> dominated ctx e \<and> slot_of e = k) (e # es))" for k
      using IH(3) [of k] False by (cases "slot_of e = k") (simp_all add: add_new_def)
    then show ?thesis using IH by blast
  qed
qed

lemma merge_joins_out:
  assumes "fold (merge_join ctx) es (v, p, out) = (v', p', out')"
    and "tags_unique ((\<Union>k. set (hm_at v k)) \<union> set es)"
  shows "set out' = set out \<union> {e \<in> set es. \<not> dominated ctx e \<and> e \<notin> set (hm_at v (slot_of e))}"
  using assms
proof (induction es arbitrary: v p out)
  case Nil
  then show ?case by simp
next
  case (Cons e es)
  have there: "te_tag e \<in> te_tag ` set (hm_at v (slot_of e)) \<longleftrightarrow> e \<in> set (hm_at v (slot_of e))"
  proof
    assume "te_tag e \<in> te_tag ` set (hm_at v (slot_of e))"
    then obtain x where x: "x \<in> set (hm_at v (slot_of e))" "te_tag e = te_tag x" by blast
    have "e = x" by (rule tags_uniqueD [OF Cons.prems(2)]) (use x in auto)
    then show "e \<in> set (hm_at v (slot_of e))" using x by simp
  qed simp
  show ?case
  proof (cases "dominated ctx e \<or> te_tag e \<in> te_tag ` set (hm_at v (slot_of e))")
    case True
    then have "fold (merge_join ctx) es (v, p, out) = (v', p', out')"
      using Cons.prems(1) by (simp add: merge_join_step)
    moreover have "tags_unique ((\<Union>k. set (hm_at v k)) \<union> set es)"
      by (rule tags_unique_subset [OF Cons.prems(2)]) auto
    ultimately have "set out' =
        set out \<union> {e \<in> set es. \<not> dominated ctx e \<and> e \<notin> set (hm_at v (slot_of e))}"
      by (rule Cons.IH)
    then show ?thesis using True there by auto
  next
    case False
    let ?v = "hm_entry (slot_of e) [] (\<lambda>es. es @ [e]) v"
    have step: "fold (merge_join ctx) es (?v, hm_entry (te_pid e) [] (\<lambda>ks. ks @ [slot_of e]) p, out @ [e])
        = (v', p', out')"
      using Cons.prems(1) False by (simp add: merge_join_step)
    have v: "set (hm_at ?v k) = (if k = slot_of e then insert e (set (hm_at v k)) else set (hm_at v k))" for k
      by simp
    have "tags_unique ((\<Union>k. set (hm_at ?v k)) \<union> set es)"
      by (rule tags_unique_subset [OF Cons.prems(2)]) (auto simp: v split: if_splits)
    note IH = Cons.IH [OF step this]
    have "{e' \<in> set es. \<not> dominated ctx e' \<and> e' \<notin> set (hm_at ?v (slot_of e'))} =
        {e' \<in> set es. \<not> dominated ctx e' \<and> e' \<notin> set (hm_at v (slot_of e'))} - {e}"
      by (auto simp: v)
    then show ?thesis using IH False there by auto
  qed
qed

text \<open>A context read with \<open>0\<close> for an unknown replica, as \<open>merge\<close> and \<open>extract\<close> read it.\<close>

definition ctx_clock :: "causal_context \<Rightarrow> replica \<Rightarrow> clock" where
  "ctx_clock ctx r = (case hm_get ctx r of Some c \<Rightarrow> c | None \<Rightarrow> 0)"

lemma dominated_ctx_clock:
  "0 < tag_clock (te_tag e) \<Longrightarrow>
    dominated ctx e \<longleftrightarrow> tag_clock (te_tag e) \<le> ctx_clock ctx (tag_replica (te_tag e))"
  by (auto simp: dominated_def ctx_clock_def split: option.split)

lemma merge_clock_step:
  "ctx_clock (merge_clock (r, c) ctx) q = (if q = r then max (ctx_clock ctx r) c else ctx_clock ctx q)"
  "hm_ok ctx \<Longrightarrow> hm_ok (merge_clock (r, c) ctx)"
  by (auto simp: merge_clock_def ctx_clock_def Let_def max_def split: option.split)

lemma merge_clocks:
  "hm_ok remote \<Longrightarrow> ctx_clock (fold merge_clock remote ctx) q = max (ctx_clock ctx q) (ctx_clock remote q)"
proof (induction remote arbitrary: ctx)
  case Nil
  then show ?case by (simp add: ctx_clock_def)
next
  case (Cons rc remote)
  obtain r c where rc: "rc = (r, c)" by (cases rc)
  have ok: "hm_ok remote" and r: "hm_get remote r = None"
    using Cons.prems rc by (auto simp: hm_ok_def map_of_eq_None_iff)
  have "ctx_clock remote r = 0" using r by (simp add: ctx_clock_def)
  moreover have "ctx_clock (rc # remote) q = (if q = r then c else ctx_clock remote q)"
    using rc by (simp add: ctx_clock_def)
  ultimately show ?case
    using Cons.IH [OF ok, of "merge_clock rc ctx"] rc by (simp add: merge_clock_step)
qed

lemma merge_clocks_ok: "hm_ok ctx \<Longrightarrow> hm_ok (fold merge_clock remote ctx)"
  by (induction remote arbitrary: ctx) (auto simp: merge_clock_step)

subsection \<open>The whole merge\<close>

lemma merge_effect:
  assumes ok: "crdt_ok s" and res: "merge d s = (res, s')"
  shows "crdt_ok s'"
    and "slot_at s' k = foldl add_new (filter (\<lambda>e. te_tag e \<notin> set (d_leave_tags d)) (slot_at s k))
      (filter (\<lambda>e. \<not> dominated (c_context s) e \<and> slot_of e = k) (d_joins d))"
    and "c_context s' = fold merge_clock (d_context d) (c_context s)"
    and "c_replica s' = c_replica s" "c_clock s' = c_clock s" "c_replicas s' = c_replicas s"
      "c_delta s' = c_delta s"
    and "set (mr_leaves res) = {e \<in> crdt_entries s. te_tag e \<in> set (d_leave_tags d)}"
    and "tags_unique (crdt_entries s \<union> set (d_joins d)) \<Longrightarrow>
      set (mr_joins res) = {e \<in> set (d_joins d). \<not> dominated (c_context s) e \<and>
        \<not> (e \<in> crdt_entries s \<and> te_tag e \<notin> set (d_leave_tags d))}"
proof -
  let ?L = "set (d_leave_tags d)"
  obtain v1 leaves where f1: "fold merge_leave (d_leave_tags d) (c_values s, []) = (v1, leaves)"
    by (cases "fold merge_leave (d_leave_tags d) (c_values s, [])")
  obtain v2 p2 joins where f2: "fold (merge_join (c_context s)) (d_joins d)
      (prune_empty v1, c_pid_index s, []) = (v2, p2, joins)"
    by (cases "fold (merge_join (c_context s)) (d_joins d) (prune_empty v1, c_pid_index s, [])")
  have parts: "res = \<lparr> mr_joins = joins, mr_leaves = leaves \<rparr>"
    "s' = s\<lparr> c_values := v2, c_pid_index := p2,
      c_context := fold merge_clock (d_context d) (c_context s) \<rparr>"
    using res by (simp_all add: merge_def Let_def f1 f2)
  note L = merge_leaves [OF f1]
  have vals: "values_ok (c_values s) (c_pid_index s)" using ok by (simp add: crdt_ok_def)
  have v1: "values_ok (prune_empty v1) (c_pid_index s)"
    using values_ok_filter [OF vals] L by simp
  have v1_at: "hm_at (prune_empty v1) k = filter (\<lambda>e. te_tag e \<notin> ?L) (slot_at s k)" for k
    using L crdt_okD(1) [OF ok] by (simp add: slot_at_def hm_at_map_values)
  note J = merge_joins_at [OF f2 v1 hm_tight_prune]
  show "crdt_ok s'"
    using J ok by (simp add: parts crdt_ok_def merge_clocks_ok)
  show "slot_at s' k = foldl add_new (filter (\<lambda>e. te_tag e \<notin> ?L) (slot_at s k))
      (filter (\<lambda>e. \<not> dominated (c_context s) e \<and> slot_of e = k) (d_joins d))"
    using J v1_at by (simp add: slot_at_def parts)
  show "c_context s' = fold merge_clock (d_context d) (c_context s)"
    "c_replica s' = c_replica s" "c_clock s' = c_clock s" "c_replicas s' = c_replicas s"
    "c_delta s' = c_delta s"
    by (simp_all add: parts)
  show "set (mr_leaves res) = {e \<in> crdt_entries s. te_tag e \<in> ?L}"
    using L by (simp add: parts crdt_entries_def)
  assume uniq: "tags_unique (crdt_entries s \<union> set (d_joins d))"
  have "tags_unique ((\<Union>k. set (hm_at (prune_empty v1) k)) \<union> set (d_joins d))"
    by (rule tags_unique_subset [OF uniq]) (auto simp: v1_at crdt_entries_at [OF ok])
  from merge_joins_out [OF f2 this]
  show "set (mr_joins res) = {e \<in> set (d_joins d). \<not> dominated (c_context s) e \<and>
      \<not> (e \<in> crdt_entries s \<and> te_tag e \<notin> ?L)}"
    by (auto simp: parts v1_at in_crdt_entries [OF ok] slot_of_def)
qed

lemma crdt_entries_slot_of: "crdt_ok s \<Longrightarrow> e \<in> set (slot_at s k) \<longleftrightarrow> e \<in> crdt_entries s \<and> slot_of e = k"
  using crdt_ok_slot [of s e k] by (auto simp: in_crdt_entries slot_of_def simp del: prod.inject)

lemma merge_entries:
  assumes ok: "crdt_ok s" and uniq: "tags_unique (crdt_entries s \<union> set (d_joins d))"
    and res: "merge d s = (res, s')"
  shows "crdt_entries s' = {e \<in> crdt_entries s. te_tag e \<notin> set (d_leave_tags d)} \<union>
    {e \<in> set (d_joins d). \<not> dominated (c_context s) e}"
proof -
  note M = merge_effect [OF ok res]
  have "set (slot_at s' k) = {e \<in> crdt_entries s. te_tag e \<notin> set (d_leave_tags d) \<and> slot_of e = k} \<union>
      {e \<in> set (d_joins d). \<not> dominated (c_context s) e \<and> slot_of e = k}" for k
  proof -
    let ?xs = "filter (\<lambda>e. te_tag e \<notin> set (d_leave_tags d)) (slot_at s k)"
    let ?es = "filter (\<lambda>e. \<not> dominated (c_context s) e \<and> slot_of e = k) (d_joins d)"
    have "tags_unique (set ?xs \<union> set ?es)"
      by (rule tags_unique_subset [OF uniq]) (auto simp: crdt_entries_slot_of [OF ok])
    then have "set (slot_at s' k) = set ?xs \<union> set ?es"
      unfolding M(2) by (rule add_new_set)
    then show ?thesis by (auto simp: crdt_entries_slot_of [OF ok])
  qed
  then show ?thesis unfolding crdt_entries_at [OF M(1)] by blast
qed

lemma merge_context:
  assumes "crdt_ok s" "hm_ok (d_context d)" "merge d s = (res, s')"
  shows "ctx_clock (c_context s') r = max (ctx_clock (c_context s) r) (ctx_clock (d_context d) r)"
  using merge_effect(3) [OF assms(1,3)] by (simp add: merge_clocks [OF assms(2)])

section \<open>Replica status and views\<close>

lemma replica_status_frame:
  "c_values (snd (replica_up r s)) = c_values s" "c_pid_index (snd (replica_up r s)) = c_pid_index s"
  "c_context (snd (replica_up r s)) = c_context s"
  "c_replicas (snd (replica_up r s)) = hm_insert r RUp (c_replicas s)"
  "c_values (snd (replica_down n r b s)) = c_values s"
  "c_pid_index (snd (replica_down n r b s)) = c_pid_index s"
  "c_context (snd (replica_down n r b s)) = c_context s"
  "c_replicas (snd (replica_down n r b s)) = hm_insert r (RDown n b) (c_replicas s)"
  by (simp_all add: replica_up_def replica_down_def Let_def)

lemma replica_up_ok: "crdt_ok s \<Longrightarrow> crdt_ok (snd (replica_up r s))"
  by (simp add: crdt_ok_def replica_status_frame)

lemma replica_down_ok: "crdt_ok s \<Longrightarrow> crdt_ok (snd (replica_down n r b s))"
  by (simp add: crdt_ok_def replica_status_frame)

lemma take_delta_ok: "crdt_ok s \<Longrightarrow> crdt_ok (snd (take_delta s))"
  by (simp add: crdt_ok_def take_delta_def)

lemma remove_down_frame:
  "c_values (snd (remove_down_replica r s)) =
     prune_empty (hm_map_values (filter (\<lambda>e. tag_replica (te_tag e) \<noteq> r)) (c_values s))"
  "c_pid_index (snd (remove_down_replica r s)) = c_pid_index s"
  "c_context (snd (remove_down_replica r s)) = c_context s"
  "c_replicas (snd (remove_down_replica r s)) = hm_remove r (c_replicas s)"
  "fst (remove_down_replica r s) = entries_of_replica r s"
  by (simp_all add: remove_down_replica_def entries_of_replica_def)

lemma remove_down_at:
  "crdt_ok s \<Longrightarrow> slot_at (snd (remove_down_replica r s)) k =
    filter (\<lambda>e. tag_replica (te_tag e) \<noteq> r) (slot_at s k)"
  using crdt_okD(1) [of s] by (simp add: slot_at_def remove_down_frame hm_at_map_values)

lemma remove_down_ok: "crdt_ok s \<Longrightarrow> crdt_ok (snd (remove_down_replica r s))"
  by (simp add: crdt_ok_def remove_down_frame values_ok_filter)

lemma remove_down_entries:
  assumes "crdt_ok s"
  shows "crdt_entries (snd (remove_down_replica r s)) =
    {e \<in> crdt_entries s. tag_replica (te_tag e) \<noteq> r}"
  unfolding crdt_entries_at [OF assms] crdt_entries_at [OF remove_down_ok [OF assms]]
  by (auto simp: remove_down_at [OF assms])

lemma online_set: "set (online s es) = {e \<in> set es. is_replica_up s (tag_replica (te_tag e))}"
  by (simp add: online_def)

lemma crdt_get_at:
  "crdt_get t k s = (if online s (slot_at s (t, k)) = [] then None else Some (online s (slot_at s (t, k))))"
  by (simp add: crdt_get_def slot_at_def hm_at_def online_def split: option.split)

lemma crdt_list_fold:
  assumes "distinct (map fst vs)"
  shows "hm_get (fold (\<lambda>((t, k), es) result.
        if t \<noteq> topic then result
        else if online s es = [] then result else hm_insert k (online s es) result) vs acc) key =
    (case map_of vs (topic, key) of
       Some es \<Rightarrow> (if online s es = [] then hm_get acc key else Some (online s es))
     | None \<Rightarrow> hm_get acc key)"
  using assms
proof (induction vs arbitrary: acc)
  case Nil
  then show ?case by simp
next
  case (Cons v vs)
  obtain t k es where v: "v = ((t, k), es)" by (metis prod.exhaust)
  have "map_of vs (t, k) = None" using Cons.prems v by (simp add: map_of_eq_None_iff)
  then show ?case using Cons v by (auto split: option.split)
qed

lemma crdt_list_get: "crdt_ok s \<Longrightarrow> hm_get (crdt_list topic s) key = crdt_get topic key s"
  using crdt_okD(1) [of s] unfolding hm_ok_def
  by (simp add: crdt_list_def crdt_list_fold crdt_get_def split: option.split)

lemma crdt_list_all_fold:
  assumes "distinct (map fst vs)"
  shows "(case hm_get (fold (\<lambda>((t, k), es) result.
        if online s es = [] then result
        else hm_entry t [] (hm_insert k (online s es)) result) vs acc) topic of
        None \<Rightarrow> None | Some m \<Rightarrow> hm_get m key) =
    (case map_of vs (topic, key) of
       Some es \<Rightarrow> (if online s es = [] then case hm_get acc topic of None \<Rightarrow> None | Some m \<Rightarrow> hm_get m key
                   else Some (online s es))
     | None \<Rightarrow> (case hm_get acc topic of None \<Rightarrow> None | Some m \<Rightarrow> hm_get m key))"
  using assms
proof (induction vs arbitrary: acc)
  case Nil
  then show ?case by simp
next
  case (Cons v vs)
  obtain t k es where v: "v = ((t, k), es)" by (metis prod.exhaust)
  have "map_of vs (t, k) = None" using Cons.prems v by (simp add: map_of_eq_None_iff)
  then show ?case using Cons v by (auto split: option.split)
qed

lemma crdt_list_all_get:
  "crdt_ok s \<Longrightarrow>
    (case hm_get (crdt_list_all s) topic of None \<Rightarrow> None | Some m \<Rightarrow> hm_get m key) = crdt_get topic key s"
  using crdt_okD(1) [of s] unfolding hm_ok_def
  by (simp add: crdt_list_all_def crdt_list_all_fold crdt_get_def split: option.split)

lemma crdt_get_entries:
  assumes "crdt_ok s"
  shows "(case crdt_get t k s of None \<Rightarrow> {} | Some es \<Rightarrow> set es) =
    {e \<in> crdt_entries s. slot_of e = (t, k) \<and> is_replica_up s (tag_replica (te_tag e))}"
proof -
  have "(case crdt_get t k s of None \<Rightarrow> {} | Some es \<Rightarrow> set es) = set (online s (slot_at s (t, k)))"
    by (simp add: crdt_get_at)
  then show ?thesis by (auto simp: online_set crdt_entries_slot_of [OF assms])
qed

section \<open>Runs\<close>

datatype crdt_op =
    OTrack string pid string "byte list"
  | OUntrack string string pid
  | OUntrackAll pid
  | OMerge presence_delta
  | OUp replica
  | ODown "64 word" replica bool
  | ORemoveDown replica
  | OTakeDelta

fun crdt_apply :: "crdt_op \<Rightarrow> crdt \<Rightarrow> crdt" where
  "crdt_apply (OTrack t p k m) s = snd (track t p k m s)"
| "crdt_apply (OUntrack t k p) s = snd (untrack t k p s)"
| "crdt_apply (OUntrackAll p) s = snd (untrack_all p s)"
| "crdt_apply (OMerge d) s = snd (merge d s)"
| "crdt_apply (OUp r) s = snd (replica_up r s)"
| "crdt_apply (ODown now r temporary) s = snd (replica_down now r temporary s)"
| "crdt_apply (ORemoveDown r) s = snd (remove_down_replica r s)"
| "crdt_apply OTakeDelta s = snd (take_delta s)"

lemma merge_ok: "crdt_ok s \<Longrightarrow> crdt_ok (snd (merge d s))"
  using merge_effect(1) [of s d] by (cases "merge d s") simp

lemmas crdt_op_ok = track_ok untrack_ok untrack_all_ok merge_ok replica_up_ok replica_down_ok
  remove_down_ok take_delta_ok

lemma crdt_apply_ok: "crdt_ok s \<Longrightarrow> crdt_ok (crdt_apply op s)"
  by (cases op) (simp_all add: crdt_op_ok)

definition crdt_run :: "replica \<Rightarrow> crdt_op list \<Rightarrow> crdt" where
  "crdt_run r ops = fold crdt_apply ops (crdt_new r)"

lemma crdt_run_ok: "crdt_ok (crdt_run r ops)"
  unfolding crdt_run_def by (rule fold_invariant_on) (simp_all add: crdt_apply_ok)

lemma take_delta_frame:
  "c_values (snd (take_delta s)) = c_values s" "c_context (snd (take_delta s)) = c_context s"
  by (simp_all add: take_delta_def)

lemma crdt_len_entries: "crdt_len s = length (concat (hm_values (c_values s)))"
  by (simp add: crdt_len_def length_concat)

lemma crdt_is_empty_entries: "crdt_ok s \<Longrightarrow> crdt_is_empty s \<longleftrightarrow> crdt_entries s = {}"
  using crdt_okD(3) [of s]
  by (cases "c_values s") (auto simp: crdt_is_empty_def crdt_entries_def hm_values_def hm_tight_def)

lemma track_entries:
  assumes "crdt_ok s"
  shows "crdt_entries (snd (track t p k m s)) = insert (track_entry t p k m s) (crdt_entries s)"
  unfolding crdt_entries_at [OF assms] crdt_entries_at [OF track_ok [OF assms]]
  by (auto simp: track_at split: if_splits)

lemma untrack_entries:
  assumes "crdt_ok s"
  shows "crdt_entries (snd (untrack t k p s)) =
    {e \<in> crdt_entries s. \<not> (slot_of e = (t, k) \<and> te_pid e = p)}"
  by (auto simp: in_crdt_entries [OF assms] in_crdt_entries [OF untrack_ok [OF assms]]
      untrack_at [OF assms] slot_of_def split: if_splits)

lemma untrack_all_entries:
  assumes "crdt_ok s"
  shows "crdt_entries (snd (untrack_all p s)) = {e \<in> crdt_entries s. te_pid e \<noteq> p}"
proof -
  obtain r s' where res: "untrack_all p s = (r, s')" by (cases "untrack_all p s")
  have ok: "crdt_ok s'" using untrack_all_ok [OF assms, of p] res by simp
  show ?thesis
    using untrack_all_effect(1) [OF assms res] res
    by (auto simp: in_crdt_entries [OF assms] in_crdt_entries [OF ok])
qed

lemma tags_unique_insert:
  assumes "tags_unique E" "te_tag e \<notin> te_tag ` E"
  shows "tags_unique (insert e E)"
  using assms unfolding tags_unique_def by (simp add: inj_on_insert) blast

lemma word_Suc_pos: "(w :: 64 word) \<noteq> - 1 \<Longrightarrow> 0 < w + 1"
  using unat_Suc_word [of w] by (simp add: word_less_nat_alt)

lemma fresh_tag:
  assumes "e \<in> E" "\<forall>e \<in> E. tag_replica (te_tag e) = r \<longrightarrow> tag_clock (te_tag e) \<noteq> c"
  shows "te_tag e \<noteq> \<lparr> tag_replica = r, tag_clock = c \<rparr>"
  using assms by auto

section \<open>Properties\<close>

text \<open>C21. The presence CRDT keeps its representation invariant, whatever is called and whatever
  deltas arrive.  After any sequence of operations: every stored entry lies in the slot its topic
  and key name, and the process index names that slot; no slot is stored empty; and the three read
  operations agree: \<open>list\<close>, \<open>list_all\<close> and \<open>get\<close> all give exactly the stored entries whose replica
  is not down.\<close>

theorem crdt_run_invariant:
  "let s = crdt_run r ops in
    (\<forall>e \<in> crdt_entries s. e \<in> set (slot_at s (slot_of e)) \<and>
            slot_of e \<in> set (hm_at (c_pid_index s) (te_pid e))) \<and>
    (\<forall>k. hm_get (c_values s) k \<noteq> Some []) \<and>
    (\<forall>t k. hm_get (crdt_list t s) k = crdt_get t k s) \<and>
    (\<forall>t k. (case hm_get (crdt_list_all s) t of None \<Rightarrow> None | Some m \<Rightarrow> hm_get m k) = crdt_get t k s) \<and>
    (\<forall>t k. (case crdt_get t k s of None \<Rightarrow> {} | Some es \<Rightarrow> set es) =
       {e \<in> crdt_entries s. slot_of e = (t, k) \<and> is_replica_up s (tag_replica (te_tag e))})"
proof -
  let ?s = "crdt_run r ops"
  have ok: "crdt_ok ?s" by (rule crdt_run_ok)
  have "\<forall>e \<in> crdt_entries ?s. e \<in> set (slot_at ?s (slot_of e)) \<and>
      slot_of e \<in> set (hm_at (c_pid_index ?s) (te_pid e))"
    using ok crdt_ok_index by (auto simp: crdt_entries_slot_of)
  moreover have "\<forall>k. hm_get (c_values ?s) k \<noteq> Some []"
    using crdt_okD(1,3) [OF ok] by (simp add: hm_tight_get)
  ultimately show ?thesis
    unfolding Let_def using crdt_list_get [OF ok] crdt_list_all_get [OF ok] crdt_get_entries [OF ok] by blast
qed

text \<open>Local changes do exactly what they say.  \<open>track\<close> adds one entry, with a tag of the next clock
  value, and records it in the delta and the context; \<open>untrack\<close> removes exactly the entries of that
  process under that topic and key and returns and records their tags; \<open>untrack_all\<close> removes exactly
  the entries of the process, in every slot, returns them grouped by topic and records their tags as
  leaves.\<close>

lemma crdt_local_changes:
  assumes ok: "crdt_ok s"
    and s1: "track t p k m s = (tg, s1)"
    and s2: "untrack t k p s = (tgs, s2)"
    and s3: "untrack_all p s = (removed, s3)"
  shows "(tg = \<lparr> tag_replica = c_replica s, tag_clock = c_clock s + 1 \<rparr> \<and>
      crdt_entries s1 = insert (track_entry t p k m s) (crdt_entries s) \<and>
      d_joins (c_delta s1) = d_joins (c_delta s) @ [track_entry t p k m s] \<and>
      hm_get (d_context (c_delta s1)) (c_replica s) = Some (tag_clock tg)) \<and>
    (crdt_entries s2 = {e \<in> crdt_entries s. \<not> (slot_of e = (t, k) \<and> te_pid e = p)} \<and>
      set tgs = te_tag ` (crdt_entries s - crdt_entries s2) \<and>
      d_leave_tags (c_delta s2) = d_leave_tags (c_delta s) @ tgs) \<and>
    (crdt_entries s3 = {e \<in> crdt_entries s. te_pid e \<noteq> p} \<and>
      (\<forall>t. set (hm_at removed t) = {e \<in> crdt_entries s - crdt_entries s3. te_topic e = t}) \<and>
      set (d_leave_tags (c_delta s3)) =
        set (d_leave_tags (c_delta s)) \<union> te_tag ` (crdt_entries s - crdt_entries s3))"
proof (intro conjI)
  show "tg = \<lparr> tag_replica = c_replica s, tag_clock = c_clock s + 1 \<rparr>"
    and "d_joins (c_delta s1) = d_joins (c_delta s) @ [track_entry t p k m s]"
    and "hm_get (d_context (c_delta s1)) (c_replica s) = Some (tag_clock tg)"
    using s1 by (auto simp: track_def Let_def track_entry_def)
  show "crdt_entries s1 = insert (track_entry t p k m s) (crdt_entries s)"
    using track_entries [OF ok, of t p k m] s1 by simp
  show e2: "crdt_entries s2 = {e \<in> crdt_entries s. \<not> (slot_of e = (t, k) \<and> te_pid e = p)}"
    using untrack_entries [OF ok, of t k p] s2 by simp
  have tgs: "tgs = map te_tag (filter (\<lambda>e. te_pid e = p) (slot_at s (t, k)))"
    using s2 by (auto simp: untrack_def Let_def slot_at_def)
  show "set tgs = te_tag ` (crdt_entries s - crdt_entries s2)"
    unfolding e2 tgs by (auto simp: crdt_entries_slot_of [OF ok])
  show "d_leave_tags (c_delta s2) = d_leave_tags (c_delta s) @ tgs"
    using s2 by (auto simp: untrack_def Let_def)
  show e3: "crdt_entries s3 = {e \<in> crdt_entries s. te_pid e \<noteq> p}"
    using untrack_all_entries [OF ok, of p] s3 by simp
  have gone: "crdt_entries s - crdt_entries s3 = {e \<in> crdt_entries s. te_pid e = p}"
    unfolding e3 by auto
  show "\<forall>t. set (hm_at removed t) = {e \<in> crdt_entries s - crdt_entries s3. te_topic e = t}"
    unfolding gone using untrack_all_effect(4) [OF ok s3] by simp
  show "set (d_leave_tags (c_delta s3)) =
      set (d_leave_tags (c_delta s)) \<union> te_tag ` (crdt_entries s - crdt_entries s3)"
    unfolding gone by (rule untrack_all_effect(3) [OF ok s3])
qed

text \<open>Concrete states for the witnesses: replica \<open>a\<close> tracks the process \<open>7\<close> under topic \<open>r\<close>.\<close>

definition ex_pid :: pid where
  "ex_pid = \<lparr> pid_node = ''n'', pid_id = 7, pid_creation = 0 \<rparr>"

definition ex_a :: crdt where
  "ex_a = snd (track ''r'' ex_pid ''k'' [] (crdt_new ''a''))"

lemma ex_a_ok: "crdt_ok ex_a"
  unfolding ex_a_def by (rule track_ok) simp

definition ex_entry :: tracked_entry where
  "ex_entry = \<lparr> te_topic = ''r'', te_pid = ex_pid, te_key = ''k'', te_meta = [],
     te_tag = \<lparr> tag_replica = ''a'', tag_clock = 1 \<rparr> \<rparr>"

lemma ex_a_eq:
  "ex_a = \<lparr> c_replica = ''a'', c_clock = 1, c_context = [(''a'', 1)],
     c_values = [((''r'', ''k''), [ex_entry])], c_pid_index = [(ex_pid, [(''r'', ''k'')])],
     c_replicas = [], c_delta = \<lparr> d_joins = [ex_entry], d_leave_tags = [], d_context = [(''a'', 1)] \<rparr> \<rparr>"
  by (simp add: ex_a_def track_def crdt_new_def Let_def hm_entry_def hm_insert_def delta_default_def
      ex_entry_def)

lemma ex_a_entries: "crdt_entries ex_a = {ex_entry}"
  by (simp add: ex_a_eq crdt_entries_def hm_values_def)

theorem crdt_run_invariant_witness:
  "hm_get (crdt_list ''r'' ex_a) ''k'' = crdt_get ''r'' ''k'' ex_a \<and>
   ex_entry \<in> set (slot_at ex_a (slot_of ex_entry))"
proof -
  have run: "crdt_run ''a'' [OTrack ''r'' ex_pid ''k'' []] = ex_a"
    by (simp add: crdt_run_def ex_a_def)
  have "ex_entry \<in> crdt_entries ex_a" by (simp add: ex_a_entries)
  then show ?thesis
    using crdt_run_invariant [of "''a''" "[OTrack ''r'' ex_pid ''k'' []]"]
    unfolding run Let_def by blast
qed

lemma crdt_merge_semantics_lemma:
  assumes "crdt_ok s" "hm_ok (d_context d)" "tags_unique (crdt_entries s \<union> set (d_joins d))"
    and "merge d s = (res, s')"
  shows "crdt_ok s'"
    and "crdt_entries s' = {e \<in> crdt_entries s. te_tag e \<notin> set (d_leave_tags d)} \<union>
      {e \<in> set (d_joins d). \<not> dominated (c_context s) e}"
    and "set (mr_leaves res) = {e \<in> crdt_entries s. te_tag e \<in> set (d_leave_tags d)}"
    and "set (mr_joins res) = crdt_entries s' - {e \<in> crdt_entries s. te_tag e \<notin> set (d_leave_tags d)}"
    and "ctx_clock (c_context s') r = max (ctx_clock (c_context s) r) (ctx_clock (d_context d) r)"
proof -
  note M = merge_effect [OF assms(1,4)]
  show "crdt_ok s'" by (rule M(1))
  show E: "crdt_entries s' = {e \<in> crdt_entries s. te_tag e \<notin> set (d_leave_tags d)} \<union>
      {e \<in> set (d_joins d). \<not> dominated (c_context s) e}"
    by (rule merge_entries [OF assms(1,3,4)])
  show "set (mr_leaves res) = {e \<in> crdt_entries s. te_tag e \<in> set (d_leave_tags d)}"
    by (rule M(8))
  show "set (mr_joins res) = crdt_entries s' - {e \<in> crdt_entries s. te_tag e \<notin> set (d_leave_tags d)}"
    unfolding M(9) [OF assms(3)] E by auto
  show "ctx_clock (c_context s') r = max (ctx_clock (c_context s) r) (ctx_clock (d_context d) r)"
    by (rule merge_context [OF assms(1,2,4)])
qed

text \<open>C1. A merge is a set operation.  When tags identify entries, the entries after a merge are those
  held before whose tag the delta does not list as a leave, together with the joins the replica had
  not seen (not dominated by the context it had when the merge began).  The result reports exactly
  the entries that went and the joins that were new, and the context becomes the pointwise maximum.\<close>

theorem crdt_merge_semantics:
  assumes "crdt_ok s" "hm_ok (d_context d)" "tags_unique (crdt_entries s \<union> set (d_joins d))"
    and "merge d s = (res, s')"
  shows "crdt_ok s' \<and>
    crdt_entries s' = {e \<in> crdt_entries s. te_tag e \<notin> set (d_leave_tags d)} \<union>
      {e \<in> set (d_joins d). \<not> dominated (c_context s) e} \<and>
    set (mr_leaves res) = {e \<in> crdt_entries s. te_tag e \<in> set (d_leave_tags d)} \<and>
    set (mr_joins res) = crdt_entries s' - {e \<in> crdt_entries s. te_tag e \<notin> set (d_leave_tags d)} \<and>
    (\<forall>r. ctx_clock (c_context s') r = max (ctx_clock (c_context s) r) (ctx_clock (d_context d) r))"
  using crdt_merge_semantics_lemma [OF assms] by blast

theorem crdt_merge_semantics_witness:
  "crdt_entries (snd (merge (crdt_extract_all ex_a) (crdt_new ''b''))) = {ex_entry}"
proof -
  let ?d = "crdt_extract_all ex_a"
  have d: "set (d_joins ?d) = {ex_entry}" "d_leave_tags ?d = []" "d_context ?d = [(''a'', 1)]"
    by (simp_all add: crdt_extract_all_def ex_a_eq hm_values_def delta_default_def)
  have b: "crdt_entries (crdt_new ''b'') = {}" "c_context (crdt_new ''b'') = [(''b'', 0)]"
    by (simp_all add: crdt_entries_def crdt_new_def hm_values_def)
  obtain res s' where m: "merge ?d (crdt_new ''b'') = (res, s')" by (cases "merge ?d (crdt_new ''b'')")
  have "tags_unique (crdt_entries (crdt_new ''b'') \<union> set (d_joins ?d))"
    using d b by (simp add: tags_unique_def)
  from crdt_merge_semantics [OF crdt_new_ok _ this m]
  have E: "crdt_entries s' = {e \<in> {ex_entry}. \<not> dominated [(''b'', 0)] e}"
    using d b by simp
  have "\<not> dominated [(''b'', 0)] ex_entry" by (simp add: dominated_def ex_entry_def)
  then have "crdt_entries s' = {ex_entry}" unfolding E by auto
  then show ?thesis using m by simp
qed

text \<open>Merging is idempotent: receiving a delta a second time changes no entry, as long as the
  delta does not list one of its own joins as a leave.\<close>

lemma crdt_merge_idempotent:
  assumes "crdt_ok s" "hm_ok (d_context d)" "tags_unique (crdt_entries s \<union> set (d_joins d))"
    and "te_tag ` set (d_joins d) \<inter> set (d_leave_tags d) = {}"
    and "\<forall>e \<in> set (d_joins d). 0 < tag_clock (te_tag e)"
    and "merge d s = (r1, s1)" "merge d s1 = (r2, s2)"
  shows "crdt_entries s2 = crdt_entries s1 \<and> mr_joins r2 = [] \<and> mr_leaves r2 = []"
proof -
  note one = crdt_merge_semantics_lemma [OF assms(1-3,6)]
  have uniq: "tags_unique (crdt_entries s1 \<union> set (d_joins d))"
    by (rule tags_unique_subset [OF assms(3)]) (use one(2) in auto)
  note two = crdt_merge_semantics_lemma [OF one(1) assms(2) uniq assms(7)]
  have mono: "dominated (c_context s1) e" if "e \<in> set (d_joins d)" "dominated (c_context s) e" for e
    using that assms(5) one(5) by (simp add: dominated_ctx_clock le_max_iff_disj)
  have keep: "te_tag e \<notin> set (d_leave_tags d)" if "e \<in> crdt_entries s1" for e
    using that one(2) assms(4) by auto
  have "crdt_entries s2 = crdt_entries s1"
    unfolding two(2) using keep mono one(2) by blast
  then show ?thesis using two(3,4) keep by (simp flip: set_empty) blast
qed

text \<open>When two deltas commute.  Merging is not commutative in general (see the properties on lost
  joins below): it is when each delta's context covers a join of the other exactly if it also lists
  that join as a leave, for the joins that are new to the replica.\<close>

definition causally_paired :: "causal_context \<Rightarrow> presence_delta \<Rightarrow> presence_delta \<Rightarrow> bool" where
  "causally_paired ctx d1 d2 \<longleftrightarrow>
    (\<forall>e \<in> set (d_joins d1). \<not> dominated ctx e \<longrightarrow>
      (dominated (d_context d2) e \<longleftrightarrow> te_tag e \<in> set (d_leave_tags d2)))"

lemma merge_twice:
  assumes "crdt_ok s" "hm_ok (d_context d1)" "hm_ok (d_context d2)"
    and "tags_unique (crdt_entries s \<union> set (d_joins d1) \<union> set (d_joins d2))"
    and "\<forall>e \<in> set (d_joins d1) \<union> set (d_joins d2). 0 < tag_clock (te_tag e)"
    and "causally_paired (c_context s) d2 d1"
  shows "crdt_entries (snd (merge d2 (snd (merge d1 s)))) =
    {e \<in> crdt_entries s. te_tag e \<notin> set (d_leave_tags d1) \<union> set (d_leave_tags d2)} \<union>
    {e \<in> set (d_joins d1). \<not> dominated (c_context s) e \<and> te_tag e \<notin> set (d_leave_tags d2)} \<union>
    {e \<in> set (d_joins d2). \<not> dominated (c_context s) e \<and> te_tag e \<notin> set (d_leave_tags d1)}"
proof -
  obtain r1 s1 where m1: "merge d1 s = (r1, s1)" by (cases "merge d1 s")
  obtain r2 s2 where m2: "merge d2 s1 = (r2, s2)" by (cases "merge d2 s1")
  have u1: "tags_unique (crdt_entries s \<union> set (d_joins d1))"
    by (rule tags_unique_subset [OF assms(4)]) auto
  note one = crdt_merge_semantics_lemma [OF assms(1,2) u1 m1]
  have u2: "tags_unique (crdt_entries s1 \<union> set (d_joins d2))"
    by (rule tags_unique_subset [OF assms(4)]) (use one(2) in auto)
  note two = crdt_merge_semantics_lemma [OF one(1) assms(3) u2 m2]
  have dom: "dominated (c_context s1) e \<longleftrightarrow> dominated (c_context s) e \<or> dominated (d_context d1) e"
    if "e \<in> set (d_joins d2)" for e
    using that assms(5) one(5) by (simp add: dominated_ctx_clock le_max_iff_disj)
  have "{e \<in> set (d_joins d2). \<not> dominated (c_context s1) e} =
      {e \<in> set (d_joins d2). \<not> dominated (c_context s) e \<and> te_tag e \<notin> set (d_leave_tags d1)}"
    using dom assms(6) unfolding causally_paired_def by blast
  then show ?thesis using m1 m2 two(2) one(2) by auto
qed

text \<open>Merging commutes under the causal condition: two deltas whose contexts cover each other's
  new joins exactly where they remove them can arrive in either order, with the same entries and the
  same context as the outcome.\<close>

lemma crdt_merge_commute:
  assumes "crdt_ok s" "hm_ok (d_context d1)" "hm_ok (d_context d2)"
    and "tags_unique (crdt_entries s \<union> set (d_joins d1) \<union> set (d_joins d2))"
    and "\<forall>e \<in> set (d_joins d1) \<union> set (d_joins d2). 0 < tag_clock (te_tag e)"
    and "causally_paired (c_context s) d1 d2" "causally_paired (c_context s) d2 d1"
  shows "crdt_entries (snd (merge d2 (snd (merge d1 s)))) =
      crdt_entries (snd (merge d1 (snd (merge d2 s)))) \<and>
    ctx_clock (c_context (snd (merge d2 (snd (merge d1 s))))) r =
      ctx_clock (c_context (snd (merge d1 (snd (merge d2 s))))) r"
proof -
  have "tags_unique (crdt_entries s \<union> set (d_joins d2) \<union> set (d_joins d1))"
    using assms(4) by (simp add: Un_ac)
  moreover have "\<forall>e \<in> set (d_joins d2) \<union> set (d_joins d1). 0 < tag_clock (te_tag e)"
    using assms(5) by blast
  ultimately have "crdt_entries (snd (merge d1 (snd (merge d2 s)))) =
    {e \<in> crdt_entries s. te_tag e \<notin> set (d_leave_tags d2) \<union> set (d_leave_tags d1)} \<union>
    {e \<in> set (d_joins d2). \<not> dominated (c_context s) e \<and> te_tag e \<notin> set (d_leave_tags d1)} \<union>
    {e \<in> set (d_joins d1). \<not> dominated (c_context s) e \<and> te_tag e \<notin> set (d_leave_tags d2)}"
    using merge_twice [OF assms(1,3,2)] assms(6) by blast
  then have "crdt_entries (snd (merge d2 (snd (merge d1 s)))) =
      crdt_entries (snd (merge d1 (snd (merge d2 s))))"
    unfolding merge_twice [OF assms(1,2,3,4,5,7)] by blast
  moreover have ctx: "ctx_clock (c_context (snd (merge d t))) r =
      max (ctx_clock (c_context t) r) (ctx_clock (d_context d) r)"
    if "crdt_ok t" "hm_ok (d_context d)" for d t
    using merge_context [OF that, of "fst (merge d t)" "snd (merge d t)"] by simp
  ultimately show ?thesis
    using assms(1-3) by (simp add: ctx merge_ok max.commute max.left_commute)
qed

text \<open>A second replica \<open>b\<close> for the witness: it tracks another process in the same slot.\<close>

definition ex_b :: crdt where
  "ex_b = snd (track ''r'' (ex_pid\<lparr> pid_id := 8 \<rparr>) ''k'' [] (crdt_new ''b''))"

text \<open>Sending only what the other side has not seen is enough.  For a replica \<open>s\<close> and any peer whose
  entries carry positive clocks, merging \<open>extract(context of s)\<close> leaves \<open>s\<close> in the very same state, and
  reports the same joins and leaves, as merging the peer's whole state with \<open>extract_all\<close>.\<close>

lemma crdt_extract_suffices:
  assumes "\<forall>e \<in> crdt_entries p. 0 < tag_clock (te_tag e)"
  shows "merge (crdt_extract (c_context s) p) s = merge (crdt_extract_all p) s"
proof -
  let ?es = "concat (hm_values (c_values p))"
  have sent: "d_joins (crdt_extract (c_context s) p) =
      filter (\<lambda>e. ctx_clock (c_context s) (tag_replica (te_tag e)) < tag_clock (te_tag e)) ?es"
    by (simp add: crdt_extract_def ctx_clock_def)
  have "filter (\<lambda>e. ctx_clock (c_context s) (tag_replica (te_tag e)) < tag_clock (te_tag e)) ?es =
      filter (\<lambda>e. \<not> dominated (c_context s) e) ?es"
    using assms by (intro filter_cong refl) (auto simp: dominated_ctx_clock crdt_entries_def not_le)
  moreover have "fold (merge_join ctx) (filter (\<lambda>e. \<not> dominated ctx e) es) a = fold (merge_join ctx) es a"
    for ctx es a
    by (induction es arbitrary: a) (auto simp: merge_join_def split_def)
  ultimately have "fold (merge_join (c_context s)) (d_joins (crdt_extract (c_context s) p)) a =
      fold (merge_join (c_context s)) (d_joins (crdt_extract_all p)) a" for a
    unfolding sent by (simp add: crdt_extract_all_def)
  then show ?thesis
    unfolding merge_def by (simp add: crdt_extract_def crdt_extract_all_def delta_default_def Let_def)
qed

text \<open>Marking a replica down hides exactly its entries from every read and reports them once;
  marking it up again brings the views back and reports the same entries.\<close>

lemma crdt_down_up:
  assumes "crdt_ok s" "is_replica_up s r"
    and "replica_down now r temporary s = (hidden, s1)" "replica_up r s1 = (shown, s2)"
  shows "crdt_get t k s1 =
      (case crdt_get t k s of None \<Rightarrow> None
       | Some es \<Rightarrow> let es' = filter (\<lambda>e. tag_replica (te_tag e) \<noteq> r) es in if es' = [] then None else Some es') \<and>
    crdt_get t k s2 = crdt_get t k s \<and>
    set hidden = {e \<in> crdt_entries s. tag_replica (te_tag e) = r} \<and> shown = hidden \<and>
    fst (replica_down now r temporary s1) = []"
proof -
  have s1: "s1 = s\<lparr> c_replicas := hm_insert r (RDown now temporary) (c_replicas s) \<rparr>"
    and hidden: "hidden = entries_of_replica r s"
    using assms(2,3) by (auto simp: replica_down_def Let_def entries_of_replica_def)
  have down: "\<not> is_replica_up s1 r" by (simp add: s1 is_replica_up_def)
  have s2: "s2 = s1\<lparr> c_replicas := hm_insert r RUp (c_replicas s1) \<rparr>"
    and shown: "shown = entries_of_replica r s1"
    using assms(4) down by (auto simp: replica_up_def Let_def entries_of_replica_def)
  have up1: "is_replica_up s1 q \<longleftrightarrow> q \<noteq> r \<and> is_replica_up s q" for q
    by (simp add: s1 is_replica_up_def)
  have up2: "is_replica_up s2 q \<longleftrightarrow> is_replica_up s q" for q
    using assms(2) by (simp add: s1 s2 is_replica_up_def)
  have at: "slot_at s1 j = slot_at s j" "slot_at s2 j = slot_at s j" for j
    by (simp_all add: slot_at_def s1 s2)
  have "online s1 es = filter (\<lambda>e. tag_replica (te_tag e) \<noteq> r) (online s es)" for es
    by (auto simp: online_def up1 conj_commute intro: filter_cong)
  then have "crdt_get t k s1 =
      (case crdt_get t k s of None \<Rightarrow> None
       | Some es \<Rightarrow> let es' = filter (\<lambda>e. tag_replica (te_tag e) \<noteq> r) es in if es' = [] then None else Some es')"
    by (auto simp: crdt_get_at at Let_def)
  moreover have "crdt_get t k s2 = crdt_get t k s"
    by (simp add: crdt_get_at at online_def up2)
  moreover have "set hidden = {e \<in> crdt_entries s. tag_replica (te_tag e) = r}"
    by (auto simp: hidden entries_of_replica_def crdt_entries_def)
  moreover have "shown = hidden"
    by (simp add: shown hidden entries_of_replica_def s1)
  moreover have "fst (replica_down now r temporary s1) = []"
    using down by (simp add: replica_down_def Let_def)
  ultimately show ?thesis by blast
qed

lemma track_then_take:
  assumes "c_delta s = delta_default"
  shows "fst (take_delta (snd (track t p k m s))) =
      Some \<lparr> d_joins = [track_entry t p k m s], d_leave_tags = [],
             d_context = hm_insert (c_replica s) (c_clock s + 1) (c_context s) \<rparr>"
    and "c_delta (snd (take_delta (snd (track t p k m s)))) = delta_default"
    and "c_context (snd (take_delta (snd (track t p k m s)))) =
      hm_insert (c_replica s) (c_clock s + 1) (c_context s)"
    and "c_replica (snd (take_delta (snd (track t p k m s)))) = c_replica s"
    and "c_clock (snd (take_delta (snd (track t p k m s)))) = c_clock s + 1"
  using assms
  by (simp_all add: track_def Let_def take_delta_def delta_is_empty_def delta_default_def track_entry_def)

lemma merge_one_join:
  assumes "crdt_ok q" "d_joins d = [e]" "te_tag e \<notin> te_tag ` crdt_entries q"
  shows "e \<in> crdt_entries (snd (merge d q)) \<longleftrightarrow> \<not> dominated (c_context q) e"
proof -
  obtain r q' where m: "merge d q = (r, q')" by (cases "merge d q")
  note M = merge_effect [OF assms(1) m]
  let ?xs = "filter (\<lambda>e. te_tag e \<notin> set (d_leave_tags d)) (slot_at q (slot_of e))"
  have "te_tag e \<notin> te_tag ` set ?xs"
    using assms(3) by (auto simp: crdt_entries_slot_of [OF assms(1)])
  moreover from this have "e \<notin> set ?xs" by blast
  ultimately have "e \<in> set (slot_at q' (slot_of e)) \<longleftrightarrow> \<not> dominated (c_context q) e"
    by (simp add: M(2) assms(2) add_new_def)
  then show ?thesis using m by (simp add: crdt_entries_slot_of [OF M(1)])
qed

lemma merge_one_dominated:
  assumes "crdt_ok q" "d_joins d = [e]" "d_leave_tags d = []" "dominated (c_context q) e"
  shows "crdt_entries (snd (merge d q)) = crdt_entries q"
proof -
  obtain r q' where m: "merge d q = (r, q')" by (cases "merge d q")
  note M = merge_effect [OF assms(1) m]
  have "slot_at q' k = slot_at q k" for k using M(2) [of k] assms(2-4) by (simp add: add_new_def)
  then show ?thesis using m by (simp add: crdt_entries_at [OF M(1)] crdt_entries_at [OF assms(1)])
qed

text \<open>A process that is tracked and untracked before the next broadcast comes back to life on the
  peers.  The delta then lists the entry both as a join and as a leave; \<open>merge\<close> applies leaves before
  joins, so a peer that had not seen the clock value ends up holding an entry that the origin has
  removed and will never mention again.\<close>

lemma crdt_untracked_entry_resurrected:
  assumes "crdt_ok s" "c_delta s = delta_default" "c_clock s \<noteq> - 1" "crdt_ok q"
    and "ctx_clock (c_context q) (c_replica s) \<le> c_clock s"
    and "te_tag (track_entry t p k m s) \<notin> te_tag ` crdt_entries q"
    and "take_delta (snd (untrack t k p (snd (track t p k m s)))) = (Some d, s')"
  shows "track_entry t p k m s \<notin> crdt_entries s' \<and>
    track_entry t p k m s \<in> crdt_entries (snd (merge d q)) \<and>
    te_tag (track_entry t p k m s) \<in> set (d_leave_tags d)"
proof -
  let ?e = "track_entry t p k m s" and ?s1 = "snd (track t p k m s)"
  let ?s2 = "snd (untrack t k p ?s1)"
  have ok1: "crdt_ok ?s1" by (rule track_ok [OF assms(1)])
  have "d = c_delta ?s2" "crdt_entries s' = crdt_entries ?s2"
    using assms(7) by (auto simp: take_delta_def crdt_entries_def split: if_splits)
  moreover have "?e \<in> set (slot_at ?s1 (t, k))" "te_pid ?e = p" "slot_of ?e = (t, k)"
    by (simp_all add: track_at track_entry_def slot_of_def)
  moreover have "d_joins (c_delta ?s2) = [?e]"
    using assms(2) by (simp add: untrack_def track_def Let_def delta_default_def track_entry_def)
  moreover have "d_leave_tags (c_delta ?s2) = map te_tag (filter (\<lambda>e. te_pid e = p) (slot_at ?s1 (t, k)))"
    using assms(2) by (simp add: untrack_def track_def Let_def delta_default_def slot_at_def)
  ultimately have d: "d_joins d = [?e]" "te_tag ?e \<in> set (d_leave_tags d)"
    and gone: "?e \<notin> crdt_entries s'"
    by (auto simp: untrack_entries [OF ok1])
  have "c_clock s < c_clock s + 1"
    using unat_Suc_word [OF assms(3)] by (simp add: word_less_nat_alt)
  then have "\<not> dominated (c_context q) ?e"
    using assms(5) by (auto simp: dominated_def ctx_clock_def track_entry_def split: option.splits)
  then show ?thesis
    using merge_one_join [OF assms(4) d(1) assms(6)] d(2) gone by blast
qed

lemma crdt_context_after_merge:
  assumes "crdt_ok q" "hm_ok ctx" "d_context d = hm_insert r c ctx"
  shows "c \<le> ctx_clock (c_context (snd (merge d q))) r"
proof -
  have "ctx_clock (c_context (snd (merge d q))) r = max (ctx_clock (c_context q) r) c"
    using merge_context [OF assms(1), of d "fst (merge d q)" "snd (merge d q)"] assms(2,3)
    by (simp add: ctx_clock_def)
  then show ?thesis by simp
qed

text \<open>Deltas of one replica must arrive in order.  Let a replica broadcast two tracks one after the
  other.  A peer that receives the deltas in that order holds both entries; a peer that receives the
  second one first drops the first entry for good, because the context of the second delta already
  covers its clock value.  The comment in \<open>merge\<close> says the opposite.\<close>

lemma crdt_out_of_order_join_lost:
  assumes "crdt_ok s" "c_delta s = delta_default" "c_clock s \<noteq> - 1" "c_clock s + 1 \<noteq> - 1" "crdt_ok q"
    and "ctx_clock (c_context q) (c_replica s) \<le> c_clock s"
    and "e1 = track_entry t1 p1 k1 m1 s" "te_tag e1 \<notin> te_tag ` crdt_entries q"
    and "take_delta (snd (track t1 p1 k1 m1 s)) = (Some d1, s1)"
    and "e2 = track_entry t2 p2 k2 m2 s1" "te_tag e2 \<notin> te_tag ` crdt_entries q"
    and "take_delta (snd (track t2 p2 k2 m2 s1)) = (Some d2, s2)"
  shows "e1 \<in> crdt_entries (snd (merge d1 q)) \<and>
    e2 \<in> crdt_entries (snd (merge d2 q)) \<and>
    e1 \<notin> crdt_entries (snd (merge d1 (snd (merge d2 q))))"
proof -
  note one = track_then_take [OF assms(2), of t1 p1 k1 m1, unfolded assms(9) fst_conv snd_conv]
  note two = track_then_take [OF one(2), of t2 p2 k2 m2, unfolded assms(12) fst_conv snd_conv]
  have j: "d_joins d1 = [e1]" "d_joins d2 = [e2]" "d_leave_tags d2 = []"
    and ctx2: "d_context d2 = hm_insert (c_replica s) (c_clock s + 1 + 1) (c_context s1)"
    using one two assms(7,10) by simp_all
  have tags: "te_tag e1 = \<lparr> tag_replica = c_replica s, tag_clock = c_clock s + 1 \<rparr>"
    "te_tag e2 = \<lparr> tag_replica = c_replica s, tag_clock = c_clock s + 1 + 1 \<rparr>"
    using one(4,5) by (simp_all add: assms(7,10) track_entry_def)
  have lt: "c_clock s < c_clock s + 1" "c_clock s + 1 < c_clock s + 1 + 1"
    using unat_Suc_word [OF assms(3)] unat_Suc_word [OF assms(4)] by (simp_all add: word_less_nat_alt)
  have pos: "0 < tag_clock (te_tag e1)" "0 < tag_clock (te_tag e2)"
    using word_Suc_pos [OF assms(3)] word_Suc_pos [OF assms(4)] by (simp_all add: tags)
  have fresh: "\<not> dominated (c_context q) e1" "\<not> dominated (c_context q) e2"
    using assms(6) lt pos by (simp_all add: dominated_ctx_clock tags not_le)
  let ?q = "snd (merge d2 q)"
  have "hm_ok (c_context s1)" using one(3) crdt_okD(4) [OF assms(1)] by simp
  then have "c_clock s + 1 + 1 \<le> ctx_clock (c_context ?q) (c_replica s)"
    using ctx2 by (rule crdt_context_after_merge [OF assms(5)])
  then have dom: "dominated (c_context ?q) e1"
    using lt pos by (simp add: dominated_ctx_clock tags)
  have "te_tag e1 \<noteq> te_tag e2" using lt(2) by (simp add: tags)
  moreover have "te_tag ` crdt_entries ?q \<subseteq> te_tag ` crdt_entries q \<union> {te_tag e2}"
  proof -
    obtain r q' where m: "merge d2 q = (r, q')" by (cases "merge d2 q")
    note M = merge_effect [OF assms(5) m]
    have "te_tag ` set (slot_at q' k) \<subseteq> te_tag ` set (slot_at q k) \<union> {te_tag e2}" for k
      unfolding M(2) add_new_tags by (auto simp: j)
    then show ?thesis
      unfolding m snd_conv crdt_entries_at [OF M(1)] crdt_entries_at [OF assms(5)] by blast
  qed
  ultimately have "te_tag e1 \<notin> te_tag ` crdt_entries ?q" using assms(8) by blast
  then have "e1 \<notin> crdt_entries (snd (merge d1 ?q))"
    using merge_one_join [OF merge_ok [OF assms(5)] j(1)] dom by blast
  then show ?thesis
    using merge_one_join [OF assms(5) j(1) assms(8)] merge_one_join [OF assms(5) j(2) assms(11)] fresh
    by blast
qed

text \<open>A replica that was given up does not come back.  Once \<open>remove_down_replica\<close> has dropped the
  entries of a replica, its context is kept: merging the whole state of the returning replica (whose
  entries the context covers) restores none of them, although the replica still holds them.\<close>

lemma crdt_rejoin_lost:
  assumes "crdt_ok q" "crdt_ok p" "c_replica p = r"
    and "tags_unique (crdt_entries q \<union> crdt_entries p)"
    and "\<forall>e \<in> crdt_entries p. 0 < tag_clock (te_tag e) \<and>
      (tag_replica (te_tag e) = r \<longrightarrow> tag_clock (te_tag e) \<le> ctx_clock (c_context p) r)"
    and "q1 = snd (merge (crdt_extract_all p) q)"
    and "q2 = snd (remove_down_replica r q1)"
    and "q3 = snd (merge (crdt_extract_all p) q2)"
  shows "\<forall>e \<in> crdt_entries q3. tag_replica (te_tag e) \<noteq> r"
proof -
  let ?d = "crdt_extract_all p"
  have d: "set (d_joins ?d) = crdt_entries p" "d_leave_tags ?d = []" "d_context ?d = c_context p"
    by (simp_all add: crdt_extract_all_def delta_default_def crdt_entries_def)
  have okd: "hm_ok (d_context ?d)" using crdt_okD(4) [OF assms(2)] d by simp
  have "tags_unique (crdt_entries q \<union> set (d_joins ?d))" using assms(4) d by simp
  note one = crdt_merge_semantics_lemma [OF assms(1) okd this surjective_pairing, folded assms(6)]
  have ok2: "crdt_ok q2" unfolding assms(7) by (rule remove_down_ok [OF one(1)])
  have e2: "crdt_entries q2 = {e \<in> crdt_entries q1. tag_replica (te_tag e) \<noteq> r}"
    unfolding assms(7) by (rule remove_down_entries [OF one(1)])
  have c2: "c_context q2 = c_context q1" by (simp add: assms(7) remove_down_frame)
  have "tags_unique (crdt_entries q2 \<union> set (d_joins ?d))"
    by (rule tags_unique_subset [OF assms(4)]) (use e2 one(2) d in auto)
  note two = crdt_merge_semantics_lemma [OF ok2 okd this surjective_pairing, folded assms(8)]
  have "dominated (c_context q2) e" if "e \<in> crdt_entries p" "tag_replica (te_tag e) = r" for e
    using assms(5) that one(5) d(3) by (simp add: dominated_ctx_clock c2 le_max_iff_disj)
  then show ?thesis unfolding two(2) using d(1) e2 by blast
qed

end
