(* ===== verification/Crdt_Net.thy ===== *)
theory Crdt_Net
  imports Crdt
begin

text \<open>
  Several presence replicas exchanging deltas.  \<open>Crdt\<close> models one replica; here a state holds one
  replica per name and the set of all deltas ever put on the wire.  A step is a local operation of
  one replica, a broadcast of its pending delta (\<open>take_delta\<close>), an answer to a state request
  (\<open>extract\<close> or \<open>extract_all\<close>), or the delivery of any delta that was ever sent, so deltas may be
  lost, duplicated, delayed and reordered.

  The invariant proved by rule induction supplies what the single-replica theorems on merging assume:
  tags identify entries across the whole system, and no context runs ahead of a replica's clock.
\<close>

section \<open>The system\<close>

record net =
  n_sys :: "replica \<Rightarrow> crdt"
  n_sent :: "presence_delta set"

definition net_init :: net where
  "net_init = \<lparr> n_sys = crdt_new, n_sent = {} \<rparr>"

definition net_put :: "replica \<Rightarrow> crdt \<Rightarrow> net \<Rightarrow> net" where
  "net_put i s n = n\<lparr> n_sys := (n_sys n)(i := s) \<rparr>"

inductive net_step :: "net \<Rightarrow> net \<Rightarrow> bool" where
  track: "c_clock (n_sys n i) \<noteq> - 1 \<Longrightarrow> net_step n (net_put i (snd (track t p k m (n_sys n i))) n)"
| untrack: "net_step n (net_put i (snd (untrack t k p (n_sys n i))) n)"
| untrack_all: "net_step n (net_put i (snd (untrack_all p (n_sys n i))) n)"
| up: "net_step n (net_put i (snd (replica_up r (n_sys n i))) n)"
| down: "net_step n (net_put i (snd (replica_down now r temporary (n_sys n i))) n)"
| remove: "net_step n (net_put i (snd (remove_down_replica r (n_sys n i))) n)"
| broadcast: "take_delta (n_sys n i) = (Some d, s) \<Longrightarrow>
    net_step n ((net_put i s n)\<lparr> n_sent := insert d (n_sent n) \<rparr>)"
| answer: "net_step n (n\<lparr> n_sent := insert (crdt_extract ctx (n_sys n i)) (n_sent n) \<rparr>)"
| answer_all: "net_step n (n\<lparr> n_sent := insert (crdt_extract_all (n_sys n i)) (n_sent n) \<rparr>)"
| deliver: "d \<in> n_sent n \<Longrightarrow> net_step n (net_put i (snd (merge d (n_sys n i))) n)"

inductive net_reachable :: "net \<Rightarrow> bool" where
  init: "net_reachable net_init"
| step: "net_reachable n \<Longrightarrow> net_step n n' \<Longrightarrow> net_reachable n'"

section \<open>The invariant\<close>

definition known :: "crdt \<Rightarrow> tracked_entry set" where
  "known s = crdt_entries s \<union> set (d_joins (c_delta s))"

definition net_entries :: "net \<Rightarrow> tracked_entry set" where
  "net_entries n = (\<Union>i. known (n_sys n i)) \<union> (\<Union>d \<in> n_sent n. set (d_joins d))"

definition ctx_bounded :: "net \<Rightarrow> causal_context \<Rightarrow> bool" where
  "ctx_bounded n ctx \<longleftrightarrow> hm_ok ctx \<and> (\<forall>r. ctx_clock ctx r \<le> c_clock (n_sys n r))"

definition entry_bounded :: "net \<Rightarrow> tracked_entry \<Rightarrow> bool" where
  "entry_bounded n e \<longleftrightarrow> 0 < tag_clock (te_tag e) \<and>
     tag_clock (te_tag e) \<le> c_clock (n_sys n (tag_replica (te_tag e)))"

definition replica_inv :: "net \<Rightarrow> replica \<Rightarrow> crdt \<Rightarrow> bool" where
  "replica_inv n i s \<longleftrightarrow> crdt_ok s \<and> c_replica s = i \<and>
     ctx_bounded n (c_context s) \<and> ctx_bounded n (d_context (c_delta s)) \<and>
     ctx_clock (c_context s) i = c_clock s"

definition net_inv :: "net \<Rightarrow> bool" where
  "net_inv n \<longleftrightarrow> tags_unique (net_entries n) \<and>
     (\<forall>e \<in> net_entries n. entry_bounded n e) \<and>
     (\<forall>i. replica_inv n i (n_sys n i)) \<and>
     (\<forall>d \<in> n_sent n. ctx_bounded n (d_context d))"

lemma net_put_simps [simp]:
  "n_sys (net_put i s n) j = (if j = i then s else n_sys n j)"
  "n_sent (net_put i s n) = n_sent n"
  by (simp_all add: net_put_def)

lemma net_inv_init: "net_inv net_init"
proof -
  have "net_entries net_init = {}"
    by (simp add: net_entries_def net_init_def known_def crdt_entries_def crdt_new_def hm_values_def
        delta_default_def)
  moreover have "replica_inv net_init i (crdt_new i)" for i
    by (simp add: replica_inv_def ctx_bounded_def net_init_def)
       (simp add: crdt_new_def delta_default_def ctx_clock_def)
  ultimately show ?thesis by (simp add: net_inv_def tags_unique_def) (simp add: net_init_def)
qed

text \<open>Changing one replica without moving its clock and without a new entry.\<close>

lemma net_inv_put:
  assumes inv: "net_inv n" and clock: "c_clock s = c_clock (n_sys n i)"
    and ents: "known s \<subseteq> net_entries n" and rep: "replica_inv n i s"
  shows "net_inv (net_put i s n)"
proof -
  have same: "c_clock (n_sys (net_put i s n) r) = c_clock (n_sys n r)" for r
    using clock by simp
  have b: "ctx_bounded (net_put i s n) = ctx_bounded n" "entry_bounded (net_put i s n) = entry_bounded n"
    "replica_inv (net_put i s n) = replica_inv n"
    by (intro ext, simp only: ctx_bounded_def entry_bounded_def replica_inv_def same)+
  have "net_entries (net_put i s n) \<subseteq> known s \<union> net_entries n"
    by (auto simp: net_entries_def split: if_splits)
  then have "net_entries (net_put i s n) \<subseteq> net_entries n" using ents by blast
  then show ?thesis
    using inv rep unfolding net_inv_def b
    by (auto intro: tags_unique_subset)
qed

lemma net_inv_send:
  assumes inv: "net_inv n" and "set (d_joins d) \<subseteq> net_entries n" "ctx_bounded n (d_context d)"
  shows "net_inv (n\<lparr> n_sent := insert d (n_sent n) \<rparr>)"
proof -
  let ?n = "n\<lparr> n_sent := insert d (n_sent n) \<rparr>"
  have b: "ctx_bounded ?n = ctx_bounded n" "entry_bounded ?n = entry_bounded n"
    "replica_inv ?n = replica_inv n"
    by (intro ext, simp add: ctx_bounded_def entry_bounded_def replica_inv_def)+
  have "net_entries ?n = net_entries n" using assms(2) by (auto simp: net_entries_def)
  then show ?thesis using inv assms(3) unfolding net_inv_def b by simp
qed

lemma net_invD:
  assumes "net_inv n"
  shows "tags_unique (net_entries n)" "e \<in> net_entries n \<Longrightarrow> entry_bounded n e"
    "replica_inv n i (n_sys n i)" "d \<in> n_sent n \<Longrightarrow> ctx_bounded n (d_context d)"
    "crdt_ok (n_sys n i)"
  using assms by (auto simp: net_inv_def replica_inv_def)

lemma known_sys: "known (n_sys n i) \<subseteq> net_entries n"
  by (auto simp: net_entries_def)

lemma net_inv_local:
  assumes inv: "net_inv n" and ok: "crdt_ok s"
    and frame: "c_clock s = c_clock (n_sys n i)" "c_replica s = c_replica (n_sys n i)"
      "c_context s = c_context (n_sys n i)"
    and ents: "known s \<subseteq> known (n_sys n i)"
    and delta: "d_context (c_delta s) \<in> {d_context (c_delta (n_sys n i)), c_context (n_sys n i), []}"
  shows "net_inv (net_put i s n)"
proof (rule net_inv_put [OF inv frame(1)])
  show "known s \<subseteq> net_entries n" using ents known_sys by blast
  have "ctx_bounded n []" by (simp add: ctx_bounded_def ctx_clock_def)
  then show "replica_inv n i s"
    using net_invD(3) [OF inv, of i] ok delta frame by (auto simp: replica_inv_def)
qed

text \<open>What the local operations leave alone.\<close>

lemma untrack_frame:
  "c_clock (snd (untrack t k p s)) = c_clock s" "c_replica (snd (untrack t k p s)) = c_replica s"
  "c_context (snd (untrack t k p s)) = c_context s"
  "d_joins (c_delta (snd (untrack t k p s))) = d_joins (c_delta s)"
  "d_context (c_delta (snd (untrack t k p s))) \<in> {d_context (c_delta s), c_context s, []}"
  by (simp_all add: untrack_def Let_def)

lemma untrack_all_delta_context:
  "d_context (c_delta (snd (untrack_all p s))) \<in> {d_context (c_delta s), c_context s, []}"
  by (simp add: untrack_all_def Let_def split_def)

lemma status_frame:
  "c_clock (snd (replica_up r s)) = c_clock s" "c_replica (snd (replica_up r s)) = c_replica s"
  "c_delta (snd (replica_up r s)) = c_delta s"
  "c_clock (snd (replica_down w r b s)) = c_clock s" "c_replica (snd (replica_down w r b s)) = c_replica s"
  "c_delta (snd (replica_down w r b s)) = c_delta s"
  "c_clock (snd (remove_down_replica r s)) = c_clock s"
  "c_replica (snd (remove_down_replica r s)) = c_replica s"
  "c_delta (snd (remove_down_replica r s)) = c_delta s"
  by (simp_all add: replica_up_def replica_down_def remove_down_replica_def Let_def split_def)

lemma entries_of_values: "c_values s' = c_values s \<Longrightarrow> crdt_entries s' = crdt_entries s"
  by (simp add: crdt_entries_def)

lemma merge_known:
  assumes "crdt_ok s"
  shows "crdt_entries (snd (merge d s)) \<subseteq> crdt_entries s \<union> set (d_joins d)"
proof -
  obtain r s' where m: "merge d s = (r, s')" by (cases "merge d s")
  note M = merge_effect [OF assms m]
  have sub: "set (foldl add_new xs es) \<subseteq> set xs \<union> set es" for xs es
  proof (induction es arbitrary: xs)
    case (Cons e es)
    have "set (add_new xs e) \<subseteq> insert e (set xs)" by (auto simp: add_new_def)
    then show ?case using Cons [of "add_new xs e"] by auto
  qed simp
  have "set (slot_at s' k) \<subseteq> set (slot_at s k) \<union> set (d_joins d)" for k
    unfolding M(2) by (rule subset_trans [OF sub]) auto
  then show ?thesis
    unfolding m snd_conv crdt_entries_at [OF M(1)] crdt_entries_at [OF assms] by blast
qed

lemma net_inv_track:
  assumes inv: "net_inv n" and room: "c_clock (n_sys n i) \<noteq> - 1"
  shows "net_inv (net_put i (snd (track t p k m (n_sys n i))) n)"
proof -
  let ?s = "n_sys n i" and ?s' = "snd (track t p k m (n_sys n i))"
  let ?e = "track_entry t p k m ?s" and ?n = "net_put i ?s' n"
  have ok: "crdt_ok ?s" and rep: "c_replica ?s = i" and ctx: "ctx_bounded n (c_context ?s)"
    using net_invD(3) [OF inv, of i] by (simp_all add: replica_inv_def)
  have clock: "c_clock ?s' = c_clock ?s + 1"
    and ctx': "c_context ?s' = hm_insert i (c_clock ?s + 1) (c_context ?s)"
    and dctx': "d_context (c_delta ?s') = hm_insert i (c_clock ?s + 1) (c_context ?s)"
    and rep': "c_replica ?s' = i"
    using rep by (simp_all add: track_def Let_def)
  have lt: "c_clock ?s < c_clock ?s + 1"
    using unat_Suc_word [OF room] by (simp add: word_less_nat_alt)
  have clocks: "c_clock (n_sys n r) \<le> c_clock (n_sys ?n r)" for r
    using clock lt by (auto intro: less_imp_le)
  have mono: "ctx_bounded n c \<Longrightarrow> ctx_bounded ?n c" "entry_bounded n e \<Longrightarrow> entry_bounded ?n e" for c e
    using clocks order_trans unfolding ctx_bounded_def entry_bounded_def by blast+
  have new_ctx: "ctx_bounded ?n (hm_insert i (c_clock ?s + 1) (c_context ?s))"
    using ctx clock by (simp add: ctx_bounded_def) (simp add: ctx_clock_def)
  have tag: "te_tag ?e = \<lparr> tag_replica = i, tag_clock = c_clock ?s + 1 \<rparr>"
    using rep by (simp add: track_entry_def)
  have bound: "entry_bounded ?n ?e"
    using word_Suc_pos [OF room] clock tag by (simp add: entry_bounded_def)
  have "known ?s' = insert ?e (known ?s)"
    using track_entries [OF ok, of t p k m]
    by (simp add: known_def track_def Let_def track_entry_def)
  then have ents: "net_entries ?n \<subseteq> insert ?e (net_entries n)"
    by (auto simp: net_entries_def split: if_splits)
  have "te_tag ?e \<notin> te_tag ` net_entries n"
  proof
    assume "te_tag ?e \<in> te_tag ` net_entries n"
    then obtain x where "x \<in> net_entries n" "te_tag x = te_tag ?e" by force
    then have "c_clock ?s + 1 \<le> c_clock ?s"
      using net_invD(2) [OF inv, of x] tag by (simp add: entry_bounded_def)
    then show False using lt by simp
  qed
  then have "tags_unique (insert ?e (net_entries n))"
    by (rule tags_unique_insert [OF net_invD(1) [OF inv]])
  then have "tags_unique (net_entries ?n)" using ents by (rule tags_unique_subset)
  moreover have "\<forall>e \<in> net_entries ?n. entry_bounded ?n e"
    using ents bound mono(2) net_invD(2) [OF inv] by blast
  moreover have "replica_inv ?n j (n_sys ?n j)" for j
  proof (cases "j = i")
    case True
    then show ?thesis
      using track_ok [OF ok, of t p k m] new_ctx
      by (simp add: replica_inv_def rep' ctx' dctx' clock) (simp add: ctx_clock_def)
  next
    case False
    then show ?thesis
      using net_invD(3) [OF inv, of j] mono(1) by (simp add: replica_inv_def)
  qed
  moreover have "\<forall>d \<in> n_sent ?n. ctx_bounded ?n (d_context d)"
    using net_invD(4) [OF inv] mono(1) by simp
  ultimately show ?thesis by (simp only: net_inv_def) blast
qed

lemma net_inv_deliver:
  assumes inv: "net_inv n" and d: "d \<in> n_sent n"
  shows "net_inv (net_put i (snd (merge d (n_sys n i))) n)"
proof -
  let ?s = "n_sys n i"
  obtain r s' where m: "merge d ?s = (r, s')" by (cases "merge d ?s")
  have ok: "crdt_ok ?s" by (rule net_invD(5) [OF inv])
  note M = merge_effect [OF ok m]
  have dctx: "ctx_bounded n (d_context d)" by (rule net_invD(4) [OF inv d])
  have rep: "replica_inv n i ?s" by (rule net_invD(3) [OF inv])
  have clk: "ctx_clock (c_context s') q = max (ctx_clock (c_context ?s) q) (ctx_clock (d_context d) q)" for q
    using dctx by (intro merge_context [OF ok _ m]) (simp add: ctx_bounded_def)
  have bounded: "ctx_bounded n (c_context s')"
    using rep dctx crdt_okD(4) [OF M(1)] by (simp add: ctx_bounded_def clk replica_inv_def)
  have "ctx_clock (d_context d) i \<le> c_clock ?s" using dctx by (simp add: ctx_bounded_def)
  then have own: "ctx_clock (c_context s') i = c_clock s'"
    using rep by (simp add: clk M(5) replica_inv_def max_absorb1)
  have "set (d_joins d) \<subseteq> net_entries n" using d by (auto simp: net_entries_def)
  then have "known s' \<subseteq> net_entries n"
    using merge_known [OF ok, of d] m known_sys [of n i] M(7) by (auto simp: known_def)
  moreover have "replica_inv n i s'"
    using rep M(1,4,7) bounded own by (simp add: replica_inv_def)
  ultimately show ?thesis using net_inv_put [OF inv, of s' i] M(5) m by simp
qed

lemma net_inv_step:
  assumes "net_step n n'" "net_inv n"
  shows "net_inv n'"
  using assms
proof cases
  case (track i t p k m)
  then show ?thesis using net_inv_track assms(2) by simp
next
  case (untrack i t k p)
  have ok: "crdt_ok (n_sys n i)" by (rule net_invD(5) [OF assms(2)])
  show ?thesis unfolding untrack
  proof (rule net_inv_local [OF assms(2) untrack_ok [OF ok] untrack_frame(1-3)])
    show "known (snd (untrack t k p (n_sys n i))) \<subseteq> known (n_sys n i)"
      by (auto simp: known_def untrack_entries [OF ok] untrack_frame)
  qed (rule untrack_frame(5))
next
  case (untrack_all i p)
  have ok: "crdt_ok (n_sys n i)" by (rule net_invD(5) [OF assms(2)])
  show ?thesis unfolding untrack_all
  proof (rule net_inv_local [OF assms(2) untrack_all_ok [OF ok]])
    show "known (snd (Crdt.untrack_all p (n_sys n i))) \<subseteq> known (n_sys n i)"
      by (auto simp: known_def untrack_all_entries [OF ok] untrack_all_frame)
  qed (use untrack_all_frame untrack_all_delta_context in auto)
next
  case (up i r)
  have ok: "crdt_ok (n_sys n i)" by (rule net_invD(5) [OF assms(2)])
  show ?thesis unfolding up
    by (rule net_inv_local [OF assms(2) replica_up_ok [OF ok]])
      (simp_all add: known_def status_frame replica_status_frame crdt_entries_def)
next
  case (down i w r b)
  have ok: "crdt_ok (n_sys n i)" by (rule net_invD(5) [OF assms(2)])
  show ?thesis unfolding down
    by (rule net_inv_local [OF assms(2) replica_down_ok [OF ok]])
      (simp_all add: known_def status_frame replica_status_frame crdt_entries_def)
next
  case (remove i r)
  have ok: "crdt_ok (n_sys n i)" by (rule net_invD(5) [OF assms(2)])
  show ?thesis unfolding remove
  proof (rule net_inv_local [OF assms(2) remove_down_ok [OF ok]])
    show "known (snd (remove_down_replica r (n_sys n i))) \<subseteq> known (n_sys n i)"
      by (auto simp: known_def remove_down_entries [OF ok] status_frame)
  qed (simp_all add: status_frame remove_down_frame)
next
  case (broadcast i d s)
  have ok: "crdt_ok (n_sys n i)" by (rule net_invD(5) [OF assms(2)])
  have s: "s = (n_sys n i)\<lparr> c_delta := delta_default \<rparr>" "d = c_delta (n_sys n i)"
    using broadcast(2) by (auto simp: take_delta_def split: if_splits)
  have "net_inv (n\<lparr> n_sent := insert d (n_sent n) \<rparr>)"
    using net_invD(3) [OF assms(2), of i] known_sys [of n i]
    by (intro net_inv_send [OF assms(2)]) (auto simp: s known_def replica_inv_def)
  then have "net_inv (net_put i s (n\<lparr> n_sent := insert d (n_sent n) \<rparr>))"
  proof (rule net_inv_local)
    show "crdt_ok s" using take_delta_ok [OF ok] broadcast(2) by simp
  qed (auto simp: s known_def crdt_entries_def delta_default_def)
  moreover have "net_put i s (n\<lparr> n_sent := insert d (n_sent n) \<rparr>) =
      (net_put i s n)\<lparr> n_sent := insert d (n_sent n) \<rparr>"
    by (cases n) (simp add: net_put_def)
  ultimately show ?thesis by (simp add: broadcast)
next
  case (answer ctx i)
  have "set (d_joins (crdt_extract ctx (n_sys n i))) \<subseteq> net_entries n"
    using known_sys [of n i] by (auto simp: crdt_extract_def known_def crdt_entries_def)
  moreover have "ctx_bounded n (d_context (crdt_extract ctx (n_sys n i)))"
    using net_invD(3) [OF assms(2), of i] by (simp add: crdt_extract_def replica_inv_def)
  ultimately show ?thesis unfolding answer by (rule net_inv_send [OF assms(2)])
next
  case (answer_all i)
  have "set (d_joins (crdt_extract_all (n_sys n i))) \<subseteq> net_entries n"
    using known_sys [of n i] by (auto simp: crdt_extract_all_def known_def crdt_entries_def)
  moreover have "ctx_bounded n (d_context (crdt_extract_all (n_sys n i)))"
    using net_invD(3) [OF assms(2), of i] by (simp add: crdt_extract_all_def replica_inv_def)
  ultimately show ?thesis unfolding answer_all by (rule net_inv_send [OF assms(2)])
next
  case (deliver d i)
  then show ?thesis using net_inv_deliver assms(2) by simp
qed

lemma net_reachable_inv: "net_reachable n \<Longrightarrow> net_inv n"
  by (induction rule: net_reachable.induct) (auto intro: net_inv_init net_inv_step)

section \<open>Properties\<close>

text \<open>C8. Across the whole system tags identify entries and merges are set operations.  In every
  reachable state, with deltas lost, duplicated, delayed and reordered at will: two entries held,
  pending or in flight anywhere that carry the same tag are the same entry; every entry carries a
  clock its origin has really reached; and delivering any delta ever sent to any replica gives
  exactly the entries it held and the delta does not remove, plus the joins its context does not
  cover.\<close>

theorem crdt_net_merge_is_set_merge:
  assumes "net_reachable n" "d \<in> n_sent n"
  shows "inj_on te_tag (net_entries n) \<and>
    (\<forall>e \<in> net_entries n. 0 < tag_clock (te_tag e) \<and>
       tag_clock (te_tag e) \<le> c_clock (n_sys n (tag_replica (te_tag e)))) \<and>
    (\<forall>i. crdt_entries (snd (merge d (n_sys n i))) =
       {e \<in> crdt_entries (n_sys n i). te_tag e \<notin> set (d_leave_tags d)} \<union>
       {e \<in> set (d_joins d). \<not> dominated (c_context (n_sys n i)) e})"
proof -
  have inv: "net_inv n" by (rule net_reachable_inv [OF assms(1)])
  have "crdt_entries (snd (merge d (n_sys n i))) =
       {e \<in> crdt_entries (n_sys n i). te_tag e \<notin> set (d_leave_tags d)} \<union>
       {e \<in> set (d_joins d). \<not> dominated (c_context (n_sys n i)) e}" for i
  proof (rule merge_entries [OF net_invD(5) [OF inv] _ surjective_pairing])
    have "crdt_entries (n_sys n i) \<union> set (d_joins d) \<subseteq> net_entries n"
      using assms(2) by (auto simp: net_entries_def known_def)
    then show "tags_unique (crdt_entries (n_sys n i) \<union> set (d_joins d))"
      by (rule tags_unique_subset [OF net_invD(1) [OF inv]])
  qed
  then show ?thesis
    using net_invD(1,2) [OF inv] by (simp add: tags_unique_def entry_bounded_def)
qed

definition ex_net :: net where
  "ex_net = (net_put ''a'' ex_a net_init)\<lparr> n_sent := {crdt_extract_all ex_a} \<rparr>"

lemma ex_net_reachable: "net_reachable ex_net"
proof -
  have "net_step net_init (net_put ''a'' (snd (track ''r'' ex_pid ''k'' [] (n_sys net_init ''a''))) net_init)"
    by (rule net_step.track) (simp add: net_init_def crdt_new_def)
  then have 1: "net_reachable (net_put ''a'' ex_a net_init)"
    using net_reachable.init by (auto intro: net_reachable.step simp: ex_a_def net_init_def)
  have "net_step (net_put ''a'' ex_a net_init)
      ((net_put ''a'' ex_a net_init)\<lparr> n_sent := insert (crdt_extract_all (n_sys (net_put ''a'' ex_a net_init) ''a''))
        (n_sent (net_put ''a'' ex_a net_init)) \<rparr>)"
    by (rule net_step.answer_all)
  then have "net_reachable ((net_put ''a'' ex_a net_init)\<lparr> n_sent :=
      insert (crdt_extract_all (n_sys (net_put ''a'' ex_a net_init) ''a''))
        (n_sent (net_put ''a'' ex_a net_init)) \<rparr>)"
    by (rule net_reachable.step [OF 1])
  then show ?thesis by (simp add: ex_net_def net_init_def)
qed

theorem crdt_net_merge_is_set_merge_witness:
  "ex_entry \<in> crdt_entries (snd (merge (crdt_extract_all ex_a) (n_sys ex_net ''b'')))"
proof -
  have "crdt_extract_all ex_a \<in> n_sent ex_net" by (simp add: ex_net_def)
  from crdt_net_merge_is_set_merge [OF ex_net_reachable this]
  have E: "crdt_entries (snd (merge (crdt_extract_all ex_a) (n_sys ex_net i))) =
       {e \<in> crdt_entries (n_sys ex_net i). te_tag e \<notin> set (d_leave_tags (crdt_extract_all ex_a))} \<union>
       {e \<in> set (d_joins (crdt_extract_all ex_a)). \<not> dominated (c_context (n_sys ex_net i)) e}" for i
    by blast
  have "ex_entry \<in> set (d_joins (crdt_extract_all ex_a))"
    using ex_a_entries by (simp add: crdt_extract_all_def crdt_entries_def)
  moreover have "\<not> dominated (c_context (n_sys ex_net ''b'')) ex_entry"
    by (simp add: ex_net_def net_init_def crdt_new_def dominated_def ex_entry_def)
  ultimately show ?thesis unfolding E by blast
qed

end
