(* ===== verification/App.thy ===== *)
theory App
  imports Core
begin

text \<open>
  Applications (\<open>application/core.rs\<close>, \<open>application/types.rs\<close>, \<open>application/error.rs\<close>): configuration
  values, the registry of applications, the resolution of dependencies by depth-first search, and
  starting and stopping in dependency order.

  The start and stop functions of an application are user code.  They are fields of the registered
  application that act on an abstract world \<open>'w\<close>; so does the runtime's \<open>exit\<close>, a parameter.
\<close>

section \<open>Configuration\<close>

text \<open>An \<open>f64\<close> is kept as its 64 bits, an \<open>i64\<close> as a word.\<close>

datatype config_value =
    CString string
  | CInteger "64 word"
  | CFloat "64 word"
  | CBool bool
  | CList "config_value list"
  | CMap "(string \<times> config_value) list"

type_synonym app_config = "(string, config_value) hmap"

definition config_new :: app_config where
  "config_new = []"

definition config_set_string :: "string \<Rightarrow> string \<Rightarrow> app_config \<Rightarrow> app_config" where
  "config_set_string k v c = hm_insert k (CString v) c"

definition config_set_int :: "string \<Rightarrow> 64 word \<Rightarrow> app_config \<Rightarrow> app_config" where
  "config_set_int k v c = hm_insert k (CInteger v) c"

definition config_set_float :: "string \<Rightarrow> 64 word \<Rightarrow> app_config \<Rightarrow> app_config" where
  "config_set_float k v c = hm_insert k (CFloat v) c"

definition config_set_bool :: "string \<Rightarrow> bool \<Rightarrow> app_config \<Rightarrow> app_config" where
  "config_set_bool k v c = hm_insert k (CBool v) c"

definition config_get_string :: "string \<Rightarrow> app_config \<Rightarrow> string option" where
  "config_get_string k c = (case hm_get c k of Some (CString s) \<Rightarrow> Some s | _ \<Rightarrow> None)"

definition config_get_int :: "string \<Rightarrow> app_config \<Rightarrow> 64 word option" where
  "config_get_int k c = (case hm_get c k of Some (CInteger i) \<Rightarrow> Some i | _ \<Rightarrow> None)"

definition config_get_float :: "string \<Rightarrow> app_config \<Rightarrow> 64 word option" where
  "config_get_float k c = (case hm_get c k of Some (CFloat f) \<Rightarrow> Some f | _ \<Rightarrow> None)"

definition config_get_bool :: "string \<Rightarrow> app_config \<Rightarrow> bool option" where
  "config_get_bool k c = (case hm_get c k of Some (CBool b) \<Rightarrow> Some b | _ \<Rightarrow> None)"

section \<open>The controller\<close>

record app_spec =
  as_name :: string
  as_dependencies :: "string list"
  as_description :: string

definition app_spec_new :: "string \<Rightarrow> app_spec" where
  "app_spec_new name = \<lparr> as_name = name, as_dependencies = [], as_description = [] \<rparr>"

definition depends_on :: "string \<Rightarrow> app_spec \<Rightarrow> app_spec" where
  "depends_on dep s = s\<lparr> as_dependencies := as_dependencies s @ [dep] \<rparr>"

datatype start_result = SRSupervisor pid | SRProcess pid | SRNone

fun start_result_pid :: "start_result \<Rightarrow> pid option" where
  "start_result_pid (SRSupervisor p) = Some p"
| "start_result_pid (SRProcess p) = Some p"
| "start_result_pid SRNone = None"

datatype start_error =
    StartNotFound string
  | AlreadyRunning string
  | DependencyFailed string string
  | StartFailed string
  | CircularDependency "string list"

datatype stop_error = StopNotFound string | NotRunning string | StopTimeout

record 'w registered_app =
  ra_spec :: app_spec
  ra_start :: "app_config \<Rightarrow> 'w \<Rightarrow> (string + start_result) \<times> 'w"
  ra_stop :: "pid option \<Rightarrow> 'w \<Rightarrow> 'w"

record running_app =
  run_name :: string
  run_pid :: "pid option"
  run_config :: app_config

record app_info =
  ai_name :: string
  ai_pid :: "pid option"
  ai_dependencies :: "string list"
  ai_running :: bool

type_synonym 'w app_registry = "(string, 'w registered_app) hmap"

record 'w controller =
  ac_registered :: "'w app_registry"
  ac_running :: "(string, running_app) hmap"
  ac_world :: 'w

definition controller_new :: "'w \<Rightarrow> 'w controller" where
  "controller_new w = \<lparr> ac_registered = [], ac_running = [], ac_world = w \<rparr>"

definition app_register :: "'w registered_app \<Rightarrow> 'w controller \<Rightarrow> 'w controller" where
  "app_register app c = c\<lparr> ac_registered := hm_insert (as_name (ra_spec app)) app (ac_registered c) \<rparr>"

section \<open>Resolving dependencies\<close>

text \<open>
  The depth-first search.  \<open>result\<close> and \<open>visited\<close> are updated in place by the code, also when it
  ends in an error, so both come back beside the outcome; \<open>path\<close> is restored by \<open>pop\<close> on success
  and only read from the error value otherwise, so it is an argument.
\<close>

type_synonym visit_state = "string list \<times> string list"

lemma visit_measure:
  assumes "name \<notin> set path" "hm_get reg name = Some app"
  shows "card (fst ` set reg - set (path @ [name])) < card (fst ` set reg - set path)"
proof (rule psubset_card_mono)
  show "finite (fst ` set reg - set path)" by simp
  have "name \<in> fst ` set reg" using assms(2) by (force dest: map_of_SomeD)
  then show "fst ` set reg - set (path @ [name]) \<subset> fst ` set reg - set path"
    using assms(1) by auto
qed

function (sequential)
  visit_deps :: "'w app_registry \<Rightarrow> string \<Rightarrow> string list \<Rightarrow> visit_state \<Rightarrow>
    (start_error + unit) \<times> visit_state"
and visit_each :: "'w app_registry \<Rightarrow> string list \<Rightarrow> string list \<Rightarrow> visit_state \<Rightarrow>
    (start_error + unit) \<times> visit_state"
where
  "visit_deps registered name path (result, visited) =
    (if name \<in> set path then (Inl (CircularDependency (path @ [name])), (result, visited))
     else if name \<in> set visited then (Inr (), (result, visited))
     else case hm_get registered name of
       None \<Rightarrow> (Inl (StartNotFound name), (result, visited))
     | Some app \<Rightarrow>
        (case visit_each registered (as_dependencies (ra_spec app)) (path @ [name]) (result, visited) of
           (Inl err, st) \<Rightarrow> (Inl err, st)
         | (Inr _, (result', visited')) \<Rightarrow>
             (Inr (), (result' @ [name], List.insert name visited'))))"
| "visit_each registered [] path st = (Inr (), st)"
| "visit_each registered (dep # deps) path st =
    (case visit_deps registered dep path st of
       (Inl err, st') \<Rightarrow> (Inl err, st')
     | (Inr _, st') \<Rightarrow> visit_each registered deps path st')"
  by pat_completeness auto

termination
  by (relation "inv_image (less_than <*lex*> less_than)
      (case_sum (\<lambda>(reg, name, path, st). (card (fst ` set reg - set path), 0))
                (\<lambda>(reg, deps, path, st). (card (fst ` set reg - set path), Suc (length deps))))")
    (auto simp del: set_append intro: visit_measure)

declare visit_deps.simps [simp del]

definition resolve_dependencies :: "'w app_registry \<Rightarrow> string \<Rightarrow> start_error + string list" where
  "resolve_dependencies registered name =
    (case visit_deps registered name [] ([], []) of
       (Inl err, _) \<Rightarrow> Inl err
     | (Inr _, (result, _)) \<Rightarrow> Inr result)"

section \<open>Starting and stopping\<close>

text \<open>One round of the loop of \<open>start_with_config\<close>; \<open>Inl\<close> leaves the loop.\<close>

definition start_one ::
    "string \<Rightarrow> app_config \<Rightarrow> string \<Rightarrow> 'w controller \<Rightarrow> (start_error + unit) \<times> 'w controller" where
  "start_one name config app_name c =
    (if hm_contains app_name (ac_running c) then (Inr (), c)
     else case hm_get (ac_registered c) app_name of
       None \<Rightarrow> (Inl (StartNotFound app_name), c)
     | Some app \<Rightarrow>
        (let app_config = (if app_name = name then config else config_new) in
         case ra_start app app_config (ac_world c) of
           (Inl msg, w) \<Rightarrow> (Inl (StartFailed msg), c\<lparr> ac_world := w \<rparr>)
         | (Inr res, w) \<Rightarrow>
             (Inr (), c\<lparr> ac_world := w,
                ac_running := hm_insert app_name
                  \<lparr> run_name = app_name, run_pid = start_result_pid res, run_config = app_config \<rparr>
                  (ac_running c) \<rparr>)))"

fun start_each ::
    "string \<Rightarrow> app_config \<Rightarrow> string list \<Rightarrow> 'w controller \<Rightarrow> (start_error + unit) \<times> 'w controller" where
  "start_each name config [] c = (Inr (), c)"
| "start_each name config (a # as) c =
    (case start_one name config a c of
       (Inl err, c') \<Rightarrow> (Inl err, c')
     | (Inr _, c') \<Rightarrow> start_each name config as c')"

definition start_with_config ::
    "string \<Rightarrow> app_config \<Rightarrow> 'w controller \<Rightarrow> (start_error + unit) \<times> 'w controller" where
  "start_with_config name config c =
    (if hm_contains name (ac_running c) then (Inl (AlreadyRunning name), c)
     else case resolve_dependencies (ac_registered c) name of
       Inl err \<Rightarrow> (Inl err, c)
     | Inr order \<Rightarrow> start_each name config order c)"

definition app_start :: "string \<Rightarrow> 'w controller \<Rightarrow> (start_error + unit) \<times> 'w controller" where
  "app_start name c = start_with_config name config_new c"

definition app_stop ::
    "(pid \<Rightarrow> exit_reason \<Rightarrow> 'w \<Rightarrow> 'w) \<Rightarrow> string \<Rightarrow> 'w controller \<Rightarrow> (stop_error + unit) \<times> 'w controller" where
  "app_stop exit name c =
    (case hm_get (ac_running c) name of
       None \<Rightarrow> (Inl (NotRunning name), c)
     | Some running_app \<Rightarrow>
        (let w1 = (case hm_get (ac_registered c) name of
                     Some app \<Rightarrow> ra_stop app (run_pid running_app) (ac_world c)
                   | None \<Rightarrow> ac_world c);
             w2 = (case run_pid running_app of Some pid \<Rightarrow> exit pid Shutdown w1 | None \<Rightarrow> w1)
         in (Inr (), c\<lparr> ac_running := hm_remove name (ac_running c), ac_world := w2 \<rparr>)))"

definition stop_order :: "'w controller \<Rightarrow> string list" where
  "stop_order c =
    rev (fst (fold (\<lambda>name st. snd (visit_deps (ac_registered c) name [] st))
      (hm_keys (ac_running c)) ([], [])))"

definition app_stop_all :: "(pid \<Rightarrow> exit_reason \<Rightarrow> 'w \<Rightarrow> 'w) \<Rightarrow> 'w controller \<Rightarrow> 'w controller" where
  "app_stop_all exit c =
    (if hm_keys (ac_running c) = [] then c
     else fold (\<lambda>name c. snd (app_stop exit name c)) (stop_order c) c)"

definition list_registered :: "'w controller \<Rightarrow> app_spec list" where
  "list_registered c = map ra_spec (hm_values (ac_registered c))"

definition list_running :: "'w controller \<Rightarrow> app_info list" where
  "list_running c = map (\<lambda>r.
     \<lparr> ai_name = run_name r, ai_pid = run_pid r,
       ai_dependencies = (case hm_get (ac_registered c) (run_name r) of
           Some a \<Rightarrow> as_dependencies (ra_spec a) | None \<Rightarrow> []),
       ai_running = True \<rparr>) (hm_values (ac_running c))"

definition is_running :: "string \<Rightarrow> 'w controller \<Rightarrow> bool" where
  "is_running name c = hm_contains name (ac_running c)"

section \<open>Dependency order\<close>

definition app_deps :: "'w app_registry \<Rightarrow> string \<Rightarrow> string list option" where
  "app_deps reg a = map_option (\<lambda>app. as_dependencies (ra_spec app)) (hm_get reg a)"

definition depends :: "'w app_registry \<Rightarrow> string \<Rightarrow> string \<Rightarrow> bool" where
  "depends reg a b = (\<exists>ds. app_deps reg a = Some ds \<and> b \<in> set ds)"

text \<open>A list in which every application is registered and comes once, after all its dependencies.\<close>

definition dependency_ordered :: "'w app_registry \<Rightarrow> string list \<Rightarrow> bool" where
  "dependency_ordered reg order \<longleftrightarrow> distinct order \<and>
    (\<forall>xs x ys. order = xs @ x # ys \<longrightarrow> (\<exists>ds. app_deps reg x = Some ds \<and> set ds \<subseteq> set xs))"

lemma dependency_ordered_Nil [simp]: "dependency_ordered reg []"
  by (simp add: dependency_ordered_def)

lemma dependency_ordered_snoc:
  "dependency_ordered reg (order @ [x]) \<longleftrightarrow>
    dependency_ordered reg order \<and> x \<notin> set order \<and>
    (\<exists>ds. app_deps reg x = Some ds \<and> set ds \<subseteq> set order)"
  (is "?l \<longleftrightarrow> ?r")
proof
  assume ?l
  then show ?r unfolding dependency_ordered_def
    by (auto dest: spec [where x = order] intro: exI)
next
  assume r: ?r
  have "\<exists>ds. app_deps reg y = Some ds \<and> set ds \<subseteq> set xs" if "order @ [x] = xs @ y # ys" for xs y ys
  proof (cases ys rule: rev_cases)
    case Nil
    then show ?thesis using that r by simp
  next
    case (snoc zs z)
    then have "order = xs @ y # zs" using that by simp
    then show ?thesis using r unfolding dependency_ordered_def by blast
  qed
  then show ?l using r unfolding dependency_ordered_def by simp
qed

lemma dependency_ordered_append:
  "dependency_ordered reg (xs @ ys) \<Longrightarrow> dependency_ordered reg xs"
  by (induction ys rule: rev_induct)
    (simp_all add: dependency_ordered_snoc flip: append_assoc)

lemma dependency_ordered_closed:
  "dependency_ordered reg order \<Longrightarrow> x \<in> set order \<Longrightarrow>
    (\<exists>ds. app_deps reg x = Some ds \<and> set ds \<subseteq> set order)"
  by (induction order rule: rev_induct) (auto simp: dependency_ordered_snoc)

lemma dependency_ordered_reach:
  assumes "dependency_ordered reg order" "x \<in> set order" "(depends reg)\<^sup>*\<^sup>* x y"
  shows "y \<in> set order"
  using assms(3)
proof (induction rule: rtranclp_induct)
  case base
  then show ?case by (rule assms(2))
next
  case (step y z)
  then show ?case using dependency_ordered_closed [OF assms(1), of y] by (auto simp: depends_def)
qed

lemma dependency_ordered_acyclic:
  assumes "dependency_ordered reg order" "x \<in> set order"
  shows "\<not> (depends reg)\<^sup>+\<^sup>+ x x"
proof
  assume cyc: "(depends reg)\<^sup>+\<^sup>+ x x"
  obtain xs ys where o: "order = xs @ x # ys" using assms(2) by (meson split_list)
  then have ord: "dependency_ordered reg (xs @ [x])"
    using assms(1) dependency_ordered_append [of reg "xs @ [x]" ys] by simp
  obtain z where z: "depends reg x z" "(depends reg)\<^sup>*\<^sup>* z x"
    using tranclpD [OF cyc] by blast
  have "z \<in> set xs" using z(1) ord by (auto simp: depends_def dependency_ordered_snoc)
  moreover have "dependency_ordered reg xs" using ord by (simp add: dependency_ordered_snoc)
  ultimately have "x \<in> set xs" using dependency_ordered_reach z(2) by blast
  then show False using ord by (simp add: dependency_ordered_snoc)
qed

section \<open>Correctness of the search\<close>

text \<open>What an error means: a missing application is reachable, and a reported cycle is a path of
  dependencies whose last element occurs in it before.\<close>

definition visit_error_ok :: "'w app_registry \<Rightarrow> string \<Rightarrow> start_error \<Rightarrow> bool" where
  "visit_error_ok reg from err \<longleftrightarrow>
    (\<exists>n. err = StartNotFound n \<and> (depends reg)\<^sup>*\<^sup>* from n \<and> hm_get reg n = None) \<or>
    (\<exists>c. err = CircularDependency c \<and> c \<noteq> [] \<and> successively (depends reg) c \<and>
       hd c = from \<and> last c \<in> set (butlast c))"

definition visit_pre :: "'w app_registry \<Rightarrow> string list \<Rightarrow> visit_state \<Rightarrow> bool" where
  "visit_pre reg path = (\<lambda>(result, visited). set visited = set result \<and>
     dependency_ordered reg result \<and> set path \<inter> set result = {})"

definition visit_post ::
    "'w app_registry \<Rightarrow> string \<Rightarrow> string list \<Rightarrow> string set \<Rightarrow> visit_state \<Rightarrow>
     (start_error + unit) \<times> visit_state \<Rightarrow> bool" where
  "visit_post reg from path targets = (\<lambda>(result, visited) (r, (result', visited')).
     visit_pre reg path (result', visited') \<and>
     (\<exists>new. result' = result @ new \<and> (\<forall>x \<in> set new. (depends reg)\<^sup>*\<^sup>* from x)) \<and>
     (r = Inr () \<longrightarrow> targets \<subseteq> set result') \<and>
     (\<forall>err. r = Inl err \<longrightarrow> visit_error_ok reg from err))"

lemma successively_reach:
  "successively R (a # xs) \<Longrightarrow> x \<in> set (a # xs) \<Longrightarrow> R\<^sup>*\<^sup>* a x"
proof (induction xs arbitrary: a)
  case (Cons b xs)
  then show ?case by (cases "x = a") (auto intro: converse_rtranclp_into_rtranclp)
qed simp

lemma visit_correct:
  "visit_pre reg path (fst st, snd st) \<Longrightarrow> successively (depends reg) (path @ [name]) \<Longrightarrow>
     visit_post reg (hd (path @ [name])) path {name} st (visit_deps reg name path st)"
  "visit_pre reg path (fst st, snd st) \<Longrightarrow> path \<noteq> [] \<Longrightarrow> successively (depends reg) path \<Longrightarrow>
     (\<And>d. d \<in> set deps \<Longrightarrow> depends reg (last path) d) \<Longrightarrow>
     visit_post reg (hd path) path (set deps) st (visit_each reg deps path st)"
proof (induction reg name path st and reg deps path st rule: visit_deps_visit_each.induct)
  case (1 reg name path result visited)
  let ?from = "hd (path @ [name])"
  have pre: "set visited = set result" "dependency_ordered reg result" "set path \<inter> set result = {}"
    using "1.prems"(1) by (simp_all add: visit_pre_def)
  have walk: "successively (depends reg) (path @ [name])" by (rule "1.prems"(2))
  have reach: "(depends reg)\<^sup>*\<^sup>* ?from name"
    using walk successively_reach [of "depends reg" "hd (path @ [name])" "tl (path @ [name])" name]
    by simp
  consider (cycle) "name \<in> set path"
    | (seen) "name \<notin> set path" "name \<in> set visited"
    | (missing) "name \<notin> set path" "name \<notin> set visited" "hm_get reg name = None"
    | (visit) app where "name \<notin> set path" "name \<notin> set visited" "hm_get reg name = Some app"
    by (cases "hm_get reg name") auto
  then show ?case
  proof cases
    case cycle
    then have "visit_error_ok reg ?from (CircularDependency (path @ [name]))"
      using walk by (simp add: visit_error_ok_def)
    then show ?thesis using cycle pre by (simp add: visit_deps.simps visit_post_def visit_pre_def)
  next
    case seen
    then show ?thesis using pre by (simp add: visit_deps.simps visit_post_def visit_pre_def)
  next
    case missing
    then have "visit_error_ok reg ?from (StartNotFound name)"
      using reach by (simp add: visit_error_ok_def)
    then show ?thesis using missing pre by (simp add: visit_deps.simps visit_post_def visit_pre_def)
  next
    case visit
    let ?deps = "as_dependencies (ra_spec app)" and ?path = "path @ [name]"
    have deps: "app_deps reg name = Some ?deps" using visit(3) by (simp add: app_deps_def)
    have pre': "visit_pre reg ?path (fst (result, visited), snd (result, visited))"
      using pre visit by (auto simp: visit_pre_def)
    obtain r result' visited' where res:
      "visit_each reg ?deps ?path (result, visited) = (r, (result', visited'))"
      by (metis prod.exhaust)
    have "visit_post reg (hd ?path) ?path (set ?deps) (result, visited) (r, (result', visited'))"
      unfolding res [symmetric]
      by (rule "1.IH" [OF visit(1,2,3) pre' _ walk]) (use deps in \<open>auto simp: depends_def\<close>)
    then have post: "visit_pre reg ?path (result', visited')"
      "\<exists>new. result' = result @ new \<and> (\<forall>x \<in> set new. (depends reg)\<^sup>*\<^sup>* ?from x)"
      "r = Inr () \<Longrightarrow> set ?deps \<subseteq> set result'"
      "\<And>err. r = Inl err \<Longrightarrow> visit_error_ok reg ?from err"
      by (auto simp: visit_post_def)
    show ?thesis
    proof (cases r)
      case (Inl err)
      then show ?thesis
        using visit post res by (simp add: visit_deps.simps visit_post_def visit_pre_def)
    next
      case (Inr u)
      then have r: "r = Inr ()" by simp
      have "dependency_ordered reg (result' @ [name])"
        using post(1,3) r deps by (auto simp: dependency_ordered_snoc visit_pre_def)
      then have "visit_pre reg path (result' @ [name], List.insert name visited')"
        using post(1) visit(1) by (auto simp: visit_pre_def)
      moreover have "\<exists>new. result' @ [name] = result @ new \<and> (\<forall>x \<in> set new. (depends reg)\<^sup>*\<^sup>* ?from x)"
        using post(2) reach by auto
      ultimately show ?thesis
        using visit res r by (simp add: visit_deps.simps visit_post_def)
    qed
  qed
next
  case (2 reg path st)
  then show ?case by (cases st) (simp add: visit_post_def)
next
  case (3 reg dep deps path st)
  obtain result visited where st: "st = (result, visited)" by (cases st)
  obtain r1 st1 where r1: "visit_deps reg dep path st = (r1, st1)" by (metis prod.exhaust)
  have walk: "successively (depends reg) (path @ [dep])"
    using "3.prems"(2,3) "3.prems"(4) [of dep] by (simp add: successively_append_iff)
  have hd: "hd (path @ [dep]) = hd path" using "3.prems"(2) by simp
  obtain result1 visited1 where st1: "st1 = (result1, visited1)" by (cases st1)
  have one: "visit_post reg (hd path) path {dep} st (r1, st1)"
    using "3.IH"(1) [OF "3.prems"(1) walk] r1 hd by simp
  then have post: "visit_pre reg path (result1, visited1)"
    "\<exists>new. result1 = result @ new \<and> (\<forall>x \<in> set new. (depends reg)\<^sup>*\<^sup>* (hd path) x)"
    "r1 = Inr () \<Longrightarrow> dep \<in> set result1"
    by (auto simp: visit_post_def st st1)
  show ?case
  proof (cases r1)
    case (Inl err)
    then show ?thesis using one r1 by (auto simp: visit_post_def st st1)
  next
    case (Inr u)
    obtain r2 result2 visited2 where r2: "visit_each reg deps path st1 = (r2, (result2, visited2))"
      by (metis prod.exhaust)
    have pre1: "visit_pre reg path (fst st1, snd st1)" using post(1) st1 by simp
    have "visit_post reg (hd path) path (set deps) st1 (r2, (result2, visited2))"
      unfolding r2 [symmetric]
      by (rule "3.IH"(2) [OF r1 [symmetric] Inr pre1 "3.prems"(2,3)]) (simp add: "3.prems"(4))
    then have post2: "visit_pre reg path (result2, visited2)"
      "\<exists>new. result2 = result1 @ new \<and> (\<forall>x \<in> set new. (depends reg)\<^sup>*\<^sup>* (hd path) x)"
      "r2 = Inr () \<Longrightarrow> set deps \<subseteq> set result2" "\<And>err. r2 = Inl err \<Longrightarrow> visit_error_ok reg (hd path) err"
      by (auto simp: visit_post_def st1)
    have "\<exists>new. result2 = result @ new \<and> (\<forall>x \<in> set new. (depends reg)\<^sup>*\<^sup>* (hd path) x)"
      using post(2) post2(2) by auto
    moreover have "dep \<in> set result2" using post(3) Inr post2(2) by auto
    ultimately show ?thesis using post2 r1 r2 Inr by (simp add: visit_post_def st)
  qed
qed

lemma visit_fresh:
  assumes "visit_pre reg [] st" "visit_deps reg name [] st = (r, st')"
  shows "visit_pre reg [] st'" "set (fst st) \<subseteq> set (fst st')"
    "\<forall>x \<in> set (fst st') - set (fst st). (depends reg)\<^sup>*\<^sup>* name x"
    "r = Inr () \<Longrightarrow> name \<in> set (fst st')"
    "r = Inl err \<Longrightarrow> visit_error_ok reg name err"
proof -
  have "visit_post reg (hd ([] @ [name])) [] {name} st (visit_deps reg name [] st)"
    by (rule visit_correct(1)) (use assms in \<open>cases st, simp_all\<close>)
  then have post: "visit_post reg name [] {name} st (r, st')" by (simp add: assms(2))
  obtain res vis res' vis' where st: "st = (res, vis)" "st' = (res', vis')"
    by (cases st; cases st')
  show "visit_pre reg [] st'" "set (fst st) \<subseteq> set (fst st')"
    "\<forall>x \<in> set (fst st') - set (fst st). (depends reg)\<^sup>*\<^sup>* name x"
    "r = Inr () \<Longrightarrow> name \<in> set (fst st')"
    "r = Inl err \<Longrightarrow> visit_error_ok reg name err"
    using post by (auto simp: visit_post_def st)
qed

lemma visit_state_empty [simp]: "visit_pre reg [] ([], [])"
  by (simp add: visit_pre_def)

lemma resolve_ok:
  assumes "resolve_dependencies reg name = Inr order"
  shows "dependency_ordered reg order" "set order = {x. (depends reg)\<^sup>*\<^sup>* name x}" "name \<in> set order"
proof -
  obtain vis u where v: "visit_deps reg name [] ([], []) = (Inr u, (order, vis))"
    using assms by (auto simp: resolve_dependencies_def split: prod.splits sum.splits)
  note F = visit_fresh [OF visit_state_empty v]
  show ord: "dependency_ordered reg order" using F(1) by (simp add: visit_pre_def)
  show name: "name \<in> set order" using F(4) by simp
  show "set order = {x. (depends reg)\<^sup>*\<^sup>* name x}"
    using F(3) dependency_ordered_reach [OF ord name] by auto
qed

lemma dependency_ordered_last:
  assumes "dependency_ordered reg order" "set order = {x. (depends reg)\<^sup>*\<^sup>* name x}" "order \<noteq> []"
  shows "last order = name"
proof -
  have name: "name \<in> set order" using assms(2) by simp
  obtain xs ys where o: "order = xs @ name # ys" using name by (meson split_list)
  have pre: "dependency_ordered reg (xs @ [name])"
    using assms(1) dependency_ordered_append [of reg "xs @ [name]" ys] by (simp add: o)
  have "y \<in> set (xs @ [name])" if "y \<in> set order" for y
    using dependency_ordered_reach [OF pre, of name y] that assms(2) by simp
  moreover have "set ys \<inter> set (xs @ [name]) = {}"
    using assms(1) by (auto simp: dependency_ordered_def o)
  ultimately have "ys = []" using o by (cases ys) auto
  then show ?thesis by (simp add: o)
qed

lemma cycle_of_walk:
  assumes "successively R c" "c \<noteq> []" "last c \<in> set (butlast c)"
  shows "\<exists>x \<in> set c. R\<^sup>*\<^sup>* (hd c) x \<and> R\<^sup>+\<^sup>+ x x"
proof -
  obtain xs ys where b: "butlast c = xs @ last c # ys" using assms(3) by (meson split_list)
  have c: "c = (xs @ last c # ys) @ [last c]" using assms(2) b by (metis append_butlast_last_id)
  have walk: "successively R (last c # ys @ [last c])"
    using assms(1) by (subst (asm) c) (simp add: successively_append_iff split: if_splits)
  obtain z where z: "R (last c) z" "z \<in> set (ys @ [last c])" "successively R (ys @ [last c])"
    "hd (ys @ [last c]) = z"
    using walk by (cases ys) auto
  have "R\<^sup>*\<^sup>* z (last c)"
    using z successively_reach [of R z "tl (ys @ [last c])" "last c"] by (cases ys) auto
  then have "R\<^sup>+\<^sup>+ (last c) (last c)" using z(1) by (rule tranclp.r_into_trancl [THEN tranclp_rtranclp_tranclp, rotated])
  moreover have "R\<^sup>*\<^sup>* (hd c) (last c)"
    using successively_reach [of R "hd c" "tl c" "last c"] assms(1,2) by simp
  moreover have "last c \<in> set c" using assms(2) by simp
  ultimately show ?thesis by blast
qed

lemma resolve_error:
  assumes "resolve_dependencies reg name = Inl err"
  shows "visit_error_ok reg name err"
proof -
  obtain st where v: "visit_deps reg name [] ([], []) = (Inl err, st)"
    using assms by (auto simp: resolve_dependencies_def split: prod.splits sum.splits)
  show ?thesis by (rule visit_fresh(5) [OF visit_state_empty v refl])
qed

lemma resolve_succeeds_iff:
  "(\<exists>order. resolve_dependencies reg name = Inr order) \<longleftrightarrow>
    (\<forall>x. (depends reg)\<^sup>*\<^sup>* name x \<longrightarrow> hm_get reg x \<noteq> None \<and> \<not> (depends reg)\<^sup>+\<^sup>+ x x)"
  (is "?l \<longleftrightarrow> ?r")
proof
  assume ?l
  then obtain order where o: "resolve_dependencies reg name = Inr order" by blast
  note R = resolve_ok [OF o]
  show ?r
  proof (intro allI impI)
    fix x
    assume "(depends reg)\<^sup>*\<^sup>* name x"
    then have x: "x \<in> set order" using R(2) by simp
    show "hm_get reg x \<noteq> None \<and> \<not> (depends reg)\<^sup>+\<^sup>+ x x"
      using dependency_ordered_closed [OF R(1) x] dependency_ordered_acyclic [OF R(1) x]
      by (auto simp: app_deps_def)
  qed
next
  assume r: ?r
  show ?l
  proof (cases "resolve_dependencies reg name")
    case (Inl err)
    from resolve_error [OF this] consider n where "(depends reg)\<^sup>*\<^sup>* name n" "hm_get reg n = None"
      | c where "c \<noteq> []" "successively (depends reg) c" "hd c = name" "last c \<in> set (butlast c)"
      by (auto simp: visit_error_ok_def)
    then show ?thesis
    proof cases
      case 1
      then show ?thesis using r by blast
    next
      case 2
      then show ?thesis using r cycle_of_walk [of "depends reg" c] by blast
    qed
  qed blast
qed

section \<open>Properties of resolution\<close>

text \<open>C13. Dependency resolution is a correct topological sort.  A successful resolution lists exactly the
  applications reachable from the requested one, each once, each registered, each after all its
  dependencies, with the requested one last.\<close>

theorem resolve_topological:
  assumes "resolve_dependencies reg name = Inr order"
  shows "distinct order \<and> last order = name \<and> set order = {x. (depends reg)\<^sup>*\<^sup>* name x} \<and>
    (\<forall>xs x ys. order = xs @ x # ys \<longrightarrow> (\<exists>ds. app_deps reg x = Some ds \<and> set ds \<subseteq> set xs))"
proof -
  note R = resolve_ok [OF assms]
  have "order \<noteq> []" using R(3) by auto
  then show ?thesis
    using R dependency_ordered_last [OF R(1,2)] by (simp add: dependency_ordered_def)
qed

text \<open>Dependency resolution is complete and its errors are truthful.  It succeeds exactly when every
  reachable application is registered and none lies on a cycle; \<open>NotFound\<close> names a reachable
  unregistered application; \<open>CircularDependency\<close> carries a real chain of dependencies from the
  requested application that ends in an application it has already passed.  No other error arises.\<close>

lemma resolve_complete:
  "((\<exists>order. resolve_dependencies reg name = Inr order) \<longleftrightarrow>
     (\<forall>x. (depends reg)\<^sup>*\<^sup>* name x \<longrightarrow> hm_get reg x \<noteq> None \<and> \<not> (depends reg)\<^sup>+\<^sup>+ x x)) \<and>
   (\<forall>err. resolve_dependencies reg name = Inl err \<longrightarrow>
     (\<exists>n. err = StartNotFound n \<and> (depends reg)\<^sup>*\<^sup>* name n \<and> hm_get reg n = None) \<or>
     (\<exists>c. err = CircularDependency c \<and> successively (depends reg) c \<and> c \<noteq> [] \<and> hd c = name \<and>
        last c \<in> set (butlast c)))"
  using resolve_succeeds_iff resolve_error unfolding visit_error_ok_def by blast

text \<open>A small system for the witnesses: \<open>web\<close> depends on \<open>db\<close> and \<open>log\<close>, \<open>db\<close> on \<open>log\<close>; starting an
  application appends its name to the world.\<close>

definition ex_app :: "string \<Rightarrow> string list \<Rightarrow> string list registered_app" where
  "ex_app name deps = \<lparr> ra_spec = \<lparr> as_name = name, as_dependencies = deps, as_description = [] \<rparr>,
     ra_start = (\<lambda>config w. (Inr SRNone, w @ [name])), ra_stop = (\<lambda>p w. w @ [''stop '' @ name]) \<rparr>"

definition ex_reg :: "string list app_registry" where
  "ex_reg = [(''web'', ex_app ''web'' [''db'', ''log'']), (''db'', ex_app ''db'' [''log'']),
     (''log'', ex_app ''log'' []), (''x'', ex_app ''x'' [''y'']), (''y'', ex_app ''y'' [''x''])]"

lemma ex_resolve: "resolve_dependencies ex_reg ''web'' = Inr [''log'', ''db'', ''web'']"
  by (simp add: resolve_dependencies_def visit_deps.simps ex_reg_def ex_app_def)

lemma ex_resolve_cycle: "resolve_dependencies ex_reg ''x'' = Inl (CircularDependency [''x'', ''y'', ''x''])"
  by (simp add: resolve_dependencies_def visit_deps.simps ex_reg_def ex_app_def)

theorem resolve_topological_witness:
  "resolve_dependencies ex_reg ''web'' = Inr [''log'', ''db'', ''web''] \<and>
   {x. (depends ex_reg)\<^sup>*\<^sup>* ''web'' x} = {''log'', ''db'', ''web''}"
  using resolve_topological [OF ex_resolve] ex_resolve by simp

section \<open>Starting\<close>

definition running :: "'w controller \<Rightarrow> string set" where
  "running c = dom (hm_get (ac_running c))"

text \<open>Every running application has its dependencies running.\<close>

definition running_closed :: "'w controller \<Rightarrow> bool" where
  "running_closed c \<longleftrightarrow>
    (\<forall>a \<in> running c. \<exists>ds. app_deps (ac_registered c) a = Some ds \<and> set ds \<subseteq> running c)"

lemma start_one_effect:
  assumes "start_one name config a c = (r, c')"
  shows "ac_registered c' = ac_registered c"
    "r = Inr () \<Longrightarrow> running c' = insert a (running c)"
    "r = Inl e \<Longrightarrow> running c' = running c"
    "b \<in> running c \<Longrightarrow> hm_get (ac_running c') b = hm_get (ac_running c) b"
    "r = Inl e \<Longrightarrow> hm_get (ac_registered c) a \<noteq> None \<Longrightarrow> \<exists>m. e = StartFailed m"
    "r = Inr () \<Longrightarrow> a \<notin> running c \<Longrightarrow> map_option run_config (hm_get (ac_running c') a) =
      Some (if a = name then config else config_new)"
  using assms
  by (auto simp: start_one_def running_def hm_contains_iff Let_def split: if_splits option.splits prod.splits sum.splits)

lemma start_each_effect:
  assumes "start_each name config order c = (r, c')" "running_closed c" "set before \<subseteq> running c"
    and "dependency_ordered (ac_registered c) (before @ order)"
  shows "running_closed c' \<and> ac_registered c' = ac_registered c \<and>
    (\<forall>b \<in> running c. hm_get (ac_running c') b = hm_get (ac_running c) b) \<and>
    (\<exists>started rest. order = started @ rest \<and> running c' = running c \<union> set started \<and>
       (r = Inr () \<longrightarrow> rest = []) \<and> (\<forall>e. r = Inl e \<longrightarrow> rest \<noteq> [] \<and> (\<exists>m. e = StartFailed m)))"
  using assms
proof (induction order arbitrary: c before)
  case Nil
  then show ?case by auto
next
  case (Cons a as)
  obtain r1 c1 where one: "start_one name config a c = (r1, c1)" by (metis prod.exhaust)
  note S = start_one_effect [OF one]
  have "dependency_ordered (ac_registered c) (before @ [a])"
    using dependency_ordered_append [of _ "before @ [a]" as] Cons.prems(4) by simp
  then obtain ds where ds: "app_deps (ac_registered c) a = Some ds" "set ds \<subseteq> set before"
    by (auto simp: dependency_ordered_snoc)
  have reg: "hm_get (ac_registered c) a \<noteq> None" using ds by (auto simp: app_deps_def)
  show ?case
  proof (cases r1)
    case (Inl e)
    then have "r = Inl e" "c' = c1" using Cons.prems(1) one by simp_all
    moreover have "running_closed c1"
      using S(1) S(3) [OF Inl] Cons.prems(2) by (simp add: running_closed_def)
    moreover have "a # as = [] @ (a # as) \<and> running c1 = running c \<union> set []" using S(3) [OF Inl] by simp
    ultimately show ?thesis using S(1,4) S(5) [OF Inl reg] by blast
  next
    case (Inr u)
    then have r1: "r1 = Inr ()" by simp
    have run1: "running c1 = insert a (running c)" by (rule S(2) [OF r1])
    have "running_closed c1"
      using Cons.prems(2,3) ds unfolding running_closed_def run1 S(1) by blast
    moreover have "start_each name config as c1 = (r, c')" using Cons.prems(1) one r1 by simp
    moreover have before: "set (before @ [a]) \<subseteq> running c1"
      "dependency_ordered (ac_registered c1) ((before @ [a]) @ as)"
      using Cons.prems(3,4) run1 S(1) by auto
    ultimately have IH: "running_closed c'" "ac_registered c' = ac_registered c1"
      "\<forall>b \<in> running c1. hm_get (ac_running c') b = hm_get (ac_running c1) b"
      "\<exists>started rest. as = started @ rest \<and> running c' = running c1 \<union> set started \<and>
       (r = Inr () \<longrightarrow> rest = []) \<and> (\<forall>e. r = Inl e \<longrightarrow> rest \<noteq> [] \<and> (\<exists>m. e = StartFailed m))"
      using Cons.IH [of c1 "before @ [a]"] before by blast+
    obtain started rest where "as = started @ rest" "running c' = running c1 \<union> set started"
      "r = Inr () \<longrightarrow> rest = []" "\<forall>e. r = Inl e \<longrightarrow> rest \<noteq> [] \<and> (\<exists>m. e = StartFailed m)"
      using IH(4) by blast
    then have "a # as = (a # started) @ rest \<and> running c' = running c \<union> set (a # started) \<and>
       (r = Inr () \<longrightarrow> rest = []) \<and> (\<forall>e. r = Inl e \<longrightarrow> rest \<noteq> [] \<and> (\<exists>m. e = StartFailed m))"
      using run1 by simp
    moreover have "\<forall>b \<in> running c. hm_get (ac_running c') b = hm_get (ac_running c) b"
      using IH(3) S(4) run1 by simp
    moreover have "ac_registered c' = ac_registered c" using IH(2) S(1) by simp
    ultimately show ?thesis using IH(1) by blast
  qed
qed

text \<open>C26. Starting respects dependencies and never leaves an application running without them.  Whatever
  the start functions do, if every running application has its dependencies running then so it is
  afterwards, on success and on failure; applications that ran before are left as they were.  On
  success exactly the resolved order has been added; a start function that fails leaves the
  applications started before it running (there is no roll-back) and nothing after it.\<close>

theorem start_respects_dependencies:
  assumes "running_closed c" "start_with_config name config c = (r, c')"
  shows "running_closed c' \<and> (\<forall>b \<in> running c. hm_get (ac_running c') b = hm_get (ac_running c) b) \<and>
    (r = Inr () \<longrightarrow> (\<exists>order. resolve_dependencies (ac_registered c) name = Inr order \<and>
        running c' = running c \<union> set order)) \<and>
    (\<forall>m. r = Inl (StartFailed m) \<longrightarrow> (\<exists>started rest.
        resolve_dependencies (ac_registered c) name = Inr (started @ rest) \<and> rest \<noteq> [] \<and>
        running c' = running c \<union> set started)) \<and>
    (\<forall>e. r = Inl e \<and> (\<forall>m. e \<noteq> StartFailed m) \<longrightarrow> c' = c)"
proof (cases "name \<in> running c")
  case True
  then have "r = Inl (AlreadyRunning name)" "c' = c"
    using assms(2) by (simp_all add: start_with_config_def running_def hm_contains_iff domIff)
  then show ?thesis using assms(1) by simp
next
  case False
  show ?thesis
  proof (cases "resolve_dependencies (ac_registered c) name")
    case (Inl err)
    then have "r = Inl err" "c' = c"
      using assms(2) False by (auto simp: start_with_config_def running_def hm_contains_iff)
    moreover have "\<forall>m. err \<noteq> StartFailed m"
      using resolve_error [OF Inl] by (auto simp: visit_error_ok_def)
    ultimately show ?thesis using assms(1) by simp
  next
    case (Inr order)
    then have run: "start_each name config order c = (r, c')"
      using assms(2) False by (auto simp: start_with_config_def running_def hm_contains_iff)
    have ord: "dependency_ordered (ac_registered c) ([] @ order)" using resolve_ok(1) [OF Inr] by simp
    obtain started rest where E: "running_closed c'"
      "\<forall>b \<in> running c. hm_get (ac_running c') b = hm_get (ac_running c) b"
      "order = started @ rest" "running c' = running c \<union> set started"
      "r = Inr () \<longrightarrow> rest = []" "\<forall>e. r = Inl e \<longrightarrow> rest \<noteq> [] \<and> (\<exists>m. e = StartFailed m)"
      using start_each_effect [OF run assms(1) _ ord] by auto
    show ?thesis using E Inr by auto
  qed
qed

theorem start_respects_dependencies_witness:
  "running (snd (app_start ''web'' \<lparr> ac_registered = ex_reg, ac_running = [], ac_world = [] \<rparr>)) =
     {''log'', ''db'', ''web''}"
proof -
  let ?c = "\<lparr> ac_registered = ex_reg, ac_running = [], ac_world = [] \<rparr>"
  have start: "start_with_config ''web'' config_new ?c = (Inr (), snd (app_start ''web'' ?c))"
    unfolding app_start_def
    by (simp add: start_with_config_def ex_resolve hm_contains_def)
      (simp add: start_one_def hm_contains_def ex_reg_def ex_app_def)
  have closed: "running_closed ?c" by (simp add: running_closed_def running_def)
  show ?thesis
    using start_respects_dependencies [OF closed start] by (auto simp: ex_resolve running_def)
qed

section \<open>Stopping\<close>

lemma stop_order_fold:
  assumes "visit_pre reg [] st"
  shows "visit_pre reg [] (fold (\<lambda>name st. snd (visit_deps reg name [] st)) names st) \<and>
    set (fst st) \<subseteq> set (fst (fold (\<lambda>name st. snd (visit_deps reg name [] st)) names st)) \<and>
    (\<forall>a \<in> set names. (\<exists>o'. resolve_dependencies reg a = Inr o') \<longrightarrow>
      a \<in> set (fst (fold (\<lambda>name st. snd (visit_deps reg name [] st)) names st)))"
  using assms
proof (induction names arbitrary: st)
  case Nil
  then show ?case by simp
next
  case (Cons n names)
  obtain r st1 where v: "visit_deps reg n [] st = (r, st1)" by (metis prod.exhaust)
  note F = visit_fresh [OF Cons.prems v]
  have "n \<in> set (fst st1)" if ok: "\<exists>o'. resolve_dependencies reg n = Inr o'"
  proof (cases r)
    case (Inl err)
    from F(5) [OF Inl] consider x where "(depends reg)\<^sup>*\<^sup>* n x" "hm_get reg x = None"
      | c where "c \<noteq> []" "successively (depends reg) c" "hd c = n" "last c \<in> set (butlast c)"
      by (auto simp: visit_error_ok_def)
    then have False
    proof cases
      case 1
      then show False using ok resolve_succeeds_iff [of reg n] by blast
    next
      case 2
      then show False using ok resolve_succeeds_iff [of reg n] cycle_of_walk [of "depends reg" c] by blast
    qed
    then show ?thesis ..
  next
    case (Inr u)
    then show ?thesis using F(4) by simp
  qed
  then show ?case using Cons.IH [OF F(1)] F(2) v by auto
qed

lemma app_stop_effect:
  "running (snd (app_stop exit name c)) = running c - {name}"
  "ac_registered (snd (app_stop exit name c)) = ac_registered c"
  by (auto simp: app_stop_def running_def Let_def split: option.split)

lemma app_stop_fold:
  "running (fold (\<lambda>name c. snd (app_stop exit name c)) names c) = running c - set names"
  by (induction names arbitrary: c) (auto simp: app_stop_effect)

lemma resolvable_in_order:
  assumes "dependency_ordered reg order" "a \<in> set order"
  shows "\<exists>o'. resolve_dependencies reg a = Inr o'"
proof -
  have "hm_get reg x \<noteq> None \<and> \<not> (depends reg)\<^sup>+\<^sup>+ x x" if "(depends reg)\<^sup>*\<^sup>* a x" for x
  proof -
    have x: "x \<in> set order" by (rule dependency_ordered_reach [OF assms that])
    show ?thesis
      using dependency_ordered_closed [OF assms(1) x] dependency_ordered_acyclic [OF assms(1) x]
      by (auto simp: app_deps_def)
  qed
  then show ?thesis using resolve_succeeds_iff by blast
qed

text \<open>Stopping everything goes in reverse dependency order and stops every application whose
  dependencies can be resolved.  In the stop order an application comes once and before everything it
  depends on; afterwards exactly those applications still run whose dependencies do not resolve, which
  \<open>stop_all\<close> silently skips.\<close>

lemma stop_all_reverse_order:
  "distinct (stop_order c) \<and>
   (\<forall>xs a ys. stop_order c = xs @ a # ys \<longrightarrow>
      (\<exists>ds. app_deps (ac_registered c) a = Some ds \<and> set ds \<subseteq> set ys)) \<and>
   running (app_stop_all exit c) =
     {a \<in> running c. \<nexists>order. resolve_dependencies (ac_registered c) a = Inr order}"
proof -
  let ?reg = "ac_registered c"
  let ?st = "fold (\<lambda>name st. snd (visit_deps ?reg name [] st)) (hm_keys (ac_running c)) ([], [])"
  have pre: "visit_pre ?reg [] ?st"
    and all: "\<forall>a \<in> set (hm_keys (ac_running c)). (\<exists>o'. resolve_dependencies ?reg a = Inr o') \<longrightarrow>
      a \<in> set (fst ?st)"
    using stop_order_fold [OF visit_state_empty] by blast+
  have ord: "dependency_ordered ?reg (fst ?st)"
    using pre by (cases ?st) (simp add: visit_pre_def)
  have so: "stop_order c = rev (fst ?st)" by (simp add: stop_order_def)
  have order: "\<exists>ds. app_deps ?reg a = Some ds \<and> set ds \<subseteq> set ys" if "stop_order c = xs @ a # ys" for xs a ys
  proof -
    have "fst ?st = rev ys @ a # rev xs"
      using that unfolding so by (metis rev_append rev.simps(2) append_assoc append_Cons append_Nil rev_rev_ident)
    then show ?thesis using ord unfolding dependency_ordered_def by fastforce
  qed
  have keys: "set (hm_keys (ac_running c)) = running c" by (simp add: running_def set_hm_keys)
  have "running (app_stop_all exit c) = running c - set (fst ?st)"
  proof (cases "hm_keys (ac_running c) = []")
    case True
    then show ?thesis using keys by (auto simp: app_stop_all_def)
  next
    case False
    then show ?thesis by (simp add: app_stop_all_def app_stop_fold so)
  qed
  also have "\<dots> = {a \<in> running c. \<nexists>order. resolve_dependencies ?reg a = Inr order}"
    using all keys resolvable_in_order [OF ord] by blast
  finally show ?thesis using order ord so by (simp add: dependency_ordered_def)
qed

end
