(* ===== verification/Supervisor.thy ===== *)
theory Supervisor
  imports Core "HOL-Library.Monad_Syntax"
begin

text \<open>
  Supervisors (\<open>supervisor/core.rs\<close>, \<open>supervisor/types.rs\<close>, \<open>supervisor/error.rs\<close>): child states,
  restart intensity, the three strategies, termination by shutdown type, the commands and the
  message loop.

  What a supervisor asks of its surroundings (to monitor, to send exit signals, the clock, sleeping,
  names, replies) is the record \<open>env\<close> over an abstract world \<open>'w\<close>; so are the start functions of
  the children, which are user code.  Waiting for a child to terminate polls in a loop that need not
  end, so it is a partial function, and everything that may wait returns an option: \<open>None\<close> is a
  supervisor that hangs.  Time is in nanoseconds.
\<close>

section \<open>Types\<close>

datatype strategy = OneForOne | OneForAll | RestForOne
datatype restart_type = Permanent | Transient | Temporary
datatype shutdown_type = BrutalKill | ShutdownTimeout int | Infinity
datatype child_type = Worker | SupervisorChild

datatype start_child_error = ChildStartFailed string | Ignore | AlreadyPresent

fun start_child_error_display :: "start_child_error \<Rightarrow> string" where
  "start_child_error_display (ChildStartFailed msg) = ''child failed to start: '' @ msg"
| "start_child_error_display Ignore = ''child init returned ignore''"
| "start_child_error_display AlreadyPresent = ''child already present''"

record 'w child_spec =
  cs_id :: string
  cs_start :: "'w \<Rightarrow> (start_child_error + pid) \<times> 'w"
  cs_restart :: restart_type
  cs_shutdown :: shutdown_type
  cs_type :: child_type

definition secs :: "int \<Rightarrow> int" where
  "secs n = n * 1000000000"

definition millis :: "int \<Rightarrow> int" where
  "millis n = n * 1000000"

definition child_spec_new :: "string \<Rightarrow> ('w \<Rightarrow> (start_child_error + pid) \<times> 'w) \<Rightarrow> 'w child_spec" where
  "child_spec_new cid start = \<lparr> cs_id = cid, cs_start = start, cs_restart = Permanent,
     cs_shutdown = ShutdownTimeout (secs 5), cs_type = Worker \<rparr>"

definition child_spec_supervisor :: "'w child_spec \<Rightarrow> 'w child_spec" where
  "child_spec_supervisor c = c\<lparr> cs_type := SupervisorChild, cs_shutdown := Infinity \<rparr>"

definition child_spec_restart :: "restart_type \<Rightarrow> 'w child_spec \<Rightarrow> 'w child_spec" where
  "child_spec_restart r c = c\<lparr> cs_restart := r \<rparr>"

definition child_spec_shutdown :: "shutdown_type \<Rightarrow> 'w child_spec \<Rightarrow> 'w child_spec" where
  "child_spec_shutdown sh c = c\<lparr> cs_shutdown := sh \<rparr>"

definition child_spec_child_type :: "child_type \<Rightarrow> 'w child_spec \<Rightarrow> 'w child_spec" where
  "child_spec_child_type ct c = c\<lparr> cs_type := ct \<rparr>"

definition child_spec_worker :: "'w child_spec \<Rightarrow> 'w child_spec" where
  "child_spec_worker c = child_spec_child_type Worker c"

record supervisor_flags =
  sf_strategy :: strategy
  sf_max_restarts :: "32 word"
  sf_max_seconds :: "32 word"

definition supervisor_flags_new :: "strategy \<Rightarrow> supervisor_flags" where
  "supervisor_flags_new st = \<lparr> sf_strategy = st, sf_max_restarts = 3, sf_max_seconds = 5 \<rparr>"

definition flags_max_restarts :: "32 word \<Rightarrow> supervisor_flags \<Rightarrow> supervisor_flags" where
  "flags_max_restarts n f = f\<lparr> sf_max_restarts := n \<rparr>"

definition flags_max_seconds :: "32 word \<Rightarrow> supervisor_flags \<Rightarrow> supervisor_flags" where
  "flags_max_seconds n f = f\<lparr> sf_max_seconds := n \<rparr>"

record child_info =
  ci_id :: string
  ci_pid :: "pid option"
  ci_type :: child_type
  ci_restart :: restart_type

record child_counts =
  cc_specs :: nat
  cc_active :: nat
  cc_supervisors :: nat
  cc_workers :: nat

section \<open>Errors\<close>

datatype terminate_error = TerminateNotFound string | TerminateTimeout
datatype restart_error = RestartNotFound string | RestartAlreadyRunning string | RestartStartFailed string
datatype delete_error = DeleteNotFound string | DeleteRunning string

definition quoted :: "string \<Rightarrow> string" where
  "quoted s = [CHR 0x27] @ s @ [CHR 0x27]"

datatype sup_start_error = InitFailed string | SpawnFailed string | ChildFailed string string

fun sup_start_error_display :: "sup_start_error \<Rightarrow> string" where
  "sup_start_error_display (InitFailed msg) = ''supervisor init failed: '' @ msg"
| "sup_start_error_display (SpawnFailed msg) = ''supervisor spawn failed: '' @ msg"
| "sup_start_error_display (ChildFailed cid msg) = ''child '' @ quoted cid @ '' failed to start: '' @ msg"

fun terminate_error_display :: "terminate_error \<Rightarrow> string" where
  "terminate_error_display (TerminateNotFound cid) = ''child '' @ quoted cid @ '' not found''"
| "terminate_error_display TerminateTimeout = ''termination timed out''"

fun restart_error_display :: "restart_error \<Rightarrow> string" where
  "restart_error_display (RestartNotFound cid) = ''child '' @ quoted cid @ '' not found''"
| "restart_error_display (RestartAlreadyRunning cid) = ''child '' @ quoted cid @ '' is already running''"
| "restart_error_display (RestartStartFailed msg) = ''child failed to start: '' @ msg"

fun delete_error_display :: "delete_error \<Rightarrow> string" where
  "delete_error_display (DeleteNotFound cid) = ''child '' @ quoted cid @ '' not found''"
| "delete_error_display (DeleteRunning cid) = ''child '' @ quoted cid @ '' is still running''"

section \<open>The surroundings\<close>

datatype sup_reply = ReplyUnit "string + unit" | ReplyPid "string + pid"

record 'w env =
  e_monitor :: "pid \<Rightarrow> pid \<Rightarrow> 'w \<Rightarrow> (string + ref) \<times> 'w"
  e_demonitor :: "pid \<Rightarrow> ref \<Rightarrow> 'w \<Rightarrow> 'w"
  e_exit :: "pid \<Rightarrow> pid \<Rightarrow> exit_reason \<Rightarrow> 'w \<Rightarrow> 'w"
  e_alive :: "pid \<Rightarrow> 'w \<Rightarrow> bool"
  e_now :: "'w \<Rightarrow> int"
  e_sleep :: "int \<Rightarrow> 'w \<Rightarrow> 'w"
  e_set_exit_reason :: "exit_reason \<Rightarrow> 'w \<Rightarrow> 'w"
  e_register_name :: "name \<Rightarrow> pid \<Rightarrow> 'w \<Rightarrow> bool \<times> 'w"
  e_unregister_name :: "name \<Rightarrow> 'w \<Rightarrow> 'w"
  e_reply :: "pid \<Rightarrow> ref \<Rightarrow> sup_reply \<Rightarrow> 'w \<Rightarrow> 'w"

text \<open>The polling loop of \<open>wait_for_termination\<close>: \<open>None\<close> when it never ends.\<close>

partial_function (option) wait_loop :: "'w env \<Rightarrow> pid \<Rightarrow> int option \<Rightarrow> 'w \<Rightarrow> (bool \<times> 'w) option" where
  "wait_loop env pid deadline w =
    (if \<not> e_alive env pid w then Some (True, w)
     else if (case deadline of Some d \<Rightarrow> e_now env w \<ge> d | None \<Rightarrow> False) then Some (False, w)
     else wait_loop env pid deadline (e_sleep env (millis 10) w))"

declare wait_loop.simps [code]

definition wait_for_termination :: "'w env \<Rightarrow> pid \<Rightarrow> int option \<Rightarrow> 'w \<Rightarrow> (bool \<times> 'w) option" where
  "wait_for_termination env pid timeout w =
    wait_loop env pid (map_option (\<lambda>t. e_now env w + t) timeout) w"

section \<open>Supervisor state\<close>

record 'w child_state =
  ch_spec :: "'w child_spec"
  ch_pid :: "pid option"
  ch_ref :: "ref option"

type_synonym query_state = "(string, child_info) hmap"

record 'w sup =
  s_self :: pid
  s_flags :: supervisor_flags
  s_children :: "(string, 'w child_state) hmap"
  s_order :: "string list"
  s_pid_to_id :: "(pid, string) hmap"
  s_restart_times :: "int list"
  s_name :: "name option"
  s_queries :: "(pid, query_state) hmap"
  s_world :: 'w

text \<open>The state built in \<open>start_impl\<close>: every spec is inserted under its identifier, which is appended to the order.\<close>

definition sup_init :: "pid \<Rightarrow> supervisor_flags \<Rightarrow> 'w child_spec list \<Rightarrow> name option \<Rightarrow>
    (pid, query_state) hmap \<Rightarrow> 'w \<Rightarrow> 'w sup" where
  "sup_init self flags specs name queries w =
    \<lparr> s_self = self, s_flags = flags,
      s_children = fold (\<lambda>spec m. hm_insert (cs_id spec) \<lparr> ch_spec = spec, ch_pid = None, ch_ref = None \<rparr> m) specs [],
      s_order = map cs_id specs, s_pid_to_id = [], s_restart_times = [], s_name = name,
      s_queries = queries, s_world = w \<rparr>"

definition sup_start_child :: "'w env \<Rightarrow> string \<Rightarrow> 'w sup \<Rightarrow> (string + pid) \<times> 'w sup" where
  "sup_start_child env cid s =
    (case hm_get (s_children s) cid of
       None \<Rightarrow> (Inl (''child '' @ quoted cid @ '' not found''), s)
     | Some child \<Rightarrow>
        (case cs_start (ch_spec child) (s_world s) of
           (Inl e, w) \<Rightarrow> (Inl (start_child_error_display e), s\<lparr> s_world := w \<rparr>)
         | (Inr pid, w) \<Rightarrow>
            (case e_monitor env (s_self s) pid w of
               (Inl e, w') \<Rightarrow> (Inl e, s\<lparr> s_world := w' \<rparr>)
             | (Inr r, w') \<Rightarrow>
                (Inr pid, s\<lparr> s_world := w',
                   s_children := hm_get_mut cid (\<lambda>c. c\<lparr> ch_pid := Some pid, ch_ref := Some r \<rparr>) (s_children s),
                   s_pid_to_id := hm_insert pid cid (s_pid_to_id s) \<rparr>))))"

definition sup_terminate_child_by_id :: "'w env \<Rightarrow> string \<Rightarrow> 'w sup \<Rightarrow> 'w sup option" where
  "sup_terminate_child_by_id env cid s =
    (case hm_get (s_children s) cid of
       None \<Rightarrow> Some s
     | Some child \<Rightarrow>
        (case ch_pid child of
           None \<Rightarrow> Some s
         | Some pid \<Rightarrow>
            (let w0 = (case ch_ref child of Some r \<Rightarrow> e_demonitor env (s_self s) r (s_world s) | None \<Rightarrow> s_world s);
                 s1 = s\<lparr> s_children := hm_insert cid (child\<lparr> ch_pid := None, ch_ref := None \<rparr>) (s_children s),
                         s_pid_to_id := hm_remove pid (s_pid_to_id s) \<rparr>
             in map_option (\<lambda>w. s1\<lparr> s_world := w \<rparr>)
              (case cs_shutdown (ch_spec child) of
                 BrutalKill \<Rightarrow> Some (e_exit env (s_self s) pid Killed w0)
               | ShutdownTimeout duration \<Rightarrow>
                   do { (fin, w) \<leftarrow> wait_for_termination env pid (Some duration) (e_exit env (s_self s) pid Shutdown w0);
                        if \<not> fin then Some (e_sleep env (millis 10) (e_exit env (s_self s) pid Killed w))
                        else Some w }
               | Infinity \<Rightarrow>
                   do { (fin, w) \<leftarrow> wait_for_termination env pid None (e_exit env (s_self s) pid Shutdown w0);
                        Some w }))))"

fun sup_terminate_each :: "'w env \<Rightarrow> string list \<Rightarrow> 'w sup \<Rightarrow> 'w sup option" where
  "sup_terminate_each env [] s = Some s"
| "sup_terminate_each env (cid # ids) s =
    do { s' \<leftarrow> sup_terminate_child_by_id env cid s; sup_terminate_each env ids s' }"

definition sup_terminate_all :: "'w env \<Rightarrow> 'w sup \<Rightarrow> 'w sup option" where
  "sup_terminate_all env s = sup_terminate_each env (rev (s_order s)) s"

text \<open>Starting several children in order; the first failure ends it with the given wording.\<close>

fun sup_start_each :: "'w env \<Rightarrow> string \<Rightarrow> string list \<Rightarrow> 'w sup \<Rightarrow> (exit_reason + unit) \<times> 'w sup" where
  "sup_start_each env what [] s = (Inr (), s)"
| "sup_start_each env what (cid # ids) s =
    (case sup_start_child env cid s of
       (Inl e, s') \<Rightarrow> (Inl (Error (''child '' @ quoted cid @ '' failed to '' @ what @ '': '' @ e)), s')
     | (Inr _, s') \<Rightarrow> sup_start_each env what ids s')"

definition sup_start_all :: "'w env \<Rightarrow> 'w sup \<Rightarrow> (exit_reason + unit) \<times> 'w sup" where
  "sup_start_all env s = sup_start_each env ''start'' (s_order s) s"

definition should_restart :: "restart_type \<Rightarrow> exit_reason \<Rightarrow> bool" where
  "should_restart rt reason =
    (case rt of Permanent \<Rightarrow> True | Transient \<Rightarrow> is_abnormal reason | Temporary \<Rightarrow> False)"

text \<open>The sliding window of restart times: the times kept, and whether one more restart is allowed.\<close>

definition check_restart_rate :: "nat \<Rightarrow> int \<Rightarrow> int \<Rightarrow> int list \<Rightarrow> bool \<times> int list" where
  "check_restart_rate max_restarts window now restarts =
    (let kept = filter (\<lambda>t. t > now - window) restarts
     in if length kept \<ge> max_restarts then (False, kept) else (True, kept @ [now]))"

definition list_position :: "'a \<Rightarrow> 'a list \<Rightarrow> nat" where
  "list_position x xs =
    (let i = length (takeWhile (\<lambda>y. y \<noteq> x) xs) in if i < length xs then i else 0)"

definition sup_handle_child_exit ::
    "'w env \<Rightarrow> pid \<Rightarrow> exit_reason \<Rightarrow> 'w sup \<Rightarrow> ((exit_reason + unit) \<times> 'w sup) option" where
  "sup_handle_child_exit env pid reason s =
    (case hm_get (s_pid_to_id s) pid of
       None \<Rightarrow> Some (Inr (), s)
     | Some cid \<Rightarrow>
        (let s0 = s\<lparr> s_pid_to_id := hm_remove pid (s_pid_to_id s) \<rparr> in
         case hm_get (s_children s0) cid of
           None \<Rightarrow> Some (Inr (), s0)
         | Some child \<Rightarrow>
            (let s1 = s0\<lparr> s_children := hm_insert cid (child\<lparr> ch_pid := None, ch_ref := None \<rparr>) (s_children s0) \<rparr> in
             if \<not> should_restart (cs_restart (ch_spec child)) reason then Some (Inr (), s1)
             else
              (let (allowed, restarts) = check_restart_rate (unat (sf_max_restarts (s_flags s1)))
                      (secs (uint (sf_max_seconds (s_flags s1)))) (e_now env (s_world s1)) (s_restart_times s1);
                   s2 = s1\<lparr> s_restart_times := restarts \<rparr> in
               if \<not> allowed then Some (Inl (Error ''max restart intensity reached''), s2)
               else
                (case sf_strategy (s_flags s2) of
                   OneForOne \<Rightarrow> Some (sup_start_each env ''restart'' [cid] s2)
                 | OneForAll \<Rightarrow>
                     do { s3 \<leftarrow> sup_terminate_all env s2; Some (sup_start_all env s3) }
                 | RestForOne \<Rightarrow>
                     (let pos = list_position cid (s_order s2) in
                      do { s3 \<leftarrow> sup_terminate_each env (rev (drop pos (s_order s2))) s2;
                           Some (sup_start_each env ''restart'' (drop pos (s_order s3)) s3) }))))))"

section \<open>Queries\<close>

text \<open>The supervisor's own counts, which count the kinds of running children only.\<close>

definition sup_count_children :: "'w sup \<Rightarrow> child_counts" where
  "sup_count_children s =
    fold (\<lambda>c counts.
        if ch_pid c \<noteq> None
        then let counts = counts\<lparr> cc_active := cc_active counts + 1 \<rparr>
             in case cs_type (ch_spec c) of
                  SupervisorChild \<Rightarrow> counts\<lparr> cc_supervisors := cc_supervisors counts + 1 \<rparr>
                | Worker \<Rightarrow> counts\<lparr> cc_workers := cc_workers counts + 1 \<rparr>
        else counts)
      (hm_values (s_children s)) \<lparr> cc_specs = length (s_children s), cc_active = 0, cc_supervisors = 0, cc_workers = 0 \<rparr>"

definition query_of :: "'w child_state \<Rightarrow> child_info" where
  "query_of c = \<lparr> ci_id = cs_id (ch_spec c), ci_pid = ch_pid c, ci_type = cs_type (ch_spec c),
     ci_restart = cs_restart (ch_spec c) \<rparr>"

definition sup_which_children :: "'w sup \<Rightarrow> child_info list" where
  "sup_which_children s = map query_of (hm_values (s_children s))"

definition sync_to_registry :: "'w sup \<Rightarrow> 'w sup" where
  "sync_to_registry s =
    s\<lparr> s_queries := hm_insert (s_self s) (map (\<lambda>(cid, c). (cid, query_of c)) (s_children s)) (s_queries s) \<rparr>"

definition unregister_from_registry :: "'w sup \<Rightarrow> 'w sup" where
  "unregister_from_registry s = s\<lparr> s_queries := hm_remove (s_self s) (s_queries s) \<rparr>"

definition get_child_counts :: "query_state \<Rightarrow> child_counts" where
  "get_child_counts q =
    fold (\<lambda>c counts.
        let counts = (if ci_pid c \<noteq> None then counts\<lparr> cc_active := cc_active counts + 1 \<rparr> else counts)
        in case ci_type c of
             Worker \<Rightarrow> counts\<lparr> cc_workers := cc_workers counts + 1 \<rparr>
           | SupervisorChild \<Rightarrow> counts\<lparr> cc_supervisors := cc_supervisors counts + 1 \<rparr>)
      (hm_values q) \<lparr> cc_specs = length q, cc_active = 0, cc_supervisors = 0, cc_workers = 0 \<rparr>"

definition get_which_children :: "query_state \<Rightarrow> child_info list" where
  "get_which_children q = hm_values q"

definition which_children :: "pid \<Rightarrow> (pid, query_state) hmap \<Rightarrow> child_info list option" where
  "which_children supervisor queries = map_option get_which_children (hm_get queries supervisor)"

definition count_children :: "pid \<Rightarrow> (pid, query_state) hmap \<Rightarrow> child_counts option" where
  "count_children supervisor queries = map_option get_child_counts (hm_get queries supervisor)"

section \<open>Commands and the message loop\<close>

datatype sup_command =
    CmdTerminate string pid ref
  | CmdDelete string pid ref
  | CmdRestart string pid ref

datatype sup_message = MSystem system_message | MCommand sup_command | MOther

definition handle_terminate_child_command :: "'w env \<Rightarrow> string \<Rightarrow> 'w sup \<Rightarrow> ((string + unit) \<times> 'w sup) option" where
  "handle_terminate_child_command env cid s =
    (if \<not> hm_contains cid (s_children s) then Some (Inl (''child '' @ quoted cid @ '' not found''), s)
     else do { s' \<leftarrow> sup_terminate_child_by_id env cid s; Some (Inr (), s') })"

definition handle_delete_child_command :: "string \<Rightarrow> 'w sup \<Rightarrow> (string + unit) \<times> 'w sup" where
  "handle_delete_child_command cid s =
    (case hm_get (s_children s) cid of
       None \<Rightarrow> (Inl (''not_found:'' @ cid), s)
     | Some child \<Rightarrow>
        if ch_pid child \<noteq> None then (Inl (''running:'' @ cid), s)
        else (Inr (), s\<lparr> s_children := hm_remove cid (s_children s),
                         s_order := filter (\<lambda>i. i \<noteq> cid) (s_order s) \<rparr>))"

definition handle_restart_child_command :: "'w env \<Rightarrow> string \<Rightarrow> 'w sup \<Rightarrow> (string + pid) \<times> 'w sup" where
  "handle_restart_child_command env cid s =
    (case hm_get (s_children s) cid of
       None \<Rightarrow> (Inl (''not_found:'' @ cid), s)
     | Some child \<Rightarrow>
        if ch_pid child \<noteq> None then (Inl (''already_running:'' @ cid), s)
        else sup_start_child env cid s)"

definition sup_unregister_name :: "'w env \<Rightarrow> 'w sup \<Rightarrow> 'w sup" where
  "sup_unregister_name env s =
    (case s_name s of Some name \<Rightarrow> s\<lparr> s_world := e_unregister_name env name (s_world s) \<rparr> | None \<Rightarrow> s)"

definition sup_cleanup :: "'w env \<Rightarrow> 'w sup \<Rightarrow> 'w sup" where
  "sup_cleanup env s = unregister_from_registry (sup_unregister_name env s)"

text \<open>The part of \<open>supervisor_loop\<close> before the loop; the flag tells whether the loop is entered.\<close>

definition sup_startup :: "'w env \<Rightarrow> 'w sup \<Rightarrow> (bool \<times> 'w sup) option" where
  "sup_startup env s =
    (case sup_start_all env s of
       (Inl reason, s') \<Rightarrow>
         Some (False, sup_cleanup env (s'\<lparr> s_world := e_set_exit_reason env reason (s_world s') \<rparr>))
     | (Inr _, s') \<Rightarrow>
        (case s_name s' of
           None \<Rightarrow> Some (True, sync_to_registry s')
         | Some name \<Rightarrow>
            (let (ok, w) = e_register_name env name (s_self s') (s_world s'); s2 = s'\<lparr> s_world := w \<rparr> in
             if ok then Some (True, sync_to_registry s2)
             else do { s3 \<leftarrow> sup_terminate_all env s2; Some (False, unregister_from_registry s3) })))"

text \<open>Leaving the loop: the exit reason is set, the children terminated, the registrations removed.\<close>

definition sup_shutdown :: "'w env \<Rightarrow> exit_reason option \<Rightarrow> 'w sup \<Rightarrow> 'w sup option" where
  "sup_shutdown env reason s =
    do { let s1 = (case reason of Some r \<Rightarrow> s\<lparr> s_world := e_set_exit_reason env r (s_world s) \<rparr> | None \<Rightarrow> s);
         s2 \<leftarrow> sup_terminate_all env s1;
         Some (sup_cleanup env s2) }"

definition sup_reply_to :: "'w env \<Rightarrow> pid \<Rightarrow> ref \<Rightarrow> sup_reply \<Rightarrow> 'w sup \<Rightarrow> 'w sup" where
  "sup_reply_to env reply_to r result s =
    (let s1 = sync_to_registry s in s1\<lparr> s_world := e_reply env reply_to r result (s_world s1) \<rparr>)"

fun sup_handle :: "'w env \<Rightarrow> sup_message \<Rightarrow> 'w sup \<Rightarrow> (bool \<times> 'w sup) option" where
  "sup_handle env (MSystem (Down r pid reason)) s =
    do { (res, s1) \<leftarrow> sup_handle_child_exit env pid reason s;
         case res of
           Inl exit_reason \<Rightarrow> do { s2 \<leftarrow> sup_shutdown env (Some exit_reason) s1; Some (False, s2) }
         | Inr _ \<Rightarrow> Some (True, sync_to_registry s1) }"
| "sup_handle env (MSystem (Exit from reason)) s =
    do { s1 \<leftarrow> sup_shutdown env (Some reason) s; Some (False, s1) }"
| "sup_handle env (MSystem Timeout) s = Some (True, s)"
| "sup_handle env (MCommand (CmdTerminate cid reply_to r)) s =
    do { (res, s1) \<leftarrow> handle_terminate_child_command env cid s;
         Some (True, sup_reply_to env reply_to r (ReplyUnit res) s1) }"
| "sup_handle env (MCommand (CmdDelete cid reply_to r)) s =
    (let (res, s1) = handle_delete_child_command cid s
     in Some (True, sup_reply_to env reply_to r (ReplyUnit res) s1))"
| "sup_handle env (MCommand (CmdRestart cid reply_to r)) s =
    (let (res, s1) = handle_restart_child_command env cid s
     in Some (True, sup_reply_to env reply_to r (ReplyPid res) s1))"
| "sup_handle env MOther s = Some (True, s)"

text \<open>The loop over the messages received so far; a closed mailbox ends it.\<close>

fun sup_loop :: "'w env \<Rightarrow> sup_message option list \<Rightarrow> 'w sup \<Rightarrow> (bool \<times> 'w sup) option" where
  "sup_loop env [] s = Some (True, s)"
| "sup_loop env (None # ms) s = do { s1 \<leftarrow> sup_shutdown env None s; Some (False, s1) }"
| "sup_loop env (Some m # ms) s =
    do { (go, s1) \<leftarrow> sup_handle env m s; if go then sup_loop env ms s1 else Some (False, s1) }"

section \<open>The client side of the commands\<close>

text \<open>How a call ends for the caller: the send failed, no reply came in time, the reply did not decode,
  or it carried the result of the handler.\<close>

datatype 'a client_reply = SendFailed | NoReply | BadReply | Reply 'a

definition strip_prefix :: "string \<Rightarrow> string \<Rightarrow> string option" where
  "strip_prefix p s = (if take (length p) s = p then Some (drop (length p) s) else None)"

definition client_terminate_child :: "string \<Rightarrow> (string + unit) client_reply \<Rightarrow> terminate_error + unit" where
  "client_terminate_child cid reply =
    (case reply of
       SendFailed \<Rightarrow> Inl (TerminateNotFound cid)
     | NoReply \<Rightarrow> Inl TerminateTimeout
     | BadReply \<Rightarrow> Inl (TerminateNotFound cid)
     | Reply (Inl e) \<Rightarrow> Inl (TerminateNotFound e)
     | Reply (Inr u) \<Rightarrow> Inr u)"

definition client_delete_child :: "string \<Rightarrow> (string + unit) client_reply \<Rightarrow> delete_error + unit" where
  "client_delete_child cid reply =
    (case reply of
       Reply (Inl e) \<Rightarrow>
         (case strip_prefix ''running:'' e of
            Some rest \<Rightarrow> Inl (DeleteRunning rest)
          | None \<Rightarrow> Inl (DeleteNotFound (case strip_prefix ''not_found:'' e of Some rest \<Rightarrow> rest | None \<Rightarrow> e)))
     | Reply (Inr u) \<Rightarrow> Inr u
     | _ \<Rightarrow> Inl (DeleteNotFound cid))"

definition client_restart_child :: "string \<Rightarrow> (string + pid) client_reply \<Rightarrow> restart_error + pid" where
  "client_restart_child cid reply =
    (case reply of
       SendFailed \<Rightarrow> Inl (RestartNotFound cid)
     | NoReply \<Rightarrow> Inl (RestartStartFailed ''timeout waiting for reply'')
     | BadReply \<Rightarrow> Inl (RestartStartFailed ''decode error'')
     | Reply (Inr p) \<Rightarrow> Inr p
     | Reply (Inl e) \<Rightarrow>
         (case strip_prefix ''already_running:'' e of
            Some rest \<Rightarrow> Inl (RestartAlreadyRunning rest)
          | None \<Rightarrow>
             (case strip_prefix ''not_found:'' e of
                Some rest \<Rightarrow> Inl (RestartNotFound rest)
              | None \<Rightarrow> Inl (RestartStartFailed e))))"

end
