(* ===== verification/Sup_Props.thy ===== *)
theory Sup_Props
  imports Supervisor
begin

text \<open>
  What supervisors guarantee.  The restart intensity is a property of the sliding window alone.  The
  rest is proved once inside the locale \<open>child_world\<close>, the contract a supervisor needs from its
  surroundings: killed processes are dead, dead processes stay dead, the clock advances while one
  sleeps, and start functions hand out new process identifiers.  \<open>Sup_Runtime\<close> interprets the locale
  on the process runtime.
\<close>

section \<open>Restart intensity\<close>

text \<open>The restarts accepted when crashes are handled at the given times.\<close>

fun accepted_restarts :: "nat \<Rightarrow> int \<Rightarrow> int list \<Rightarrow> int list \<Rightarrow> int list" where
  "accepted_restarts m w [] kept = []"
| "accepted_restarts m w (now # nows) kept =
    (case check_restart_rate m w now kept of
       (True, kept') \<Rightarrow> now # accepted_restarts m w nows kept'
     | (False, kept') \<Rightarrow> accepted_restarts m w nows kept')"

definition in_window :: "int \<Rightarrow> int \<Rightarrow> int list \<Rightarrow> nat" where
  "in_window w t xs = length (filter (\<lambda>x. t - w < x \<and> x \<le> t) xs)"

definition window_inv :: "nat \<Rightarrow> int \<Rightarrow> int list \<Rightarrow> int \<Rightarrow> int list \<Rightarrow> bool" where
  "window_inv m w acc latest kept \<longleftrightarrow> (\<forall>x \<in> set acc. x \<le> latest) \<and>
     (\<forall>n \<ge> latest. filter (\<lambda>t. t > n - w) kept = filter (\<lambda>t. t > n - w) acc) \<and>
     (\<forall>t. in_window w t acc \<le> m)"

lemma filter_filter_weaker: "n \<le> n' \<Longrightarrow> filter (\<lambda>t. t > n' - w) (filter (\<lambda>t. t > n - w) xs) = filter (\<lambda>t. t > n' - (w::int)) xs"
  by (induction xs) auto

lemma window_inv_check:
  assumes inv: "window_inv m w acc latest kept" and le: "latest \<le> now"
    and c: "check_restart_rate m w now kept = (ok, kept')"
  shows "window_inv m w (if ok then acc @ [now] else acc) now kept'"
    and "\<not> ok \<longleftrightarrow> m \<le> in_window w now acc"
proof -
  let ?k = "filter (\<lambda>t. t > now - w) acc"
  have kept: "filter (\<lambda>t. t > now - w) kept = ?k" using inv le by (simp add: window_inv_def)
  have res: "ok \<longleftrightarrow> length ?k < m" "kept' = (if ok then ?k @ [now] else ?k)"
    using c kept by (auto simp: check_restart_rate_def Let_def split: if_splits)
  have le_now: "\<forall>x \<in> set acc. x \<le> now" using inv le by (auto simp: window_inv_def)
  have win: "in_window w now acc = length ?k"
    unfolding in_window_def using le_now by (metis (mono_tags, lifting) filter_cong)
  show "\<not> ok \<longleftrightarrow> m \<le> in_window w now acc" using res(1) win by auto
  have kept': "filter (\<lambda>t. t > n - w) kept' = filter (\<lambda>t. t > n - w) (if ok then acc @ [now] else acc)"
    if "now \<le> n" for n
    using that by (simp add: res(2) filter_filter_weaker del: filter_filter)
  have "in_window w t (acc @ [now]) \<le> m" if ok for t
  proof (cases "t < now")
    case True
    then have "in_window w t (acc @ [now]) = in_window w t acc" by (simp add: in_window_def)
    then show ?thesis using inv by (simp add: window_inv_def)
  next
    case False
    have "length (filter (\<lambda>x. t - w < x \<and> x \<le> t) acc) \<le> length ?k"
    proof -
      have "filter (\<lambda>x. t - w < x \<and> x \<le> t) acc = filter (\<lambda>x. t - w < x \<and> x \<le> t) ?k"
        using False by (induction acc) auto
      then show ?thesis by (metis length_filter_le)
    qed
    then show ?thesis using that res(1) by (auto simp: in_window_def)
  qed
  then show "window_inv m w (if ok then acc @ [now] else acc) now kept'"
    using inv le_now kept' by (auto simp: window_inv_def)
qed

lemma accepted_window:
  assumes "window_inv m w acc latest kept" "sorted (latest # nows)"
  shows "in_window w t (acc @ accepted_restarts m w nows kept) \<le> m"
  using assms
proof (induction nows arbitrary: acc latest kept)
  case Nil
  then show ?case by (simp add: window_inv_def)
next
  case (Cons now nows)
  obtain ok kept' where c: "check_restart_rate m w now kept = (ok, kept')"
    by (cases "check_restart_rate m w now kept")
  have inv: "window_inv m w (if ok then acc @ [now] else acc) now kept'"
    by (rule window_inv_check(1) [OF Cons.prems(1) _ c]) (use Cons.prems(2) in simp)
  have "in_window w t ((if ok then acc @ [now] else acc) @ accepted_restarts m w nows kept') \<le> m"
    by (rule Cons.IH [OF inv]) (use Cons.prems(2) in simp)
  then show ?case using c by (cases ok) simp_all
qed

text \<open>C23. The restart intensity is respected.  However the crashes of the children fall in time, in any
  window of \<open>max_seconds\<close> at most \<open>max_restarts\<close> restarts are accepted, the window being open at its
  older end.\<close>

theorem restart_intensity_bound:
  assumes "sorted crashes"
  shows "length (filter (\<lambda>x. t - w < x \<and> x \<le> t) (accepted_restarts m w crashes [])) \<le> m"
proof (cases crashes)
  case Nil
  then show ?thesis by simp
next
  case (Cons now nows)
  have "window_inv m w [] now []" by (simp add: window_inv_def in_window_def)
  then have "in_window w t ([] @ accepted_restarts m w crashes []) \<le> m"
    by (rule accepted_window) (use assms Cons in simp)
  then show ?thesis by (simp add: in_window_def)
qed

theorem restart_intensity_bound_witness:
  "length (filter (\<lambda>x. 12 - secs 5 < x \<and> x \<le> 12) (accepted_restarts 2 (secs 5) [10, 11, 12] [])) \<le> 2"
  by (rule restart_intensity_bound) simp

section \<open>The contract with the surroundings\<close>

text \<open>What never changes back: processes stay known, and known dead processes stay dead.\<close>

definition world_step :: "'w env \<Rightarrow> ('w \<Rightarrow> pid set) \<Rightarrow> 'w \<Rightarrow> 'w \<Rightarrow> bool" where
  "world_step env known w w' \<longleftrightarrow> known w \<subseteq> known w' \<and>
     (\<forall>q \<in> known w. \<not> e_alive env q w \<longrightarrow> \<not> e_alive env q w')"

lemma world_step_refl [simp]: "world_step env known w w"
  by (simp add: world_step_def)

lemma world_step_trans [trans]:
  "world_step env known w w' \<Longrightarrow> world_step env known w' w'' \<Longrightarrow> world_step env known w w''"
  unfolding world_step_def by blast

lemma world_stepD:
  "world_step env known w w' \<Longrightarrow> q \<in> known w \<Longrightarrow> q \<in> known w'"
  "world_step env known w w' \<Longrightarrow> q \<in> known w \<Longrightarrow> \<not> e_alive env q w \<Longrightarrow> \<not> e_alive env q w'"
  unfolding world_step_def by blast+

text \<open>What is required of a start function, which is user code: a process it starts is new.\<close>

definition start_ok :: "'w env \<Rightarrow> ('w \<Rightarrow> pid set) \<Rightarrow> ('w \<Rightarrow> (start_child_error + pid) \<times> 'w) \<Rightarrow> bool" where
  "start_ok env known f \<longleftrightarrow> (\<forall>w r w'. f w = (r, w') \<longrightarrow> world_step env known w w' \<and>
     (\<forall>p. r = Inr p \<longrightarrow> p \<notin> known w \<and> p \<in> known w'))"

definition pid_of :: "'w sup \<Rightarrow> string \<Rightarrow> pid option" where
  "pid_of s cid = (case hm_get (s_children s) cid of None \<Rightarrow> None | Some c \<Rightarrow> ch_pid c)"

text \<open>The invariant of a supervisor: the order lists the children, the map of processes inverts the
  processes of the children, every specification is stored under its identifier.\<close>

definition sup_ok :: "'w env \<Rightarrow> ('w \<Rightarrow> pid set) \<Rightarrow> 'w sup \<Rightarrow> bool" where
  "sup_ok env known s \<longleftrightarrow> hm_ok (s_children s) \<and> distinct (s_order s) \<and>
     set (s_order s) = dom (hm_get (s_children s)) \<and>
     (\<forall>cid c. hm_get (s_children s) cid = Some c \<longrightarrow>
        cs_id (ch_spec c) = cid \<and> start_ok env known (cs_start (ch_spec c)) \<and> (ch_ref c = None \<longleftrightarrow> ch_pid c = None)) \<and>
     (\<forall>cid p. pid_of s cid = Some p \<longleftrightarrow> hm_get (s_pid_to_id s) p = Some cid) \<and>
     (\<forall>cid p. pid_of s cid = Some p \<longrightarrow> p \<in> known (s_world s))"

text \<open>Two states that differ in the processes of some children only.\<close>

definition others_same :: "string set \<Rightarrow> 'w sup \<Rightarrow> 'w sup \<Rightarrow> bool" where
  "others_same ids s s' \<longleftrightarrow> (\<forall>j. j \<notin> ids \<longrightarrow> hm_get (s_children s') j = hm_get (s_children s) j) \<and>
     s_order s' = s_order s \<and> s_flags s' = s_flags s \<and> s_self s' = s_self s \<and> s_name s' = s_name s \<and>
     (\<forall>j. map_option ch_spec (hm_get (s_children s') j) = map_option ch_spec (hm_get (s_children s) j))"

lemma others_same_refl [simp]: "others_same ids s s"
  by (simp add: others_same_def)

lemma others_same_trans:
  "others_same A s s' \<Longrightarrow> others_same B s' s'' \<Longrightarrow> A \<subseteq> C \<Longrightarrow> B \<subseteq> C \<Longrightarrow> others_same C s s''"
  unfolding others_same_def by (metis subsetD)

lemma others_same_pid: "others_same ids s s' \<Longrightarrow> j \<notin> ids \<Longrightarrow> pid_of s' j = pid_of s j"
  by (simp add: others_same_def pid_of_def)

lemma others_same_spec:
  "others_same ids s s' \<Longrightarrow> map_option ch_spec (hm_get (s_children s') j) = map_option ch_spec (hm_get (s_children s) j)"
  by (simp add: others_same_def)

text \<open>The children a crash of \<open>cid\<close> makes the supervisor restart.\<close>

definition affected :: "strategy \<Rightarrow> string list \<Rightarrow> string \<Rightarrow> string set" where
  "affected st order cid =
    (case st of OneForOne \<Rightarrow> {cid} | OneForAll \<Rightarrow> set order
     | RestForOne \<Rightarrow> set (dropWhile (\<lambda>j. j \<noteq> cid) order))"

lemma affected_self: "cid \<in> set order \<Longrightarrow> cid \<in> affected st order cid"
proof (cases st)
  case RestForOne
  show "cid \<in> set order \<Longrightarrow> ?thesis" unfolding affected_def RestForOne strategy.case by (induction order) auto
qed (simp_all add: affected_def)

lemma drop_list_position: "x \<in> set xs \<Longrightarrow> drop (list_position x xs) xs = dropWhile (\<lambda>y. y \<noteq> x) xs"
proof -
  assume x: "x \<in> set xs"
  have "length (takeWhile (\<lambda>y. y \<noteq> x) xs) < length xs"
    using x by (induction xs) auto
  then show ?thesis by (simp add: list_position_def Let_def dropWhile_eq_drop)
qed

locale child_world =
  fixes env :: "'w env" and known :: "'w \<Rightarrow> pid set"
  assumes kill: "\<not> e_alive env p (e_exit env me p Killed w)"
    and clock: "e_now env w + d \<le> e_now env (e_sleep env d w)"
    and step_exit: "world_step env known w (e_exit env me p reason w)"
    and step_monitor: "world_step env known w (snd (e_monitor env me p w))"
    and step_demonitor: "world_step env known w (e_demonitor env me r w)"
    and step_sleep: "world_step env known w (e_sleep env d w)"
    and step_set_exit_reason: "world_step env known w (e_set_exit_reason env reason w)"
    and step_register: "world_step env known w (snd (e_register_name env n p w))"
    and step_unregister: "world_step env known w (e_unregister_name env n w)"
    and step_reply: "world_step env known w (e_reply env p r result w)"
begin

abbreviation step :: "'w \<Rightarrow> 'w \<Rightarrow> bool" where
  "step \<equiv> world_step env known"

abbreviation ok :: "'w sup \<Rightarrow> bool" where
  "ok \<equiv> sup_ok env known"

subsection \<open>Waiting\<close>

lemma wait_loop_result:
  assumes "wait_loop env p deadline w = Some (b, w')"
  shows "(b \<longrightarrow> \<not> e_alive env p w') \<and> step w w'"
proof -
  let ?P = "\<lambda>env' p deadline w (b, w'). env' = env \<longrightarrow> (b \<longrightarrow> \<not> e_alive env p w') \<and> step w w'"
  have "?P env p deadline w (b, w')"
  proof (rule wait_loop.raw_induct [where P = ?P, OF _ assms])
    fix f env' p deadline w r
    assume IH: "\<And>env' p deadline w r. f env' p deadline w = Some r \<Longrightarrow> ?P env' p deadline w r"
      and eq: "(if \<not> e_alive env' p w then Some (True, w)
        else if (case deadline of Some d \<Rightarrow> e_now env' w \<ge> d | None \<Rightarrow> False) then Some (False, w)
        else f env' p deadline (e_sleep env' (millis 10) w)) = Some r"
    show "?P env' p deadline w r"
    proof (cases "\<not> e_alive env' p w \<or> (case deadline of Some d \<Rightarrow> e_now env' w \<ge> d | None \<Rightarrow> False)")
      case True
      then show ?thesis using eq by (auto split: if_splits option.splits)
    next
      case False
      then have "f env' p deadline (e_sleep env' (millis 10) w) = Some r" using eq by auto
      from IH [OF this] show ?thesis
        using world_step_trans [OF step_sleep] by (cases r) auto
    qed
  qed
  then show ?thesis by simp
qed

lemma wait_loop_returns:
  "\<exists>b w'. wait_loop env p (Some d) w = Some (b, w')"
proof (induction "nat (d - e_now env w)" arbitrary: w rule: less_induct)
  case less
  show ?case
  proof (cases "e_alive env p w \<and> e_now env w < d")
    case False
    then show ?thesis by (subst wait_loop.simps) auto
  next
    case True
    let ?w = "e_sleep env (millis 10) w"
    have "e_now env w + millis 10 \<le> e_now env ?w" by (rule clock)
    then have "nat (d - e_now env ?w) < nat (d - e_now env w)"
      using True by (simp add: millis_def)
    from less [OF this] show ?thesis using True by (subst wait_loop.simps) auto
  qed
qed

subsection \<open>Terminating children\<close>

lemma wait_result:
  assumes "wait_for_termination env p timeout w = Some (b, w')"
  shows "b \<Longrightarrow> \<not> e_alive env p w'" "step w w'"
  using wait_loop_result [OF assms [unfolded wait_for_termination_def]]
  by simp_all

text \<open>The exit signal and the wait, by shutdown type.\<close>

definition shut :: "pid \<Rightarrow> shutdown_type \<Rightarrow> pid \<Rightarrow> 'w \<Rightarrow> 'w option" where
  "shut me sh p w0 =
    (case sh of
       BrutalKill \<Rightarrow> Some (e_exit env me p Killed w0)
     | ShutdownTimeout duration \<Rightarrow>
         do { (fin, w) \<leftarrow> wait_for_termination env p (Some duration) (e_exit env me p Shutdown w0);
              if \<not> fin then Some (e_sleep env (millis 10) (e_exit env me p Killed w)) else Some w }
     | Infinity \<Rightarrow>
         do { (fin, w) \<leftarrow> wait_for_termination env p None (e_exit env me p Shutdown w0); Some w })"

lemma wait_infinite_done:
  assumes "wait_for_termination env p None w = Some (b, w')"
  shows "b"
proof -
  let ?P = "\<lambda>env' p (deadline :: int option) (w :: 'w) (b, w' :: 'w). deadline = None \<longrightarrow> b"
  have "?P env p None w (b, w')"
  proof (rule wait_loop.raw_induct [where P = ?P])
    show "wait_loop env p None w = Some (b, w')" using assms by (simp add: wait_for_termination_def)
    fix f env' p deadline w r
    assume IH: "\<And>env' p deadline w r. f env' p deadline w = Some r \<Longrightarrow> ?P env' p deadline w r"
      and eq: "(if \<not> e_alive env' p w then Some (True, w)
        else if (case deadline of Some d \<Rightarrow> e_now env' w \<ge> d | None \<Rightarrow> False) then Some (False, w)
        else f env' p deadline (e_sleep env' (millis 10) w)) = Some r"
    show "?P env' p deadline w r"
      using eq IH [of env' p deadline "e_sleep env' (millis 10) w" r]
      by (cases r) (auto split: if_splits option.splits)
  qed
  then show ?thesis by simp
qed

lemma shut_result:
  assumes "shut me sh p w0 = Some w" "p \<in> known w0"
  shows "step w0 w \<and> \<not> e_alive env p w"
proof (cases sh)
  case BrutalKill
  then show ?thesis using assms(1) kill step_exit by (auto simp: shut_def)
next
  case (ShutdownTimeout d)
  let ?w1 = "e_exit env me p Shutdown w0"
  obtain fin w2 where wait: "wait_for_termination env p (Some d) ?w1 = Some (fin, w2)"
    and w: "w = (if \<not> fin then e_sleep env (millis 10) (e_exit env me p Killed w2) else w2)"
    using assms(1) ShutdownTimeout
    by (cases "wait_for_termination env p (Some d) ?w1") (auto simp: shut_def split: if_splits)
  have w2: "step w0 w2" using world_step_trans [OF step_exit wait_result(2) [OF wait]] .
  show ?thesis
  proof (cases fin)
    case True
    then show ?thesis using w w2 wait_result(1) [OF wait] by simp
  next
    case False
    let ?w3 = "e_exit env me p Killed w2"
    have w3: "step w0 ?w3" using world_step_trans [OF w2 step_exit] .
    have "\<not> e_alive env p (e_sleep env (millis 10) ?w3)"
      by (rule world_stepD(2) [OF step_sleep world_stepD(1) [OF w3 assms(2)] kill])
    moreover have "step w0 (e_sleep env (millis 10) ?w3)"
      using world_step_trans [OF w3 step_sleep] .
    ultimately show ?thesis using w False by simp
  qed
next
  case Infinity
  obtain fin where wait: "wait_for_termination env p None (e_exit env me p Shutdown w0) = Some (fin, w)"
    using assms(1) Infinity by (auto simp: shut_def Option.bind_eq_Some_conv)
  show ?thesis
    using world_step_trans [OF step_exit wait_result(2) [OF wait]] wait_result(1) [OF wait]
      wait_infinite_done [OF wait] by blast
qed

lemma shut_returns: "sh \<noteq> Infinity \<Longrightarrow> \<exists>w. shut me sh p w0 = Some w"
proof (cases sh)
  case (ShutdownTimeout d)
  obtain b w' where "wait_for_termination env p (Some d) (e_exit env me p Shutdown w0) = Some (b, w')"
    using wait_loop_returns unfolding wait_for_termination_def by fastforce
  then show ?thesis using ShutdownTimeout by (cases b) (simp_all add: shut_def)
qed (simp_all add: shut_def)

lemma terminate_child_eq:
  "sup_terminate_child_by_id env cid s =
    (case hm_get (s_children s) cid of
       None \<Rightarrow> Some s
     | Some c \<Rightarrow>
        (case ch_pid c of
           None \<Rightarrow> Some s
         | Some p \<Rightarrow>
            map_option (\<lambda>w. s\<lparr> s_children := hm_insert cid (c\<lparr> ch_pid := None, ch_ref := None \<rparr>) (s_children s),
                s_pid_to_id := hm_remove p (s_pid_to_id s), s_world := w \<rparr>)
              (shut (s_self s) (cs_shutdown (ch_spec c)) p
                (case ch_ref c of Some r \<Rightarrow> e_demonitor env (s_self s) r (s_world s) | None \<Rightarrow> s_world s))))"
  by (simp add: sup_terminate_child_by_id_def shut_def Let_def split: option.split)

lemma terminate_child_none: "pid_of s cid = None \<Longrightarrow> sup_terminate_child_by_id env cid s = Some s"
  unfolding terminate_child_eq pid_of_def by (cases "hm_get (s_children s) cid") auto

lemma terminate_child_result:
  assumes "sup_terminate_child_by_id env cid s = Some s'"
  shows "others_same {cid} s s'" "pid_of s' cid = None"
    "hm_ok (s_children s) \<Longrightarrow> hm_ok (s_children s')"
    "s_pid_to_id s' = (case pid_of s cid of None \<Rightarrow> s_pid_to_id s | Some p \<Rightarrow> hm_remove p (s_pid_to_id s))"
    "(\<forall>p. pid_of s cid = Some p \<longrightarrow> p \<in> known (s_world s)) \<Longrightarrow> step (s_world s) (s_world s')"
    "pid_of s cid = Some p \<Longrightarrow> p \<in> known (s_world s) \<Longrightarrow> \<not> e_alive env p (s_world s')"
    "\<And>j. j \<noteq> cid \<Longrightarrow> hm_get (s_children s') j = hm_get (s_children s) j"
    "hm_get (s_children s') cid =
      map_option (\<lambda>c. if ch_pid c = None then c else c\<lparr> ch_pid := None, ch_ref := None \<rparr>) (hm_get (s_children s) cid)"
proof -
  consider (none) "s' = s" "pid_of s cid = None"
    | (some) c q w where "hm_get (s_children s) cid = Some c" "ch_pid c = Some q"
      "shut (s_self s) (cs_shutdown (ch_spec c)) q
        (case ch_ref c of Some r \<Rightarrow> e_demonitor env (s_self s) r (s_world s) | None \<Rightarrow> s_world s) = Some w"
      "s' = s\<lparr> s_children := hm_insert cid (c\<lparr> ch_pid := None, ch_ref := None \<rparr>) (s_children s),
                s_pid_to_id := hm_remove q (s_pid_to_id s), s_world := w \<rparr>"
  proof (cases "hm_get (s_children s) cid")
    case None
    then show ?thesis using none assms by (simp add: terminate_child_eq pid_of_def)
  next
    case child: (Some c)
    show ?thesis
    proof (cases "ch_pid c")
      case None
      then show ?thesis using none assms child by (simp add: terminate_child_eq pid_of_def)
    next
      case (Some q)
      obtain w where "shut (s_self s) (cs_shutdown (ch_spec c)) q
          (case ch_ref c of Some r \<Rightarrow> e_demonitor env (s_self s) r (s_world s) | None \<Rightarrow> s_world s) = Some w"
        "s' = s\<lparr> s_children := hm_insert cid (c\<lparr> ch_pid := None, ch_ref := None \<rparr>) (s_children s),
                s_pid_to_id := hm_remove q (s_pid_to_id s), s_world := w \<rparr>"
        using assms child Some by (simp only: terminate_child_eq option.case map_option_eq_Some) blast
      from some [OF child Some this] show ?thesis .
    qed
  qed
  note cases = this
  show "others_same {cid} s s'"
  proof (cases rule: cases)
    case (some c q w)
    then show ?thesis by (auto simp: others_same_def)
  qed simp
  show "pid_of s' cid = None"
    by (cases rule: cases) (simp_all add: pid_of_def)
  show "hm_ok (s_children s')" if "hm_ok (s_children s)"
    using that by (cases rule: cases) auto
  show "s_pid_to_id s' = (case pid_of s cid of None \<Rightarrow> s_pid_to_id s | Some p \<Rightarrow> hm_remove p (s_pid_to_id s))"
    by (cases rule: cases) (auto simp: pid_of_def)
  show "\<And>j. j \<noteq> cid \<Longrightarrow> hm_get (s_children s') j = hm_get (s_children s) j"
    by (cases rule: cases) auto
  show "hm_get (s_children s') cid =
      map_option (\<lambda>c. if ch_pid c = None then c else c\<lparr> ch_pid := None, ch_ref := None \<rparr>) (hm_get (s_children s) cid)"
    by (cases rule: cases) (auto simp: pid_of_def split: option.splits)
  have shutdown: "step (s_world s) (s_world s') \<and> \<not> e_alive env q (s_world s')"
    if "pid_of s cid = Some q" "q \<in> known (s_world s)" for q
  proof (cases rule: cases)
    case none
    then show ?thesis using that by simp
  next
    case (some c q' w)
    let ?w0 = "case ch_ref c of Some r \<Rightarrow> e_demonitor env (s_self s) r (s_world s) | None \<Rightarrow> s_world s"
    have q: "q' = q" using some(1,2) that by (simp add: pid_of_def)
    have step: "step (s_world s) ?w0" using step_demonitor by (simp split: option.split)
    then have "q' \<in> known ?w0" using that q unfolding world_step_def by blast
    from shut_result [OF some(3) this] show ?thesis
      using world_step_trans [OF step] q some(4) by auto
  qed
  show "step (s_world s) (s_world s')" if "\<forall>p. pid_of s cid = Some p \<longrightarrow> p \<in> known (s_world s)"
  proof (cases "pid_of s cid")
    case None
    then show ?thesis by (cases rule: cases) (auto simp: pid_of_def)
  next
    case (Some q)
    then show ?thesis using shutdown that by blast
  qed
  show "\<not> e_alive env p (s_world s')" if "pid_of s cid = Some p" "p \<in> known (s_world s)"
    using shutdown that by blast
qed

lemma terminate_child_returns:
  assumes "\<And>c. hm_get (s_children s) cid = Some c \<Longrightarrow> cs_shutdown (ch_spec c) \<noteq> Infinity"
  shows "\<exists>s'. sup_terminate_child_by_id env cid s = Some s'"
proof -
  have "\<exists>w. shut me (cs_shutdown (ch_spec c)) p w0 = Some w" if "hm_get (s_children s) cid = Some c" for me c p w0
    using shut_returns [OF assms [OF that]] .
  then show ?thesis unfolding terminate_child_eq by (fastforce split: option.splits)
qed

subsection \<open>The invariant\<close>

lemma okD:
  assumes "ok s"
  shows "hm_ok (s_children s)" "distinct (s_order s)" "set (s_order s) = dom (hm_get (s_children s))"
    "hm_get (s_children s) cid = Some c \<Longrightarrow> cs_id (ch_spec c) = cid"
    "hm_get (s_children s) cid = Some c \<Longrightarrow> start_ok env known (cs_start (ch_spec c))"
    "hm_get (s_children s) cid = Some c \<Longrightarrow> ch_ref c = None \<longleftrightarrow> ch_pid c = None"
    "pid_of s cid = Some p \<longleftrightarrow> hm_get (s_pid_to_id s) p = Some cid"
    "pid_of s cid = Some p \<Longrightarrow> p \<in> known (s_world s)"
  using assms unfolding sup_ok_def by blast+

lemma okI:
  assumes "hm_ok (s_children s)" "distinct (s_order s)" "set (s_order s) = dom (hm_get (s_children s))"
    "\<And>cid c. hm_get (s_children s) cid = Some c \<Longrightarrow> cs_id (ch_spec c) = cid"
    "\<And>cid c. hm_get (s_children s) cid = Some c \<Longrightarrow> start_ok env known (cs_start (ch_spec c))"
    "\<And>cid c. hm_get (s_children s) cid = Some c \<Longrightarrow> ch_ref c = None \<longleftrightarrow> ch_pid c = None"
    "\<And>cid p. pid_of s cid = Some p \<longleftrightarrow> hm_get (s_pid_to_id s) p = Some cid"
    "\<And>cid p. pid_of s cid = Some p \<Longrightarrow> p \<in> known (s_world s)"
  shows "ok s"
  using assms unfolding sup_ok_def by blast

lemma ok_inj: "ok s \<Longrightarrow> pid_of s i = Some p \<Longrightarrow> pid_of s j = Some p \<Longrightarrow> i = j"
  by (simp add: okD(7))

text \<open>The world may move on, and the fields that do not concern the children may change.\<close>

lemma ok_frame:
  assumes "ok s" "step (s_world s) (s_world s')"
    "s_children s' = s_children s" "s_order s' = s_order s" "s_pid_to_id s' = s_pid_to_id s"
  shows "ok s'"
  using assms unfolding sup_ok_def pid_of_def world_step_def by (simp add: subset_iff)

text \<open>A child loses its process.\<close>

lemma ok_clear:
  assumes ok: "ok s" and c: "hm_get (s_children s) cid = Some c" "ch_pid c = Some p"
    and s': "s_children s' = hm_insert cid (c\<lparr> ch_pid := None, ch_ref := None \<rparr>) (s_children s)"
      "s_order s' = s_order s" "s_pid_to_id s' = hm_remove p (s_pid_to_id s)" "step (s_world s) (s_world s')"
  shows "ok s'"
proof (rule okI)
  have pid: "pid_of s' j = (if j = cid then None else pid_of s j)" for j
    by (simp add: pid_of_def s')
  have cid: "pid_of s cid = Some p" using c by (simp add: pid_of_def)
  show "set (s_order s') = dom (hm_get (s_children s'))" using okD(3) [OF ok] c by (auto simp: s')
  have inv: "hm_get (s_pid_to_id s) p = Some cid" using cid okD(7) [OF ok] by simp
  show "pid_of s' j = Some q \<longleftrightarrow> hm_get (s_pid_to_id s') q = Some j" for j q
  proof (cases "q = p")
    case True
    have "pid_of s j \<noteq> Some p" if "j \<noteq> cid" using that inv okD(7) [OF ok, of j p] by simp
    then show ?thesis using True by (simp add: pid s')
  next
    case False
    have "hm_get (s_pid_to_id s) q \<noteq> Some cid" using False cid okD(7) [OF ok, of cid q] by simp
    then show ?thesis using False okD(7) [OF ok, of j q] by (simp add: pid s')
  qed
  show "q \<in> known (s_world s')" if "pid_of s' j = Some q" for j q
    using that okD(8) [OF ok] world_stepD(1) [OF s'(4)] by (simp add: pid split: if_splits)
  show "cs_id (ch_spec d) = j" if "hm_get (s_children s') j = Some d" for j d
    using that c okD(4) [OF ok] by (auto simp: s' split: if_splits)
  show "start_ok env known (cs_start (ch_spec d))" if "hm_get (s_children s') j = Some d" for j d
    using that c okD(5) [OF ok] by (auto simp: s' split: if_splits)
  show "ch_ref d = None \<longleftrightarrow> ch_pid d = None" if "hm_get (s_children s') j = Some d" for j d
    using that okD(6) [OF ok, of j d] by (auto simp: s' split: if_splits)
qed (use okD(1,2) [OF ok] in \<open>simp_all add: s'\<close>)

text \<open>A child gets a new process.\<close>

lemma ok_set:
  assumes ok: "ok s" and c: "hm_get (s_children s) cid = Some c" "ch_pid c = None" "p \<notin> known (s_world s)"
    and s': "s_children s' = hm_insert cid (c\<lparr> ch_pid := Some p, ch_ref := Some r \<rparr>) (s_children s)"
      "s_order s' = s_order s" "s_pid_to_id s' = hm_insert p cid (s_pid_to_id s)" "step (s_world s) (s_world s')"
      "p \<in> known (s_world s')"
  shows "ok s'"
proof (rule okI)
  have pid: "pid_of s' j = (if j = cid then Some p else pid_of s j)" for j
    by (simp add: pid_of_def s')
  have cid: "pid_of s cid = None" using c by (simp add: pid_of_def)
  show "set (s_order s') = dom (hm_get (s_children s'))" using okD(3) [OF ok] c by (auto simp: s')
  show "pid_of s' j = Some q \<longleftrightarrow> hm_get (s_pid_to_id s') q = Some j" for j q
    using okD(7) [OF ok, of j q] okD(8) [OF ok, of j q] c(3) cid by (auto simp: pid s' split: if_splits)
  show "q \<in> known (s_world s')" if "pid_of s' j = Some q" for j q
    using that okD(8) [OF ok] world_stepD(1) [OF s'(4)] s'(5) by (auto simp: pid split: if_splits)
  show "cs_id (ch_spec d) = j" if "hm_get (s_children s') j = Some d" for j d
    using that c okD(4) [OF ok] by (auto simp: s' split: if_splits)
  show "start_ok env known (cs_start (ch_spec d))" if "hm_get (s_children s') j = Some d" for j d
    using that c okD(5) [OF ok] by (auto simp: s' split: if_splits)
  show "ch_ref d = None \<longleftrightarrow> ch_pid d = None" if "hm_get (s_children s') j = Some d" for j d
    using that okD(6) [OF ok, of j d] by (auto simp: s' split: if_splits)
qed (use okD(1,2) [OF ok] in \<open>simp_all add: s'\<close>)

subsection \<open>Terminating several children\<close>

lemma terminate_child_ok:
  assumes ok: "ok s" and t: "sup_terminate_child_by_id env cid s = Some s'"
  shows "ok s' \<and> step (s_world s) (s_world s')"
proof
  show step: "step (s_world s) (s_world s')"
    using terminate_child_result(5) [OF t] okD(8) [OF ok] by blast
  show "ok s'"
  proof (cases "pid_of s cid")
    case None
    then have "s' = s" using t by (simp add: terminate_child_eq pid_of_def split: option.splits)
    then show ?thesis using ok by simp
  next
    case (Some p)
    then obtain c where c: "hm_get (s_children s) cid = Some c" "ch_pid c = Some p"
      by (auto simp: pid_of_def split: option.splits)
    have "s_children s' = hm_insert cid (c\<lparr> ch_pid := None, ch_ref := None \<rparr>) (s_children s)"
      "s_order s' = s_order s" "s_pid_to_id s' = hm_remove p (s_pid_to_id s)"
      using t c by (auto simp: terminate_child_eq)
    then show ?thesis by (rule ok_clear [OF ok c _ _ _ step])
  qed
qed

lemma terminate_each_result:
  assumes "ok s" "sup_terminate_each env ids s = Some s'"
  shows "ok s' \<and> step (s_world s) (s_world s') \<and> others_same (set ids) s s' \<and>
    (\<forall>j \<in> set ids. pid_of s' j = None) \<and>
    (\<forall>j \<in> set ids. \<forall>p. pid_of s j = Some p \<longrightarrow> \<not> e_alive env p (s_world s'))"
  using assms
proof (induction ids arbitrary: s)
  case Nil
  then show ?case by simp
next
  case (Cons cid ids)
  obtain s1 where t: "sup_terminate_child_by_id env cid s = Some s1" and rest: "sup_terminate_each env ids s1 = Some s'"
    using Cons.prems(2) by (auto simp: Option.bind_eq_Some_conv)
  have s1: "ok s1" "step (s_world s) (s_world s1)" using terminate_child_ok [OF Cons.prems(1) t] by auto
  note r1 = terminate_child_result [OF t]
  note IH = Cons.IH [OF s1(1) rest]
  have same: "others_same (set (cid # ids)) s s'"
    by (rule others_same_trans [OF r1(1), of "set ids"]) (use IH in auto)
  have none: "pid_of s' j = None" if "j \<in> set (cid # ids)" for j
    using that IH r1(2) others_same_pid [of "set ids" s1 s' j] by (cases "j \<in> set ids") auto
  have dead: "\<not> e_alive env p (s_world s')" if j: "j \<in> set (cid # ids)" "pid_of s j = Some p" for j p
  proof (cases "j = cid")
    case True
    have k: "p \<in> known (s_world s)" by (rule okD(8) [OF Cons.prems(1) j(2)])
    have k1: "p \<in> known (s_world s1)" by (rule world_stepD(1) [OF s1(2) k])
    have d1: "\<not> e_alive env p (s_world s1)" by (rule r1(6) [OF _ k]) (use j True in simp)
    have "step (s_world s1) (s_world s')" using IH by (elim conjE)
    from world_stepD(2) [OF this k1 d1] show ?thesis .
  next
    case False
    then have "pid_of s1 j = Some p" using others_same_pid [OF r1(1), of j] j by simp
    then show ?thesis using IH j False by auto
  qed
  show ?case
    using IH world_step_trans [OF s1(2)] same none dead by blast
qed

lemma terminate_each_returns:
  assumes "\<And>j c. hm_get (s_children s) j = Some c \<Longrightarrow> cs_shutdown (ch_spec c) \<noteq> Infinity"
  shows "\<exists>s'. sup_terminate_each env ids s = Some s'"
  using assms
proof (induction ids arbitrary: s)
  case (Cons cid ids)
  obtain s1 where t: "sup_terminate_child_by_id env cid s = Some s1"
    using terminate_child_returns Cons.prems by blast
  have "cs_shutdown (ch_spec c) \<noteq> Infinity" if "hm_get (s_children s1) j = Some c" for j c
    using others_same_spec [OF terminate_child_result(1) [OF t], of j] that
    by (cases "hm_get (s_children s) j") (auto dest: Cons.prems)
  from Cons.IH [OF this] show ?case using t by simp
qed simp

subsection \<open>Starting children\<close>

lemma start_child_result:
  assumes ok: "ok s" and none: "pid_of s cid = None" and st: "sup_start_child env cid s = (res, s')"
  shows "ok s' \<and> step (s_world s) (s_world s') \<and> others_same {cid} s s' \<and>
    (case res of Inl _ \<Rightarrow> pid_of s' cid = None | Inr p \<Rightarrow> pid_of s' cid = Some p \<and> p \<notin> known (s_world s))"
proof (cases "hm_get (s_children s) cid")
  case None
  then show ?thesis using st ok none by (auto simp: sup_start_child_def)
next
  case (Some c)
  obtain r1 w1 where start: "cs_start (ch_spec c) (s_world s) = (r1, w1)" by (cases "cs_start (ch_spec c) (s_world s)")
  have start_ok: "step (s_world s) w1" "\<And>p. r1 = Inr p \<Longrightarrow> p \<notin> known (s_world s) \<and> p \<in> known w1"
    using okD(5) [OF ok Some] start unfolding start_ok_def by blast+
  have free: "ch_pid c = None" using none Some by (simp add: pid_of_def)
  have unchanged: "ok (s\<lparr> s_world := w \<rparr>)" "others_same {cid} s (s\<lparr> s_world := w \<rparr>)"
    "pid_of (s\<lparr> s_world := w \<rparr>) cid = None" if "step (s_world s) w" for w
    using ok_frame [OF ok, of "s\<lparr> s_world := w \<rparr>"] that none by (simp_all add: others_same_def pid_of_def)
  show ?thesis
  proof (cases r1)
    case (Inl e)
    then show ?thesis using st Some start unchanged [OF start_ok(1)] start_ok(1) by (auto simp: sup_start_child_def)
  next
    case (Inr p)
    obtain r2 w2 where mon: "e_monitor env (s_self s) p w1 = (r2, w2)" by (cases "e_monitor env (s_self s) p w1")
    have w2: "step w1 w2" using step_monitor [of w1 "s_self s" p] mon by simp
    note step2 = world_step_trans [OF start_ok(1) w2]
    show ?thesis
    proof (cases r2)
      case (Inl e)
      then show ?thesis using st Some start Inr mon unchanged [OF step2] step2 by (auto simp: sup_start_child_def)
    next
      case r: (Inr r)
      have s': "res = Inr p" "s_children s' = hm_insert cid (c\<lparr> ch_pid := Some p, ch_ref := Some r \<rparr>) (s_children s)"
        "s_order s' = s_order s" "s_pid_to_id s' = hm_insert p cid (s_pid_to_id s)" "s_world s' = w2"
        "s_self s' = s_self s" "s_flags s' = s_flags s" "s_name s' = s_name s"
        using st Some start Inr mon r by (auto simp: sup_start_child_def hm_get_mut_def)
      have known: "p \<notin> known (s_world s)" "p \<in> known (s_world s')"
        using start_ok(2) [OF Inr] world_stepD(1) [OF w2] s'(5) by auto
      have "ok s'" by (rule ok_set [OF ok Some free known(1) s'(2-4) _ known(2)]) (simp add: s'(5) step2)
      moreover have "others_same {cid} s s'" "pid_of s' cid = Some p"
        using Some by (auto simp: others_same_def pid_of_def s')
      ultimately show ?thesis using step2 known s'(1,5) by simp
    qed
  qed
qed

lemma start_each_result:
  assumes "ok s" "distinct ids" "\<forall>j \<in> set ids. pid_of s j = None" "sup_start_each env what ids s = (res, s')"
  shows "ok s' \<and> step (s_world s) (s_world s') \<and> others_same (set ids) s s' \<and>
    (res = Inr () \<longrightarrow> (\<forall>j \<in> set ids. \<exists>p. pid_of s' j = Some p \<and> p \<notin> known (s_world s)))"
  using assms
proof (induction ids arbitrary: s)
  case Nil
  then show ?case by simp
next
  case (Cons cid ids)
  obtain r1 s1 where st: "sup_start_child env cid s = (r1, s1)" by (cases "sup_start_child env cid s")
  have "pid_of s cid = None" using Cons.prems(3) by simp
  note r1 = start_child_result [OF Cons.prems(1) this st]
  show ?case
  proof (cases r1)
    case (Inl e)
    then have s': "s' = s1" "res \<noteq> Inr ()" using Cons.prems(4) st by auto
    have "others_same (set (cid # ids)) s s1"
      by (rule others_same_trans [OF _ others_same_refl [of "{}"], of "{cid}"]) (use r1 in auto)
    then show ?thesis using r1 s' by simp
  next
    case (Inr p)
    have rest: "sup_start_each env what ids s1 = (res, s')" using Cons.prems(4) st Inr by simp
    have ok1: "ok s1" "step (s_world s) (s_world s1)" "others_same {cid} s s1" "pid_of s1 cid = Some p"
      "p \<notin> known (s_world s)" using r1 Inr by simp_all
    have fresh: "\<forall>j \<in> set ids. pid_of s1 j = None"
    proof
      fix j assume j: "j \<in> set ids"
      then have "j \<notin> {cid}" using Cons.prems(2) by auto
      from others_same_pid [OF ok1(3) this] show "pid_of s1 j = None" using j Cons.prems(3) by simp
    qed
    have d: "distinct ids" "cid \<notin> set ids" using Cons.prems(2) by simp_all
    note IH = Cons.IH [OF ok1(1) d(1) fresh rest]
    have same: "others_same (set (cid # ids)) s s'"
      by (rule others_same_trans [OF ok1(3), of "set ids"]) (use IH in auto)
    have new: "\<exists>q. pid_of s' j = Some q \<and> q \<notin> known (s_world s)" if res: "res = Inr ()" and j: "j \<in> set (cid # ids)" for j
    proof (cases "j = cid")
      case True
      have "pid_of s' cid = pid_of s1 cid" by (rule others_same_pid [OF _ d(2)]) (use IH in simp)
      then show ?thesis using True ok1(4,5) by auto
    next
      case False
      then obtain q where "pid_of s' j = Some q" "q \<notin> known (s_world s1)" using IH res j by auto
      then show ?thesis using world_stepD(1) [OF ok1(2)] by blast
    qed
    show ?thesis using IH world_step_trans [OF ok1(2)] same new by blast
  qed
qed

subsection \<open>The exit of a child\<close>

text \<open>Terminating some children and starting the same ones again, in order.\<close>

lemma restart_each_result:
  assumes ok: "ok s" and d: "distinct ids" and cid: "pid_of s cid = None"
    and t: "sup_terminate_each env (rev ids) s = Some s1" and st: "sup_start_each env what ids s1 = (res, s')"
  shows "ok s' \<and> step (s_world s) (s_world s') \<and> others_same (set ids) s s' \<and>
    (res = Inr () \<longrightarrow> (\<forall>j \<in> set ids. \<exists>p. pid_of s' j = Some p \<and> p \<notin> known (s_world s))) \<and>
    (\<forall>j \<in> set ids. \<forall>p. pid_of s j = Some p \<longrightarrow> \<not> e_alive env p (s_world s'))"
proof -
  have r1: "ok s1" "step (s_world s) (s_world s1)" "others_same (set ids) s s1" "\<forall>j \<in> set ids. pid_of s1 j = None"
    "\<forall>j \<in> set ids. \<forall>p. pid_of s j = Some p \<longrightarrow> \<not> e_alive env p (s_world s1)"
    using terminate_each_result [OF ok t] by simp_all
  have r2: "ok s'" "step (s_world s1) (s_world s')" "others_same (set ids) s1 s'"
    "res = Inr () \<Longrightarrow> \<forall>j \<in> set ids. \<exists>p. pid_of s' j = Some p \<and> p \<notin> known (s_world s1)"
    using start_each_result [OF r1(1) d r1(4) st] by simp_all
  have new: "\<exists>p. pid_of s' j = Some p \<and> p \<notin> known (s_world s)" if "res = Inr ()" "j \<in> set ids" for j
    using r2(4) [OF that(1)] that(2) world_stepD(1) [OF r1(2)] by blast
  have dead: "\<not> e_alive env p (s_world s')" if "j \<in> set ids" "pid_of s j = Some p" for j p
    by (rule world_stepD(2) [OF r2(2) world_stepD(1) [OF r1(2) okD(8) [OF ok that(2)]]])
       (use r1(5) that in blast)
  show ?thesis
    using r2(1) world_step_trans [OF r1(2) r2(2)] others_same_trans [OF r1(3) r2(3) subset_refl subset_refl] new dead
    by blast
qed

text \<open>The state after the exit of a child has been noted.\<close>

definition noted :: "pid \<Rightarrow> string \<Rightarrow> 'w child_state \<Rightarrow> int list \<Rightarrow> 'w sup \<Rightarrow> 'w sup" where
  "noted p cid c restarts s = s\<lparr> s_pid_to_id := hm_remove p (s_pid_to_id s),
     s_children := hm_insert cid (c\<lparr> ch_pid := None, ch_ref := None \<rparr>) (s_children s), s_restart_times := restarts \<rparr>"

lemma noted_facts:
  assumes ok: "ok s" and c: "hm_get (s_children s) cid = Some c" "ch_pid c = Some p"
  shows "ok (noted p cid c restarts s)" "others_same {cid} s (noted p cid c restarts s)"
    "pid_of (noted p cid c restarts s) cid = None"
    "s_world (noted p cid c restarts s) = s_world s" "s_order (noted p cid c restarts s) = s_order s"
    "\<And>j. j \<noteq> cid \<Longrightarrow> pid_of (noted p cid c restarts s) j = pid_of s j"
proof -
  show "ok (noted p cid c restarts s)"
    by (rule ok_clear [OF ok c]) (simp_all add: noted_def)
qed (use c in \<open>simp_all add: noted_def others_same_def pid_of_def\<close>)

lemma child_exit_cases:
  assumes ok: "ok s" and cid: "pid_of s cid = Some p"
    and h: "sup_handle_child_exit env p reason s = Some (res, s')"
  obtains c kept
  where "hm_get (s_children s) cid = Some c" "ch_pid c = Some p" "\<not> should_restart (cs_restart (ch_spec c)) reason"
    "res = Inr ()" "s' = noted p cid c kept s"
  | c kept
  where "hm_get (s_children s) cid = Some c" "ch_pid c = Some p" "should_restart (cs_restart (ch_spec c)) reason"
    "res = Inl (Error ''max restart intensity reached'')" "s' = noted p cid c kept s"
  | c kept ids s1 what
  where "hm_get (s_children s) cid = Some c" "ch_pid c = Some p" "should_restart (cs_restart (ch_spec c)) reason"
    "set ids = affected (sf_strategy (s_flags s)) (s_order s) cid" "distinct ids"
    "sup_terminate_each env (rev ids) (noted p cid c kept s) = Some s1" "sup_start_each env what ids s1 = (res, s')"
proof -
  obtain c where c: "hm_get (s_children s) cid = Some c" "ch_pid c = Some p"
    using cid by (auto simp: pid_of_def split: option.splits)
  have inv: "hm_get (s_pid_to_id s) p = Some cid" using cid okD(7) [OF ok] by simp
  have incid: "cid \<in> set (s_order s)" using okD(3) [OF ok] c by auto
  show ?thesis
  proof (cases "should_restart (cs_restart (ch_spec c)) reason")
    case False
    have "res = Inr () \<and> s' = noted p cid c (s_restart_times s) s"
      using h inv c False by (auto simp: sup_handle_child_exit_def noted_def intro!: sup.equality)
    then show ?thesis using that(1) [OF c False] by blast
  next
    case True
    obtain allowed kept where rate: "check_restart_rate (unat (sf_max_restarts (s_flags s)))
        (secs (uint (sf_max_seconds (s_flags s)))) (e_now env (s_world s)) (s_restart_times s) = (allowed, kept)"
      by (metis surj_pair)
    let ?s2 = "noted p cid c kept s"
    show ?thesis
    proof (cases allowed)
      case False
      have "res = Inl (Error ''max restart intensity reached'') \<and> s' = ?s2"
        using h inv c True rate False by (simp add: sup_handle_child_exit_def noted_def)
      then show ?thesis using that(2) [OF c True] by blast
    next
      case allowed: True
      have h2: "(case sf_strategy (s_flags s) of
           OneForOne \<Rightarrow> Some (sup_start_each env ''restart'' [cid] ?s2)
         | OneForAll \<Rightarrow> do { s3 \<leftarrow> sup_terminate_all env ?s2; Some (sup_start_all env s3) }
         | RestForOne \<Rightarrow> (let pos = list_position cid (s_order ?s2) in
              do { s3 \<leftarrow> sup_terminate_each env (rev (drop pos (s_order ?s2))) ?s2;
                   Some (sup_start_each env ''restart'' (drop pos (s_order s3)) s3) })) = Some (res, s')"
        using h inv c True rate allowed by (cases "sf_strategy (s_flags s)") (simp_all add: sup_handle_child_exit_def noted_def Let_def)
      note ok2 = noted_facts [OF ok c, where restarts = kept]
      show ?thesis
      proof (cases "sf_strategy (s_flags s)")
        case OneForOne
        have "sup_terminate_each env (rev [cid]) ?s2 = Some ?s2"
          using terminate_child_none [OF ok2(3)] by simp
        then show ?thesis using that(3) [OF c True, of "[cid]" kept ?s2] h2 OneForOne by (simp add: affected_def)
      next
        case OneForAll
        obtain s3 where t: "sup_terminate_each env (rev (s_order s)) ?s2 = Some s3" and st: "sup_start_all env s3 = (res, s')"
          using h2 OneForAll ok2(5) by (auto simp: sup_terminate_all_def Option.bind_eq_Some_conv)
        have "s_order s3 = s_order s"
          using terminate_each_result [OF ok2(1) t] ok2(5) by (simp add: others_same_def)
        then show ?thesis using that(3) [OF c True _ _ t] st OneForAll okD(2) [OF ok]
          by (simp add: affected_def sup_start_all_def)
      next
        case RestForOne
        let ?ids = "dropWhile (\<lambda>j. j \<noteq> cid) (s_order s)"
        have drop: "drop (list_position cid (s_order s)) (s_order s) = ?ids" by (rule drop_list_position [OF incid])
        obtain s3 where t: "sup_terminate_each env (rev ?ids) ?s2 = Some s3"
          and st: "sup_start_each env ''restart'' (drop (list_position cid (s_order s)) (s_order s3)) s3 = (res, s')"
          using h2 RestForOne ok2(5) by (auto simp: Let_def drop Option.bind_eq_Some_conv)
        have "s_order s3 = s_order s"
          using terminate_each_result [OF ok2(1) t] ok2(5) by (simp add: others_same_def)
        then show ?thesis using that(3) [OF c True _ _ t] st RestForOne okD(2) [OF ok]
          by (simp add: affected_def drop distinct_dropWhile)
      qed
    qed
  qed
qed

lemma child_in_order: "ok s \<Longrightarrow> hm_get (s_children s) cid = Some c \<Longrightarrow> cid \<in> set (s_order s)"
  by (simp add: okD(3) domI)

text \<open>Outside the affected children nothing changes; if the child is restarted, every affected child
  has a new process and the one it had is dead.\<close>

lemma child_exit_effect:
  assumes ok: "ok s" and cid: "pid_of s cid = Some p"
    and h: "sup_handle_child_exit env p reason s = Some (res, s')"
  shows "ok s' \<and> step (s_world s) (s_world s') \<and>
    others_same (affected (sf_strategy (s_flags s)) (s_order s) cid) s s'" (is "?A s'")
    and "hm_get (s_children s) cid = Some c \<Longrightarrow> should_restart (cs_restart (ch_spec c)) reason \<Longrightarrow> res = Inr () \<Longrightarrow>
      \<forall>j \<in> affected (sf_strategy (s_flags s)) (s_order s) cid.
        (\<exists>q. pid_of s' j = Some q \<and> q \<notin> known (s_world s)) \<and>
        (\<forall>q. j \<noteq> cid \<longrightarrow> pid_of s j = Some q \<longrightarrow> \<not> e_alive env q (s_world s'))"
    and "hm_get (s_children s) cid = Some c \<Longrightarrow> \<not> should_restart (cs_restart (ch_spec c)) reason \<Longrightarrow>
      res = Inr () \<and> pid_of s' cid = None \<and> others_same {cid} s s' \<and> s_world s' = s_world s"
    and "j \<noteq> cid \<Longrightarrow> pid_of s j = Some q \<Longrightarrow> pid_of s' j = Some q \<or> \<not> e_alive env q (s_world s')"
proof -
  have noted_A: "?A (noted p cid c' kept s)"
    if c': "hm_get (s_children s) cid = Some c'" "ch_pid c' = Some p" for c' kept
  proof -
    note n = noted_facts [OF ok c']
    have "{cid} \<subseteq> affected (sf_strategy (s_flags s)) (s_order s) cid"
      using affected_self [OF child_in_order [OF ok c'(1)]] by simp
    from others_same_trans [OF n(2) others_same_refl this subset_refl] show ?thesis using n(1,4) by simp
  qed
  have each: "?A s' \<and> (res = Inr () \<longrightarrow> (\<forall>j \<in> set ids. \<exists>q. pid_of s' j = Some q \<and> q \<notin> known (s_world s))) \<and>
      (\<forall>j \<in> set ids. \<forall>q. j \<noteq> cid \<longrightarrow> pid_of s j = Some q \<longrightarrow> \<not> e_alive env q (s_world s'))"
    if c': "hm_get (s_children s) cid = Some c'" "ch_pid c' = Some p"
      and ids: "set ids = affected (sf_strategy (s_flags s)) (s_order s) cid" "distinct ids"
      and t: "sup_terminate_each env (rev ids) (noted p cid c' kept s) = Some s1"
      and st: "sup_start_each env what ids s1 = (res, s')" for c' kept ids s1 what
  proof -
    note n = noted_facts [OF ok c', where restarts = kept]
    note r = restart_each_result [OF n(1) ids(2) n(3) t st]
    have sub: "{cid} \<subseteq> set ids" using affected_self [OF child_in_order [OF ok c'(1)]] ids(1) by simp
    have "others_same (set ids) (noted p cid c' kept s) s'" using r by (elim conjE)
    from others_same_trans [OF n(2) this sub subset_refl] have A: "others_same (set ids) s s'" .
    have dead: "\<not> e_alive env q (s_world s')" if "j \<in> set ids" "j \<noteq> cid" "pid_of s j = Some q" for j q
      using r that n(6) [OF that(2)] by auto
    show ?thesis using r A dead n(4) ids(1) by auto
  qed
  show "?A s'"
    using child_exit_cases [OF ok cid h] by cases (use noted_A each in \<open>blast+\<close>)
  show "hm_get (s_children s) cid = Some c \<Longrightarrow> should_restart (cs_restart (ch_spec c)) reason \<Longrightarrow> res = Inr () \<Longrightarrow>
      \<forall>j \<in> affected (sf_strategy (s_flags s)) (s_order s) cid.
        (\<exists>q. pid_of s' j = Some q \<and> q \<notin> known (s_world s)) \<and>
        (\<forall>q. j \<noteq> cid \<longrightarrow> pid_of s j = Some q \<longrightarrow> \<not> e_alive env q (s_world s'))"
  proof -
    assume c: "hm_get (s_children s) cid = Some c" "should_restart (cs_restart (ch_spec c)) reason" "res = Inr ()"
    show ?thesis
      using child_exit_cases [OF ok cid h]
    proof cases
      case (3 c' kept ids s1 what)
      from each [OF 3(1,2,4-7)] show ?thesis using c(3) 3(4) by auto
    qed (use c in simp_all)
  qed
  show "hm_get (s_children s) cid = Some c \<Longrightarrow> \<not> should_restart (cs_restart (ch_spec c)) reason \<Longrightarrow>
      res = Inr () \<and> pid_of s' cid = None \<and> others_same {cid} s s' \<and> s_world s' = s_world s"
  proof -
    assume c: "hm_get (s_children s) cid = Some c" "\<not> should_restart (cs_restart (ch_spec c)) reason"
    show ?thesis
      using child_exit_cases [OF ok cid h]
    proof cases
      case (1 c' kept)
      then show ?thesis using noted_facts [OF ok 1(1,2), where restarts = kept] by simp
    qed (use c in simp_all)
  qed
  show "pid_of s' j = Some q \<or> \<not> e_alive env q (s_world s')" if "j \<noteq> cid" "pid_of s j = Some q"
    using child_exit_cases [OF ok cid h]
  proof cases
    case (1 c' kept)
    then show ?thesis using noted_facts(6) [OF ok 1(1,2) that(1), where restarts = kept] that(2) by simp
  next
    case (2 c' kept)
    then show ?thesis using noted_facts(6) [OF ok 2(1,2) that(1), where restarts = kept] that(2) by simp
  next
    case (3 c' kept ids s1 what)
    note e = each [OF 3(1,2,4-7)]
    show ?thesis
    proof (cases "j \<in> set ids")
      case True
      then show ?thesis using e that by blast
    next
      case False
      then have "pid_of s' j = pid_of s j" using e 3(4) by (intro others_same_pid [of "set ids"]) auto
      then show ?thesis using that(2) by simp
    qed
  qed
qed

end

end
