(* ===== verification/Sup_Loop.thy ===== *)
theory Sup_Loop
  imports Sup_Props
begin

text \<open>
  The commands and the message loop of a supervisor, inside the contract \<open>child_world\<close>: every message
  keeps the invariant, a child's process is only ever given up dead, shutting down leaves no child
  alive, and a supervisor none of whose children has an infinite shutdown time never hangs.
\<close>

section \<open>Shutting down\<close>

definition finite_shutdown :: "'w sup \<Rightarrow> bool" where
  "finite_shutdown s \<longleftrightarrow>
     (\<forall>j c. hm_get (s_children s) j = Some c \<longrightarrow> cs_shutdown (ch_spec c) \<noteq> Infinity)"

lemma finite_shutdown_same: "others_same ids s s' \<Longrightarrow> finite_shutdown s \<Longrightarrow> finite_shutdown s'"
  unfolding finite_shutdown_def
proof (intro allI impI)
  fix j c
  assume same: "others_same ids s s'" and f: "\<forall>j c. hm_get (s_children s) j = Some c \<longrightarrow> cs_shutdown (ch_spec c) \<noteq> Infinity"
    and c: "hm_get (s_children s') j = Some c"
  from others_same_spec [OF same, of j] c obtain d where "hm_get (s_children s) j = Some d" "ch_spec d = ch_spec c"
    by (cases "hm_get (s_children s) j") auto
  then show "cs_shutdown (ch_spec c) \<noteq> Infinity" using f by metis
qed

context child_world
begin

text \<open>What each message does to the processes of the children.\<close>

definition gives_up_dead :: "pid set \<Rightarrow> 'w sup \<Rightarrow> 'w sup \<Rightarrow> bool" where
  "gives_up_dead ds s s' \<longleftrightarrow> (\<forall>j q. pid_of s j = Some q \<longrightarrow> q \<notin> ds \<longrightarrow>
     pid_of s' j = Some q \<or> \<not> e_alive env q (s_world s'))"

lemma gives_up_dead_trans:
  assumes "ok s" "step (s_world s) (s_world s1)" "step (s_world s1) (s_world s2)"
    "gives_up_dead ds s s1" "gives_up_dead ds s1 s2"
  shows "gives_up_dead ds s s2"
  unfolding gives_up_dead_def
proof (intro allI impI)
  fix j q
  assume q: "pid_of s j = Some q" "q \<notin> ds"
  have k: "q \<in> known (s_world s1)" by (rule world_stepD(1) [OF assms(2) okD(8) [OF assms(1) q(1)]])
  consider "pid_of s1 j = Some q" | "\<not> e_alive env q (s_world s1)"
    using assms(4) q unfolding gives_up_dead_def by blast
  then show "pid_of s2 j = Some q \<or> \<not> e_alive env q (s_world s2)"
  proof cases
    case 1
    then show ?thesis using assms(5) q(2) unfolding gives_up_dead_def by blast
  next
    case 2
    then show ?thesis using world_stepD(2) [OF assms(3) k] by blast
  qed
qed

lemma gives_up_dead_same: "s_children s' = s_children s \<Longrightarrow> gives_up_dead ds s s'"
  by (simp add: gives_up_dead_def pid_of_def)

lemma terminate_all_result:
  assumes ok: "ok s" and t: "sup_terminate_all env s = Some s'"
  shows "ok s' \<and> step (s_world s) (s_world s') \<and> (\<forall>j. pid_of s' j = None) \<and>
    others_same (set (s_order s)) s s' \<and> gives_up_dead {} s s'"
proof -
  note r = terminate_each_result [OF ok t [unfolded sup_terminate_all_def]]
  have "j \<in> set (s_order s)" if "hm_get (s_children s') j = Some c" for j c
    using that r child_in_order [of s' j c] by (simp add: others_same_def)
  then have inorder: "j \<in> set (s_order s)" if "pid_of s' j = Some q" for j q
    using that by (auto simp: pid_of_def split: option.splits)
  have none: "pid_of s' j = None" for j
    using r inorder [of j] by (cases "pid_of s' j") auto
  have "j \<in> set (s_order s)" if "pid_of s j = Some q" for j q
    using that child_in_order [OF ok] by (auto simp: pid_of_def split: option.splits)
  then show ?thesis using r none by (auto simp: gives_up_dead_def)
qed

lemma cleanup_result:
  assumes "ok s"
  shows "ok (sup_cleanup env s) \<and> step (s_world s) (s_world (sup_cleanup env s)) \<and>
    s_children (sup_cleanup env s) = s_children s"
proof -
  have "step (s_world s) (s_world (sup_cleanup env s))" "s_children (sup_cleanup env s) = s_children s"
    "s_order (sup_cleanup env s) = s_order s" "s_pid_to_id (sup_cleanup env s) = s_pid_to_id s"
    by (simp_all add: sup_cleanup_def unregister_from_registry_def sup_unregister_name_def step_unregister
        split: option.split)
  then show ?thesis using ok_frame [OF assms, of "sup_cleanup env s"] by simp
qed

lemma set_exit_reason_result:
  assumes "ok s"
  shows "ok (s\<lparr> s_world := e_set_exit_reason env r (s_world s) \<rparr>)"
  by (rule ok_frame [OF assms]) (simp_all add: step_set_exit_reason)

lemma shutdown_result:
  assumes ok: "ok s" and h: "sup_shutdown env reason s = Some s'"
  shows "ok s' \<and> step (s_world s) (s_world s') \<and> (\<forall>j. pid_of s' j = None) \<and> gives_up_dead {} s s'"
proof -
  define s1 where "s1 = (case reason of Some r \<Rightarrow> s\<lparr> s_world := e_set_exit_reason env r (s_world s) \<rparr> | None \<Rightarrow> s)"
  have s1: "ok s1" "step (s_world s) (s_world s1)" "s_children s1 = s_children s"
    using ok set_exit_reason_result [OF ok] step_set_exit_reason by (simp_all add: s1_def split: option.split)
  obtain s2 where t: "sup_terminate_all env s1 = Some s2" and s': "s' = sup_cleanup env s2"
    using h by (auto simp: sup_shutdown_def s1_def Option.bind_eq_Some_conv)
  note r = terminate_all_result [OF s1(1) t]
  have s2: "ok s2" "step (s_world s1) (s_world s2)" "gives_up_dead {} s1 s2" "\<forall>j. pid_of s2 j = None"
    using r by simp_all
  have s3: "ok s'" "step (s_world s2) (s_world s')" "s_children s' = s_children s2"
    using cleanup_result [OF s2(1)] s' by simp_all
  have "step (s_world s) (s_world s2)" by (rule world_step_trans [OF s1(2) s2(2)])
  moreover have "gives_up_dead {} s s2"
    by (rule gives_up_dead_trans [OF ok s1(2) s2(2) gives_up_dead_same [OF s1(3)] s2(3)])
  ultimately have "gives_up_dead {} s s'" "step (s_world s) (s_world s')"
    using gives_up_dead_trans [OF ok _ s3(2) _ gives_up_dead_same [OF s3(3)]] world_step_trans [OF _ s3(2)] by blast+
  then show ?thesis using s3(1) s2(4) by (simp add: pid_of_def s3(3))
qed

section \<open>One message\<close>

lemma sync_result: "ok s \<Longrightarrow> ok (sync_to_registry s)"
  by (rule ok_frame) (simp_all add: sync_to_registry_def)

lemma sync_fields [simp]:
  "s_world (sync_to_registry s) = s_world s" "s_children (sync_to_registry s) = s_children s"
  by (simp_all add: sync_to_registry_def)

lemma reply_result:
  assumes "ok s"
  shows "ok (sup_reply_to env p r x s)" "step (s_world s) (s_world (sup_reply_to env p r x s))"
    "s_children (sup_reply_to env p r x s) = s_children s"
proof -
  show "step (s_world s) (s_world (sup_reply_to env p r x s))" "s_children (sup_reply_to env p r x s) = s_children s"
    by (simp_all add: sup_reply_to_def Let_def step_reply)
  then show "ok (sup_reply_to env p r x s)"
    by (intro ok_frame [OF assms]) (simp_all add: sup_reply_to_def Let_def sync_to_registry_def)
qed

lemma delete_result:
  assumes ok: "ok s" and h: "handle_delete_child_command cid s = (res, s')"
  shows "ok s' \<and> s_world s' = s_world s \<and> gives_up_dead {} s s'"
proof (cases "\<exists>c. hm_get (s_children s) cid = Some c \<and> ch_pid c = None")
  case False
  then have "s' = s" using h by (auto simp: handle_delete_child_command_def split: option.splits if_splits)
  then show ?thesis using ok by (simp add: gives_up_dead_same)
next
  case True
  then obtain c where c: "hm_get (s_children s) cid = Some c" "ch_pid c = None" by blast
  have s': "s' = s\<lparr> s_children := hm_remove cid (s_children s), s_order := filter (\<lambda>i. i \<noteq> cid) (s_order s) \<rparr>"
    using h c by (simp add: handle_delete_child_command_def)
  have pid: "pid_of s' = pid_of s" by (rule ext) (simp add: pid_of_def s' c)
  have "ok s'"
  proof (rule okI)
    show "set (s_order s') = dom (hm_get (s_children s'))" using okD(3) [OF ok] by (auto simp: s')
  qed (use okD [OF ok] in \<open>auto simp: pid, auto simp: s' split: if_splits\<close>)
  then show ?thesis using pid by (simp add: s' gives_up_dead_def)
qed


lemma child_exit_result:
  assumes ok: "ok s" and h: "sup_handle_child_exit env p reason s = Some (res, s')"
  shows "ok s' \<and> step (s_world s) (s_world s') \<and> gives_up_dead {p} s s' \<and> (\<exists>ids. others_same ids s s')"
proof (cases "hm_get (s_pid_to_id s) p")
  case None
  then have "s' = s" using h by (simp add: sup_handle_child_exit_def)
  then show ?thesis using ok by (auto simp: gives_up_dead_same intro!: exI [of _ "{}"])
next
  case (Some cid)
  then have cid: "pid_of s cid = Some p" using okD(7) [OF ok] by simp
  note e = child_exit_effect [OF ok cid h]
  have "gives_up_dead {p} s s'"
    unfolding gives_up_dead_def
  proof (intro allI impI)
    fix j q assume q: "pid_of s j = Some q" "q \<notin> {p}"
    then have "j \<noteq> cid" using cid by auto
    then show "pid_of s' j = Some q \<or> \<not> e_alive env q (s_world s')" using e(4) q(1) by blast
  qed
  then show ?thesis using e(1) by blast
qed

text \<open>The processes a message declares dead.\<close>

fun downs :: "sup_message \<Rightarrow> pid set" where
  "downs (MSystem (Down r p reason)) = {p}"
| "downs _ = {}"

definition good :: "pid set \<Rightarrow> 'w sup \<Rightarrow> 'w sup \<Rightarrow> bool" where
  "good ds s s' \<longleftrightarrow> ok s' \<and> step (s_world s) (s_world s') \<and> gives_up_dead ds s s'"

lemma good_trans [trans]:
  assumes "ok s" "good ds s s1" "good ds s1 s2"
  shows "good ds s s2"
  unfolding good_def
proof (intro conjI)
  show "ok s2" using assms(3) by (simp add: good_def)
  have st: "step (s_world s) (s_world s1)" "step (s_world s1) (s_world s2)"
    using assms(2,3) by (simp_all add: good_def)
  show "step (s_world s) (s_world s2)" by (rule world_step_trans [OF st])
  show "gives_up_dead ds s s2"
    by (rule gives_up_dead_trans [OF assms(1) st]) (use assms(2,3) in \<open>simp_all add: good_def\<close>)
qed

lemma good_mono: "good {} s s' \<Longrightarrow> good ds s s'"
  by (simp add: good_def gives_up_dead_def)

lemma good_ok: "good ds s s' \<Longrightarrow> ok s'"
  by (simp add: good_def)

lemma good_refl: "ok s \<Longrightarrow> good ds s s"
  by (simp add: good_def gives_up_dead_def)

lemma good_sync: "ok s \<Longrightarrow> good ds s (sync_to_registry s)"
  by (simp add: good_def sync_result gives_up_dead_same)

lemma good_reply: "ok s \<Longrightarrow> good ds s (sup_reply_to env p r x s)"
  by (simp add: good_def reply_result gives_up_dead_same)

lemma good_shutdown: "ok s \<Longrightarrow> sup_shutdown env reason s = Some s' \<Longrightarrow> good ds s s' \<and> (\<forall>j. pid_of s' j = None)"
  using shutdown_result [of s reason s'] good_mono [of s s' ds] unfolding good_def by blast

lemma good_child_exit: "ok s \<Longrightarrow> sup_handle_child_exit env p reason s = Some (res, s') \<Longrightarrow> good {p} s s'"
  using child_exit_result [of s p reason res s'] by (simp add: good_def)

lemma good_terminate:
  assumes ok: "ok s" and h: "handle_terminate_child_command env cid s = Some (res, s')"
  shows "good {} s s'"
proof (cases "hm_contains cid (s_children s)")
  case False
  then show ?thesis using h ok by (simp add: handle_terminate_child_command_def good_refl)
next
  case True
  then have t: "sup_terminate_child_by_id env cid s = Some s'"
    using h by (auto simp: handle_terminate_child_command_def Option.bind_eq_Some_conv)
  have "gives_up_dead {} s s'"
    unfolding gives_up_dead_def
  proof (intro allI impI)
    fix j q assume q: "pid_of s j = Some q"
    show "pid_of s' j = Some q \<or> \<not> e_alive env q (s_world s')"
    proof (cases "j = cid")
      case True
      then show ?thesis using terminate_child_result(6) [OF t, of q] q okD(8) [OF ok q] by simp
    next
      case False
      then show ?thesis using others_same_pid [OF terminate_child_result(1) [OF t], of j] q by simp
    qed
  qed
  then show ?thesis using terminate_child_ok [OF ok t] by (simp add: good_def)
qed

lemma good_delete: "ok s \<Longrightarrow> handle_delete_child_command cid s = (res, s') \<Longrightarrow> good {} s s'"
  using delete_result [of s cid res s'] by (simp add: good_def)

lemma good_restart:
  assumes ok: "ok s" and h: "handle_restart_child_command env cid s = (res, s')"
  shows "good {} s s'"
proof (cases "\<exists>c. hm_get (s_children s) cid = Some c \<and> ch_pid c = None")
  case False
  then have "s' = s" using h by (auto simp: handle_restart_child_command_def split: option.splits if_splits)
  then show ?thesis using ok by (simp add: good_refl)
next
  case True
  then have st: "sup_start_child env cid s = (res, s')" and none: "pid_of s cid = None"
    using h by (auto simp: handle_restart_child_command_def pid_of_def)
  note r = start_child_result [OF ok none st]
  have "gives_up_dead {} s s'"
    unfolding gives_up_dead_def
  proof (intro allI impI)
    fix j q assume q: "pid_of s j = Some q"
    then have "j \<notin> {cid}" using none by auto
    then have "pid_of s' j = pid_of s j" using r by (intro others_same_pid) auto
    then show "pid_of s' j = Some q \<or> \<not> e_alive env q (s_world s')" using q by simp
  qed
  then show ?thesis using r by (simp add: good_def)
qed

lemma handle_result:
  assumes ok: "ok s" and h: "sup_handle env m s = Some (go, s')"
  shows "good (downs m) s s' \<and> (\<not> go \<longrightarrow> (\<forall>j. pid_of s' j = None))"
  using h
proof (cases rule: sup_handle.cases [of "(env, m, s)"])
  case (1 env' r p reason s0)
  obtain res s1 where x: "sup_handle_child_exit env p reason s = Some (res, s1)"
    using h 1 by (auto simp: Option.bind_eq_Some_conv)
  have g1: "good (downs m) s s1" using good_child_exit [OF ok x] 1 by simp
  show ?thesis
  proof (cases res)
    case (Inl e)
    then have "sup_shutdown env (Some e) s1 = Some s'" "\<not> go"
      using h 1 x by (auto simp: Option.bind_eq_Some_conv)
    then show ?thesis using good_shutdown [OF good_ok [OF g1], of "Some e" s'] good_trans [OF ok g1] by blast
  next
    case (Inr u)
    then have "s' = sync_to_registry s1" "go" using h 1 x by auto
    then show ?thesis using good_trans [OF ok g1 good_sync [OF good_ok [OF g1]]] by simp
  qed
next
  case (2 env' origin reason s0)
  then have "sup_shutdown env (Some reason) s = Some s'" "\<not> go" using h by (auto simp: Option.bind_eq_Some_conv)
  then show ?thesis using good_shutdown [OF ok] by blast
next
  case (3 env' s0)
  then have "s' = s" "go" using h by auto
  then show ?thesis using good_refl [OF ok] by simp
next
  case (4 env' cid reply_to r s0)
  obtain res s1 where x: "handle_terminate_child_command env cid s = Some (res, s1)"
    using h 4 by (auto simp: Option.bind_eq_Some_conv)
  have "s' = sup_reply_to env reply_to r (ReplyUnit res) s1" "go" using h 4 x by auto
  then show ?thesis
    using good_trans [OF ok good_terminate [OF ok x] good_reply [OF good_ok [OF good_terminate [OF ok x]]]] 4 by simp
next
  case (5 env' cid reply_to r s0)
  obtain res s1 where x: "handle_delete_child_command cid s = (res, s1)" by (metis surj_pair)
  have "s' = sup_reply_to env reply_to r (ReplyUnit res) s1" "go" using h 5 x by auto
  then show ?thesis
    using good_trans [OF ok good_delete [OF ok x] good_reply [OF good_ok [OF good_delete [OF ok x]]]] 5 by simp
next
  case (6 env' cid reply_to r s0)
  obtain res s1 where x: "handle_restart_child_command env cid s = (res, s1)" by (metis surj_pair)
  have "s' = sup_reply_to env reply_to r (ReplyPid res) s1" "go" using h 6 x by auto
  then show ?thesis
    using good_trans [OF ok good_restart [OF ok x] good_reply [OF good_ok [OF good_restart [OF ok x]]]] 6 by simp
next
  case (7 env' s0)
  then have "s' = s" "go" using h by auto
  then show ?thesis using good_refl [OF ok] by simp
qed

lemma loop_result:
  assumes "ok s" "sup_loop env ms s = Some (go, s')"
  shows "good (\<Union>m \<in> {m. Some m \<in> set ms}. downs m) s s' \<and> (\<not> go \<longrightarrow> (\<forall>j. pid_of s' j = None))"
  using assms
proof (induction ms arbitrary: s)
  case Nil
  then show ?case by (simp add: good_refl)
next
  case (Cons m ms)
  let ?ds = "\<lambda>ms. \<Union>m \<in> {m. Some m \<in> set ms}. downs m"
  have mono: "good ds s1 s2 \<Longrightarrow> ds \<subseteq> ds' \<Longrightarrow> good ds' s1 s2" for ds ds' s1 s2
    unfolding good_def gives_up_dead_def by blast
  show ?case
  proof (cases m)
    case None
    then have "sup_shutdown env None s = Some s'" using Cons.prems(2) by (auto simp: Option.bind_eq_Some_conv)
    then show ?thesis using good_shutdown [OF Cons.prems(1)] by blast
  next
    case (Some m')
    obtain go1 s1 where x: "sup_handle env m' s = Some (go1, s1)"
      using Cons.prems(2) Some by (auto simp: Option.bind_eq_Some_conv)
    note r = handle_result [OF Cons.prems(1) x]
    have g1: "good (?ds (m # ms)) s s1" using r by (auto intro: mono [of "downs m'"] simp: Some)
    show ?thesis
    proof (cases go1)
      case False
      then have "s' = s1" "\<not> go" using Cons.prems(2) Some x by auto
      then show ?thesis using g1 r False by simp
    next
      case True
      then have "sup_loop env ms s1 = Some (go, s')" using Cons.prems(2) Some x by simp
      note IH = Cons.IH [OF good_ok [OF g1] this]
      have "good (?ds (m # ms)) s1 s'" using IH by (auto intro: mono [of "?ds ms"])
      then show ?thesis using good_trans [OF Cons.prems(1) g1] IH by blast
    qed
  qed
qed


section \<open>A supervisor does not hang\<close>

text \<open>Which specifications are supervised changes by deletion only.\<close>

definition no_new_specs :: "'w sup \<Rightarrow> 'w sup \<Rightarrow> bool" where
  "no_new_specs s s' \<longleftrightarrow> (\<forall>j c'. hm_get (s_children s') j = Some c' \<longrightarrow>
     (\<exists>c. hm_get (s_children s) j = Some c \<and> ch_spec c = ch_spec c'))"

lemma finite_no_new: "no_new_specs s s' \<Longrightarrow> finite_shutdown s \<Longrightarrow> finite_shutdown s'"
  unfolding no_new_specs_def finite_shutdown_def by metis

lemma no_new_same: "others_same ids s s' \<Longrightarrow> no_new_specs s s'"
  unfolding no_new_specs_def
proof (intro allI impI)
  fix j c' assume "others_same ids s s'" "hm_get (s_children s') j = Some c'"
  then have "map_option ch_spec (hm_get (s_children s) j) = Some (ch_spec c')"
    using others_same_spec [of ids s s' j] by simp
  then show "\<exists>c. hm_get (s_children s) j = Some c \<and> ch_spec c = ch_spec c'" by auto
qed

lemma terminate_each_finite: "finite_shutdown s \<Longrightarrow> \<exists>s'. sup_terminate_each env ids s = Some s'"
  by (rule terminate_each_returns) (simp add: finite_shutdown_def)

lemma shutdown_returns: "finite_shutdown s \<Longrightarrow> \<exists>s'. sup_shutdown env reason s = Some s'"
proof -
  assume f: "finite_shutdown s"
  let ?s1 = "case reason of Some r \<Rightarrow> s\<lparr> s_world := e_set_exit_reason env r (s_world s) \<rparr> | None \<Rightarrow> s"
  have "finite_shutdown ?s1" using f by (simp add: finite_shutdown_def split: option.split)
  then obtain s2 where "sup_terminate_all env ?s1 = Some s2"
    using terminate_each_finite unfolding sup_terminate_all_def by blast
  then show ?thesis by (simp add: sup_shutdown_def)
qed

lemma noted_finite:
  assumes f: "finite_shutdown s" and c: "hm_get (s_children s) cid = Some c"
  shows "finite_shutdown (s\<lparr> s_pid_to_id := m, s_children := hm_insert cid (c\<lparr> ch_pid := None, ch_ref := None \<rparr>) (s_children s),
    s_restart_times := kept \<rparr>)"
  using f c by (auto simp: finite_shutdown_def)

lemma child_exit_returns:
  assumes f: "finite_shutdown s"
  shows "\<exists>res s'. sup_handle_child_exit env p reason s = Some (res, s')"
proof (cases "hm_get (s_pid_to_id s) p")
  case None
  then show ?thesis by (simp add: sup_handle_child_exit_def)
next
  case cid: (Some cid)
  show ?thesis
  proof (cases "hm_get (s_children s) cid")
    case None
    then show ?thesis using cid by (simp add: sup_handle_child_exit_def)
  next
    case c: (Some c)
    obtain allowed kept where rate: "check_restart_rate (unat (sf_max_restarts (s_flags s)))
        (secs (uint (sf_max_seconds (s_flags s)))) (e_now env (s_world s)) (s_restart_times s) = (allowed, kept)"
      by (metis surj_pair)
    let ?s2 = "noted p cid c kept s"
    have each: "\<exists>s3. sup_terminate_each env ids ?s2 = Some s3" for ids
      by (rule terminate_each_finite) (simp add: noted_def noted_finite [OF f c])
    obtain s3 where all: "sup_terminate_all env ?s2 = Some s3"
      using each unfolding sup_terminate_all_def by blast
    obtain s4 where rest: "sup_terminate_each env (rev (drop (list_position cid (s_order s)) (s_order s))) ?s2 = Some s4"
      using each by blast
    show ?thesis
      using all rest cid c rate
      by (cases "sf_strategy (s_flags s)") (auto simp: sup_handle_child_exit_def noted_def Let_def)
  qed
qed

lemma finite_children: "s_children s' = s_children s \<Longrightarrow> finite_shutdown s \<Longrightarrow> finite_shutdown s'"
  by (simp add: finite_shutdown_def)

lemma finite_reply [simp]:
  "finite_shutdown (sup_reply_to env p r x s) = finite_shutdown s"
  "finite_shutdown (sync_to_registry s) = finite_shutdown s"
  by (simp_all add: finite_shutdown_def sup_reply_to_def Let_def)

lemma terminate_command_finite:
  assumes f: "finite_shutdown s"
  shows "\<exists>res s'. handle_terminate_child_command env cid s = Some (res, s') \<and> finite_shutdown s'"
proof (cases "hm_contains cid (s_children s)")
  case False
  then show ?thesis using f by (simp add: handle_terminate_child_command_def)
next
  case True
  obtain s' where t: "sup_terminate_child_by_id env cid s = Some s'"
    using terminate_child_returns [of s cid] f unfolding finite_shutdown_def by blast
  have "finite_shutdown s'" by (rule finite_shutdown_same [OF terminate_child_result(1) [OF t] f])
  then show ?thesis using t True by (simp add: handle_terminate_child_command_def)
qed

lemma delete_finite:
  "handle_delete_child_command cid s = (res, s') \<Longrightarrow> finite_shutdown s \<Longrightarrow> finite_shutdown s'"
  by (auto simp: handle_delete_child_command_def finite_shutdown_def split: option.splits if_splits)

lemma start_finite:
  "sup_start_child env cid s = (res, s') \<Longrightarrow> finite_shutdown s \<Longrightarrow> finite_shutdown s'"
  by (auto simp: sup_start_child_def finite_shutdown_def hm_get_get_mut split: option.splits sum.splits prod.splits if_splits)

lemma restart_finite:
  "handle_restart_child_command env cid s = (res, s') \<Longrightarrow> finite_shutdown s \<Longrightarrow> finite_shutdown s'"
  by (auto simp: handle_restart_child_command_def start_finite split: option.splits if_splits)

lemma handle_returns:
  assumes ok: "ok s" and f: "finite_shutdown s"
  shows "\<exists>go s'. sup_handle env m s = Some (go, s') \<and> (go \<longrightarrow> finite_shutdown s')"
proof -
  have returnsI: ?thesis if "sup_handle env m s = Some (go, s')" "go \<Longrightarrow> finite_shutdown s'" for go s'
    using that by blast
  show ?thesis
  proof (cases rule: sup_handle.cases [of "(env, m, s)"])
  case (1 env' r p reason s0)
  obtain res s1 where x: "sup_handle_child_exit env p reason s = Some (res, s1)"
    using child_exit_returns [OF f] by blast
  obtain ids where "others_same ids s s1" using child_exit_result [OF ok x] by blast
  then have f1: "finite_shutdown s1" using f by (rule finite_shutdown_same)
  show ?thesis
  proof (cases res)
    case (Inl e)
    obtain s2 where "sup_shutdown env (Some e) s1 = Some s2" using shutdown_returns [OF f1] by blast
    then show ?thesis using 1 x Inl by auto
  next
    case (Inr u)
    then show ?thesis using 1 x f1 by auto
  qed
next
  case (2 env' origin reason s0)
  obtain s2 where "sup_shutdown env (Some reason) s = Some s2" using shutdown_returns [OF f] by blast
  then show ?thesis using 2 by auto
next
  case (4 env' cid reply_to r s0)
  obtain res s1 where x: "handle_terminate_child_command env cid s = Some (res, s1)" and f1: "finite_shutdown s1"
    using terminate_command_finite [OF f] by blast
  have "sup_handle env m s = Some (True, sup_reply_to env reply_to r (ReplyUnit res) s1)" using 4 x by simp
  from returnsI [OF this] f1 show ?thesis by simp
next
  case (5 env' cid reply_to r s0)
  obtain res s1 where x: "handle_delete_child_command cid s = (res, s1)" by (metis surj_pair)
  have "sup_handle env m s = Some (True, sup_reply_to env reply_to r (ReplyUnit res) s1)" using 5 x by simp
  from returnsI [OF this] delete_finite [OF x f] show ?thesis by simp
next
  case (6 env' cid reply_to r s0)
  obtain res s1 where x: "handle_restart_child_command env cid s = (res, s1)" by (metis surj_pair)
  have "sup_handle env m s = Some (True, sup_reply_to env reply_to r (ReplyPid res) s1)" using 6 x by simp
  from returnsI [OF this] restart_finite [OF x f] show ?thesis by simp
qed (use f in auto)
qed

lemma loop_returns:
  assumes "ok s" "finite_shutdown s"
  shows "\<exists>go s'. sup_loop env ms s = Some (go, s')"
  using assms
proof (induction ms arbitrary: s)
  case (Cons m ms)
  show ?case
  proof (cases m)
    case None
    then show ?thesis using shutdown_returns [OF Cons.prems(2), of None] by auto
  next
    case (Some m')
    obtain go s1 where x: "sup_handle env m' s = Some (go, s1)" "go \<longrightarrow> finite_shutdown s1"
      using handle_returns [OF Cons.prems] by blast
    then show ?thesis
      using Cons.IH [OF good_ok] handle_result [OF Cons.prems(1) x(1)] Some by (cases go) auto
  qed
qed auto

end

text \<open>A child that never dies makes the wait endless.\<close>

lemma wait_loop_hangs:
  assumes "\<And>n. e_alive env p ((e_sleep env (millis 10) ^^ n) w)"
  shows "wait_loop env p None w = None"
proof (rule ccontr)
  let ?P = "\<lambda>env p deadline w (r :: bool \<times> 'a). deadline = None \<longrightarrow>
    (\<exists>n. \<not> e_alive env p ((e_sleep env (millis 10) ^^ n) w))"
  assume "wait_loop env p None w \<noteq> None"
  then obtain r where r: "wait_loop env p None w = Some r" by auto
  have "?P env p (None :: int option) w r"
  proof (rule wait_loop.raw_induct [where P = ?P, OF _ r])
    fix f env p deadline w r
    assume IH: "\<And>env p deadline w r. f env p deadline w = Some r \<Longrightarrow> ?P env p deadline w r"
      and eq: "(if \<not> e_alive env p w then Some (True, w)
        else if (case deadline of Some d \<Rightarrow> e_now env w \<ge> d | None \<Rightarrow> False) then Some (False, w)
        else f env p deadline (e_sleep env (millis 10) w)) = Some r"
    show "?P env p deadline w r"
    proof (cases "e_alive env p w")
      case False
      then show ?thesis by (auto intro: exI [of _ 0])
    next
      case True
      show ?thesis
      proof (intro impI)
        assume none: "deadline = None"
        then have "f env p deadline (e_sleep env (millis 10) w) = Some r" using eq True by simp
        from IH [OF this] none obtain n where "\<not> e_alive env p ((e_sleep env (millis 10) ^^ Suc n) w)"
          by (auto simp: funpow_swap1)
        then show "\<exists>n. \<not> e_alive env p ((e_sleep env (millis 10) ^^ n) w)" by blast
      qed
    qed
  qed
  then show False using assms by blast
qed

section \<open>Starting up\<close>

lemma init_children:
  assumes "distinct (map cs_id specs)"
  shows "hm_get (s_children (sup_init self flags specs name q w)) cid =
    map_option (\<lambda>spec. \<lparr> ch_spec = spec, ch_pid = None, ch_ref = None \<rparr>) (map_of (map (\<lambda>c. (cs_id c, c)) specs) cid)"
proof -
  have "hm_get (fold (\<lambda>spec m. hm_insert (cs_id spec) \<lparr> ch_spec = spec, ch_pid = None, ch_ref = None \<rparr> m) specs m) cid =
    (case map_of (map (\<lambda>c. (cs_id c, c)) specs) cid of Some spec \<Rightarrow> Some \<lparr> ch_spec = spec, ch_pid = None, ch_ref = None \<rparr>
      | None \<Rightarrow> hm_get m cid)" for m :: "(string, 'a child_state) hmap"
    using assms
  proof (induction specs arbitrary: m)
    case (Cons spec specs)
    have "map_of (map (\<lambda>c. (cs_id c, c)) specs) (cs_id spec) = None"
      using Cons.prems by (auto simp: map_of_eq_None_iff)
    then show ?case using Cons by (auto split: option.split)
  qed simp
  then show ?thesis by (simp add: sup_init_def split: option.split)
qed

lemma init_pid_of: "distinct (map cs_id specs) \<Longrightarrow> pid_of (sup_init self flags specs name q w) cid = None"
  by (auto simp: pid_of_def init_children split: option.split)

context child_world
begin

lemma init_ok:
  assumes d: "distinct (map cs_id specs)" and st: "\<forall>c \<in> set specs. start_ok env known (cs_start c)"
  shows "ok (sup_init self flags specs name q w)"
proof (rule okI)
  let ?s = "sup_init self flags specs name q w"
  have "hm_ok (fold (\<lambda>spec m. hm_insert (cs_id spec) \<lparr> ch_spec = spec, ch_pid = None, ch_ref = None \<rparr> m) specs [])"
    by (rule fold_invariant_on) simp_all
  then show "hm_ok (s_children ?s)" by (simp add: sup_init_def)
  show "set (s_order ?s) = dom (hm_get (s_children ?s))"
  proof -
    have "dom (hm_get (s_children ?s)) = dom (map_of (map (\<lambda>c. (cs_id c, c)) specs))"
      unfolding dom_def init_children [OF d] by simp
    also have "\<dots> = cs_id ` set specs" by (simp add: dom_map_of_conv_image_fst image_image)
    finally show ?thesis by (simp add: sup_init_def)
  qed
  have child: "cs_id (ch_spec c) = cid \<and> ch_spec c \<in> set specs \<and> ch_pid c = None \<and> ch_ref c = None"
    if "hm_get (s_children ?s) cid = Some c" for cid c
    using that by (auto simp: init_children [OF d] dest: map_of_SomeD)
  show "cs_id (ch_spec c) = cid" "start_ok env known (cs_start (ch_spec c))" "ch_ref c = None \<longleftrightarrow> ch_pid c = None"
    if "hm_get (s_children ?s) cid = Some c" for cid c
    using child [OF that] st by auto
qed (use d in \<open>simp_all add: init_pid_of\<close>, simp_all add: sup_init_def)

lemma start_all_result:
  assumes "ok s" "\<forall>j. pid_of s j = None" "sup_start_all env s = (res, s')"
  shows "ok s' \<and> step (s_world s) (s_world s') \<and> others_same (set (s_order s)) s s'"
  using start_each_result [OF assms(1) okD(2) [OF assms(1)] _ assms(3) [unfolded sup_start_all_def]] assms(2) by blast

lemma startup_ok:
  assumes ok: "ok s" and none: "\<forall>j. pid_of s j = None" and h: "sup_startup env s = Some (go, s')"
  shows "ok s' \<and> step (s_world s) (s_world s')"
proof -
  obtain res s1 where st: "sup_start_all env s = (res, s1)" by (metis surj_pair)
  note r = start_all_result [OF ok none st]
  have ok1: "ok s1" and st1: "step (s_world s) (s_world s1)" using r by simp_all
  show ?thesis
  proof (cases res)
    case (Inl reason)
    let ?s2 = "s1\<lparr> s_world := e_set_exit_reason env reason (s_world s1) \<rparr>"
    have s': "s' = sup_cleanup env ?s2" using h st Inl by (simp add: sup_startup_def)
    have "step (s_world s) (s_world ?s2)" using world_step_trans [OF st1 step_set_exit_reason] by simp
    moreover have "ok s'" "step (s_world ?s2) (s_world s')"
      using cleanup_result [OF set_exit_reason_result [OF ok1]] s' by simp_all
    ultimately show ?thesis using world_step_trans [of env known "s_world s" "s_world ?s2"] by simp
  next
    case (Inr u)
    show ?thesis
    proof (cases "s_name s1")
      case None
      then have "s' = sync_to_registry s1" using h st Inr by (simp add: sup_startup_def)
      then show ?thesis using ok1 st1 by (simp add: sync_result)
    next
      case (Some name)
      obtain okn w where reg: "e_register_name env name (s_self s1) (s_world s1) = (okn, w)" by (metis surj_pair)
      let ?s2 = "s1\<lparr> s_world := w \<rparr>"
      have w: "step (s_world s1) w" using step_register [of "s_world s1" name "s_self s1"] reg by simp
      have ok2: "ok ?s2" by (rule ok_frame [OF ok1]) (simp_all add: w)
      have st2: "step (s_world s) (s_world ?s2)" using world_step_trans [OF st1 w] by simp
      show ?thesis
      proof (cases okn)
        case True
        then have "s' = sync_to_registry ?s2" using h st Inr Some reg by (simp add: sup_startup_def Let_def)
        then show ?thesis using ok2 st2 by (simp add: sync_result)
      next
        case False
        then obtain s3 where t: "sup_terminate_all env ?s2 = Some s3" and s': "s' = unregister_from_registry s3"
          using h st Inr Some reg by (auto simp: sup_startup_def Let_def Option.bind_eq_Some_conv)
        have s3: "ok s3" "step (s_world ?s2) (s_world s3)" using terminate_all_result [OF ok2 t] by simp_all
        have "ok s'" by (rule ok_frame [OF s3(1)]) (simp_all add: s' unregister_from_registry_def)
        then show ?thesis using world_step_trans [OF st2 s3(2)] by (simp add: s' unregister_from_registry_def)
      qed
    qed
  qed
qed

end

end
