(* ===== verification/Runtime.thy ===== *)
theory Runtime
  imports Core
begin

text \<open>
  The process runtime: process handles and their shared state (\<open>runtime/process_handle.rs\<close>), the
  process registry (\<open>runtime/registry.rs\<close>), the operations of a process on itself and others
  (\<open>runtime/context.rs\<close>) and spawning and exit (\<open>process/runtime.rs\<close>).

  A message is kept as a value, either a system message or the bytes of a user message: the wire
  format of the former is a serialisation library's.  The runtime state is one record; a process is
  found by its identifier, and its mailbox is the list of messages it has not yet received.  What the
  runtime hands to other parts is recorded: messages for remote nodes, the exits reported to the
  distribution layer, and the exits reported to the store.
\<close>

section \<open>State\<close>

datatype payload = PSystem system_message | PData "byte list"

datatype send_error =
    ProcessNotFound pid
  | MailboxFull
  | ProcessTerminated
  | EncodingError string
  | DistributionError string

record proc =
  pr_trap_exit :: bool
  pr_links :: "pid list"
  pr_monitors :: "(ref, pid) hmap"
  pr_monitored_by :: "(ref, pid) hmap"
  pr_terminated :: bool
  pr_exit_reason :: "exit_reason option"
  pr_mailbox :: "payload list"
  pr_closed :: bool

definition proc_new :: proc where
  "proc_new = \<lparr> pr_trap_exit = False, pr_links = [], pr_monitors = [], pr_monitored_by = [],
     pr_terminated = False, pr_exit_reason = None, pr_mailbox = [], pr_closed = False \<rparr>"

record runtime =
  rt_procs :: "(pid, proc) hmap"
  rt_names :: "(string, pid) hmap"
  rt_pids :: pid_source
  rt_next_ref :: ref
  rt_remote_hook :: "(pid \<Rightarrow> payload \<Rightarrow> send_error option) option"
  rt_wire :: "(pid \<times> payload) list"
  rt_distributed :: bool
  rt_reported_down :: "(pid \<times> exit_reason) list"
  rt_store_cleanup :: "(pid \<times> exit_reason) list"

definition runtime_new :: "pid_source \<Rightarrow> runtime" where
  "runtime_new src = \<lparr> rt_procs = [], rt_names = [], rt_pids = src, rt_next_ref = 0,
     rt_remote_hook = None, rt_wire = [], rt_distributed = False, rt_reported_down = [], rt_store_cleanup = [] \<rparr>"

definition rt_get :: "runtime \<Rightarrow> pid \<Rightarrow> proc option" where
  "rt_get s p = hm_get (rt_procs s) p"

definition rt_local :: "runtime \<Rightarrow> pid \<Rightarrow> bool" where
  "rt_local s p = pid_is_local (ps_this (rt_pids s)) p"

text \<open>A change through a handle: nothing happens when the registry has no such process.\<close>

definition rt_update :: "pid \<Rightarrow> (proc \<Rightarrow> proc) \<Rightarrow> runtime \<Rightarrow> runtime" where
  "rt_update p f s = s\<lparr> rt_procs := hm_get_mut p f (rt_procs s) \<rparr>"

section \<open>Process handles\<close>

definition handle_is_alive :: "proc \<Rightarrow> bool" where
  "handle_is_alive q = (\<not> pr_terminated q)"

definition handle_add_link :: "pid \<Rightarrow> proc \<Rightarrow> proc" where
  "handle_add_link other q = q\<lparr> pr_links := List.insert other (pr_links q) \<rparr>"

definition handle_remove_link :: "pid \<Rightarrow> proc \<Rightarrow> proc" where
  "handle_remove_link other q = q\<lparr> pr_links := removeAll other (pr_links q) \<rparr>"

definition handle_add_monitor :: "ref \<Rightarrow> pid \<Rightarrow> proc \<Rightarrow> proc" where
  "handle_add_monitor r target q = q\<lparr> pr_monitors := hm_insert r target (pr_monitors q) \<rparr>"

definition handle_remove_monitor :: "ref \<Rightarrow> proc \<Rightarrow> proc" where
  "handle_remove_monitor r q = q\<lparr> pr_monitors := hm_remove r (pr_monitors q) \<rparr>"

definition handle_add_monitored_by :: "ref \<Rightarrow> pid \<Rightarrow> proc \<Rightarrow> proc" where
  "handle_add_monitored_by r watcher q = q\<lparr> pr_monitored_by := hm_insert r watcher (pr_monitored_by q) \<rparr>"

definition handle_remove_monitored_by :: "ref \<Rightarrow> proc \<Rightarrow> proc" where
  "handle_remove_monitored_by r q = q\<lparr> pr_monitored_by := hm_remove r (pr_monitored_by q) \<rparr>"

definition handle_mark_terminated :: "exit_reason \<Rightarrow> proc \<Rightarrow> proc" where
  "handle_mark_terminated reason q = q\<lparr> pr_terminated := True, pr_exit_reason := Some reason \<rparr>"

definition handle_set_trap_exit :: "bool \<Rightarrow> proc \<Rightarrow> proc" where
  "handle_set_trap_exit trap q = q\<lparr> pr_trap_exit := trap \<rparr>"

definition handle_send :: "payload \<Rightarrow> proc \<Rightarrow> (send_error + unit) \<times> proc" where
  "handle_send data q =
    (if pr_closed q then (Inl ProcessTerminated, q)
     else (Inr (), q\<lparr> pr_mailbox := pr_mailbox q @ [data] \<rparr>))"

definition rt_handle_send :: "pid \<Rightarrow> payload \<Rightarrow> runtime \<Rightarrow> (send_error + unit) \<times> runtime" where
  "rt_handle_send p data s =
    (case rt_get s p of
       None \<Rightarrow> (Inl (ProcessNotFound p), s)
     | Some q \<Rightarrow> (fst (handle_send data q), rt_update p (\<lambda>q. snd (handle_send data q)) s))"

section \<open>The process registry\<close>

definition rt_unregister :: "pid \<Rightarrow> runtime \<Rightarrow> runtime" where
  "rt_unregister p s =
    s\<lparr> rt_names := hm_retain (\<lambda>_ q. q \<noteq> p) (rt_names s), rt_procs := hm_remove p (rt_procs s) \<rparr>"

definition rt_send_raw :: "pid \<Rightarrow> payload \<Rightarrow> runtime \<Rightarrow> (send_error + unit) \<times> runtime" where
  "rt_send_raw p data s =
    (if \<not> rt_local s p then
       (case rt_remote_hook s of
          Some hook \<Rightarrow>
            (case hook p data of
               None \<Rightarrow> (Inr (), s\<lparr> rt_wire := rt_wire s @ [(p, data)] \<rparr>)
             | Some err \<Rightarrow> (Inl err, s))
        | None \<Rightarrow> (Inl (ProcessNotFound p), s))
     else rt_handle_send p data s)"

definition rt_register_name :: "string \<Rightarrow> pid \<Rightarrow> runtime \<Rightarrow> bool \<times> runtime" where
  "rt_register_name name p s =
    (if hm_contains name (rt_names s) then (False, s)
     else (True, s\<lparr> rt_names := hm_insert name p (rt_names s) \<rparr>))"

definition rt_whereis :: "string \<Rightarrow> runtime \<Rightarrow> pid option" where
  "rt_whereis name s = hm_get (rt_names s) name"

definition rt_unregister_name :: "string \<Rightarrow> runtime \<Rightarrow> pid option \<times> runtime" where
  "rt_unregister_name name s =
    (hm_get (rt_names s) name, s\<lparr> rt_names := hm_remove name (rt_names s) \<rparr>)"

definition rt_registered_names :: "runtime \<Rightarrow> string list" where
  "rt_registered_names s = hm_keys (rt_names s)"

definition rt_alive :: "pid \<Rightarrow> runtime \<Rightarrow> bool" where
  "rt_alive p s = (case rt_get s p of None \<Rightarrow> False | Some q \<Rightarrow> handle_is_alive q)"

section \<open>Operations of a running process\<close>

text \<open>\<open>me\<close> is the process whose context is used.\<close>

definition rt_new_ref :: "runtime \<Rightarrow> ref \<times> runtime" where
  "rt_new_ref s = (rt_next_ref s, s\<lparr> rt_next_ref := rt_next_ref s + 1 \<rparr>)"

definition ctx_set_trap_exit :: "pid \<Rightarrow> bool \<Rightarrow> runtime \<Rightarrow> bool \<times> runtime" where
  "ctx_set_trap_exit me trap s =
    ((case rt_get s me of Some q \<Rightarrow> pr_trap_exit q | None \<Rightarrow> False),
     rt_update me (handle_set_trap_exit trap) s)"

definition ctx_link :: "pid \<Rightarrow> pid \<Rightarrow> runtime \<Rightarrow> (send_error + unit) \<times> runtime" where
  "ctx_link me other s =
    (let s1 = rt_update me (handle_add_link other) s in
     case rt_get s1 other of
       Some _ \<Rightarrow> (Inr (), rt_update other (handle_add_link me) s1)
     | None \<Rightarrow> (Inl (ProcessNotFound other), rt_update me (handle_remove_link other) s1))"

definition ctx_unlink :: "pid \<Rightarrow> pid \<Rightarrow> runtime \<Rightarrow> runtime" where
  "ctx_unlink me other s = rt_update other (handle_remove_link me) (rt_update me (handle_remove_link other) s)"

definition ctx_monitor :: "pid \<Rightarrow> pid \<Rightarrow> runtime \<Rightarrow> (send_error + ref) \<times> runtime" where
  "ctx_monitor me target s =
    (let (r, s1) = rt_new_ref s;
         s2 = rt_update me (handle_add_monitor r target) s1 in
     case rt_get s2 target of
       Some _ \<Rightarrow> (Inr r, rt_update target (handle_add_monitored_by r me) s2)
     | None \<Rightarrow>
        (let s3 = rt_update me (handle_remove_monitor r) s2
         in (Inr r, snd (rt_send_raw me (PSystem (Down r target (Error ''noproc''))) s3))))"

definition ctx_demonitor :: "pid \<Rightarrow> ref \<Rightarrow> runtime \<Rightarrow> runtime" where
  "ctx_demonitor me r s =
    (let target = (case rt_get s me of Some q \<Rightarrow> hm_get (pr_monitors q) r | None \<Rightarrow> None);
         s1 = rt_update me (handle_remove_monitor r) s
     in case target of
          Some t \<Rightarrow> rt_update t (handle_remove_monitored_by r) s1
        | None \<Rightarrow> s1)"

definition ctx_exit :: "pid \<Rightarrow> pid \<Rightarrow> exit_reason \<Rightarrow> runtime \<Rightarrow> (send_error + unit) \<times> runtime" where
  "ctx_exit me target reason s =
    (case rt_get s target of
       None \<Rightarrow> (Inl (ProcessNotFound target), s)
     | Some q \<Rightarrow>
        if is_killed reason then (Inr (), rt_update target (handle_mark_terminated reason) s)
        else if pr_trap_exit q then rt_handle_send target (PSystem (Exit me reason)) s
        else if is_abnormal reason then (Inr (), rt_update target (handle_mark_terminated reason) s)
        else (Inr (), s))"

definition ctx_recv :: "pid \<Rightarrow> runtime \<Rightarrow> payload option \<times> runtime" where
  "ctx_recv me s =
    (case rt_get s me of
       Some q \<Rightarrow>
         (case pr_mailbox q of
            [] \<Rightarrow> (None, s)
          | m # ms \<Rightarrow> (Some m, rt_update me (\<lambda>q. q\<lparr> pr_mailbox := ms \<rparr>) s))
     | None \<Rightarrow> (None, s))"

section \<open>Spawning and exit\<close>

definition rt_spawn :: "runtime \<Rightarrow> pid \<times> runtime" where
  "rt_spawn s =
    (let (p, src) = pid_new (rt_pids s)
     in (p, s\<lparr> rt_pids := src, rt_procs := hm_insert p proc_new (rt_procs s) \<rparr>))"

definition rt_spawn_link :: "pid \<Rightarrow> runtime \<Rightarrow> pid \<times> runtime" where
  "rt_spawn_link parent s =
    (let (child, s1) = rt_spawn s in
     case rt_get s1 parent of
       None \<Rightarrow> (child, s1)
     | Some _ \<Rightarrow>
        (let s2 = rt_update parent (handle_add_link child) s1
         in (child, rt_update child (handle_add_link parent) s2)))"

definition rt_spawn_monitor :: "pid \<Rightarrow> runtime \<Rightarrow> (pid \<times> ref) \<times> runtime" where
  "rt_spawn_monitor watcher s =
    (let (child, s1) = rt_spawn s; (r, s2) = rt_new_ref s1 in
     case rt_get s2 watcher of
       None \<Rightarrow> ((child, r), s2)
     | Some _ \<Rightarrow>
        (let s3 = rt_update watcher (handle_add_monitor r child) s2
         in ((child, r), rt_update child (handle_add_monitored_by r watcher) s3)))"

text \<open>\<open>handle_process_exit\<close>: one round per link, one per monitor, then the reports and the clean-up.\<close>

definition notify_link :: "pid \<Rightarrow> exit_reason \<Rightarrow> pid \<Rightarrow> runtime \<Rightarrow> runtime" where
  "notify_link p reason linked s =
    (if rt_local s linked then
       (case rt_get s linked of
          None \<Rightarrow> s
        | Some q \<Rightarrow>
           (let s1 = rt_update linked (handle_remove_link p) s in
            if is_killed reason then rt_update linked (handle_mark_terminated Killed) s1
            else if pr_trap_exit q then snd (rt_handle_send linked (PSystem (Exit p reason)) s1)
            else if is_abnormal reason then rt_update linked (handle_mark_terminated reason) s1
            else s1))
     else s)"

definition notify_monitor :: "pid \<Rightarrow> exit_reason \<Rightarrow> ref \<times> pid \<Rightarrow> runtime \<Rightarrow> runtime" where
  "notify_monitor p reason = (\<lambda>(r, watcher) s.
    (if rt_local s watcher then
       (case rt_get s watcher of
          None \<Rightarrow> s
        | Some _ \<Rightarrow>
           snd (rt_handle_send watcher (PSystem (Down r p reason))
             (rt_update watcher (handle_remove_monitor r) s)))
     else s))"

definition handle_process_exit :: "pid \<Rightarrow> exit_reason \<Rightarrow> runtime \<Rightarrow> runtime" where
  "handle_process_exit p reason s =
    (case rt_get s p of
       None \<Rightarrow> s
     | Some q \<Rightarrow>
        if pr_terminated q then s
        else
          (let s1 = rt_update p (handle_mark_terminated reason) s;
               s2 = fold (notify_link p reason) (pr_links q) s1;
               s3 = fold (notify_monitor p reason) (pr_monitored_by q) s2;
               s4 = s3\<lparr> rt_reported_down := (if rt_distributed s3 then rt_reported_down s3 @ [(p, reason)]
                                             else rt_reported_down s3),
                        rt_store_cleanup := rt_store_cleanup s3 @ [(p, reason)] \<rparr>
           in rt_unregister p s4))"

text \<open>The end of a process's task: its context, and with it the receiving end of its mailbox, is
  dropped before the exit is handled.\<close>

definition rt_task_end :: "pid \<Rightarrow> exit_reason option \<Rightarrow> runtime \<Rightarrow> runtime" where
  "rt_task_end p custom s =
    handle_process_exit p (case custom of Some r \<Rightarrow> r | None \<Rightarrow> Normal)
      (rt_update p (\<lambda>q. q\<lparr> pr_closed := True \<rparr>) s)"

text \<open>A panic unwinds the task: the context is dropped, nothing after it runs, and the panic is kept by the
  task's handle, which nobody looks at.\<close>

definition rt_task_panic :: "pid \<Rightarrow> runtime \<Rightarrow> runtime" where
  "rt_task_panic p s = rt_update p (\<lambda>q. q\<lparr> pr_closed := True \<rparr>) s"

definition rt_exit :: "pid \<Rightarrow> exit_reason \<Rightarrow> runtime \<Rightarrow> (send_error + unit) \<times> runtime" where
  "rt_exit target reason s =
    (case rt_get s target of
       Some _ \<Rightarrow> (Inr (), rt_update target (handle_mark_terminated reason) s)
     | None \<Rightarrow> (Inl (ProcessNotFound target), s))"

section \<open>Reading the state after a change\<close>

lemma rt_get_update [simp]:
  "rt_get (rt_update p f s) q = (if q = p then map_option f (rt_get s p) else rt_get s q)"
  by (simp add: rt_get_def rt_update_def hm_get_get_mut)

lemma rt_update_frame [simp]:
  "rt_names (rt_update p f s) = rt_names s" "rt_pids (rt_update p f s) = rt_pids s"
  "rt_next_ref (rt_update p f s) = rt_next_ref s" "rt_wire (rt_update p f s) = rt_wire s"
  "rt_reported_down (rt_update p f s) = rt_reported_down s"
  "rt_local (rt_update p f s) q = rt_local s q"
  "rt_remote_hook (rt_update p f s) = rt_remote_hook s"
  "rt_store_cleanup (rt_update p f s) = rt_store_cleanup s"
  "hm_ok (rt_procs s) \<Longrightarrow> hm_ok (rt_procs (rt_update p f s))"
  by (simp_all add: rt_update_def rt_local_def)

lemma rt_handle_send_eq:
  "snd (rt_handle_send p data s) =
    (case rt_get s p of None \<Rightarrow> s | Some _ \<Rightarrow> rt_update p (\<lambda>q. snd (handle_send data q)) s)"
  by (simp add: rt_handle_send_def split: option.split)

lemma rt_get_handle_send [simp]:
  "rt_get (snd (rt_handle_send p data s)) q =
    (if q = p then map_option (\<lambda>q. snd (handle_send data q)) (rt_get s p) else rt_get s q)"
  by (simp add: rt_handle_send_eq split: option.split)

lemma rt_handle_send_frame [simp]:
  "rt_names (snd (rt_handle_send p d s)) = rt_names s" "rt_pids (snd (rt_handle_send p d s)) = rt_pids s"
  "rt_next_ref (snd (rt_handle_send p d s)) = rt_next_ref s"
  "rt_local (snd (rt_handle_send p d s)) q = rt_local s q"
  "hm_ok (rt_procs s) \<Longrightarrow> hm_ok (rt_procs (snd (rt_handle_send p d s)))"
  by (simp_all add: rt_handle_send_eq split: option.split)

lemma handle_send_fields [simp]:
  "pr_links (snd (handle_send d q)) = pr_links q" "pr_monitors (snd (handle_send d q)) = pr_monitors q"
  "pr_monitored_by (snd (handle_send d q)) = pr_monitored_by q"
  "pr_terminated (snd (handle_send d q)) = pr_terminated q"
  "pr_trap_exit (snd (handle_send d q)) = pr_trap_exit q"
  "pr_closed (snd (handle_send d q)) = pr_closed q"
  "pr_exit_reason (snd (handle_send d q)) = pr_exit_reason q"
  "pr_mailbox (snd (handle_send d q)) = pr_mailbox q @ (if pr_closed q then [] else [d])"
  by (simp_all add: handle_send_def)

lemma rt_get_send_raw:
  "rt_get (snd (rt_send_raw p d s)) q =
    (if q = p \<and> rt_local s p then map_option (\<lambda>q. snd (handle_send d q)) (rt_get s q) else rt_get s q)"
proof -
  have wire: "rt_get (s\<lparr> rt_wire := x \<rparr>) q = rt_get s q" for x by (simp add: rt_get_def)
  show ?thesis by (auto simp: rt_send_raw_def wire split: option.split)
qed

lemma rt_local_send_raw [simp]: "rt_local (snd (rt_send_raw p d s)) q = rt_local s q"
  by (auto simp: rt_send_raw_def rt_local_def rt_handle_send_eq split: option.split)

section \<open>What an exit does to the other processes\<close>

definition link_effect :: "pid \<Rightarrow> exit_reason \<Rightarrow> proc \<Rightarrow> proc" where
  "link_effect p reason q =
    (let q1 = handle_remove_link p q in
     if is_killed reason then handle_mark_terminated Killed q1
     else if pr_trap_exit q then snd (handle_send (PSystem (Exit p reason)) q1)
     else if is_abnormal reason then handle_mark_terminated reason q1
     else q1)"

definition monitor_effect :: "pid \<Rightarrow> exit_reason \<Rightarrow> ref \<Rightarrow> proc \<Rightarrow> proc" where
  "monitor_effect p reason r q = snd (handle_send (PSystem (Down r p reason)) (handle_remove_monitor r q))"

lemma rt_get_notify_link:
  "rt_get (notify_link p reason l s) q =
    (if q = l \<and> rt_local s l then map_option (link_effect p reason) (rt_get s q) else rt_get s q)"
  by (auto simp: notify_link_def link_effect_def Let_def option.map_comp o_def split: option.split)

lemma notify_link_frame:
  "rt_local (notify_link p reason l s) q = rt_local s q" "rt_pids (notify_link p reason l s) = rt_pids s"
  "rt_next_ref (notify_link p reason l s) = rt_next_ref s" "rt_names (notify_link p reason l s) = rt_names s"
  "hm_ok (rt_procs s) \<Longrightarrow> hm_ok (rt_procs (notify_link p reason l s))"
  by (auto simp: notify_link_def Let_def split: option.split)

lemma rt_get_notify_links:
  "distinct ls \<Longrightarrow> rt_get (fold (notify_link p reason) ls s) q =
    (if q \<in> set ls \<and> rt_local s q then map_option (link_effect p reason) (rt_get s q) else rt_get s q)"
  by (induction ls arbitrary: s) (auto simp: rt_get_notify_link notify_link_frame)

lemma notify_links_frame:
  "rt_local (fold (notify_link p reason) ls s) q = rt_local s q"
  "rt_pids (fold (notify_link p reason) ls s) = rt_pids s"
  "rt_next_ref (fold (notify_link p reason) ls s) = rt_next_ref s"
  "rt_names (fold (notify_link p reason) ls s) = rt_names s"
  "hm_ok (rt_procs s) \<Longrightarrow> hm_ok (rt_procs (fold (notify_link p reason) ls s))"
  by (induction ls arbitrary: s) (auto simp: notify_link_frame)

lemma rt_get_notify_monitor:
  "rt_get (notify_monitor p reason (r, w) s) q =
    (if q = w \<and> rt_local s w then map_option (monitor_effect p reason r) (rt_get s q) else rt_get s q)"
  by (auto simp: notify_monitor_def monitor_effect_def option.map_comp o_def split: option.split)

lemma notify_monitor_frame:
  "rt_local (notify_monitor p reason m s) q = rt_local s q" "rt_pids (notify_monitor p reason m s) = rt_pids s"
  "rt_next_ref (notify_monitor p reason m s) = rt_next_ref s" "rt_names (notify_monitor p reason m s) = rt_names s"
  "hm_ok (rt_procs s) \<Longrightarrow> hm_ok (rt_procs (notify_monitor p reason m s))"
  by (auto simp: notify_monitor_def split: option.split prod.split)

lemma rt_get_notify_monitors:
  "rt_get (fold (notify_monitor p reason) ms s) q =
    (if rt_local s q then
       map_option (fold (monitor_effect p reason) (map fst (filter (\<lambda>(_, w). w = q) ms))) (rt_get s q)
     else rt_get s q)"
proof (induction ms arbitrary: s)
  case Nil
  then show ?case by (simp add: option.map_ident id_def)
next
  case (Cons m ms)
  obtain r w where m: "m = (r, w)" by (cases m)
  show ?case
    using Cons.IH [of "notify_monitor p reason m s"]
    by (auto simp: m rt_get_notify_monitor notify_monitor_frame option.map_comp o_def)
qed

lemma notify_monitors_frame:
  "rt_local (fold (notify_monitor p reason) ms s) q = rt_local s q"
  "rt_pids (fold (notify_monitor p reason) ms s) = rt_pids s"
  "rt_next_ref (fold (notify_monitor p reason) ms s) = rt_next_ref s"
  "rt_names (fold (notify_monitor p reason) ms s) = rt_names s"
  "hm_ok (rt_procs s) \<Longrightarrow> hm_ok (rt_procs (fold (notify_monitor p reason) ms s))"
  by (induction ms arbitrary: s) (auto simp: notify_monitor_frame)

lemma link_effect_fields:
  "pr_links (link_effect p reason q) = removeAll p (pr_links q)"
  "pr_monitors (link_effect p reason q) = pr_monitors q"
  "pr_monitored_by (link_effect p reason q) = pr_monitored_by q"
  "pr_trap_exit (link_effect p reason q) = pr_trap_exit q"
  "pr_closed (link_effect p reason q) = pr_closed q"
  "pr_mailbox (link_effect p reason q) = pr_mailbox q @
    (if \<not> is_killed reason \<and> pr_trap_exit q \<and> \<not> pr_closed q then [PSystem (Exit p reason)] else [])"
  "pr_terminated (link_effect p reason q) \<longleftrightarrow> pr_terminated q \<or> is_killed reason \<or>
    (\<not> pr_trap_exit q \<and> is_abnormal reason)"
  by (simp_all add: link_effect_def Let_def handle_remove_link_def handle_mark_terminated_def)

lemma monitor_effects_fields:
  "pr_links (fold (monitor_effect p reason) rs q) = pr_links q"
  "hm_get (pr_monitors (fold (monitor_effect p reason) rs q)) r =
    (if r \<in> set rs then None else hm_get (pr_monitors q) r)"
  "pr_monitored_by (fold (monitor_effect p reason) rs q) = pr_monitored_by q"
  "pr_trap_exit (fold (monitor_effect p reason) rs q) = pr_trap_exit q"
  "pr_terminated (fold (monitor_effect p reason) rs q) = pr_terminated q"
  "pr_closed (fold (monitor_effect p reason) rs q) = pr_closed q"
  "pr_mailbox (fold (monitor_effect p reason) rs q) = pr_mailbox q @
    (if pr_closed q then [] else map (\<lambda>r. PSystem (Down r p reason)) rs)"
  "hm_ok (pr_monitors q) \<Longrightarrow> hm_ok (pr_monitors (fold (monitor_effect p reason) rs q))"
  by (induction rs arbitrary: q) (auto simp: monitor_effect_def handle_remove_monitor_def)

lemma rt_get_unregister: "rt_get (rt_unregister p s) q = (if q = p then None else rt_get s q)"
  by (simp add: rt_get_def rt_unregister_def)

text \<open>The watchers' references, in the order the process keeps them.\<close>

definition refs_of :: "pid \<Rightarrow> proc \<Rightarrow> ref list" where
  "refs_of watcher q = map fst (filter (\<lambda>(_, w). w = watcher) (pr_monitored_by q))"

lemma process_exit_get:
  assumes "rt_get s p = Some P" "\<not> pr_terminated P" "distinct (pr_links P)" "q \<noteq> p" "rt_local s q"
  shows "rt_get (handle_process_exit p reason s) q =
    map_option (\<lambda>Q. fold (monitor_effect p reason) (refs_of q P)
       (if q \<in> set (pr_links P) then link_effect p reason Q else Q)) (rt_get s q)"
proof -
  let ?s1 = "rt_update p (handle_mark_terminated reason) s"
  let ?s2 = "fold (notify_link p reason) (pr_links P) ?s1"
  let ?s3 = "fold (notify_monitor p reason) (pr_monitored_by P) ?s2"
  have s2: "rt_get ?s2 q = (if q \<in> set (pr_links P) then map_option (link_effect p reason) (rt_get s q)
      else rt_get s q)"
    using assms(3-5) by (simp add: rt_get_notify_links)
  have s3: "rt_get ?s3 q = map_option (fold (monitor_effect p reason) (refs_of q P)) (rt_get ?s2 q)"
    using assms(5) by (simp add: rt_get_notify_monitors notify_links_frame refs_of_def)
  have "rt_get (handle_process_exit p reason s) q = rt_get ?s3 q"
    using assms(1,2,4) by (simp add: handle_process_exit_def Let_def rt_get_unregister) (simp add: rt_get_def)
  then show ?thesis using s2 s3 by (simp add: option.map_comp o_def)
qed

lemma process_exit_frame:
  "rt_pids (handle_process_exit p reason s) = rt_pids s"
  "rt_next_ref (handle_process_exit p reason s) = rt_next_ref s"
  "hm_ok (rt_procs s) \<Longrightarrow> hm_ok (rt_procs (handle_process_exit p reason s))"
  by (simp_all add: handle_process_exit_def Let_def rt_unregister_def notify_links_frame notify_monitors_frame
      split: option.split)

lemma process_exit_gone:
  assumes "rt_get s p = Some P" "\<not> pr_terminated P"
  shows "rt_get (handle_process_exit p reason s) p = None"
    "rt_names (handle_process_exit p reason s) = hm_retain (\<lambda>_ q. q \<noteq> p) (rt_names s)"
  using assms
  by (simp_all add: handle_process_exit_def Let_def rt_get_unregister)
     (simp add: rt_unregister_def notify_links_frame notify_monitors_frame)

end
