(* ===== verification/Runtime_Inv.thy ===== *)
theory Runtime_Inv
  imports Runtime
begin

text \<open>
  Runs of the process runtime and their invariant: links are symmetric and lead to registered
  processes only, and the two sides of every monitor agree.  Then what the end of a task does to
  every other process, and what an exit signal that only marks a process does not do.
\<close>

section \<open>Links and monitors as relations\<close>

definition links_of :: "runtime \<Rightarrow> pid \<Rightarrow> pid set" where
  "links_of s p = (case rt_get s p of None \<Rightarrow> {} | Some P \<Rightarrow> set (pr_links P))"

definition mon_of :: "runtime \<Rightarrow> pid \<Rightarrow> ref \<Rightarrow> pid option" where
  "mon_of s p r = (case rt_get s p of None \<Rightarrow> None | Some P \<Rightarrow> hm_get (pr_monitors P) r)"

definition mby_of :: "runtime \<Rightarrow> pid \<Rightarrow> ref \<Rightarrow> pid option" where
  "mby_of s p r = (case rt_get s p of None \<Rightarrow> None | Some P \<Rightarrow> hm_get (pr_monitored_by P) r)"

definition registered :: "runtime \<Rightarrow> pid \<Rightarrow> bool" where
  "registered s p = (rt_get s p \<noteq> None)"

text \<open>Process identifiers the node has handed out, and references.\<close>

definition allocated :: "runtime \<Rightarrow> pid \<Rightarrow> bool" where
  "allocated s p \<longleftrightarrow> rt_local s p \<and> pid_id p < ps_counter (rt_pids s)"

definition proc_ok :: "proc \<Rightarrow> bool" where
  "proc_ok P \<longleftrightarrow> distinct (pr_links P) \<and> hm_ok (pr_monitors P) \<and> hm_ok (pr_monitored_by P)"

definition rt_inv :: "runtime \<Rightarrow> bool" where
  "rt_inv s \<longleftrightarrow> hm_ok (rt_procs s) \<and>
     (\<forall>p P. rt_get s p = Some P \<longrightarrow> proc_ok P \<and> allocated s p) \<and>
     (\<forall>p q. q \<in> links_of s p \<longrightarrow> p \<in> links_of s q) \<and>
     (\<forall>p q r. mon_of s p r = Some q \<longrightarrow> mby_of s q r = Some p) \<and>
     (\<forall>p q r. mby_of s q r = Some p \<longrightarrow> allocated s p \<and> (registered s p \<longrightarrow> mon_of s p r = Some q)) \<and>
     (\<forall>p r. mon_of s p r \<noteq> None \<or> mby_of s p r \<noteq> None \<longrightarrow> r < rt_next_ref s)"

lemma rt_invD:
  assumes "rt_inv s"
  shows "hm_ok (rt_procs s)" "rt_get s p = Some P \<Longrightarrow> proc_ok P" "rt_get s p = Some P \<Longrightarrow> allocated s p"
    "q \<in> links_of s p \<Longrightarrow> p \<in> links_of s q" "mon_of s p r = Some q \<Longrightarrow> mby_of s q r = Some p"
    "mby_of s q r = Some p \<Longrightarrow> allocated s p"
    "mby_of s q r = Some p \<Longrightarrow> registered s p \<Longrightarrow> mon_of s p r = Some q"
    "mon_of s p r = Some q \<Longrightarrow> r < rt_next_ref s" "mby_of s p r = Some q \<Longrightarrow> r < rt_next_ref s"
  using assms unfolding rt_inv_def by blast+

lemma rt_invI:
  assumes "hm_ok (rt_procs s)" "\<And>p P. rt_get s p = Some P \<Longrightarrow> proc_ok P"
    "\<And>p P. rt_get s p = Some P \<Longrightarrow> allocated s p"
    "\<And>p q. q \<in> links_of s p \<Longrightarrow> p \<in> links_of s q"
    "\<And>p q r. mon_of s p r = Some q \<Longrightarrow> mby_of s q r = Some p"
    "\<And>p q r. mby_of s q r = Some p \<Longrightarrow> allocated s p"
    "\<And>p q r. mby_of s q r = Some p \<Longrightarrow> registered s p \<Longrightarrow> mon_of s p r = Some q"
    "\<And>p q r. mby_of s q r = Some p \<Longrightarrow> r < rt_next_ref s"
  shows "rt_inv s"
  unfolding rt_inv_def
proof (intro conjI allI impI)
  fix p q r
  assume "mon_of s p r \<noteq> None \<or> mby_of s p r \<noteq> None"
  then obtain p' q' where "mby_of s q' r = Some p'" using assms(5) by blast
  then show "r < rt_next_ref s" by (rule assms(8))
qed (use assms in blast)+

text \<open>For a change that keeps the monitors, the registered processes and everything allocated.\<close>

lemma rt_inv_transfer:
  assumes inv: "rt_inv s" and "hm_ok (rt_procs s')"
    and "\<And>p P. rt_get s' p = Some P \<Longrightarrow> proc_ok P"
    and "\<And>p q. q \<in> links_of s' p \<Longrightarrow> p \<in> links_of s' q"
    and mon: "mon_of s' = mon_of s" "mby_of s' = mby_of s" "registered s' = registered s"
    and alloc: "allocated s' = allocated s" and nxt: "rt_next_ref s' = rt_next_ref s"
  shows "rt_inv s'"
proof (rule rt_invI)
  show "allocated s' p" if "rt_get s' p = Some P" for p P
  proof -
    have "registered s' p" using that by (simp add: registered_def)
    then obtain P' where "rt_get s p = Some P'" unfolding mon(3) by (auto simp: registered_def)
    then show ?thesis unfolding alloc by (rule rt_invD(3) [OF inv])
  qed
  show "mby_of s' q r = Some p" if "mon_of s' p r = Some q" for p q r
    using that unfolding mon by (rule rt_invD(5) [OF inv])
  show "allocated s' p" if "mby_of s' q r = Some p" for p q r
    using that unfolding mon alloc by (rule rt_invD(6) [OF inv])
  show "mon_of s' p r = Some q" if "mby_of s' q r = Some p" "registered s' p" for p q r
    using that unfolding mon by (rule rt_invD(7) [OF inv])
  show "r < rt_next_ref s'" if "mby_of s' q r = Some p" for p q r
    using that unfolding mon nxt by (rule rt_invD(9) [OF inv])
qed (use assms in blast)+

lemma links_registered: "rt_inv s \<Longrightarrow> q \<in> links_of s p \<Longrightarrow> registered s q"
  using rt_invD(4) [of s q p] by (auto simp: links_of_def registered_def split: option.splits)

text \<open>Changes that touch neither links nor monitors keep the invariant.\<close>

definition quiet :: "(proc \<Rightarrow> proc) \<Rightarrow> bool" where
  "quiet f \<longleftrightarrow> (\<forall>P. pr_links (f P) = pr_links P \<and> pr_monitors (f P) = pr_monitors P \<and>
     pr_monitored_by (f P) = pr_monitored_by P)"

lemma quiet_simps [simp]:
  "quiet (handle_set_trap_exit b)" "quiet (handle_mark_terminated reason)"
  "quiet (\<lambda>q. snd (handle_send d q))" "quiet (\<lambda>q. q\<lparr> pr_closed := b \<rparr>)"
  "quiet (\<lambda>q. q\<lparr> pr_mailbox := ms \<rparr>)"
  by (simp_all add: quiet_def handle_set_trap_exit_def handle_mark_terminated_def)

lemma rel_update:
  "links_of (rt_update p f s) q =
    (if q = p then (case rt_get s p of None \<Rightarrow> {} | Some P \<Rightarrow> set (pr_links (f P))) else links_of s q)"
  "mon_of (rt_update p f s) q r =
    (if q = p then (case rt_get s p of None \<Rightarrow> None | Some P \<Rightarrow> hm_get (pr_monitors (f P)) r) else mon_of s q r)"
  "mby_of (rt_update p f s) q r =
    (if q = p then (case rt_get s p of None \<Rightarrow> None | Some P \<Rightarrow> hm_get (pr_monitored_by (f P)) r) else mby_of s q r)"
  "registered (rt_update p f s) q = registered s q"
  "allocated (rt_update p f s) q = allocated s q"
  by (auto simp: links_of_def mon_of_def mby_of_def registered_def allocated_def split: option.split)

lemma rel_quiet:
  assumes "quiet f"
  shows "links_of (rt_update p f s) = links_of s" "mon_of (rt_update p f s) = mon_of s"
    "mby_of (rt_update p f s) = mby_of s" "registered (rt_update p f s) = registered s"
    "allocated (rt_update p f s) = allocated s"
  using assms
  by (auto simp: rel_update fun_eq_iff quiet_def links_of_def mon_of_def mby_of_def split: option.split)

lemma rt_inv_quiet:
  assumes "quiet f" "rt_inv s"
  shows "rt_inv (rt_update p f s)"
proof (rule rt_inv_transfer [OF assms(2)])
  show "proc_ok P'" if "rt_get (rt_update p f s) q = Some P'" for q P'
    using that assms(1) rt_invD(2) [OF assms(2)]
    by (auto simp: quiet_def proc_ok_def split: if_splits)
  show "b \<in> links_of (rt_update p f s) a \<Longrightarrow> a \<in> links_of (rt_update p f s) b" for a b
    unfolding rel_quiet [OF assms(1)] by (rule rt_invD(4) [OF assms(2)])
qed (use rt_invD(1) [OF assms(2)] in \<open>simp_all add: rel_quiet [OF assms(1)]\<close>)

lemma rt_inv_handle_send: "rt_inv s \<Longrightarrow> rt_inv (snd (rt_handle_send p d s))"
  by (simp add: rt_handle_send_eq rt_inv_quiet split: option.split)

lemma rt_inv_get_cong:
  assumes get: "rt_get s' = rt_get s" and "rt_pids s' = rt_pids s" "rt_next_ref s' = rt_next_ref s"
    "hm_ok (rt_procs s')" and inv: "rt_inv s"
  shows "rt_inv s'"
proof (rule rt_inv_transfer [OF inv])
  have r: "links_of s' = links_of s"
    by (simp add: fun_eq_iff links_of_def get)
  show "mon_of s' = mon_of s" "mby_of s' = mby_of s" "registered s' = registered s"
    by (simp_all add: fun_eq_iff mon_of_def mby_of_def registered_def get)
  show "allocated s' = allocated s" by (simp add: fun_eq_iff allocated_def rt_local_def assms(2))
  show "proc_ok P" if "rt_get s' p = Some P" for p P
    using that rt_invD(2) [OF inv] unfolding get by blast
  show "b \<in> links_of s' a \<Longrightarrow> a \<in> links_of s' b" for a b
    unfolding r by (rule rt_invD(4) [OF inv])
qed (use assms in simp_all)

lemma rt_inv_cong:
  assumes "rt_procs s' = rt_procs s" "rt_pids s' = rt_pids s" "rt_next_ref s' = rt_next_ref s" "rt_inv s"
  shows "rt_inv s'"
  using assms rt_invD(1) [OF assms(4)]
  by (intro rt_inv_get_cong [OF _ _ _ _ assms(4)]) (simp_all add: fun_eq_iff rt_get_def)

lemma rt_inv_send_raw: "rt_inv s \<Longrightarrow> rt_inv (snd (rt_send_raw p d s))"
  by (auto simp: rt_send_raw_def rt_inv_handle_send split: option.split intro: rt_inv_cong)

section \<open>Steps\<close>

text \<open>A step is one operation of the code.  The operations of a context run in a live task, so the
  process is registered; the counters have room for one more value.\<close>

inductive rt_step :: "runtime \<Rightarrow> runtime \<Rightarrow> bool" where
  spawn: "ps_counter (rt_pids s) \<noteq> - 1 \<Longrightarrow> rt_step s (snd (rt_spawn s))"
| spawn_link: "ps_counter (rt_pids s) \<noteq> - 1 \<Longrightarrow> rt_step s (snd (rt_spawn_link parent s))"
| spawn_monitor: "ps_counter (rt_pids s) \<noteq> - 1 \<Longrightarrow> rt_next_ref s \<noteq> - 1 \<Longrightarrow>
    rt_step s (snd (rt_spawn_monitor watcher s))"
| link: "registered s me \<Longrightarrow> rt_step s (snd (ctx_link me other s))"
| unlink: "registered s me \<Longrightarrow> rt_step s (ctx_unlink me other s)"
| monitor: "registered s me \<Longrightarrow> rt_next_ref s \<noteq> - 1 \<Longrightarrow> rt_step s (snd (ctx_monitor me target s))"
| demonitor: "registered s me \<Longrightarrow> rt_step s (ctx_demonitor me r s)"
| exit: "rt_step s (snd (ctx_exit me target reason s))"
| handle_exit: "rt_step s (snd (rt_exit target reason s))"
| trap: "rt_step s (snd (ctx_set_trap_exit me b s))"
| send: "rt_step s (snd (rt_send_raw target d s))"
| recv: "rt_step s (snd (ctx_recv me s))"
| name: "rt_step s (snd (rt_register_name n target s))"
| unname: "rt_step s (snd (rt_unregister_name n s))"
| task_end: "rt_step s (rt_task_end p custom s)"
| task_panic: "rt_step s (rt_task_panic p s)"

inductive rt_reachable :: "runtime \<Rightarrow> bool" where
  init: "rt_reachable (runtime_new src)"
| step: "rt_reachable s \<Longrightarrow> rt_step s s' \<Longrightarrow> rt_reachable s'"

lemma rt_inv_init: "rt_inv (runtime_new src)"
proof -
  have "rt_get (runtime_new src) p = None" for p by (simp add: rt_get_def runtime_new_def)
  then show ?thesis
    by (simp add: rt_inv_def links_of_def mon_of_def mby_of_def) (simp add: runtime_new_def)
qed

subsection \<open>Spawning\<close>

lemma rt_spawn_eq:
  "rt_spawn s = (\<lparr> pid_node = node_name_atom (ps_this (rt_pids s)), pid_id = ps_counter (rt_pids s),
      pid_creation = ps_creation (rt_pids s) \<rparr>,
    s\<lparr> rt_pids := (rt_pids s)\<lparr> ps_counter := ps_counter (rt_pids s) + 1 \<rparr>,
       rt_procs := hm_insert (fst (rt_spawn s)) proc_new (rt_procs s) \<rparr>)"
  by (simp add: rt_spawn_def pid_new_def)

lemma rt_spawn_get:
  "rt_get (snd (rt_spawn s)) q = (if q = fst (rt_spawn s) then Some proc_new else rt_get s q)"
  by (subst rt_spawn_eq) (simp add: rt_get_def)

lemma word_less_Suc: "(w :: 64 word) \<noteq> - 1 \<Longrightarrow> w < w + 1"
  using unat_Suc_word [of w] by (simp add: word_less_nat_alt)

lemma rt_spawn_fresh:
  assumes "rt_inv s"
  shows "rt_get s (fst (rt_spawn s)) = None" "\<not> allocated s (fst (rt_spawn s))"
proof -
  show na: "\<not> allocated s (fst (rt_spawn s))" by (subst rt_spawn_eq) (simp add: allocated_def)
  show "rt_get s (fst (rt_spawn s)) = None"
    using rt_invD(3) [OF assms] na by (cases "rt_get s (fst (rt_spawn s))") auto
qed

lemma rt_spawn_allocated:
  assumes "ps_counter (rt_pids s) \<noteq> - 1"
  shows "allocated s q \<Longrightarrow> allocated (snd (rt_spawn s)) q"
    "allocated (snd (rt_spawn s)) (fst (rt_spawn s))"
    "rt_next_ref (snd (rt_spawn s)) = rt_next_ref s"
proof -
  have src: "rt_pids (snd (rt_spawn s)) = (rt_pids s)\<lparr> ps_counter := ps_counter (rt_pids s) + 1 \<rparr>"
    by (subst rt_spawn_eq) simp
  note lt = word_less_Suc [OF assms]
  show "allocated (snd (rt_spawn s)) q" if "allocated s q"
    using that lt order.strict_trans unfolding allocated_def rt_local_def src by fastforce
  show "allocated (snd (rt_spawn s)) (fst (rt_spawn s))"
    unfolding allocated_def rt_local_def src
    by (subst (1 2) rt_spawn_eq) (simp add: lt pid_is_local_def)
  show "rt_next_ref (snd (rt_spawn s)) = rt_next_ref s" by (subst rt_spawn_eq) simp
qed

lemma rt_inv_spawn:
  assumes inv: "rt_inv s" and room: "ps_counter (rt_pids s) \<noteq> - 1"
  shows "rt_inv (snd (rt_spawn s))"
proof -
  let ?s = "snd (rt_spawn s)" and ?c = "fst (rt_spawn s)"
  note fresh = rt_spawn_fresh [OF inv] and alloc = rt_spawn_allocated [OF room]
  have rel: "links_of ?s q = links_of s q" "mon_of ?s q r = mon_of s q r" "mby_of ?s q r = mby_of s q r" for q r
    using fresh(1) by (auto simp: links_of_def mon_of_def mby_of_def rt_spawn_get proc_new_def)
  have reg: "registered ?s q \<longleftrightarrow> registered s q \<or> q = ?c" for q
    by (simp add: registered_def rt_spawn_get)
  have not_c: "p \<noteq> ?c" if "mby_of s q r = Some p" for p q r
    using rt_invD(6) [OF inv that] fresh(2) by blast
  show ?thesis
  proof (rule rt_invI)
    show "hm_ok (rt_procs ?s)" using rt_invD(1) [OF inv] by (subst rt_spawn_eq) simp
    show "proc_ok P" if "rt_get ?s p = Some P" for p P
      using that rt_invD(2) [OF inv] by (auto simp: rt_spawn_get proc_ok_def proc_new_def split: if_splits)
    show "allocated ?s p" if "rt_get ?s p = Some P" for p P
      using that rt_invD(3) [OF inv] alloc(1,2) by (auto simp: rt_spawn_get split: if_splits)
    show "q \<in> links_of ?s p \<Longrightarrow> p \<in> links_of ?s q" for p q
      unfolding rel by (rule rt_invD(4) [OF inv])
    show "mon_of ?s p r = Some q \<Longrightarrow> mby_of ?s q r = Some p" for p q r
      unfolding rel by (rule rt_invD(5) [OF inv])
    show "mby_of ?s q r = Some p \<Longrightarrow> allocated ?s p" for p q r
      unfolding rel by (rule alloc(1) [OF rt_invD(6) [OF inv]])
    show "mon_of ?s p r = Some q" if "mby_of ?s q r = Some p" "registered ?s p" for p q r
      using that not_c [of q r p] unfolding rel reg by (blast intro: rt_invD(7) [OF inv])
    show "mby_of ?s q r = Some p \<Longrightarrow> r < rt_next_ref ?s" for p q r
      unfolding rel alloc(3) by (rule rt_invD(9) [OF inv])
  qed
qed

subsection \<open>Links\<close>

lemma rt_inv_mutual_links:
  assumes inv: "rt_inv s" and P: "rt_get s p = Some P" and Q: "rt_get s q = Some Q"
  shows "rt_inv (rt_update q (handle_add_link p) (rt_update p (handle_add_link q) s))"
    and "rt_inv (rt_update q (handle_remove_link p) (rt_update p (handle_remove_link q) s))"
proof -
  let ?a = "rt_update q (handle_add_link p) (rt_update p (handle_add_link q) s)"
  let ?r = "rt_update q (handle_remove_link p) (rt_update p (handle_remove_link q) s)"
  have mon: "mon_of ?a = mon_of s" "mon_of ?r = mon_of s" "mby_of ?a = mby_of s" "mby_of ?r = mby_of s"
    "registered ?a = registered s" "registered ?r = registered s"
    "allocated ?a = allocated s" "allocated ?r = allocated s"
    by (auto simp: fun_eq_iff rel_update mon_of_def mby_of_def handle_add_link_def handle_remove_link_def
        split: option.split)
  have la: "links_of ?a x = links_of s x \<union> (if x = p then {q} else {}) \<union> (if x = q then {p} else {})" for x
    using P Q by (auto simp: links_of_def handle_add_link_def)
  have lr: "links_of ?r x = links_of s x - (if x = p then {q} else {}) - (if x = q then {p} else {})" for x
    using P Q by (auto simp: links_of_def handle_remove_link_def)
  have sym: "y \<in> links_of s x \<longleftrightarrow> x \<in> links_of s y" for x y using rt_invD(4) [OF inv] by blast
  have ok: "proc_ok R" if "rt_get ?a x = Some R \<or> rt_get ?r x = Some R" for x R
    using that rt_invD(2) [OF inv] P Q
    by (auto simp: proc_ok_def handle_add_link_def handle_remove_link_def distinct_removeAll split: if_splits)
  have ma: "y \<in> links_of ?a x \<longrightarrow> x \<in> links_of ?a y" for x y
    unfolding la using sym by (auto split: if_splits)
  have mr: "y \<in> links_of ?r x \<longrightarrow> x \<in> links_of ?r y" for x y
    unfolding lr using sym by (auto split: if_splits)
  show "rt_inv ?a"
    by (rule rt_inv_transfer [OF inv]) (use ok ma mon rt_invD(1) [OF inv] in \<open>(blast | simp)+\<close>)
  show "rt_inv ?r"
    by (rule rt_inv_transfer [OF inv]) (use ok mr mon rt_invD(1) [OF inv] in \<open>(blast | simp)+\<close>)
qed

lemma rt_inv_link:
  assumes inv: "rt_inv s" and me: "registered s me"
  shows "rt_inv (snd (ctx_link me other s))"
proof (cases "rt_get s other")
  case (Some Q)
  obtain P where P: "rt_get s me = Some P" using me by (auto simp: registered_def)
  have "snd (ctx_link me other s) = rt_update other (handle_add_link me) (rt_update me (handle_add_link other) s)"
    using Some by (auto simp: ctx_link_def Let_def split: option.split)
  then show ?thesis using rt_inv_mutual_links(1) [OF inv P Some] by simp
next
  case None
  obtain P where P: "rt_get s me = Some P" using me by (auto simp: registered_def)
  have ne: "other \<noteq> me" using None P by auto
  have "other \<notin> links_of s me" using links_registered [OF inv, of other me] None by (auto simp: registered_def)
  then have notin: "other \<notin> set (pr_links P)" using P by (simp add: links_of_def)
  have eq: "snd (ctx_link me other s) = rt_update me (handle_remove_link other) (rt_update me (handle_add_link other) s)"
    using None ne by (simp add: ctx_link_def Let_def)
  have "handle_remove_link other (handle_add_link other P) = P"
    using notin by (simp add: handle_remove_link_def handle_add_link_def removeAll_id)
  then have "rt_get (snd (ctx_link me other s)) = rt_get s"
    using P by (auto simp: eq fun_eq_iff)
  then show ?thesis
    using rt_invD(1) [OF inv] inv by (intro rt_inv_get_cong [OF _ _ _ _ inv]) (simp_all add: eq)
qed

lemma rt_inv_unlink:
  assumes inv: "rt_inv s" and me: "registered s me"
  shows "rt_inv (ctx_unlink me other s)"
proof (cases "rt_get s other")
  case (Some Q)
  obtain P where P: "rt_get s me = Some P" using me by (auto simp: registered_def)
  show ?thesis unfolding ctx_unlink_def by (rule rt_inv_mutual_links(2) [OF inv P Some])
next
  case None
  obtain P where P: "rt_get s me = Some P" using me by (auto simp: registered_def)
  have "other \<notin> links_of s me" using links_registered [OF inv, of other me] None by (auto simp: registered_def)
  then have "handle_remove_link other P = P" using P by (simp add: links_of_def handle_remove_link_def removeAll_id)
  then have "rt_get (ctx_unlink me other s) = rt_get s"
    using P None by (auto simp: ctx_unlink_def fun_eq_iff)
  then show ?thesis
    using rt_invD(1) [OF inv] by (intro rt_inv_get_cong [OF _ _ _ _ inv]) (simp_all add: ctx_unlink_def)
qed

lemma rt_inv_spawn_link:
  assumes inv: "rt_inv s" and room: "ps_counter (rt_pids s) \<noteq> - 1"
  shows "rt_inv (snd (rt_spawn_link parent s))"
proof -
  let ?s = "snd (rt_spawn s)" and ?c = "fst (rt_spawn s)"
  have inv1: "rt_inv ?s" by (rule rt_inv_spawn [OF inv room])
  show ?thesis
  proof (cases "rt_get ?s parent")
    case None
    then show ?thesis using inv1 by (simp add: rt_spawn_link_def split_def)
  next
    case (Some P)
    have "rt_get ?s ?c = Some proc_new" by (simp add: rt_spawn_get)
    from rt_inv_mutual_links(1) [OF inv1 Some this]
    show ?thesis using Some by (simp add: rt_spawn_link_def split_def Let_def)
  qed
qed

subsection \<open>Monitors\<close>

lemma rt_new_ref_rel:
  "rt_get (snd (rt_new_ref s)) = rt_get s" "links_of (snd (rt_new_ref s)) = links_of s"
  "mon_of (snd (rt_new_ref s)) = mon_of s" "mby_of (snd (rt_new_ref s)) = mby_of s"
  "registered (snd (rt_new_ref s)) = registered s" "allocated (snd (rt_new_ref s)) = allocated s"
  by (simp_all add: fun_eq_iff rt_new_ref_def rt_get_def links_of_def mon_of_def mby_of_def
      registered_def allocated_def rt_local_def)

lemma rt_inv_new_ref:
  assumes inv: "rt_inv s" and room: "rt_next_ref s \<noteq> - 1"
  shows "rt_inv (snd (rt_new_ref s))"
    and "mon_of s p (fst (rt_new_ref s)) = None" "mby_of s p (fst (rt_new_ref s)) = None"
    and "fst (rt_new_ref s) < rt_next_ref (snd (rt_new_ref s))"
proof -
  have lt: "rt_next_ref s < rt_next_ref s + 1" by (rule word_less_Suc [OF room])
  show "rt_inv (snd (rt_new_ref s))"
  proof (rule rt_invI)
    show "hm_ok (rt_procs (snd (rt_new_ref s)))"
      using rt_invD(1) [OF inv] by (simp add: rt_new_ref_def)
    show "r < rt_next_ref (snd (rt_new_ref s))" if "mby_of (snd (rt_new_ref s)) q r = Some p" for p q r
    proof -
      have "r < rt_next_ref s" using that rt_invD(9) [OF inv] by (simp add: rt_new_ref_rel)
      then show ?thesis using lt by (simp add: rt_new_ref_def)
    qed
  qed (unfold rt_new_ref_rel, (fact rt_invD(2) [OF inv] rt_invD(3) [OF inv] rt_invD(4) [OF inv]
      rt_invD(5) [OF inv] rt_invD(6) [OF inv] rt_invD(7) [OF inv])+)
  show "mon_of s p (fst (rt_new_ref s)) = None"
    using rt_invD(8) [OF inv, of p "rt_next_ref s"]
    by (cases "mon_of s p (rt_next_ref s)") (auto simp: rt_new_ref_def)
  show "mby_of s p (fst (rt_new_ref s)) = None"
    using rt_invD(9) [OF inv, of p "rt_next_ref s"]
    by (cases "mby_of s p (rt_next_ref s)") (auto simp: rt_new_ref_def)
  show "fst (rt_new_ref s) < rt_next_ref (snd (rt_new_ref s))"
    using lt by (simp add: rt_new_ref_def)
qed

lemma rt_inv_add_monitor:
  assumes inv: "rt_inv s" and W: "rt_get s w = Some W" and T: "rt_get s t = Some T"
    and fresh: "\<And>p. mon_of s p r = None" "\<And>p. mby_of s p r = None" "r < rt_next_ref s"
  shows "rt_inv (rt_update t (handle_add_monitored_by r w) (rt_update w (handle_add_monitor r t) s))"
proof -
  let ?a = "rt_update t (handle_add_monitored_by r w) (rt_update w (handle_add_monitor r t) s)"
  have rel: "links_of ?a = links_of s" "registered ?a = registered s" "allocated ?a = allocated s"
    "rt_next_ref ?a = rt_next_ref s"
    by (auto simp: fun_eq_iff rel_update links_of_def handle_add_monitor_def handle_add_monitored_by_def
        split: option.split)
  have mon: "mon_of ?a p r' = (if p = w \<and> r' = r then Some t else mon_of s p r')" for p r'
    using W T by (auto simp: mon_of_def handle_add_monitor_def handle_add_monitored_by_def)
  have mby: "mby_of ?a p r' = (if p = t \<and> r' = r then Some w else mby_of s p r')" for p r'
    using W T by (auto simp: mby_of_def handle_add_monitor_def handle_add_monitored_by_def)
  have alw: "allocated s w" using rt_invD(3) [OF inv W] .
  show ?thesis
  proof (rule rt_invI)
    show "hm_ok (rt_procs ?a)" using rt_invD(1) [OF inv] by simp
    show "proc_ok P" if "rt_get ?a p = Some P" for p P
      using that rt_invD(2) [OF inv] W T
      by (auto simp: proc_ok_def handle_add_monitor_def handle_add_monitored_by_def split: if_splits)
    show "allocated ?a p" if "rt_get ?a p = Some P" for p P
      using that rt_invD(3) [OF inv] W T unfolding rel by (auto split: if_splits)
    show "q \<in> links_of ?a p \<Longrightarrow> p \<in> links_of ?a q" for p q
      unfolding rel by (rule rt_invD(4) [OF inv])
    show "mby_of ?a q r' = Some p" if "mon_of ?a p r' = Some q" for p q r'
      using that rt_invD(5) [OF inv, of p r' q] fresh(1) [of p] unfolding mon mby by (auto split: if_splits)
    show "allocated ?a p" if "mby_of ?a q r' = Some p" for p q r'
      using that rt_invD(6) [OF inv, of q r' p] alw unfolding mby rel by (auto split: if_splits)
    show "mon_of ?a p r' = Some q" if "mby_of ?a q r' = Some p" "registered ?a p" for p q r'
      using that rt_invD(7) [OF inv, of q r' p] fresh(2) [of q] unfolding mon mby rel by (auto split: if_splits)
    show "r' < rt_next_ref ?a" if "mby_of ?a q r' = Some p" for p q r'
      using that rt_invD(9) [OF inv, of q r' p] fresh(3) unfolding mby rel by (auto split: if_splits)
  qed
qed

lemma rt_new_ref_fresh:
  assumes "rt_inv s" "rt_next_ref s \<noteq> - 1" "rt_new_ref s = (r, s1)"
  shows "rt_inv s1" "mon_of s1 p r = None" "mby_of s1 p r = None" "r < rt_next_ref s1"
  using rt_inv_new_ref [OF assms(1,2)] rt_new_ref_rel [of s] assms(3) by simp_all

lemma rt_inv_spawn_monitor:
  assumes inv: "rt_inv s" and room: "ps_counter (rt_pids s) \<noteq> - 1" "rt_next_ref s \<noteq> - 1"
  shows "rt_inv (snd (rt_spawn_monitor watcher s))"
proof -
  let ?s = "snd (rt_spawn s)" and ?c = "fst (rt_spawn s)"
  have inv1: "rt_inv ?s" by (rule rt_inv_spawn [OF inv room(1)])
  have room2: "rt_next_ref ?s \<noteq> - 1" using room(2) rt_spawn_allocated(3) [OF room(1)] by simp
  obtain r s2 where r: "rt_new_ref ?s = (r, s2)" by (cases "rt_new_ref ?s")
  note F = rt_new_ref_fresh [OF inv1 room2 r]
  have get: "rt_get s2 = rt_get ?s" using rt_new_ref_rel(1) [of ?s] r by simp
  show ?thesis
  proof (cases "rt_get s2 watcher")
    case None
    then show ?thesis using F(1) r by (simp add: rt_spawn_monitor_def split_def)
  next
    case (Some W)
    have "rt_get s2 ?c = Some proc_new" unfolding get by (simp add: rt_spawn_get)
    from rt_inv_add_monitor [OF F(1) Some this F(2-4)]
    show ?thesis using Some r by (simp add: rt_spawn_monitor_def split_def Let_def)
  qed
qed

lemma rt_inv_monitor:
  assumes inv: "rt_inv s" and me: "registered s me" and room: "rt_next_ref s \<noteq> - 1"
  shows "rt_inv (snd (ctx_monitor me target s))"
proof -
  obtain r s1 where r: "rt_new_ref s = (r, s1)" by (cases "rt_new_ref s")
  note F = rt_new_ref_fresh [OF inv room r]
  have get: "rt_get s1 = rt_get s" using rt_new_ref_rel(1) [of s] r by simp
  obtain P where P: "rt_get s1 me = Some P" using me by (auto simp: registered_def get)
  show ?thesis
  proof (cases "rt_get s1 target")
    case (Some T)
    from rt_inv_add_monitor [OF F(1) P Some F(2-4)]
    show ?thesis using Some r by (auto simp: ctx_monitor_def Let_def split: option.split)
  next
    case None
    let ?s3 = "rt_update me (handle_remove_monitor r) (rt_update me (handle_add_monitor r target) s1)"
    have ne: "target \<noteq> me" using None P by auto
    have "snd (ctx_monitor me target s) = snd (rt_send_raw me (PSystem (Down r target (Error ''noproc''))) ?s3)"
      using None ne r by (simp add: ctx_monitor_def Let_def)
    moreover have "rt_inv ?s3"
    proof (rule rt_inv_transfer [OF F(1)])
      show "hm_ok (rt_procs ?s3)" using rt_invD(1) [OF F(1)] by simp
      show "proc_ok Q" if "rt_get ?s3 p = Some Q" for p Q
        using that rt_invD(2) [OF F(1)] P
        by (auto simp: proc_ok_def handle_add_monitor_def handle_remove_monitor_def split: if_splits)
      have links: "links_of ?s3 = links_of s1"
        by (auto simp: fun_eq_iff rel_update links_of_def handle_add_monitor_def handle_remove_monitor_def
            split: option.split)
      show "q \<in> links_of ?s3 p \<Longrightarrow> p \<in> links_of ?s3 q" for p q
        unfolding links by (rule rt_invD(4) [OF F(1)])
      have "hm_get (pr_monitors P) r = None" using F(2) [of me] P by (simp add: mon_of_def)
      then show "mon_of ?s3 = mon_of s1"
        using P by (auto simp: fun_eq_iff mon_of_def handle_add_monitor_def handle_remove_monitor_def)
      show "mby_of ?s3 = mby_of s1" "registered ?s3 = registered s1" "allocated ?s3 = allocated s1"
        using P by (auto simp: fun_eq_iff rel_update mby_of_def handle_add_monitor_def handle_remove_monitor_def)
    qed simp
    ultimately show ?thesis by (simp add: rt_inv_send_raw)
  qed
qed

lemma rt_inv_demonitor:
  assumes inv: "rt_inv s" and me: "registered s me"
  shows "rt_inv (ctx_demonitor me r s)"
proof -
  obtain P where P: "rt_get s me = Some P" using me by (auto simp: registered_def)
  show ?thesis
  proof (cases "mon_of s me r")
    case None
    then have none: "hm_get (pr_monitors P) r = None" using P by (simp add: mon_of_def)
    let ?a = "rt_update me (handle_remove_monitor r) s"
    have "rt_inv ?a"
    proof (rule rt_inv_transfer [OF inv])
      show "proc_ok Q" if "rt_get ?a p = Some Q" for p Q
        using that rt_invD(2) [OF inv] P
        by (auto simp: proc_ok_def handle_remove_monitor_def split: if_splits)
      have links: "links_of ?a = links_of s"
        by (auto simp: fun_eq_iff links_of_def handle_remove_monitor_def split: option.split)
      show "q \<in> links_of ?a p \<Longrightarrow> p \<in> links_of ?a q" for p q
        unfolding links by (rule rt_invD(4) [OF inv])
      show "mon_of ?a = mon_of s" "mby_of ?a = mby_of s" "registered ?a = registered s" "allocated ?a = allocated s"
        using P none by (auto simp: fun_eq_iff rel_update mon_of_def mby_of_def handle_remove_monitor_def)
    qed (use rt_invD(1) [OF inv] in simp_all)
    then show ?thesis using P none by (simp add: ctx_demonitor_def Let_def)
  next
    case (Some t)
    then have some: "hm_get (pr_monitors P) r = Some t" using P by (simp add: mon_of_def)
    let ?a = "rt_update t (handle_remove_monitored_by r) (rt_update me (handle_remove_monitor r) s)"
    have mb: "mby_of s t r = Some me" by (rule rt_invD(5) [OF inv Some])
    then obtain T where T: "rt_get s t = Some T" by (auto simp: mby_of_def split: option.splits)
    have rel: "links_of ?a = links_of s" "registered ?a = registered s" "allocated ?a = allocated s"
      "rt_next_ref ?a = rt_next_ref s"
      by (auto simp: fun_eq_iff rel_update links_of_def handle_remove_monitor_def handle_remove_monitored_by_def
          split: option.split)
    have mon: "mon_of ?a p r' = (if p = me \<and> r' = r then None else mon_of s p r')" for p r'
      using P T by (auto simp: mon_of_def handle_remove_monitor_def handle_remove_monitored_by_def)
    have mby: "mby_of ?a p r' = (if p = t \<and> r' = r then None else mby_of s p r')" for p r'
      using P T by (auto simp: mby_of_def handle_remove_monitor_def handle_remove_monitored_by_def)
    have "rt_inv ?a"
    proof (rule rt_invI)
      show "hm_ok (rt_procs ?a)" using rt_invD(1) [OF inv] by simp
      show "proc_ok Q" if "rt_get ?a p = Some Q" for p Q
        using that rt_invD(2) [OF inv] P T
        by (auto simp: proc_ok_def handle_remove_monitor_def handle_remove_monitored_by_def split: if_splits)
      show "allocated ?a p" if "rt_get ?a p = Some Q" for p Q
        using that rt_invD(3) [OF inv] P T unfolding rel by (auto split: if_splits)
      show "q \<in> links_of ?a p \<Longrightarrow> p \<in> links_of ?a q" for p q
        unfolding rel by (rule rt_invD(4) [OF inv])
      show "mby_of ?a q r' = Some p" if "mon_of ?a p r' = Some q" for p q r'
        using that rt_invD(5) [OF inv, of p r' q] mb Some unfolding mon mby by (auto split: if_splits)
      show "allocated ?a p" if "mby_of ?a q r' = Some p" for p q r'
        using that rt_invD(6) [OF inv, of q r' p] unfolding mby rel by (auto split: if_splits)
      show "mon_of ?a p r' = Some q" if "mby_of ?a q r' = Some p" "registered ?a p" for p q r'
        using that rt_invD(7) [OF inv, of q r' p] Some unfolding mon mby rel by (auto split: if_splits)
      show "r' < rt_next_ref ?a" if "mby_of ?a q r' = Some p" for p q r'
        using that rt_invD(9) [OF inv, of q r' p] unfolding mby rel by (auto split: if_splits)
    qed
    then show ?thesis using P some by (simp add: ctx_demonitor_def Let_def)
  qed
qed

subsection \<open>Exit\<close>

lemma process_exit_none:
  assumes "rt_get s q = None"
  shows "rt_get (handle_process_exit p reason s) q = None"
proof -
  have one: "rt_get (notify_link p reason l s') q = None" if "rt_get s' q = None" for l s'
    using that by (auto simp: rt_get_notify_link)
  have "rt_get (fold (notify_link p reason) ls s') q = None" if "rt_get s' q = None" for ls s'
    using that by (induction ls arbitrary: s') (simp_all add: one)
  moreover have "rt_get (fold (notify_monitor p reason) ms s') q = None" if "rt_get s' q = None" for ms s'
    using that by (simp add: rt_get_notify_monitors)
  moreover have "rt_get (s'\<lparr> rt_reported_down := a, rt_store_cleanup := b \<rparr>) q = rt_get s' q" for s' a b
    by (simp add: rt_get_def)
  ultimately show ?thesis
    using assms by (simp add: handle_process_exit_def Let_def rt_get_unregister split: option.split)
qed

lemma refs_of_mby:
  "hm_ok (pr_monitored_by P) \<Longrightarrow> r \<in> set (refs_of q P) \<longleftrightarrow> hm_get (pr_monitored_by P) r = Some q"
  by (force simp: refs_of_def hm_in_set [symmetric])

lemma allocated_local: "allocated s p \<Longrightarrow> rt_local s p"
  by (simp add: allocated_def)

lemma registered_local: "rt_inv s \<Longrightarrow> rt_get s q = Some Q \<Longrightarrow> rt_local s q"
  using rt_invD(3) allocated_local by blast

lemma process_exit_rel:
  assumes inv: "rt_inv s" and P: "rt_get s p = Some P" and live: "\<not> pr_terminated P"
    and s'_def: "s' = handle_process_exit p reason s"
  shows "links_of s' q = (if q = p then {} else links_of s q - {p})"
    and "mon_of s' q r = (if q = p \<or> mby_of s p r = Some q then None else mon_of s q r)"
    and "mby_of s' q r = (if q = p then None else mby_of s q r)"
    and "registered s' q \<longleftrightarrow> q \<noteq> p \<and> registered s q"
    and "rt_get s' q = Some Q' \<Longrightarrow> proc_ok Q'"
proof -
  have okP: "distinct (pr_links P)" "hm_ok (pr_monitored_by P)" using rt_invD(2) [OF inv P] by (simp_all add: proc_ok_def)
  have gone: "rt_get s' p = None" unfolding s'_def by (rule process_exit_gone(1) [OF P live])
  have get: "rt_get s' q = map_option (\<lambda>Q. fold (monitor_effect p reason) (refs_of q P)
      (if q \<in> set (pr_links P) then link_effect p reason Q else Q)) (rt_get s q)" if "q \<noteq> p" for q
  proof (cases "rt_get s q")
    case None
    then show ?thesis unfolding s'_def by (simp add: process_exit_none)
  next
    case (Some Q)
    show ?thesis unfolding s'_def
      by (rule process_exit_get [OF P live okP(1) that registered_local [OF inv Some]])
  qed
  have linked: "q \<in> set (pr_links P) \<longleftrightarrow> p \<in> links_of s q" for q
    using rt_invD(4) [OF inv] P by (force simp: links_of_def)
  show "links_of s' q = (if q = p then {} else links_of s q - {p})"
  proof (cases "q = p")
    case True
    then show ?thesis using gone by (simp add: links_of_def)
  next
    case False
    show ?thesis
      using get [OF False] linked [of q] False
      by (auto simp: links_of_def monitor_effects_fields link_effect_fields split: option.splits if_splits)
  qed
  show "mon_of s' q r = (if q = p \<or> mby_of s p r = Some q then None else mon_of s q r)"
  proof (cases "q = p")
    case True
    then show ?thesis using gone by (simp add: mon_of_def)
  next
    case False
    show ?thesis
      using get [OF False] False P refs_of_mby [OF okP(2), of r q]
      by (auto simp: mon_of_def mby_of_def monitor_effects_fields link_effect_fields split: option.splits)
  qed
  show "mby_of s' q r = (if q = p then None else mby_of s q r)"
  proof (cases "q = p")
    case True
    then show ?thesis using gone by (simp add: mby_of_def)
  next
    case False
    show ?thesis
      using get [OF False] False
      by (auto simp: mby_of_def monitor_effects_fields link_effect_fields split: option.splits)
  qed
  show "registered s' q \<longleftrightarrow> q \<noteq> p \<and> registered s q"
    using gone get [of q] by (cases "q = p") (auto simp: registered_def)
  show "proc_ok Q'" if q': "rt_get s' q = Some Q'"
  proof -
    have ne: "q \<noteq> p" using q' gone by auto
    obtain Q where Q: "rt_get s q = Some Q" "Q' = fold (monitor_effect p reason) (refs_of q P)
        (if q \<in> set (pr_links P) then link_effect p reason Q else Q)"
      using q' unfolding get [OF ne] map_option_eq_Some by blast
    show ?thesis
      using rt_invD(2) [OF inv Q(1)] Q(2)
      by (simp add: proc_ok_def monitor_effects_fields link_effect_fields distinct_removeAll)
  qed
qed

lemma rt_inv_process_exit:
  assumes inv: "rt_inv s"
  shows "rt_inv (handle_process_exit p reason s)"
proof (cases "\<exists>P. rt_get s p = Some P \<and> \<not> pr_terminated P")
  case False
  then have "handle_process_exit p reason s = s"
    by (auto simp: handle_process_exit_def split: option.split)
  then show ?thesis using inv by simp
next
  case True
  then obtain P where P: "rt_get s p = Some P" "\<not> pr_terminated P" by blast
  let ?s = "handle_process_exit p reason s"
  note R = process_exit_rel [OF inv P refl, where reason = reason]
  have alloc: "allocated ?s = allocated s"
    by (simp add: fun_eq_iff allocated_def rt_local_def process_exit_frame)
  show ?thesis
  proof (rule rt_invI)
    show "hm_ok (rt_procs ?s)" by (rule process_exit_frame(3) [OF rt_invD(1) [OF inv]])
    show "proc_ok Q" if "rt_get ?s q = Some Q" for q Q by (rule R(5) [OF that])
    show "allocated ?s q" if "rt_get ?s q = Some Q" for q Q
    proof -
      have "registered ?s q" using that by (simp add: registered_def)
      then obtain Q' where "rt_get s q = Some Q'" unfolding R(4) by (auto simp: registered_def)
      then show ?thesis unfolding alloc by (rule rt_invD(3) [OF inv])
    qed
    show "b \<in> links_of ?s a" if "a \<in> links_of ?s b" for a b
      using that rt_invD(4) [OF inv, of a b] unfolding R(1) by (auto split: if_splits)
    show "mby_of ?s b r = Some a" if "mon_of ?s a r = Some b" for a b r
      using that rt_invD(5) [OF inv, of a r b] unfolding R(2,3) by (auto split: if_splits)
    show "allocated ?s a" if "mby_of ?s b r = Some a" for a b r
      using that rt_invD(6) [OF inv, of b r a] unfolding R(3) alloc by (auto split: if_splits)
    show "mon_of ?s a r = Some b" if "mby_of ?s b r = Some a" "registered ?s a" for a b r
    proof -
      have b: "b \<noteq> p" "mby_of s b r = Some a" and a: "a \<noteq> p" "registered s a"
        using that unfolding R(3,4) by (auto split: if_splits)
      have mon: "mon_of s a r = Some b" by (rule rt_invD(7) [OF inv b(2) a(2)])
      moreover have "mby_of s p r \<noteq> Some a"
        using rt_invD(7) [OF inv _ a(2), of p r] mon b(1) by auto
      ultimately show ?thesis using a(1) unfolding R(2) by simp
    qed
    show "r < rt_next_ref ?s" if "mby_of ?s b r = Some a" for a b r
      using that rt_invD(9) [OF inv, of b r a] unfolding R(3) process_exit_frame by (auto split: if_splits)
  qed
qed

lemma rt_inv_step:
  assumes "rt_step s s'" "rt_inv s"
  shows "rt_inv s'"
  using assms
proof cases
  case (exit target reason me)
  then show ?thesis using assms(2)
    by (auto simp: ctx_exit_def rt_inv_quiet rt_inv_handle_send split: option.split)
next
  case (handle_exit target reason)
  then show ?thesis using assms(2) by (auto simp: rt_exit_def rt_inv_quiet split: option.split)
next
  case (trap me b)
  then show ?thesis using assms(2) by (simp add: ctx_set_trap_exit_def rt_inv_quiet)
next
  case (recv me)
  then show ?thesis using assms(2) by (auto simp: ctx_recv_def rt_inv_quiet split: option.split list.split)
next
  case (name n target)
  then show ?thesis using assms(2) by (auto simp: rt_register_name_def intro: rt_inv_cong)
next
  case (unname n)
  then show ?thesis using assms(2) by (auto simp: rt_unregister_name_def intro: rt_inv_cong)
next
  case (task_end p custom)
  then show ?thesis using assms(2) by (simp add: rt_task_end_def rt_inv_process_exit rt_inv_quiet)
next
  case (task_panic p)
  then show ?thesis using assms(2) by (simp add: rt_task_panic_def rt_inv_quiet)
qed (simp_all add: rt_inv_spawn rt_inv_spawn_link rt_inv_spawn_monitor rt_inv_link rt_inv_unlink
    rt_inv_monitor rt_inv_demonitor rt_inv_send_raw)

lemma rt_reachable_inv: "rt_reachable s \<Longrightarrow> rt_inv s"
  by (induction rule: rt_reachable.induct) (auto intro: rt_inv_init rt_inv_step)

section \<open>Properties\<close>

text \<open>C9. Links and monitors stay consistent.  In every reachable state of the runtime: a process that
  has a link to another is linked back and both are registered; a monitor a process holds is known to
  the process it watches, which is registered; and a monitor noted by the watched process belongs to
  the watcher named there, as long as that watcher is registered.\<close>

theorem links_and_monitors_consistent:
  assumes "rt_reachable s"
  shows "(\<forall>p q. q \<in> links_of s p \<longrightarrow> p \<in> links_of s q \<and> registered s q) \<and>
    (\<forall>p q r. mon_of s p r = Some q \<longrightarrow> mby_of s q r = Some p \<and> registered s q) \<and>
    (\<forall>p q r. mby_of s q r = Some p \<and> registered s p \<longrightarrow> mon_of s p r = Some q)"
proof -
  have inv: "rt_inv s" by (rule rt_reachable_inv [OF assms])
  have "registered s q" if "mby_of s q r = Some p" for p q r
    using that by (auto simp: mby_of_def registered_def split: option.splits)
  then show ?thesis
    using rt_invD(4,5,7) [OF inv] links_registered [OF inv] by blast
qed

text \<open>C4. The end of a task is announced exactly once to everyone concerned.  When the task of a live
  process ends, the process and all its names leave the registry, and every other process is affected
  exactly so: a linked one loses the link and, for \<open>Killed\<close>, is marked terminated; otherwise it gets
  one exit message if it traps exits, and is marked terminated if not and the reason is abnormal; a
  watcher gets one \<open>Down\<close> message per monitor, after that, in the order of the monitors, and loses
  those monitors; every other process is untouched.\<close>

theorem task_end_effect:
  assumes "rt_reachable s" "rt_get s p = Some P" "\<not> pr_terminated P" "q \<noteq> p" "rt_get s q = Some Q"
    and "reason = (case custom of Some r \<Rightarrow> r | None \<Rightarrow> Normal)" "s' = rt_task_end p custom s"
  shows "rt_get s' p = None \<and> p \<notin> ran (hm_get (rt_names s')) \<and>
    (\<exists>Q'. rt_get s' q = Some Q' \<and>
      pr_mailbox Q' = pr_mailbox Q @
        (if pr_closed Q then []
         else (if q \<in> links_of s p \<and> \<not> is_killed reason \<and> pr_trap_exit Q then [PSystem (Exit p reason)] else []) @
              map (\<lambda>r. PSystem (Down r p reason)) (refs_of q P)) \<and>
      (pr_terminated Q' \<longleftrightarrow> pr_terminated Q \<or> q \<in> links_of s p \<and>
         (is_killed reason \<or> \<not> pr_trap_exit Q \<and> is_abnormal reason)) \<and>
      set (pr_links Q') = set (pr_links Q) - {p} \<and>
      (\<forall>r. hm_get (pr_monitors Q') r = (if mby_of s p r = Some q then None else hm_get (pr_monitors Q) r)) \<and>
      (q \<notin> links_of s p \<and> refs_of q P = [] \<longrightarrow> Q' = Q))"
proof -
  have inv: "rt_inv s" by (rule rt_reachable_inv [OF assms(1)])
  let ?s = "rt_update p (\<lambda>q. q\<lparr> pr_closed := True \<rparr>) s" and ?P = "P\<lparr> pr_closed := True \<rparr>"
  have s': "s' = handle_process_exit p reason ?s" by (simp add: assms(6,7) rt_task_end_def)
  have P: "rt_get ?s p = Some ?P" "\<not> pr_terminated ?P" using assms(2,3) by simp_all
  have okP: "distinct (pr_links ?P)" "hm_ok (pr_monitored_by P)"
    using rt_invD(2) [OF inv assms(2)] by (simp_all add: proc_ok_def)
  have loc: "rt_local ?s q" using registered_local [OF inv assms(5)] by simp
  have refs: "refs_of q ?P = refs_of q P" by (simp add: refs_of_def)
  have linked: "q \<in> set (pr_links ?P) \<longleftrightarrow> q \<in> links_of s p" using assms(2) by (simp add: links_of_def)
  have sym: "q \<in> links_of s p \<longleftrightarrow> p \<in> set (pr_links Q)"
    using rt_invD(4) [OF inv] assms(5) by (force simp: links_of_def)
  let ?Q = "fold (monitor_effect p reason) (refs_of q P) (if q \<in> links_of s p then link_effect p reason Q else Q)"
  have Q': "rt_get s' q = Some ?Q"
    using process_exit_get [OF P okP(1) assms(4) loc, of reason] assms(4,5)
    unfolding s' refs linked by simp
  have "r \<in> set (refs_of q P) \<longleftrightarrow> mby_of s p r = Some q" for r
    using refs_of_mby [OF okP(2)] assms(2) by (simp add: mby_of_def)
  moreover have "p \<notin> ran (hm_get (rt_names s'))"
  proof -
    have "rt_names s' = hm_retain (\<lambda>_ q. q \<noteq> p) (rt_names s)"
      using process_exit_gone(2) [OF P] by (simp add: s')
    then show ?thesis by (auto simp: ran_def hm_retain_def dest!: map_of_SomeD)
  qed
  moreover have "rt_get s' p = None" using process_exit_gone(1) [OF P] by (simp add: s')
  ultimately show ?thesis
    using Q' sym by (auto simp: monitor_effects_fields link_effect_fields removeAll_id)
qed

text \<open>A small run for the witnesses: process \<open>0\<close>, which traps exits, spawns process \<open>1\<close> with a link and
  monitors it; process \<open>1\<close> spawns process \<open>2\<close> with a link.\<close>

definition ex_src :: pid_source where
  "ex_src = \<lparr> ps_this = None, ps_counter = 0, ps_creation = 0 \<rparr>"

definition ex_p :: "64 word \<Rightarrow> pid" where
  "ex_p i = \<lparr> pid_node = [], pid_id = i, pid_creation = 0 \<rparr>"

lemmas ex_rt_simps = rt_spawn_def rt_spawn_link_def pid_new_def runtime_new_def ex_src_def ex_p_def
  node_name_atom_def ctx_set_trap_exit_def rt_update_def hm_get_mut_def rt_get_def hm_insert_def proc_new_def
  handle_set_trap_exit_def handle_add_link_def ctx_monitor_def rt_new_ref_def handle_add_monitor_def
  handle_add_monitored_by_def List.insert_def

definition ex_state :: "(pid, proc) hmap \<Rightarrow> 64 word \<Rightarrow> ref \<Rightarrow> runtime" where
  "ex_state procs pids refs = (runtime_new (ex_src\<lparr> ps_counter := pids \<rparr>))\<lparr> rt_procs := procs, rt_next_ref := refs \<rparr>"

lemma ex_steps:
  "snd (rt_spawn (runtime_new ex_src)) = ex_state [(ex_p 0, proc_new)] 1 0"
  "snd (ctx_set_trap_exit (ex_p 0) True (ex_state [(ex_p 0, proc_new)] 1 0)) =
     ex_state [(ex_p 0, proc_new\<lparr> pr_trap_exit := True \<rparr>)] 1 0"
  "snd (rt_spawn_link (ex_p 0) (ex_state [(ex_p 0, proc_new\<lparr> pr_trap_exit := True \<rparr>)] 1 0)) =
     ex_state [(ex_p 0, proc_new\<lparr> pr_trap_exit := True, pr_links := [ex_p 1] \<rparr>),
       (ex_p 1, proc_new\<lparr> pr_links := [ex_p 0] \<rparr>)] 2 0"
  "snd (ctx_monitor (ex_p 0) (ex_p 1)
      (ex_state [(ex_p 0, proc_new\<lparr> pr_trap_exit := True, pr_links := [ex_p 1] \<rparr>),
        (ex_p 1, proc_new\<lparr> pr_links := [ex_p 0] \<rparr>)] 2 0)) =
     ex_state [(ex_p 0, proc_new\<lparr> pr_trap_exit := True, pr_links := [ex_p 1], pr_monitors := [(0, ex_p 1)] \<rparr>),
       (ex_p 1, proc_new\<lparr> pr_links := [ex_p 0], pr_monitored_by := [(0, ex_p 0)] \<rparr>)] 2 1"
  "snd (rt_spawn_link (ex_p 1)
      (ex_state [(ex_p 0, proc_new\<lparr> pr_trap_exit := True, pr_links := [ex_p 1], pr_monitors := [(0, ex_p 1)] \<rparr>),
        (ex_p 1, proc_new\<lparr> pr_links := [ex_p 0], pr_monitored_by := [(0, ex_p 0)] \<rparr>)] 2 1)) =
     ex_state [(ex_p 0, proc_new\<lparr> pr_trap_exit := True, pr_links := [ex_p 1], pr_monitors := [(0, ex_p 1)] \<rparr>),
       (ex_p 1, proc_new\<lparr> pr_links := [ex_p 2, ex_p 0], pr_monitored_by := [(0, ex_p 0)] \<rparr>),
       (ex_p 2, proc_new\<lparr> pr_links := [ex_p 1] \<rparr>)] 3 1"
  by (simp_all add: ex_state_def ex_rt_simps Let_def)

definition ex_rt :: runtime where
  "ex_rt = ex_state [(ex_p 0, proc_new\<lparr> pr_trap_exit := True, pr_links := [ex_p 1], pr_monitors := [(0, ex_p 1)] \<rparr>),
     (ex_p 1, proc_new\<lparr> pr_links := [ex_p 2, ex_p 0], pr_monitored_by := [(0, ex_p 0)] \<rparr>),
     (ex_p 2, proc_new\<lparr> pr_links := [ex_p 1] \<rparr>)] 3 1"

lemma ex_rt_get:
  "rt_get ex_rt (ex_p 0) = Some (proc_new\<lparr> pr_trap_exit := True, pr_links := [ex_p 1], pr_monitors := [(0, ex_p 1)] \<rparr>)"
  "rt_get ex_rt (ex_p 1) = Some (proc_new\<lparr> pr_links := [ex_p 2, ex_p 0], pr_monitored_by := [(0, ex_p 0)] \<rparr>)"
  "rt_get ex_rt (ex_p 2) = Some (proc_new\<lparr> pr_links := [ex_p 1] \<rparr>)"
  by (simp_all add: rt_get_def ex_rt_def ex_state_def) (simp_all add: ex_p_def)

lemma ex_rt_reachable: "rt_reachable ex_rt"
proof -
  have room: "ps_counter (rt_pids (ex_state ps i r)) = i" "rt_next_ref (ex_state ps i r) = r" for ps i r
    by (simp_all add: ex_state_def runtime_new_def)
  have "rt_reachable (snd (rt_spawn (runtime_new ex_src)))"
    by (rule rt_reachable.step [OF rt_reachable.init rt_step.spawn]) (simp add: runtime_new_def ex_src_def)
  note 1 = this [unfolded ex_steps]
  note 2 = rt_reachable.step [OF 1 rt_step.trap [of _ "ex_p 0" True], unfolded ex_steps]
  note 3 = rt_reachable.step [OF 2 rt_step.spawn_link [of _ "ex_p 0"], unfolded room ex_steps]
  note 4 = rt_reachable.step [OF 3 rt_step.monitor [of _ "ex_p 0" "ex_p 1"], unfolded room ex_steps]
  note 5 = rt_reachable.step [OF 4 rt_step.spawn_link [of _ "ex_p 1"], unfolded room ex_steps]
  show ?thesis
    unfolding ex_rt_def by (rule 5) (simp_all add: registered_def rt_get_def ex_state_def)
qed

theorem links_and_monitors_consistent_witness:
  "ex_p 2 \<in> links_of ex_rt (ex_p 1) \<and> ex_p 1 \<in> links_of ex_rt (ex_p 2) \<and>
   mon_of ex_rt (ex_p 0) 0 = Some (ex_p 1) \<and> mby_of ex_rt (ex_p 1) 0 = Some (ex_p 0)"
proof -
  have "ex_p 2 \<in> links_of ex_rt (ex_p 1)" "mon_of ex_rt (ex_p 0) 0 = Some (ex_p 1)"
    by (simp_all add: links_of_def mon_of_def ex_rt_get)
  then show ?thesis using links_and_monitors_consistent [OF ex_rt_reachable] by blast
qed

theorem task_end_effect_witness:
  "\<exists>Q'. rt_get (rt_task_end (ex_p 1) (Some Killed) ex_rt) (ex_p 0) = Some Q' \<and>
     pr_mailbox Q' = [PSystem (Down 0 (ex_p 1) Killed)] \<and> pr_terminated Q'"
proof -
  have ne: "ex_p 0 \<noteq> ex_p 1" by (simp add: ex_p_def)
  have live: "\<not> pr_terminated (proc_new\<lparr> pr_links := [ex_p 2, ex_p 0], pr_monitored_by := [(0, ex_p 0)] \<rparr>)"
    by (simp add: proc_new_def)
  have links: "ex_p 0 \<in> links_of ex_rt (ex_p 1)" by (simp add: links_of_def ex_rt_get)
  have refs: "refs_of (ex_p 0) (proc_new\<lparr> pr_links := [ex_p 2, ex_p 0], pr_monitored_by := [(0, ex_p 0)] \<rparr>) = [0]"
    by (simp add: refs_of_def)
  from task_end_effect [OF ex_rt_reachable ex_rt_get(2) live ne ex_rt_get(1), of Killed "Some Killed", OF _ refl]
  show ?thesis using links refs by (auto simp: proc_new_def)
qed

section \<open>Flags that stay set\<close>

text \<open>A process with a flag of its handle set: \<open>pr_terminated\<close>, which a signal may set, or \<open>pr_closed\<close>, which
  says that its task is gone.  No operation takes back either.\<close>

definition marked :: "(proc \<Rightarrow> bool) \<Rightarrow> pid \<Rightarrow> runtime \<Rightarrow> bool" where
  "marked F p s = (\<exists>P. rt_get s p = Some P \<and> F P)"

definition flag :: "(proc \<Rightarrow> bool) \<Rightarrow> bool" where
  "flag F \<longleftrightarrow> F = pr_terminated \<or> F = pr_closed"

lemma handle_terminated [simp]:
  "pr_terminated (handle_add_link a P) = pr_terminated P" "pr_terminated (handle_remove_link a P) = pr_terminated P"
  "pr_terminated (handle_add_monitor r a P) = pr_terminated P"
  "pr_terminated (handle_remove_monitor r P) = pr_terminated P"
  "pr_terminated (handle_add_monitored_by r a P) = pr_terminated P"
  "pr_terminated (handle_remove_monitored_by r P) = pr_terminated P"
  "pr_terminated (handle_mark_terminated reason P)" "pr_terminated (handle_set_trap_exit b P) = pr_terminated P"
  by (simp_all add: handle_add_link_def handle_remove_link_def handle_add_monitor_def handle_remove_monitor_def
      handle_add_monitored_by_def handle_remove_monitored_by_def handle_mark_terminated_def handle_set_trap_exit_def)

lemma flag_kept:
  assumes "flag F" "F P"
  shows "F (handle_add_link a P)" "F (handle_remove_link a P)" "F (handle_add_monitor r a P)"
    "F (handle_remove_monitor r P)" "F (handle_add_monitored_by r a P)" "F (handle_remove_monitored_by r P)"
    "F (handle_mark_terminated reason P)" "F (handle_set_trap_exit b P)" "F (snd (handle_send d P))"
    "F (P\<lparr> pr_mailbox := ms \<rparr>)" "F (P\<lparr> pr_closed := True \<rparr>)" "F (link_effect q reason P)"
    "F (fold (monitor_effect q reason) rs P)"
  using assms
  by (auto simp: flag_def handle_add_link_def handle_remove_link_def handle_add_monitor_def handle_remove_monitor_def
      handle_add_monitored_by_def handle_remove_monitored_by_def handle_mark_terminated_def handle_set_trap_exit_def
      handle_send_def link_effect_fields monitor_effects_fields)

lemma marked_update:
  "(\<And>P. F P \<Longrightarrow> F (f P)) \<Longrightarrow> marked F p s \<Longrightarrow> marked F p (rt_update q f s)"
  by (auto simp: marked_def)

lemma marked_handle_send: "flag F \<Longrightarrow> marked F p s \<Longrightarrow> marked F p (snd (rt_handle_send q d s))"
  by (auto simp: marked_def flag_kept)

lemma marked_send_raw: "flag F \<Longrightarrow> marked F p s \<Longrightarrow> marked F p (snd (rt_send_raw q d s))"
  by (auto simp: rt_send_raw_def marked_handle_send split: option.split)
    (simp add: marked_def rt_get_def)

lemma marked_spawn:
  assumes "rt_inv s" "marked F p s"
  shows "marked F p (snd (rt_spawn s))"
  using rt_spawn_fresh(1) [OF assms(1)] assms(2) by (auto simp: marked_def rt_spawn_get)

lemma marked_new_ref: "marked F p (snd (rt_new_ref s)) = marked F p s"
  by (simp add: marked_def rt_new_ref_rel)

lemma marked_exit:
  assumes inv: "rt_inv s" and m: "marked F p s" and F: "flag F" and task: "p \<noteq> q \<or> marked pr_terminated p s"
  shows "marked F p (handle_process_exit q reason s)"
proof -
  obtain P where P: "rt_get s p = Some P" "F P" using m by (auto simp: marked_def)
  show ?thesis
  proof (cases "\<exists>Q. rt_get s q = Some Q \<and> \<not> pr_terminated Q")
    case False
    then have "handle_process_exit q reason s = s" by (auto simp: handle_process_exit_def split: option.split)
    then show ?thesis using m by simp
  next
    case True
    then obtain Q where Q: "rt_get s q = Some Q" "\<not> pr_terminated Q" by blast
    have "p \<noteq> q" using task P Q by (auto simp: marked_def)
    moreover have "distinct (pr_links Q)" using rt_invD(2) [OF inv Q(1)] by (simp add: proc_ok_def)
    ultimately show ?thesis
      using process_exit_get [OF Q _ _ registered_local [OF inv P(1)]] P by (auto simp: marked_def flag_kept [OF F])
  qed
qed

text \<open>Only the end of its own task can take a process out of the table.\<close>

lemma marked_step:
  assumes "rt_step s s'" "rt_inv s" "marked F p s" and F: "flag F"
    and task: "marked pr_terminated p s \<or> (\<forall>custom. s' \<noteq> rt_task_end p custom s)"
  shows "marked F p s'"
  using assms(1)
proof cases
  case spawn
  then show ?thesis using marked_spawn assms by simp
next
  case (spawn_link parent)
  then show ?thesis using marked_spawn [OF assms(2,3)] flag_kept [OF F]
    by (auto simp: rt_spawn_link_def split_def Let_def split: option.split intro!: marked_update)
next
  case (spawn_monitor watcher)
  then show ?thesis using marked_spawn [OF assms(2,3)] flag_kept [OF F]
    by (auto simp: rt_spawn_monitor_def split_def Let_def marked_new_ref split: option.split intro!: marked_update)
next
  case (link me other)
  then show ?thesis using assms(3) flag_kept [OF F]
    by (auto simp: ctx_link_def Let_def split: option.split intro!: marked_update)
next
  case (unlink me other)
  then show ?thesis using assms(3) flag_kept [OF F] by (auto simp: ctx_unlink_def intro!: marked_update)
next
  case (monitor me target)
  then show ?thesis using assms(3) flag_kept [OF F]
    by (auto simp: ctx_monitor_def Let_def split_def marked_new_ref split: option.split
        intro!: marked_update marked_send_raw [OF F])
next
  case (demonitor me r)
  then show ?thesis using assms(3) flag_kept [OF F]
    by (auto simp: ctx_demonitor_def Let_def split: option.split intro!: marked_update)
next
  case (exit target reason me)
  then show ?thesis using assms(3) flag_kept [OF F]
    by (auto simp: ctx_exit_def marked_handle_send [OF F] split: option.split intro!: marked_update)
next
  case (handle_exit target reason)
  then show ?thesis using assms(3) flag_kept [OF F] by (auto simp: rt_exit_def split: option.split intro!: marked_update)
next
  case (trap me b)
  then show ?thesis using assms(3) flag_kept [OF F] by (auto simp: ctx_set_trap_exit_def intro!: marked_update)
next
  case (send target d)
  then show ?thesis using assms(3) by (simp add: marked_send_raw [OF F])
next
  case (recv me)
  then show ?thesis using assms(3) flag_kept [OF F]
    by (auto simp: ctx_recv_def split: option.split list.split intro!: marked_update)
next
  case (name n target)
  then show ?thesis using assms(3) by (auto simp: rt_register_name_def marked_def rt_get_def)
next
  case (unname n)
  then show ?thesis using assms(3) by (auto simp: rt_unregister_name_def marked_def rt_get_def)
next
  case (task_end q custom)
  let ?s = "rt_update q (\<lambda>q. q\<lparr> pr_closed := True \<rparr>) s"
  have "marked F p ?s" by (rule marked_update [OF _ assms(3)]) (rule flag_kept [OF F])
  moreover have "p \<noteq> q \<or> marked pr_terminated p ?s"
    using task task_end marked_update [of pr_terminated "\<lambda>q. q\<lparr> pr_closed := True \<rparr>" p s q] by auto
  ultimately show ?thesis using assms(2)
    by (simp add: task_end rt_task_end_def marked_exit [OF _ _ F] rt_inv_quiet)
next
  case (task_panic q)
  then show ?thesis using assms(3) flag_kept [OF F] by (auto simp: rt_task_panic_def intro!: marked_update)
qed

text \<open>A process that another one kills, or exits with an abnormal reason it does not trap, is never
  announced and never removed.  The signal sets its terminated flag and nothing else.  From then on,
  whatever happens, it stays registered with that flag, and the end of its task changes no other
  process: no linked process gets an exit, no watcher a \<open>Down\<close>, and its names stay taken.\<close>

lemma flagged_process_never_announced:
  assumes "rt_reachable s" "rt_get s t = Some T" "is_killed reason \<or> \<not> pr_trap_exit T \<and> is_abnormal reason"
    and "ctx_exit me t reason s = (res, s1)" "rt_step\<^sup>*\<^sup>* s1 s2"
  shows "(\<forall>q. q \<noteq> t \<longrightarrow> rt_get s1 q = rt_get s q) \<and> \<not> rt_alive t s1 \<and> registered s2 t \<and>
    (\<forall>q. q \<noteq> t \<longrightarrow> rt_get (rt_task_end t custom s2) q = rt_get s2 q) \<and>
    registered (rt_task_end t custom s2) t \<and> rt_names (rt_task_end t custom s2) = rt_names s2"
proof -
  have s1: "s1 = rt_update t (handle_mark_terminated reason) s"
    using assms(2-4) by (auto simp: ctx_exit_def is_abnormal_def split: if_splits)
  have "rt_reachable s1"
    using rt_reachable.step [OF assms(1) rt_step.exit [of s me t reason]] assms(4) by simp
  then have inv1: "rt_inv s1" by (rule rt_reachable_inv)
  have m1: "marked pr_terminated t s1" using assms(2) by (simp add: marked_def s1 handle_mark_terminated_def)
  have "rt_inv s2 \<and> marked pr_terminated t s2"
    using assms(5)
    by (induction rule: rtranclp_induct) (use inv1 m1 in \<open>auto intro: rt_inv_step marked_step simp: flag_def\<close>)
  then obtain P where P: "rt_get s2 t = Some P" "pr_terminated P" by (auto simp: marked_def)
  have "rt_task_end t custom s2 = rt_update t (\<lambda>q. q\<lparr> pr_closed := True \<rparr>) s2"
    using P by (simp add: rt_task_end_def handle_process_exit_def)
  then show ?thesis
    using P assms(2) by (simp add: s1 registered_def rt_alive_def handle_is_alive_def handle_mark_terminated_def)
qed

section \<open>Panics\<close>

text \<open>What other tasks do: any step but the end of the task of \<open>p\<close>, which is gone.\<close>

definition step_without :: "pid \<Rightarrow> runtime \<Rightarrow> runtime \<Rightarrow> bool" where
  "step_without p s s' \<longleftrightarrow> rt_step s s' \<and> (\<forall>custom. s' \<noteq> rt_task_end p custom s)"

text \<open>C5. A panic goes unnoticed.  When the task of a process panics, no other process changes: linked
  processes get no exit, watchers no \<open>Down\<close>, so that no supervisor restarts it.  The process counts as
  alive and keeps its names; sending to it fails.  Nothing that happens later takes it out of the table
  or opens its mailbox again.\<close>

theorem panic_unnoticed:
  assumes "rt_reachable s" "rt_get s p = Some P" "\<not> pr_terminated P" "s1 = rt_task_panic p s" "(step_without p)\<^sup>*\<^sup>* s1 s2"
  shows "(\<forall>q. q \<noteq> p \<longrightarrow> rt_get s1 q = rt_get s q) \<and> rt_names s1 = rt_names s \<and> rt_alive p s1 \<and>
    registered s2 p \<and> fst (rt_handle_send p data s2) = Inl ProcessTerminated"
proof -
  have "rt_reachable s1" unfolding assms(4) by (rule rt_reachable.step [OF assms(1) rt_step.task_panic])
  then have inv1: "rt_inv s1" by (rule rt_reachable_inv)
  have m1: "marked pr_closed p s1" using assms(2) by (simp add: marked_def assms(4) rt_task_panic_def)
  have "rt_inv s2 \<and> marked pr_closed p s2"
    using assms(5)
    by (induction rule: rtranclp_induct) (use inv1 m1 in \<open>auto intro: rt_inv_step marked_step simp: flag_def step_without_def\<close>)
  then show ?thesis
    using assms(2,3) by (auto simp: assms(4) rt_task_panic_def marked_def registered_def rt_alive_def
        handle_is_alive_def rt_handle_send_def handle_send_def)
qed

text \<open>Process 1 has a link to process 2 and to process 0, which monitors it; it panics.\<close>

theorem panic_unnoticed_witness:
  "rt_get (rt_task_panic (ex_p 1) ex_rt) (ex_p 0) = rt_get ex_rt (ex_p 0) \<and> rt_alive (ex_p 1) (rt_task_panic (ex_p 1) ex_rt) \<and>
   fst (rt_handle_send (ex_p 1) (PData [7]) (rt_task_panic (ex_p 1) ex_rt)) = Inl ProcessTerminated"
proof -
  have "\<not> pr_terminated (proc_new\<lparr> pr_links := [ex_p 2, ex_p 0], pr_monitored_by := [(0, ex_p 0)] \<rparr>)"
    by (simp add: proc_new_def)
  from panic_unnoticed [OF ex_rt_reachable ex_rt_get(2) this refl rtranclp.rtrancl_refl]
  show ?thesis by (simp add: ex_p_def)
qed

end
