(* ===== verification/Via.thy ===== *)
theory Via
  imports Runtime
begin

text \<open>
  Names of servers (\<open>gen_server/via.rs\<close>) and how a call finds its server (\<open>gen_server/server_ref.rs\<close>).
  A registry of the user's own, \<open>dyn ViaRegistry\<close>, has its state outside the runtime: what it answers
  is an argument.
\<close>

text \<open>The check and the registration are two calls; the result of the second is not looked at.  The flag
  is whether the name was free.\<close>

definition name_register :: "(string \<Rightarrow> pid \<Rightarrow> bool) \<Rightarrow> name \<Rightarrow> pid \<Rightarrow> runtime \<Rightarrow> bool \<times> runtime" where
  "name_register via n p s =
    (case n of
       NLocal x \<Rightarrow> if rt_whereis x s \<noteq> None then (False, s) else (True, snd (rt_register_name x p s))
     | NGlobal x \<Rightarrow> if rt_whereis x s \<noteq> None then (False, s) else (True, snd (rt_register_name x p s))
     | NVia x \<Rightarrow> (via x p, s))"

definition name_unregister :: "name \<Rightarrow> runtime \<Rightarrow> runtime" where
  "name_unregister n s =
    (case n of
       NLocal x \<Rightarrow> snd (rt_unregister_name x s)
     | NGlobal x \<Rightarrow> snd (rt_unregister_name x s)
     | NVia x \<Rightarrow> s)"

datatype server_ref = SrvPid pid | SrvName string | SrvVia string

definition server_ref_of_name :: "name \<Rightarrow> server_ref" where
  "server_ref_of_name n = (case n of NLocal x \<Rightarrow> SrvName x | NGlobal x \<Rightarrow> SrvName x | NVia x \<Rightarrow> SrvVia x)"

definition resolve_ref :: "(string \<Rightarrow> pid option) \<Rightarrow> server_ref \<Rightarrow> runtime \<Rightarrow> pid option" where
  "resolve_ref via r s =
    (case r of SrvPid p \<Rightarrow> Some p | SrvName x \<Rightarrow> rt_whereis x s | SrvVia x \<Rightarrow> via x)"

lemma rt_get_name_register [simp]: "rt_get (snd (name_register via n p s)) q = rt_get s q"
  by (simp add: name_register_def rt_register_name_def rt_get_def split: name.split)

lemma rt_get_name_unregister [simp]: "rt_get (name_unregister n s) q = rt_get s q"
  by (simp add: name_unregister_def rt_unregister_name_def rt_get_def split: name.split)

lemma rt_local_names [simp]:
  "rt_local (snd (name_register via n p s)) q = rt_local s q" "rt_local (name_unregister n s) q = rt_local s q"
  by (simp_all add: name_register_def name_unregister_def rt_register_name_def rt_unregister_name_def rt_local_def
      split: name.split)

text \<open>A name that was registered resolves to its process, one that was taken stays with the other.\<close>

lemma resolve_registered:
  assumes "name_register via n p s = (ok, s')" "\<forall>x. n \<noteq> NVia x"
  shows "ok \<longleftrightarrow> resolve_ref w (server_ref_of_name n) s = None"
    "resolve_ref w (server_ref_of_name n) s' = (if ok then Some p else resolve_ref w (server_ref_of_name n) s)"
  using assms
  by (cases n; auto simp: name_register_def server_ref_of_name_def resolve_ref_def rt_register_name_def rt_whereis_def
      hm_contains_def split: if_splits)+

end
