(* ===== verification/Sup_Runtime.thy ===== *)
theory Sup_Runtime
  imports Sup_Loop Runtime_Inv Via
begin

text \<open>
  The process runtime as the surroundings of a supervisor.  The world is the runtime state with a
  clock.  While the supervisor sleeps the other processes run: a schedule chooses which operations of
  the runtime they perform.  This provides \<open>child_world\<close>, and the guarantees of supervisors become
  theorems about supervisors on the runtime.
\<close>

section \<open>What other processes can do\<close>

datatype rt_action =
    DoSpawn | DoSpawnLink pid | DoSpawnMonitor pid | DoLink pid pid | DoUnlink pid pid | DoMonitor pid pid
  | DoDemonitor pid ref | DoExit pid pid exit_reason | DoHandleExit pid exit_reason | DoTrap pid bool
  | DoSend pid payload | DoRecv pid | DoName string pid | DoUnname string | DoTaskEnd pid "exit_reason option"

text \<open>A process identifier is handed out only while the counter has room.\<close>

fun act :: "rt_action \<Rightarrow> runtime \<Rightarrow> runtime" where
  "act DoSpawn s = (if ps_counter (rt_pids s) = - 1 then s else snd (rt_spawn s))"
| "act (DoSpawnLink parent) s = (if ps_counter (rt_pids s) = - 1 then s else snd (rt_spawn_link parent s))"
| "act (DoSpawnMonitor watcher) s = (if ps_counter (rt_pids s) = - 1 then s else snd (rt_spawn_monitor watcher s))"
| "act (DoLink me other) s = snd (ctx_link me other s)"
| "act (DoUnlink me other) s = ctx_unlink me other s"
| "act (DoMonitor me target) s = snd (ctx_monitor me target s)"
| "act (DoDemonitor me r) s = ctx_demonitor me r s"
| "act (DoExit me target reason) s = snd (ctx_exit me target reason s)"
| "act (DoHandleExit target reason) s = snd (rt_exit target reason s)"
| "act (DoTrap me b) s = snd (ctx_set_trap_exit me b s)"
| "act (DoSend target d) s = snd (rt_send_raw target d s)"
| "act (DoRecv me) s = snd (ctx_recv me s)"
| "act (DoName n target) s = snd (rt_register_name n target s)"
| "act (DoUnname n) s = snd (rt_unregister_name n s)"
| "act (DoTaskEnd p custom) s = rt_task_end p custom s"

section \<open>The dead stay dead\<close>

definition rt_keeps :: "runtime \<Rightarrow> runtime \<Rightarrow> bool" where
  "rt_keeps s s' \<longleftrightarrow> (\<forall>p. allocated s p \<longrightarrow> allocated s' p \<and> (\<not> rt_alive p s \<longrightarrow> \<not> rt_alive p s'))"

lemma keeps_refl [simp]: "rt_keeps s s"
  by (simp add: rt_keeps_def)

lemma keeps_trans [trans]: "rt_keeps s s1 \<Longrightarrow> rt_keeps s1 s2 \<Longrightarrow> rt_keeps s s2"
  unfolding rt_keeps_def by blast

lemma keeps_cong:
  assumes "rt_procs s' = rt_procs s" "rt_pids s' = rt_pids s"
  shows "rt_keeps s s'"
  by (simp add: rt_keeps_def allocated_def rt_local_def rt_alive_def rt_get_def assms)

lemma keeps_update: "(\<And>P. pr_terminated P \<Longrightarrow> pr_terminated (f P)) \<Longrightarrow> rt_keeps s (rt_update p f s)"
  by (auto simp: rt_keeps_def allocated_def rt_alive_def handle_is_alive_def split: option.splits)

lemma keeps_handle_send: "rt_keeps s (snd (rt_handle_send p d s))"
  by (simp add: rt_handle_send_eq keeps_update split: option.split)

lemma keeps_send_raw: "rt_keeps s (snd (rt_send_raw p d s))"
  by (simp add: rt_send_raw_def keeps_handle_send keeps_cong split: option.split)

lemma keeps_new_ref: "rt_keeps s (snd (rt_new_ref s))"
  by (simp add: rt_new_ref_def keeps_cong)

lemma keeps_unregister: "rt_keeps s (rt_unregister p s)"
  by (simp add: rt_keeps_def rt_alive_def rt_get_unregister)
    (simp add: rt_unregister_def allocated_def rt_local_def)

lemma keeps_spawn:
  assumes room: "ps_counter (rt_pids s) \<noteq> - 1"
  shows "rt_keeps s (snd (rt_spawn s))"
proof -
  have fresh: "\<not> allocated s (fst (rt_spawn s))" by (subst rt_spawn_eq) (simp add: allocated_def)
  have "rt_alive p (snd (rt_spawn s)) = rt_alive p s" if "allocated s p" for p
    using that fresh by (auto simp: rt_alive_def rt_spawn_get)
  then show ?thesis using rt_spawn_allocated(1) [OF room] by (simp add: rt_keeps_def)
qed

lemma keeps_fold: "(\<And>x s. rt_keeps s (f x s)) \<Longrightarrow> rt_keeps s (fold f xs s)"
  by (induction xs arbitrary: s) (auto intro: keeps_trans)

lemma keeps_let_update:
  "rt_keeps s0 s \<Longrightarrow> (\<And>P. pr_terminated P \<Longrightarrow> pr_terminated (f P)) \<Longrightarrow> rt_keeps s0 (rt_update p f s)"
  using keeps_trans keeps_update by blast

lemma keeps_notify_link: "rt_keeps s (notify_link p reason l s)"
  by (auto simp: notify_link_def Let_def split: option.split
      intro!: keeps_let_update keeps_trans [OF _ keeps_handle_send])

lemma keeps_notify_monitor: "rt_keeps s (notify_monitor p reason m s)"
  by (auto simp: notify_monitor_def split: option.split prod.split
      intro!: keeps_let_update keeps_trans [OF _ keeps_handle_send])

lemma keeps_process_exit: "rt_keeps s (handle_process_exit p reason s)"
proof (cases "\<exists>q. rt_get s p = Some q \<and> \<not> pr_terminated q")
  case False
  then have "handle_process_exit p reason s = s" by (auto simp: handle_process_exit_def split: option.split)
  then show ?thesis by simp
next
  case True
  then obtain q where q: "rt_get s p = Some q" "\<not> pr_terminated q" by blast
  let ?s3 = "fold (notify_monitor p reason) (pr_monitored_by q)
    (fold (notify_link p reason) (pr_links q) (rt_update p (handle_mark_terminated reason) s))"
  let ?s4 = "?s3\<lparr> rt_reported_down := (if rt_distributed ?s3 then rt_reported_down ?s3 @ [(p, reason)]
      else rt_reported_down ?s3), rt_store_cleanup := rt_store_cleanup ?s3 @ [(p, reason)] \<rparr>"
  have "rt_keeps s (rt_update p (handle_mark_terminated reason) s)" by (rule keeps_update) simp
  also have "rt_keeps \<dots> (fold (notify_link p reason) (pr_links q) (rt_update p (handle_mark_terminated reason) s))"
    by (rule keeps_fold) (rule keeps_notify_link)
  also have "rt_keeps \<dots> ?s3" by (rule keeps_fold) (rule keeps_notify_monitor)
  also have "rt_keeps \<dots> ?s4" by (rule keeps_cong) simp_all
  also have "rt_keeps \<dots> (rt_unregister p ?s4)" by (rule keeps_unregister)
  finally show ?thesis using q by (simp add: handle_process_exit_def Let_def)
qed

lemma keeps_ctx:
  "rt_keeps s (snd (ctx_link me other s))" "rt_keeps s (ctx_unlink me other s)"
  "rt_keeps s (snd (ctx_monitor me target s))" "rt_keeps s (ctx_demonitor me r s)"
  "rt_keeps s (snd (ctx_exit me target reason s))" "rt_keeps s (snd (rt_exit target reason s))"
  "rt_keeps s (snd (ctx_set_trap_exit me b s))" "rt_keeps s (snd (ctx_recv me s))"
  by (auto simp: ctx_link_def ctx_unlink_def ctx_monitor_def ctx_demonitor_def ctx_exit_def rt_exit_def
      ctx_set_trap_exit_def ctx_recv_def Let_def split_def keeps_handle_send keeps_new_ref split: option.split list.split
      intro!: keeps_let_update keeps_trans [OF _ keeps_send_raw])

lemma keeps_act: "rt_keeps s (act a s)"
proof (cases a)
  case DoSpawn
  then show ?thesis by (simp add: keeps_spawn)
next
  case (DoSpawnLink parent)
  then show ?thesis
    by (auto simp: rt_spawn_link_def split_def Let_def keeps_spawn split: option.split intro!: keeps_let_update)
next
  case (DoSpawnMonitor watcher)
  then show ?thesis
    by (auto simp: rt_spawn_monitor_def split_def Let_def split: option.split
        intro!: keeps_let_update keeps_trans [OF keeps_spawn keeps_new_ref])
next
  case (DoTaskEnd p custom)
  then show ?thesis by (auto simp: rt_task_end_def intro!: keeps_trans [OF keeps_update keeps_process_exit])
qed (simp_all add: keeps_ctx keeps_send_raw keeps_cong rt_register_name_def rt_unregister_name_def)

section \<open>The surroundings of a supervisor on the runtime\<close>

record rworld =
  rw_rt :: runtime
  rw_now :: int
  rw_exit_reason :: "exit_reason option"

type_synonym schedule = "int \<Rightarrow> rworld \<Rightarrow> rt_action list"

text \<open>Global names behave as local ones; a \<open>Via\<close> name is answered by the user's object.\<close>

text \<open>The parameters are the schedule, the encoding of replies, the user's registries and the wording
  of errors.\<close>

definition rt_env :: "schedule \<Rightarrow> (ref \<Rightarrow> sup_reply \<Rightarrow> byte list) \<Rightarrow> (string \<Rightarrow> pid \<Rightarrow> bool) \<Rightarrow>
    (send_error \<Rightarrow> string) \<Rightarrow> rworld env" where
  "rt_env sched enc via err = \<lparr>
     e_monitor = (\<lambda>me p w. case ctx_monitor me p (rw_rt w) of
        (Inl e, s) \<Rightarrow> (Inl (err e), w\<lparr> rw_rt := s \<rparr>) | (Inr r, s) \<Rightarrow> (Inr r, w\<lparr> rw_rt := s \<rparr>)),
     e_demonitor = (\<lambda>me r w. w\<lparr> rw_rt := ctx_demonitor me r (rw_rt w) \<rparr>),
     e_exit = (\<lambda>me p reason w. w\<lparr> rw_rt := snd (ctx_exit me p reason (rw_rt w)) \<rparr>),
     e_alive = (\<lambda>p w. rt_alive p (rw_rt w)),
     e_now = rw_now,
     e_sleep = (\<lambda>d w. w\<lparr> rw_now := rw_now w + d, rw_rt := fold act (sched d w) (rw_rt w) \<rparr>),
     e_set_exit_reason = (\<lambda>reason w. w\<lparr> rw_exit_reason := Some reason \<rparr>),
     e_register_name = (\<lambda>n p w. let (ok, s) = name_register via n p (rw_rt w) in (ok, w\<lparr> rw_rt := s \<rparr>)),
     e_unregister_name = (\<lambda>n w. w\<lparr> rw_rt := name_unregister n (rw_rt w) \<rparr>),
     e_reply = (\<lambda>p r x w. w\<lparr> rw_rt := snd (rt_send_raw p (PData (enc r x)) (rw_rt w)) \<rparr>) \<rparr>"

definition rt_known :: "rworld \<Rightarrow> pid set" where
  "rt_known w = {p. allocated (rw_rt w) p}"

lemma rt_env_alive [simp]: "e_alive (rt_env sched enc via err) p w = rt_alive p (rw_rt w)"
  by (simp add: rt_env_def)

lemma world_step_keeps:
  "world_step (rt_env sched enc via err) rt_known w w' \<longleftrightarrow> rt_keeps (rw_rt w) (rw_rt w')"
  by (auto simp: world_step_def rt_keeps_def rt_known_def rt_env_def)

lemma keeps_names:
  "rt_keeps s (snd (name_register via n p s))" "rt_keeps s (name_unregister n s)"
  by (auto simp: name_register_def name_unregister_def rt_register_name_def rt_unregister_name_def keeps_cong
      split: name.split)

interpretation rtw: child_world "rt_env sched enc via err" rt_known for sched enc via err
proof
  show "\<not> e_alive (rt_env sched enc via err) p (e_exit (rt_env sched enc via err) me p Killed w)" for p me w
    by (auto simp: rt_env_def rt_alive_def ctx_exit_def handle_is_alive_def split: option.split)
  show "e_now (rt_env sched enc via err) w + d \<le> e_now (rt_env sched enc via err) (e_sleep (rt_env sched enc via err) d w)" for w d
    by (simp add: rt_env_def)
qed (simp_all add: world_step_keeps,
     auto simp: rt_env_def split_def Let_def keeps_ctx keeps_names keeps_send_raw intro: keeps_fold keeps_act
       split: sum.split prod.split)

section \<open>Start functions on the runtime\<close>

text \<open>The start function that spawns a process, as \<open>gen_server::start\<close> and its kin end up doing.\<close>

definition start_spawn :: "rworld \<Rightarrow> (start_child_error + pid) \<times> rworld" where
  "start_spawn w =
    (if ps_counter (rt_pids (rw_rt w)) = - 1 then (Inl (ChildStartFailed ''no process identifiers left''), w)
     else (let (p, s) = rt_spawn (rw_rt w) in (Inr p, w\<lparr> rw_rt := s \<rparr>)))"

definition start_fail :: "string \<Rightarrow> rworld \<Rightarrow> (start_child_error + pid) \<times> rworld" where
  "start_fail msg w = (Inl (ChildStartFailed msg), w)"

lemma start_spawn_ok: "start_ok (rt_env sched enc via err) rt_known start_spawn"
  unfolding start_ok_def
proof (intro allI impI)
  fix w r w' assume st: "start_spawn w = (r, w')"
  show "world_step (rt_env sched enc via err) rt_known w w' \<and> (\<forall>p. r = Inr p \<longrightarrow> p \<notin> rt_known w \<and> p \<in> rt_known w')"
  proof (cases "ps_counter (rt_pids (rw_rt w)) = - 1")
    case True
    then show ?thesis using st by (auto simp: start_spawn_def)
  next
    case False
    have fresh: "\<not> allocated (rw_rt w) (fst (rt_spawn (rw_rt w)))"
      by (subst rt_spawn_eq) (simp add: allocated_def)
    have "r = Inr (fst (rt_spawn (rw_rt w)))" "w' = w\<lparr> rw_rt := snd (rt_spawn (rw_rt w)) \<rparr>"
      using st False by (auto simp: start_spawn_def split_def Let_def)
    then show ?thesis
      using keeps_spawn [OF False] rt_spawn_allocated(2) [OF False] fresh
      by (simp add: world_step_keeps rt_known_def)
  qed
qed

lemma start_fail_ok: "start_ok (rt_env sched enc via err) rt_known (start_fail msg)"
  by (simp add: start_ok_def start_fail_def)

end
