(* ===== verification/Sup_Claims.thy ===== *)
theory Sup_Claims
  imports Sup_Runtime
begin

text \<open>
  The guarantees of supervisors on the runtime, for every schedule of the other processes: the facts
  of the contract \<open>child_world\<close> read off its interpretation in \<open>Sup_Runtime\<close>, what a client of the
  commands sees, and what the supervisor does not guarantee.
\<close>

section \<open>A small supervisor for the witnesses\<close>

definition ex_env :: "rworld env" where
  "ex_env = rt_env (\<lambda>_ _. []) (\<lambda>_ _. []) (\<lambda>_ _. True) (\<lambda>_. [])"

definition ex_world :: rworld where
  "ex_world = \<lparr> rw_rt = snd (rt_spawn (runtime_new ex_src)), rw_now = 0, rw_exit_reason = None \<rparr>"

definition ex_spec :: "string \<Rightarrow> shutdown_type \<Rightarrow> rworld child_spec" where
  "ex_spec cid sh = (child_spec_new cid start_spawn)\<lparr> cs_shutdown := sh \<rparr>"

definition ex_specs :: "rworld child_spec list" where
  "ex_specs = [ex_spec ''a'' BrutalKill, ex_spec ''b'' (ShutdownTimeout 0), ex_spec ''c'' BrutalKill]"

definition ex_init :: "strategy \<Rightarrow> rworld child_spec list \<Rightarrow> rworld sup" where
  "ex_init st specs = sup_init (ex_p 0) (supervisor_flags_new st) specs None [] ex_world"

definition ex_sup :: "strategy \<Rightarrow> rworld child_spec list \<Rightarrow> rworld sup" where
  "ex_sup st specs = snd (the (sup_startup ex_env (ex_init st specs)))"

lemma ex_start_ok: "c \<in> set ex_specs \<Longrightarrow> start_ok ex_env rt_known (cs_start c)"
  by (auto simp: ex_specs_def ex_spec_def child_spec_new_def ex_env_def start_spawn_ok)

lemma ex_distinct: "distinct (map cs_id ex_specs)"
  by (simp add: ex_specs_def ex_spec_def child_spec_new_def)

lemma ex_started: "map_option fst (sup_startup ex_env (ex_init RestForOne ex_specs)) = Some True"
  by code_simp

lemma ex_startup: "sup_startup ex_env (ex_init RestForOne ex_specs) = Some (True, ex_sup RestForOne ex_specs)"
  using ex_started by (cases "sup_startup ex_env (ex_init RestForOne ex_specs)") (auto simp: ex_sup_def)

lemma ex_sup_ok: "sup_ok ex_env rt_known (ex_sup RestForOne ex_specs)"
proof -
  have "sup_ok ex_env rt_known (ex_init RestForOne ex_specs)"
    using ex_start_ok ex_distinct unfolding ex_init_def ex_env_def by (intro rtw.init_ok) auto
  from rtw.startup_ok [OF this [unfolded ex_env_def] _ ex_startup [unfolded ex_env_def]] show ?thesis
    unfolding ex_env_def ex_init_def using init_pid_of [OF ex_distinct] by blast
qed

section \<open>Invariant and strategies\<close>

text \<open>C2. The bookkeeping of a supervisor stays consistent in every run.  Started with distinct child
  identifiers and start functions that return new processes, whatever messages arrive and whatever
  the other processes do, the order lists exactly the children, every child is stored under its
  identifier, a child has a monitor exactly when it has a process, and the map from processes to
  identifiers is the inverse of the processes of the children.\<close>

theorem supervisor_invariant:
  assumes "distinct (map cs_id specs)"
    and "\<forall>c \<in> set specs. start_ok (rt_env sched enc via err) rt_known (cs_start c)"
    and "sup_startup (rt_env sched enc via err) (sup_init self flags specs name q w) = Some (True, s0)"
    and "sup_loop (rt_env sched enc via err) ms s0 = Some (go, s)"
  shows "distinct (s_order s) \<and> set (s_order s) = dom (hm_get (s_children s)) \<and>
    (\<forall>cid c. hm_get (s_children s) cid = Some c \<longrightarrow> cs_id (ch_spec c) = cid \<and> (ch_ref c = None \<longleftrightarrow> ch_pid c = None)) \<and>
    (\<forall>cid p. pid_of s cid = Some p \<longleftrightarrow> hm_get (s_pid_to_id s) p = Some cid)"
proof -
  have "sup_ok (rt_env sched enc via err) rt_known s0"
    using rtw.startup_ok [OF rtw.init_ok [OF assms(1,2)] _ assms(3)] init_pid_of [OF assms(1)] by blast
  from rtw.good_ok [OF conjunct1 [OF rtw.loop_result [OF this assms(4)]]] show ?thesis
    unfolding sup_ok_def by blast
qed

theorem supervisor_invariant_witness:
  "hm_get (s_pid_to_id (ex_sup RestForOne ex_specs)) (ex_p 2) = Some ''b''"
proof -
  have "sup_loop ex_env [] (ex_sup RestForOne ex_specs) = Some (True, ex_sup RestForOne ex_specs)" by simp
  from supervisor_invariant [OF ex_distinct _ ex_startup [unfolded ex_env_def ex_init_def] this [unfolded ex_env_def]]
  have "pid_of (ex_sup RestForOne ex_specs) ''b'' = Some (ex_p 2) \<longleftrightarrow>
      hm_get (s_pid_to_id (ex_sup RestForOne ex_specs)) (ex_p 2) = Some ''b''"
    using ex_start_ok unfolding ex_env_def by blast
  moreover have "pid_of (ex_sup RestForOne ex_specs) ''b'' = Some (ex_p 2)" by code_simp
  ultimately show ?thesis by blast
qed

text \<open>C3. A crash restarts what the strategy says and nothing else.  When the supervisor handles the exit
  of a child that is to be restarted, and neither the restart intensity nor a start function stops it, the
  affected children (the child itself; all children; the child and those after it in the start order) all
  run new processes and the processes the others had are dead, while every child that is not affected is
  exactly as it was.  Only the child that exited is asked for its restart type: its affected siblings are
  restarted whatever theirs says, also the temporary ones, which are documented as never restarted.\<close>

theorem restart_strategy_effect:
  fixes s s' :: "rworld sup"
  assumes "sup_ok (rt_env sched enc via err) rt_known s"
    and "hm_get (s_children s) cid = Some c" "ch_pid c = Some p" "should_restart (cs_restart (ch_spec c)) reason"
    and "sup_handle_child_exit (rt_env sched enc via err) p reason s = Some (Inr (), s')"
  defines "aff \<equiv> affected (sf_strategy (s_flags s)) (s_order s) cid"
  shows "(\<forall>j. j \<notin> aff \<longrightarrow> hm_get (s_children s') j = hm_get (s_children s) j) \<and>
    (\<forall>j \<in> aff. (\<exists>q. pid_of s' j = Some q \<and> \<not> allocated (rw_rt (s_world s)) q) \<and>
      (\<forall>q. j \<noteq> cid \<longrightarrow> pid_of s j = Some q \<longrightarrow> \<not> rt_alive q (rw_rt (s_world s'))))"
proof -
  have cid: "pid_of s cid = Some p" using assms(2,3) by (simp add: pid_of_def)
  note e = rtw.child_exit_effect [OF assms(1) cid assms(5)]
  have "others_same aff s s'" using e(1) by (simp add: aff_def)
  then show ?thesis
    using e(2) [OF assms(2,4) refl] by (auto simp: others_same_def aff_def rt_known_def rt_env_def)
qed

lemma ex_crash:
  "map_option fst (sup_handle_child_exit ex_env (ex_p 2) (Error ''crash'') (ex_sup RestForOne ex_specs)) = Some (Inr ())"
  "map_option (\<lambda>c. (ch_pid c, cs_restart (ch_spec c))) (hm_get (s_children (ex_sup RestForOne ex_specs)) ''b'') = Some (Some (ex_p 2), Permanent)"
  "affected (sf_strategy (s_flags (ex_sup RestForOne ex_specs))) (s_order (ex_sup RestForOne ex_specs)) ''b'' = {''b'', ''c''}"
  by code_simp+

theorem restart_strategy_effect_witness:
  "hm_get (s_children (snd (the (sup_handle_child_exit ex_env (ex_p 2) (Error ''crash'') (ex_sup RestForOne ex_specs))))) ''a'' =
     hm_get (s_children (ex_sup RestForOne ex_specs)) ''a''"
proof -
  obtain s' where s': "sup_handle_child_exit ex_env (ex_p 2) (Error ''crash'') (ex_sup RestForOne ex_specs) = Some (Inr (), s')"
    using ex_crash(1) by auto
  obtain c where c: "hm_get (s_children (ex_sup RestForOne ex_specs)) ''b'' = Some c" "ch_pid c = Some (ex_p 2)"
    "cs_restart (ch_spec c) = Permanent"
    using ex_crash(2) by auto
  have "should_restart (cs_restart (ch_spec c)) (Error ''crash'')" by (simp add: c(3) should_restart_def)
  from restart_strategy_effect [OF ex_sup_ok [unfolded ex_env_def] c(1,2) this s' [unfolded ex_env_def]] s'
  show ?thesis unfolding ex_crash(3) by simp
qed

text \<open>A crash of \<open>a\<close> restarts its temporary sibling \<open>t\<close>, which had process 2 and then has process 4.\<close>

definition ex_mixed :: "rworld child_spec list" where
  "ex_mixed = [ex_spec ''a'' BrutalKill, child_spec_restart Temporary (ex_spec ''t'' BrutalKill)]"

lemma temporary_sibling_restarted:
  "map_option (\<lambda>c. (ch_pid c, cs_restart (ch_spec c))) (hm_get (s_children (ex_sup OneForAll ex_mixed)) ''t'') = Some (Some (ex_p 2), Temporary)"
  "map_option (\<lambda>(r, s). (r, pid_of s ''t'')) (sup_handle_child_exit ex_env (ex_p 1) (Error ''crash'') (ex_sup OneForAll ex_mixed)) =
     Some (Inr (), Some (ex_p 4))"
  by code_simp+

section \<open>Shutting down\<close>

text \<open>C24. A supervisor leaves no child running.  When its loop ends, whichever way, no child has a
  process, and every process a child had at any earlier moment is dead, unless a \<open>Down\<close> message for
  it arrived in between.\<close>

theorem stopped_supervisor_leaves_no_child:
  assumes "sup_ok (rt_env sched enc via err) rt_known s"
    and "sup_loop (rt_env sched enc via err) ms s = Some (False, s')"
    and "pid_of s j = Some p" "\<forall>r reason. Some (MSystem (Down r p reason)) \<notin> set ms"
  shows "pid_of s' i = None \<and> \<not> rt_alive p (rw_rt (s_world s'))"
proof -
  note r = rtw.loop_result [OF assms(1,2)]
  have notin: "p \<notin> rtw.downs m" if "Some m \<in> set ms" for m
    using that assms(4) by (cases m rule: rtw.downs.cases) auto
  have "rtw.gives_up_dead sched enc via err (\<Union>m \<in> {m. Some m \<in> set ms}. rtw.downs m) s s'" "\<forall>j. pid_of s' j = None"
    using r by (simp_all add: rtw.good_def)
  moreover from this have "pid_of s' j = Some p \<or> \<not> e_alive (rt_env sched enc via err) p (s_world s')"
    using assms(3) notin unfolding rtw.gives_up_dead_def by blast
  ultimately show ?thesis by simp
qed

theorem stopped_supervisor_leaves_no_child_witness:
  "\<not> rt_alive (ex_p 2) (rw_rt (s_world (snd (the (sup_loop ex_env [Some (MSystem (Exit (ex_p 9) Normal))]
     (ex_sup RestForOne ex_specs))))))"
proof -
  let ?ms = "[Some (MSystem (Exit (ex_p 9) Normal))]"
  have "map_option fst (sup_loop ex_env ?ms (ex_sup RestForOne ex_specs)) = Some False" by code_simp
  then obtain s' where s': "sup_loop ex_env ?ms (ex_sup RestForOne ex_specs) = Some (False, s')" by auto
  have p: "pid_of (ex_sup RestForOne ex_specs) ''b'' = Some (ex_p 2)" by code_simp
  have "\<forall>r reason. Some (MSystem (Down r (ex_p 2) reason)) \<notin> set ?ms" by simp
  from stopped_supervisor_leaves_no_child [OF ex_sup_ok [unfolded ex_env_def] s' [unfolded ex_env_def] p this] s'
  show ?thesis by simp
qed

text \<open>C22. A supervisor never hangs unless a child may take forever.  If no child has the shutdown time
  \<open>Infinity\<close>, the supervisor gets through every sequence of messages, whatever the other processes do.\<close>

theorem supervisor_never_hangs:
  assumes "sup_ok (rt_env sched enc via err) rt_known s" "finite_shutdown s"
  shows "\<exists>go s'. sup_loop (rt_env sched enc via err) ms s = Some (go, s')"
  using rtw.loop_returns [OF assms] .

theorem supervisor_never_hangs_witness:
  "\<exists>go s'. sup_loop ex_env [Some (MSystem (Down 1 (ex_p 2) Killed)), None] (ex_sup RestForOne ex_specs) = Some (go, s')"
proof -
  have "list_all (\<lambda>(j, c). cs_shutdown (ch_spec c) \<noteq> Infinity) (s_children (ex_sup RestForOne ex_specs))"
    by code_simp
  then have "finite_shutdown (ex_sup RestForOne ex_specs)"
    by (auto simp: finite_shutdown_def list_all_iff dest: hm_get_in_set)
  from supervisor_never_hangs [OF ex_sup_ok [unfolded ex_env_def] this] show ?thesis
    unfolding ex_env_def by blast
qed

text \<open>A child that does not trap exits is not shut down at all.  The exit signal of a shutdown is
  \<open>Shutdown\<close>, which counts as normal and is ignored by a process that does not trap exits; so when such
  a child has the shutdown time \<open>Infinity\<close> and does not end by itself, terminating it never returns.\<close>

lemma infinite_shutdown_hangs:
  fixes s :: "rworld sup"
  assumes "hm_get (s_children s) cid = Some c" "ch_pid c = Some p" "cs_shutdown (ch_spec c) = Infinity"
    and "rt_get (rw_rt (s_world s)) p = Some P" "\<not> pr_terminated P" "\<not> pr_trap_exit P"
  shows "sup_terminate_child_by_id (rt_env (\<lambda>_ _. []) enc via err) cid s = None"
proof -
  let ?env = "rt_env (\<lambda>_ _. []) enc via err"
  let ?w0 = "case ch_ref c of Some r \<Rightarrow> e_demonitor ?env (s_self s) r (s_world s) | None \<Rightarrow> s_world s"
  let ?w1 = "e_exit ?env (s_self s) p Shutdown ?w0"
  have 0: "\<exists>P. rt_get (rw_rt ?w0) p = Some P \<and> \<not> pr_terminated P \<and> \<not> pr_trap_exit P"
    using assms(4-6) by (auto simp: rt_env_def ctx_demonitor_def Let_def handle_remove_monitor_def
        handle_remove_monitored_by_def split: option.split)
  then have w1: "\<exists>P. rt_get (rw_rt ?w1) p = Some P \<and> \<not> pr_terminated P"
    by (auto simp: rt_env_def ctx_exit_def is_abnormal_def)
  have sleep: "rw_rt ((e_sleep ?env (millis 10) ^^ n) w) = rw_rt w" for n w
    by (induction n) (simp_all add: rt_env_def)
  have "wait_loop ?env p None ?w1 = None"
    by (rule wait_loop_hangs) (use w1 in \<open>auto simp: rt_alive_def handle_is_alive_def sleep\<close>)
  then show ?thesis
    using assms(1-3) by (simp add: rtw.terminate_child_eq rtw.shut_def wait_for_termination_def)
qed

definition ex_hang :: "rworld sup" where
  "ex_hang = ex_sup OneForOne [ex_spec ''a'' Infinity]"

section \<open>What clients see\<close>

lemma strip_prefix_append [simp]: "strip_prefix p (p @ s) = Some s"
  by (simp add: strip_prefix_def)

lemma strip_prefix_differs: "take (length p) s \<noteq> p \<Longrightarrow> strip_prefix p s = None"
  by (simp add: strip_prefix_def)

text \<open>The result of a command reaches the caller as the error the supervisor meant.  Deleting
  reports exactly not found, still running or success; restarting reports exactly not found, already
  running, the wording of the start error, or the new process; terminating reports success or, for an
  unknown child, a \<open>NotFound\<close> that carries the sentence of the supervisor and not the identifier.\<close>

lemma command_results_roundtrip:
  "client_delete_child cid (Reply (fst (handle_delete_child_command cid s))) =
     (case hm_get (s_children s) cid of
        None \<Rightarrow> Inl (DeleteNotFound cid)
      | Some c \<Rightarrow> if ch_pid c = None then Inr () else Inl (DeleteRunning cid)) \<and>
   client_restart_child cid (Reply (fst (handle_restart_child_command env cid s))) =
     (case hm_get (s_children s) cid of
        None \<Rightarrow> Inl (RestartNotFound cid)
      | Some c \<Rightarrow>
         if ch_pid c \<noteq> None then Inl (RestartAlreadyRunning cid)
         else (case cs_start (ch_spec c) (s_world s) of
                 (Inl e, _) \<Rightarrow> Inl (RestartStartFailed (start_child_error_display e))
               | (Inr p, w) \<Rightarrow>
                  (case fst (e_monitor env (s_self s) p w) of
                     Inr _ \<Rightarrow> Inr p
                   | Inl e \<Rightarrow> client_restart_child cid (Reply (Inl e))))) \<and>
   map_option (\<lambda>(r, _). client_terminate_child cid (Reply r)) (handle_terminate_child_command env cid s) =
     (case hm_get (s_children s) cid of
        None \<Rightarrow> Some (Inl (TerminateNotFound (''child '' @ quoted cid @ '' not found'')))
      | Some _ \<Rightarrow> map_option (\<lambda>_. Inr ()) (sup_terminate_child_by_id env cid s))"
proof (intro conjI)
  have start: "strip_prefix ''already_running:'' (start_child_error_display e) = None"
    "strip_prefix ''not_found:'' (start_child_error_display e) = None" for e
    by (cases e; simp add: strip_prefix_def)+
  show "client_delete_child cid (Reply (fst (handle_delete_child_command cid s))) =
     (case hm_get (s_children s) cid of
        None \<Rightarrow> Inl (DeleteNotFound cid)
      | Some c \<Rightarrow> if ch_pid c = None then Inr () else Inl (DeleteRunning cid))"
    by (simp add: client_delete_child_def handle_delete_child_command_def strip_prefix_def split: option.split)
  show "client_restart_child cid (Reply (fst (handle_restart_child_command env cid s))) =
     (case hm_get (s_children s) cid of
        None \<Rightarrow> Inl (RestartNotFound cid)
      | Some c \<Rightarrow>
         if ch_pid c \<noteq> None then Inl (RestartAlreadyRunning cid)
         else (case cs_start (ch_spec c) (s_world s) of
                 (Inl e, _) \<Rightarrow> Inl (RestartStartFailed (start_child_error_display e))
               | (Inr p, w) \<Rightarrow>
                  (case fst (e_monitor env (s_self s) p w) of
                     Inr _ \<Rightarrow> Inr p
                   | Inl e \<Rightarrow> client_restart_child cid (Reply (Inl e)))))"
  proof (cases "hm_get (s_children s) cid")
    case None
    then show ?thesis by (simp add: client_restart_child_def handle_restart_child_command_def strip_prefix_def)
  next
    case (Some c)
    show ?thesis
    proof (cases "ch_pid c")
      case None
      then show ?thesis using Some
        by (auto simp: client_restart_child_def handle_restart_child_command_def sup_start_child_def start
            split: sum.split prod.split)
    next
      case pid: (Some p)
      then show ?thesis using Some
        by (simp add: client_restart_child_def handle_restart_child_command_def strip_prefix_def)
    qed
  qed
  show "map_option (\<lambda>(r, _). client_terminate_child cid (Reply r)) (handle_terminate_child_command env cid s) =
     (case hm_get (s_children s) cid of
        None \<Rightarrow> Some (Inl (TerminateNotFound (''child '' @ quoted cid @ '' not found'')))
      | Some _ \<Rightarrow> map_option (\<lambda>_. Inr ()) (sup_terminate_child_by_id env cid s))"
    by (cases "sup_terminate_child_by_id env cid s")
      (auto simp: client_terminate_child_def handle_terminate_child_command_def hm_contains_def split: option.split)
qed

text \<open>The counts a client reads describe the children.  After the supervisor has synchronised its
  registry entry, \<open>count_children\<close> returns the number of specifications, of children with a process,
  of supervisors and of workers; \<open>which_children\<close> lists every child once, with its process.\<close>

lemma counts_describe_children:
  "count_children (s_self s) (s_queries (sync_to_registry s)) = Some \<lparr>
     cc_specs = length (s_children s),
     cc_active = length (filter (\<lambda>(_, c). ch_pid c \<noteq> None) (s_children s)),
     cc_supervisors = length (filter (\<lambda>(_, c). cs_type (ch_spec c) = SupervisorChild) (s_children s)),
     cc_workers = length (filter (\<lambda>(_, c). cs_type (ch_spec c) = Worker) (s_children s)) \<rparr> \<and>
   which_children (s_self s) (s_queries (sync_to_registry s)) = Some (map (\<lambda>(_, c). query_of c) (s_children s))"
proof
  let ?step = "\<lambda>c counts. let counts = (if ci_pid c \<noteq> None then counts\<lparr> cc_active := cc_active counts + 1 \<rparr> else counts)
        in case ci_type c of
             Worker \<Rightarrow> counts\<lparr> cc_workers := cc_workers counts + 1 \<rparr>
           | SupervisorChild \<Rightarrow> counts\<lparr> cc_supervisors := cc_supervisors counts + 1 \<rparr>"
  have fold: "fold ?step (map (\<lambda>(_, c). query_of c) cs) k = k\<lparr>
     cc_active := cc_active k + length (filter (\<lambda>(_, c). ch_pid c \<noteq> None) cs),
     cc_supervisors := cc_supervisors k + length (filter (\<lambda>(_, c). cs_type (ch_spec c) = SupervisorChild) cs),
     cc_workers := cc_workers k + length (filter (\<lambda>(_, c). cs_type (ch_spec c) = Worker) cs) \<rparr>"
    for k and cs :: "(string \<times> 'a child_state) list"
    by (induction cs arbitrary: k) (auto simp: Let_def query_of_def split: child_type.splits)
  have vals: "hm_values (map (\<lambda>(cid, c). (cid, query_of c)) (s_children s)) = map (\<lambda>(_, c). query_of c) (s_children s)"
    by (simp add: hm_values_def case_prod_unfold)
  show "count_children (s_self s) (s_queries (sync_to_registry s)) = Some \<lparr>
     cc_specs = length (s_children s),
     cc_active = length (filter (\<lambda>(_, c). ch_pid c \<noteq> None) (s_children s)),
     cc_supervisors = length (filter (\<lambda>(_, c). cs_type (ch_spec c) = SupervisorChild) (s_children s)),
     cc_workers = length (filter (\<lambda>(_, c). cs_type (ch_spec c) = Worker) (s_children s)) \<rparr>"
    by (simp add: count_children_def sync_to_registry_def get_child_counts_def vals fold del: not_None_eq)
  show "which_children (s_self s) (s_queries (sync_to_registry s)) = Some (map (\<lambda>(_, c). query_of c) (s_children s))"
    by (simp add: which_children_def sync_to_registry_def get_which_children_def vals)
qed

section \<open>A failed start\<close>

text \<open>A supervisor that fails to start leaves the children it started running.  When starting the
  children fails part way, the supervisor ends with that reason, and every process, those of the
  children already started included, is alive or dead as it was when the failure occurred.\<close>

lemma startup_failure_leaves_children:
  assumes "sup_start_all (rt_env sched enc via err) s = (Inl reason, s1)"
  shows "\<exists>s'. sup_startup (rt_env sched enc via err) s = Some (False, s') \<and>
    rw_exit_reason (s_world s') = Some reason \<and> (\<forall>cid. pid_of s' cid = pid_of s1 cid) \<and>
    (\<forall>p. rt_alive p (rw_rt (s_world s')) = rt_alive p (rw_rt (s_world s1)))"
proof -
  let ?env = "rt_env sched enc via err"
  let ?s2 = "s1\<lparr> s_world := e_set_exit_reason ?env reason (s_world s1) \<rparr>"
  have names: "rt_alive p (name_unregister n rt) = rt_alive p rt" for p n rt
    by (simp add: name_unregister_def rt_unregister_name_def rt_alive_def rt_get_def split: name.split)
  have "sup_startup ?env s = Some (False, sup_cleanup ?env ?s2)"
    using assms by (simp add: sup_startup_def)
  moreover have "rw_exit_reason (s_world (sup_cleanup ?env ?s2)) = Some reason"
    "pid_of (sup_cleanup ?env ?s2) cid = pid_of s1 cid"
    "rt_alive p (rw_rt (s_world (sup_cleanup ?env ?s2))) = rt_alive p (rw_rt (s_world s1))" for cid p
    by (simp_all add: sup_cleanup_def sup_unregister_name_def unregister_from_registry_def pid_of_def rt_env_def names
        split: option.split)
  ultimately show ?thesis by blast
qed

definition ex_bad_specs :: "rworld child_spec list" where
  "ex_bad_specs = [ex_spec ''a'' BrutalKill, (ex_spec ''b'' BrutalKill)\<lparr> cs_start := start_fail ''boom'' \<rparr>]"

end
