(* ===== verification/Membership.thy ===== *)
theory Membership
  imports Core
begin

text \<open>
  The interface that the process registry (\<open>registry.rs\<close>) and the process groups
  (\<open>distribution/pg.rs\<close>) share: processes are members under keys, and an index leads back from a
  process to its keys.  The locale states what adding, removing and removing a process everywhere
  promise about the membership relation; inside it every sequence of operations is shown to refine
  the same sequence on a plain relation.  Below it is the code both use to shrink a collection.
\<close>

section \<open>Shrinking a collection under a key\<close>

text \<open>\<open>get_mut(k)\<close>, keep the elements that satisfy \<open>P\<close>, and remove the key if none is left.\<close>

definition hm_shrink :: "'k \<Rightarrow> ('e \<Rightarrow> bool) \<Rightarrow> ('k, 'e list) hmap \<Rightarrow> ('k, 'e list) hmap" where
  "hm_shrink k P m =
    (case hm_get m k of
       None \<Rightarrow> m
     | Some es \<Rightarrow> (let es' = filter P es in if es' = [] then hm_remove k m else hm_insert k es' m))"

lemma hm_at_shrink [simp]: "hm_at (hm_shrink k P m) j = (if j = k then filter P (hm_at m k) else hm_at m j)"
  by (auto simp: hm_shrink_def hm_at_def Let_def split: option.split)

lemma hm_ok_shrink [simp]: "hm_ok m \<Longrightarrow> hm_ok (hm_shrink k P m)"
  by (simp add: hm_shrink_def Let_def split: option.split)

lemma hm_tight_shrink [simp]: "hm_ok m \<Longrightarrow> hm_tight m \<Longrightarrow> hm_tight (hm_shrink k P m)"
  by (simp add: hm_shrink_def Let_def split: option.split)

lemma fold_shrink_ok: "hm_ok m \<Longrightarrow> hm_tight m \<Longrightarrow>
    hm_ok (fold (\<lambda>k. hm_shrink k P) ks m) \<and> hm_tight (fold (\<lambda>k. hm_shrink k P) ks m)"
  by (induction ks arbitrary: m) auto

lemma fold_shrink_at:
  "hm_at (fold (\<lambda>k. hm_shrink k P) ks m) j = (if j \<in> set ks then filter P (hm_at m j) else hm_at m j)"
  by (induction ks arbitrary: m) auto

text \<open>\<open>entry(k).or_default().insert(x)\<close> on a map of hash sets.\<close>

abbreviation hm_set_add :: "'k \<Rightarrow> 'e \<Rightarrow> ('k, 'e list) hmap \<Rightarrow> ('k, 'e list) hmap" where
  "hm_set_add k x m \<equiv> hm_entry k [] (List.insert x) m"

lemma insert_not_Nil [simp]: "List.insert x xs \<noteq> []"
  by (simp add: List.insert_def) auto

section \<open>The interface\<close>

datatype ('k, 'x) mem_op = Add 'k pid 'x | Remove 'k pid | RemoveAll pid

fun abs_op :: "(('k \<times> pid) set \<Rightarrow> 'k \<Rightarrow> bool) \<Rightarrow> ('k, 'x) mem_op \<Rightarrow> ('k \<times> pid) set \<Rightarrow> ('k \<times> pid) set" where
  "abs_op admits (Add k p x) M = (if admits M k then insert (k, p) M else M)"
| "abs_op admits (Remove k p) M = M - {(k, p)}"
| "abs_op admits (RemoveAll p) M = M - UNIV \<times> {p}"

locale membership_index =
  fixes inv :: "'s \<Rightarrow> bool"
    and members :: "'s \<Rightarrow> ('k \<times> pid) set"
    and keys_of :: "'s \<Rightarrow> pid \<Rightarrow> 'k list"
    and admits :: "('k \<times> pid) set \<Rightarrow> 'k \<Rightarrow> bool"
    and add :: "'k \<Rightarrow> pid \<Rightarrow> 'x \<Rightarrow> 's \<Rightarrow> 's"
    and remove :: "'k \<Rightarrow> pid \<Rightarrow> 's \<Rightarrow> 's"
    and remove_all :: "pid \<Rightarrow> 's \<Rightarrow> 's"
  assumes inv_add: "inv s \<Longrightarrow> inv (add k p x s)"
    and inv_remove: "inv s \<Longrightarrow> inv (remove k p s)"
    and inv_remove_all: "inv s \<Longrightarrow> inv (remove_all p s)"
    and members_add: "inv s \<Longrightarrow> members (add k p x s) = (if admits (members s) k then insert (k, p) (members s) else members s)"
    and members_remove: "inv s \<Longrightarrow> members (remove k p s) = members s - {(k, p)}"
    and members_remove_all: "inv s \<Longrightarrow> members (remove_all p s) = members s - UNIV \<times> {p}"
    and keys_of: "inv s \<Longrightarrow> set (keys_of s p) = {k. (k, p) \<in> members s}"
begin

fun do_op :: "('k, 'x) mem_op \<Rightarrow> 's \<Rightarrow> 's" where
  "do_op (Add k p x) s = add k p x s"
| "do_op (Remove k p) s = remove k p s"
| "do_op (RemoveAll p) s = remove_all p s"

lemma run_refines:
  assumes "inv s"
  shows "inv (fold do_op ops s) \<and> members (fold do_op ops s) = fold (abs_op admits) ops (members s)"
  using assms
proof (induction ops arbitrary: s)
  case (Cons op ops)
  have "inv (do_op op s)" "members (do_op op s) = abs_op admits op (members s)"
    using Cons.prems
    by (cases op; simp add: inv_add inv_remove inv_remove_all members_add members_remove members_remove_all)+
  then show ?case using Cons.IH by simp
qed simp

text \<open>A process removed everywhere is found nowhere, until it is added again.\<close>

lemma abs_added: "(k, p) \<in> fold (abs_op admits) ops M \<Longrightarrow> (k, p) \<in> M \<or> (\<exists>x. Add k p x \<in> set ops)"
proof (induction ops arbitrary: M)
  case (Cons op ops)
  from Cons.IH [of "abs_op admits op M"] Cons.prems show ?case
    by (cases op) (auto split: if_splits)
qed simp

lemma removed_stays_removed:
  assumes "inv s" "\<forall>k x. Add k p x \<notin> set later"
  shows "keys_of (fold do_op (ops @ RemoveAll p # later) s) p = []"
proof -
  let ?s = "fold do_op (ops @ RemoveAll p # later) s"
  have r: "inv ?s \<and> members ?s = fold (abs_op admits) (ops @ RemoveAll p # later) (members s)"
    by (rule run_refines [OF assms(1)])
  define M where "M = fold (abs_op admits) ops (members s) - UNIV \<times> {p}"
  have eq: "members ?s = fold (abs_op admits) later M" using r by (simp add: M_def)
  have "(k, p) \<notin> members ?s" for k
  proof
    assume "(k, p) \<in> members ?s"
    from abs_added [OF this [unfolded eq]] show False using assms(2) by (simp add: M_def)
  qed
  moreover have "set (keys_of ?s p) = {k. (k, p) \<in> members ?s}" by (rule keys_of) (use r in simp)
  ultimately have "set (keys_of ?s p) = {}" by simp
  then show ?thesis by simp
qed

end

end
