(* ===== verification/Registry.thy ===== *)
theory Registry
  imports Membership
begin

text \<open>
  The process registry (\<open>registry.rs\<close>): values registered by processes under keys, unique or
  duplicate, with the reverse index from processes to keys, and its adapter for \<open>Via\<close> names.  A
  \<open>HashSet\<close> of keys is a list without duplicates.
\<close>

datatype registry_type = Unique | Duplicate

record 'v entry =
  en_pid :: pid
  en_value :: 'v

datatype registry_error = AlreadyRegistered | RegistryNotFound

fun registry_error_display :: "registry_error \<Rightarrow> string" where
  "registry_error_display AlreadyRegistered = ''key already registered''"
| "registry_error_display RegistryNotFound = ''key not found''"

record ('k, 'v) registry =
  rg_name :: string
  rg_type :: registry_type
  rg_entries :: "('k, 'v entry list) hmap"
  rg_keys :: "(pid, 'k list) hmap"

definition new_unique :: "string \<Rightarrow> ('k, 'v) registry" where
  "new_unique name = \<lparr> rg_name = name, rg_type = Unique, rg_entries = [], rg_keys = [] \<rparr>"

definition new_duplicate :: "string \<Rightarrow> ('k, 'v) registry" where
  "new_duplicate name = \<lparr> rg_name = name, rg_type = Duplicate, rg_entries = [], rg_keys = [] \<rparr>"

definition registry_register :: "'k \<Rightarrow> pid \<Rightarrow> 'v \<Rightarrow> ('k, 'v) registry \<Rightarrow> (registry_error + unit) \<times> ('k, 'v) registry" where
  "registry_register key p v s =
    (let track = (\<lambda>s. s\<lparr> rg_keys := hm_set_add p key (rg_keys s) \<rparr>) in
     case rg_type s of
       Unique \<Rightarrow>
         if hm_contains key (rg_entries s) then (Inl AlreadyRegistered, s)
         else (Inr (), track (s\<lparr> rg_entries := hm_insert key [\<lparr> en_pid = p, en_value = v \<rparr>] (rg_entries s) \<rparr>))
     | Duplicate \<Rightarrow>
         (Inr (), track (s\<lparr> rg_entries := hm_entry key [] (\<lambda>es. es @ [\<lparr> en_pid = p, en_value = v \<rparr>]) (rg_entries s) \<rparr>)))"

definition registry_unregister :: "'k \<Rightarrow> pid \<Rightarrow> ('k, 'v) registry \<Rightarrow> ('k, 'v) registry" where
  "registry_unregister key p s =
    s\<lparr> rg_entries := hm_shrink key (\<lambda>e. en_pid e \<noteq> p) (rg_entries s),
       rg_keys := hm_shrink p (\<lambda>k. k \<noteq> key) (rg_keys s) \<rparr>"

definition registry_unregister_all :: "pid \<Rightarrow> ('k, 'v) registry \<Rightarrow> ('k, 'v) registry" where
  "registry_unregister_all p s =
    (case hm_get (rg_keys s) p of
       None \<Rightarrow> s
     | Some keys \<Rightarrow>
        s\<lparr> rg_keys := hm_remove p (rg_keys s),
           rg_entries := fold (\<lambda>key. hm_shrink key (\<lambda>e. en_pid e \<noteq> p)) keys (rg_entries s) \<rparr>)"

definition entry_pair :: "'v entry \<Rightarrow> pid \<times> 'v" where
  "entry_pair e = (en_pid e, en_value e)"

definition registry_lookup :: "'k \<Rightarrow> ('k, 'v) registry \<Rightarrow> (pid \<times> 'v) list" where
  "registry_lookup key s = (case hm_get (rg_entries s) key of None \<Rightarrow> [] | Some es \<Rightarrow> map entry_pair es)"

definition registry_lookup_one :: "'k \<Rightarrow> ('k, 'v) registry \<Rightarrow> (pid \<times> 'v) option" where
  "registry_lookup_one key s =
    (case hm_get (rg_entries s) key of
       None \<Rightarrow> None
     | Some es \<Rightarrow> (case es of [] \<Rightarrow> None | e # _ \<Rightarrow> Some (entry_pair e)))"

definition registry_keys :: "pid \<Rightarrow> ('k, 'v) registry \<Rightarrow> 'k list" where
  "registry_keys p s = (case hm_get (rg_keys s) p of None \<Rightarrow> [] | Some ks \<Rightarrow> ks)"

text \<open>What the callback of \<open>dispatch\<close> is called with, if it is called.\<close>

definition registry_dispatch :: "'k \<Rightarrow> ((pid \<times> 'v) list \<Rightarrow> 'r) \<Rightarrow> ('k, 'v) registry \<Rightarrow> 'r option" where
  "registry_dispatch key callback s =
    (case hm_get (rg_entries s) key of None \<Rightarrow> None | Some es \<Rightarrow> Some (callback (map entry_pair es)))"

definition registry_count :: "'k \<Rightarrow> ('k, 'v) registry \<Rightarrow> nat" where
  "registry_count key s = (case hm_get (rg_entries s) key of None \<Rightarrow> 0 | Some es \<Rightarrow> length es)"

definition registry_count_all :: "('k, 'v) registry \<Rightarrow> nat" where
  "registry_count_all s = sum_list (map length (hm_values (rg_entries s)))"

definition registry_has_key :: "'k \<Rightarrow> ('k, 'v) registry \<Rightarrow> bool" where
  "registry_has_key key s = hm_contains key (rg_entries s)"

definition registry_all_keys :: "('k, 'v) registry \<Rightarrow> 'k list" where
  "registry_all_keys s = hm_keys (rg_entries s)"

text \<open>The first entry of the process gets the new value; the old one is returned.\<close>

fun replace_first :: "pid \<Rightarrow> 'v \<Rightarrow> 'v entry list \<Rightarrow> 'v option \<times> 'v entry list" where
  "replace_first p v [] = (None, [])"
| "replace_first p v (e # es) =
    (if en_pid e = p then (Some (en_value e), e\<lparr> en_value := v \<rparr> # es)
     else (let (old, es') = replace_first p v es in (old, e # es')))"

definition registry_update_value :: "'k \<Rightarrow> pid \<Rightarrow> 'v \<Rightarrow> ('k, 'v) registry \<Rightarrow> 'v option \<times> ('k, 'v) registry" where
  "registry_update_value key p v s =
    (if rg_type s \<noteq> Unique then (None, s)
     else (case hm_get (rg_entries s) key of
             None \<Rightarrow> (None, s)
           | Some es \<Rightarrow> (fst (replace_first p v es), s\<lparr> rg_entries := hm_insert key (snd (replace_first p v es)) (rg_entries s) \<rparr>)))"

text \<open>The adapter that makes one key of a registry a name.\<close>

definition via_register :: "'k \<Rightarrow> 'v \<Rightarrow> pid \<Rightarrow> ('k, 'v) registry \<Rightarrow> bool \<times> ('k, 'v) registry" where
  "via_register key v p s =
    (case registry_register key p v s of (Inl _, s') \<Rightarrow> (False, s') | (Inr _, s') \<Rightarrow> (True, s'))"

definition via_unregister :: "'k \<Rightarrow> ('k, 'v) registry \<Rightarrow> ('k, 'v) registry" where
  "via_unregister key s =
    (case registry_lookup_one key s of None \<Rightarrow> s | Some (p, _) \<Rightarrow> registry_unregister key p s)"

definition via_whereis :: "'k \<Rightarrow> ('k, 'v) registry \<Rightarrow> pid option" where
  "via_whereis key s = map_option fst (registry_lookup_one key s)"

section \<open>The invariant\<close>

definition rg_members :: "('k, 'v) registry \<Rightarrow> ('k \<times> pid) set" where
  "rg_members s = {(k, p). p \<in> en_pid ` set (hm_at (rg_entries s) k)}"

definition rg_ok :: "('k, 'v) registry \<Rightarrow> bool" where
  "rg_ok s \<longleftrightarrow> hm_ok (rg_entries s) \<and> hm_ok (rg_keys s) \<and> hm_tight (rg_entries s) \<and> hm_tight (rg_keys s) \<and>
     (\<forall>k p. k \<in> set (hm_at (rg_keys s) p) \<longleftrightarrow> (k, p) \<in> rg_members s) \<and>
     (\<forall>p. distinct (hm_at (rg_keys s) p)) \<and>
     (rg_type s = Unique \<longrightarrow> (\<forall>k. length (hm_at (rg_entries s) k) \<le> 1))"

lemma new_ok: "rg_ok (new_unique name)" "rg_ok (new_duplicate name)"
  by (simp_all add: rg_ok_def new_unique_def new_duplicate_def rg_members_def)

lemma rg_contains: "rg_ok s \<Longrightarrow> hm_contains key (rg_entries s) \<longleftrightarrow> hm_at (rg_entries s) key \<noteq> []"
  by (auto simp: rg_ok_def hm_contains_def hm_tight_at)

lemma register_members:
  assumes "rg_ok s"
  shows "rg_members (snd (registry_register key p v s)) =
    (if rg_type s = Unique \<and> (\<exists>q. (key, q) \<in> rg_members s) then rg_members s else insert (key, p) (rg_members s))"
proof -
  have "hm_contains key (rg_entries s) \<longleftrightarrow> (\<exists>q. (key, q) \<in> rg_members s)"
    by (auto simp: rg_contains [OF assms] rg_members_def neq_Nil_conv)
  then show ?thesis
    by (auto simp: registry_register_def Let_def rg_members_def rg_contains [OF assms] split: registry_type.split if_splits)
qed

lemma register_ok:
  assumes ok: "rg_ok s"
  shows "rg_ok (snd (registry_register key p v s))"
proof -
  let ?s = "snd (registry_register key p v s)"
  have keep: ?thesis if "?s = s" using ok that by simp
  have "rg_ok ?s" if ne: "?s \<noteq> s"
  proof -
    have rk: "rg_keys ?s = hm_set_add p key (rg_keys s)" and ty: "rg_type ?s = rg_type s"
      using ne by (auto simp: registry_register_def Let_def split: registry_type.splits if_splits)
    have mem: "rg_members ?s = insert (key, p) (rg_members s)"
      using ne register_members [OF ok, of key p v] rg_contains [OF ok, of key]
      by (auto simp: registry_register_def Let_def rg_members_def neq_Nil_conv split: registry_type.splits if_splits)
    have len: "length (hm_at (rg_entries ?s) k) \<le> 1" if "rg_type s = Unique" for k
      using ne that ok by (auto simp: registry_register_def Let_def rg_ok_def split: if_splits)
    have ent: "hm_ok (rg_entries ?s)" "hm_tight (rg_entries ?s)"
      using ok by (auto simp: registry_register_def Let_def rg_ok_def split: registry_type.splits)
    show ?thesis
      using ok len ent unfolding rg_ok_def mem ty rk by auto
  qed
  then show ?thesis using keep by blast
qed

lemma unregister_members: "rg_members (registry_unregister key p s) = rg_members s - {(key, p)}"
  by (auto simp: registry_unregister_def rg_members_def split: if_splits)

lemma unregister_ok: "rg_ok s \<Longrightarrow> rg_ok (registry_unregister key p s)"
  unfolding rg_ok_def unregister_members
  by (auto simp: registry_unregister_def intro: le_trans [OF length_filter_le])

lemma unregister_all_members: "rg_ok s \<Longrightarrow> rg_members (registry_unregister_all p s) = rg_members s - UNIV \<times> {p}"
proof -
  assume ok: "rg_ok s"
  have keys: "(k, p) \<in> rg_members s \<longleftrightarrow> k \<in> set (hm_at (rg_keys s) p)" for k using ok by (simp add: rg_ok_def)
  show ?thesis
  proof (cases "hm_get (rg_keys s) p")
    case None
    then have "hm_at (rg_keys s) p = []" by (simp add: hm_at_def)
    then show ?thesis using None keys by (auto simp: registry_unregister_all_def)
  next
    case (Some ks)
    then have "hm_at (rg_keys s) p = ks" by (simp add: hm_at_def)
    then have other: "\<forall>k. k \<notin> set ks \<longrightarrow> p \<notin> en_pid ` set (hm_at (rg_entries s) k)"
      using keys by (auto simp: rg_members_def)
    show ?thesis
    proof (intro set_eqI, clarify)
      fix k q
      show "(k, q) \<in> rg_members (registry_unregister_all p s) \<longleftrightarrow> (k, q) \<in> rg_members s - UNIV \<times> {p}"
        using Some other
        by (cases "k \<in> set ks") (auto simp: registry_unregister_all_def rg_members_def fold_shrink_at image_iff)
    qed
  qed
qed

lemma unregister_all_ok:
  assumes ok: "rg_ok s"
  shows "rg_ok (registry_unregister_all p s)"
proof (cases "hm_get (rg_keys s) p")
  case None
  then show ?thesis using ok by (simp add: registry_unregister_all_def)
next
  case (Some ks)
  have len: "length (hm_at (fold (\<lambda>key. hm_shrink key (\<lambda>e. en_pid e \<noteq> p)) ks (rg_entries s)) k) \<le> 1"
    if "rg_type s = Unique" for k
    using ok that by (auto simp: rg_ok_def fold_shrink_at intro: le_trans [OF length_filter_le])
  have "rg_members (registry_unregister_all p s) = rg_members s - UNIV \<times> {p}" by (rule unregister_all_members [OF ok])
  then show ?thesis
    using ok len Some fold_shrink_ok [of "rg_entries s"]
    unfolding rg_ok_def by (auto simp: registry_unregister_all_def)
qed

lemma registry_keys_at: "registry_keys p s = hm_at (rg_keys s) p"
  by (simp add: registry_keys_def hm_at_def)

lemma registry_lookup_at: "registry_lookup key s = map entry_pair (hm_at (rg_entries s) key)"
  by (simp add: registry_lookup_def hm_at_def split: option.split)

lemma types_kept [simp]:
  "rg_type (snd (registry_register key p v s)) = rg_type s" "rg_type (registry_unregister key p s) = rg_type s"
  "rg_type (registry_unregister_all p s) = rg_type s"
  by (auto simp: registry_register_def registry_unregister_def registry_unregister_all_def Let_def
      split: registry_type.split option.split)

text \<open>A unique registry admits a key that is free; a duplicate one admits every key.\<close>

definition rg_admits :: "registry_type \<Rightarrow> ('k \<times> pid) set \<Rightarrow> 'k \<Rightarrow> bool" where
  "rg_admits ty M key \<longleftrightarrow> ty = Duplicate \<or> (\<forall>q. (key, q) \<notin> M)"

interpretation registry_index: membership_index "\<lambda>s. rg_ok s \<and> rg_type s = ty" rg_members
  "\<lambda>s p. registry_keys p s" "rg_admits ty" "\<lambda>k p v s. snd (registry_register k p v s)" registry_unregister
  registry_unregister_all for ty
proof
  fix s :: "('a, 'b) registry" and k p v
  assume s: "rg_ok s \<and> rg_type s = ty"
  show "rg_ok (snd (registry_register k p v s)) \<and> rg_type (snd (registry_register k p v s)) = ty"
    using s by (simp add: register_ok)
  show "rg_ok (registry_unregister k p s) \<and> rg_type (registry_unregister k p s) = ty"
    using s by (simp add: unregister_ok)
  show "rg_ok (registry_unregister_all p s) \<and> rg_type (registry_unregister_all p s) = ty"
    using s by (simp add: unregister_all_ok)
  show "rg_members (snd (registry_register k p v s)) =
      (if rg_admits ty (rg_members s) k then insert (k, p) (rg_members s) else rg_members s)"
    using s by (cases ty) (simp_all add: register_members rg_admits_def)
  show "rg_members (registry_unregister_all p s) = rg_members s - UNIV \<times> {p}"
    using s by (simp add: unregister_all_members)
  show "set (registry_keys p s) = {k. (k, p) \<in> rg_members s}"
    using s by (auto simp: registry_keys_at rg_ok_def)
qed (simp add: unregister_members)
section \<open>Runs\<close>

fun registry_do :: "('k, 'v) mem_op \<Rightarrow> ('k, 'v) registry \<Rightarrow> ('k, 'v) registry" where
  "registry_do (Add k p v) s = snd (registry_register k p v s)"
| "registry_do (Remove k p) s = registry_unregister k p s"
| "registry_do (RemoveAll p) s = registry_unregister_all p s"

definition registry_new :: "registry_type \<Rightarrow> string \<Rightarrow> ('k, 'v) registry" where
  "registry_new ty name = (case ty of Unique \<Rightarrow> new_unique name | Duplicate \<Rightarrow> new_duplicate name)"

lemma registry_do_op: "registry_do = registry_index.do_op"
proof (intro ext)
  fix op :: "('a, 'b) mem_op" and s
  show "registry_do op s = registry_index.do_op op s" by (cases op) simp_all
qed

text \<open>C11. A registry is a relation between keys and processes.  After any sequence of registrations,
  removals and departures of processes, the processes found under a key and the keys found for a
  process are exactly those of the relation obtained by the same operations, where a unique registry
  accepts a registration only for a free key; so a unique registry never holds two entries for a key.\<close>

theorem registry_refines_relation:
  fixes ops :: "('k, 'v) mem_op list"
  shows "fst ` set (registry_lookup k (fold registry_do ops (registry_new ty name))) =
     {p. (k, p) \<in> fold (abs_op (rg_admits ty)) ops {}} \<and>
   set (registry_keys p (fold registry_do ops (registry_new ty name))) =
     {k. (k, p) \<in> fold (abs_op (rg_admits ty)) ops {}} \<and>
   registry_has_key k (fold registry_do ops (registry_new ty name)) =
     (\<exists>p. (k, p) \<in> fold (abs_op (rg_admits ty)) ops {}) \<and>
   (ty = Duplicate \<or> registry_count k (fold registry_do ops (registry_new ty name)) \<le> 1)"
proof -
  let ?new = "registry_new ty name :: ('k, 'v) registry" and ?M = "fold (abs_op (rg_admits ty)) ops {}"
  let ?s = "fold registry_do ops ?new"
  have "rg_ok ?new \<and> rg_type ?new = ty" "rg_members ?new = {}"
    by (cases ty; simp add: registry_new_def new_ok; simp add: new_unique_def new_duplicate_def rg_members_def)+
  from registry_index.run_refines [OF this(1), of ops] this(2)
  have ok: "rg_ok ?s" "rg_type ?s = ty" and mem: "rg_members ?s = ?M" by (simp_all add: registry_do_op)
  have "fst ` set (registry_lookup k ?s) = {p. (k, p) \<in> ?M}"
    unfolding mem [symmetric] by (auto simp: registry_lookup_at rg_members_def entry_pair_def image_iff)
  moreover have "set (registry_keys p ?s) = {k. (k, p) \<in> ?M}"
    unfolding mem [symmetric] using ok(1) by (auto simp: registry_keys_at rg_ok_def)
  moreover have "registry_has_key k ?s = (\<exists>p. (k, p) \<in> ?M)"
    unfolding mem [symmetric] using rg_contains [OF ok(1), of k]
    by (auto simp: registry_has_key_def rg_members_def neq_Nil_conv)
  moreover have "ty = Duplicate \<or> registry_count k ?s \<le> 1"
    using ok by (cases ty) (auto simp: registry_count_def rg_ok_def hm_at_def split: option.splits)
  ultimately show ?thesis by blast
qed

end
