(* ===== verification/Codec.thy ===== *)
theory Codec
  imports Core
begin

text \<open>
  The wire formats: tagged local messages (\<open>message.rs\<close>) and length-prefixed frames between nodes
  (\<open>distribution/protocol.rs\<close>), with the two readers of frames, the one that keeps its buffer over a
  TCP connection (\<open>distribution/tcp_transport.rs\<close>) and the one that reads one message per QUIC stream
  (\<open>distribution/transport.rs\<close>).  The serialisation of a message is a library's, so its encoder and
  decoder are arguments.
\<close>

unbundle bit_operations_syntax

section \<open>Bytes of integers\<close>

definition be32 :: "32 word \<Rightarrow> byte list" where
  "be32 w = [ucast (drop_bit 24 w), ucast (drop_bit 16 w), ucast (drop_bit 8 w), ucast w]"

definition of_be32 :: "byte \<Rightarrow> byte \<Rightarrow> byte \<Rightarrow> byte \<Rightarrow> 32 word" where
  "of_be32 a b c d = push_bit 24 (ucast a) OR push_bit 16 (ucast b) OR push_bit 8 (ucast c) OR ucast d"

definition le16 :: "16 word \<Rightarrow> byte list" where
  "le16 w = [ucast w, ucast (drop_bit 8 w)]"

definition of_le16 :: "byte \<Rightarrow> byte \<Rightarrow> 16 word" where
  "of_le16 a b = ucast a OR push_bit 8 (ucast b)"

lemma of_be32_be32: "of_be32 (ucast (drop_bit 24 w)) (ucast (drop_bit 16 w)) (ucast (drop_bit 8 w)) (ucast w) = w"
proof (rule bit_word_eqI)
  fix n assume n: "n < LENGTH(32)"
  consider "n < 8" | "8 \<le> n" "n < 16" | "16 \<le> n" "n < 24" | "24 \<le> n" by linarith
  then show "bit (of_be32 (ucast (drop_bit 24 w)) (ucast (drop_bit 16 w)) (ucast (drop_bit 8 w)) (ucast w)) n = bit w n"
    using n by cases (auto simp: of_be32_def bit_simps less_diff_conv2)
qed

lemma of_le16_le16: "of_le16 (ucast w) (ucast (drop_bit 8 w)) = w"
proof (rule bit_word_eqI)
  fix n assume n: "n < LENGTH(16)"
  consider "n < 8" | "8 \<le> n" by linarith
  then show "bit (of_le16 (ucast w) (ucast (drop_bit 8 w))) n = bit w n"
    using n by cases (auto simp: of_le16_def bit_simps less_diff_conv2)
qed

lemma unat_le16:
  assumes "n < 2 ^ 16"
  shows "\<exists>a b. le16 (word_of_nat n) = [a, b] \<and> unat (of_le16 a b) = n"
proof -
  have "unat (word_of_nat n :: 16 word) = n"
    using assms by (simp add: unsigned_of_nat take_bit_nat_eq_self)
  then show ?thesis by (simp add: le16_def of_le16_le16)
qed

lemma unat_be32:
  assumes "n < 2 ^ 32"
  shows "\<exists>a b c d. be32 (word_of_nat n) = [a, b, c, d] \<and> unat (of_be32 a b c d) = n"
proof -
  have "unat (word_of_nat n :: 32 word) = n"
    using assms by (simp add: unsigned_of_nat take_bit_nat_eq_self)
  then show ?thesis by (simp add: be32_def of_be32_be32)
qed

section \<open>Tagged messages\<close>

datatype decode_error = Deserialize string | InvalidData string | Postcard string | Etf string

text \<open>\<open>std::str::from_utf8\<close>: well-formed sequences of one to four bytes, without surrogates and without
  overlong forms.  A string is kept as its bytes.\<close>

definition cont :: "byte \<Rightarrow> bool" where
  "cont b = (0x80 \<le> b \<and> b \<le> 0xBF)"

fun utf8_valid :: "byte list \<Rightarrow> bool" where
  "utf8_valid [] = True"
| "utf8_valid (a # bs) =
    (if a < 0x80 then utf8_valid bs
     else if 0xC2 \<le> a \<and> a \<le> 0xDF then (case bs of b # r \<Rightarrow> cont b \<and> utf8_valid r | _ \<Rightarrow> False)
     else if 0xE0 \<le> a \<and> a \<le> 0xEF then
       (case bs of
          b # c # r \<Rightarrow> cont b \<and> (a = 0xE0 \<longrightarrow> 0xA0 \<le> b) \<and> (a = 0xED \<longrightarrow> b \<le> 0x9F) \<and> cont c \<and> utf8_valid r
        | _ \<Rightarrow> False)
     else if 0xF0 \<le> a \<and> a \<le> 0xF4 then
       (case bs of
          b # c # d # r \<Rightarrow> cont b \<and> (a = 0xF0 \<longrightarrow> 0x90 \<le> b) \<and> (a = 0xF4 \<longrightarrow> b \<le> 0x8F) \<and> cont c \<and> cont d \<and> utf8_valid r
        | _ \<Rightarrow> False)
     else False)"

text \<open>The length of the tag is truncated to 16 bits.\<close>

definition encode_with_tag :: "byte list \<Rightarrow> byte list \<Rightarrow> byte list" where
  "encode_with_tag tag payload = le16 (word_of_nat (length tag)) @ tag @ payload"

definition decode_tag :: "byte list \<Rightarrow> decode_error + byte list \<times> byte list" where
  "decode_tag bytes =
    (if length bytes < 2 then Inl (InvalidData ''message too short'')
     else (let tag_len = unat (of_le16 (bytes ! 0) (bytes ! 1)) in
       if length bytes < 2 + tag_len then Inl (InvalidData ''tag length exceeds message'')
       else (let tag = take tag_len (drop 2 bytes) in
         if \<not> utf8_valid tag then Inl (InvalidData ''invalid utf8 in tag'')
         else Inr (tag, drop (2 + tag_len) bytes))))"

section \<open>Numbers of the postcard format\<close>

text \<open>How the serialisation library of the program writes a number, a length or the number of a variant, as its
  format is documented: seven bits a byte, lowest first, the high bit on all bytes but the last.\<close>

fun varint :: "nat \<Rightarrow> byte list" where
  "varint n = (if n < 128 then [word_of_nat n] else word_of_nat (n mod 128 + 128) # varint (n div 128))"

declare varint.simps [simp del]

lemma varint_small: "n < 128 \<Longrightarrow> varint n = [word_of_nat n]"
  by (simp add: varint.simps [of n])

lemma varint_two: "128 \<le> n \<Longrightarrow> n < 16384 \<Longrightarrow> varint n = [word_of_nat (n mod 128 + 128), word_of_nat (n div 128)]"
  by (simp add: varint.simps [of n] varint_small)

lemma varint_three:
  "16384 \<le> n \<Longrightarrow> n < 2097152 \<Longrightarrow>
    varint n = [word_of_nat (n mod 128 + 128), word_of_nat (n div 128 mod 128 + 128), word_of_nat (n div 16384)]"
  by (simp add: varint.simps [of n] varint_two flip: div_mult2_eq)

section \<open>Tagged Erlang terms\<close>

text \<open>Terms and their external format are a library's: reading and building a term are arguments, and so
  is how a term is shown in an error.\<close>

record ('t, 'v) etf =
  et_encode :: "'t \<Rightarrow> byte list"
  et_decode :: "byte list \<Rightarrow> string + 't"
  et_mk_atom :: "string \<Rightarrow> 't"
  et_mk_tuple :: "'t list \<Rightarrow> 't"
  et_atom :: "'t \<Rightarrow> string option"
  et_tuple :: "'t \<Rightarrow> 't list option"
  et_to_term :: "'v \<Rightarrow> 't"
  et_from_term :: "'t \<Rightarrow> string + 'v"
  et_show :: "'t \<Rightarrow> string"
  et_show_list :: "'t list \<Rightarrow> string"

definition encode_etf_unit :: "('t, 'v) etf \<Rightarrow> string \<Rightarrow> byte list" where
  "encode_etf_unit E tag = et_encode E (et_mk_atom E tag)"

definition encode_etf_with_tag :: "('t, 'v) etf \<Rightarrow> string \<Rightarrow> 'v \<Rightarrow> byte list" where
  "encode_etf_with_tag E tag v = et_encode E (et_mk_tuple E [et_mk_atom E tag, et_to_term E v])"

definition decode_etf_unit :: "('t, 'v) etf \<Rightarrow> byte list \<Rightarrow> string \<Rightarrow> decode_error + unit" where
  "decode_etf_unit E bytes expected =
    (case et_decode E bytes of
       Inl e \<Rightarrow> Inl (Etf e)
     | Inr t \<Rightarrow>
        (let wrong = (\<lambda>shown. Inl (Etf (''expected atom '' @ [CHR 0x27] @ expected @ [CHR 0x27] @ '', got '' @ shown))) in
         if et_atom E t = Some expected then Inr ()
         else case et_tuple E t of
           Some [x] \<Rightarrow> if et_atom E x = Some expected then Inr () else wrong (et_show_list E [x])
         | _ \<Rightarrow> wrong (et_show E t)))"

definition decode_etf_with_tag :: "('t, 'v) etf \<Rightarrow> byte list \<Rightarrow> string \<Rightarrow> decode_error + 'v" where
  "decode_etf_with_tag E bytes expected =
    (case et_decode E bytes of
       Inl e \<Rightarrow> Inl (Etf e)
     | Inr t \<Rightarrow>
        (case et_tuple E t of
           Some [x, y] \<Rightarrow>
             (case et_atom E x of
                Some a \<Rightarrow>
                  if a \<noteq> expected then Inl (Etf (''expected tag '' @ [CHR 0x27] @ expected @ [CHR 0x27] @ '', got '' @ [CHR 0x27] @ a @ [CHR 0x27]))
                  else (case et_from_term E y of
                      Inl e \<Rightarrow> Inl (Etf (''failed to deserialize payload: '' @ e))
                    | Inr v \<Rightarrow> Inr v)
              | None \<Rightarrow> Inl (Etf (''expected atom tag, got '' @ et_show E x)))
         | _ \<Rightarrow> Inl (Etf (''expected tagged tuple {:'' @ expected @ '', _}, got '' @ et_show E t))))"

section \<open>Messages between nodes\<close>

datatype dist_message =
    Hello string "32 word"
  | Welcome string "32 word"
  | SendMsg pid "pid option" "byte list"
  | MonitorNode pid
  | DemonitorNode pid
  | NodeGoingDown string
  | MonitorProcess pid pid "64 word"
  | DemonitorProcess pid pid "64 word"
  | ProcessDown "64 word" pid string
  | LinkProcess pid pid
  | UnlinkProcess pid pid
  | ExitProcess pid pid string
  | Ping "64 word"
  | Pong "64 word"
  | GlobalRegistryMsg "byte list"
  | ProcessGroupsMsg "byte list"
  | SpawnMsg "64 word" pid string string "byte list" bool bool
  | SpawnReply "64 word" "pid option" "64 word option" "string option"

datatype dist_error =
    EncodeError string | DecodeErr string | ConnectError string | NotConnected node | NotInitialized
  | InvalidAddress string | Tls string | Io string | Handshake string | AlreadyConnected node | ConnectionClosed

fun dist_error_display :: "dist_error \<Rightarrow> string" where
  "dist_error_display (EncodeError e) = ''encode error: '' @ e"
| "dist_error_display (DecodeErr e) = ''decode error: '' @ e"
| "dist_error_display (ConnectError e) = ''connection error: '' @ e"
| "dist_error_display (NotConnected n) = ''not connected to node '' @ n"
| "dist_error_display NotInitialized = ''distribution not initialized''"
| "dist_error_display (InvalidAddress e) = ''invalid address: '' @ e"
| "dist_error_display (Tls e) = ''TLS error: '' @ e"
| "dist_error_display (Io e) = ''I/O error: '' @ e"
| "dist_error_display (Handshake e) = ''handshake failed: '' @ e"
| "dist_error_display (AlreadyConnected n) = ''already connected to node '' @ n"
| "dist_error_display ConnectionClosed = ''connection closed''"

text \<open>The length of the payload is truncated to 32 bits.\<close>

definition frame_message :: "('m \<Rightarrow> dist_error + byte list) \<Rightarrow> 'm \<Rightarrow> dist_error + byte list" where
  "frame_message enc msg =
    (case enc msg of Inl e \<Rightarrow> Inl e | Inr payload \<Rightarrow> Inr (be32 (word_of_nat (length payload)) @ payload))"

definition parse_frame :: "(byte list \<Rightarrow> dist_error + 'm) \<Rightarrow> byte list \<Rightarrow> dist_error + ('m \<times> nat) option" where
  "parse_frame dec buf =
    (if length buf < 4 then Inr None
     else (let len = unat (of_be32 (buf ! 0) (buf ! 1) (buf ! 2) (buf ! 3)) in
       if length buf < 4 + len then Inr None
       else (case dec (take len (drop 4 buf)) of Inl e \<Rightarrow> Inl e | Inr msg \<Rightarrow> Inr (Some (msg, 4 + len)))))"

text \<open>What a read on a stream yields; a reader that has used up the reads is waiting for more.\<close>

datatype net_read = Chunk "byte list" | EndOfStream | ReadFailed string
datatype 'm received = Received 'm | RecvError dist_error | Waiting

text \<open>Receiving on a TCP connection: the result, the buffer kept for the next call and the reads left.\<close>

fun tcp_recv_message ::
    "(byte list \<Rightarrow> dist_error + 'm) \<Rightarrow> byte list \<Rightarrow> net_read list \<Rightarrow> 'm received \<times> byte list \<times> net_read list" where
  "tcp_recv_message dec buf reads =
    (case parse_frame dec buf of
       Inl e \<Rightarrow> (RecvError e, buf, reads)
     | Inr (Some (msg, consumed)) \<Rightarrow> (Received msg, drop consumed buf, reads)
     | Inr None \<Rightarrow>
        (case reads of
           [] \<Rightarrow> (Waiting, buf, [])
         | EndOfStream # rest \<Rightarrow> (RecvError ConnectionClosed, buf, rest)
         | ReadFailed e # rest \<Rightarrow> (RecvError (Io e), buf, rest)
         | Chunk bs # rest \<Rightarrow>
             if bs = [] then (RecvError ConnectionClosed, buf, rest)
             else tcp_recv_message dec (buf @ bs) rest))"

declare tcp_recv_message.simps [simp del]

text \<open>Receiving one message on a stream of its own: whatever follows it in the buffer is dropped.\<close>

fun quic_recv_loop :: "(byte list \<Rightarrow> dist_error + 'm) \<Rightarrow> byte list \<Rightarrow> net_read list \<Rightarrow> 'm received" where
  "quic_recv_loop dec buf [] = Waiting"
| "quic_recv_loop dec buf (Chunk bs # rest) =
    (case parse_frame dec (buf @ bs) of
       Inl e \<Rightarrow> RecvError e
     | Inr (Some (msg, _)) \<Rightarrow> Received msg
     | Inr None \<Rightarrow> quic_recv_loop dec (buf @ bs) rest)"
| "quic_recv_loop dec buf (EndOfStream # rest) =
    (if buf = [] then RecvError ConnectionClosed
     else (case parse_frame dec buf of
             Inl e \<Rightarrow> RecvError e
           | Inr (Some (msg, _)) \<Rightarrow> Received msg
           | Inr None \<Rightarrow> RecvError (DecodeErr ''incomplete message'')))"
| "quic_recv_loop dec buf (ReadFailed e # rest) = RecvError (Io e)"

definition quic_recv_message :: "(byte list \<Rightarrow> dist_error + 'm) \<Rightarrow> net_read list \<Rightarrow> 'm received" where
  "quic_recv_message dec reads = quic_recv_loop dec [] reads"
section \<open>Round trips\<close>

lemma tag_roundtrip:
  assumes "utf8_valid tag" "length tag < 2 ^ 16"
  shows "decode_tag (encode_with_tag tag payload) = Inr (tag, payload)"
proof -
  obtain a b where "le16 (word_of_nat (length tag)) = [a, b]" "unat (of_le16 a b) = length tag"
    using unat_le16 [OF assms(2)] by blast
  then show ?thesis using assms(1) by (simp add: decode_tag_def encode_with_tag_def Let_def)
qed

lemma etf_roundtrip:
  assumes "\<And>t. et_decode E (et_encode E t) = Inr t" "\<And>a. et_atom E (et_mk_atom E a) = Some a"
    and "\<And>ts. et_tuple E (et_mk_tuple E ts) = Some ts" "et_from_term E (et_to_term E v) = Inr v"
  shows "decode_etf_unit E (encode_etf_unit E tag) tag = Inr ()"
    and "decode_etf_with_tag E (encode_etf_with_tag E tag v) tag = Inr v"
  by (simp_all add: assms decode_etf_unit_def encode_etf_unit_def decode_etf_with_tag_def encode_etf_with_tag_def Let_def)

text \<open>A tag of 65536 bytes or more is cut off: its length is stored modulo 65536.\<close>

lemma long_tag_lost:
  assumes "length tag = 2 ^ 16"
  shows "decode_tag (encode_with_tag tag payload) = Inr ([], tag @ payload)"
proof -
  have "word_of_nat (length tag) = (0 :: 16 word)" using assms by simp
  then show ?thesis by (simp add: decode_tag_def encode_with_tag_def Let_def le16_def of_le16_def)
qed

text \<open>A message the codec carries: it encodes, in less than four gigabytes, and decodes to itself.\<close>

definition carried :: "('m \<Rightarrow> dist_error + byte list) \<Rightarrow> (byte list \<Rightarrow> dist_error + 'm) \<Rightarrow> 'm \<Rightarrow> bool" where
  "carried enc dec m \<longleftrightarrow> (\<exists>p. enc m = Inr p \<and> dec p = Inr m \<and> length p < 2 ^ 32)"

lemma parse_frame_whole:
  assumes "carried enc dec m" "frame_message enc m = Inr f"
  shows "parse_frame dec (f @ rest) = Inr (Some (m, length f))"
proof -
  obtain p where p: "enc m = Inr p" "dec p = Inr m" "length p < 2 ^ 32"
    using assms(1) by (auto simp: carried_def)
  obtain a b c d where h: "be32 (word_of_nat (length p)) = [a, b, c, d]" "unat (of_be32 a b c d) = length p"
    using unat_be32 [OF p(3)] by blast
  have "f = [a, b, c, d] @ p" using assms(2) p(1) h(1) by (simp add: frame_message_def)
  then show ?thesis using p h(2) by (simp add: parse_frame_def Let_def)
qed

lemma parse_frame_part:
  assumes "carried enc dec m" "frame_message enc m = Inr f" "k < length f"
  shows "parse_frame dec (take k f) = Inr None"
proof -
  obtain p where p: "enc m = Inr p" "dec p = Inr m" "length p < 2 ^ 32"
    using assms(1) by (auto simp: carried_def)
  obtain a b c d where h: "be32 (word_of_nat (length p)) = [a, b, c, d]" "unat (of_be32 a b c d) = length p"
    using unat_be32 [OF p(3)] by blast
  have f: "f = [a, b, c, d] @ p" using assms(2) p(1) h(1) by (simp add: frame_message_def)
  show ?thesis
  proof (cases "k < 4")
    case True
    then have "length (take k f) < 4" by simp
    then show ?thesis by (simp only: parse_frame_def if_True)
  next
    case False
    then obtain j where j: "k = 4 + j" using le_Suc_ex not_less by blast
    have "take k f = a # b # c # d # take j p" by (simp add: f j numeral_eq_Suc)
    moreover have "j < length p" using assms(3) by (simp add: f j)
    ultimately show ?thesis using h(2) by (simp add: parse_frame_def Let_def)
  qed
qed

lemma tcp_receives_first:
  assumes carried: "carried enc dec m" "frame_message enc m = Inr f"
    and "buf @ concat cs = f @ rest" "[] \<notin> set cs"
  shows "\<exists>buf' cs'. tcp_recv_message dec buf (map Chunk cs) = (Received m, buf', map Chunk cs') \<and>
    buf' @ concat cs' = rest \<and> [] \<notin> set cs'"
  using assms(3,4)
proof (induction cs arbitrary: buf)
  case Nil
  then have "buf = f @ rest" by simp
  then show ?case
    using parse_frame_whole [OF carried, of rest]
    by (intro exI [of _ rest] exI [of _ "[]"]) (simp add: tcp_recv_message.simps [of dec "f @ rest"])
next
  case (Cons c cs)
  show ?case
  proof (cases "length f \<le> length buf")
    case True
    then obtain b where b: "buf = f @ b" "b @ concat (c # cs) = rest"
      using Cons.prems(1) by (metis append_eq_append_conv_if append_take_drop_id)
    then show ?thesis
      using parse_frame_whole [OF carried, of b] Cons.prems(2)
      by (intro exI [of _ b] exI [of _ "c # cs"]) (simp add: tcp_recv_message.simps [of dec "f @ b"])
  next
    case False
    have "take (length buf) (buf @ concat (c # cs)) = take (length buf) (f @ rest)" using Cons.prems(1) by simp
    then have "buf = take (length buf) f" using False by simp
    then have "parse_frame dec buf = Inr None" using parse_frame_part [OF carried, of "length buf"] False by simp
    moreover have "c \<noteq> []" using Cons.prems(2) by auto
    ultimately have "tcp_recv_message dec buf (map Chunk (c # cs)) = tcp_recv_message dec (buf @ c) (map Chunk cs)"
      by (subst (1) tcp_recv_message.simps) simp
    moreover have "(buf @ c) @ concat cs = f @ rest" "[] \<notin> set cs" using Cons.prems by simp_all
    ultimately show ?thesis using Cons.IH [of "buf @ c"] by simp
  qed
qed

fun tcp_recv_n :: "(byte list \<Rightarrow> dist_error + 'm) \<Rightarrow> nat \<Rightarrow> byte list \<Rightarrow> net_read list \<Rightarrow> 'm received list \<times> byte list \<times> net_read list" where
  "tcp_recv_n dec 0 buf reads = ([], buf, reads)"
| "tcp_recv_n dec (Suc n) buf reads =
    (let (r, buf1, reads1) = tcp_recv_message dec buf reads; (rs, rest) = tcp_recv_n dec n buf1 reads1 in (r # rs, rest))"

lemma tcp_receives_all:
  assumes "list_all2 (\<lambda>m f. carried enc dec m \<and> frame_message enc m = Inr f) ms fs"
    and "buf @ concat cs = concat fs" "[] \<notin> set cs"
  shows "tcp_recv_n dec (length ms) buf (map Chunk cs) = (map Received ms, [], [])"
  using assms
proof (induction ms fs arbitrary: buf cs rule: list_all2_induct)
  case Nil
  then have "cs = []" by (cases cs) auto
  then show ?case using Nil by simp
next
  case (Cons m ms f fs)
  have "buf @ concat cs = f @ concat fs" using Cons.prems(1) by simp
  from tcp_receives_first [OF conjunct1 [OF Cons.hyps(1)] conjunct2 [OF Cons.hyps(1)] this Cons.prems(2)]
  obtain buf' cs' where r: "tcp_recv_message dec buf (map Chunk cs) = (Received m, buf', map Chunk cs')"
    and rest: "buf' @ concat cs' = concat fs" "[] \<notin> set cs'" by (elim exE conjE)
  show ?case using r Cons.IH [OF rest] by simp
qed

text \<open>C12. Messages sent over a TCP connection arrive as they were sent.  However the bytes of their frames
  are cut into chunks on the way, receiving as many times as there are messages yields exactly the
  messages in order, and leaves neither buffered bytes nor unread chunks.\<close>

theorem tcp_stream_roundtrip:
  assumes "list_all (carried enc dec) ms"
    and "map (frame_message enc) ms = map Inr fs" "concat cs = concat fs" "[] \<notin> set cs"
  shows "tcp_recv_n dec (length ms) [] (map Chunk cs) = (map Received ms, [], [])"
proof (rule tcp_receives_all)
  have "length ms = length fs" using assms(2) by (metis length_map)
  then show "list_all2 (\<lambda>m f. carried enc dec m \<and> frame_message enc m = Inr f) ms fs"
    using assms(1,2) by (auto simp: list_all2_conv_all_nth list_all_length list_eq_iff_nth_eq)
qed (use assms(3,4) in simp_all)

definition ex_enc :: "byte \<Rightarrow> dist_error + byte list" where
  "ex_enc m = Inr [m]"

definition ex_dec :: "byte list \<Rightarrow> dist_error + byte" where
  "ex_dec bs = (case bs of [b] \<Rightarrow> Inr b | _ \<Rightarrow> Inl (DecodeErr []))"

theorem tcp_stream_roundtrip_witness:
  "tcp_recv_n ex_dec 2 [] [Chunk [0], Chunk [0, 0, 1, 7, 0, 0], Chunk [0, 1, 8]] = ([Received 7, Received 8], [], [])"
proof -
  have f: "frame_message ex_enc m = Inr [0, 0, 0, 1, m]" for m
    by (simp add: frame_message_def ex_enc_def be32_def)
  have "tcp_recv_n ex_dec (length [7, 8 :: byte]) [] (map Chunk [[0], [0, 0, 1, 7, 0, 0], [0, 1, 8]]) =
      (map Received [7, 8], [], [])"
    by (rule tcp_stream_roundtrip [where enc = ex_enc and fs = "[[0, 0, 0, 1, 7], [0, 0, 0, 1, 8]]"])
      (simp_all add: f carried_def ex_enc_def ex_dec_def)
  then show ?thesis by (simp add: numeral_2_eq_2)
qed

text \<open>A frame whose payload does not decode is never taken out of the buffer: every later receive on the
  connection fails the same way, whatever arrives.\<close>

lemma tcp_bad_frame_sticks:
  assumes "parse_frame dec buf = Inl e"
  shows "tcp_recv_n dec n buf reads = (replicate n (RecvError e), buf, reads)"
  by (induction n) (simp_all add: tcp_recv_message.simps [of dec buf] assms)

end
