(* ===== verification/GenFsm.thy ===== *)
theory GenFsm
  imports Core
begin

text \<open>
  State machine processes (\<open>gen_fsm/server.rs\<close>, \<open>types.rs\<close>, \<open>protocol.rs\<close>): the timers, the results of
  the callbacks, postponed events, and the loop, one message at a time.  The callbacks and the codecs
  of events, calls and replies are the user's and are arguments.  A timer task is an entry of the
  running timers; that it fires is an external step.
\<close>

section \<open>Types\<close>

record fsm_from =
  ff_caller :: pid
  ff_reference :: ref

datatype 'r state_action =
    ANone | AReply fsm_from 'r | AStateTimeout int | AGenericTimeout string int | ACancelTimeout string | APostpone

datatype ('s, 'd) fsm_init = InitOk 's 'd | InitOkTimeout 's 'd int | InitIgnore | InitStop exit_reason

datatype ('s, 'r) event_result =
    NextState 's | NextStateTimeout 's int | KeepState | KeepStateTimeout int
  | NextStateActions 's "'r state_action list" | KeepStateActions "'r state_action list"
  | EvStop exit_reason | EvStopReply exit_reason fsm_from 'r

datatype ('s, 'r) call_result =
    CallReply 'r 's | CallReplyTimeout 'r 's int | CallNoReply 's | CallNoReplyTimeout 's int
  | CallKeepStateReply 'r | CallKeepState | CallStop exit_reason 'r 's | CallStopNoReply exit_reason 's

datatype fsm_message =
    FEvent "byte list" | FCall pid ref "byte list" | FReply ref "byte list" | FStateTimeout | FGenericTimeout string

text \<open>What a mailbox holds: an encoded message, or bytes that do not decode.\<close>

datatype fsm_raw = FMsg fsm_message | FMalformed

datatype fsm_start_error = FsmStop exit_reason | FsmIgnore | FsmSpawnFailed
datatype fsm_call_error = FsmProcessNotFound pid | FsmTimeout | FsmStopped exit_reason | FsmDecodeError string | FsmInvalidState

section \<open>Timers\<close>

datatype timeout_event = TState | TGeneric string

record timeout_manager =
  tm_state :: "nat option"
  tm_generic :: "(string, nat) hmap"
  tm_running :: "(nat \<times> timeout_event \<times> int) list"
  tm_queue :: "timeout_event list"
  tm_next :: nat

definition tm_new :: timeout_manager where
  "tm_new = \<lparr> tm_state = None, tm_generic = [], tm_running = [], tm_queue = [], tm_next = 0 \<rparr>"

text \<open>A cancelled task does not fire; cancelling a task that has fired does nothing.\<close>

definition tm_cancel :: "nat \<Rightarrow> timeout_manager \<Rightarrow> timeout_manager" where
  "tm_cancel t m = m\<lparr> tm_running := filter (\<lambda>(u, _). u \<noteq> t) (tm_running m) \<rparr>"

definition tm_spawn :: "timeout_event \<Rightarrow> int \<Rightarrow> timeout_manager \<Rightarrow> nat \<times> timeout_manager" where
  "tm_spawn ev d m = (tm_next m, m\<lparr> tm_running := tm_running m @ [(tm_next m, ev, d)], tm_next := tm_next m + 1 \<rparr>)"

definition cancel_state_timeout :: "timeout_manager \<Rightarrow> timeout_manager" where
  "cancel_state_timeout m =
    (case tm_state m of Some t \<Rightarrow> tm_cancel t (m\<lparr> tm_state := None \<rparr>) | None \<Rightarrow> m)"

definition set_state_timeout :: "int \<Rightarrow> timeout_manager \<Rightarrow> timeout_manager" where
  "set_state_timeout d m =
    (let (t, m1) = tm_spawn TState d (cancel_state_timeout m) in m1\<lparr> tm_state := Some t \<rparr>)"

definition cancel_generic_timeout :: "string \<Rightarrow> timeout_manager \<Rightarrow> timeout_manager" where
  "cancel_generic_timeout name m =
    (case hm_get (tm_generic m) name of
       Some t \<Rightarrow> tm_cancel t (m\<lparr> tm_generic := hm_remove name (tm_generic m) \<rparr>)
     | None \<Rightarrow> m)"

definition set_generic_timeout :: "string \<Rightarrow> int \<Rightarrow> timeout_manager \<Rightarrow> timeout_manager" where
  "set_generic_timeout name d m =
    (let (t, m1) = tm_spawn (TGeneric name) d (cancel_generic_timeout name m)
     in m1\<lparr> tm_generic := hm_insert name t (tm_generic m1) \<rparr>)"

definition cancel_all :: "timeout_manager \<Rightarrow> timeout_manager" where
  "cancel_all m =
    (let m1 = cancel_state_timeout m
     in (fold tm_cancel (hm_values (tm_generic m1)) m1)\<lparr> tm_generic := [] \<rparr>)"

text \<open>A running task fires.\<close>

definition tm_fire :: "nat \<Rightarrow> timeout_manager \<Rightarrow> timeout_manager" where
  "tm_fire t m =
    (case map_of (tm_running m) t of
       Some (ev, _) \<Rightarrow> (tm_cancel t m)\<lparr> tm_queue := tm_queue m @ [ev] \<rparr>
     | None \<Rightarrow> m)"

section \<open>The process\<close>

record ('s, 'e, 'd, 'c, 'r) fsm_callbacks =
  fc_event :: "'s \<Rightarrow> 'e \<Rightarrow> 'd \<Rightarrow> ('s, 'r) event_result \<times> 'd"
  fc_call :: "'s \<Rightarrow> 'c \<Rightarrow> fsm_from \<Rightarrow> 'd \<Rightarrow> ('s, 'r) call_result \<times> 'd"
  fc_enter :: "'s \<Rightarrow> 'd \<Rightarrow> 'd"
  fc_exit :: "'s \<Rightarrow> 'd \<Rightarrow> 'd"
  fc_terminate :: "exit_reason \<Rightarrow> 's \<Rightarrow> 'd \<Rightarrow> 'd"
  fc_dec_event :: "byte list \<Rightarrow> 'e option"
  fc_dec_call :: "byte list \<Rightarrow> 'c option"
  fc_enc_reply :: "'r \<Rightarrow> byte list"
  fc_bytes :: "string \<Rightarrow> byte list"

record ('s, 'd) fsm =
  fs_state :: 's
  fs_data :: 'd
  fs_timers :: timeout_manager
  fs_postponed :: "fsm_raw list"
  fs_mailbox :: "fsm_raw list"
  fs_closed :: bool
  fs_sent :: "(pid \<times> fsm_message) list"
  fs_terminated :: "exit_reason list"

definition fsm_send_reply :: "('s, 'e, 'd, 'c, 'r) fsm_callbacks \<Rightarrow> fsm_from \<Rightarrow> 'r \<Rightarrow> ('s, 'd) fsm \<Rightarrow> ('s, 'd) fsm" where
  "fsm_send_reply cb origin reply s =
    s\<lparr> fs_sent := fs_sent s @ [(ff_caller origin, FReply (ff_reference origin) (fc_enc_reply cb reply))] \<rparr>"

definition fsm_terminate :: "('s, 'e, 'd, 'c, 'r) fsm_callbacks \<Rightarrow> exit_reason \<Rightarrow> ('s, 'd) fsm \<Rightarrow> ('s, 'd) fsm" where
  "fsm_terminate cb reason s =
    s\<lparr> fs_data := fc_terminate cb reason (fs_state s) (fs_data s), fs_terminated := fs_terminated s @ [reason] \<rparr>"

definition transition_state :: "('s, 'e, 'd, 'c, 'r) fsm_callbacks \<Rightarrow> 's \<Rightarrow> ('s, 'd) fsm \<Rightarrow> ('s, 'd) fsm" where
  "transition_state cb new s =
    s\<lparr> fs_timers := cancel_all (fs_timers s), fs_state := new,
       fs_data := fc_enter cb new (fc_exit cb (fs_state s) (fs_data s)) \<rparr>"

definition fsm_timers :: "(timeout_manager \<Rightarrow> timeout_manager) \<Rightarrow> ('s, 'd) fsm \<Rightarrow> ('s, 'd) fsm" where
  "fsm_timers f s = s\<lparr> fs_timers := f (fs_timers s) \<rparr>"

text \<open>The actions of a result; the flag tells whether the event is to be postponed.\<close>

fun process_actions :: "('s, 'e, 'd, 'c, 'r) fsm_callbacks \<Rightarrow> 'r state_action list \<Rightarrow> bool \<Rightarrow> ('s, 'd) fsm \<Rightarrow> bool \<times> ('s, 'd) fsm" where
  "process_actions cb [] post s = (post, s)"
| "process_actions cb (a # as) post s =
    (case a of
       ANone \<Rightarrow> process_actions cb as post s
     | AReply origin reply \<Rightarrow> process_actions cb as post (fsm_send_reply cb origin reply s)
     | AStateTimeout d \<Rightarrow> process_actions cb as post (fsm_timers (set_state_timeout d) s)
     | AGenericTimeout name d \<Rightarrow> process_actions cb as post (fsm_timers (set_generic_timeout name d) s)
     | ACancelTimeout name \<Rightarrow> process_actions cb as post (fsm_timers (cancel_generic_timeout name) s)
     | APostpone \<Rightarrow> process_actions cb as True s)"

definition handle_event_result :: "('s, 'e, 'd, 'c, 'r) fsm_callbacks \<Rightarrow> ('s, 'r) event_result \<Rightarrow> ('s, 'd) fsm \<Rightarrow> bool \<times> ('s, 'd) fsm" where
  "handle_event_result cb result s =
    (case result of
       NextState new \<Rightarrow> (False, transition_state cb new s)
     | NextStateTimeout new d \<Rightarrow> (False, fsm_timers (set_state_timeout d) (transition_state cb new s))
     | KeepState \<Rightarrow> (False, fsm_timers cancel_state_timeout s)
     | KeepStateTimeout d \<Rightarrow> (False, fsm_timers (set_state_timeout d) s)
     | NextStateActions new actions \<Rightarrow> process_actions cb actions False (transition_state cb new s)
     | KeepStateActions actions \<Rightarrow> process_actions cb actions False (fsm_timers cancel_state_timeout s)
     | EvStop reason \<Rightarrow> (False, fsm_terminate cb reason s)
     | EvStopReply reason origin reply \<Rightarrow> (False, fsm_terminate cb reason (fsm_send_reply cb origin reply s)))"

text \<open>The flag tells whether the loop is to be left.\<close>

definition handle_call_result :: "('s, 'e, 'd, 'c, 'r) fsm_callbacks \<Rightarrow> ('s, 'r) call_result \<Rightarrow> fsm_from \<Rightarrow> ('s, 'd) fsm \<Rightarrow> bool \<times> ('s, 'd) fsm" where
  "handle_call_result cb result origin s =
    (case result of
       CallReply reply new \<Rightarrow> (False, transition_state cb new (fsm_send_reply cb origin reply s))
     | CallReplyTimeout reply new d \<Rightarrow>
         (False, fsm_timers (set_state_timeout d) (transition_state cb new (fsm_send_reply cb origin reply s)))
     | CallNoReply new \<Rightarrow> (False, transition_state cb new s)
     | CallNoReplyTimeout new d \<Rightarrow> (False, fsm_timers (set_state_timeout d) (transition_state cb new s))
     | CallKeepStateReply reply \<Rightarrow> (False, fsm_send_reply cb origin reply s)
     | CallKeepState \<Rightarrow> (False, s)
     | CallStop reason reply new \<Rightarrow>
         (True, fsm_terminate cb reason ((fsm_send_reply cb origin reply s)\<lparr> fs_state := new \<rparr>))
     | CallStopNoReply reason new \<Rightarrow> (True, fsm_terminate cb reason (s\<lparr> fs_state := new \<rparr>)))"

text \<open>Sending a message to oneself.\<close>

definition fsm_send_self :: "fsm_message \<Rightarrow> ('s, 'd) fsm \<Rightarrow> ('s, 'd) fsm" where
  "fsm_send_self m s = s\<lparr> fs_mailbox := fs_mailbox s @ [FMsg m] \<rparr>"

definition timeout_message :: "timeout_event \<Rightarrow> fsm_message" where
  "timeout_message ev = (case ev of TState \<Rightarrow> FStateTimeout | TGeneric name \<Rightarrow> FGenericTimeout name)"

text \<open>One message: whether the loop goes on, and the state.\<close>

definition fsm_handle :: "('s, 'e, 'd, 'c, 'r) fsm_callbacks \<Rightarrow> fsm_raw \<Rightarrow> ('s, 'd) fsm \<Rightarrow> bool \<times> ('s, 'd) fsm" where
  "fsm_handle cb raw s =
    (case raw of
       FMalformed \<Rightarrow> (True, s)
     | FMsg (FEvent bytes) \<Rightarrow>
        (case fc_dec_event cb bytes of
           None \<Rightarrow> (True, s)
         | Some ev \<Rightarrow>
            (let (result, d) = fc_event cb (fs_state s) ev (fs_data s);
                 (post, s1) = handle_event_result cb result (s\<lparr> fs_data := d \<rparr>)
             in (True, if post then s1\<lparr> fs_postponed := fs_postponed s1 @ [raw] \<rparr> else s1)))
     | FMsg (FCall caller reference bytes) \<Rightarrow>
        (case fc_dec_call cb bytes of
           None \<Rightarrow> (True, s)
         | Some req \<Rightarrow>
            (let origin = \<lparr> ff_caller = caller, ff_reference = reference \<rparr>;
                 (result, d) = fc_call cb (fs_state s) req origin (fs_data s);
                 (stop, s1) = handle_call_result cb result origin (s\<lparr> fs_data := d \<rparr>)
             in (\<not> stop, s1)))
     | FMsg (FReply _ _) \<Rightarrow> (True, s)
     | FMsg FStateTimeout \<Rightarrow> (True, fsm_send_self (FEvent (fc_bytes cb ''state_timeout'')) s)
     | FMsg (FGenericTimeout name) \<Rightarrow> (True, fsm_send_self (FEvent (fc_bytes cb name)) s))"

text \<open>The next message: postponed events first, then timeouts, then the mailbox.\<close>

datatype 'x fsm_next = NextMsg fsm_raw 'x | NextClosed | NextWait

definition fsm_next :: "('s, 'd) fsm \<Rightarrow> ('s, 'd) fsm fsm_next" where
  "fsm_next s =
    (case fs_postponed s of
       raw # rest \<Rightarrow> NextMsg raw (s\<lparr> fs_postponed := rest \<rparr>)
     | [] \<Rightarrow>
        (case tm_queue (fs_timers s) of
           ev # rest \<Rightarrow> NextMsg (FMsg (timeout_message ev)) (fsm_timers (\<lambda>m. m\<lparr> tm_queue := rest \<rparr>) s)
         | [] \<Rightarrow>
            (case fs_mailbox s of
               raw # rest \<Rightarrow> NextMsg raw (s\<lparr> fs_mailbox := rest \<rparr>)
             | [] \<Rightarrow> if fs_closed s then NextClosed else NextWait)))"

text \<open>One round of the loop: \<open>None\<close> when it waits, otherwise whether it goes on.  Leaving the loop calls
  \<open>terminate\<close> with \<open>Normal\<close>.\<close>

definition fsm_round :: "('s, 'e, 'd, 'c, 'r) fsm_callbacks \<Rightarrow> ('s, 'd) fsm \<Rightarrow> (bool \<times> ('s, 'd) fsm) option" where
  "fsm_round cb s =
    (case fsm_next s of
       NextWait \<Rightarrow> None
     | NextClosed \<Rightarrow> Some (False, fsm_terminate cb Normal s)
     | NextMsg raw s1 \<Rightarrow>
        (let (go, s2) = fsm_handle cb raw s1 in Some (go, if go then s2 else fsm_terminate cb Normal s2)))"

fun fsm_rounds :: "('s, 'e, 'd, 'c, 'r) fsm_callbacks \<Rightarrow> nat \<Rightarrow> ('s, 'd) fsm \<Rightarrow> (bool \<times> ('s, 'd) fsm) option" where
  "fsm_rounds cb 0 s = Some (True, s)"
| "fsm_rounds cb (Suc n) s =
    (case fsm_round cb s of
       Some (True, s1) \<Rightarrow> fsm_rounds cb n s1
     | r \<Rightarrow> r)"

definition fsm_init_state :: "('s, 'e, 'd, 'c, 'r) fsm_callbacks \<Rightarrow> ('s, 'd) fsm_init \<Rightarrow> (fsm_start_error + ('s, 'd) fsm)" where
  "fsm_init_state cb res =
    (let start = (\<lambda>s d tm. Inr \<lparr> fs_state = s, fs_data = fc_enter cb s d, fs_timers = tm, fs_postponed = [], fs_mailbox = [],
                     fs_closed = False, fs_sent = [], fs_terminated = [] \<rparr>) in
     case res of
       InitOk s d \<Rightarrow> start s d tm_new
     | InitOkTimeout s d t \<Rightarrow> start s d (set_state_timeout t tm_new)
     | InitIgnore \<Rightarrow> Inl FsmIgnore
     | InitStop reason \<Rightarrow> Inl (FsmStop reason))"

section \<open>The caller\<close>

text \<open>What the wait of a call ends with: the bytes of the first message that arrives, a closed mailbox
  or a timeout.\<close>

datatype fsm_wait = GotMessage fsm_raw | GotClosed | GotTimeout

definition fsm_call :: "pid \<Rightarrow> (byte list \<Rightarrow> string + 'r) \<Rightarrow> bool \<Rightarrow> fsm_wait \<Rightarrow> fsm_call_error + 'r" where
  "fsm_call p dec sent w =
    (if \<not> sent then Inl (FsmProcessNotFound p)
     else case w of
       GotMessage raw \<Rightarrow>
         (case raw of
            FMsg (FReply _ bytes) \<Rightarrow> (case dec bytes of Inl e \<Rightarrow> Inl (FsmDecodeError e) | Inr reply \<Rightarrow> Inr reply)
          | _ \<Rightarrow> Inl (FsmDecodeError ''unexpected message type''))
     | GotClosed \<Rightarrow> Inl (FsmStopped Normal)
     | GotTimeout \<Rightarrow> Inl FsmTimeout)"

text \<open>The reference of the reply is not looked at: a late reply to an earlier call answers this one.\<close>

lemma fsm_call_takes_any_reply:
  "fsm_call p dec True (GotMessage (FMsg (FReply r bytes))) = fsm_call p dec True (GotMessage (FMsg (FReply r' bytes)))"
  by (simp add: fsm_call_def)

text \<open>Starting waits for the answer of \<open>init\<close>, which is missing when the process died before giving it.
  Sending an event only fails when the process is not there.\<close>

definition fsm_start :: "pid \<Rightarrow> (fsm_start_error + unit) option \<Rightarrow> fsm_start_error + pid" where
  "fsm_start p answer =
    (case answer of Some (Inr _) \<Rightarrow> Inr p | Some (Inl e) \<Rightarrow> Inl e | None \<Rightarrow> Inl FsmSpawnFailed)"

datatype send_event_error = EvProcessNotFound pid | EvEncodeError

definition fsm_send_event :: "(pid \<Rightarrow> fsm_raw \<Rightarrow> 'w \<Rightarrow> bool \<times> 'w) \<Rightarrow> pid \<Rightarrow> byte list \<Rightarrow> 'w \<Rightarrow> (send_event_error + unit) \<times> 'w" where
  "fsm_send_event send_raw p event w =
    (let (sent, w1) = send_raw p (FMsg (FEvent event)) w in (if sent then Inr () else Inl (EvProcessNotFound p), w1))"

section \<open>Timers follow the state\<close>

definition tm_ok :: "timeout_manager \<Rightarrow> bool" where
  "tm_ok m \<longleftrightarrow> hm_ok (tm_generic m) \<and> distinct (map fst (tm_running m)) \<and>
     (\<forall>t ev d. (t, ev, d) \<in> set (tm_running m) \<longrightarrow> t < tm_next m \<and>
        (case ev of TState \<Rightarrow> tm_state m = Some t | TGeneric name \<Rightarrow> hm_get (tm_generic m) name = Some t))"

lemma tm_okD:
  assumes "tm_ok m"
  shows "hm_ok (tm_generic m)" "distinct (map fst (tm_running m))"
    "(t, ev, d) \<in> set (tm_running m) \<Longrightarrow> t < tm_next m"
    "(t, TState, d) \<in> set (tm_running m) \<Longrightarrow> tm_state m = Some t"
    "(t, TGeneric name, d) \<in> set (tm_running m) \<Longrightarrow> hm_get (tm_generic m) name = Some t"
  using assms unfolding tm_ok_def by (fastforce split: timeout_event.splits)+

lemma tm_okI:
  assumes "hm_ok (tm_generic m)" "distinct (map fst (tm_running m))"
    "\<And>t ev d. (t, ev, d) \<in> set (tm_running m) \<Longrightarrow> t < tm_next m"
    "\<And>t d. (t, TState, d) \<in> set (tm_running m) \<Longrightarrow> tm_state m = Some t"
    "\<And>t name d. (t, TGeneric name, d) \<in> set (tm_running m) \<Longrightarrow> hm_get (tm_generic m) name = Some t"
  shows "tm_ok m"
  using assms unfolding tm_ok_def by (auto split: timeout_event.split)

lemma tm_new_ok [simp]: "tm_ok tm_new"
  by (simp add: tm_ok_def tm_new_def)

lemma distinct_filter_fst: "distinct (map fst xs) \<Longrightarrow> distinct (map fst (filter P xs))"
  by (induction xs) auto

lemma tm_cancel_ok [simp]: "tm_ok m \<Longrightarrow> tm_ok (tm_cancel t m)"
  by (auto simp: tm_ok_def tm_cancel_def distinct_filter_fst cong: timeout_event.case_cong)

lemma tm_queue_ok [simp]: "tm_ok (m\<lparr> tm_queue := q \<rparr>) = tm_ok m"
  by (simp add: tm_ok_def cong: timeout_event.case_cong)

lemma tm_next_fresh: "tm_ok m \<Longrightarrow> tm_next m \<notin> fst ` set (tm_running m)"
  using tm_okD(3) [of m "tm_next m"] by fastforce

lemma cancel_state_ok: "tm_ok m \<Longrightarrow> tm_ok (cancel_state_timeout m) \<and>
    (\<forall>t d. (t, TState, d) \<notin> set (tm_running (cancel_state_timeout m)))"
  unfolding cancel_state_timeout_def
proof (cases "tm_state m")
  case None
  assume ok: "tm_ok m"
  then have "(t, TState, d) \<notin> set (tm_running m)" for t d using tm_okD(4) [OF ok, of t d] None by auto
  then show "tm_ok (case tm_state m of Some t \<Rightarrow> tm_cancel t (m\<lparr> tm_state := None \<rparr>) | None \<Rightarrow> m) \<and>
      (\<forall>t d. (t, TState, d) \<notin> set (tm_running (case tm_state m of Some t \<Rightarrow> tm_cancel t (m\<lparr> tm_state := None \<rparr>) | None \<Rightarrow> m)))"
    using ok None by simp
next
  case (Some u)
  assume ok: "tm_ok m"
  have no: "t = u" if "(t, TState, d) \<in> set (tm_running m)" for t d using tm_okD(4) [OF ok that] Some by simp
  have "tm_ok (tm_cancel u (m\<lparr> tm_state := None \<rparr>))"
  proof (rule tm_okI)
    fix t d assume "(t, TState, d) \<in> set (tm_running (tm_cancel u (m\<lparr> tm_state := None \<rparr>)))"
    then show "tm_state (tm_cancel u (m\<lparr> tm_state := None \<rparr>)) = Some t" using no [of t d] by (simp add: tm_cancel_def)
  qed (use tm_okD [OF ok] in \<open>auto simp: tm_cancel_def distinct_filter_fst\<close>)
  then show "tm_ok (case tm_state m of Some t \<Rightarrow> tm_cancel t (m\<lparr> tm_state := None \<rparr>) | None \<Rightarrow> m) \<and>
      (\<forall>t d. (t, TState, d) \<notin> set (tm_running (case tm_state m of Some t \<Rightarrow> tm_cancel t (m\<lparr> tm_state := None \<rparr>) | None \<Rightarrow> m)))"
    using Some no by (auto simp: tm_cancel_def)
qed

lemma cancel_generic_ok: "tm_ok m \<Longrightarrow> tm_ok (cancel_generic_timeout name m) \<and>
    (\<forall>t d. (t, TGeneric name, d) \<notin> set (tm_running (cancel_generic_timeout name m)))"
proof (cases "hm_get (tm_generic m) name")
  case None
  assume ok: "tm_ok m"
  then have "(t, TGeneric name, d) \<notin> set (tm_running m)" for t d using tm_okD(5) [OF ok, of t name d] None by auto
  then show ?thesis using ok None by (simp add: cancel_generic_timeout_def)
next
  case (Some u)
  assume ok: "tm_ok m"
  have no: "t = u" if "(t, TGeneric name, d) \<in> set (tm_running m)" for t d using tm_okD(5) [OF ok that] Some by simp
  have "tm_ok (tm_cancel u (m\<lparr> tm_generic := hm_remove name (tm_generic m) \<rparr>))"
  proof (rule tm_okI)
    fix t n d assume "(t, TGeneric n, d) \<in> set (tm_running (tm_cancel u (m\<lparr> tm_generic := hm_remove name (tm_generic m) \<rparr>)))"
    then show "hm_get (tm_generic (tm_cancel u (m\<lparr> tm_generic := hm_remove name (tm_generic m) \<rparr>))) n = Some t"
      using no [of t d] tm_okD(5) [OF ok, of t n d] by (auto simp: tm_cancel_def)
  qed (use tm_okD [OF ok] in \<open>auto simp: tm_cancel_def distinct_filter_fst\<close>)
  then show ?thesis using Some no by (auto simp: cancel_generic_timeout_def tm_cancel_def)
qed

lemma set_state_ok: "tm_ok m \<Longrightarrow> tm_ok (set_state_timeout d m)"
proof (rule tm_okI)
  assume ok: "tm_ok m"
  note c = conjunct1 [OF cancel_state_ok [OF ok]]
  note no = conjunct2 [OF cancel_state_ok [OF ok]]
  show "distinct (map fst (tm_running (set_state_timeout d m)))"
    using tm_okD(2) [OF c] tm_next_fresh [OF c] by (auto simp: set_state_timeout_def tm_spawn_def Let_def)
  show "t < tm_next (set_state_timeout d m)" if "(t, ev, e) \<in> set (tm_running (set_state_timeout d m))" for t ev e
    using that tm_okD(3) [OF c, of t ev e] by (auto simp: set_state_timeout_def tm_spawn_def Let_def)
  show "hm_ok (tm_generic (set_state_timeout d m))"
    using tm_okD(1) [OF c] by (simp add: set_state_timeout_def tm_spawn_def Let_def)
  show "tm_state (set_state_timeout d m) = Some t" if "(t, TState, e) \<in> set (tm_running (set_state_timeout d m))" for t e
    using that no by (auto simp: set_state_timeout_def tm_spawn_def Let_def)
  show "hm_get (tm_generic (set_state_timeout d m)) n = Some t"
    if "(t, TGeneric n, e) \<in> set (tm_running (set_state_timeout d m))" for t n e
    using that tm_okD(5) [OF c, of t n e] by (auto simp: set_state_timeout_def tm_spawn_def Let_def)
qed

lemma set_generic_ok: "tm_ok m \<Longrightarrow> tm_ok (set_generic_timeout name d m)"
proof (rule tm_okI)
  assume ok: "tm_ok m"
  note c = conjunct1 [OF cancel_generic_ok [OF ok, of name]]
  note no = conjunct2 [OF cancel_generic_ok [OF ok, of name]]
  show "distinct (map fst (tm_running (set_generic_timeout name d m)))"
    using tm_okD(2) [OF c] tm_next_fresh [OF c] by (auto simp: set_generic_timeout_def tm_spawn_def Let_def)
  show "t < tm_next (set_generic_timeout name d m)" if "(t, ev, e) \<in> set (tm_running (set_generic_timeout name d m))" for t ev e
    using that tm_okD(3) [OF c, of t ev e] by (auto simp: set_generic_timeout_def tm_spawn_def Let_def)
  show "hm_ok (tm_generic (set_generic_timeout name d m))"
    using tm_okD(1) [OF c] by (simp add: set_generic_timeout_def tm_spawn_def Let_def)
  show "tm_state (set_generic_timeout name d m) = Some t" if "(t, TState, e) \<in> set (tm_running (set_generic_timeout name d m))" for t e
    using that tm_okD(4) [OF c, of t e] by (auto simp: set_generic_timeout_def tm_spawn_def Let_def)
  show "hm_get (tm_generic (set_generic_timeout name d m)) n = Some t"
    if "(t, TGeneric n, e) \<in> set (tm_running (set_generic_timeout name d m))" for t n e
    using that tm_okD(5) [OF c, of t n e] no by (auto simp: set_generic_timeout_def tm_spawn_def Let_def)
qed

lemma cancels_ok: "tm_ok m \<Longrightarrow> tm_ok (fold tm_cancel ts m)"
  by (induction ts arbitrary: m) auto

lemma cancels_running: "tm_running (fold tm_cancel ts m) = filter (\<lambda>(u, _). u \<notin> set ts) (tm_running m)"
  by (induction ts arbitrary: m) (auto simp: tm_cancel_def intro: filter_cong)

text \<open>A change of state stops every timer task.\<close>

lemma cancel_all_none:
  assumes ok: "tm_ok m"
  shows "tm_running (cancel_all m) = []" "tm_ok (cancel_all m)"
proof -
  let ?m1 = "cancel_state_timeout m"
  have ok1: "tm_ok ?m1" and no: "(t, TState, d) \<notin> set (tm_running ?m1)" for t d
    using cancel_state_ok [OF ok] by blast+
  have "t \<in> set (hm_values (tm_generic ?m1))" if "(t, ev, d) \<in> set (tm_running ?m1)" for t ev d
  proof (cases ev)
    case TState
    then show ?thesis using that no by blast
  next
    case (TGeneric name)
    then have "hm_get (tm_generic ?m1) name = Some t" using tm_okD(5) [OF ok1] that by blast
    then show ?thesis by (auto simp: hm_values_def image_iff dest: hm_get_in_set intro: bexI [of _ "(name, t)"])
  qed
  then have none: "tm_running (fold tm_cancel (hm_values (tm_generic ?m1)) ?m1) = []"
    by (auto simp: cancels_running filter_empty_conv)
  then show "tm_running (cancel_all m) = []" by (simp add: cancel_all_def Let_def)
  then show "tm_ok (cancel_all m)" by (simp add: tm_ok_def) (simp add: cancel_all_def Let_def)
qed

lemma tm_fire_ok: "tm_ok m \<Longrightarrow> tm_ok (tm_fire t m)"
  by (auto simp: tm_fire_def split: option.split)

text \<open>Timeouts that have fired stay queued, whatever is cancelled or set.\<close>

lemma timers_queue:
  "tm_queue (tm_cancel t m) = tm_queue m" "tm_queue (cancel_state_timeout m) = tm_queue m"
  "tm_queue (set_state_timeout d m) = tm_queue m" "tm_queue (cancel_generic_timeout name m) = tm_queue m"
  "tm_queue (set_generic_timeout name d m) = tm_queue m" "tm_queue (cancel_all m) = tm_queue m"
proof -
  have fold: "tm_queue (fold tm_cancel ts m) = tm_queue m" for ts m
    by (induction ts arbitrary: m) (simp_all add: tm_cancel_def)
  show "tm_queue (tm_cancel t m) = tm_queue m" "tm_queue (cancel_state_timeout m) = tm_queue m"
    "tm_queue (set_state_timeout d m) = tm_queue m" "tm_queue (cancel_generic_timeout name m) = tm_queue m"
    "tm_queue (set_generic_timeout name d m) = tm_queue m" "tm_queue (cancel_all m) = tm_queue m"
    by (simp_all add: tm_cancel_def cancel_state_timeout_def set_state_timeout_def cancel_generic_timeout_def
        set_generic_timeout_def cancel_all_def tm_spawn_def Let_def fold split: option.split)
qed

section \<open>Runs\<close>

inductive fsm_step :: "('s, 'e, 'd, 'c, 'r) fsm_callbacks \<Rightarrow> ('s, 'd) fsm \<Rightarrow> ('s, 'd) fsm \<Rightarrow> bool" for cb where
  round: "fsm_round cb s = Some (go, s') \<Longrightarrow> fsm_step cb s s'"
| arrive: "\<not> fs_closed s \<Longrightarrow> fsm_step cb s (s\<lparr> fs_mailbox := fs_mailbox s @ [raw] \<rparr>)"
| fire: "fsm_step cb s (fsm_timers (tm_fire t) s)"
| close: "fsm_step cb s (s\<lparr> fs_closed := True \<rparr>)"

abbreviation timers_ok :: "('s, 'd) fsm \<Rightarrow> bool" where
  "timers_ok s \<equiv> tm_ok (fs_timers s)"

lemma timers_ok_simps [simp]:
  "timers_ok (fsm_send_reply cb origin reply s) = timers_ok s" "timers_ok (fsm_terminate cb reason s) = timers_ok s"
  "timers_ok (fsm_send_self m s) = timers_ok s" "timers_ok (fsm_timers f s) = tm_ok (f (fs_timers s))"
  "timers_ok s \<Longrightarrow> timers_ok (transition_state cb new s)"
  by (simp_all add: fsm_send_reply_def fsm_terminate_def fsm_send_self_def fsm_timers_def transition_state_def cancel_all_none)

lemma process_actions_ok: "timers_ok s \<Longrightarrow> timers_ok (snd (process_actions cb as post s))"
  by (induction cb as post s rule: process_actions.induct)
    (auto simp: set_state_ok set_generic_ok cancel_generic_ok split: state_action.split)

lemma event_result_ok: "timers_ok s \<Longrightarrow> timers_ok (snd (handle_event_result cb result s))"
  by (auto simp: handle_event_result_def set_state_ok cancel_state_ok process_actions_ok split: event_result.split)

lemma call_result_ok: "timers_ok s \<Longrightarrow> timers_ok (snd (handle_call_result cb result origin s))"
  by (auto simp: handle_call_result_def set_state_ok split: call_result.split)

lemma fsm_handle_ok: "timers_ok s \<Longrightarrow> timers_ok (snd (fsm_handle cb raw s))"
  using event_result_ok [of "s\<lparr> fs_data := d \<rparr>" cb for d] call_result_ok [of "s\<lparr> fs_data := d \<rparr>" cb for d]
  by (auto simp: fsm_handle_def Let_def split_def split: fsm_raw.split fsm_message.split option.split)

lemma fsm_round_ok:
  assumes "fsm_round cb s = Some (go, s')" "timers_ok s"
  shows "timers_ok s'"
proof (cases "fsm_next s")
  case (NextMsg raw s1)
  have "timers_ok s1"
    using NextMsg assms(2) by (auto simp: fsm_next_def split: list.splits if_splits)
  then have "timers_ok (snd (fsm_handle cb raw s1))" by (rule fsm_handle_ok)
  then show ?thesis using assms(1) NextMsg by (auto simp: fsm_round_def Let_def split_def split: if_splits)
qed (use assms in \<open>auto simp: fsm_round_def\<close>)

lemma fsm_step_ok: "fsm_step cb s s' \<Longrightarrow> timers_ok s \<Longrightarrow> timers_ok s'"
  by (induction rule: fsm_step.induct) (auto simp: fsm_round_ok tm_fire_ok)

lemma fsm_steps_ok: "(fsm_step cb)\<^sup>*\<^sup>* s s' \<Longrightarrow> timers_ok s \<Longrightarrow> timers_ok s'"
  by (induction rule: rtranclp_induct) (auto intro: fsm_step_ok)
section \<open>Properties\<close>

lemma init_timers_ok: "fsm_init_state cb res = Inr s \<Longrightarrow> timers_ok s"
  by (auto simp: fsm_init_state_def set_state_ok split: fsm_init.splits)

text \<open>C27. Only current timers run.  In every run of a state machine a running timer task is the state
  timeout or the latest timeout of its name, so there is at most one of each; a change of state leaves
  no task running.  Timeouts that have fired already stay queued through a change of state and are
  delivered in the new state.\<close>

theorem fsm_timers_follow_state:
  assumes "fsm_init_state cb res = Inr s" "(fsm_step cb)\<^sup>*\<^sup>* s s'"
  shows "(\<forall>t d. (t, TState, d) \<in> set (tm_running (fs_timers s')) \<longrightarrow> tm_state (fs_timers s') = Some t) \<and>
    (\<forall>t name d. (t, TGeneric name, d) \<in> set (tm_running (fs_timers s')) \<longrightarrow>
       hm_get (tm_generic (fs_timers s')) name = Some t) \<and>
    tm_running (fs_timers (transition_state cb new s')) = [] \<and>
    tm_queue (fs_timers (transition_state cb new s')) = tm_queue (fs_timers s')"
proof -
  have ok: "timers_ok s'" by (rule fsm_steps_ok [OF assms(2) init_timers_ok [OF assms(1)]])
  then show ?thesis
    using tm_okD(4,5) [OF ok] by (auto simp: transition_state_def cancel_all_none timers_queue)
qed

definition ex_cb :: "(nat, nat, nat, nat, nat) fsm_callbacks" where
  "ex_cb = \<lparr> fc_event = (\<lambda>s e d.
       (if e = 0 then KeepStateActions [APostpone] else if e = 1 then EvStop Shutdown else NextStateTimeout e 5, d)),
     fc_call = (\<lambda>s c origin d. (CallStopNoReply Shutdown s, d)), fc_enter = (\<lambda>s d. d), fc_exit = (\<lambda>s d. d),
     fc_terminate = (\<lambda>r s d. d), fc_dec_event = (\<lambda>bs. Some (length bs)), fc_dec_call = (\<lambda>bs. Some 0),
     fc_enc_reply = (\<lambda>_. []), fc_bytes = (\<lambda>_. []) \<rparr>"

definition ex_fsm :: "(nat, nat) fsm" where
  "ex_fsm = \<lparr> fs_state = 0, fs_data = 0, fs_timers = set_state_timeout 5 tm_new, fs_postponed = [], fs_mailbox = [],
     fs_closed = False, fs_sent = [], fs_terminated = [] \<rparr>"

theorem fsm_timers_follow_state_witness:
  "tm_queue (fs_timers (transition_state ex_cb 3 (fsm_timers (tm_fire 0) ex_fsm))) = [TState]"
proof -
  have init: "fsm_init_state ex_cb (InitOkTimeout 0 0 5) = Inr ex_fsm"
    by (simp add: fsm_init_state_def ex_fsm_def ex_cb_def Let_def)
  have "(fsm_step ex_cb)\<^sup>*\<^sup>* ex_fsm (fsm_timers (tm_fire 0) ex_fsm)" by (intro r_into_rtranclp fsm_step.fire)
  from fsm_timers_follow_state [OF init this, of 3]
  have "tm_queue (fs_timers (transition_state ex_cb 3 (fsm_timers (tm_fire 0) ex_fsm))) =
      tm_queue (fs_timers (fsm_timers (tm_fire 0) ex_fsm))" by (elim conjE)
  also have "\<dots> = [TState]" by code_simp
  finally show ?thesis .
qed

text \<open>Stopping from an event does not stop the process.  When the event callback asks to stop, its
  \<open>terminate\<close> is called, but the loop goes on in the same state with the next message.  When a call
  callback asks to stop, the loop ends, and \<open>terminate\<close> has been called twice, with the reason and
  with \<open>Normal\<close>.\<close>

lemma fsm_stop_semantics:
  assumes "fs_postponed s = []" "tm_queue (fs_timers s) = []" "fs_mailbox s = FMsg msg # rest"
  shows "(case msg of
      FEvent bytes \<Rightarrow>
        (case fc_dec_event cb bytes of
           Some e \<Rightarrow>
             (case fst (fc_event cb (fs_state s) e (fs_data s)) of
                EvStop reason \<Rightarrow> (\<exists>s'. fsm_round cb s = Some (True, s') \<and> fs_terminated s' = fs_terminated s @ [reason] \<and>
                  fs_state s' = fs_state s \<and> fs_mailbox s' = rest)
              | _ \<Rightarrow> True)
         | None \<Rightarrow> True)
    | FCall caller r bytes \<Rightarrow>
        (case fc_dec_call cb bytes of
           Some c \<Rightarrow>
             (case fst (fc_call cb (fs_state s) c \<lparr> ff_caller = caller, ff_reference = r \<rparr> (fs_data s)) of
                CallStopNoReply reason new \<Rightarrow> (\<exists>s'. fsm_round cb s = Some (False, s') \<and>
                  fs_terminated s' = fs_terminated s @ [reason, Normal] \<and> fs_state s' = new)
              | _ \<Rightarrow> True)
         | None \<Rightarrow> True)
    | _ \<Rightarrow> True)"
proof -
  have next_msg: "fsm_next s = NextMsg (FMsg msg) (s\<lparr> fs_mailbox := rest \<rparr>)"
    using assms by (simp add: fsm_next_def)
  show ?thesis
    by (auto simp: fsm_round_def next_msg fsm_handle_def handle_event_result_def handle_call_result_def
        fsm_terminate_def Let_def split_def split: fsm_message.split option.split event_result.split call_result.split)
qed

lemma process_actions_frame:
  "fs_mailbox (snd (process_actions cb as post s)) = fs_mailbox s \<and>
   fs_postponed (snd (process_actions cb as post s)) = fs_postponed s \<and>
   fs_state (snd (process_actions cb as post s)) = fs_state s \<and>
   tm_queue (fs_timers (snd (process_actions cb as post s))) = tm_queue (fs_timers s) \<and>
   fs_terminated (snd (process_actions cb as post s)) = fs_terminated s \<and>
   (fst (process_actions cb as post s) \<longleftrightarrow> post \<or> APostpone \<in> set as)"
  by (induction cb as post s rule: process_actions.induct)
    (auto simp: fsm_timers_def fsm_send_reply_def timers_queue split: state_action.split)

text \<open>A postponed event that stays postponed starves the process.  Postponed events are taken before
  anything else, in the same state as well, so when the callback keeps the state and postpones the
  event again, the process loops for ever without taking a timeout or a message from its mailbox.\<close>

lemma postponed_event_starves_mailbox:
  assumes "fs_postponed s = [FMsg (FEvent bytes)]" "fc_dec_event cb bytes = Some e"
    and "\<forall>d. \<exists>as d'. fc_event cb (fs_state s) e d = (KeepStateActions as, d') \<and> APostpone \<in> set as"
  shows "\<exists>s'. fsm_rounds cb n s = Some (True, s') \<and> fs_mailbox s' = fs_mailbox s \<and>
    tm_queue (fs_timers s') = tm_queue (fs_timers s) \<and> fs_postponed s' = fs_postponed s \<and> fs_state s' = fs_state s"
  using assms
proof (induction n arbitrary: s)
  case (Suc n)
  obtain as d' where ev: "fc_event cb (fs_state s) e (fs_data s) = (KeepStateActions as, d')" "APostpone \<in> set as"
    using Suc.prems(3) by blast
  let ?s = "fsm_timers cancel_state_timeout (s\<lparr> fs_postponed := [], fs_data := d' \<rparr>)"
  obtain post s1 where pa: "process_actions cb as False ?s = (post, s1)" by (metis surj_pair)
  have frame: "fs_mailbox s1 = fs_mailbox s" "fs_postponed s1 = []" "fs_state s1 = fs_state s"
    "tm_queue (fs_timers s1) = tm_queue (fs_timers s)" "post"
    using process_actions_frame [of cb as False ?s] pa ev(2) by (simp_all add: fsm_timers_def timers_queue)
  let ?s' = "s1\<lparr> fs_postponed := [FMsg (FEvent bytes)] \<rparr>"
  have step: "fsm_round cb s = Some (True, ?s')"
    using Suc.prems(1,2) ev(1) pa frame
    by (simp add: fsm_round_def fsm_next_def fsm_handle_def handle_event_result_def)
  have "\<exists>s'. fsm_rounds cb n ?s' = Some (True, s') \<and> fs_mailbox s' = fs_mailbox ?s' \<and>
    tm_queue (fs_timers s') = tm_queue (fs_timers ?s') \<and> fs_postponed s' = fs_postponed ?s' \<and> fs_state s' = fs_state ?s'"
    by (rule Suc.IH) (use Suc.prems frame in simp_all)
  then show ?case using step frame Suc.prems(1) by simp
qed simp

end
