(* ===== verification/ProcMonitor.thy ===== *)
theory ProcMonitor
  imports Runtime Codec
begin

text \<open>
  Monitors and links between processes of different nodes (\<open>distribution/process_monitor.rs\<close>).  The
  operations work on the registry of remote monitors and links, on the node's own runtime and on the
  messages handed to the queues of connected nodes; \<open>conn\<close> lists the nodes that have such a queue.  A
  full queue drops its message, which the model does not show.
\<close>

section \<open>State\<close>

type_synonym dist_out = "(node \<times> dist_message) list"

record node_tracking =
  nt_outgoing :: "(pid \<times> pid \<times> ref) list"
  nt_incoming :: "(pid \<times> pid \<times> ref) list"
  nt_links :: "(pid \<times> pid) list"

definition nt_new :: node_tracking where
  "nt_new = \<lparr> nt_outgoing = [], nt_incoming = [], nt_links = [] \<rparr>"

record proc_monitors =
  pm_outgoing :: "(pid \<times> ref, pid) hmap"
  pm_incoming :: "(pid, (pid \<times> ref) list) hmap"
  pm_links :: "(pid, pid list) hmap"
  pm_tracking :: "(node, node_tracking) hmap"

definition pm_new :: proc_monitors where
  "pm_new = \<lparr> pm_outgoing = [], pm_incoming = [], pm_links = [], pm_tracking = [] \<rparr>"

record dist_local =
  dl_pm :: proc_monitors
  dl_rt :: runtime
  dl_out :: dist_out

definition dl_monitors :: "(proc_monitors \<Rightarrow> proc_monitors) \<Rightarrow> 'a dist_local_scheme \<Rightarrow> 'a dist_local_scheme" where
  "dl_monitors f w = w\<lparr> dl_pm := f (dl_pm w) \<rparr>"

definition dl_runtime :: "(runtime \<Rightarrow> runtime) \<Rightarrow> 'a dist_local_scheme \<Rightarrow> 'a dist_local_scheme" where
  "dl_runtime f w = w\<lparr> dl_rt := f (dl_rt w) \<rparr>"

text \<open>\<open>get_node_tx\<close> followed by \<open>try_send\<close>.\<close>

definition dl_send :: "node list \<Rightarrow> node \<Rightarrow> dist_message \<Rightarrow> 'a dist_local_scheme \<Rightarrow> 'a dist_local_scheme" where
  "dl_send conn n msg w = (if n \<in> set conn then w\<lparr> dl_out := dl_out w @ [(n, msg)] \<rparr> else w)"

section \<open>Monitors\<close>

definition add_outgoing_monitor :: "pid \<Rightarrow> pid \<Rightarrow> ref \<Rightarrow> proc_monitors \<Rightarrow> proc_monitors" where
  "add_outgoing_monitor watcher target r m =
    m\<lparr> pm_outgoing := hm_insert (target, r) watcher (pm_outgoing m),
       pm_tracking := hm_entry (pid_node target) nt_new
         (\<lambda>t. t\<lparr> nt_outgoing := nt_outgoing t @ [(watcher, target, r)] \<rparr>) (pm_tracking m) \<rparr>"

definition remove_outgoing_monitor :: "pid \<Rightarrow> ref \<Rightarrow> proc_monitors \<Rightarrow> proc_monitors" where
  "remove_outgoing_monitor target r m = m\<lparr> pm_outgoing := hm_remove (target, r) (pm_outgoing m) \<rparr>"

definition handle_process_down :: "ref \<Rightarrow> pid \<Rightarrow> string \<Rightarrow> 'a dist_local_scheme \<Rightarrow> 'a dist_local_scheme" where
  "handle_process_down r p reason w =
    (case hm_get (pm_outgoing (dl_pm w)) (p, r) of
       None \<Rightarrow> w
     | Some watcher \<Rightarrow>
         dl_runtime (\<lambda>s. snd (rt_send_raw watcher (PSystem (Down r p (exit_from_str reason))) s))
           (dl_monitors (remove_outgoing_monitor p r) w))"

definition add_incoming_monitor :: "pid \<Rightarrow> pid \<Rightarrow> ref \<Rightarrow> node \<Rightarrow> proc_monitors \<Rightarrow> proc_monitors" where
  "add_incoming_monitor target watcher r origin m =
    m\<lparr> pm_incoming := hm_entry target [] (List.insert (watcher, r)) (pm_incoming m),
       pm_tracking := hm_entry origin nt_new
         (\<lambda>t. t\<lparr> nt_incoming := nt_incoming t @ [(target, watcher, r)] \<rparr>) (pm_tracking m) \<rparr>"

definition remove_incoming_monitor :: "pid \<Rightarrow> pid \<Rightarrow> ref \<Rightarrow> proc_monitors \<Rightarrow> proc_monitors" where
  "remove_incoming_monitor target watcher r m =
    m\<lparr> pm_incoming := hm_get_mut target (removeAll (watcher, r)) (pm_incoming m) \<rparr>"

section \<open>Links\<close>

definition add_remote_link :: "pid \<Rightarrow> pid \<Rightarrow> proc_monitors \<Rightarrow> proc_monitors" where
  "add_remote_link here there m =
    m\<lparr> pm_links := hm_entry here [] (List.insert there) (pm_links m),
       pm_tracking := hm_entry (pid_node there) nt_new
         (\<lambda>t. t\<lparr> nt_links := nt_links t @ [(here, there)] \<rparr>) (pm_tracking m) \<rparr>"

definition remove_remote_link :: "pid \<Rightarrow> pid \<Rightarrow> proc_monitors \<Rightarrow> proc_monitors" where
  "remove_remote_link here there m = m\<lparr> pm_links := hm_get_mut here (removeAll there) (pm_links m) \<rparr>"

definition handle_incoming_link :: "node list \<Rightarrow> pid \<Rightarrow> pid \<Rightarrow> node \<Rightarrow> 'a dist_local_scheme \<Rightarrow> 'a dist_local_scheme" where
  "handle_incoming_link conn source target origin w =
    (if rt_alive target (dl_rt w)
     then dl_runtime (rt_update target (handle_add_link source)) (dl_monitors (add_remote_link target source) w)
     else dl_send conn origin (ExitProcess target source ''noproc'') w)"

definition handle_incoming_unlink :: "pid \<Rightarrow> pid \<Rightarrow> 'a dist_local_scheme \<Rightarrow> 'a dist_local_scheme" where
  "handle_incoming_unlink source target w =
    dl_runtime (rt_update target (handle_remove_link source)) (dl_monitors (remove_remote_link target source) w)"

definition handle_incoming_exit :: "pid \<Rightarrow> pid \<Rightarrow> string \<Rightarrow> 'a dist_local_scheme \<Rightarrow> 'a dist_local_scheme" where
  "handle_incoming_exit source target reason w =
    (let w1 = dl_monitors (remove_remote_link target source) w in
     case rt_get (dl_rt w1) target of
       None \<Rightarrow> w1
     | Some q \<Rightarrow>
        (let w2 = dl_runtime (rt_update target (handle_remove_link source)) w1; r = exit_from_str reason in
         if is_killed r then dl_runtime (rt_update target (handle_mark_terminated Killed)) w2
         else if pr_trap_exit q then dl_runtime (\<lambda>s. snd (rt_handle_send target (PSystem (Exit source r)) s)) w2
         else if is_abnormal r then dl_runtime (rt_update target (handle_mark_terminated r)) w2
         else w2))"

section \<open>The exit of a process\<close>

definition exit_links :: "node list \<Rightarrow> pid \<Rightarrow> exit_reason \<Rightarrow> 'a dist_local_scheme \<Rightarrow> 'a dist_local_scheme" where
  "exit_links conn p reason w =
    (case hm_get (pm_links (dl_pm w)) p of
       None \<Rightarrow> w
     | Some others \<Rightarrow>
         fold (\<lambda>other. dl_send conn (pid_node other) (ExitProcess p other (exit_display reason))) others
           (dl_monitors (\<lambda>m. m\<lparr> pm_links := hm_remove p (pm_links m) \<rparr>) w))"

definition notify_local_process_down :: "node list \<Rightarrow> pid \<Rightarrow> exit_reason \<Rightarrow> 'a dist_local_scheme \<Rightarrow> 'a dist_local_scheme" where
  "notify_local_process_down conn p reason w =
    (let w1 =
       (case hm_get (pm_incoming (dl_pm w)) p of
          None \<Rightarrow> w
        | Some ws \<Rightarrow>
            fold (\<lambda>(watcher, r). dl_send conn (pid_node watcher) (ProcessDown r p (exit_display reason))) ws
              (dl_monitors (\<lambda>m. m\<lparr> pm_incoming := hm_remove p (pm_incoming m) \<rparr>) w))
     in exit_links conn p reason
          (dl_monitors (\<lambda>m. m\<lparr> pm_outgoing := hm_retain (\<lambda>(target, _) watcher. watcher \<noteq> p \<or> target = p) (pm_outgoing m) \<rparr>) w1))"

text \<open>The end of a task, together with what the runtime reports to the distribution layer.\<close>

definition dist_task_end :: "node list \<Rightarrow> pid \<Rightarrow> exit_reason option \<Rightarrow> 'a dist_local_scheme \<Rightarrow> 'a dist_local_scheme" where
  "dist_task_end conn p custom w =
    (let s = rt_task_end p custom (dl_rt w)
     in fold (\<lambda>(p, reason). notify_local_process_down conn p reason)
          (drop (length (rt_reported_down (dl_rt w))) (rt_reported_down s)) (w\<lparr> dl_rt := s \<rparr>))"

section \<open>The loss of a node\<close>

definition node_down_outgoing :: "pid \<times> pid \<times> ref \<Rightarrow> 'a dist_local_scheme \<Rightarrow> 'a dist_local_scheme" where
  "node_down_outgoing = (\<lambda>(watcher, target, r) w.
    dl_runtime (\<lambda>s. snd (rt_send_raw watcher (PSystem (Down r target (Error ''noconnection''))) s))
      (dl_monitors (remove_outgoing_monitor target r) w))"

definition node_down_incoming :: "pid \<times> pid \<times> ref \<Rightarrow> 'a dist_local_scheme \<Rightarrow> 'a dist_local_scheme" where
  "node_down_incoming = (\<lambda>(target, watcher, _).
    dl_monitors (\<lambda>m. m\<lparr> pm_incoming := hm_get_mut target (filter (\<lambda>(p, _). p \<noteq> watcher)) (pm_incoming m) \<rparr>))"

definition node_down_link :: "pid \<times> pid \<Rightarrow> 'a dist_local_scheme \<Rightarrow> 'a dist_local_scheme" where
  "node_down_link = (\<lambda>(here, there) w.
    (let w1 = dl_monitors (remove_remote_link here there) w in
     case rt_get (dl_rt w1) here of
       None \<Rightarrow> w1
     | Some q \<Rightarrow>
        (let w2 = dl_runtime (rt_update here (handle_remove_link there)) w1 in
         if pr_trap_exit q
         then dl_runtime (\<lambda>s. snd (rt_handle_send here (PSystem (Exit there (Error ''noconnection''))) s)) w2
         else dl_runtime (rt_update here (handle_mark_terminated (Error ''noconnection''))) w2)))"

definition pm_node_down :: "node \<Rightarrow> 'a dist_local_scheme \<Rightarrow> 'a dist_local_scheme" where
  "pm_node_down n w =
    (case hm_get (pm_tracking (dl_pm w)) n of
       None \<Rightarrow> w
     | Some t \<Rightarrow>
         fold node_down_link (nt_links t)
           (fold node_down_incoming (nt_incoming t)
             (fold node_down_outgoing (nt_outgoing t)
               (dl_monitors (\<lambda>m. m\<lparr> pm_tracking := hm_remove n (pm_tracking m) \<rparr>) w))))"

section \<open>The interface for processes\<close>

text \<open>\<open>up\<close> tells whether distribution has been initialised, \<open>me\<close> is the calling process.\<close>

definition monitor_process :: "bool \<Rightarrow> node list \<Rightarrow> pid \<Rightarrow> pid \<Rightarrow> 'a dist_local_scheme \<Rightarrow> (dist_error + ref) \<times> 'a dist_local_scheme" where
  "monitor_process up conn me target w =
    (if rt_local (dl_rt w) target
     then (Inl (InvalidAddress ''Cannot use dist::monitor_process for local process''), w)
     else if \<not> up then (Inl NotInitialized, w)
     else
       (let (r, s) = rt_new_ref (dl_rt w);
            w1 = dl_monitors (add_outgoing_monitor me target r) (w\<lparr> dl_rt := s \<rparr>)
        in if pid_node target \<in> set conn
           then (Inr r, dl_send conn (pid_node target) (MonitorProcess me target r) w1)
           else (Inl (NotConnected (pid_node target)), dl_monitors (remove_outgoing_monitor target r) w1)))"

definition demonitor_process :: "bool \<Rightarrow> node list \<Rightarrow> pid \<Rightarrow> pid \<Rightarrow> ref \<Rightarrow> 'a dist_local_scheme \<Rightarrow> (dist_error + unit) \<times> 'a dist_local_scheme" where
  "demonitor_process up conn me target r w =
    (if \<not> up then (Inl NotInitialized, w)
     else (Inr (), dl_send conn (pid_node target) (DemonitorProcess me target r)
                     (dl_monitors (remove_outgoing_monitor target r) w)))"

definition link_process :: "bool \<Rightarrow> node list \<Rightarrow> pid \<Rightarrow> pid \<Rightarrow> 'a dist_local_scheme \<Rightarrow> (dist_error + unit) \<times> 'a dist_local_scheme" where
  "link_process up conn me other w =
    (if rt_local (dl_rt w) other
     then (Inl (InvalidAddress ''Cannot use dist::link_process for local process''), w)
     else if \<not> up then (Inl NotInitialized, w)
     else
       (let w1 = dl_runtime (rt_update me (handle_add_link other)) (dl_monitors (add_remote_link me other) w)
        in if pid_node other \<in> set conn
           then (Inr (), dl_send conn (pid_node other) (LinkProcess me other) w1)
           else (Inl (NotConnected (pid_node other)), dl_monitors (remove_remote_link me other) w1)))"

definition unlink_process :: "bool \<Rightarrow> node list \<Rightarrow> pid \<Rightarrow> pid \<Rightarrow> 'a dist_local_scheme \<Rightarrow> (dist_error + unit) \<times> 'a dist_local_scheme" where
  "unlink_process up conn me other w =
    (if \<not> up then (Inl NotInitialized, w)
     else (Inr (), dl_send conn (pid_node other) (UnlinkProcess me other)
                     (dl_runtime (rt_update me (handle_remove_link other)) (dl_monitors (remove_remote_link me other) w))))"

section \<open>What the operations do to the registry\<close>

lemma dl_simps [simp]:
  "dl_pm (dl_monitors f w) = f (dl_pm w)" "dl_rt (dl_monitors f w) = dl_rt w" "dl_out (dl_monitors f w) = dl_out w"
  "dl_pm (dl_runtime g w) = dl_pm w" "dl_rt (dl_runtime g w) = g (dl_rt w)" "dl_out (dl_runtime g w) = dl_out w"
  "dl_pm (dl_send conn n msg w) = dl_pm w" "dl_rt (dl_send conn n msg w) = dl_rt w"
  "dl_out (dl_send conn n msg w) = dl_out w @ (if n \<in> set conn then [(n, msg)] else [])"
  by (simp_all add: dl_monitors_def dl_runtime_def dl_send_def)

lemma fold_send [simp]:
  "dl_pm (fold (\<lambda>x. dl_send conn (to x) (msg x)) xs w) = dl_pm w"
  "dl_rt (fold (\<lambda>x. dl_send conn (to x) (msg x)) xs w) = dl_rt w"
  "dl_out (fold (\<lambda>x. dl_send conn (to x) (msg x)) xs w) =
     dl_out w @ map (\<lambda>x. (to x, msg x)) (filter (\<lambda>x. to x \<in> set conn) xs)"
  by (induction xs arbitrary: w) auto

lemma fold_send_pair [simp]:
  "dl_pm (fold (\<lambda>(x, y). dl_send conn (to x) (msg x y)) xs w) = dl_pm w"
  "dl_rt (fold (\<lambda>(x, y). dl_send conn (to x) (msg x y)) xs w) = dl_rt w"
  "dl_out (fold (\<lambda>(x, y). dl_send conn (to x) (msg x y)) xs w) =
     dl_out w @ map (\<lambda>(x, y). (to x, msg x y)) (filter (\<lambda>(x, y). to x \<in> set conn) xs)"
  by (induction xs arbitrary: w) auto

definition pm_track :: "proc_monitors \<Rightarrow> node \<Rightarrow> node_tracking" where
  "pm_track m n = (case hm_get (pm_tracking m) n of None \<Rightarrow> nt_new | Some t \<Rightarrow> t)"

lemma nt_new_fields [simp]: "nt_outgoing nt_new = []" "nt_incoming nt_new = []" "nt_links nt_new = []"
  by (simp_all add: nt_new_def)

lemma pm_track_simps [simp]:
  "pm_track (add_outgoing_monitor w t r m) n =
    (if n = pid_node t then (pm_track m n)\<lparr> nt_outgoing := nt_outgoing (pm_track m n) @ [(w, t, r)] \<rparr> else pm_track m n)"
  "pm_track (add_incoming_monitor t w r origin m) n =
    (if n = origin then (pm_track m n)\<lparr> nt_incoming := nt_incoming (pm_track m n) @ [(t, w, r)] \<rparr> else pm_track m n)"
  "pm_track (add_remote_link h t m) n =
    (if n = pid_node t then (pm_track m n)\<lparr> nt_links := nt_links (pm_track m n) @ [(h, t)] \<rparr> else pm_track m n)"
  "pm_track (remove_outgoing_monitor t r m) n = pm_track m n"
  "pm_track (remove_incoming_monitor t w r m) n = pm_track m n"
  "pm_track (remove_remote_link h t m) n = pm_track m n"
  "pm_track (pm_outgoing_update f m) n = pm_track m n"
  "pm_track (pm_incoming_update g m) n = pm_track m n"
  "pm_track (pm_links_update h' m) n = pm_track m n"
  by (simp_all add: pm_track_def add_outgoing_monitor_def add_incoming_monitor_def add_remote_link_def
      remove_outgoing_monitor_def remove_incoming_monitor_def remove_remote_link_def)

definition forget_incoming :: "pid \<times> pid \<times> ref \<Rightarrow> proc_monitors \<Rightarrow> proc_monitors" where
  "forget_incoming = (\<lambda>(target, watcher, _) m.
    m\<lparr> pm_incoming := hm_get_mut target (filter (\<lambda>(p, _). p \<noteq> watcher)) (pm_incoming m) \<rparr>)"

definition pm_forget :: "node \<Rightarrow> proc_monitors \<Rightarrow> proc_monitors" where
  "pm_forget n m =
    (let t = pm_track m n in
     fold (\<lambda>(h, x). remove_remote_link h x) (nt_links t)
       (fold forget_incoming (nt_incoming t)
         (fold (\<lambda>(_, x, r). remove_outgoing_monitor x r) (nt_outgoing t)
           (m\<lparr> pm_tracking := hm_remove n (pm_tracking m) \<rparr>))))"

lemma dl_pm_node_down_parts:
  "dl_pm (fold node_down_outgoing os w) = fold (\<lambda>(_, x, r). remove_outgoing_monitor x r) os (dl_pm w)"
  "dl_pm (fold node_down_incoming is w) = fold forget_incoming is (dl_pm w)"
  "dl_pm (fold node_down_link ls w) = fold (\<lambda>(h, x). remove_remote_link h x) ls (dl_pm w)"
proof -
  show "dl_pm (fold node_down_outgoing os w) = fold (\<lambda>(_, x, r). remove_outgoing_monitor x r) os (dl_pm w)"
    by (induction os arbitrary: w) (auto simp: node_down_outgoing_def)
  show "dl_pm (fold node_down_incoming is w) = fold forget_incoming is (dl_pm w)"
    by (induction "is" arbitrary: w) (auto simp: node_down_incoming_def forget_incoming_def)
  have one: "dl_pm (node_down_link l w) = (\<lambda>(h, x). remove_remote_link h x) l (dl_pm w)" for l w
    by (cases l) (simp add: node_down_link_def Let_def split: option.split)
  show "dl_pm (fold node_down_link ls w) = fold (\<lambda>(h, x). remove_remote_link h x) ls (dl_pm w)"
    by (induction ls arbitrary: w) (simp_all add: one)
qed

lemma hm_remove_absent [simp]: "hm_get m k = None \<Longrightarrow> hm_remove k m = m"
  by (simp add: hm_remove_def delete_id map_of_eq_None_iff)

lemma dl_pm_node_down: "dl_pm (pm_node_down n w) = pm_forget n (dl_pm w)"
  by (simp add: pm_node_down_def pm_forget_def pm_track_def dl_pm_node_down_parts Let_def split: option.split)

lemma forget_outgoings:
  "hm_get (pm_outgoing (fold (\<lambda>(_, x, r). remove_outgoing_monitor x r) os m)) (t, r) =
    (if \<exists>w. (w, t, r) \<in> set os then None else hm_get (pm_outgoing m) (t, r))"
  by (induction os arbitrary: m) (auto simp: remove_outgoing_monitor_def)

lemma forget_incomings:
  "hm_at (pm_incoming (fold forget_incoming is m)) t =
    filter (\<lambda>(w, _). \<not> (\<exists>r. (t, w, r) \<in> set is)) (hm_at (pm_incoming m) t)"
proof (induction "is" arbitrary: m)
  case (Cons i is')
  obtain t' w' r' where i: "i = (t', w', r')" by (cases i)
  show ?case
    unfolding fold.simps o_def Cons.IH
    by (auto simp: i forget_incoming_def hm_at_get_mut intro!: filter_cong)
qed (simp add: case_prod_unfold)

lemma forget_links:
  "hm_at (pm_links (fold (\<lambda>(h, x). remove_remote_link h x) ls m)) h = filter (\<lambda>x. (h, x) \<notin> set ls) (hm_at (pm_links m) h)"
proof (induction ls arbitrary: m)
  case (Cons l ls)
  obtain h' x' where l: "l = (h', x')" by (cases l)
  show ?case
    unfolding fold.simps o_def Cons.IH
    by (auto simp: l remove_remote_link_def hm_at_get_mut removeAll_filter_not_eq intro!: filter_cong)
qed simp

lemma forget_frames:
  "pm_incoming (fold (\<lambda>(_, x, r). remove_outgoing_monitor x r) os m) = pm_incoming m"
  "pm_links (fold (\<lambda>(_, x, r). remove_outgoing_monitor x r) os m) = pm_links m"
  "pm_tracking (fold (\<lambda>(_, x, r). remove_outgoing_monitor x r) os m) = pm_tracking m"
  "pm_outgoing (fold forget_incoming is m) = pm_outgoing m" "pm_links (fold forget_incoming is m) = pm_links m"
  "pm_tracking (fold forget_incoming is m) = pm_tracking m"
  "pm_outgoing (fold (\<lambda>(h, x). remove_remote_link h x) ls m) = pm_outgoing m"
  "pm_incoming (fold (\<lambda>(h, x). remove_remote_link h x) ls m) = pm_incoming m"
  "pm_tracking (fold (\<lambda>(h, x). remove_remote_link h x) ls m) = pm_tracking m"
proof -
  show "pm_incoming (fold (\<lambda>(_, x, r). remove_outgoing_monitor x r) os m) = pm_incoming m"
    "pm_links (fold (\<lambda>(_, x, r). remove_outgoing_monitor x r) os m) = pm_links m"
    "pm_tracking (fold (\<lambda>(_, x, r). remove_outgoing_monitor x r) os m) = pm_tracking m"
    by (induction os arbitrary: m) (auto simp: remove_outgoing_monitor_def)
  show "pm_outgoing (fold forget_incoming is m) = pm_outgoing m" "pm_links (fold forget_incoming is m) = pm_links m"
    "pm_tracking (fold forget_incoming is m) = pm_tracking m"
    by (induction "is" arbitrary: m) (auto simp: forget_incoming_def)
  show "pm_outgoing (fold (\<lambda>(h, x). remove_remote_link h x) ls m) = pm_outgoing m"
    "pm_incoming (fold (\<lambda>(h, x). remove_remote_link h x) ls m) = pm_incoming m"
    "pm_tracking (fold (\<lambda>(h, x). remove_remote_link h x) ls m) = pm_tracking m"
    by (induction ls arbitrary: m) (auto simp: remove_remote_link_def)
qed

lemma pm_forget_parts:
  "hm_get (pm_outgoing (pm_forget n m)) (t, r) =
    (if \<exists>w. (w, t, r) \<in> set (nt_outgoing (pm_track m n)) then None else hm_get (pm_outgoing m) (t, r))"
  "hm_at (pm_incoming (pm_forget n m)) t =
    filter (\<lambda>(w, _). \<not> (\<exists>r. (t, w, r) \<in> set (nt_incoming (pm_track m n)))) (hm_at (pm_incoming m) t)"
  "hm_at (pm_links (pm_forget n m)) h = filter (\<lambda>x. (h, x) \<notin> set (nt_links (pm_track m n))) (hm_at (pm_links m) h)"
  "pm_track (pm_forget n m) j = (if j = n then nt_new else pm_track m j)"
  by (simp_all add: pm_forget_def Let_def forget_outgoings forget_incomings forget_links forget_frames pm_track_def)

section \<open>Every entry is tracked\<close>

definition pm_tracked :: "proc_monitors \<Rightarrow> bool" where
  "pm_tracked m \<longleftrightarrow>
    (\<forall>t r w. hm_get (pm_outgoing m) (t, r) = Some w \<longrightarrow> (w, t, r) \<in> set (nt_outgoing (pm_track m (pid_node t)))) \<and>
    (\<forall>h x. x \<in> set (hm_at (pm_links m) h) \<longrightarrow> (h, x) \<in> set (nt_links (pm_track m (pid_node x)))) \<and>
    (\<forall>t w r. (w, r) \<in> set (hm_at (pm_incoming m) t) \<longrightarrow> (\<exists>n. (t, w, r) \<in> set (nt_incoming (pm_track m n))))"

lemma pm_trackedD:
  assumes "pm_tracked m"
  shows "hm_get (pm_outgoing m) (t, r) = Some w \<Longrightarrow> (w, t, r) \<in> set (nt_outgoing (pm_track m (pid_node t)))"
    and "x \<in> set (hm_at (pm_links m) h) \<Longrightarrow> (h, x) \<in> set (nt_links (pm_track m (pid_node x)))"
    and "(w, r) \<in> set (hm_at (pm_incoming m) t) \<Longrightarrow> \<exists>n. (t, w, r) \<in> set (nt_incoming (pm_track m n))"
  using assms unfolding pm_tracked_def by blast+

lemma pm_trackedI:
  assumes "\<And>t r w. hm_get (pm_outgoing m) (t, r) = Some w \<Longrightarrow> (w, t, r) \<in> set (nt_outgoing (pm_track m (pid_node t)))"
    and "\<And>h x. x \<in> set (hm_at (pm_links m) h) \<Longrightarrow> (h, x) \<in> set (nt_links (pm_track m (pid_node x)))"
    and "\<And>t w r. (w, r) \<in> set (hm_at (pm_incoming m) t) \<Longrightarrow> \<exists>n. (t, w, r) \<in> set (nt_incoming (pm_track m n))"
  shows "pm_tracked m"
  using assms unfolding pm_tracked_def by blast

lemma pm_tracked_mono:
  assumes "pm_tracked m"
    and "\<And>t r w. hm_get (pm_outgoing m') (t, r) = Some w \<Longrightarrow> hm_get (pm_outgoing m) (t, r) = Some w"
    and "\<And>h. set (hm_at (pm_links m') h) \<subseteq> set (hm_at (pm_links m) h)"
    and "\<And>t. set (hm_at (pm_incoming m') t) \<subseteq> set (hm_at (pm_incoming m) t)"
    and "\<And>n. pm_track m' n = pm_track m n"
  shows "pm_tracked m'"
  by (rule pm_trackedI; unfold assms(5))
    (use assms(2-4) pm_trackedD [OF assms(1)] in blast)+

lemma pm_add_fields:
  "pm_outgoing (add_outgoing_monitor w t r m) = hm_insert (t, r) w (pm_outgoing m)"
  "pm_incoming (add_outgoing_monitor w t r m) = pm_incoming m" "pm_links (add_outgoing_monitor w t r m) = pm_links m"
  "pm_incoming (add_incoming_monitor t w r n m) = hm_entry t [] (List.insert (w, r)) (pm_incoming m)"
  "pm_outgoing (add_incoming_monitor t w r n m) = pm_outgoing m" "pm_links (add_incoming_monitor t w r n m) = pm_links m"
  "pm_links (add_remote_link h x m) = hm_entry h [] (List.insert x) (pm_links m)"
  "pm_outgoing (add_remote_link h x m) = pm_outgoing m" "pm_incoming (add_remote_link h x m) = pm_incoming m"
  by (simp_all add: add_outgoing_monitor_def add_incoming_monitor_def add_remote_link_def)

lemma pm_tracked_add_outgoing: "pm_tracked m \<Longrightarrow> pm_tracked (add_outgoing_monitor w t r m)"
proof (rule pm_trackedI, goal_cases)
  case (1 t' r' w')
  then show ?case using pm_trackedD(1) [of m t' r' w'] by (auto simp: pm_add_fields split: if_splits)
next
  case (2 h x)
  then show ?case using pm_trackedD(2) [of m x h] by (auto simp: pm_add_fields)
next
  case (3 t' w' r')
  then obtain n where "(t', w', r') \<in> set (nt_incoming (pm_track m n))"
    using pm_trackedD(3) [of m w' r' t'] by (auto simp: pm_add_fields)
  then show ?case by (intro exI [of _ n]) auto
qed

lemma pm_tracked_add_incoming: "pm_tracked m \<Longrightarrow> pm_tracked (add_incoming_monitor t w r n m)"
proof (rule pm_trackedI, goal_cases)
  case (1 t' r' w')
  then show ?case using pm_trackedD(1) [of m t' r' w'] by (auto simp: pm_add_fields)
next
  case (2 h x)
  then show ?case using pm_trackedD(2) [of m x h] by (auto simp: pm_add_fields)
next
  case (3 t' w' r')
  show ?case
  proof (cases "(t', w', r') = (t, w, r)")
    case True
    then show ?thesis by (intro exI [of _ n]) simp
  next
    case False
    then obtain j where "(t', w', r') \<in> set (nt_incoming (pm_track m j))"
      using 3 pm_trackedD(3) [of m w' r' t'] by (auto simp: pm_add_fields split: if_splits)
    then show ?thesis by (intro exI [of _ j]) auto
  qed
qed

lemma pm_tracked_add_link: "pm_tracked m \<Longrightarrow> pm_tracked (add_remote_link h x m)"
proof (rule pm_trackedI, goal_cases)
  case (1 t' r' w')
  then show ?case using pm_trackedD(1) [of m t' r' w'] by (auto simp: pm_add_fields)
next
  case (2 h' x')
  then show ?case using pm_trackedD(2) [of m x' h'] by (auto simp: pm_add_fields split: if_splits)
next
  case (3 t' w' r')
  then obtain n where "(t', w', r') \<in> set (nt_incoming (pm_track m n))"
    using pm_trackedD(3) [of m w' r' t'] by (auto simp: pm_add_fields)
  then show ?case by (intro exI [of _ n]) auto
qed

lemma pm_tracked_removes:
  assumes "pm_tracked m"
  shows "pm_tracked (remove_outgoing_monitor t r m)" "pm_tracked (remove_incoming_monitor t w r m)"
    "pm_tracked (remove_remote_link h x m)" "pm_tracked (m\<lparr> pm_incoming := hm_remove t (pm_incoming m) \<rparr>)"
    "pm_tracked (m\<lparr> pm_links := hm_remove t (pm_links m) \<rparr>)"
    "hm_ok (pm_outgoing m) \<Longrightarrow> pm_tracked (m\<lparr> pm_outgoing := hm_retain P (pm_outgoing m) \<rparr>)"
  by (rule pm_tracked_mono [OF assms];
      auto simp: remove_outgoing_monitor_def remove_incoming_monitor_def remove_remote_link_def hm_at_get_mut
        hm_get_retain split: if_splits option.splits)+

lemma pm_tracked_forget:
  assumes "pm_tracked m"
  shows "pm_tracked (pm_forget n m)"
proof (rule pm_trackedI, goal_cases)
  case (1 t r w)
  then show ?case using pm_trackedD(1) [OF assms, of t r w] by (auto simp: pm_forget_parts split: if_splits)
next
  case (2 h x)
  then show ?case using pm_trackedD(2) [OF assms, of x h] by (auto simp: pm_forget_parts)
next
  case (3 t w r)
  then obtain j where "(t, w, r) \<in> set (nt_incoming (pm_track m j))"
    using pm_trackedD(3) [OF assms, of w r t] by (auto simp: pm_forget_parts)
  then show ?case using 3 by (intro exI [of _ j]) (auto simp: pm_forget_parts)
qed

text \<open>What is tracked for a node concerns processes of that node.\<close>

definition pm_placed :: "proc_monitors \<Rightarrow> bool" where
  "pm_placed m \<longleftrightarrow> (\<forall>n.
    (\<forall>w t r. (w, t, r) \<in> set (nt_outgoing (pm_track m n)) \<longrightarrow> pid_node t = n) \<and>
    (\<forall>h x. (h, x) \<in> set (nt_links (pm_track m n)) \<longrightarrow> pid_node x = n))"

lemma pm_placed_same: "pm_placed m \<Longrightarrow> (\<And>n. pm_track m' n = pm_track m n) \<Longrightarrow> pm_placed m'"
  by (simp add: pm_placed_def)

lemma pm_placed_adds:
  assumes "pm_placed m"
  shows "pm_placed (add_outgoing_monitor w t r m)" "pm_placed (add_incoming_monitor t w r n m)"
    "pm_placed (add_remote_link h x m)" "pm_placed (pm_forget n m)"
  using assms by (auto simp: pm_placed_def pm_forget_parts)

definition pm_inv :: "proc_monitors \<Rightarrow> bool" where
  "pm_inv m \<longleftrightarrow> hm_ok (pm_outgoing m) \<and> pm_tracked m \<and> pm_placed m"

lemma pm_inv_new [simp]: "pm_inv pm_new"
  by (simp add: pm_inv_def pm_new_def pm_tracked_def pm_placed_def pm_track_def)

lemma hm_ok_outgoing [simp]:
  assumes "hm_ok (pm_outgoing m)"
  shows "hm_ok (pm_outgoing (add_outgoing_monitor w t r m))" "hm_ok (pm_outgoing (add_incoming_monitor t w r n m))"
    "hm_ok (pm_outgoing (add_remote_link h x m))" "hm_ok (pm_outgoing (remove_outgoing_monitor t r m))"
    "hm_ok (pm_outgoing (remove_incoming_monitor t w r m))" "hm_ok (pm_outgoing (remove_remote_link h x m))"
    "hm_ok (pm_outgoing (pm_forget n m))"
proof -
  have ok: "hm_ok (pm_outgoing (fold (\<lambda>(_, x, r). remove_outgoing_monitor x r) os m'))"
    if "hm_ok (pm_outgoing m')" for os m'
    using that by (induction os arbitrary: m') (auto simp: remove_outgoing_monitor_def)
  show "hm_ok (pm_outgoing (pm_forget n m))"
    unfolding pm_forget_def Let_def forget_frames by (rule ok) (use assms in simp)
qed (use assms in \<open>simp_all add: pm_add_fields remove_outgoing_monitor_def remove_incoming_monitor_def remove_remote_link_def\<close>)

lemma pm_inv_ops:
  assumes "pm_inv m"
  shows "pm_inv (add_outgoing_monitor w t r m)" "pm_inv (add_incoming_monitor t w r n m)"
    "pm_inv (add_remote_link h x m)" "pm_inv (pm_forget n m)" "pm_inv (remove_outgoing_monitor t r m)"
    "pm_inv (remove_incoming_monitor t w r m)" "pm_inv (remove_remote_link h x m)"
    "pm_inv (m\<lparr> pm_incoming := hm_remove t (pm_incoming m) \<rparr>)" "pm_inv (m\<lparr> pm_links := hm_remove t (pm_links m) \<rparr>)"
    "pm_inv (m\<lparr> pm_outgoing := hm_retain P (pm_outgoing m) \<rparr>)"
  using assms
  by (simp_all add: pm_inv_def pm_tracked_add_outgoing pm_tracked_add_incoming pm_tracked_add_link pm_tracked_forget
      pm_tracked_removes pm_placed_adds pm_placed_same [of m])

section \<open>Runs\<close>

text \<open>Anything the node does with its registry of remote monitors and links, together with any activity of
  the runtime and the queues.  Only nodes of \<open>D\<close> are lost.\<close>

inductive pm_step :: "node set \<Rightarrow> dist_local \<Rightarrow> dist_local \<Rightarrow> bool" for D where
  activity: "dl_pm w' = dl_pm w \<Longrightarrow> pm_step D w w'"
| monitor: "pm_step D w (snd (monitor_process up conn me t w))"
| demonitor: "pm_step D w (snd (demonitor_process up conn me t r w))"
| link: "pm_step D w (snd (link_process up conn me t w))"
| unlink: "pm_step D w (snd (unlink_process up conn me t w))"
| monitored: "pm_step D w (dl_monitors (add_incoming_monitor t me r n) w)"
| unmonitored: "pm_step D w (dl_monitors (remove_incoming_monitor t me r) w)"
| down: "pm_step D w (handle_process_down r t reason w)"
| linked: "pm_step D w (handle_incoming_link conn t me n w)"
| unlinked: "pm_step D w (handle_incoming_unlink t me w)"
| exited: "pm_step D w (handle_incoming_exit t me reason w)"
| ended: "pm_step D w (notify_local_process_down conn me why w)"
| lost: "n \<in> D \<Longrightarrow> pm_step D w (pm_node_down n w)"

lemma dl_update_pm [simp]:
  fixes w :: dist_local
  shows "dl_pm (w\<lparr> dl_rt := s \<rparr>) = dl_pm w"
  by simp

lemma exit_links_inv: "pm_inv (dl_pm w) \<Longrightarrow> pm_inv (dl_pm (exit_links conn p reason w))"
  by (simp add: exit_links_def pm_inv_ops split: option.split)

lemma notify_local_process_down_inv:
  assumes "pm_inv (dl_pm w)"
  shows "pm_inv (dl_pm (notify_local_process_down conn p reason w))"
  unfolding notify_local_process_down_def Let_def
  by (rule exit_links_inv, unfold dl_simps, rule pm_inv_ops(10)) (use assms in \<open>simp add: pm_inv_ops split: option.split\<close>)

lemma pm_step_inv: "pm_step D w w' \<Longrightarrow> pm_inv (dl_pm w) \<Longrightarrow> pm_inv (dl_pm w')"
  by (induction rule: pm_step.induct)
    (simp_all add: monitor_process_def demonitor_process_def link_process_def unlink_process_def handle_process_down_def
      handle_incoming_link_def handle_incoming_unlink_def handle_incoming_exit_def notify_local_process_down_inv
      dl_pm_node_down pm_inv_ops Let_def split_def split: option.split)

lemma pm_steps_inv: "(pm_step D)\<^sup>*\<^sup>* w w' \<Longrightarrow> pm_inv (dl_pm w) \<Longrightarrow> pm_inv (dl_pm w')"
  by (induction rule: rtranclp_induct) (auto intro: pm_step_inv)

text \<open>What is tracked for a node stays tracked until the node is lost.\<close>

lemma pm_step_track:
  "pm_step D w w' \<Longrightarrow> n \<notin> D \<Longrightarrow> set (nt_links (pm_track (dl_pm w) n)) \<subseteq> set (nt_links (pm_track (dl_pm w') n))"
  by (induction rule: pm_step.induct)
    (auto simp: monitor_process_def demonitor_process_def link_process_def unlink_process_def handle_process_down_def
      handle_incoming_link_def handle_incoming_unlink_def handle_incoming_exit_def notify_local_process_down_def
      exit_links_def dl_pm_node_down pm_forget_parts Let_def split_def split: option.split)

lemma pm_steps_track:
  "(pm_step D)\<^sup>*\<^sup>* w w' \<Longrightarrow> n \<notin> D \<Longrightarrow> set (nt_links (pm_track (dl_pm w) n)) \<subseteq> set (nt_links (pm_track (dl_pm w') n))"
  by (induction rule: rtranclp_induct) (use pm_step_track in \<open>blast+\<close>)

section \<open>What the loss of a node does to processes\<close>

definition link_lost :: "pid \<Rightarrow> proc \<Rightarrow> proc" where
  "link_lost x q =
    (let q1 = handle_remove_link x q in
     if pr_trap_exit q then snd (handle_send (PSystem (Exit x (Error ''noconnection''))) q1)
     else handle_mark_terminated (Error ''noconnection'') q1)"

lemma rt_get_node_down_link:
  "rt_get (dl_rt (node_down_link (h, x) w)) p =
    (if p = h then map_option (link_lost x) (rt_get (dl_rt w) p) else rt_get (dl_rt w) p)"
  by (auto simp: node_down_link_def link_lost_def Let_def option.map_comp o_def split: option.split)

lemma node_down_outgoings_keep:
  assumes "rt_get (dl_rt w) p = Some q"
  shows "\<exists>q'. rt_get (dl_rt (fold node_down_outgoing os w)) p = Some q' \<and> pr_trap_exit q' = pr_trap_exit q"
  using assms
proof (induction os arbitrary: w q)
  case (Cons o' os)
  obtain a b c where o': "o' = (a, b, c)" by (cases o')
  have "\<exists>q'. rt_get (dl_rt (node_down_outgoing o' w)) p = Some q' \<and> pr_trap_exit q' = pr_trap_exit q"
    using Cons.prems by (auto simp: o' node_down_outgoing_def rt_get_send_raw)
  then show ?case using Cons.IH by fastforce
qed simp

lemma node_down_incomings_rt [simp]: "dl_rt (fold node_down_incoming is w) = dl_rt w"
  by (induction "is" arbitrary: w) (auto simp: node_down_incoming_def)

lemma node_down_links_kill:
  assumes "rt_get (dl_rt w) p = Some q" "\<not> pr_trap_exit q"
    and "(\<exists>x. (p, x) \<in> set ls) \<or> pr_exit_reason q = Some (Error ''noconnection'') \<and> pr_terminated q"
  shows "\<exists>q'. rt_get (dl_rt (fold node_down_link ls w)) p = Some q' \<and> pr_terminated q' \<and>
    pr_exit_reason q' = Some (Error ''noconnection'')"
  using assms
proof (induction ls arbitrary: w q)
  case (Cons l ls)
  obtain h x where l: "l = (h, x)" by (cases l)
  show ?case
  proof (cases "h = p")
    case True
    let ?q = "link_lost x q"
    have "rt_get (dl_rt (node_down_link l w)) p = Some ?q" "\<not> pr_trap_exit ?q"
      "pr_exit_reason ?q = Some (Error ''noconnection'') \<and> pr_terminated ?q"
      using Cons.prems(1,2) True
      by (simp_all add: l rt_get_node_down_link link_lost_def handle_remove_link_def handle_mark_terminated_def Let_def)
    from Cons.IH [OF this(1,2) disjI2 [OF this(3)]] show ?thesis by simp
  next
    case False
    then have "rt_get (dl_rt (node_down_link l w)) p = Some q" using Cons.prems(1) by (simp add: l rt_get_node_down_link)
    moreover have "(\<exists>x. (p, x) \<in> set ls) \<or> pr_exit_reason q = Some (Error ''noconnection'') \<and> pr_terminated q"
      using Cons.prems(3) False l by auto
    ultimately show ?thesis using Cons.IH [of "node_down_link l w" q] Cons.prems(2) by simp
  qed
qed simp

lemma node_down_kills:
  assumes "(p, x) \<in> set (nt_links (pm_track (dl_pm w) n))" "rt_get (dl_rt w) p = Some q" "\<not> pr_trap_exit q"
  shows "\<exists>q'. rt_get (dl_rt (pm_node_down n w)) p = Some q' \<and> pr_terminated q' \<and>
    pr_exit_reason q' = Some (Error ''noconnection'')"
proof -
  obtain t where t: "hm_get (pm_tracking (dl_pm w)) n = Some t" "(p, x) \<in> set (nt_links t)"
    using assms(1) by (auto simp: pm_track_def split: option.splits)
  let ?w1 = "dl_monitors (\<lambda>m. m\<lparr> pm_tracking := hm_remove n (pm_tracking m) \<rparr>) w"
  obtain q1 where "rt_get (dl_rt (fold node_down_outgoing (nt_outgoing t) ?w1)) p = Some q1" "\<not> pr_trap_exit q1"
    using node_down_outgoings_keep [of ?w1 p q "nt_outgoing t"] assms(2,3) by auto
  then have "rt_get (dl_rt (fold node_down_incoming (nt_incoming t) (fold node_down_outgoing (nt_outgoing t) ?w1))) p = Some q1"
    by simp
  from node_down_links_kill [OF this \<open>\<not> pr_trap_exit q1\<close>, of "nt_links t"] t show ?thesis
    by (auto simp: pm_node_down_def)
qed

section \<open>Properties\<close>

text \<open>C20. A lost node is forgotten completely, and nothing else is.  In every reachable state, losing a node
  removes exactly the monitors and the links of local processes to processes of that node, and of the
  monitors held by remote processes those that remain were requested over another node.\<close>

theorem node_down_forgets:
  assumes "(pm_step UNIV)\<^sup>*\<^sup>* w0 w" "dl_pm w0 = pm_new"
  shows "(\<forall>t r. hm_get (pm_outgoing (dl_pm (pm_node_down n w))) (t, r) =
      (if pid_node t = n then None else hm_get (pm_outgoing (dl_pm w)) (t, r))) \<and>
    (\<forall>h. hm_at (pm_links (dl_pm (pm_node_down n w))) h =
      filter (\<lambda>x. pid_node x \<noteq> n) (hm_at (pm_links (dl_pm w)) h)) \<and>
    (\<forall>t p r. (p, r) \<in> set (hm_at (pm_incoming (dl_pm (pm_node_down n w))) t) \<longrightarrow>
      (\<exists>j. j \<noteq> n \<and> (t, p, r) \<in> set (nt_incoming (pm_track (dl_pm (pm_node_down n w)) j))))"
proof -
  have inv: "pm_inv (dl_pm w)" by (rule pm_steps_inv [OF assms(1)]) (simp add: assms(2))
  then have inv': "pm_inv (pm_forget n (dl_pm w))" by (simp add: pm_inv_ops)
  note tracked = pm_trackedD [of "dl_pm w"] and tracked' = pm_trackedD [of "pm_forget n (dl_pm w)"]
  have placed: "pid_node t = n" if "(p, t, r) \<in> set (nt_outgoing (pm_track (dl_pm w) n))" for p t r
    using inv that by (auto simp: pm_inv_def pm_placed_def)
  have placed_link: "pid_node x = n" if "(h, x) \<in> set (nt_links (pm_track (dl_pm w) n))" for h x
    using inv that by (auto simp: pm_inv_def pm_placed_def)
  have "hm_get (pm_outgoing (pm_forget n (dl_pm w))) (t, r) =
      (if pid_node t = n then None else hm_get (pm_outgoing (dl_pm w)) (t, r))" for t r
    using placed inv tracked(1) [of t r]
    by (cases "hm_get (pm_outgoing (dl_pm w)) (t, r)") (auto simp: pm_forget_parts pm_inv_def)
  moreover have "hm_at (pm_links (pm_forget n (dl_pm w))) h = filter (\<lambda>x. pid_node x \<noteq> n) (hm_at (pm_links (dl_pm w)) h)" for h
    using placed_link inv tracked(2) [of _ h] by (auto simp: pm_forget_parts pm_inv_def intro!: filter_cong)
  moreover have "\<exists>j. j \<noteq> n \<and> (t, p, r) \<in> set (nt_incoming (pm_track (pm_forget n (dl_pm w)) j))"
    if left: "(p, r) \<in> set (hm_at (pm_incoming (pm_forget n (dl_pm w))) t)" for t p r
  proof -
    obtain j where j: "(t, p, r) \<in> set (nt_incoming (pm_track (pm_forget n (dl_pm w)) j))"
      using tracked'(3) [OF _ left] inv' by (auto simp: pm_inv_def)
    moreover have "j \<noteq> n" using j by (auto simp: pm_forget_parts)
    ultimately show ?thesis by blast
  qed
  ultimately show ?thesis by (simp add: dl_pm_node_down)
qed

definition ex_pm_node :: node_identity where
  "ex_pm_node = \<lparr> ni_name = ''a'', ni_creation = 0 \<rparr>"

definition ex_world :: dist_local where
  "ex_world = \<lparr> dl_pm = pm_new,
     dl_rt = snd (rt_spawn (runtime_new \<lparr> ps_this = Some ex_pm_node, ps_counter = 1, ps_creation = 0 \<rparr>)), dl_out = [] \<rparr>"

definition ex_here :: pid where
  "ex_here = \<lparr> pid_node = ''a'', pid_id = 1, pid_creation = 0 \<rparr>"

definition ex_there :: pid where
  "ex_there = \<lparr> pid_node = ''b'', pid_id = 7, pid_creation = 0 \<rparr>"

text \<open>The node monitors a process of node \<open>b\<close> and is linked to it.\<close>

definition ex_linked :: dist_local where
  "ex_linked = snd (link_process True [''b''] ex_here ex_there (snd (monitor_process True [''b''] ex_here ex_there ex_world)))"

lemma ex_linked_reachable: "(pm_step UNIV)\<^sup>*\<^sup>* ex_world ex_linked"
  unfolding ex_linked_def
  by (rule rtranclp.rtrancl_into_rtrancl, rule r_into_rtranclp, rule pm_step.monitor, rule pm_step.link)

theorem node_down_forgets_witness:
  "hm_at (pm_links (dl_pm ex_linked)) ex_here = [ex_there] \<and>
   hm_at (pm_links (dl_pm (pm_node_down ''b'' ex_linked))) ex_here = [] \<and>
   hm_get (pm_outgoing (dl_pm ex_linked)) (ex_there, 0) = Some ex_here \<and>
   hm_get (pm_outgoing (dl_pm (pm_node_down ''b'' ex_linked))) (ex_there, 0) = None"
proof -
  have start: "dl_pm ex_world = pm_new" by (simp add: ex_world_def)
  have now: "hm_at (pm_links (dl_pm ex_linked)) ex_here = [ex_there]"
    "hm_get (pm_outgoing (dl_pm ex_linked)) (ex_there, 0) = Some ex_here" by code_simp+
  have node: "pid_node ex_there = ''b''" by (simp add: ex_there_def)
  from node_down_forgets [OF ex_linked_reachable start, of "''b''"] show ?thesis
    by (elim conjE) (simp only: now node filter.simps simp_thms if_True if_False)
qed

text \<open>Unlinking does not undo a link for good.  Once a process has linked itself to a process of a node
  that is connected, losing that node marks it terminated with \<open>noconnection\<close> unless it traps exits,
  whatever has happened in between: also when it has been unlinked, because the entry that is kept for
  the loss of the node is never removed.\<close>

lemma unlinked_process_killed:
  assumes "link_process True conn me x w = (Inr (), w1)"
    and "(pm_step (- {pid_node x}))\<^sup>*\<^sup>* w1 w2" "rt_get (dl_rt w2) me = Some q" "\<not> pr_trap_exit q"
  shows "\<exists>q'. rt_get (dl_rt (pm_node_down (pid_node x) w2)) me = Some q' \<and> pr_terminated q' \<and>
    pr_exit_reason q' = Some (Error ''noconnection'')"
proof (rule node_down_kills [OF _ assms(3,4)])
  have "dl_pm w1 = add_remote_link me x (dl_pm w)"
    using assms(1) by (auto simp: link_process_def Let_def split: if_splits)
  then have "(me, x) \<in> set (nt_links (pm_track (dl_pm w1) (pid_node x)))" by simp
  then show "(me, x) \<in> set (nt_links (pm_track (dl_pm w2) (pid_node x)))"
    using pm_steps_track [OF assms(2), of "pid_node x"] by blast
qed

end
