(* ===== verification/NodeMonitor.thy ===== *)
theory NodeMonitor
  imports Runtime Codec
begin

text \<open>
  Monitors of whole nodes (\<open>distribution/monitor.rs\<close>): which local processes watch which node, the index
  from a monitor to its node and process, and the processes of other nodes that watch this one.  The
  counter of monitor references is part of the state; the encoding of the \<open>NodeDown\<close> message is a
  library's and is an argument.
\<close>

datatype node_down_reason = NdDisconnect | NdConnectionLost | NdShutdown | NdOther string

definition node_down_reason_of :: "string \<Rightarrow> node_down_reason" where
  "node_down_reason_of s =
    (if s \<in> {''disconnect'', ''disconnect requested''} then NdDisconnect
     else if s = ''shutdown'' then NdShutdown
     else if s \<in> {''connection closed'', ''connection lost''} then NdConnectionLost
     else NdOther s)"

record node_down =
  nd_node_name :: string
  nd_reason :: node_down_reason
  nd_monitor_ref :: ref

record node_monitors =
  nm_local :: "(node, (pid \<times> ref) list) hmap"
  nm_refs :: "(ref, node \<times> pid) hmap"
  nm_remote :: "(node, pid list) hmap"
  nm_counter :: ref

definition nm_new :: node_monitors where
  "nm_new = \<lparr> nm_local = [], nm_refs = [], nm_remote = [], nm_counter = 0 \<rparr>"

definition node_monitor_ref_new :: "node_monitors \<Rightarrow> ref \<times> node_monitors" where
  "node_monitor_ref_new m = (nm_counter m, m\<lparr> nm_counter := nm_counter m + 1 \<rparr>)"

definition add_local_monitor :: "node \<Rightarrow> pid \<Rightarrow> node_monitors \<Rightarrow> ref \<times> node_monitors" where
  "add_local_monitor n p m =
    (let (r, m1) = node_monitor_ref_new m
     in (r, m1\<lparr> nm_local := hm_entry n [] (List.insert (p, r)) (nm_local m1), nm_refs := hm_insert r (n, p) (nm_refs m1) \<rparr>))"

definition remove_local_monitor :: "ref \<Rightarrow> node_monitors \<Rightarrow> node_monitors" where
  "remove_local_monitor r m =
    (case hm_get (nm_refs m) r of
       None \<Rightarrow> m
     | Some (n, p) \<Rightarrow>
         m\<lparr> nm_refs := hm_remove r (nm_refs m), nm_local := hm_get_mut n (removeAll (p, r)) (nm_local m) \<rparr>)"

definition add_remote_monitor :: "node \<Rightarrow> pid \<Rightarrow> node_monitors \<Rightarrow> node_monitors" where
  "add_remote_monitor n p m = m\<lparr> nm_remote := hm_entry n [] (List.insert p) (nm_remote m) \<rparr>"

definition remove_remote_monitor :: "node \<Rightarrow> pid \<Rightarrow> node_monitors \<Rightarrow> node_monitors" where
  "remove_remote_monitor n p m = m\<lparr> nm_remote := hm_get_mut n (removeAll p) (nm_remote m) \<rparr>"

definition notify_one :: "(node_down \<Rightarrow> byte list) \<Rightarrow> node \<Rightarrow> string \<Rightarrow> pid \<times> ref \<Rightarrow> node_monitors \<times> runtime \<Rightarrow> node_monitors \<times> runtime" where
  "notify_one enc n reason = (\<lambda>(p, r) (m, s).
    (m\<lparr> nm_refs := hm_remove r (nm_refs m) \<rparr>,
     snd (rt_send_raw p (PData (enc \<lparr> nd_node_name = n, nd_reason = node_down_reason_of reason, nd_monitor_ref = r \<rparr>)) s)))"

definition notify_node_down :: "(node_down \<Rightarrow> byte list) \<Rightarrow> node \<Rightarrow> string \<Rightarrow> node_monitors \<Rightarrow> runtime \<Rightarrow> node_monitors \<times> runtime" where
  "notify_node_down enc n reason m s =
    (let (m1, s1) =
       (case hm_get (nm_local m) n of
          None \<Rightarrow> (m, s)
        | Some ws \<Rightarrow> fold (notify_one enc n reason) ws (m\<lparr> nm_local := hm_remove n (nm_local m) \<rparr>, s))
     in (m1\<lparr> nm_remote := hm_remove n (nm_remote m1) \<rparr>, s1))"

text \<open>The calls of processes; the third component is what is handed to the queues of other nodes.\<close>

definition monitor_node :: "bool \<Rightarrow> node list \<Rightarrow> pid \<Rightarrow> node \<Rightarrow> node_monitors \<Rightarrow>
    (dist_error + ref) \<times> node_monitors \<times> (node \<times> dist_message) list" where
  "monitor_node up conn me n m =
    (if \<not> up then (Inl NotInitialized, m, [])
     else (let (r, m1) = add_local_monitor n me m
       in (Inr r, m1, if n \<in> set conn then [(n, MonitorNode me)] else [])))"

definition demonitor_node :: "bool \<Rightarrow> node list \<Rightarrow> pid \<Rightarrow> ref \<Rightarrow> node_monitors \<Rightarrow>
    (dist_error + unit) \<times> node_monitors \<times> (node \<times> dist_message) list" where
  "demonitor_node up conn me r m =
    (if \<not> up then (Inl NotInitialized, m, [])
     else (Inr (), remove_local_monitor r m,
       case hm_get (nm_refs m) r of
         Some (n, _) \<Rightarrow> if n \<in> set conn then [(n, DemonitorNode me)] else []
       | None \<Rightarrow> []))"

section \<open>The index agrees with the monitors\<close>

definition nm_ok :: "node_monitors \<Rightarrow> bool" where
  "nm_ok m \<longleftrightarrow> hm_ok (nm_local m) \<and> hm_ok (nm_refs m) \<and>
    (\<forall>n p r. (p, r) \<in> set (hm_at (nm_local m) n) \<longleftrightarrow> hm_get (nm_refs m) r = Some (n, p)) \<and>
    (\<forall>n. distinct (hm_at (nm_local m) n)) \<and>
    (\<forall>r. hm_get (nm_refs m) r \<noteq> None \<longrightarrow> unat r < unat (nm_counter m))"

lemma nm_okD:
  assumes "nm_ok m"
  shows "hm_ok (nm_local m)" "hm_ok (nm_refs m)" "distinct (hm_at (nm_local m) n)"
    and "(p, r) \<in> set (hm_at (nm_local m) n) \<longleftrightarrow> hm_get (nm_refs m) r = Some (n, p)"
    and "hm_get (nm_refs m) r = Some x \<Longrightarrow> unat r < unat (nm_counter m)"
  using assms unfolding nm_ok_def by blast+

lemma nm_okI:
  assumes "hm_ok (nm_local m)" "hm_ok (nm_refs m)" "\<And>n. distinct (hm_at (nm_local m) n)"
    and "\<And>n p r. (p, r) \<in> set (hm_at (nm_local m) n) \<longleftrightarrow> hm_get (nm_refs m) r = Some (n, p)"
    and "\<And>r x. hm_get (nm_refs m) r = Some x \<Longrightarrow> unat r < unat (nm_counter m)"
  shows "nm_ok m"
  using assms unfolding nm_ok_def by blast

lemma nm_new_ok [simp]: "nm_ok nm_new"
  by (simp add: nm_ok_def nm_new_def)

lemma add_local_monitor_ok:
  assumes ok: "nm_ok m" and room: "nm_counter m \<noteq> - 1"
  shows "nm_ok (snd (add_local_monitor n p m))"
proof (rule nm_okI, goal_cases)
  case (3 j)
  then show ?case using nm_okD [OF ok] by (simp add: add_local_monitor_def node_monitor_ref_new_def)
next
  case (4 j q r)
  have fresh: "hm_get (nm_refs m) (nm_counter m) = None"
    using nm_okD(5) [OF ok, of "nm_counter m"] by (cases "hm_get (nm_refs m) (nm_counter m)") auto
  then show ?case
    using nm_okD(4) [OF ok] by (auto simp: add_local_monitor_def node_monitor_ref_new_def)
next
  case (5 r x)
  then show ?case
    using nm_okD(5) [OF ok, of r] unat_Suc_word [OF room]
    by (auto simp: add_local_monitor_def node_monitor_ref_new_def split: if_splits)
qed (use nm_okD [OF ok] in \<open>simp_all add: add_local_monitor_def node_monitor_ref_new_def\<close>)

lemma remove_local_monitor_ok:
  assumes ok: "nm_ok m"
  shows "nm_ok (remove_local_monitor r m)"
proof (cases "hm_get (nm_refs m) r")
  case None
  then show ?thesis using ok by (simp add: remove_local_monitor_def)
next
  case (Some np)
  obtain n p where np: "np = (n, p)" by (cases np)
  show ?thesis
  proof (rule nm_okI, goal_cases)
    case (4 j q r')
    then show ?case
      using nm_okD(4) [OF ok] Some by (auto simp: remove_local_monitor_def np hm_at_get_mut)
  next
    case (5 r' x)
    then show ?case
      using nm_okD(5) [OF ok, of r'] by (auto simp: remove_local_monitor_def np Some split: if_splits)
  qed (use nm_okD [OF ok] in \<open>simp_all add: remove_local_monitor_def np Some hm_at_get_mut distinct_removeAll\<close>)
qed

lemma remote_monitors_ok [simp]:
  "nm_ok (add_remote_monitor n p m) = nm_ok m" "nm_ok (remove_remote_monitor n p m) = nm_ok m"
  "nm_ok (nm_remote_update f m) = nm_ok m"
  by (simp_all add: nm_ok_def add_remote_monitor_def remove_remote_monitor_def)

lemma notify_fold:
  "hm_get (nm_refs (fst (fold (notify_one enc n reason) ws (m, s)))) r = (if r \<in> snd ` set ws then None else hm_get (nm_refs m) r)"
  "nm_local (fst (fold (notify_one enc n reason) ws (m, s))) = nm_local m"
  "nm_counter (fst (fold (notify_one enc n reason) ws (m, s))) = nm_counter m"
  "hm_ok (nm_refs m) \<Longrightarrow> hm_ok (nm_refs (fst (fold (notify_one enc n reason) ws (m, s))))"
  by (induction ws arbitrary: m s) (auto simp: notify_one_def split_def)

lemma notify_node_down_refs:
  assumes ok: "nm_ok m"
  shows "hm_get (nm_refs (fst (notify_node_down enc n reason m s))) r = (case hm_get (nm_refs m) r of Some (j, p) \<Rightarrow> if j = n then None else Some (j, p) | None \<Rightarrow> None)"
    and "hm_at (nm_local (fst (notify_node_down enc n reason m s))) j = (if j = n then [] else hm_at (nm_local m) j)"
    and "hm_ok (nm_local (fst (notify_node_down enc n reason m s)))" "hm_ok (nm_refs (fst (notify_node_down enc n reason m s)))" "nm_counter (fst (notify_node_down enc n reason m s)) = nm_counter m"
proof -
  have here: "r \<in> snd ` set (hm_at (nm_local m) n) \<longleftrightarrow> (\<exists>p. hm_get (nm_refs m) r = Some (n, p))"
    using nm_okD(4) [OF ok, of _ r n] by force
  show "hm_get (nm_refs (fst (notify_node_down enc n reason m s))) r = (case hm_get (nm_refs m) r of Some (j, p) \<Rightarrow> if j = n then None else Some (j, p) | None \<Rightarrow> None)"
    using here
    by (auto simp: notify_node_down_def notify_fold split_def hm_at_def Let_def image_iff split: option.splits)
  show "hm_at (nm_local (fst (notify_node_down enc n reason m s))) j = (if j = n then [] else hm_at (nm_local m) j)"
    by (auto simp: notify_node_down_def notify_fold split_def hm_at_def Let_def split: option.splits)
  show "hm_ok (nm_local (fst (notify_node_down enc n reason m s)))" "hm_ok (nm_refs (fst (notify_node_down enc n reason m s)))" "nm_counter (fst (notify_node_down enc n reason m s)) = nm_counter m"
    using nm_okD(1,2) [OF ok]
    by (auto simp: notify_node_down_def notify_fold split_def Let_def split: option.splits)
qed

lemma notify_node_down_ok:
  assumes ok: "nm_ok m"
  shows "nm_ok (fst (notify_node_down enc n reason m s))"
proof (rule nm_okI, goal_cases)
  case (4 j p r)
  then show ?case
    using nm_okD(4) [OF ok, of p r j] by (auto simp: notify_node_down_refs [OF ok] split: option.split if_splits)
next
  case (5 r x)
  then show ?case
    using nm_okD(5) [OF ok, of r] by (auto simp: notify_node_down_refs [OF ok] split: option.splits if_splits)
qed (use nm_okD [OF ok] in \<open>simp_all add: notify_node_down_refs [OF ok]\<close>)

section \<open>What the processes are told\<close>

definition node_down_message :: "(node_down \<Rightarrow> byte list) \<Rightarrow> node \<Rightarrow> string \<Rightarrow> ref \<Rightarrow> payload" where
  "node_down_message enc n reason r =
    PData (enc \<lparr> nd_node_name = n, nd_reason = node_down_reason_of reason, nd_monitor_ref = r \<rparr>)"

lemma notify_fold_get:
  assumes "rt_local s p" "rt_get s p = Some q" "\<not> pr_closed q"
  shows "\<exists>q'. rt_get (snd (fold (notify_one enc n reason) ws (m, s))) p = Some q' \<and>
    pr_mailbox q' = pr_mailbox q @ map (node_down_message enc n reason) (map snd (filter (\<lambda>(w, _). w = p) ws))"
  using assms
proof (induction ws arbitrary: m s q)
  case (Cons x ws)
  obtain w r where x: "x = (w, r)" by (cases x)
  let ?s = "snd (rt_send_raw w (node_down_message enc n reason r) s)"
  let ?q = "if w = p then snd (handle_send (node_down_message enc n reason r) q) else q"
  have "rt_local ?s p" "rt_get ?s p = Some ?q" "\<not> pr_closed ?q"
    using Cons.prems by (auto simp: rt_get_send_raw)
  from Cons.IH [OF this, of "m\<lparr> nm_refs := hm_remove r (nm_refs m) \<rparr>"] Cons.prems(3)
  show ?case by (auto simp: x notify_one_def node_down_message_def)
qed simp

lemma notify_node_down_get:
  assumes "rt_local s p" "rt_get s p = Some q" "\<not> pr_closed q"
  shows "\<exists>q'. rt_get (snd (notify_node_down enc n reason m s)) p = Some q' \<and> pr_mailbox q' = pr_mailbox q @
    map (node_down_message enc n reason) (map snd (filter (\<lambda>(w, _). w = p) (hm_at (nm_local m) n)))"
proof (cases "hm_get (nm_local m) n")
  case None
  then show ?thesis using assms(2) by (simp add: notify_node_down_def hm_at_def)
next
  case (Some ws)
  from notify_fold_get [OF assms, of enc n reason ws "m\<lparr> nm_local := hm_remove n (nm_local m) \<rparr>"] Some
  show ?thesis by (simp add: notify_node_down_def hm_at_def split_def Let_def)
qed

section \<open>Properties\<close>

datatype nm_op = OpMonitor node pid | OpDemonitor ref | OpRemoteOn node pid | OpRemoteOff node pid | OpDown node string

fun nm_do :: "(node_down \<Rightarrow> byte list) \<Rightarrow> nm_op \<Rightarrow> node_monitors \<times> runtime \<Rightarrow> node_monitors \<times> runtime" where
  "nm_do enc (OpMonitor n p) (m, s) = (snd (add_local_monitor n p m), s)"
| "nm_do enc (OpDemonitor r) (m, s) = (remove_local_monitor r m, s)"
| "nm_do enc (OpRemoteOn n p) (m, s) = (add_remote_monitor n p m, s)"
| "nm_do enc (OpRemoteOff n p) (m, s) = (remove_remote_monitor n p m, s)"
| "nm_do enc (OpDown n reason) (m, s) = notify_node_down enc n reason m s"

lemma nm_do_ok:
  assumes "nm_ok (fst ms)" "unat (nm_counter (fst ms)) < 2 ^ 64 - 1"
  shows "nm_ok (fst (nm_do enc op ms)) \<and> unat (nm_counter (fst (nm_do enc op ms))) \<le> Suc (unat (nm_counter (fst ms)))"
proof -
  obtain m s where ms: "ms = (m, s)" by (cases ms)
  have room: "nm_counter m \<noteq> - 1"
  proof
    assume "nm_counter m = - 1"
    then show False using assms(2) by (simp add: ms unsigned_minus_1_eq_mask mask_eq_exp_minus_1)
  qed
  have "nm_counter (remove_local_monitor r m) = nm_counter m" "nm_counter (add_remote_monitor n p m) = nm_counter m"
    "nm_counter (remove_remote_monitor n p m) = nm_counter m" for r n p
    by (simp_all add: remove_local_monitor_def add_remote_monitor_def remove_remote_monitor_def split: option.split prod.split)
  moreover have "unat (nm_counter (snd (add_local_monitor n p m))) = Suc (unat (nm_counter m))" for n p
    using unat_Suc_word [OF room] by (simp add: add_local_monitor_def node_monitor_ref_new_def)
  ultimately show ?thesis
    using assms(1) add_local_monitor_ok [of m] remove_local_monitor_ok [of m] room
      notify_node_down_ok [of m] notify_node_down_refs(5) [of m]
    by (cases op) (simp_all add: ms)
qed

lemma nm_run_ok:
  assumes "nm_ok (fst ms)" "unat (nm_counter (fst ms)) + length ops < 2 ^ 64"
  shows "nm_ok (fst (fold (nm_do enc) ops ms))"
  using assms
proof (induction ops arbitrary: ms)
  case (Cons op ops)
  then have one: "nm_ok (fst (nm_do enc op ms)) \<and> unat (nm_counter (fst (nm_do enc op ms))) \<le> Suc (unat (nm_counter (fst ms)))"
    by (intro nm_do_ok) simp_all
  then show ?case using Cons.prems(2) by (simp add: Cons.IH)
qed simp

text \<open>Whoever monitors a node learns exactly once that it is gone.  After any sequence of fewer than
  \<open>2 ^ 64\<close> calls, losing a node appends to the mailbox of every live local process one \<open>NodeDown\<close>
  message for each of its monitors of that node and nothing else; these monitors are gone, from the
  node's list and from the index alike, and all others stay.\<close>

lemma node_down_notifies:
  assumes "length ops < 2 ^ 64" "fold (nm_do enc) ops (nm_new, s0) = (m, s)"
  shows "(\<forall>p q. rt_local s p \<and> rt_get s p = Some q \<and> \<not> pr_closed q \<longrightarrow>
      (\<exists>q' rs. rt_get (snd (notify_node_down enc n reason m s)) p = Some q' \<and>
        pr_mailbox q' = pr_mailbox q @ map (node_down_message enc n reason) rs \<and>
        distinct rs \<and> set rs = {r. hm_get (nm_refs m) r = Some (n, p)})) \<and>
    (\<forall>r. hm_get (nm_refs (fst (notify_node_down enc n reason m s))) r =
      (case hm_get (nm_refs m) r of Some (j, p) \<Rightarrow> if j = n then None else Some (j, p) | None \<Rightarrow> None)) \<and>
    (\<forall>j. hm_at (nm_local (fst (notify_node_down enc n reason m s))) j = (if j = n then [] else hm_at (nm_local m) j))"
proof -
  have start: "unat (nm_counter nm_new) = 0" by (simp add: nm_new_def)
  have ok: "nm_ok m" using nm_run_ok [of "(nm_new, s0)" ops enc] assms start by simp
  have "\<exists>q' rs. rt_get (snd (notify_node_down enc n reason m s)) p = Some q' \<and>
        pr_mailbox q' = pr_mailbox q @ map (node_down_message enc n reason) rs \<and>
        distinct rs \<and> set rs = {r. hm_get (nm_refs m) r = Some (n, p)}"
    if proc: "rt_local s p" "rt_get s p = Some q" "\<not> pr_closed q" for p q
  proof -
    let ?rs = "map snd (filter (\<lambda>(w, _). w = p) (hm_at (nm_local m) n))"
    have "set ?rs = {r. hm_get (nm_refs m) r = Some (n, p)}"
      using nm_okD(4) [OF ok, of p _ n] by force
    moreover have "distinct ?rs"
      using nm_okD(3) [OF ok, of n] by (auto simp: distinct_map inj_on_def)
    ultimately show ?thesis using notify_node_down_get [OF proc, of enc n reason m] by blast
  qed
  then show ?thesis using notify_node_down_refs(1,2) [OF ok] by blast
qed

definition ex_nd_enc :: "node_down \<Rightarrow> byte list" where
  "ex_nd_enc d = [ucast (nd_monitor_ref d)]"

definition ex_nm_rt :: runtime where
  "ex_nm_rt = snd (rt_spawn (runtime_new \<lparr> ps_this = None, ps_counter = 1, ps_creation = 0 \<rparr>))"

definition ex_nm_pid :: pid where
  "ex_nm_pid = \<lparr> pid_node = [], pid_id = 1, pid_creation = 0 \<rparr>"

end
