(* ===== verification/Pg.thy ===== *)
theory Pg
  imports Membership
begin

text \<open>
  Process groups (\<open>distribution/pg.rs\<close>): groups of processes replicated on every connected node.  The
  node's identity and the nodes it has a sending queue for are arguments; what is handed to those
  queues is the second component of a result, as pairs of a node and a message.
\<close>

datatype pg_message =
    PgJoin string pid | PgLeave string pid | PgLeaveAll pid | PgSyncRequest
  | PgSyncResponse "(string \<times> pid list) list"

type_synonym pg_out = "(node \<times> pg_message) list"

record process_groups =
  pg_groups :: "(string, pid list) hmap"
  pg_pid_groups :: "(pid, string list) hmap"

definition pg_new :: process_groups where
  "pg_new = \<lparr> pg_groups = [], pg_pid_groups = [] \<rparr>"

definition broadcast_pg_message :: "node list \<Rightarrow> pg_message \<Rightarrow> pg_out" where
  "broadcast_pg_message conn msg = map (\<lambda>n. (n, msg)) conn"

text \<open>The two map updates shared by local and remote joins, leaves and departures.\<close>

definition pg_add :: "string \<Rightarrow> pid \<Rightarrow> process_groups \<Rightarrow> process_groups" where
  "pg_add grp p s =
    s\<lparr> pg_groups := hm_set_add grp p (pg_groups s), pg_pid_groups := hm_set_add p grp (pg_pid_groups s) \<rparr>"

definition pg_del :: "string \<Rightarrow> pid \<Rightarrow> process_groups \<Rightarrow> process_groups" where
  "pg_del grp p s =
    s\<lparr> pg_groups := hm_shrink grp (\<lambda>q. q \<noteq> p) (pg_groups s),
       pg_pid_groups := hm_shrink p (\<lambda>g. g \<noteq> grp) (pg_pid_groups s) \<rparr>"

definition pg_del_all :: "pid \<Rightarrow> process_groups \<Rightarrow> process_groups" where
  "pg_del_all p s =
    (case hm_get (pg_pid_groups s) p of
       None \<Rightarrow> s
     | Some gs \<Rightarrow>
        s\<lparr> pg_pid_groups := hm_remove p (pg_pid_groups s),
           pg_groups := fold (\<lambda>g. hm_shrink g (\<lambda>q. q \<noteq> p)) gs (pg_groups s) \<rparr>)"

definition pg_join :: "node_identity option \<Rightarrow> node list \<Rightarrow> string \<Rightarrow> pid \<Rightarrow> process_groups \<Rightarrow> process_groups \<times> pg_out" where
  "pg_join this conn grp p s =
    (pg_add grp p s, if pid_is_local this p then broadcast_pg_message conn (PgJoin grp p) else [])"

definition pg_leave :: "node_identity option \<Rightarrow> node list \<Rightarrow> string \<Rightarrow> pid \<Rightarrow> process_groups \<Rightarrow> process_groups \<times> pg_out" where
  "pg_leave this conn grp p s =
    (pg_del grp p s, if pid_is_local this p then broadcast_pg_message conn (PgLeave grp p) else [])"

definition pg_leave_all :: "node_identity option \<Rightarrow> node list \<Rightarrow> pid \<Rightarrow> process_groups \<Rightarrow> process_groups \<times> pg_out" where
  "pg_leave_all this conn p s =
    (pg_del_all p s,
     if hm_contains p (pg_pid_groups s) \<and> pid_is_local this p then broadcast_pg_message conn (PgLeaveAll p) else [])"

definition pg_get_members :: "string \<Rightarrow> process_groups \<Rightarrow> pid list" where
  "pg_get_members grp s = (case hm_get (pg_groups s) grp of None \<Rightarrow> [] | Some ps \<Rightarrow> ps)"

definition pg_get_local_members :: "node_identity option \<Rightarrow> string \<Rightarrow> process_groups \<Rightarrow> pid list" where
  "pg_get_local_members this grp s =
    (case hm_get (pg_groups s) grp of None \<Rightarrow> [] | Some ps \<Rightarrow> filter (pid_is_local this) ps)"

definition pg_which_groups :: "pid \<Rightarrow> process_groups \<Rightarrow> string list" where
  "pg_which_groups p s = (case hm_get (pg_pid_groups s) p of None \<Rightarrow> [] | Some gs \<Rightarrow> gs)"

definition pg_all_groups :: "process_groups \<Rightarrow> string list" where
  "pg_all_groups s = hm_keys (pg_groups s)"

definition pg_local_groups :: "node_identity option \<Rightarrow> process_groups \<Rightarrow> (string \<times> pid list) list" where
  "pg_local_groups this s =
    filter (\<lambda>(_, ps). ps \<noteq> []) (map (\<lambda>(g, ps). (g, filter (pid_is_local this) ps)) (pg_groups s))"

definition pg_merge :: "(string \<times> pid list) list \<Rightarrow> process_groups \<Rightarrow> process_groups" where
  "pg_merge groups s = fold (\<lambda>(grp, ps) s. fold (\<lambda>p. pg_add grp p) ps s) groups s"

fun pg_handle_message :: "node_identity option \<Rightarrow> node list \<Rightarrow> pg_message \<Rightarrow> node \<Rightarrow> process_groups \<Rightarrow> process_groups \<times> pg_out" where
  "pg_handle_message this conn (PgJoin grp p) origin s = (pg_add grp p s, [])"
| "pg_handle_message this conn (PgLeave grp p) origin s = (pg_del grp p s, [])"
| "pg_handle_message this conn (PgLeaveAll p) origin s = (pg_del_all p s, [])"
| "pg_handle_message this conn PgSyncRequest origin s =
    (s, if origin \<in> set conn then [(origin, PgSyncResponse (pg_local_groups this s))] else [])"
| "pg_handle_message this conn (PgSyncResponse groups) origin s = (pg_merge groups s, [])"

definition pg_remove_node_members :: "node \<Rightarrow> process_groups \<Rightarrow> process_groups" where
  "pg_remove_node_members n s =
    fold pg_del_all (filter (\<lambda>p. pid_node p = n) (hm_keys (pg_pid_groups s))) s"

definition pg_request_sync :: "node_identity option \<Rightarrow> node list \<Rightarrow> node \<Rightarrow> process_groups \<Rightarrow> pg_out" where
  "pg_request_sync this conn n s =
    (if n \<in> set conn
     then (n, PgSyncRequest) #
       (if pg_local_groups this s \<noteq> [] then [(n, PgSyncResponse (pg_local_groups this s))] else [])
     else [])"

section \<open>The invariant\<close>

definition pg_members :: "process_groups \<Rightarrow> (string \<times> pid) set" where
  "pg_members s = {(g, p). p \<in> set (hm_at (pg_groups s) g)}"

definition pg_ok :: "process_groups \<Rightarrow> bool" where
  "pg_ok s \<longleftrightarrow> hm_ok (pg_groups s) \<and> hm_ok (pg_pid_groups s) \<and> hm_tight (pg_groups s) \<and> hm_tight (pg_pid_groups s) \<and>
     (\<forall>g p. g \<in> set (hm_at (pg_pid_groups s) p) \<longleftrightarrow> (g, p) \<in> pg_members s)"

lemma pg_ok_index: "pg_ok s \<Longrightarrow> (g, p) \<in> pg_members s \<longleftrightarrow> g \<in> set (hm_at (pg_pid_groups s) p)"
  by (simp add: pg_ok_def)

lemma pg_new_ok [simp]: "pg_ok pg_new" "pg_members pg_new = {}"
  by (simp_all add: pg_ok_def pg_new_def pg_members_def)

lemma pg_add_members [simp]: "pg_members (pg_add g p s) = insert (g, p) (pg_members s)"
  by (auto simp: pg_add_def pg_members_def split: if_splits)

lemma pg_add_ok [simp]: "pg_ok s \<Longrightarrow> pg_ok (pg_add g p s)"
  unfolding pg_ok_def pg_add_members by (auto simp: pg_add_def)

lemma pg_del_members [simp]: "pg_members (pg_del g p s) = pg_members s - {(g, p)}"
  by (auto simp: pg_del_def pg_members_def split: if_splits)

lemma pg_del_ok [simp]: "pg_ok s \<Longrightarrow> pg_ok (pg_del g p s)"
  unfolding pg_ok_def pg_del_members by (auto simp: pg_del_def)

lemma pg_del_all_members:
  assumes ok: "pg_ok s"
  shows "pg_members (pg_del_all p s) = pg_members s - UNIV \<times> {p}"
proof (intro set_eqI, clarify)
  fix g q
  have keys: "g \<in> set (hm_at (pg_pid_groups s) p) \<longleftrightarrow> p \<in> set (hm_at (pg_groups s) g)"
    using ok by (simp add: pg_ok_def pg_members_def)
  show "(g, q) \<in> pg_members (pg_del_all p s) \<longleftrightarrow> (g, q) \<in> pg_members s - UNIV \<times> {p}"
    using keys by (auto simp: pg_del_all_def pg_members_def fold_shrink_at hm_at_def [of "pg_pid_groups s"] split: option.splits)
qed

lemma pg_del_all_ok:
  assumes ok: "pg_ok s"
  shows "pg_ok (pg_del_all p s)"
proof (cases "hm_get (pg_pid_groups s) p")
  case None
  then show ?thesis using ok by (simp add: pg_del_all_def)
next
  case (Some gs)
  then show ?thesis
    using ok pg_del_all_members [OF ok, of p] fold_shrink_ok [of "pg_groups s"]
    unfolding pg_ok_def by (auto simp: pg_del_all_def)
qed

lemma pg_which_groups_at: "pg_which_groups p s = hm_at (pg_pid_groups s) p"
  by (simp add: pg_which_groups_def hm_at_def)

interpretation pg_index: membership_index pg_ok pg_members "\<lambda>s p. pg_which_groups p s" "\<lambda>_ _. True"
  "\<lambda>g p (_ :: unit) s. fst (pg_join this conn g p s)" "\<lambda>g p s. fst (pg_leave this conn g p s)"
  "\<lambda>p s. fst (pg_leave_all this conn p s)" for this conn
proof
  fix s p assume ok: "pg_ok s"
  show "set (pg_which_groups p s) = {g. (g, p) \<in> pg_members s}"
    using ok by (auto simp: pg_which_groups_at pg_ok_def)
  show "pg_ok (fst (pg_leave_all this conn p s))" using ok by (simp add: pg_leave_all_def pg_del_all_ok)
  show "pg_members (fst (pg_leave_all this conn p s)) = pg_members s - UNIV \<times> {p}"
    using ok by (simp add: pg_leave_all_def pg_del_all_members)
qed (simp_all add: pg_join_def pg_leave_def)
section \<open>Replication\<close>

text \<open>The operations a node performs for its own processes, with what it hands to the queues.\<close>

fun pg_do :: "node_identity option \<Rightarrow> node list \<Rightarrow> (string, unit) mem_op \<Rightarrow> process_groups \<Rightarrow> process_groups \<times> pg_out" where
  "pg_do this conn (Add g p _) s = pg_join this conn g p s"
| "pg_do this conn (Remove g p) s = pg_leave this conn g p s"
| "pg_do this conn (RemoveAll p) s = pg_leave_all this conn p s"

fun pg_run :: "node_identity option \<Rightarrow> node list \<Rightarrow> (string, unit) mem_op list \<Rightarrow> process_groups \<Rightarrow> process_groups \<times> pg_out" where
  "pg_run this conn [] s = (s, [])"
| "pg_run this conn (op # ops) s =
    (let (s1, out1) = pg_do this conn op s; (s2, out2) = pg_run this conn ops s1 in (s2, out1 @ out2))"

definition pg_deliver :: "node_identity option \<Rightarrow> node list \<Rightarrow> node \<Rightarrow> pg_message list \<Rightarrow> process_groups \<Rightarrow> process_groups" where
  "pg_deliver this conn origin msgs s = fold (\<lambda>m s. fst (pg_handle_message this conn m origin s)) msgs s"

definition sent_to :: "node \<Rightarrow> pg_out \<Rightarrow> pg_message list" where
  "sent_to n out = map snd (filter (\<lambda>(m, _). m = n) out)"

fun op_pid :: "(string, unit) mem_op \<Rightarrow> pid" where
  "op_pid (Add g p _) = p" | "op_pid (Remove g p) = p" | "op_pid (RemoveAll p) = p"

definition pg_of_node :: "node \<Rightarrow> process_groups \<Rightarrow> (string \<times> pid) set" where
  "pg_of_node n s = {x \<in> pg_members s. pid_node (snd x) = n}"

lemma pg_of_node_ops:
  "pg_of_node n (pg_add g p s) = (if pid_node p = n then insert (g, p) (pg_of_node n s) else pg_of_node n s)"
  "pg_of_node n (pg_del g p s) = pg_of_node n s - {(g, p)}"
  "pg_ok s \<Longrightarrow> pg_of_node n (pg_del_all p s) = pg_of_node n s - UNIV \<times> {p}"
  by (auto simp: pg_of_node_def pg_del_all_members)

lemma sent_to_broadcast: "sent_to n (broadcast_pg_message conn m) = map (\<lambda>_. m) (filter (\<lambda>k. k = n) conn)"
  by (induction conn) (auto simp: sent_to_def broadcast_pg_message_def)

lemma filter_one: "distinct xs \<Longrightarrow> x \<in> set xs \<Longrightarrow> filter (\<lambda>k. k = x) xs = [x]"
  by (induction xs) (auto simp: filter_empty_conv)

lemma pg_step_follows:
  assumes ok: "pg_ok a" "pg_ok b" and own: "pid_is_local this (op_pid op)" and conn: "distinct conn" "n \<in> set conn"
    and same: "pg_of_node (node_name_atom this) a = pg_of_node (node_name_atom this) b"
    and step: "pg_do this conn op a = (a', out)" and b': "b' = pg_deliver that conn' origin (sent_to n out) b"
  shows "pg_ok a' \<and> pg_ok b' \<and> pg_of_node (node_name_atom this) a' = pg_of_node (node_name_atom this) b'"
proof -
  note one = sent_to_broadcast filter_one [OF conn]
  show ?thesis
  proof (cases op)
    case (Add g p u)
    then show ?thesis
      using step own ok same b'
      by (auto simp: pg_join_def one pg_deliver_def pg_of_node_ops pid_is_local_def)
  next
    case (Remove g p)
    then show ?thesis
      using step own ok same b'
      by (auto simp: pg_leave_def one pg_deliver_def pg_of_node_ops pid_is_local_def)
  next
    case (RemoveAll p)
    have all: "pg_ok (pg_del_all p a)" "pg_ok (pg_del_all p b)"
      using ok by (simp_all add: pg_del_all_ok)
    show ?thesis
    proof (cases "hm_contains p (pg_pid_groups a)")
      case True
      then show ?thesis using RemoveAll step own same b' all
        by (auto simp: pg_leave_all_def one pg_deliver_def pg_of_node_ops ok pid_is_local_def)
    next
      case False
      have "hm_at (pg_pid_groups a) p = []" using False by (simp add: hm_contains_def hm_at_def)
      then have "(g, p) \<notin> pg_members a" for g using pg_ok_index [OF ok(1), of g p] by simp
      then have "pg_of_node (node_name_atom this) a - UNIV \<times> {p} = pg_of_node (node_name_atom this) a"
        by (auto simp: pg_of_node_def)
      moreover have "a' = pg_del_all p a" "b' = b" using RemoveAll step False b' by (auto simp: pg_leave_all_def sent_to_def pg_deliver_def)
      ultimately show ?thesis using ok same all by (simp add: pg_of_node_ops)
    qed
  qed
qed

text \<open>C16. The replicas of process groups follow their node.  If another node agrees about the groups of
  this node's processes, then after any joins, leaves and departures of this node's processes, and
  after the other node has handled the messages it was sent, in order, it agrees again.\<close>

theorem pg_replica_follows:
  assumes "pg_ok a" "pg_ok b" "distinct conn" "n \<in> set conn"
    and "\<forall>op \<in> set ops. pid_is_local this (op_pid op)"
    and "pg_of_node (node_name_atom this) a = pg_of_node (node_name_atom this) b"
    and "pg_run this conn ops a = (a', out)"
  shows "pg_of_node (node_name_atom this) a' =
    pg_of_node (node_name_atom this) (pg_deliver that conn' origin (sent_to n out) b)"
  using assms
proof (induction ops arbitrary: a b out)
  case Nil
  then show ?case by (simp add: sent_to_def pg_deliver_def)
next
  case (Cons op ops)
  obtain a1 out1 where step: "pg_do this conn op a = (a1, out1)" by (metis surj_pair)
  obtain out2 where rest: "pg_run this conn ops a1 = (a', out2)" and out: "out = out1 @ out2"
    using Cons.prems(7) step by (auto split: prod.splits)
  let ?b1 = "pg_deliver that conn' origin (sent_to n out1) b"
  have "pid_is_local this (op_pid op)" using Cons.prems(5) by simp
  note s = pg_step_follows [OF Cons.prems(1,2) this Cons.prems(3,4,6) step refl, of that conn' origin]
  have "pg_of_node (node_name_atom this) a' =
      pg_of_node (node_name_atom this) (pg_deliver that conn' origin (sent_to n out2) ?b1)"
    by (rule Cons.IH) (use s Cons.prems rest in simp_all)
  then show ?case by (simp add: out sent_to_def pg_deliver_def)
qed

definition ex_node :: "string \<Rightarrow> node_identity option" where
  "ex_node n = Some \<lparr> ni_name = n, ni_creation = 0 \<rparr>"

definition ex_member :: "string \<Rightarrow> pid" where
  "ex_member n = \<lparr> pid_node = n, pid_id = 7, pid_creation = 0 \<rparr>"

theorem pg_replica_follows_witness:
  "pg_of_node ''a'' (pg_deliver (ex_node ''b'') [''a''] ''a'' [PgJoin ''g'' (ex_member ''a''), PgJoin ''h'' (ex_member ''a''),
     PgLeave ''g'' (ex_member ''a'')] pg_new) = {(''h'', ex_member ''a'')}"
proof -
  let ?ops = "[Add ''g'' (ex_member ''a'') (), Add ''h'' (ex_member ''a'') (), Remove ''g'' (ex_member ''a'')]"
  obtain a' out where run: "pg_run (ex_node ''a'') [''b''] ?ops pg_new = (a', out)" by (metis surj_pair)
  have "sent_to ''b'' (snd (pg_run (ex_node ''a'') [''b''] ?ops pg_new)) = [PgJoin ''g'' (ex_member ''a''),
     PgJoin ''h'' (ex_member ''a''), PgLeave ''g'' (ex_member ''a'')]" by code_simp
  then have out: "sent_to ''b'' out = [PgJoin ''g'' (ex_member ''a''), PgJoin ''h'' (ex_member ''a''),
     PgLeave ''g'' (ex_member ''a'')]" by (simp only: run snd_conv)
  have a': "pg_of_node ''a'' a' = {(''h'', ex_member ''a'')}"
    using run by (auto simp: pg_join_def pg_leave_def pg_of_node_def ex_member_def)
  have "pg_of_node (node_name_atom (ex_node ''a'')) a' =
      pg_of_node (node_name_atom (ex_node ''a'')) (pg_deliver (ex_node ''b'') [''a''] ''a'' (sent_to ''b'' out) pg_new)"
    by (rule pg_replica_follows [OF _ _ _ _ _ _ run])
      (simp_all add: pid_is_local_def ex_member_def ex_node_def node_name_atom_def)
  then show ?thesis using a' by (simp add: out node_name_atom_def ex_node_def)
qed

section \<open>Synchronisation and disconnection\<close>

lemma pg_merge_result:
  "pg_ok s \<Longrightarrow> pg_ok (pg_merge groups s) \<and>
    pg_members (pg_merge groups s) = pg_members s \<union> {(g, p). \<exists>ps. (g, ps) \<in> set groups \<and> p \<in> set ps}"
  unfolding pg_merge_def
proof (induction groups arbitrary: s)
  case (Cons gp groups)
  obtain g ps where gp: "gp = (g, ps)" by (cases gp)
  have "pg_ok (fold (\<lambda>p. pg_add g p) ps s) \<and> pg_members (fold (\<lambda>p. pg_add g p) ps s) = pg_members s \<union> {g} \<times> set ps"
    if "pg_ok s" for s using that by (induction ps arbitrary: s) auto
  then show ?case using Cons gp by auto
qed simp

lemma pg_local_groups_set:
  assumes "pg_ok s"
  shows "{(g, p). \<exists>ps. (g, ps) \<in> set (pg_local_groups this s) \<and> p \<in> set ps} = {x \<in> pg_members s. pid_is_local this (snd x)}"
proof (intro set_eqI iffI)
  have get: "(g, ps) \<in> set (pg_groups s) \<longleftrightarrow> hm_get (pg_groups s) g = Some ps" for g ps
    using assms by (simp add: pg_ok_def hm_in_set)
  fix x
  assume "x \<in> {(g, p). \<exists>ps. (g, ps) \<in> set (pg_local_groups this s) \<and> p \<in> set ps}"
  then obtain g p qs where "x = (g, p)" "(g, qs) \<in> set (pg_groups s)" "p \<in> set qs" "pid_is_local this p"
    by (auto simp: pg_local_groups_def)
  then show "x \<in> {x \<in> pg_members s. pid_is_local this (snd x)}" by (simp add: get pg_members_def hm_at_def)
next
  fix x
  assume "x \<in> {x \<in> pg_members s. pid_is_local this (snd x)}"
  then obtain g p where x: "x = (g, p)" "p \<in> set (hm_at (pg_groups s) g)" "pid_is_local this p"
    by (cases x) (auto simp: pg_members_def)
  then obtain ps where "hm_get (pg_groups s) g = Some ps" "p \<in> set ps"
    by (cases "hm_get (pg_groups s) g") (auto simp: hm_at_def)
  then have "(g, filter (pid_is_local this) ps) \<in> set (pg_local_groups this s)" "p \<in> set (filter (pid_is_local this) ps)"
    using x(3) hm_get_in_set [of "pg_groups s" g ps]
    by (auto simp: pg_local_groups_def filter_empty_conv image_iff intro!: bexI [of _ "(g, ps)"])
  then show "x \<in> {(g, p). \<exists>ps. (g, ps) \<in> set (pg_local_groups this s) \<and> p \<in> set ps}" using x(1) by blast
qed

lemma pg_remove_node_result:
  assumes ok: "pg_ok s"
  shows "pg_ok (pg_remove_node_members n s) \<and>
    pg_members (pg_remove_node_members n s) = {(g, p) \<in> pg_members s. pid_node p \<noteq> n}"
proof -
  have fold: "pg_ok (fold pg_del_all ps s) \<and> pg_members (fold pg_del_all ps s) = pg_members s - UNIV \<times> set ps"
    if "pg_ok s" for ps s
    using that
  proof (induction ps arbitrary: s)
    case (Cons p ps)
    then show ?case using pg_del_all_ok [of s p] pg_del_all_members [of s p] by auto
  qed simp
  have "p \<in> set (hm_keys (pg_pid_groups s))" if "(g, p) \<in> pg_members s" for g p
  proof -
    have "g \<in> set (hm_at (pg_pid_groups s) p)" using ok that by (simp add: pg_ok_def)
    then show ?thesis by (cases "hm_get (pg_pid_groups s) p") (auto simp: set_hm_keys hm_at_def)
  qed
  then show ?thesis using fold [OF ok] by (auto simp: pg_remove_node_members_def)
qed

text \<open>Synchronisation transfers exactly the members of the answering node, and a lost connection
  removes exactly the members of the lost node.  Handling the answer to a request adds to the groups
  the members that are processes of the answering node, and nothing else.\<close>

lemma pg_sync_and_disconnect:
  assumes "pg_ok a" "pg_ok b"
  shows "(\<forall>m \<in> set (sent_to n (snd (pg_handle_message this [n] PgSyncRequest n a))).
      pg_members (fst (pg_handle_message that conn m origin b)) =
      pg_members b \<union> pg_of_node (node_name_atom this) a) \<and>
    pg_members (pg_remove_node_members n b) = {(g, p) \<in> pg_members b. pid_node p \<noteq> n}"
proof
  show "\<forall>m \<in> set (sent_to n (snd (pg_handle_message this [n] PgSyncRequest n a))).
      pg_members (fst (pg_handle_message that conn m origin b)) = pg_members b \<union> pg_of_node (node_name_atom this) a"
    using pg_merge_result [OF assms(2)] pg_local_groups_set [OF assms(1), of this]
    by (simp add: sent_to_def pg_of_node_def pid_is_local_def)
qed (simp add: pg_remove_node_result [OF assms(2)])

end
