(* ===== verification/Global.thy ===== *)
theory Global
  imports Core
begin

text \<open>
  The global name registry (\<open>distribution/global.rs\<close>): every node keeps a map from names to processes
  and tells the connected nodes about its changes.  As in \<open>Pg\<close>, what is handed to the sending queues
  is returned as pairs of a node and a message.  A name registered on two nodes at the same time stays
  with a different process on each, and unregistering it on either removes it on both.
\<close>

datatype global_message =
    GRegister string pid | GUnregister string | GSyncRequest | GSyncResponse "(string \<times> pid) list"

type_synonym global_names = "(string, pid) hmap"
type_synonym global_out = "(node \<times> global_message) list"

definition broadcast_global_message :: "node list \<Rightarrow> global_message \<Rightarrow> global_out" where
  "broadcast_global_message conn msg = map (\<lambda>n. (n, msg)) conn"

definition global_register :: "node list \<Rightarrow> string \<Rightarrow> pid \<Rightarrow> global_names \<Rightarrow> bool \<times> global_names \<times> global_out" where
  "global_register conn name p s =
    (if hm_contains name s then (False, s, [])
     else (True, hm_insert name p s, broadcast_global_message conn (GRegister name p)))"

definition global_unregister :: "node list \<Rightarrow> string \<Rightarrow> global_names \<Rightarrow> pid option \<times> global_names \<times> global_out" where
  "global_unregister conn name s =
    (hm_get s name, hm_remove name s,
     if hm_get s name \<noteq> None then broadcast_global_message conn (GUnregister name) else [])"

definition global_whereis :: "string \<Rightarrow> global_names \<Rightarrow> pid option" where
  "global_whereis name s = hm_get s name"

definition global_registered :: "global_names \<Rightarrow> string list" where
  "global_registered s = hm_keys s"

definition or_insert :: "string \<Rightarrow> pid \<Rightarrow> global_names \<Rightarrow> global_names" where
  "or_insert name p s = (if hm_contains name s then s else hm_insert name p s)"

fun global_handle_message :: "node list \<Rightarrow> global_message \<Rightarrow> node \<Rightarrow> global_names \<Rightarrow> global_names \<times> global_out" where
  "global_handle_message conn (GRegister name p) origin s = (or_insert name p s, [])"
| "global_handle_message conn (GUnregister name) origin s = (hm_remove name s, [])"
| "global_handle_message conn GSyncRequest origin s =
    (s, if origin \<in> set conn then [(origin, GSyncResponse s)] else [])"
| "global_handle_message conn (GSyncResponse entries) origin s = (fold (\<lambda>(name, p). or_insert name p) entries s, [])"

definition global_request_sync :: "node list \<Rightarrow> node \<Rightarrow> global_names \<Rightarrow> global_out" where
  "global_request_sync conn n s =
    (if n \<in> set conn then (n, GSyncRequest) # (if s \<noteq> [] then [(n, GSyncResponse s)] else []) else [])"

definition global_deliver :: "node list \<Rightarrow> node \<Rightarrow> global_message list \<Rightarrow> global_names \<Rightarrow> global_names" where
  "global_deliver conn origin msgs s = fold (\<lambda>m s. fst (global_handle_message conn m origin s)) msgs s"

section \<open>Names once taken\<close>

lemma or_insert_get: "hm_get (or_insert name p s) n = (if n = name \<and> hm_get s n = None then Some p else hm_get s n)"
  by (auto simp: or_insert_def hm_contains_def)

lemma or_inserts_keep: "hm_get s n = Some p \<Longrightarrow> hm_get (fold (\<lambda>(name, p). or_insert name p) entries s) n = Some p"
  by (induction entries arbitrary: s) (auto simp: or_insert_get)

lemma deliver_keeps:
  "hm_get s n = Some p \<Longrightarrow> GUnregister n \<notin> set msgs \<Longrightarrow> hm_get (global_deliver conn origin msgs s) n = Some p"
proof (induction msgs arbitrary: s)
  case (Cons m msgs)
  have "hm_get (fst (global_handle_message conn m origin s)) n = Some p"
    using Cons.prems by (cases m) (auto simp: or_insert_get or_inserts_keep)
  then show ?case using Cons by (simp add: global_deliver_def)
qed (simp add: global_deliver_def)

text \<open>Two nodes that register the same free name at the same time disagree for good.  Both
  registrations succeed; whatever register, synchronisation and other messages the nodes then handle,
  each goes on resolving the name to its own process; and when one of them unregisters it, the message
  it broadcasts takes the other's registration away as well.\<close>

lemma global_conflict_never_heals:
  assumes "hm_get a name = None" "hm_get b name = None" "p \<noteq> q"
    and "global_register conna name p a = (oka, a', outa)" "global_register connb name q b = (okb, b', outb)"
    and "GUnregister name \<notin> set msgsa" "GUnregister name \<notin> set msgsb"
  shows "oka \<and> okb \<and>
    global_whereis name (global_deliver conna nb msgsa a') = Some p \<and>
    global_whereis name (global_deliver connb na msgsb b') = Some q \<and>
    (na, GUnregister name) \<in> set (snd (snd (global_unregister [na] name (global_deliver connb na msgsb b')))) \<and>
    global_whereis name (fst (global_handle_message conna (GUnregister name) nb (global_deliver conna nb msgsa a'))) = None"
proof -
  have reg: "oka" "okb" "hm_get a' name = Some p" "hm_get b' name = Some q"
    using assms by (auto simp: global_register_def hm_contains_def)
  have "hm_get (global_deliver conna nb msgsa a') name = Some p" "hm_get (global_deliver connb na msgsb b') name = Some q"
    using deliver_keeps reg assms(6,7) by blast+
  then show ?thesis using reg
    by (simp add: global_whereis_def global_unregister_def broadcast_global_message_def)
qed

end
