(* ===== verification/Manager.thy ===== *)
theory Manager
  imports ProcMonitor NodeMonitor Pg Global
begin

text \<open>
  The distribution manager (\<open>distribution/manager.rs\<close>): the tables of connected and known nodes, the
  handshakes, the heartbeat, the loss of a connection and the dispatch of messages from other nodes to
  the process monitors, the node monitors, the process groups and the global names.  It also holds
  remote spawning (\<open>distribution/spawn.rs\<close>) and the calls of \<open>node.rs\<close> that use the manager.

  The global manager, its runtime, groups and names are one record, which extends the one of the remote
  monitors.  What is handed to the queue of a node is recorded in \<open>dl_out\<close>.  A connection is a number, the
  time is a number of milliseconds, and dialling, accepting and the codecs of payloads are arguments.
  Where a handshake awaits the network the code lets other tasks run, so it is cut there in two.
\<close>

section \<open>State\<close>

type_synonym addr = string

datatype node_type = Native | Erlang

record node_info =
  in_name :: node
  in_addr :: "addr option"
  in_creation :: "32 word"

record connected_node =
  cn_info :: node_info
  cn_connection :: nat
  cn_last_seen :: nat

record dist_codec =
  dc_node_down :: "node_down \<Rightarrow> byte list"
  dc_pg_enc :: "pg_message \<Rightarrow> byte list"
  dc_pg_dec :: "byte list \<Rightarrow> pg_message option"
  dc_global_enc :: "global_message \<Rightarrow> byte list"
  dc_global_dec :: "byte list \<Rightarrow> global_message option"

type_synonym spawn_reply = "pid option \<times> 64 word option \<times> string option"

record dist_manager = dist_local +
  dm_node_name :: node
  dm_creation :: "32 word"
  dm_nodes :: "(node, connected_node) hmap"
  dm_addr_to_node :: "(addr, node) hmap"
  dm_known :: "(node, addr) hmap"
  dm_reconnecting :: "node list"
  dm_types :: "(node, node_type) hmap"
  dm_monitors :: node_monitors
  dm_pings :: "(node \<times> 64 word) list"
  dm_pongs :: "(node \<times> 64 word) list"
  dm_spawns :: "64 word list"
  dm_spawn_replies :: "(64 word \<times> spawn_reply) list"
  dm_pg :: process_groups
  dm_global :: global_names
  dm_functions :: "(string \<times> string, nat) hmap"
  dm_started :: "(pid \<times> nat \<times> byte list) list"
  dm_closed :: "(nat \<times> string) list"
  dm_clock :: nat
  dm_heartbeat_seq :: "64 word"
  dm_ping_seq :: "64 word"
  dm_spawn_seq :: "64 word"

definition heartbeat_timeout :: nat where
  "heartbeat_timeout = 6000"

definition is_timed_out :: "nat \<Rightarrow> connected_node \<Rightarrow> bool" where
  "is_timed_out now cn = (now - cn_last_seen cn > heartbeat_timeout)"

definition touch :: "node \<Rightarrow> dist_manager \<Rightarrow> dist_manager" where
  "touch n m = m\<lparr> dm_nodes := hm_get_mut n (\<lambda>cn. cn\<lparr> cn_last_seen := dm_clock m \<rparr>) (dm_nodes m) \<rparr>"

text \<open>The nodes with a sending queue.\<close>

definition dm_conn :: "dist_manager \<Rightarrow> node list" where
  "dm_conn m = hm_keys (dm_nodes m)"

definition dm_this :: "dist_manager \<Rightarrow> node_identity option" where
  "dm_this m = ps_this (rt_pids (dl_rt m))"

definition connected_nodes :: "dist_manager \<Rightarrow> node list" where
  "connected_nodes m = hm_keys (dm_types m)"

definition dm_node_type :: "node \<Rightarrow> dist_manager \<Rightarrow> node_type option" where
  "dm_node_type n m = hm_get (dm_types m) n"

definition get_node_info :: "node \<Rightarrow> dist_manager \<Rightarrow> node_info option" where
  "get_node_info n m = map_option cn_info (hm_get (dm_nodes m) n)"

section \<open>Handing messages to the groups and the global names\<close>

definition queue_pg :: "dist_codec \<Rightarrow> pg_out \<Rightarrow> dist_manager \<Rightarrow> dist_manager" where
  "queue_pg C out m = m\<lparr> dl_out := dl_out m @ map (\<lambda>(n, msg). (n, ProcessGroupsMsg (dc_pg_enc C msg))) out \<rparr>"

definition queue_global :: "dist_codec \<Rightarrow> global_out \<Rightarrow> dist_manager \<Rightarrow> dist_manager" where
  "queue_global C out m = m\<lparr> dl_out := dl_out m @ map (\<lambda>(n, msg). (n, GlobalRegistryMsg (dc_global_enc C msg))) out \<rparr>"

definition request_syncs :: "dist_codec \<Rightarrow> node \<Rightarrow> dist_manager \<Rightarrow> dist_manager" where
  "request_syncs C n m =
    (let m1 = queue_global C (global_request_sync (dm_conn m) n (dm_global m)) m
     in queue_pg C (pg_request_sync (dm_this m1) (dm_conn m1) n (dm_pg m1)) m1)"

definition pg_forget_node :: "node \<Rightarrow> dist_manager \<Rightarrow> dist_manager" where
  "pg_forget_node n m = m\<lparr> dm_pg := pg_remove_node_members n (dm_pg m) \<rparr>"

section \<open>Losing a node\<close>

definition close_connection :: "nat \<Rightarrow> string \<Rightarrow> dist_manager \<Rightarrow> dist_manager" where
  "close_connection c reason m = m\<lparr> dm_closed := dm_closed m @ [(c, reason)] \<rparr>"

definition drop_addr :: "connected_node \<Rightarrow> dist_manager \<Rightarrow> dist_manager" where
  "drop_addr cn m =
    (case in_addr (cn_info cn) of None \<Rightarrow> m | Some a \<Rightarrow> m\<lparr> dm_addr_to_node := hm_remove a (dm_addr_to_node m) \<rparr>)"

text \<open>The notifications after a node has left the tables.\<close>

definition node_lost :: "dist_codec \<Rightarrow> node \<Rightarrow> string \<Rightarrow> dist_manager \<Rightarrow> dist_manager" where
  "node_lost C n reason m =
    (let (nm, s) = notify_node_down (dc_node_down C) n reason (dm_monitors m) (dl_rt m);
         m1 = m\<lparr> dm_monitors := nm, dl_rt := s \<rparr>
     in pg_forget_node n (pm_node_down n m1))"

definition disconnect_from :: "dist_codec \<Rightarrow> node \<Rightarrow> dist_manager \<Rightarrow> (dist_error + unit) \<times> dist_manager" where
  "disconnect_from C n m =
    (let m1 = m\<lparr> dm_types := hm_remove n (dm_types m) \<rparr> in
     case hm_get (dm_nodes m1) n of
       None \<Rightarrow> (Inl (NotConnected n), m1)
     | Some cn \<Rightarrow>
        (let m2 = close_connection (cn_connection cn) ''disconnect requested'' (m1\<lparr> dm_nodes := hm_remove n (dm_nodes m1) \<rparr>)
         in (Inr (), node_lost C n ''disconnect requested'' (drop_addr cn m2))))"

text \<open>The end of the receiver loop of a connection: it cleans up if the node is still connected over it.\<close>

definition receiver_end :: "dist_codec \<Rightarrow> node \<Rightarrow> addr \<Rightarrow> dist_manager \<Rightarrow> dist_manager" where
  "receiver_end C n a m =
    (case hm_get (dm_nodes m) n of
       None \<Rightarrow> m
     | Some cn \<Rightarrow>
        if in_addr (cn_info cn) = Some a
        then node_lost C n ''connection closed''
               (drop_addr cn (m\<lparr> dm_types := hm_remove n (dm_types m), dm_nodes := hm_remove n (dm_nodes m) \<rparr>))
        else m)"

definition sender_end :: "dist_codec \<Rightarrow> node \<Rightarrow> addr \<Rightarrow> dist_manager \<Rightarrow> dist_manager" where
  "sender_end C n a m = receiver_end C n a m"

section \<open>Connecting\<close>

text \<open>Before dialling.\<close>

definition connect_check :: "addr \<Rightarrow> dist_manager \<Rightarrow> dist_error + unit" where
  "connect_check a m =
    (case hm_get (dm_addr_to_node m) a of Some n \<Rightarrow> Inl (AlreadyConnected n) | None \<Rightarrow> Inr ())"

text \<open>The answer to the greeting.\<close>

definition perform_handshake :: "addr \<Rightarrow> dist_message \<Rightarrow> dist_error + node \<times> node_info" where
  "perform_handshake a welcome =
    (case welcome of
       Welcome name creation \<Rightarrow> Inr (name, \<lparr> in_name = name, in_addr = Some a, in_creation = creation \<rparr>)
     | _ \<Rightarrow> Inl (Handshake ''expected Welcome message''))"

definition register_node :: "node \<Rightarrow> node_info \<Rightarrow> addr \<Rightarrow> nat \<Rightarrow> dist_manager \<Rightarrow> dist_manager" where
  "register_node n info a c m =
    m\<lparr> dm_nodes := hm_insert n \<lparr> cn_info = info, cn_connection = c, cn_last_seen = dm_clock m \<rparr> (dm_nodes m),
       dm_addr_to_node := hm_insert a n (dm_addr_to_node m), dm_types := hm_insert n Native (dm_types m),
       dm_known := hm_insert n a (dm_known m) \<rparr>"

text \<open>After dialling address \<open>a\<close> gave connection \<open>c\<close> and the answer to the greeting.\<close>

definition connect_finish :: "dist_codec \<Rightarrow> addr \<Rightarrow> nat \<Rightarrow> dist_message \<Rightarrow> dist_manager \<Rightarrow> (dist_error + node) \<times> dist_manager" where
  "connect_finish C a c welcome m =
    (case perform_handshake a welcome of
       Inl e \<Rightarrow> (Inl e, m)
     | Inr (n, info) \<Rightarrow>
        if hm_contains n (dm_nodes m) then (Inl (AlreadyConnected n), close_connection c ''duplicate connection'' m)
        else (Inr n, request_syncs C n (register_node n info a c m)))"

text \<open>Connecting with nothing in between; \<open>dial\<close> is what dialling and the greeting gave.\<close>

definition connect_to :: "dist_codec \<Rightarrow> (addr \<Rightarrow> dist_error + nat \<times> dist_message) \<Rightarrow> addr \<Rightarrow> dist_manager \<Rightarrow> (dist_error + node) \<times> dist_manager" where
  "connect_to C dial a m =
    (case connect_check a m of
       Inl e \<Rightarrow> (Inl e, m)
     | Inr _ \<Rightarrow> (case dial a of Inl e \<Rightarrow> (Inl e, m) | Inr (c, welcome) \<Rightarrow> connect_finish C a c welcome m))"

text \<open>Reconnecting: the first call only starts a task, which ends in the second.\<close>

definition try_reconnect :: "node \<Rightarrow> dist_manager \<Rightarrow> dist_manager" where
  "try_reconnect n m =
    (case hm_get (dm_known m) n of
       None \<Rightarrow> m
     | Some _ \<Rightarrow> if n \<in> set (dm_reconnecting m) then m else m\<lparr> dm_reconnecting := n # dm_reconnecting m \<rparr>)"

definition reconnect_task :: "dist_codec \<Rightarrow> (addr \<Rightarrow> dist_error + nat \<times> dist_message) \<Rightarrow> node \<Rightarrow> addr \<Rightarrow> dist_manager \<Rightarrow> dist_manager" where
  "reconnect_task C dial n a m =
    (let m1 = snd (connect_to C dial a m) in m1\<lparr> dm_reconnecting := removeAll n (dm_reconnecting m1) \<rparr>)"

text \<open>Accepting a connection: up to the greeting being answered, and after.\<close>

definition accept_hello :: "dist_message \<Rightarrow> dist_manager \<Rightarrow> (dist_error + dist_message \<times> node \<times> 32 word) \<times> dist_manager" where
  "accept_hello hello m =
    (case hello of
       Hello name creation \<Rightarrow>
        (Inr (Welcome (dm_node_name m) (dm_creation m), name, creation),
         case hm_get (dm_nodes m) name of
           None \<Rightarrow> m
         | Some old \<Rightarrow>
             pg_forget_node name (drop_addr old (close_connection (cn_connection old) ''replaced by new connection''
               (m\<lparr> dm_nodes := hm_remove name (dm_nodes m) \<rparr>))))
     | _ \<Rightarrow> (Inl (Handshake ''expected Hello message''), m))"

definition accept_finish :: "dist_codec \<Rightarrow> addr \<Rightarrow> nat \<Rightarrow> node \<Rightarrow> 32 word \<Rightarrow> dist_manager \<Rightarrow> dist_manager" where
  "accept_finish C a c name creation m =
    request_syncs C name (register_node name \<lparr> in_name = name, in_addr = Some a, in_creation = creation \<rparr> a c m)"

section \<open>Heartbeat\<close>

definition heartbeat_node :: "dist_codec \<Rightarrow> node \<times> bool \<Rightarrow> dist_manager \<Rightarrow> dist_manager" where
  "heartbeat_node C = (\<lambda>(n, timed_out) m.
    (if timed_out then
       (let m1 = m\<lparr> dm_types := hm_remove n (dm_types m) \<rparr> in
        case hm_get (dm_nodes m1) n of
          None \<Rightarrow> m1
        | Some cn \<Rightarrow>
            node_lost C n ''heartbeat timeout''
              (drop_addr cn (close_connection (cn_connection cn) ''heartbeat timeout''
                (m1\<lparr> dm_nodes := hm_remove n (dm_nodes m1) \<rparr>))))
     else
       (case hm_get (dm_nodes m) n of
          None \<Rightarrow> m
        | Some _ \<Rightarrow> dl_send (dm_conn m) n (Ping (dm_heartbeat_seq m)) (m\<lparr> dm_heartbeat_seq := dm_heartbeat_seq m + 1 \<rparr>))))"

definition heartbeat :: "dist_codec \<Rightarrow> dist_manager \<Rightarrow> dist_manager" where
  "heartbeat C m = fold (heartbeat_node C) (map (\<lambda>(n, cn). (n, is_timed_out (dm_clock m) cn)) (dm_nodes m)) m"

section \<open>Requests that wait for an answer\<close>

definition complete_ping :: "node \<Rightarrow> 64 word \<Rightarrow> dist_manager \<Rightarrow> dist_manager" where
  "complete_ping n seq m =
    (if (n, seq) \<in> set (dm_pings m)
     then m\<lparr> dm_pings := removeAll (n, seq) (dm_pings m), dm_pongs := dm_pongs m @ [(n, seq)] \<rparr> else m)"

definition complete_spawn :: "64 word \<Rightarrow> spawn_reply \<Rightarrow> dist_manager \<Rightarrow> dist_manager" where
  "complete_spawn r reply m =
    (if r \<in> set (dm_spawns m)
     then m\<lparr> dm_spawns := removeAll r (dm_spawns m), dm_spawn_replies := dm_spawn_replies m @ [(r, reply)] \<rparr> else m)"

text \<open>A ping up to the wait for its answer; \<open>None\<close> when the node is not connected, which is \<open>Pang\<close>.\<close>

definition ping_send :: "node \<Rightarrow> dist_manager \<Rightarrow> 64 word option \<times> dist_manager" where
  "ping_send n m =
    (if n \<in> set (dm_conn m)
     then (Some (dm_ping_seq m),
           dl_send (dm_conn m) n (Ping (dm_ping_seq m))
             (m\<lparr> dm_ping_seq := dm_ping_seq m + 1, dm_pings := List.insert (n, dm_ping_seq m) (dm_pings m) \<rparr>))
     else (None, m))"

text \<open>A remote spawn up to the wait for its reply, and what the reply is turned into.\<close>

definition spawn_send :: "node \<Rightarrow> pid \<Rightarrow> string \<Rightarrow> string \<Rightarrow> byte list \<Rightarrow> bool \<Rightarrow> bool \<Rightarrow> dist_manager \<Rightarrow>
    (dist_error + 64 word) \<times> dist_manager" where
  "spawn_send n me modul function args lnk mon m =
    (if n \<in> set (dm_conn m)
     then (Inr (dm_spawn_seq m),
           dl_send (dm_conn m) n (SpawnMsg (dm_spawn_seq m) me modul function args lnk mon)
             (m\<lparr> dm_spawn_seq := dm_spawn_seq m + 1, dm_spawns := List.insert (dm_spawn_seq m) (dm_spawns m) \<rparr>))
     else (Inl (NotConnected n), m))"

datatype spawn_wait = SpawnAnswered spawn_reply | SpawnChannelClosed | SpawnTimedOut

definition spawn_result :: "spawn_wait \<Rightarrow> dist_error + pid \<times> 64 word option" where
  "spawn_result w =
    (case w of
       SpawnAnswered (p, r, err) \<Rightarrow>
         (case err of
            Some e \<Rightarrow> Inl (ConnectError e)
          | None \<Rightarrow> (case p of Some p \<Rightarrow> Inr (p, r) | None \<Rightarrow> Inl (ConnectError ''spawn returned no PID'')))
     | SpawnChannelClosed \<Rightarrow> Inl (ConnectError ''spawn reply channel closed (node disconnected?)'')
     | SpawnTimedOut \<Rightarrow> Inl (ConnectError ''spawn request timed out''))"

definition spawn_monitor_result :: "spawn_wait \<Rightarrow> dist_error + pid \<times> ref" where
  "spawn_monitor_result w =
    (case spawn_result w of
       Inl e \<Rightarrow> Inl e
     | Inr (p, Some r) \<Rightarrow> Inr (p, r)
     | Inr (p, None) \<Rightarrow> Inl (ConnectError ''spawn_monitor did not return monitor reference''))"

section \<open>Functions that can be spawned from other nodes\<close>

definition spawn_register :: "string \<Rightarrow> string \<Rightarrow> nat \<Rightarrow> dist_manager \<Rightarrow> dist_manager" where
  "spawn_register modul function f m = m\<lparr> dm_functions := hm_insert (modul, function) f (dm_functions m) \<rparr>"

definition spawn_unregister :: "string \<Rightarrow> string \<Rightarrow> dist_manager \<Rightarrow> bool \<times> dist_manager" where
  "spawn_unregister modul function m =
    (hm_contains (modul, function) (dm_functions m), m\<lparr> dm_functions := hm_remove (modul, function) (dm_functions m) \<rparr>)"

definition spawn_contains :: "string \<Rightarrow> string \<Rightarrow> dist_manager \<Rightarrow> bool" where
  "spawn_contains modul function m = hm_contains (modul, function) (dm_functions m)"

definition execute_spawn :: "string \<Rightarrow> string \<Rightarrow> byte list \<Rightarrow> pid option \<Rightarrow> pid option \<Rightarrow> dist_manager \<Rightarrow>
    (string + pid \<times> ref option) \<times> dist_manager" where
  "execute_spawn modul function args link_to monitor_from m =
    (case hm_get (dm_functions m) (modul, function) of
       None \<Rightarrow> (Inl (''function '' @ modul @ '':'' @ function @ '' not registered for remote spawn''), m)
     | Some f \<Rightarrow>
        (let (p, s) = rt_spawn (dl_rt m);
             m1 = m\<lparr> dl_rt := s, dm_started := dm_started m @ [(p, f, args)] \<rparr>
         in case monitor_from of
              None \<Rightarrow> (Inr (p, None), m1)
            | Some _ \<Rightarrow> (let (r, s') = rt_new_ref (dl_rt m1) in (Inr (p, Some r), m1\<lparr> dl_rt := s' \<rparr>))))"

section \<open>Messages from other nodes\<close>

definition send_to_remote :: "pid option \<Rightarrow> pid \<Rightarrow> byte list \<Rightarrow> dist_manager \<Rightarrow> (dist_error + unit) \<times> dist_manager" where
  "send_to_remote me p payload m =
    (if hm_contains (pid_node p) (dm_nodes m)
     then (Inr (), dl_send (dm_conn m) (pid_node p) (SendMsg p me payload) m)
     else (Inl (NotConnected (pid_node p)), try_reconnect (pid_node p) m))"

definition incoming_monitor :: "node \<Rightarrow> pid \<Rightarrow> pid \<Rightarrow> ref \<Rightarrow> dist_manager \<Rightarrow> dist_manager" where
  "incoming_monitor n watcher target r m =
    (let m1 = dl_monitors (add_incoming_monitor target watcher r n) m in
     if rt_alive target (dl_rt m1) then m1
     else dl_monitors (remove_incoming_monitor target watcher r)
            (dl_send (dm_conn m1) n (ProcessDown r target ''noproc'') m1))"

definition incoming_spawn :: "node \<Rightarrow> 64 word \<Rightarrow> pid \<Rightarrow> string \<Rightarrow> string \<Rightarrow> byte list \<Rightarrow> bool \<Rightarrow> bool \<Rightarrow> dist_manager \<Rightarrow> dist_manager" where
  "incoming_spawn n reference source modul function args lnk mon m =
    (let (result, m1) = execute_spawn modul function args (if lnk then Some source else None) (if mon then Some source else None) m
     in dl_send (dm_conn m1) n
          (case result of
             Inr (p, r) \<Rightarrow> SpawnReply reference (Some p) r None
           | Inl e \<Rightarrow> SpawnReply reference None None (Some e)) m1)"

fun handle_incoming_message :: "dist_codec \<Rightarrow> node \<Rightarrow> dist_message \<Rightarrow> dist_manager \<Rightarrow> dist_manager" where
  "handle_incoming_message C n (SendMsg to _ payload) m =
    (if rt_local (dl_rt m) to then dl_runtime (\<lambda>s. snd (rt_send_raw to (PData payload) s)) m else m)"
| "handle_incoming_message C n (Ping seq) m =
    (if hm_contains n (dm_nodes m) then dl_send (dm_conn m) n (Pong seq) (touch n m) else m)"
| "handle_incoming_message C n (Pong seq) m = complete_ping n seq (touch n m)"
| "handle_incoming_message C n (MonitorNode p) m = m\<lparr> dm_monitors := add_remote_monitor n p (dm_monitors m) \<rparr>"
| "handle_incoming_message C n (DemonitorNode p) m = m\<lparr> dm_monitors := remove_remote_monitor n p (dm_monitors m) \<rparr>"
| "handle_incoming_message C n (NodeGoingDown reason) m = m"
| "handle_incoming_message C n (GlobalRegistryMsg payload) m =
    (case dc_global_dec C payload of
       None \<Rightarrow> m
     | Some msg \<Rightarrow>
        (let (g, out) = global_handle_message (dm_conn m) msg n (dm_global m) in queue_global C out (m\<lparr> dm_global := g \<rparr>)))"
| "handle_incoming_message C n (ProcessGroupsMsg payload) m =
    (case dc_pg_dec C payload of
       None \<Rightarrow> m
     | Some msg \<Rightarrow>
        (let (g, out) = pg_handle_message (dm_this m) (dm_conn m) msg n (dm_pg m) in queue_pg C out (m\<lparr> dm_pg := g \<rparr>)))"
| "handle_incoming_message C n (MonitorProcess watcher target r) m = incoming_monitor n watcher target r m"
| "handle_incoming_message C n (DemonitorProcess watcher target r) m = dl_monitors (remove_incoming_monitor target watcher r) m"
| "handle_incoming_message C n (ProcessDown r p reason) m = handle_process_down r p reason m"
| "handle_incoming_message C n (LinkProcess source target) m = handle_incoming_link (dm_conn m) source target n m"
| "handle_incoming_message C n (UnlinkProcess source target) m = handle_incoming_unlink source target m"
| "handle_incoming_message C n (ExitProcess source target reason) m = handle_incoming_exit source target reason m"
| "handle_incoming_message C n (SpawnMsg reference source modul function args lnk mon) m =
    incoming_spawn n reference source modul function args lnk mon m"
| "handle_incoming_message C n (SpawnReply reference p r err) m = complete_spawn reference (p, r, err) m"
| "handle_incoming_message C n (Hello _ _) m = m"
| "handle_incoming_message C n (Welcome _ _) m = m"

text \<open>One round of the receiver loop of a connection; the flag tells whether it goes on.\<close>

definition receiver_round :: "dist_codec \<Rightarrow> node \<Rightarrow> addr \<Rightarrow> dist_message received \<Rightarrow> dist_manager \<Rightarrow> bool \<times> dist_manager" where
  "receiver_round C n a got m =
    (case hm_get (dm_nodes m) n of
       None \<Rightarrow> (False, receiver_end C n a m)
     | Some cn \<Rightarrow>
        if in_addr (cn_info cn) \<noteq> Some a then (False, m)
        else (case got of
            Received msg \<Rightarrow> (True, handle_incoming_message C n msg m)
          | RecvError _ \<Rightarrow> (False, receiver_end C n a m)
          | Waiting \<Rightarrow> (True, m)))"

text \<open>One round of the sender loop; \<open>ok\<close> tells whether the connection takes the message.\<close>

definition sender_round :: "dist_codec \<Rightarrow> node \<Rightarrow> addr \<Rightarrow> bool \<Rightarrow> dist_manager \<Rightarrow> bool \<times> dist_manager" where
  "sender_round C n a ok m =
    (case hm_get (dm_nodes m) n of
       None \<Rightarrow> (False, sender_end C n a m)
     | Some cn \<Rightarrow>
        if in_addr (cn_info cn) \<noteq> Some a then (False, m)
        else if ok then (True, m)
        else (False, sender_end C n a m))"

section \<open>Calls of \<open>node.rs\<close>\<close>

datatype list_option = LoConnected | LoKnown | LoThis | LoVisible | LoHidden

definition node_list :: "list_option \<Rightarrow> dist_manager \<Rightarrow> node list" where
  "node_list opt m =
    (case opt of
       LoVisible \<Rightarrow> connected_nodes m @ [node_name_atom (dm_this m)]
     | LoHidden \<Rightarrow> []
     | _ \<Rightarrow> connected_nodes m)"

definition node_stop :: "dist_codec \<Rightarrow> dist_manager \<Rightarrow> dist_manager" where
  "node_stop C m = fold (\<lambda>n m. snd (disconnect_from C n m)) (connected_nodes m) m"

end
