(* ===== verification/Dist_Props.thy ===== *)
theory Dist_Props
  imports Manager
begin

text \<open>
  What the distribution manager promises: the tables of nodes agree in every run, a heartbeat drops
  exactly the silent nodes, and a monitor set on a process of another node reports its exit.  The lemmas
  before them say which operations touch which part of the manager's record.
\<close>

section \<open>What leaves the tables alone\<close>

definition dm_tables :: "dist_manager \<Rightarrow>
    (node, connected_node) hmap \<times> (addr, node) hmap \<times> (node, addr) hmap \<times> (node, node_type) hmap \<times> nat" where
  "dm_tables m = (dm_nodes m, dm_addr_to_node m, dm_known m, dm_types m, dm_clock m)"

lemma dl_more [simp]:
  "dist_local.more (dl_monitors f w) = dist_local.more w" "dist_local.more (dl_runtime g w) = dist_local.more w"
  "dist_local.more (dl_send conn n msg w) = dist_local.more w"
  by (simp_all add: dl_monitors_def dl_runtime_def dl_send_def)

lemma dl_more_fold: "(\<And>x w. dist_local.more (f x w) = dist_local.more w) \<Longrightarrow> dist_local.more (fold f xs w) = dist_local.more w"
  by (induction xs arbitrary: w) auto

lemma dl_more_ops [simp]:
  "dist_local.more (handle_process_down r p reason w) = dist_local.more w"
  "dist_local.more (handle_incoming_link conn p q n w) = dist_local.more w"
  "dist_local.more (handle_incoming_unlink p q w) = dist_local.more w"
  "dist_local.more (handle_incoming_exit p q reason w) = dist_local.more w"
  by (simp_all add: handle_process_down_def handle_incoming_link_def handle_incoming_unlink_def handle_incoming_exit_def
      Let_def split: option.split)

lemma dl_more_node_down [simp]: "dist_local.more (pm_node_down n w) = dist_local.more w"
proof -
  have out: "dist_local.more (node_down_outgoing x w) = dist_local.more w"
    and inc: "dist_local.more (node_down_incoming y w) = dist_local.more w"
    and link: "dist_local.more (node_down_link z w) = dist_local.more w" for x y z and w :: "'a dist_local_scheme"
    by (simp_all add: node_down_outgoing_def node_down_incoming_def node_down_link_def Let_def split_def split: option.split)
  show ?thesis
    by (simp add: pm_node_down_def dl_more_fold [of node_down_outgoing, OF out] dl_more_fold [of node_down_incoming, OF inc]
        dl_more_fold [of node_down_link, OF link] split: option.split)
qed

lemma dm_tables_more: "dist_local.more m' = dist_local.more m \<Longrightarrow> dm_tables m' = dm_tables m"
  by (cases m; cases m') (simp add: dm_tables_def)

lemma dm_tables_dl [simp]:
  "dm_tables (dl_monitors f m) = dm_tables m" "dm_tables (dl_runtime g m) = dm_tables m"
  "dm_tables (dl_send conn n msg m) = dm_tables m" "dm_tables (pm_node_down n m) = dm_tables m"
  "dm_tables (handle_process_down r p reason m) = dm_tables m" "dm_tables (handle_incoming_link conn p q n m) = dm_tables m"
  "dm_tables (handle_incoming_unlink p q m) = dm_tables m" "dm_tables (handle_incoming_exit p q reason m) = dm_tables m"
  by (rule dm_tables_more, simp)+

lemma dm_tables_parts [simp]:
  "dm_tables (queue_pg C out m) = dm_tables m" "dm_tables (queue_global C gout m) = dm_tables m"
  "dm_tables (request_syncs C n m) = dm_tables m" "dm_tables (pg_forget_node n m) = dm_tables m"
  "dm_tables (close_connection c reason m) = dm_tables m" "dm_tables (node_lost C n reason m) = dm_tables m"
  "dm_tables (complete_ping n seq m) = dm_tables m" "dm_tables (complete_spawn r reply m) = dm_tables m"
  "dm_tables (incoming_monitor n p q r m) = dm_tables m"
proof -
  show queue: "dm_tables (queue_pg C out m) = dm_tables m" "dm_tables (queue_global C gout m) = dm_tables m" for out gout m
    by (simp_all add: queue_pg_def queue_global_def dm_tables_def)
  show "dm_tables (request_syncs C n m) = dm_tables m" by (simp add: request_syncs_def queue Let_def)
  show forget: "dm_tables (pg_forget_node n m) = dm_tables m" for m by (simp add: pg_forget_node_def dm_tables_def)
  have "dm_tables (m\<lparr> dm_monitors := nm, dl_rt := s \<rparr>) = dm_tables m" for nm s by (simp add: dm_tables_def)
  then show "dm_tables (node_lost C n reason m) = dm_tables m"
    by (simp add: node_lost_def Let_def split_def forget)
  show "dm_tables (incoming_monitor n p q r m) = dm_tables m" by (simp add: incoming_monitor_def Let_def)
qed (simp_all add: close_connection_def complete_ping_def complete_spawn_def dm_tables_def)

lemma incoming_spawn_tables [simp]: "dm_tables (incoming_spawn n reference p modul function args lnk mon m) = dm_tables m"
  by (auto simp: incoming_spawn_def execute_spawn_def Let_def split_def dm_tables_def split: option.split)
    (simp_all add: dl_send_def)

lemma dm_tables_updates [simp]:
  "dm_tables (m\<lparr> dm_global := g \<rparr>) = dm_tables m" "dm_tables (m\<lparr> dm_pg := p \<rparr>) = dm_tables m"
  "dm_tables (m\<lparr> dm_monitors := nm \<rparr>) = dm_tables m" "dm_tables (m\<lparr> dm_heartbeat_seq := q \<rparr>) = dm_tables m"
  by (simp_all add: dm_tables_def)

lemma incoming_tables:
  "dm_tables (handle_incoming_message C n msg m) = dm_tables m \<or>
   dm_tables (handle_incoming_message C n msg m) = dm_tables (touch n m)"
  by (cases msg) (auto simp: split_def Let_def split: option.split)

section \<open>The tables agree\<close>

definition tables_ok where
  "tables_ok = (\<lambda>(nodes, addrs, known, types, clock).
    hm_ok nodes \<and>
    (\<forall>n cn. hm_get nodes n = Some cn \<longrightarrow> hm_get types n = Some Native \<and> in_name (cn_info cn) = n \<and>
       in_addr (cn_info cn) \<noteq> None \<and> hm_get known n = in_addr (cn_info cn)))"

definition dm_ok :: "dist_manager \<Rightarrow> bool" where
  "dm_ok m \<longleftrightarrow> tables_ok (dm_tables m)"

lemma dm_ok_iff: "dm_ok m \<longleftrightarrow> hm_ok (dm_nodes m) \<and>
    (\<forall>n cn. hm_get (dm_nodes m) n = Some cn \<longrightarrow> hm_get (dm_types m) n = Some Native \<and> in_name (cn_info cn) = n \<and>
       in_addr (cn_info cn) \<noteq> None \<and> hm_get (dm_known m) n = in_addr (cn_info cn))"
  by (simp add: dm_ok_def tables_ok_def dm_tables_def)

lemma dm_okD:
  assumes "dm_ok m"
  shows "hm_ok (dm_nodes m)"
    and "hm_get (dm_nodes m) n = Some cn \<Longrightarrow> hm_get (dm_types m) n = Some Native"
    and "hm_get (dm_nodes m) n = Some cn \<Longrightarrow> in_name (cn_info cn) = n"
    and "hm_get (dm_nodes m) n = Some cn \<Longrightarrow> in_addr (cn_info cn) \<noteq> None"
    and "hm_get (dm_nodes m) n = Some cn \<Longrightarrow> hm_get (dm_known m) n = in_addr (cn_info cn)"
  using assms unfolding dm_ok_iff by blast+

lemma dm_ok_touch [simp]: "dm_ok m \<Longrightarrow> dm_ok (touch n m)"
  by (auto simp: dm_ok_iff touch_def hm_get_get_mut split: if_splits)

lemma dm_ok_incoming: "dm_ok m \<Longrightarrow> dm_ok (handle_incoming_message C n msg m)"
  using incoming_tables [of C n msg m] dm_ok_touch [of m n] by (auto simp: dm_ok_def)

text \<open>Taking a node out of the tables, as every loss does.\<close>

definition dm_without :: "node \<Rightarrow> connected_node \<Rightarrow> dist_manager \<Rightarrow> dist_manager" where
  "dm_without n cn m = drop_addr cn (m\<lparr> dm_types := hm_remove n (dm_types m), dm_nodes := hm_remove n (dm_nodes m) \<rparr>)"

lemma dm_ok_without: "dm_ok m \<Longrightarrow> dm_ok (dm_without n cn m)"
  by (auto simp: dm_ok_iff dm_without_def drop_addr_def split: option.split)

lemma drop_addr_fields [simp]:
  "dm_nodes (drop_addr cn m) = dm_nodes m" "dm_types (drop_addr cn m) = dm_types m" "dm_known (drop_addr cn m) = dm_known m"
  "dm_clock (drop_addr cn m) = dm_clock m"
  by (simp_all add: drop_addr_def split: option.split)

lemma lost_tables:
  "dm_tables (drop_addr cn (close_connection c reason (m\<lparr> dm_types := t, dm_nodes := ns \<rparr>))) =
   dm_tables (drop_addr cn (m\<lparr> dm_types := t, dm_nodes := ns \<rparr>))"
  by (simp add: drop_addr_def close_connection_def dm_tables_def split: option.split)

lemma disconnect_tables:
  "dm_tables (snd (disconnect_from C n m)) =
    (case hm_get (dm_nodes m) n of
       None \<Rightarrow> dm_tables (m\<lparr> dm_types := hm_remove n (dm_types m) \<rparr>)
     | Some cn \<Rightarrow> dm_tables (dm_without n cn m))"
  by (simp add: disconnect_from_def dm_without_def lost_tables Let_def split: option.split)

lemma receiver_end_tables:
  "dm_tables (receiver_end C n a m) =
    (case hm_get (dm_nodes m) n of
       None \<Rightarrow> dm_tables m
     | Some cn \<Rightarrow> if in_addr (cn_info cn) = Some a then dm_tables (dm_without n cn m) else dm_tables m)"
  by (simp add: receiver_end_def dm_without_def split: option.split)

lemma heartbeat_node_tables:
  "dm_tables (heartbeat_node C (n, lost) m) =
    (case hm_get (dm_nodes m) n of
       None \<Rightarrow> if lost then dm_tables (m\<lparr> dm_types := hm_remove n (dm_types m) \<rparr>) else dm_tables m
     | Some cn \<Rightarrow> if lost then dm_tables (dm_without n cn m) else dm_tables m)"
  by (simp add: heartbeat_node_def dm_without_def lost_tables Let_def split: option.split)

lemma dm_ok_types: "dm_ok m \<Longrightarrow> hm_get (dm_nodes m) n = None \<Longrightarrow> dm_ok (m\<lparr> dm_types := hm_remove n (dm_types m) \<rparr>)"
  by (auto simp: dm_ok_iff)

lemma dm_ok_disconnect: "dm_ok m \<Longrightarrow> dm_ok (snd (disconnect_from C n m))"
  using disconnect_tables [of C n m] dm_ok_types [of m n] dm_ok_without [of m n]
  by (cases "hm_get (dm_nodes m) n") (simp_all add: dm_ok_def)

lemma dm_ok_receiver_end: "dm_ok m \<Longrightarrow> dm_ok (receiver_end C n a m)"
  using receiver_end_tables [of C n a m] dm_ok_without [of m n]
  by (cases "hm_get (dm_nodes m) n") (auto simp: dm_ok_def split: if_splits)

lemma dm_ok_heartbeat_node: "dm_ok m \<Longrightarrow> dm_ok (heartbeat_node C nl m)"
proof -
  assume ok: "dm_ok m"
  obtain n lost where nl: "nl = (n, lost)" by (cases nl)
  show ?thesis
    using heartbeat_node_tables [of C n lost m] dm_ok_types [OF ok, of n] dm_ok_without [OF ok, of n] ok
    by (cases "hm_get (dm_nodes m) n") (auto simp: nl dm_ok_def split: if_splits)
qed

lemma dm_ok_heartbeat: "dm_ok m \<Longrightarrow> dm_ok (heartbeat C m)"
  unfolding heartbeat_def by (rule fold_invariant_on) (simp_all add: dm_ok_heartbeat_node)

lemma dm_ok_register:
  "dm_ok m \<Longrightarrow> dm_ok (register_node n \<lparr> in_name = n, in_addr = Some a, in_creation = c \<rparr> a conn m)"
  by (auto simp: dm_ok_iff register_node_def split: if_splits)

lemma dm_ok_connect: "dm_ok m \<Longrightarrow> dm_ok (snd (connect_finish C a c welcome m))"
  using dm_ok_register [of m]
  by (auto simp: connect_finish_def perform_handshake_def dm_ok_def split: dist_message.split)

lemma dm_ok_accept_hello: "dm_ok m \<Longrightarrow> dm_ok (snd (accept_hello hello m))"
proof (cases hello)
  case (Hello name creation)
  assume ok: "dm_ok m"
  have "dm_ok (drop_addr old (close_connection c reason (m\<lparr> dm_nodes := hm_remove name (dm_nodes m) \<rparr>)))" for old c reason
    using ok by (auto simp: dm_ok_iff close_connection_def)
  then show ?thesis using ok by (auto simp: Hello accept_hello_def dm_ok_def split: option.split)
qed (simp_all add: accept_hello_def)

lemma dm_ok_accept_finish: "dm_ok m \<Longrightarrow> dm_ok (accept_finish C a c name creation m)"
  using dm_ok_register [of m] by (simp add: accept_finish_def dm_ok_def)

section \<open>Runs\<close>

inductive dm_step :: "dist_codec \<Rightarrow> dist_manager \<Rightarrow> dist_manager \<Rightarrow> bool" for C where
  activity: "dm_nodes m' = dm_nodes m \<Longrightarrow> dm_addr_to_node m' = dm_addr_to_node m \<Longrightarrow> dm_known m' = dm_known m \<Longrightarrow>
    dm_types m' = dm_types m \<Longrightarrow> dm_step C m m'"
| connect: "dm_step C m (snd (connect_finish C a c welcome m))"
| hello: "dm_step C m (snd (accept_hello greeting m))"
| accept: "dm_step C m (accept_finish C a c n creation m)"
| disconnect: "dm_step C m (snd (disconnect_from C n m))"
| receiver: "dm_step C m (snd (receiver_round C n a got m))"
| sender: "dm_step C m (snd (sender_round C n a ok m))"
| heartbeat: "dm_step C m (heartbeat C m)"

lemma dm_step_ok: "dm_step C m m' \<Longrightarrow> dm_ok m \<Longrightarrow> dm_ok m'"
proof (induction rule: dm_step.induct)
  case (activity m' m)
  then show ?case by (simp add: dm_ok_iff)
next
  case (receiver m n a got)
  then show ?case
    by (auto simp: receiver_round_def dm_ok_receiver_end dm_ok_incoming split: option.split received.split)
next
  case (sender m n a ok)
  then show ?case by (auto simp: sender_round_def sender_end_def dm_ok_receiver_end split: option.split)
qed (simp_all add: dm_ok_connect dm_ok_accept_hello dm_ok_accept_finish dm_ok_disconnect dm_ok_heartbeat)

lemma dm_steps_ok: "(dm_step C)\<^sup>*\<^sup>* m m' \<Longrightarrow> dm_ok m \<Longrightarrow> dm_ok m'"
  by (induction rule: rtranclp_induct) (auto intro: dm_step_ok)

section \<open>One heartbeat\<close>

lemma node_lost_out [simp]: "dl_out (node_lost C n reason m) = dl_out m"
proof -
  have out: "dl_out (node_down_outgoing x w) = dl_out w" and inc: "dl_out (node_down_incoming y w) = dl_out w"
    and link: "dl_out (node_down_link z w) = dl_out w" for x y z and w :: dist_manager
    by (simp_all add: node_down_outgoing_def node_down_incoming_def node_down_link_def Let_def split_def split: option.split)
  have fold: "dl_out (fold f xs w) = dl_out w" if "\<And>x w. dl_out (f x w) = dl_out w"
    for f :: "'x \<Rightarrow> dist_manager \<Rightarrow> dist_manager" and xs w
    using that by (induction xs arbitrary: w) simp_all
  have "dl_out (pm_node_down n w) = dl_out w" for w :: dist_manager
    by (simp add: pm_node_down_def fold [of node_down_outgoing, OF out] fold [of node_down_incoming, OF inc]
        fold [of node_down_link, OF link] split: option.split)
  then show ?thesis by (simp add: node_lost_def pg_forget_node_def Let_def split_def)
qed

lemma node_lost_closed [simp]: "dm_closed (node_lost C n reason m) = dm_closed m"
proof -
  have more: "dm_closed w' = dm_closed w" if "dist_local.more w' = dist_local.more w" for w w' :: dist_manager
    using that by (cases w; cases w') simp
  have "dm_closed (pm_node_down n w) = dm_closed w" for w :: dist_manager by (rule more) simp
  then show ?thesis by (simp add: node_lost_def pg_forget_node_def Let_def split_def)
qed

lemma dm_tables_fields:
  assumes "dm_tables m' = dm_tables m"
  shows "dm_nodes m' = dm_nodes m" "dm_types m' = dm_types m" "dm_addr_to_node m' = dm_addr_to_node m"
    "dm_known m' = dm_known m" "dm_clock m' = dm_clock m"
  using assms by (simp_all add: dm_tables_def)

lemma heartbeat_node_effect:
  "hm_get (dm_nodes (heartbeat_node C (n, lost) m)) j = (if lost \<and> j = n then None else hm_get (dm_nodes m) j)"
  "hm_get (dm_types (heartbeat_node C (n, lost) m)) j = (if lost \<and> j = n then None else hm_get (dm_types m) j)"
  "dl_out (heartbeat_node C (n, lost) m) =
    dl_out m @ (if \<not> lost \<and> hm_get (dm_nodes m) n \<noteq> None then [(n, Ping (dm_heartbeat_seq m))] else [])"
  "dm_closed (heartbeat_node C (n, lost) m) =
    dm_closed m @ (case hm_get (dm_nodes m) n of Some cn \<Rightarrow> if lost then [(cn_connection cn, ''heartbeat timeout'')] else [] | None \<Rightarrow> [])"
proof -
  show "hm_get (dm_nodes (heartbeat_node C (n, lost) m)) j = (if lost \<and> j = n then None else hm_get (dm_nodes m) j)"
    "hm_get (dm_types (heartbeat_node C (n, lost) m)) j = (if lost \<and> j = n then None else hm_get (dm_types m) j)"
    using heartbeat_node_tables [of C n lost m]
    by (auto simp: dm_without_def dm_tables_def drop_addr_def split: option.splits if_splits)
  have drop: "dl_out (drop_addr cn m) = dl_out m" "dm_closed (drop_addr cn m) = dm_closed m" for cn m
    by (simp_all add: drop_addr_def split: option.split)
  have conn: "n \<in> set (dm_conn m) \<longleftrightarrow> hm_get (dm_nodes m) n \<noteq> None"
    by (auto simp: dm_conn_def set_hm_keys)
  show "dl_out (heartbeat_node C (n, lost) m) =
      dl_out m @ (if \<not> lost \<and> hm_get (dm_nodes m) n \<noteq> None then [(n, Ping (dm_heartbeat_seq m))] else [])"
    using conn by (simp add: heartbeat_node_def drop close_connection_def Let_def split: option.split)
  show "dm_closed (heartbeat_node C (n, lost) m) =
      dm_closed m @ (case hm_get (dm_nodes m) n of Some cn \<Rightarrow> if lost then [(cn_connection cn, ''heartbeat timeout'')] else [] | None \<Rightarrow> [])"
    by (simp add: heartbeat_node_def drop close_connection_def Let_def dl_send_def split: option.split)
qed

lemma heartbeat_fold_tables:
  "hm_get (dm_nodes (fold (heartbeat_node C) xs m)) j = (if (j, True) \<in> set xs then None else hm_get (dm_nodes m) j)"
  "hm_get (dm_types (fold (heartbeat_node C) xs m)) j = (if (j, True) \<in> set xs then None else hm_get (dm_types m) j)"
proof -
  show "hm_get (dm_nodes (fold (heartbeat_node C) xs m)) j = (if (j, True) \<in> set xs then None else hm_get (dm_nodes m) j)"
    by (induction xs arbitrary: m) (auto simp: heartbeat_node_effect split: if_splits)
  show "hm_get (dm_types (fold (heartbeat_node C) xs m)) j = (if (j, True) \<in> set xs then None else hm_get (dm_types m) j)"
    by (induction xs arbitrary: m) (auto simp: heartbeat_node_effect split: if_splits)
qed

lemma heartbeat_fold_pings:
  assumes "distinct (map fst xs)"
  shows "\<exists>sent. dl_out (fold (heartbeat_node C) xs m) = dl_out m @ sent \<and>
      (\<forall>n. (n, False) \<in> set xs \<and> hm_get (dm_nodes m) n \<noteq> None \<longrightarrow> (\<exists>seq. (n, Ping seq) \<in> set sent))"
  using assms
proof (induction xs arbitrary: m)
  case (Cons x xs)
  obtain k lost where x: "x = (k, lost)" by (cases x)
  let ?m = "heartbeat_node C x m"
  obtain sent where sent: "dl_out (fold (heartbeat_node C) xs ?m) = dl_out ?m @ sent"
    "\<forall>n. (n, False) \<in> set xs \<and> hm_get (dm_nodes ?m) n \<noteq> None \<longrightarrow> (\<exists>seq. (n, Ping seq) \<in> set sent)"
    using Cons.IH [of ?m] Cons.prems by auto
  have other: "n \<noteq> k" if "(n, False) \<in> set xs" for n using Cons.prems that x by force
  show ?case
    using sent(1) sent(2) other
    by (intro exI [of _ "(if \<not> lost \<and> hm_get (dm_nodes m) k \<noteq> None then [(k, Ping (dm_heartbeat_seq m))] else []) @ sent"])
      (auto simp: x heartbeat_node_effect)
qed simp

lemma heartbeat_fold_closed:
  "set (dm_closed m) \<subseteq> set (dm_closed (fold (heartbeat_node C) xs m))"
proof (induction xs arbitrary: m)
  case (Cons x xs)
  have "set (dm_closed m) \<subseteq> set (dm_closed (heartbeat_node C x m))" by (cases x) (simp add: heartbeat_node_effect)
  then show ?case using Cons.IH [of "heartbeat_node C x m"] by auto
qed simp

lemma heartbeat_fold_closes:
  assumes "distinct (map fst xs)" "(n, True) \<in> set xs" "hm_get (dm_nodes m) n = Some cn"
  shows "(cn_connection cn, ''heartbeat timeout'') \<in> set (dm_closed (fold (heartbeat_node C) xs m))"
  using assms
proof (induction xs arbitrary: m)
  case (Cons x xs)
  show ?case
  proof (cases "x = (n, True)")
    case True
    then have "(cn_connection cn, ''heartbeat timeout'') \<in> set (dm_closed (heartbeat_node C x m))"
      using Cons.prems(3) by (simp add: heartbeat_node_effect)
    then show ?thesis using heartbeat_fold_closed [of "heartbeat_node C x m" C xs] by auto
  next
    case False
    then have later: "(n, True) \<in> set xs" using Cons.prems(2) by simp
    then have "n \<in> set (map fst xs)" by force
    then have "fst x \<noteq> n" using Cons.prems(1) by auto
    then show ?thesis using Cons.IH [of "heartbeat_node C x m"] Cons.prems(1,3) later by (cases x) (simp add: heartbeat_node_effect)
  qed
qed simp

section \<open>Properties\<close>

lemma dm_ok_start: "dm_nodes m = [] \<Longrightarrow> dm_ok m"
  by (simp add: dm_ok_iff)

text \<open>C18. What the tables say of a connected node.  In every run from a manager without connections, a connected
  node is listed and typed as native, is known under the address of its present connection, so that a
  reconnection dials that address, and its description carries its name and that address.  When a loop of a
  connection ends, the node is taken out exactly if the address of its present connection is the one of the
  loop, and no other node is.  The loop tells connections apart by that address only: a later connection
  from the same address is taken out too.\<close>

theorem node_tables_agree:
  assumes "(dm_step C)\<^sup>*\<^sup>* m0 m" "dm_nodes m0 = []"
  shows "\<forall>n cn. hm_get (dm_nodes m) n = Some cn \<longrightarrow>
    n \<in> set (connected_nodes m) \<and> dm_node_type n m = Some Native \<and>
    (\<exists>a c. get_node_info n m = Some \<lparr> in_name = n, in_addr = Some a, in_creation = c \<rparr> \<and> hm_get (dm_known m) n = Some a \<and>
      (\<forall>b. hm_get (dm_nodes (receiver_end C n b m)) n = (if b = a then None else Some cn) \<and>
           hm_get (dm_nodes (sender_end C n b m)) n = (if b = a then None else Some cn) \<and>
           (\<forall>k. k \<noteq> n \<longrightarrow> hm_get (dm_nodes (receiver_end C n b m)) k = hm_get (dm_nodes m) k)))"
proof (intro allI impI)
  fix n cn assume cn: "hm_get (dm_nodes m) n = Some cn"
  have ok: "dm_ok m" by (rule dm_steps_ok [OF assms(1) dm_ok_start [OF assms(2)]])
  obtain a where a: "in_addr (cn_info cn) = Some a" using dm_okD(4) [OF ok cn] by auto
  have info: "cn_info cn = \<lparr> in_name = n, in_addr = Some a, in_creation = in_creation (cn_info cn) \<rparr>"
    using dm_okD(3) [OF ok cn] a by (cases "cn_info cn") simp
  have after: "hm_get (dm_nodes (receiver_end C n b m)) k = (if b = a \<and> k = n then None else hm_get (dm_nodes m) k)" for b k
  proof (cases "b = a")
    case True
    then have "dm_tables (receiver_end C n b m) = dm_tables (dm_without n cn m)" using receiver_end_tables [of C n b m] cn a by simp
    from dm_tables_fields(1) [OF this] True show ?thesis by (simp add: dm_without_def)
  next
    case False
    then show ?thesis using cn a by (simp add: receiver_end_def)
  qed
  have type: "hm_get (dm_types m) n = Some Native" by (rule dm_okD(2) [OF ok cn])
  then have listed: "n \<in> set (connected_nodes m)" by (auto simp: connected_nodes_def set_hm_keys)
  have known: "hm_get (dm_known m) n = Some a" using dm_okD(5) [OF ok cn] a by simp
  have got: "get_node_info n m = Some \<lparr> in_name = n, in_addr = Some a, in_creation = in_creation (cn_info cn) \<rparr>"
    using cn info by (simp add: get_node_info_def)
  show "n \<in> set (connected_nodes m) \<and> dm_node_type n m = Some Native \<and>
    (\<exists>a c. get_node_info n m = Some \<lparr> in_name = n, in_addr = Some a, in_creation = c \<rparr> \<and> hm_get (dm_known m) n = Some a \<and>
      (\<forall>b. hm_get (dm_nodes (receiver_end C n b m)) n = (if b = a then None else Some cn) \<and>
           hm_get (dm_nodes (sender_end C n b m)) n = (if b = a then None else Some cn) \<and>
           (\<forall>k. k \<noteq> n \<longrightarrow> hm_get (dm_nodes (receiver_end C n b m)) k = hm_get (dm_nodes m) k)))"
    using listed type got known cn unfolding dm_node_type_def sender_end_def by (simp add: after)
qed

text \<open>C25. A heartbeat drops exactly the silent nodes.  In every reachable state a heartbeat takes out each
  node that has not been heard of for more than six seconds, closes its connection and no longer
  reports it, and sends every other connected node a ping and keeps it as it is.\<close>

theorem heartbeat_drops_silent:
  assumes "(dm_step C)\<^sup>*\<^sup>* m0 m" "dm_nodes m0 = []" "hm_get (dm_nodes m) n = Some cn"
  shows "if dm_clock m - cn_last_seen cn > 6000
    then hm_get (dm_nodes (heartbeat C m)) n = None \<and> n \<notin> set (connected_nodes (heartbeat C m)) \<and>
      (cn_connection cn, ''heartbeat timeout'') \<in> set (dm_closed (heartbeat C m))
    else hm_get (dm_nodes (heartbeat C m)) n = Some cn \<and> n \<in> set (connected_nodes (heartbeat C m)) \<and>
      (\<exists>seq. (n, Ping seq) \<in> set (drop (length (dl_out m)) (dl_out (heartbeat C m))))"
proof -
  have ok: "dm_ok m" by (rule dm_steps_ok [OF assms(1) dm_ok_start [OF assms(2)]])
  let ?xs = "map (\<lambda>(n, cn). (n, is_timed_out (dm_clock m) cn)) (dm_nodes m)"
  have dist: "distinct (map fst ?xs)" using dm_okD(1) [OF ok] by (simp add: hm_ok_def comp_def split_def)
  have mem: "(n, lost) \<in> set ?xs \<longleftrightarrow> lost = is_timed_out (dm_clock m) cn" for lost
  proof -
    have "(n, lost) \<in> set ?xs \<longleftrightarrow> (\<exists>c. (n, c) \<in> set (dm_nodes m) \<and> lost = is_timed_out (dm_clock m) c)" by force
    then show ?thesis using assms(3) dm_okD(1) [OF ok] by (simp add: hm_in_set)
  qed
  have type: "hm_get (dm_types m) n = Some Native" by (rule dm_okD(2) [OF ok assms(3)])
  obtain sent where sent: "dl_out (heartbeat C m) = dl_out m @ sent"
    "\<And>k. (k, False) \<in> set ?xs \<Longrightarrow> hm_get (dm_nodes m) k \<noteq> None \<Longrightarrow> \<exists>seq. (k, Ping seq) \<in> set sent"
    using heartbeat_fold_pings [OF dist, of C m] unfolding heartbeat_def by blast
  show ?thesis
  proof (cases "is_timed_out (dm_clock m) cn")
    case True
    then show ?thesis
      using heartbeat_fold_tables [of C ?xs m n] heartbeat_fold_closes [OF dist _ assms(3), of C] mem [of True]
      by (simp add: heartbeat_def is_timed_out_def heartbeat_timeout_def connected_nodes_def set_hm_keys domIff)
  next
    case False
    then show ?thesis
      using heartbeat_fold_tables [of C ?xs m n] mem [of True] mem [of False] sent(1) sent(2) [of n] assms(3) type
      by (auto simp: heartbeat_def is_timed_out_def heartbeat_timeout_def connected_nodes_def set_hm_keys domIff)
  qed
qed

text \<open>Two nodes that connect to each other at the same time block a later reconnection.  When a greeting
  from a node is answered while this node is dialling it, both connections are registered and the
  address dialled stays taken after the node is lost: connecting to it is refused for a node that is
  not connected, while the address remembered for reconnecting is the one the greeting came from.\<close>

lemma simultaneous_connect_blocks:
  assumes "hm_get (dm_nodes m) n = None" "a1 \<noteq> a2"
    and "m1 = snd (accept_hello (Hello n cr) m)" "connect_finish C a1 c1 (Welcome n cr) m1 = (res, m2)"
    and "m3 = accept_finish C a2 c2 n cr m2" "m4 = receiver_end C n a2 m3"
  shows "res = Inr n \<and> get_node_info n m3 = Some \<lparr> in_name = n, in_addr = Some a2, in_creation = cr \<rparr> \<and>
    hm_get (dm_nodes m4) n = None \<and> n \<notin> set (connected_nodes m4) \<and>
    fst (connect_to C dial a1 m4) = Inl (AlreadyConnected n) \<and> hm_get (dm_known m4) n = Some a2"
proof -
  let ?info = "\<lambda>a. \<lparr> in_name = n, in_addr = Some a, in_creation = cr \<rparr>"
  have m1: "m1 = m" using assms(1,3) by (simp add: accept_hello_def)
  have m2: "res = Inr n" "m2 = request_syncs C n (register_node n (?info a1) a1 c1 m)"
    using assms(1,4) m1 by (auto simp: connect_finish_def perform_handshake_def hm_contains_def)
  have t2: "dm_tables m2 = dm_tables (register_node n (?info a1) a1 c1 m)" by (simp add: m2)
  have t3: "dm_tables m3 = dm_tables (register_node n (?info a2) a2 c2 m2)" by (simp add: assms(5) accept_finish_def)
  have n3: "hm_get (dm_nodes m3) n = Some \<lparr> cn_info = ?info a2, cn_connection = c2, cn_last_seen = dm_clock m2 \<rparr>"
    using dm_tables_fields(1) [OF t3] by (simp add: register_node_def)
  have a3: "hm_get (dm_addr_to_node m3) a1 = Some n" "hm_get (dm_known m3) n = Some a2"
    using dm_tables_fields(3,4) [OF t3] dm_tables_fields(3) [OF t2] assms(2) by (simp_all add: register_node_def)
  have t4: "dm_tables m4 = dm_tables (dm_without n \<lparr> cn_info = ?info a2, cn_connection = c2, cn_last_seen = dm_clock m2 \<rparr> m3)"
    using receiver_end_tables [of C n a2 m3] n3 by (simp add: assms(6))
  have "hm_get (dm_nodes m4) n = None" "hm_get (dm_types m4) n = None" "hm_get (dm_addr_to_node m4) a1 = Some n"
    "hm_get (dm_known m4) n = Some a2"
    using dm_tables_fields [OF t4] a3 assms(2) by (simp_all add: dm_without_def drop_addr_def)
  then show ?thesis
    using m2(1) n3 by (simp add: get_node_info_def connect_to_def connect_check_def connected_nodes_def set_hm_keys domIff)
qed

section \<open>A monitor on a process of another node\<close>

lemma rt_distributed_update [simp]: "rt_distributed (rt_update p f s) = rt_distributed s"
  by (simp add: rt_update_def)

lemma rt_distributed_exit:
  "rt_distributed (notify_link p reason l s) = rt_distributed s" "rt_distributed (notify_monitor p reason x s) = rt_distributed s"
  "rt_reported_down (notify_link p reason l s) = rt_reported_down s" "rt_reported_down (notify_monitor p reason x s) = rt_reported_down s"
  by (auto simp: notify_link_def notify_monitor_def rt_handle_send_eq Let_def split: option.split prod.split)

lemma rt_distributed_folds:
  "rt_distributed (fold (notify_link p reason) ls s) = rt_distributed s"
  "rt_distributed (fold (notify_monitor p reason) xs s) = rt_distributed s"
  "rt_reported_down (fold (notify_link p reason) ls s) = rt_reported_down s"
  "rt_reported_down (fold (notify_monitor p reason) xs s) = rt_reported_down s"
proof -
  show "rt_distributed (fold (notify_link p reason) ls s) = rt_distributed s"
    "rt_reported_down (fold (notify_link p reason) ls s) = rt_reported_down s"
    by (induction ls arbitrary: s) (simp_all add: rt_distributed_exit)
  show "rt_distributed (fold (notify_monitor p reason) xs s) = rt_distributed s"
    "rt_reported_down (fold (notify_monitor p reason) xs s) = rt_reported_down s"
    by (induction xs arbitrary: s) (simp_all add: rt_distributed_exit)
qed

lemma rt_task_end_reports:
  assumes "rt_get s p = Some q" "\<not> pr_terminated q" "rt_distributed s"
  shows "rt_reported_down (rt_task_end p (Some reason) s) = rt_reported_down s @ [(p, reason)]"
  using assms
  by (simp add: rt_task_end_def handle_process_exit_def rt_unregister_def Let_def rt_distributed_folds)

lemma notify_local_process_down_sends:
  assumes "(watcher, r) \<in> set (hm_at (pm_incoming (dl_pm w)) p)" "pid_node watcher \<in> set conn"
  shows "(pid_node watcher, ProcessDown r p (exit_display reason)) \<in> set (dl_out (notify_local_process_down conn p reason w))"
proof -
  obtain ws where ws: "hm_get (pm_incoming (dl_pm w)) p = Some ws" "(watcher, r) \<in> set ws"
    using assms(1) by (cases "hm_get (pm_incoming (dl_pm w)) p") (simp_all add: hm_at_def)
  have "set (dl_out w') \<subseteq> set (dl_out (exit_links conn p reason w'))" for w' :: "'a dist_local_scheme"
    by (simp add: exit_links_def split: option.split)
  then show ?thesis using ws assms(2) by (fastforce simp: notify_local_process_down_def Let_def)
qed

text \<open>C19. A monitor on a process of another node reports its exit.  When a process monitors one of another
  node and that node has handled the request while the process was alive, the end of the process sends
  one message back, and handling it puts exactly one message into the watcher's mailbox: the
  monitor's \<open>Down\<close>, whose reason is an error with the text of the actual reason.  Different reasons give
  different texts, but a normal exit does not arrive as \<open>Normal\<close>.\<close>

theorem remote_monitor_reports:
  fixes A B :: dist_manager
  assumes "monitor_process True (dm_conn A) me t A = (Inr r, A1)"
    and "rt_local (dl_rt A) me" "rt_get (dl_rt A) me = Some q" "\<not> pr_closed q"
    and "rt_get (dl_rt B) t = Some p" "\<not> pr_terminated p" "rt_distributed (dl_rt B)" "pid_node me \<in> set (dm_conn B)"
    and "B1 = handle_incoming_message CB (pid_node me) (MonitorProcess me t r) B"
  shows "(pid_node t, MonitorProcess me t r) \<in> set (dl_out A1) \<and>
    (pid_node me, ProcessDown r t (exit_display reason)) \<in> set (dl_out (dist_task_end (dm_conn B1) t (Some reason) B1)) \<and>
    (\<exists>q'. rt_get (dl_rt (handle_incoming_message CA (pid_node t) (ProcessDown r t (exit_display reason)) A1)) me = Some q' \<and>
      pr_mailbox q' = pr_mailbox q @ [PSystem (Down r t (Error (exit_display reason)))]) \<and>
    (\<forall>reason'. exit_display reason' = exit_display reason \<longrightarrow> reason' = reason)"
proof -
  have A1: "pid_node t \<in> set (dm_conn A)" "A1 = dl_send (dm_conn A) (pid_node t) (MonitorProcess me t r)
      (dl_monitors (add_outgoing_monitor me t r) (A\<lparr> dl_rt := snd (rt_new_ref (dl_rt A)) \<rparr>))"
    using assms(1) by (auto simp: monitor_process_def Let_def split_def split: if_splits)
  have rtA: "rt_get (dl_rt A1) me = Some q" "rt_local (dl_rt A1) me"
    using assms(2,3) by (simp_all add: A1(2) rt_new_ref_def rt_get_def rt_local_def)
  have "hm_get (pm_outgoing (dl_pm A1)) (t, r) = Some me" by (simp add: A1(2) pm_add_fields)
  then have down: "rt_get (dl_rt (handle_incoming_message CA (pid_node t) (ProcessDown r t (exit_display reason)) A1)) me =
      Some (snd (handle_send (PSystem (Down r t (Error (exit_display reason)))) q))"
    using rtA by (simp add: handle_process_down_def exit_from_str_def rt_get_send_raw)
  have "rt_alive t (dl_rt B)" using assms(5,6) by (simp add: rt_alive_def handle_is_alive_def)
  then have B1: "B1 = dl_monitors (add_incoming_monitor t me r (pid_node me)) B"
    by (simp add: assms(9) incoming_monitor_def Let_def)
  let ?s = "rt_task_end t (Some reason) (dl_rt B1)"
  have rep: "rt_reported_down ?s = rt_reported_down (dl_rt B1) @ [(t, reason)]"
    using rt_task_end_reports [of "dl_rt B1" t p reason] assms(5-7) by (simp add: B1)
  have conn: "dm_conn B1 = dm_conn B" using dm_tables_dl(1) [of "add_incoming_monitor t me r (pid_node me)" B]
    by (simp add: B1 dm_conn_def dm_tables_def)
  have "dist_task_end (dm_conn B1) t (Some reason) B1 = notify_local_process_down (dm_conn B) t reason (B1\<lparr> dl_rt := ?s \<rparr>)"
    using rep by (simp add: dist_task_end_def Let_def conn)
  moreover have "(me, r) \<in> set (hm_at (pm_incoming (dl_pm (B1\<lparr> dl_rt := ?s \<rparr>))) t)" by (simp add: B1 pm_add_fields)
  ultimately have "(pid_node me, ProcessDown r t (exit_display reason)) \<in> set (dl_out (dist_task_end (dm_conn B1) t (Some reason) B1))"
    using notify_local_process_down_sends [OF _ assms(8)] by metis
  moreover have "(pid_node t, MonitorProcess me t r) \<in> set (dl_out A1)" using A1 by simp
  ultimately show ?thesis using down assms(4) exit_display_inj by auto
qed

section \<open>Examples\<close>

definition ex_codec :: dist_codec where
  "ex_codec = \<lparr> dc_node_down = \<lambda>_. [], dc_pg_enc = \<lambda>_. [], dc_pg_dec = \<lambda>_. None, dc_global_enc = \<lambda>_. [],
     dc_global_dec = \<lambda>_. None \<rparr>"

text \<open>A node with one process.\<close>

definition ex_dm :: "node \<Rightarrow> dist_manager" where
  "ex_dm name = \<lparr> dl_pm = pm_new,
     dl_rt = (snd (rt_spawn (runtime_new \<lparr> ps_this = Some \<lparr> ni_name = name, ni_creation = 0 \<rparr>, ps_counter = 1, ps_creation = 0 \<rparr>)))
       \<lparr> rt_distributed := True \<rparr>,
     dl_out = [], dm_node_name = name, dm_creation = 0, dm_nodes = [], dm_addr_to_node = [], dm_known = [],
     dm_reconnecting = [], dm_types = [], dm_monitors = nm_new, dm_pings = [], dm_pongs = [], dm_spawns = [],
     dm_spawn_replies = [], dm_pg = pg_new, dm_global = [], dm_functions = [], dm_started = [], dm_closed = [],
     dm_clock = 0, dm_heartbeat_seq = 0, dm_ping_seq = 0, dm_spawn_seq = 0 \<rparr>"

definition ex_peer :: "node \<Rightarrow> node \<Rightarrow> dist_manager" where
  "ex_peer name other = snd (connect_finish ex_codec ''addr'' 1 (Welcome other 0) (ex_dm name))"

definition ex_proc :: "node \<Rightarrow> pid" where
  "ex_proc name = \<lparr> pid_node = name, pid_id = 1, pid_creation = 0 \<rparr>"

definition ex_silent :: dist_manager where
  "ex_silent = (ex_peer ''a'' ''b'')\<lparr> dm_clock := 7000 \<rparr>"

lemma ex_peer_run: "(dm_step ex_codec)\<^sup>*\<^sup>* (ex_dm ''a'') (ex_peer ''a'' ''b'')"
  unfolding ex_peer_def by (intro r_into_rtranclp dm_step.connect)

lemma ex_silent_run: "(dm_step ex_codec)\<^sup>*\<^sup>* (ex_dm ''a'') ex_silent"
  by (rule rtranclp.rtrancl_into_rtrancl, rule ex_peer_run, rule dm_step.activity) (simp_all add: ex_silent_def)

lemma ex_dm_empty: "dm_nodes (ex_dm name) = []"
  by (simp add: ex_dm_def)

theorem node_tables_agree_witness:
  "''b'' \<in> set (connected_nodes (ex_peer ''a'' ''b'')) \<and> hm_get (dm_known (ex_peer ''a'' ''b'')) ''b'' = Some ''addr''"
proof -
  have cn: "hm_get (dm_nodes (ex_peer ''a'' ''b'')) ''b'' =
      Some \<lparr> cn_info = \<lparr> in_name = ''b'', in_addr = Some ''addr'', in_creation = 0 \<rparr>, cn_connection = 1, cn_last_seen = 0 \<rparr>"
    by code_simp
  from node_tables_agree [OF ex_peer_run ex_dm_empty, rule_format, OF cn] cn
  show ?thesis by (auto simp: get_node_info_def)
qed

theorem heartbeat_drops_silent_witness:
  "hm_get (dm_nodes (heartbeat ex_codec ex_silent)) ''b'' = None \<and> ''b'' \<notin> set (connected_nodes (heartbeat ex_codec ex_silent))"
proof -
  have cn: "hm_get (dm_nodes ex_silent) ''b'' =
      Some \<lparr> cn_info = \<lparr> in_name = ''b'', in_addr = Some ''addr'', in_creation = 0 \<rparr>, cn_connection = 1, cn_last_seen = 0 \<rparr>"
    by code_simp
  have clock: "dm_clock ex_silent = 7000" by code_simp
  from heartbeat_drops_silent [OF ex_silent_run ex_dm_empty cn] show ?thesis by (simp add: clock)
qed

theorem remote_monitor_reports_witness:
  "\<exists>r A1 q'. monitor_process True (dm_conn (ex_peer ''a'' ''b'')) (ex_proc ''a'') (ex_proc ''b'') (ex_peer ''a'' ''b'') = (Inr r, A1) \<and>
    rt_get (dl_rt (handle_incoming_message ex_codec ''b'' (ProcessDown r (ex_proc ''b'') (exit_display Killed)) A1)) (ex_proc ''a'') = Some q' \<and>
    pr_mailbox q' = [PSystem (Down r (ex_proc ''b'') (Error ''killed''))]"
proof -
  let ?A = "ex_peer ''a'' ''b''" and ?B = "ex_peer ''b'' ''a''"
  let ?res = "monitor_process True (dm_conn ?A) (ex_proc ''a'') (ex_proc ''b'') ?A"
  have "fst ?res = Inr 0" by code_simp
  then have run: "?res = (Inr 0, snd ?res)" by (metis prod.collapse)
  have here: "rt_local (dl_rt ?A) (ex_proc ''a'')" "rt_get (dl_rt ?A) (ex_proc ''a'') = Some proc_new" "\<not> pr_closed proc_new"
    and there: "rt_get (dl_rt ?B) (ex_proc ''b'') = Some proc_new" "\<not> pr_terminated proc_new" "rt_distributed (dl_rt ?B)"
      "pid_node (ex_proc ''a'') \<in> set (dm_conn ?B)"
    by code_simp+
  have node: "pid_node (ex_proc ''b'') = ''b''" by (simp add: ex_proc_def)
  from remote_monitor_reports [where reason = Killed and CA = ex_codec and CB = ex_codec, OF run here there refl] run show ?thesis
    unfolding node by (elim conjE) (auto simp: proc_new_def)
qed

end
