(* ===== verification/DynSup.thy ===== *)
theory DynSup
  imports Sup_Props Via
begin

text \<open>
  Dynamic supervisors (\<open>supervisor/dynamic_supervisor.rs\<close>): children that are started on request, their
  monitors, the restart intensity and the message loop, run directly on the model of the runtime.  \<open>me\<close>
  is the process in whose context an operation runs: the supervisor in its loop, the caller in the
  module functions.  The clock and the text of a send error are arguments.
\<close>

section \<open>State\<close>

record dyn_opts =
  do_max_restarts :: "32 word"
  do_max_seconds :: "32 word"
  do_name :: "name option"

definition dyn_opts_default :: dyn_opts where
  "dyn_opts_default = \<lparr> do_max_restarts = 3, do_max_seconds = 5, do_name = None \<rparr>"

definition dyn_opts_max_restarts :: "32 word \<Rightarrow> dyn_opts \<Rightarrow> dyn_opts" where
  "dyn_opts_max_restarts n opts = opts\<lparr> do_max_restarts := n \<rparr>"

definition dyn_opts_max_seconds :: "32 word \<Rightarrow> dyn_opts \<Rightarrow> dyn_opts" where
  "dyn_opts_max_seconds n opts = opts\<lparr> do_max_seconds := n \<rparr>"

definition dyn_opts_name :: "name \<Rightarrow> dyn_opts \<Rightarrow> dyn_opts" where
  "dyn_opts_name nm opts = opts\<lparr> do_name := Some nm \<rparr>"

record dyn_child =
  dy_spec :: "runtime child_spec"
  dy_ref :: ref

record dyn_sup =
  ds_opts :: dyn_opts
  ds_children :: "(pid, dyn_child) hmap"
  ds_monitors :: "(ref, pid) hmap"
  ds_restart_times :: "int list"
  ds_shutdown :: bool

definition dyn_sup_new :: "dyn_opts \<Rightarrow> dyn_sup" where
  "dyn_sup_new opts = \<lparr> ds_opts = opts, ds_children = [], ds_monitors = [], ds_restart_times = [], ds_shutdown = False \<rparr>"

section \<open>Children\<close>

definition do_start_child :: "(send_error \<Rightarrow> string) \<Rightarrow> pid \<Rightarrow> runtime child_spec \<Rightarrow> dyn_sup \<times> runtime \<Rightarrow>
    (start_child_error + pid) \<times> dyn_sup \<times> runtime" where
  "do_start_child shown me spec = (\<lambda>(s, w).
    (if ds_shutdown s then (Inl (ChildStartFailed ''supervisor is shutting down''), s, w)
     else
      (case cs_start spec w of
         (Inl e, w1) \<Rightarrow> (Inl e, s, w1)
       | (Inr p, w1) \<Rightarrow>
          (case ctx_monitor me p w1 of
             (Inl e, w2) \<Rightarrow> (Inl (ChildStartFailed (shown e)), s, w2)
           | (Inr r, w2) \<Rightarrow>
               (Inr p, s\<lparr> ds_children := hm_insert p \<lparr> dy_spec = spec, dy_ref = r \<rparr> (ds_children s),
                          ds_monitors := hm_insert r p (ds_monitors s) \<rparr>, w2)))))"

definition dyn_handle_child_exit :: "(send_error \<Rightarrow> string) \<Rightarrow> pid \<Rightarrow> int \<Rightarrow> pid \<Rightarrow> exit_reason \<Rightarrow> dyn_sup \<times> runtime \<Rightarrow>
    (exit_reason + unit) \<times> dyn_sup \<times> runtime" where
  "dyn_handle_child_exit shown me now p reason = (\<lambda>(s, w).
    (case hm_get (ds_children s) p of
       None \<Rightarrow> (Inr (), s, w)
     | Some child \<Rightarrow>
        (let s1 = s\<lparr> ds_children := hm_remove p (ds_children s), ds_monitors := hm_remove (dy_ref child) (ds_monitors s) \<rparr> in
         if \<not> should_restart (cs_restart (dy_spec child)) reason then (Inr (), s1, w)
         else
          (let (allowed, kept) = check_restart_rate (unat (do_max_restarts (ds_opts s1)))
                  (secs (uint (do_max_seconds (ds_opts s1)))) now (ds_restart_times s1);
               s2 = s1\<lparr> ds_restart_times := kept \<rparr> in
           if \<not> allowed then (Inl (Error ''max restart intensity reached''), s2, w)
           else
            (case do_start_child shown me (dy_spec child) (s2, w) of
               (Inr _, sw) \<Rightarrow> (Inr (), sw)
             | (Inl Ignore, sw) \<Rightarrow> (Inr (), sw)
             | (Inl e, sw) \<Rightarrow> (Inl (Error (''child failed to restart: '' @ start_child_error_display e)), sw))))))"

definition do_terminate_child :: "pid \<Rightarrow> pid \<Rightarrow> dyn_sup \<times> runtime \<Rightarrow> (string + unit) \<times> dyn_sup \<times> runtime" where
  "do_terminate_child me p = (\<lambda>(s, w).
    (case hm_get (ds_children s) p of
       None \<Rightarrow> (Inl ''child not found'', s, w)
     | Some child \<Rightarrow>
        (Inr (), s\<lparr> ds_children := hm_remove p (ds_children s), ds_monitors := hm_remove (dy_ref child) (ds_monitors s) \<rparr>,
         snd (ctx_exit me p Shutdown (ctx_demonitor me (dy_ref child) w)))))"

definition terminate_all_children :: "pid \<Rightarrow> dyn_sup \<times> runtime \<Rightarrow> dyn_sup \<times> runtime" where
  "terminate_all_children me = (\<lambda>(s, w).
    fold (\<lambda>p sw. snd (do_terminate_child me p sw)) (hm_keys (ds_children s)) (s\<lparr> ds_shutdown := True \<rparr>, w))"

definition dyn_child_counts :: "dyn_sup \<Rightarrow> child_counts" where
  "dyn_child_counts s =
    (let of_type = (\<lambda>t. length (filter (\<lambda>c. cs_type (dy_spec c) = t) (hm_values (ds_children s))))
     in \<lparr> cc_specs = length (ds_children s), cc_active = length (ds_children s),
          cc_supervisors = of_type SupervisorChild, cc_workers = of_type Worker \<rparr>)"

definition dyn_which_children :: "(nat \<Rightarrow> string) \<Rightarrow> dyn_sup \<Rightarrow> child_info list" where
  "dyn_which_children shown_nat s =
    map (\<lambda>(i, p, c). \<lparr> ci_id = ''child_'' @ shown_nat i, ci_pid = Some p, ci_type = cs_type (dy_spec c),
                       ci_restart = cs_restart (dy_spec c) \<rparr>)
      (List.enumerate 0 (ds_children s))"

section \<open>The loop\<close>

text \<open>Before the loop the supervisor registers its name, and gives up when it is taken: the flag tells
  whether the loop is entered.\<close>

definition dyn_begin :: "(string \<Rightarrow> pid \<Rightarrow> bool) \<Rightarrow> pid \<Rightarrow> dyn_sup \<Rightarrow> runtime \<Rightarrow> bool \<times> runtime" where
  "dyn_begin via me s w =
    (case do_name (ds_opts s) of Some nm \<Rightarrow> name_register via nm me w | None \<Rightarrow> (True, w))"

text \<open>One message: whether the loop goes on.\<close>

definition dyn_end :: "pid \<Rightarrow> dyn_sup \<times> runtime \<Rightarrow> dyn_sup \<times> runtime" where
  "dyn_end me sw =
    (let (s, w) = terminate_all_children me sw
     in (s, case do_name (ds_opts s) of Some nm \<Rightarrow> name_unregister nm w | None \<Rightarrow> w))"

definition dyn_handle :: "(send_error \<Rightarrow> string) \<Rightarrow> pid \<Rightarrow> int \<Rightarrow> payload option \<Rightarrow>
    dyn_sup \<times> runtime \<Rightarrow> bool \<times> dyn_sup \<times> runtime" where
  "dyn_handle shown me now msg sw =
    (case msg of
       None \<Rightarrow> (False, dyn_end me sw)
     | Some (PSystem (Down r p reason)) \<Rightarrow>
        if hm_contains r (ds_monitors (fst sw)) then
          (case dyn_handle_child_exit shown me now p reason sw of
             (Inl _, sw') \<Rightarrow> (False, dyn_end me sw')
           | (Inr _, sw') \<Rightarrow> (True, sw'))
        else (True, sw)
     | Some (PSystem (Exit _ _)) \<Rightarrow> (False, dyn_end me sw)
     | _ \<Rightarrow> (True, sw))"

text \<open>One round: taking a message from the mailbox.  Waiting is \<open>None\<close>.\<close>

definition dyn_round :: "(send_error \<Rightarrow> string) \<Rightarrow> pid \<Rightarrow> int \<Rightarrow> dyn_sup \<times> runtime \<Rightarrow>
    (bool \<times> dyn_sup \<times> runtime) option" where
  "dyn_round shown me now = (\<lambda>(s, w).
    (case ctx_recv me w of
       (None, _) \<Rightarrow> None
     | (Some msg, w1) \<Rightarrow> Some (dyn_handle shown me now (Some msg) (s, w1))))"

section \<open>The module functions\<close>

record dyn_world =
  dw_sups :: "(pid, dyn_sup) hmap"
  dw_rt :: runtime

definition dyn_start :: "dyn_opts \<Rightarrow> dyn_world \<Rightarrow> pid \<times> dyn_world" where
  "dyn_start opts d =
    (let (p, w) = rt_spawn (dw_rt d)
     in (p, d\<lparr> dw_sups := hm_insert p (dyn_sup_new opts) (dw_sups d), dw_rt := snd (ctx_set_trap_exit p True w) \<rparr>))"

definition dyn_start_link :: "pid \<Rightarrow> dyn_opts \<Rightarrow> dyn_world \<Rightarrow> pid \<times> dyn_world" where
  "dyn_start_link parent opts d =
    (let (p, w) = rt_spawn_link parent (dw_rt d)
     in (p, d\<lparr> dw_sups := hm_insert p (dyn_sup_new opts) (dw_sups d), dw_rt := snd (ctx_set_trap_exit p True w) \<rparr>))"

definition dyn_on :: "pid \<Rightarrow> (dyn_sup \<times> runtime \<Rightarrow> 'a \<times> dyn_sup \<times> runtime) \<Rightarrow> dyn_sup \<Rightarrow> dyn_world \<Rightarrow> 'a \<times> dyn_world" where
  "dyn_on supervisor f s d =
    (let (a, s', w) = f (s, dw_rt d) in (a, d\<lparr> dw_sups := hm_insert supervisor s' (dw_sups d), dw_rt := w \<rparr>))"

definition dyn_start_child :: "(send_error \<Rightarrow> string) \<Rightarrow> pid \<Rightarrow> pid \<Rightarrow> runtime child_spec \<Rightarrow> dyn_world \<Rightarrow>
    (start_child_error + pid) \<times> dyn_world" where
  "dyn_start_child shown me supervisor spec d =
    (case hm_get (dw_sups d) supervisor of
       None \<Rightarrow> (Inl (ChildStartFailed ''supervisor not found''), d)
     | Some s \<Rightarrow> dyn_on supervisor (do_start_child shown me spec) s d)"

definition dyn_terminate_child :: "pid \<Rightarrow> pid \<Rightarrow> pid \<Rightarrow> dyn_world \<Rightarrow> (string + unit) \<times> dyn_world" where
  "dyn_terminate_child me supervisor child d =
    (case hm_get (dw_sups d) supervisor of
       None \<Rightarrow> (Inl ''supervisor not found'', d)
     | Some s \<Rightarrow> dyn_on supervisor (do_terminate_child me child) s d)"

definition dyn_count_children :: "pid \<Rightarrow> dyn_world \<Rightarrow> string + child_counts" where
  "dyn_count_children supervisor d =
    (case hm_get (dw_sups d) supervisor of None \<Rightarrow> Inl ''supervisor not found'' | Some s \<Rightarrow> Inr (dyn_child_counts s))"

definition dyn_list_children :: "(nat \<Rightarrow> string) \<Rightarrow> pid \<Rightarrow> dyn_world \<Rightarrow> string + child_info list" where
  "dyn_list_children shown_nat supervisor d =
    (case hm_get (dw_sups d) supervisor of None \<Rightarrow> Inl ''supervisor not found'' | Some s \<Rightarrow> Inr (dyn_which_children shown_nat s))"

definition dyn_stop :: "(send_error \<Rightarrow> string) \<Rightarrow> pid \<Rightarrow> pid \<Rightarrow> exit_reason \<Rightarrow> dyn_world \<Rightarrow> (string + unit) \<times> dyn_world" where
  "dyn_stop shown me supervisor reason d =
    (let d1 = (case hm_get (dw_sups d) supervisor of
           None \<Rightarrow> d
         | Some s \<Rightarrow> d\<lparr> dw_sups := hm_remove supervisor (dw_sups d), dw_rt := snd (terminate_all_children me (s, dw_rt d)) \<rparr>)
     in case ctx_exit me supervisor reason (dw_rt d1) of
          (Inl e, w) \<Rightarrow> (Inl (shown e), d1\<lparr> dw_rt := w \<rparr>)
        | (Inr _, w) \<Rightarrow> (Inr (), d1\<lparr> dw_rt := w \<rparr>))"

section \<open>What the operations do to the children\<close>

lemma do_terminate_child_children:
  "fst (snd (do_terminate_child me p (s, w))) =
    (case hm_get (ds_children s) p of
       None \<Rightarrow> s
     | Some c \<Rightarrow> s\<lparr> ds_children := hm_remove p (ds_children s), ds_monitors := hm_remove (dy_ref c) (ds_monitors s) \<rparr>)"
  by (simp add: do_terminate_child_def split: option.split)

lemma terminate_fold_children:
  "hm_get (ds_children (fst (fold (\<lambda>p sw. snd (do_terminate_child me p sw)) ps sw))) q =
    (if q \<in> set ps then None else hm_get (ds_children (fst sw)) q)"
proof (induction ps arbitrary: sw)
  case (Cons p ps)
  obtain s w where sw: "sw = (s, w)" by (cases sw)
  show ?case
    using do_terminate_child_children [of me p s w]
    by (auto simp: Cons.IH sw split: option.splits)
qed simp

text \<open>Once all children are terminated none is left in the list, and no child can be started any more.\<close>

lemma terminate_all_children_empty:
  "hm_get (ds_children (fst (terminate_all_children me sw))) q = None"
  by (cases sw) (auto simp: terminate_all_children_def terminate_fold_children set_hm_keys domIff)

lemma terminate_fold_shutdown:
  "ds_shutdown (fst sw) \<Longrightarrow> ds_shutdown (fst (fold (\<lambda>p sw. snd (do_terminate_child me p sw)) ps sw))"
proof (induction ps arbitrary: sw)
  case (Cons p ps)
  obtain s w where sw: "sw = (s, w)" by (cases sw)
  have "ds_shutdown (fst (snd (do_terminate_child me p sw)))"
    using Cons.prems by (simp add: sw do_terminate_child_children split: option.split)
  then show ?case using Cons.IH by simp
qed simp

lemma stopped_supervisor_starts_nothing:
  "do_start_child shown me spec (terminate_all_children me' sw) =
    (Inl (ChildStartFailed ''supervisor is shutting down''), terminate_all_children me' sw)"
proof -
  have "ds_shutdown (fst (terminate_all_children me' sw))"
    by (cases sw) (simp add: terminate_all_children_def terminate_fold_shutdown)
  then show ?thesis by (simp add: do_start_child_def split_def)
qed

lemma set_hm_insert: "set (hm_insert k v m) \<subseteq> insert (k, v) (set m)"
  by (induction m) (auto simp: hm_insert_def split: if_splits)

text \<open>A process whose end concerns neither its links nor its watchers sees nothing of it.\<close>

lemma unrelated_unchanged:
  assumes "rt_get w c = Some q" "distinct (pr_links q)" "p \<noteq> c" "p \<notin> set (pr_links q)" "\<forall>(r, x) \<in> set (pr_monitored_by q). x \<noteq> p"
  shows "rt_get (rt_task_end c reason w) p = rt_get w p"
proof -
  have none: "filter (\<lambda>(_, x). x = p) (pr_monitored_by q) = []"
    using assms(5) by (auto simp: filter_empty_conv)
  have frame: "rt_get (s\<lparr> rt_reported_down := a, rt_store_cleanup := b \<rparr>) p = rt_get s p" for s a b
    by (simp add: rt_get_def)
  have unreg: "rt_get (rt_unregister c s) p = rt_get s p" for s
    using assms(3) by (simp add: rt_unregister_def rt_get_def)
  show ?thesis
    using assms(1-4) none
    by (simp add: rt_task_end_def handle_process_exit_def Let_def frame unreg rt_get_notify_monitors rt_get_notify_links
        notify_links_frame option.map_ident id_def)
qed

lemma ctx_demonitor_keeps:
  assumes "rt_get w c = Some q"
  shows "\<exists>q'. rt_get (ctx_demonitor me r w) c = Some q' \<and> pr_trap_exit q' = pr_trap_exit q \<and>
    pr_terminated q' = pr_terminated q \<and> pr_mailbox q' = pr_mailbox q"
  using assms
  by (auto simp: ctx_demonitor_def Let_def handle_remove_monitor_def handle_remove_monitored_by_def split: option.split)

section \<open>Properties\<close>

text \<open>A child that another process asks for is not supervised.  Starting a child through the module
  function sets the monitor for the calling process instead of the supervisor: the end of the child
  changes nothing about the supervisor's process, so the child is neither restarted nor taken off the
  list.  And terminating a child that does not trap exits takes it off the list but leaves its process
  alive with its mailbox unchanged, because the exit signal \<open>Shutdown\<close> has no effect on it.\<close>

lemma dynamic_children_unsupervised:
  assumes "dyn_start_child shown me supervisor spec d = (Inr c, d1)"
    and "hm_get (dw_sups d) supervisor = Some s" "cs_start spec (dw_rt d) = (Inr c, w1)"
    and "rt_get w1 c = Some q" "\<not> pr_trap_exit q" "\<not> pr_terminated q" "distinct (pr_links q)"
    and "supervisor \<notin> {me, c}" "supervisor \<notin> set (pr_links q)" "\<forall>(r, x) \<in> set (pr_monitored_by q). x \<noteq> supervisor"
    and "me \<noteq> c"
  shows "rt_get (rt_task_end c reason (dw_rt d1)) supervisor = rt_get (dw_rt d1) supervisor \<and>
    (\<exists>s1. hm_get (dw_sups d1) supervisor = Some s1 \<and> hm_contains c (ds_children s1) \<and>
      (\<exists>d2 s2 q'. dyn_terminate_child me supervisor c d1 = (Inr (), d2) \<and> hm_get (dw_sups d2) supervisor = Some s2 \<and>
        \<not> hm_contains c (ds_children s2) \<and> rt_get (dw_rt d2) c = Some q' \<and> \<not> pr_terminated q' \<and> pr_mailbox q' = pr_mailbox q))"
proof -
  define r where "r = fst (rt_new_ref w1)"
  have new_ref: "rt_get (snd (rt_new_ref w1)) p = rt_get w1 p" for p by (simp add: rt_new_ref_def rt_get_def)
  have r: "ctx_monitor me c w1 = (Inr r, rt_update c (handle_add_monitored_by r me)
      (rt_update me (handle_add_monitor r c) (snd (rt_new_ref w1))))"
    using assms(4,11) by (simp add: ctx_monitor_def split_def Let_def new_ref r_def)
  let ?w2 = "rt_update c (handle_add_monitored_by r me) (rt_update me (handle_add_monitor r c) (snd (rt_new_ref w1)))"
  let ?s1 = "s\<lparr> ds_children := hm_insert c \<lparr> dy_spec = spec, dy_ref = r \<rparr> (ds_children s), ds_monitors := hm_insert r c (ds_monitors s) \<rparr>"
  have running: "\<not> ds_shutdown s"
    using assms(1,2) by (auto simp: dyn_start_child_def dyn_on_def do_start_child_def split: if_splits)
  have d1: "d1 = d\<lparr> dw_sups := hm_insert supervisor ?s1 (dw_sups d), dw_rt := ?w2 \<rparr>"
    using assms(1-3) running r by (simp add: dyn_start_child_def dyn_on_def do_start_child_def)
  let ?q = "handle_add_monitored_by r me q"
  have child: "rt_get (dw_rt d1) c = Some ?q" using assms(4,11) by (auto simp: d1 new_ref)
  have mby: "set (pr_monitored_by ?q) \<subseteq> insert (r, me) (set (pr_monitored_by q))"
    using set_hm_insert [of r me "pr_monitored_by q"] by (simp add: handle_add_monitored_by_def)
  have "rt_get (rt_task_end c reason (dw_rt d1)) supervisor = rt_get (dw_rt d1) supervisor"
  proof (rule unrelated_unchanged [OF child])
    show "\<forall>(r', x) \<in> set (pr_monitored_by ?q). x \<noteq> supervisor" using mby assms(8,10) by fastforce
  qed (use assms(7-9) in \<open>simp_all add: handle_add_monitored_by_def\<close>)
  moreover have "\<exists>d2 s2 q'. dyn_terminate_child me supervisor c d1 = (Inr (), d2) \<and> hm_get (dw_sups d2) supervisor = Some s2 \<and>
        \<not> hm_contains c (ds_children s2) \<and> rt_get (dw_rt d2) c = Some q' \<and> \<not> pr_terminated q' \<and> pr_mailbox q' = pr_mailbox q"
  proof -
    let ?w3 = "ctx_demonitor me r ?w2"
    obtain q3 where q3: "rt_get ?w3 c = Some q3" "pr_trap_exit q3 = pr_trap_exit q" "pr_terminated q3 = pr_terminated q"
      "pr_mailbox q3 = pr_mailbox q"
      using ctx_demonitor_keeps [OF child, of me r] d1 by (auto simp: handle_add_monitored_by_def)
    have "ctx_exit me c Shutdown ?w3 = (Inr (), ?w3)"
      using q3 assms(5) by (simp add: ctx_exit_def is_abnormal_def)
    then show ?thesis
      using q3 assms(6) by (simp add: d1 dyn_terminate_child_def dyn_on_def do_terminate_child_def hm_contains_def)
  qed
  ultimately show ?thesis by (simp add: d1 hm_contains_def)
qed

definition ex_dyn_pid :: "64 word \<Rightarrow> pid" where
  "ex_dyn_pid i = \<lparr> pid_node = [], pid_id = i, pid_creation = 0 \<rparr>"

text \<open>A caller, process 1, and a supervisor, process 2.\<close>

definition ex_dyn :: dyn_world where
  "ex_dyn = snd (dyn_start dyn_opts_default \<lparr> dw_sups = [],
     dw_rt = snd (rt_spawn (runtime_new \<lparr> ps_this = None, ps_counter = 1, ps_creation = 0 \<rparr>)) \<rparr>)"

definition ex_dyn_spec :: "runtime child_spec" where
  "ex_dyn_spec = child_spec_new ''c'' (\<lambda>w. (Inr (fst (rt_spawn w)), snd (rt_spawn w)))"

section \<open>The invariant\<close>

text \<open>Every child is found through its monitor, the monitors have been created, and no more restarts are
  remembered than are allowed.\<close>

definition dyn_inv :: "dyn_sup \<Rightarrow> runtime \<Rightarrow> bool" where
  "dyn_inv s w \<longleftrightarrow>
     (\<forall>p c. hm_get (ds_children s) p = Some c \<longrightarrow> hm_get (ds_monitors s) (dy_ref c) = Some p) \<and>
     (\<forall>r p. hm_get (ds_monitors s) r = Some p \<longrightarrow> r < rt_next_ref w) \<and>
     length (ds_restart_times s) \<le> unat (do_max_restarts (ds_opts s))"

lemma dyn_invI:
  assumes "\<And>p c. hm_get (ds_children s) p = Some c \<Longrightarrow> hm_get (ds_monitors s) (dy_ref c) = Some p"
    and "\<And>r p. hm_get (ds_monitors s) r = Some p \<Longrightarrow> r < rt_next_ref w"
    and "length (ds_restart_times s) \<le> unat (do_max_restarts (ds_opts s))"
  shows "dyn_inv s w"
  using assms by (simp add: dyn_inv_def)

lemma dyn_invD:
  assumes "dyn_inv s w"
  shows "hm_get (ds_children s) p = Some c \<Longrightarrow> hm_get (ds_monitors s) (dy_ref c) = Some p"
    "hm_get (ds_monitors s) r = Some p \<Longrightarrow> r < rt_next_ref w"
    "length (ds_restart_times s) \<le> unat (do_max_restarts (ds_opts s))"
  using assms by (simp_all add: dyn_inv_def)

lemma dyn_inv_world: "dyn_inv s w \<Longrightarrow> rt_next_ref w \<le> rt_next_ref w' \<Longrightarrow> dyn_inv s w'"
  unfolding dyn_inv_def by (meson order_less_le_trans)

lemma dyn_inv_shutdown [simp]: "dyn_inv (s\<lparr> ds_shutdown := b \<rparr>) w = dyn_inv s w"
  by (simp add: dyn_inv_def)

lemma dyn_inv_remove:
  assumes "dyn_inv s w" "hm_get (ds_children s) p = Some c"
  shows "dyn_inv (s\<lparr> ds_children := hm_remove p (ds_children s), ds_monitors := hm_remove (dy_ref c) (ds_monitors s) \<rparr>) w"
proof (rule dyn_invI)
  let ?s = "s\<lparr> ds_children := hm_remove p (ds_children s), ds_monitors := hm_remove (dy_ref c) (ds_monitors s) \<rparr>"
  fix q d assume "hm_get (ds_children ?s) q = Some d"
  then have q: "q \<noteq> p" "hm_get (ds_children s) q = Some d" by (auto split: if_splits)
  then show "hm_get (ds_monitors ?s) (dy_ref d) = Some q"
    using dyn_invD(1) [OF assms(1) q(2)] dyn_invD(1) [OF assms] by auto
qed (use dyn_invD(2,3) [OF assms(1)] in \<open>auto split: if_splits\<close>)

lemma next_ref_frame [simp]:
  "rt_next_ref (ctx_demonitor me r w) = rt_next_ref w" "rt_next_ref (snd (ctx_exit me p reason w)) = rt_next_ref w"
  "rt_next_ref (name_unregister n w) = rt_next_ref w" "rt_next_ref (snd (rt_send_raw p d w)) = rt_next_ref w"
  by (simp_all add: ctx_demonitor_def ctx_exit_def name_unregister_def rt_unregister_name_def rt_send_raw_def Let_def
      split: option.split name.split)

text \<open>A start function may use the runtime, but the counter of references does not run over.\<close>

definition spec_room :: "runtime \<Rightarrow> runtime child_spec \<Rightarrow> bool" where
  "spec_room w spec \<longleftrightarrow> rt_next_ref w \<le> rt_next_ref (snd (cs_start spec w)) \<and> rt_next_ref (snd (cs_start spec w)) < - 1"

lemma word_suc_greater: "w < - 1 \<Longrightarrow> w < w + (1 :: 64 word)"
  by unat_arith

lemma ctx_monitor_next_ref:
  assumes "ctx_monitor me p w = (Inr r, w')"
  shows "r = rt_next_ref w \<and> rt_next_ref w' = rt_next_ref w + 1"
  using assms by (auto simp: ctx_monitor_def rt_new_ref_def Let_def split: option.splits)

lemma do_start_child_inv:
  assumes "dyn_inv s w" "spec_room w spec" "do_start_child shown me spec (s, w) = (res, s', w')"
  shows "dyn_inv s' w' \<and> rt_next_ref w \<le> rt_next_ref w'"
proof (cases "ds_shutdown s")
  case True
  then show ?thesis using assms by (simp add: do_start_child_def)
next
  case False
  obtain r1 w1 where st: "cs_start spec w = (r1, w1)" by (cases "cs_start spec w")
  have w1: "rt_next_ref w \<le> rt_next_ref w1" "rt_next_ref w1 < - 1" using assms(2) by (simp_all add: spec_room_def st)
  note inv1 = dyn_inv_world [OF assms(1) w1(1)]
  show ?thesis
  proof (cases r1)
    case (Inl e)
    then show ?thesis using assms(3) False st inv1 w1 by (simp add: do_start_child_def)
  next
    case (Inr p)
    have "\<exists>r w2. ctx_monitor me p w1 = (Inr r, w2)"
      by (simp add: ctx_monitor_def split_def Let_def split: option.split)
    then obtain r w2 where m: "ctx_monitor me p w1 = (Inr r, w2)" by blast
    have r: "r = rt_next_ref w1" and w2: "rt_next_ref w2 = rt_next_ref w1 + 1" using ctx_monitor_next_ref [OF m] by simp_all
    have up: "rt_next_ref w1 < rt_next_ref w2" using w1(2) unfolding w2 by (rule word_suc_greater)
    have s': "s' = s\<lparr> ds_children := hm_insert p \<lparr> dy_spec = spec, dy_ref = r \<rparr> (ds_children s),
        ds_monitors := hm_insert r p (ds_monitors s) \<rparr>" "w' = w2"
      using assms(3) False st Inr m by (simp_all add: do_start_child_def)
    have "dyn_inv s' w'" unfolding s'
    proof (rule dyn_invI, goal_cases)
      case (1 q c)
      show ?case
      proof (cases "q = p")
        case True
        then show ?thesis using 1 by auto
      next
        case False
        then have "hm_get (ds_children s) q = Some c" using 1 by simp
        then have c: "hm_get (ds_monitors s) (dy_ref c) = Some q" by (rule dyn_invD(1) [OF assms(1)])
        then have "dy_ref c < r" using dyn_invD(2) [OF inv1 c] r by simp
        then show ?thesis using c by simp
      qed
    next
      case (2 r' q)
      then show ?case using dyn_invD(2) [OF inv1, of r'] up r by (auto split: if_splits)
    next
      case 3
      then show ?case using dyn_invD(3) [OF inv1] by simp
    qed
    then show ?thesis using w1(1) up s'(2) by simp
  qed
qed

lemma do_terminate_child_inv:
  assumes "dyn_inv (fst sw) (snd sw)"
  shows "dyn_inv (fst (snd (do_terminate_child me p sw))) (snd (snd (do_terminate_child me p sw))) \<and>
    rt_next_ref (snd (snd (do_terminate_child me p sw))) = rt_next_ref (snd sw)"
proof -
  obtain s w where sw: "sw = (s, w)" by (cases sw)
  show ?thesis
  proof (cases "hm_get (ds_children s) p")
    case None
    then show ?thesis using assms by (simp add: sw do_terminate_child_def)
  next
    case (Some c)
    then show ?thesis using assms dyn_inv_world [OF dyn_inv_remove [OF _ Some]] by (simp add: sw do_terminate_child_def)
  qed
qed

lemma terminate_all_children_inv:
  assumes "dyn_inv (fst sw) (snd sw)"
  shows "dyn_inv (fst (terminate_all_children me sw)) (snd (terminate_all_children me sw)) \<and>
    rt_next_ref (snd (terminate_all_children me sw)) = rt_next_ref (snd sw)"
proof -
  have each: "dyn_inv (fst (fold (\<lambda>p sw. snd (do_terminate_child me p sw)) ps sw))
      (snd (fold (\<lambda>p sw. snd (do_terminate_child me p sw)) ps sw)) \<and>
    rt_next_ref (snd (fold (\<lambda>p sw. snd (do_terminate_child me p sw)) ps sw)) = rt_next_ref (snd sw)"
    if "dyn_inv (fst sw) (snd sw)" for ps sw
    using that
  proof (induction ps arbitrary: sw)
    case (Cons p ps)
    then show ?case using do_terminate_child_inv [OF Cons.prems, of me p] by simp
  qed simp
  show ?thesis using each [of "((fst sw)\<lparr> ds_shutdown := True \<rparr>, snd sw)"] assms
    by (simp add: terminate_all_children_def split_def)
qed

lemma dyn_end_inv:
  assumes "dyn_inv s w" "dyn_end me (s, w) = (s', w')"
  shows "dyn_inv s' w' \<and> rt_next_ref w \<le> rt_next_ref w' \<and> (\<forall>p. hm_get (ds_children s') p = None)"
proof -
  obtain s1 w1 where t: "terminate_all_children me (s, w) = (s1, w1)" by (cases "terminate_all_children me (s, w)")
  have "s' = s1" "rt_next_ref w' = rt_next_ref w1"
    using assms(2) t by (auto simp: dyn_end_def split: option.splits)
  then show ?thesis
    using terminate_all_children_inv [of "(s, w)" me] terminate_all_children_empty [of me "(s, w)"] assms(1) t
    by (auto simp: dyn_inv_def)
qed

lemma check_restart_rate_length:
  assumes "length ts \<le> n"
  shows "length (snd (check_restart_rate n window now ts)) \<le> n"
  using assms le_trans [OF length_filter_le, of ts n] by (auto simp: check_restart_rate_def Let_def)

lemma dyn_handle_child_exit_inv:
  assumes inv: "dyn_inv s w" and room: "\<And>c. hm_get (ds_children s) p = Some c \<Longrightarrow> spec_room w (dy_spec c)"
    and h: "dyn_handle_child_exit shown me now p reason (s, w) = (res, s', w')"
  shows "dyn_inv s' w' \<and> rt_next_ref w \<le> rt_next_ref w'"
proof (cases "hm_get (ds_children s) p")
  case None
  then show ?thesis using h inv by (simp add: dyn_handle_child_exit_def)
next
  case (Some c)
  let ?s1 = "s\<lparr> ds_children := hm_remove p (ds_children s), ds_monitors := hm_remove (dy_ref c) (ds_monitors s) \<rparr>"
  have inv1: "dyn_inv ?s1 w" by (rule dyn_inv_remove [OF inv Some])
  show ?thesis
  proof (cases "should_restart (cs_restart (dy_spec c)) reason")
    case False
    then show ?thesis using h Some inv1 by (simp add: dyn_handle_child_exit_def)
  next
    case True
    obtain allowed kept where r: "check_restart_rate (unat (do_max_restarts (ds_opts s)))
        (secs (uint (do_max_seconds (ds_opts s)))) now (ds_restart_times s) = (allowed, kept)" by fastforce
    have few: "length kept \<le> unat (do_max_restarts (ds_opts s))"
      using check_restart_rate_length [OF dyn_invD(3) [OF inv]] r by (metis snd_conv)
    let ?s2 = "?s1\<lparr> ds_restart_times := kept \<rparr>"
    have inv2: "dyn_inv ?s2 w" using inv1 few by (simp add: dyn_inv_def)
    show ?thesis
    proof (cases allowed)
      case False
      then show ?thesis using h Some True r inv2 by (simp add: dyn_handle_child_exit_def)
    next
      case ok: True
      obtain res1 s3 w3 where st: "do_start_child shown me (dy_spec c) (?s2, w) = (res1, s3, w3)" by (metis prod.collapse)
      have "s' = s3 \<and> w' = w3"
        using h Some True r ok st by (auto simp: dyn_handle_child_exit_def split: sum.splits start_child_error.splits)
      then show ?thesis using do_start_child_inv [OF inv2 room [OF Some] st] by simp
    qed
  qed
qed

text \<open>Runs of a supervisor: messages it handles, calls of other processes, the clock and whatever happens
  to the runtime in between, as long as the counter of references does not run over.  \<open>log\<close> has the time of
  every message whose handling put a new child on the list, \<open>clk\<close> the time of the last message.\<close>

definition new_child :: "dyn_sup \<Rightarrow> dyn_sup \<Rightarrow> bool" where
  "new_child s s' \<longleftrightarrow> (\<exists>p c. hm_get (ds_children s') p = Some c \<and> hm_get (ds_children s) p \<noteq> Some c)"

inductive dyn_reach :: "dyn_opts \<Rightarrow> int list \<Rightarrow> int \<Rightarrow> dyn_sup \<Rightarrow> runtime \<Rightarrow> bool" for opts where
  start: "dyn_reach opts [] clk (dyn_sup_new opts) w"
| message: "dyn_reach opts log clk s w \<Longrightarrow> (\<And>p c. hm_get (ds_children s) p = Some c \<Longrightarrow> spec_room w (dy_spec c)) \<Longrightarrow>
    clk \<le> now \<Longrightarrow> dyn_handle shown me now msg (s, w) = (go, s', w') \<Longrightarrow>
    dyn_reach opts (if new_child s s' then log @ [now] else log) now s' w'"
| start_child: "dyn_reach opts log clk s w \<Longrightarrow> spec_room w spec \<Longrightarrow> do_start_child shown caller spec (s, w) = (res, s', w') \<Longrightarrow>
    dyn_reach opts log clk s' w'"
| terminate_child: "dyn_reach opts log clk s w \<Longrightarrow> do_terminate_child caller p (s, w) = (res, s', w') \<Longrightarrow> dyn_reach opts log clk s' w'"
| stop: "dyn_reach opts log clk s w \<Longrightarrow> terminate_all_children caller (s, w) = (s', w') \<Longrightarrow> dyn_reach opts log clk s' w'"
| others: "dyn_reach opts log clk s w \<Longrightarrow> rt_next_ref w \<le> rt_next_ref w' \<Longrightarrow> dyn_reach opts log clk s w'"

lemma dyn_handle_inv:
  assumes inv: "dyn_inv s w" and room: "\<And>p c. hm_get (ds_children s) p = Some c \<Longrightarrow> spec_room w (dy_spec c)"
    and h: "dyn_handle shown me now msg (s, w) = (go, s', w')"
  shows "dyn_inv s' w' \<and> (\<not> go \<longrightarrow> (\<forall>p. hm_get (ds_children s') p = None))"
proof -
  have ended: ?thesis if "dyn_end me (t, v) = (s', w')" "dyn_inv t v" for t v
    using dyn_end_inv [OF that(2,1)] by simp
  have down: ?thesis if m: "msg = Some (PSystem (Down r p reason))" and r: "hm_contains r (ds_monitors s)" for r p reason
  proof -
    obtain res s1 w1 where x: "dyn_handle_child_exit shown me now p reason (s, w) = (res, s1, w1)" by (metis prod.collapse)
    have inv1: "dyn_inv s1 w1" using dyn_handle_child_exit_inv [OF inv _ x] room by blast
    show ?thesis
    proof (cases res)
      case (Inl e)
      then have "dyn_end me (s1, w1) = (s', w')" using h m r x by (simp add: dyn_handle_def)
      then show ?thesis by (rule ended [OF _ inv1])
    next
      case (Inr u)
      then show ?thesis using h m r x inv1 by (simp add: dyn_handle_def)
    qed
  qed
  show ?thesis
  proof (cases msg)
    case None
    then show ?thesis using h ended [OF _ inv] by (simp add: dyn_handle_def)
  next
    case (Some m)
    show ?thesis
    proof (cases m)
      case (PData bs)
      then show ?thesis using h Some inv by (simp add: dyn_handle_def)
    next
      case (PSystem sm)
      show ?thesis
      proof (cases sm)
        case (Exit x y)
        then show ?thesis using h Some PSystem ended [OF _ inv] by (simp add: dyn_handle_def)
      next
        case (Down r p reason)
        then show ?thesis using h Some PSystem inv down [of r p reason]
          by (cases "hm_contains r (ds_monitors s)") (auto simp: dyn_handle_def)
      next
        case Timeout
        then show ?thesis using h Some PSystem inv by (simp add: dyn_handle_def)
      qed
    qed
  qed
qed

lemma dyn_reach_inv:
  assumes "dyn_reach opts log clk s w"
  shows "dyn_inv s w"
  using assms
proof induction
  case (start clk w)
  then show ?case by (simp add: dyn_inv_def dyn_sup_new_def)
next
  case (message log clk s w now shown me msg go s' w')
  then show ?case using dyn_handle_inv [OF message.IH] by blast
next
  case (start_child log clk s w spec shown caller res s' w')
  then show ?case using do_start_child_inv by blast
next
  case (terminate_child log clk s w caller p res s' w')
  then show ?case using do_terminate_child_inv [of "(s, w)" caller p] by simp
next
  case (stop log clk s w caller s' w')
  then show ?case using terminate_all_children_inv [of "(s, w)" caller] by simp
next
  case (others log clk s w w')
  then show ?case using dyn_inv_world by blast
qed

section \<open>Restarts in time\<close>

text \<open>Which operations leave the remembered restarts and the options alone.\<close>

lemma start_child_times:
  "do_start_child shown me spec (s, w) = (res, s', w') \<Longrightarrow> ds_restart_times s' = ds_restart_times s \<and> ds_opts s' = ds_opts s"
  by (auto simp: do_start_child_def split: if_splits sum.splits prod.splits)

lemma terminate_child_times [simp]:
  "ds_restart_times (fst (snd (do_terminate_child me p sw))) = ds_restart_times (fst sw)"
  "ds_opts (fst (snd (do_terminate_child me p sw))) = ds_opts (fst sw)"
  by (cases sw, simp add: do_terminate_child_def split: option.split)+

lemma terminate_all_times:
  "ds_restart_times (fst (terminate_all_children me sw)) = ds_restart_times (fst sw)"
  "ds_opts (fst (terminate_all_children me sw)) = ds_opts (fst sw)"
proof -
  have "ds_restart_times (fst (fold (\<lambda>p sw. snd (do_terminate_child me p sw)) ps sw)) = ds_restart_times (fst sw) \<and>
      ds_opts (fst (fold (\<lambda>p sw. snd (do_terminate_child me p sw)) ps sw)) = ds_opts (fst sw)" for ps sw
    by (induction ps arbitrary: sw) simp_all
  then show "ds_restart_times (fst (terminate_all_children me sw)) = ds_restart_times (fst sw)"
    "ds_opts (fst (terminate_all_children me sw)) = ds_opts (fst sw)"
    by (cases sw, simp add: terminate_all_children_def)+
qed

lemma dyn_end_times:
  "dyn_end me sw = (s', w') \<Longrightarrow> ds_restart_times s' = ds_restart_times (fst sw) \<and> ds_opts s' = ds_opts (fst sw) \<and> \<not> new_child s s'"
  using terminate_all_times [of me sw] terminate_all_children_empty [of me sw]
  by (auto simp: dyn_end_def new_child_def split_def Let_def)

lemma no_new_child_remove: "\<not> new_child s (s\<lparr> ds_children := hm_remove p (ds_children s), ds_monitors := ms \<rparr>)"
  by (auto simp: new_child_def)

lemma no_new_child_kept: "new_child s (s'\<lparr> ds_restart_times := ts \<rparr>) = new_child s s'"
  by (simp add: new_child_def)

text \<open>The exit of a child either leaves the remembered restarts alone and restarts nothing, or asks the window.\<close>

lemma child_exit_times:
  assumes "dyn_handle_child_exit shown me now p reason (s, w) = (res, s', w')"
  defines "ask \<equiv> check_restart_rate (unat (do_max_restarts (ds_opts s))) (secs (uint (do_max_seconds (ds_opts s)))) now (ds_restart_times s)"
  shows "ds_opts s' = ds_opts s \<and>
    (ds_restart_times s' = ds_restart_times s \<and> \<not> new_child s s' \<or> ds_restart_times s' = snd ask \<and> (fst ask \<or> \<not> new_child s s'))"
proof (cases "hm_get (ds_children s) p")
  case None
  then show ?thesis using assms(1) by (simp add: dyn_handle_child_exit_def new_child_def)
next
  case (Some c)
  let ?s1 = "s\<lparr> ds_children := hm_remove p (ds_children s), ds_monitors := hm_remove (dy_ref c) (ds_monitors s) \<rparr>"
  note same = no_new_child_remove [where s = s and p = p and ms = "hm_remove (dy_ref c) (ds_monitors s)"]
  show ?thesis
  proof (cases "should_restart (cs_restart (dy_spec c)) reason")
    case False
    then show ?thesis using assms(1) Some same by (auto simp: dyn_handle_child_exit_def)
  next
    case True
    obtain allowed kept where ask: "ask = (allowed, kept)" by (cases ask)
    show ?thesis
    proof (cases allowed)
      case False
      then have "s' = ?s1\<lparr> ds_restart_times := kept \<rparr>"
        using assms(1) Some True ask by (auto simp: dyn_handle_child_exit_def ask_def)
      then show ?thesis using same by (simp add: ask no_new_child_kept del: sup.update_convs)
    next
      case ok: True
      obtain res1 s3 w3 where st: "do_start_child shown me (dy_spec c) (?s1\<lparr> ds_restart_times := kept \<rparr>, w) = (res1, s3, w3)"
        by (metis prod.collapse)
      have "s' = s3" using assms(1) Some True ask ok st
        by (auto simp: dyn_handle_child_exit_def ask_def split: sum.splits start_child_error.splits)
      then show ?thesis using start_child_times [OF st] by (simp add: ask ok)
    qed
  qed
qed

lemma handle_times:
  assumes "dyn_handle shown me now msg (s, w) = (go, s', w')"
  defines "ask \<equiv> check_restart_rate (unat (do_max_restarts (ds_opts s))) (secs (uint (do_max_seconds (ds_opts s)))) now (ds_restart_times s)"
  shows "ds_opts s' = ds_opts s \<and>
    (ds_restart_times s' = ds_restart_times s \<and> \<not> new_child s s' \<or> ds_restart_times s' = snd ask \<and> (fst ask \<or> \<not> new_child s s'))"
proof -
  have refl: "\<not> new_child s s" by (simp add: new_child_def)
  have down: ?thesis if m: "msg = Some (PSystem (Down r p reason))" "hm_contains r (ds_monitors s)" for r p reason
  proof -
    obtain res s1 w1 where x: "dyn_handle_child_exit shown me now p reason (s, w) = (res, s1, w1)" by (metis prod.collapse)
    note e = child_exit_times [OF x, folded ask_def]
    show ?thesis
    proof (cases res)
      case (Inl err)
      then have "dyn_end me (s1, w1) = (s', w')" using assms(1) m x by (simp add: dyn_handle_def)
      from dyn_end_times [OF this, of s] show ?thesis using e by auto
    next
      case (Inr u)
      then show ?thesis using assms(1) m x e by (simp add: dyn_handle_def)
    qed
  qed
  show ?thesis
    using assms(1) down refl dyn_end_times [of me "(s, w)" s' w' s]
    by (auto simp: dyn_handle_def split: option.splits payload.splits system_message.splits if_splits)
qed

text \<open>The window of the accepted restarts, of which the logged ones are a part.\<close>

definition dyn_window :: "dyn_opts \<Rightarrow> int list \<Rightarrow> int \<Rightarrow> dyn_sup \<Rightarrow> bool" where
  "dyn_window opts log clk s \<longleftrightarrow> ds_opts s = opts \<and>
     (\<exists>acc. (\<forall>t. in_window (secs (uint (do_max_seconds opts))) t log \<le> in_window (secs (uint (do_max_seconds opts))) t acc) \<and>
       window_inv (unat (do_max_restarts opts)) (secs (uint (do_max_seconds opts))) acc clk (ds_restart_times s))"

lemma in_window_append: "in_window w t (xs @ ys) = in_window w t xs + in_window w t ys"
  by (simp add: in_window_def)

lemma window_inv_later: "window_inv m w acc clk kept \<Longrightarrow> clk \<le> now \<Longrightarrow> window_inv m w acc now kept"
  unfolding window_inv_def by (meson order_trans)

lemma dyn_window_message:
  assumes "dyn_window opts log clk s" "clk \<le> now" "dyn_handle shown me now msg (s, w) = (go, s', w')"
  shows "dyn_window opts (if new_child s s' then log @ [now] else log) now s'"
proof -
  let ?m = "unat (do_max_restarts opts)" and ?w = "secs (uint (do_max_seconds opts))"
  have opts: "ds_opts s = opts" using assms(1) by (simp add: dyn_window_def)
  obtain acc where acc: "\<forall>t. in_window ?w t log \<le> in_window ?w t acc" "window_inv ?m ?w acc clk (ds_restart_times s)"
    using assms(1) unfolding dyn_window_def by blast
  obtain ok kept where ask: "check_restart_rate ?m ?w now (ds_restart_times s) = (ok, kept)" by fastforce
  note h = handle_times [OF assms(3), unfolded opts ask]
  consider "ds_restart_times s' = ds_restart_times s" "\<not> new_child s s'" | "ds_restart_times s' = kept" "ok \<or> \<not> new_child s s'"
    using h by auto
  then show ?thesis
  proof cases
    case 1
    then show ?thesis using acc h window_inv_later [OF acc(2) assms(2)] by (auto simp: dyn_window_def)
  next
    case 2
    have inv: "window_inv ?m ?w (if ok then acc @ [now] else acc) now kept" by (rule window_inv_check(1) [OF acc(2) assms(2) ask])
    have "in_window ?w t (if new_child s s' then log @ [now] else log) \<le> in_window ?w t (if ok then acc @ [now] else acc)" for t
      using 2(2) acc(1) by (auto simp: in_window_append intro: le_trans trans_le_add1)
    then show ?thesis using inv h 2(1) unfolding dyn_window_def by blast
  qed
qed

lemma dyn_reach_window: "dyn_reach opts log clk s w \<Longrightarrow> dyn_window opts log clk s"
proof (induction rule: dyn_reach.induct)
  case (start clk w)
  have "window_inv m v [] clk []" for m v by (simp add: window_inv_def in_window_def)
  then show ?case by (auto simp: dyn_window_def dyn_sup_new_def in_window_def)
next
  case (message log clk s w now shown me msg go s' w')
  then show ?case by (intro dyn_window_message)
next
  case (start_child log clk s w spec shown caller res s' w')
  then show ?case using start_child_times [OF start_child(3)] by (simp add: dyn_window_def)
next
  case (terminate_child log clk s w caller p res s' w')
  then show ?case using terminate_child_times [of caller p "(s, w)"] by (simp add: dyn_window_def)
next
  case (stop log clk s w caller s' w')
  then show ?case using terminate_all_times [of caller "(s, w)"] by (simp add: dyn_window_def)
qed

lemma dyn_handle_stops:
  assumes "dyn_handle shown me now msg (s, w) = (False, s', w')"
  shows "\<exists>t v. fst (terminate_all_children me (t, v)) = s'"
proof -
  have ended: ?thesis if "dyn_end me (t, v) = (s', w')" for t v
    using that by (auto simp: dyn_end_def split_def Let_def)
  from assms show ?thesis
    by (auto simp: dyn_handle_def split: option.splits payload.splits system_message.splits if_splits sum.splits prod.splits intro: ended)
qed

lemma do_start_child_specs:
  assumes "hm_get (ds_children (fst (snd (do_start_child shown me spec (s, w))))) p = Some c"
  shows "hm_get (ds_children s) p = Some c \<or> dy_spec c = spec"
  using assms by (auto simp: do_start_child_def split: if_splits prod.splits sum.splits)

lemma child_types_counted:
  "length (filter (\<lambda>c. cs_type (f c) = SupervisorChild) xs) + length (filter (\<lambda>c. cs_type (f c) = Worker) xs) = length xs"
  by (induction xs) (auto, metis child_type.exhaust)

text \<open>C17. In every run of a dynamic supervisor each child is found through its monitor, in any window of
  \<open>max_seconds\<close>, open at its older end, the loop has put at most \<open>max_restarts\<close> restarted children on the list,
  and the counts add up.  A message that ends the loop leaves no child, and nothing can be started afterwards,
  whoever asks.\<close>

theorem dynamic_supervisor_invariant:
  assumes "dyn_reach opts log clk s w"
  shows "(\<forall>p c. hm_get (ds_children s) p = Some c \<longrightarrow> hm_get (ds_monitors s) (dy_ref c) = Some p) \<and>
    length (filter (\<lambda>x. t - secs (uint (do_max_seconds opts)) < x \<and> x \<le> t) log) \<le> unat (do_max_restarts opts) \<and>
    cc_supervisors (dyn_child_counts s) + cc_workers (dyn_child_counts s) = cc_active (dyn_child_counts s) \<and>
    (\<forall>shown me now msg s' w'. dyn_handle shown me now msg (s, w) = (False, s', w') \<longrightarrow>
       (\<forall>p. hm_get (ds_children s') p = None) \<and>
       (\<forall>caller spec v. do_start_child shown caller spec (s', v) = (Inl (ChildStartFailed ''supervisor is shutting down''), s', v)))"
proof -
  have counts: "cc_supervisors (dyn_child_counts s) + cc_workers (dyn_child_counts s) = cc_active (dyn_child_counts s)"
    using child_types_counted [of dy_spec "hm_values (ds_children s)"] by (simp add: dyn_child_counts_def Let_def hm_values_def)
  have stops: "(\<forall>p. hm_get (ds_children s') p = None) \<and>
      (\<forall>caller spec v. do_start_child shown caller spec (s', v) = (Inl (ChildStartFailed ''supervisor is shutting down''), s', v))"
    if h: "dyn_handle shown me now msg (s, w) = (False, s', w')" for shown me now msg s' w'
  proof -
    obtain t v where s': "s' = fst (terminate_all_children me (t, v))" using dyn_handle_stops [OF h] by metis
    have "ds_shutdown s'" by (simp add: s' terminate_all_children_def terminate_fold_shutdown)
    then show ?thesis using terminate_all_children_empty [of me "(t, v)"] by (simp add: s' do_start_child_def)
  qed
  have "length (filter (\<lambda>x. t - secs (uint (do_max_seconds opts)) < x \<and> x \<le> t) log) \<le> unat (do_max_restarts opts)"
    using dyn_reach_window [OF assms] unfolding dyn_window_def window_inv_def in_window_def by (meson le_trans)
  then show ?thesis using dyn_invD(1) [OF dyn_reach_inv [OF assms]] counts stops by blast
qed

text \<open>The supervisor of \<open>ex_dyn\<close> starts a child and restarts it when it is killed.\<close>

definition ex_dyn_started :: "dyn_sup \<times> runtime" where
  "ex_dyn_started = snd (do_start_child (\<lambda>_. []) (ex_dyn_pid 2) ex_dyn_spec (dyn_sup_new dyn_opts_default, dw_rt ex_dyn))"

definition ex_dyn_restarted :: "dyn_sup \<times> runtime" where
  "ex_dyn_restarted =
    snd (dyn_handle (\<lambda>_. []) (ex_dyn_pid 2) 7 (Some (PSystem (Down 0 (ex_dyn_pid 3) Killed))) ex_dyn_started)"

theorem dynamic_supervisor_invariant_witness:
  "\<exists>log. dyn_reach dyn_opts_default log 7 (fst ex_dyn_restarted) (snd ex_dyn_restarted) \<and> log = [7] \<and>
     length (filter (\<lambda>x. 7 - secs 5 < x \<and> x \<le> 7) log) \<le> 3 \<and> hm_keys (ds_children (fst ex_dyn_restarted)) = [ex_dyn_pid 4]"
proof -
  have next_spawn: "rt_next_ref (snd (rt_spawn v)) = rt_next_ref v" for v by (simp add: rt_spawn_def split_def Let_def)
  have room: "spec_room v ex_dyn_spec" if "rt_next_ref v < - 1" for v
    using that by (simp add: spec_room_def ex_dyn_spec_def child_spec_new_def next_spawn)
  have "rt_next_ref (dw_rt ex_dyn) < - 1" "rt_next_ref (snd ex_dyn_started) < - 1" by code_simp+
  note room1 = room [OF this(1)] and room2 = room [OF this(2)]
  have r1: "dyn_reach dyn_opts_default [] 0 (fst ex_dyn_started) (snd ex_dyn_started)"
    by (rule dyn_reach.start_child [OF dyn_reach.start room1, where res = "fst (do_start_child (\<lambda>_. []) (ex_dyn_pid 2) ex_dyn_spec
        (dyn_sup_new dyn_opts_default, dw_rt ex_dyn))"]) (simp add: ex_dyn_started_def)
  have specs: "spec_room (snd ex_dyn_started) (dy_spec c)" if "hm_get (ds_children (fst ex_dyn_started)) p = Some c" for p c
    using do_start_child_specs [OF that [unfolded ex_dyn_started_def]] room2 by (simp add: dyn_sup_new_def)
  have "dyn_reach dyn_opts_default (if new_child (fst ex_dyn_started) (fst ex_dyn_restarted) then [] @ [7] else []) 7
      (fst ex_dyn_restarted) (snd ex_dyn_restarted)"
    by (rule dyn_reach.message [OF r1 specs, where go = "fst (dyn_handle (\<lambda>_. []) (ex_dyn_pid 2) 7
        (Some (PSystem (Down 0 (ex_dyn_pid 3) Killed))) ex_dyn_started)"]) (simp_all add: ex_dyn_restarted_def)
  moreover have keys: "hm_keys (ds_children (fst ex_dyn_restarted)) = [ex_dyn_pid 4]" "hm_keys (ds_children (fst ex_dyn_started)) = [ex_dyn_pid 3]"
    by code_simp+
  moreover have "new_child (fst ex_dyn_started) (fst ex_dyn_restarted)"
  proof -
    have "ex_dyn_pid 4 \<in> dom (hm_get (ds_children (fst ex_dyn_restarted)))" "ex_dyn_pid 4 \<notin> dom (hm_get (ds_children (fst ex_dyn_started)))"
      by (simp_all flip: set_hm_keys add: keys ex_dyn_pid_def)
    then show ?thesis unfolding new_child_def by (metis domD domIff option.distinct(1))
  qed
  ultimately have "dyn_reach dyn_opts_default [7] 7 (fst ex_dyn_restarted) (snd ex_dyn_restarted)" by simp
  with keys dynamic_supervisor_invariant [OF this, of 7] show ?thesis by (auto simp: dyn_opts_default_def)
qed
end
