(* ===== verification/GenServer.thy ===== *)
theory GenServer
  imports Via Codec
begin

text \<open>
  Server processes (\<open>gen_server/server.rs\<close>, \<open>types.rs\<close>, \<open>traits.rs\<close>, \<open>protocol.rs\<close>): starting, the loop one
  message at a time, and the calls of clients, on the model of the runtime.  The callbacks of the user
  act on the server's state and on the runtime; they and the codecs of their messages are arguments, as
  is the serialisation library, the record \<open>gs_wire\<close>.
\<close>

section \<open>Types\<close>

record gs_from =
  gf_pid :: pid
  gf_reference :: ref

datatype 's gs_init = InitOk 's | InitContinue 's "byte list" | InitTimeout 's int | InitIgnore | InitStop exit_reason

datatype 'r gs_reply =
    ReplyOk 'r | ReplyContinue 'r "byte list" | ReplyTimeout 'r int | ReplyNone
  | ReplyStop exit_reason 'r | ReplyStopNone exit_reason

datatype gs_status = StatusOk | StatusContinue "byte list" | StatusTimeout int | StatusStop exit_reason

text \<open>The conversions from a result whose error can be shown.\<close>

definition reply_of_result :: "('e \<Rightarrow> string) \<Rightarrow> 'e + 'r gs_reply \<Rightarrow> 'r gs_reply" where
  "reply_of_result shown r = (case r of Inr reply \<Rightarrow> reply | Inl e \<Rightarrow> ReplyStopNone (Error (shown e)))"

definition status_of_result :: "('e \<Rightarrow> string) \<Rightarrow> 'e + gs_status \<Rightarrow> gs_status" where
  "status_of_result shown r = (case r of Inr status \<Rightarrow> status | Inl e \<Rightarrow> StatusStop (Error (shown e)))"

datatype gs_message =
    GsCall gs_from "byte list" | GsCast "byte list" | GsReply ref "byte list"
  | GsStop exit_reason "gs_from option" | GsTimeout | GsContinue "byte list"

datatype gs_error =
    GsIgnore | GsInitStop exit_reason | GsNotFound | GsTimedOut | GsStopped exit_reason
  | GsDecode decode_error | GsAlreadyStarted

section \<open>Envelopes\<close>

text \<open>What the serialisation library provides: encoders, and decoders that may fail.\<close>

record gs_wire =
  gw_tagged :: "string \<times> byte list \<Rightarrow> byte list"
  gw_untagged :: "payload \<Rightarrow> (string \<times> byte list) option"
  gw_call :: "gs_from \<times> byte list \<Rightarrow> byte list"
  gw_uncall :: "byte list \<Rightarrow> (gs_from \<times> byte list) option"
  gw_cast :: "byte list \<Rightarrow> byte list"
  gw_uncast :: "byte list \<Rightarrow> byte list option"
  gw_message :: "gs_message \<Rightarrow> byte list"
  gw_unmessage :: "payload \<Rightarrow> gs_message option"
  gw_string :: "string \<Rightarrow> byte list"
  gw_unit :: "byte list"

definition gen_call_tag :: string where "gen_call_tag = ''$gen_call''"
definition gen_cast_tag :: string where "gen_cast_tag = ''$gen_cast''"

definition encode_gen_call_envelope :: "gs_wire \<Rightarrow> gs_from \<Rightarrow> byte list \<Rightarrow> byte list" where
  "encode_gen_call_envelope W origin request = gw_tagged W (gen_call_tag, gw_call W (origin, request))"

definition encode_gen_cast_envelope :: "gs_wire \<Rightarrow> byte list \<Rightarrow> byte list" where
  "encode_gen_cast_envelope W request = gw_tagged W (gen_cast_tag, gw_cast W request)"

definition decode_gen_call_envelope :: "gs_wire \<Rightarrow> payload \<Rightarrow> (gs_from \<times> byte list) option" where
  "decode_gen_call_envelope W data =
    (case gw_untagged W data of
       None \<Rightarrow> None
     | Some (tag, payload) \<Rightarrow> if tag \<noteq> gen_call_tag then None else gw_uncall W payload)"

definition decode_gen_cast_envelope :: "gs_wire \<Rightarrow> payload \<Rightarrow> byte list option" where
  "decode_gen_cast_envelope W data =
    (case gw_untagged W data of
       None \<Rightarrow> None
     | Some (tag, payload) \<Rightarrow> if tag \<noteq> gen_cast_tag then None else gw_uncast W payload)"

definition encode_reply :: "gs_wire \<Rightarrow> ref \<Rightarrow> byte list \<Rightarrow> byte list" where
  "encode_reply W r payload = gw_message W (GsReply r payload)"

definition encode_stop :: "gs_wire \<Rightarrow> exit_reason \<Rightarrow> gs_from option \<Rightarrow> byte list" where
  "encode_stop W reason origin = gw_message W (GsStop reason origin)"

definition encode_timeout :: "gs_wire \<Rightarrow> byte list" where
  "encode_timeout W = gw_message W GsTimeout"

definition encode_continue :: "gs_wire \<Rightarrow> byte list \<Rightarrow> byte list" where
  "encode_continue W arg = gw_message W (GsContinue arg)"

section \<open>The server\<close>

text \<open>The tasks a server has scheduled are kept with the process they send to; \<open>None\<close> is a task without a
  delay.\<close>

record gs_world =
  gsw_rt :: runtime
  gsw_tasks :: "(pid \<times> byte list \<times> int option) list"

record ('s, 'c, 'k, 'i, 'r) gs_callbacks =
  gc_call :: "'c \<Rightarrow> gs_from \<Rightarrow> 's \<times> runtime \<Rightarrow> 'r gs_reply \<times> 's \<times> runtime"
  gc_cast :: "'k \<Rightarrow> 's \<times> runtime \<Rightarrow> gs_status \<times> 's \<times> runtime"
  gc_info :: "'i \<Rightarrow> 's \<times> runtime \<Rightarrow> gs_status \<times> 's \<times> runtime"
  gc_raw_info :: "payload \<Rightarrow> 's \<times> runtime \<Rightarrow> gs_status \<times> 's \<times> runtime"
  gc_timeout :: "'s \<times> runtime \<Rightarrow> gs_status \<times> 's \<times> runtime"
  gc_continue :: "byte list \<Rightarrow> 's \<times> runtime \<Rightarrow> gs_status \<times> 's \<times> runtime"
  gc_terminate :: "exit_reason \<Rightarrow> 's \<times> runtime \<Rightarrow> 's \<times> runtime"
  gc_dec_call :: "byte list \<Rightarrow> decode_error + 'c"
  gc_dec_cast :: "byte list \<Rightarrow> decode_error + 'k"
  gc_dec_info :: "payload \<Rightarrow> 'i option"
  gc_enc_reply :: "'r \<Rightarrow> byte list"
  gc_shown :: "decode_error \<Rightarrow> string"
  gc_debug :: "exit_reason \<Rightarrow> string"

definition gs_send_reply :: "gs_wire \<Rightarrow> gs_from \<Rightarrow> byte list \<Rightarrow> gs_world \<Rightarrow> gs_world" where
  "gs_send_reply W origin bytes w =
    w\<lparr> gsw_rt := snd (rt_send_raw (gf_pid origin) (PData (encode_reply W (gf_reference origin) bytes)) (gsw_rt w)) \<rparr>"

definition gs_send_error :: "gs_wire \<Rightarrow> (exit_reason \<Rightarrow> string) \<Rightarrow> gs_from \<Rightarrow> exit_reason \<Rightarrow> gs_world \<Rightarrow> gs_world" where
  "gs_send_error W debug origin reason w = gs_send_reply W origin (gw_string W (''stopped: '' @ debug reason)) w"

definition schedule_timeout :: "gs_wire \<Rightarrow> pid \<Rightarrow> int \<Rightarrow> gs_world \<Rightarrow> gs_world" where
  "schedule_timeout W me d w = w\<lparr> gsw_tasks := gsw_tasks w @ [(me, encode_timeout W, Some d)] \<rparr>"

definition schedule_continue :: "gs_wire \<Rightarrow> pid \<Rightarrow> byte list \<Rightarrow> gs_world \<Rightarrow> gs_world" where
  "schedule_continue W me arg w = w\<lparr> gsw_tasks := gsw_tasks w @ [(me, encode_continue W arg, None)] \<rparr>"

text \<open>A scheduled task runs.\<close>

definition gs_fire :: "nat \<Rightarrow> gs_world \<Rightarrow> gs_world" where
  "gs_fire i w =
    (if i < length (gsw_tasks w) then
       (case gsw_tasks w ! i of (p, bytes, _) \<Rightarrow>
         w\<lparr> gsw_rt := snd (rt_send_raw p (PData bytes) (gsw_rt w)), gsw_tasks := take i (gsw_tasks w) @ drop (Suc i) (gsw_tasks w) \<rparr>)
     else w)"

definition handle_call_reply :: "gs_wire \<Rightarrow> ('s, 'c, 'k, 'i, 'r) gs_callbacks \<Rightarrow> pid \<Rightarrow> gs_from \<Rightarrow> 'r gs_reply \<Rightarrow> gs_world \<Rightarrow>
    exit_reason option \<times> gs_world" where
  "handle_call_reply W cb me origin reply w =
    (case reply of
       ReplyOk v \<Rightarrow> (None, gs_send_reply W origin (gc_enc_reply cb v) w)
     | ReplyContinue v arg \<Rightarrow> (None, schedule_continue W me arg (gs_send_reply W origin (gc_enc_reply cb v) w))
     | ReplyTimeout v d \<Rightarrow> (None, schedule_timeout W me d (gs_send_reply W origin (gc_enc_reply cb v) w))
     | ReplyNone \<Rightarrow> (None, w)
     | ReplyStop reason v \<Rightarrow> (Some reason, gs_send_reply W origin (gc_enc_reply cb v) w)
     | ReplyStopNone reason \<Rightarrow> (Some reason, gs_send_error W (gc_debug cb) origin reason w))"

definition handle_status :: "gs_wire \<Rightarrow> pid \<Rightarrow> gs_status \<Rightarrow> gs_world \<Rightarrow> exit_reason option \<times> gs_world" where
  "handle_status W me status w =
    (case status of
       StatusOk \<Rightarrow> (None, w)
     | StatusContinue arg \<Rightarrow> (None, schedule_continue W me arg w)
     | StatusTimeout d \<Rightarrow> (None, schedule_timeout W me d w)
     | StatusStop reason \<Rightarrow> (Some reason, w))"

text \<open>A callback that gives a status, and what the loop does with it.  The first component is the reason
  with which the loop is left, after \<open>terminate\<close> has been called with it.\<close>

definition gs_leave :: "('s, 'c, 'k, 'i, 'r) gs_callbacks \<Rightarrow> exit_reason option \<Rightarrow> 's \<Rightarrow> gs_world \<Rightarrow>
    exit_reason option \<times> 's \<times> gs_world" where
  "gs_leave cb stop s w =
    (case stop of
       None \<Rightarrow> (None, s, w)
     | Some reason \<Rightarrow> (let (s1, rt) = gc_terminate cb reason (s, gsw_rt w) in (Some reason, s1, w\<lparr> gsw_rt := rt \<rparr>)))"

definition gs_status_step :: "gs_wire \<Rightarrow> ('s, 'c, 'k, 'i, 'r) gs_callbacks \<Rightarrow> pid \<Rightarrow>
    ('s \<times> runtime \<Rightarrow> gs_status \<times> 's \<times> runtime) \<Rightarrow> 's \<Rightarrow> gs_world \<Rightarrow> exit_reason option \<times> 's \<times> gs_world" where
  "gs_status_step W cb me f s w =
    (let (status, s1, rt) = f (s, gsw_rt w); (stop, w1) = handle_status W me status (w\<lparr> gsw_rt := rt \<rparr>) in gs_leave cb stop s1 w1)"

definition gs_info :: "gs_wire \<Rightarrow> ('s, 'c, 'k, 'i, 'r) gs_callbacks \<Rightarrow> pid \<Rightarrow> payload \<Rightarrow> 's \<Rightarrow> gs_world \<Rightarrow>
    exit_reason option \<times> 's \<times> gs_world" where
  "gs_info W cb me raw s w =
    (case gc_dec_info cb raw of
       Some msg \<Rightarrow> gs_status_step W cb me (gc_info cb msg) s w
     | None \<Rightarrow> gs_status_step W cb me (gc_raw_info cb raw) s w)"

definition gs_protocol :: "gs_wire \<Rightarrow> ('s, 'c, 'k, 'i, 'r) gs_callbacks \<Rightarrow> pid \<Rightarrow> payload \<Rightarrow> gs_message \<Rightarrow> 's \<Rightarrow> gs_world \<Rightarrow>
    exit_reason option \<times> 's \<times> gs_world" where
  "gs_protocol W cb me raw msg s w =
    (case msg of
       GsStop reason origin \<Rightarrow>
         gs_leave cb (Some reason) s (case origin of Some f \<Rightarrow> gs_send_reply W f (gw_unit W) w | None \<Rightarrow> w)
     | GsTimeout \<Rightarrow> gs_status_step W cb me (gc_timeout cb) s w
     | GsContinue arg \<Rightarrow> gs_status_step W cb me (gc_continue cb arg) s w
     | GsReply _ _ \<Rightarrow> (None, s, w)
     | _ \<Rightarrow>
        (case gc_dec_info cb raw of
           Some i \<Rightarrow> gs_status_step W cb me (gc_info cb i) s w
         | None \<Rightarrow> (None, s, w)))"

definition gs_envelope_call :: "gs_wire \<Rightarrow> ('s, 'c, 'k, 'i, 'r) gs_callbacks \<Rightarrow> pid \<Rightarrow> gs_from \<Rightarrow> byte list \<Rightarrow> 's \<Rightarrow> gs_world \<Rightarrow>
    exit_reason option \<times> 's \<times> gs_world" where
  "gs_envelope_call W cb me origin request s w =
    (case decode_tag request of
       Inl e \<Rightarrow> (None, s, gs_send_error W (gc_debug cb) origin (Error (gc_shown cb e)) w)
     | Inr (_, payload) \<Rightarrow>
        (case gc_dec_call cb payload of
           Inl e \<Rightarrow> (None, s, gs_send_error W (gc_debug cb) origin (Error (gc_shown cb e)) w)
         | Inr msg \<Rightarrow>
            (let (reply, s1, rt) = gc_call cb msg origin (s, gsw_rt w);
                 (stop, w1) = handle_call_reply W cb me origin reply (w\<lparr> gsw_rt := rt \<rparr>)
             in gs_leave cb stop s1 w1)))"

definition gs_envelope_cast :: "gs_wire \<Rightarrow> ('s, 'c, 'k, 'i, 'r) gs_callbacks \<Rightarrow> pid \<Rightarrow> byte list \<Rightarrow> 's \<Rightarrow> gs_world \<Rightarrow>
    exit_reason option \<times> 's \<times> gs_world" where
  "gs_envelope_cast W cb me request s w =
    (case decode_tag request of
       Inl _ \<Rightarrow> (None, s, w)
     | Inr (_, payload) \<Rightarrow>
        (case gc_dec_cast cb payload of
           Inl _ \<Rightarrow> (None, s, w)
         | Inr msg \<Rightarrow> gs_status_step W cb me (gc_cast cb msg) s w))"

text \<open>One message; a closed mailbox ends the loop with \<open>Normal\<close>.\<close>

definition gs_handle :: "gs_wire \<Rightarrow> ('s, 'c, 'k, 'i, 'r) gs_callbacks \<Rightarrow> pid \<Rightarrow> payload option \<Rightarrow> 's \<Rightarrow> gs_world \<Rightarrow>
    exit_reason option \<times> 's \<times> gs_world" where
  "gs_handle W cb me msg s w =
    (case msg of
       None \<Rightarrow> gs_leave cb (Some Normal) s w
     | Some raw \<Rightarrow>
        (case decode_gen_call_envelope W raw of
           Some (origin, request) \<Rightarrow> gs_envelope_call W cb me origin request s w
         | None \<Rightarrow>
            (case decode_gen_cast_envelope W raw of
               Some request \<Rightarrow> gs_envelope_cast W cb me request s w
             | None \<Rightarrow>
                (case gw_unmessage W raw of
                   Some m \<Rightarrow> gs_protocol W cb me raw m s w
                 | None \<Rightarrow> gs_info W cb me raw s w))))"

text \<open>One round of the loop.  Waiting is \<open>None\<close>.\<close>

definition gs_round :: "gs_wire \<Rightarrow> ('s, 'c, 'k, 'i, 'r) gs_callbacks \<Rightarrow> pid \<Rightarrow> 's \<Rightarrow> gs_world \<Rightarrow>
    (exit_reason option \<times> 's \<times> gs_world) option" where
  "gs_round W cb me s w =
    (case ctx_recv me (gsw_rt w) of
       (None, _) \<Rightarrow> None
     | (Some raw, rt) \<Rightarrow> Some (gs_handle W cb me (Some raw) s (w\<lparr> gsw_rt := rt \<rparr>)))"

section \<open>Starting and ending\<close>

text \<open>From the result of \<open>init\<close> to the loop: what the starter is told, and the state with which the loop is
  entered, if it is.  \<open>via\<close> answers for the user's registries.\<close>

definition gs_begin :: "gs_wire \<Rightarrow> (string \<Rightarrow> pid \<Rightarrow> bool) \<Rightarrow> pid \<Rightarrow> name option \<Rightarrow> 's gs_init \<Rightarrow> gs_world \<Rightarrow>
    (gs_error + unit) \<times> 's option \<times> gs_world" where
  "gs_begin W via me nm init w =
    (let enter = (\<lambda>s schedule.
        let (free, rt) = (case nm of Some n \<Rightarrow> name_register via n me (gsw_rt w) | None \<Rightarrow> (True, gsw_rt w))
        in if free then (Inr (), Some s, schedule (w\<lparr> gsw_rt := rt \<rparr>)) else (Inl GsAlreadyStarted, None, w\<lparr> gsw_rt := rt \<rparr>))
     in case init of
          InitOk s \<Rightarrow> enter s (\<lambda>w. w)
        | InitContinue s arg \<Rightarrow> enter s (schedule_continue W me arg)
        | InitTimeout s d \<Rightarrow> enter s (schedule_timeout W me d)
        | InitIgnore \<Rightarrow> (Inl GsIgnore, None, w)
        | InitStop reason \<Rightarrow> (Inl (GsInitStop reason), None, w))"

text \<open>After the loop the name is removed and the task ends; \<open>custom\<close> is an exit reason the callbacks have
  set for the process.\<close>

definition gs_end :: "pid \<Rightarrow> name option \<Rightarrow> exit_reason option \<Rightarrow> gs_world \<Rightarrow> gs_world" where
  "gs_end me nm custom w =
    w\<lparr> gsw_rt := rt_task_end me custom (case nm of Some n \<Rightarrow> name_unregister n (gsw_rt w) | None \<Rightarrow> gsw_rt w) \<rparr>"

text \<open>Starting a server: the process, and the answer once \<open>init\<close> is through; the answer is missing when
  the process died in it.\<close>

definition gs_spawn :: "bool \<Rightarrow> pid option \<Rightarrow> gs_world \<Rightarrow> (gs_error + pid) \<times> gs_world" where
  "gs_spawn link caller w =
    (if link then
       (case caller of
          None \<Rightarrow> (Inl (GsInitStop (Error ''start_link requires caller context'')), w)
        | Some parent \<Rightarrow> (let (p, rt) = rt_spawn_link parent (gsw_rt w) in (Inr p, w\<lparr> gsw_rt := rt \<rparr>)))
     else (let (p, rt) = rt_spawn (gsw_rt w) in (Inr p, w\<lparr> gsw_rt := rt \<rparr>)))"

definition gs_start :: "pid \<Rightarrow> (gs_error + unit) option \<Rightarrow> gs_error + pid" where
  "gs_start p answer =
    (case answer of
       Some (Inr _) \<Rightarrow> Inr p
     | Some (Inl e) \<Rightarrow> Inl e
     | None \<Rightarrow> Inl (GsInitStop (Error ''init channel closed'')))"

section \<open>Clients\<close>

definition gs_call_send :: "gs_wire \<Rightarrow> (string \<Rightarrow> pid option) \<Rightarrow> server_ref \<Rightarrow> byte list \<Rightarrow> pid \<Rightarrow> gs_world \<Rightarrow>
    (gs_error + ref) \<times> gs_world" where
  "gs_call_send W via server msg me w =
    (case resolve_ref via server (gsw_rt w) of
       None \<Rightarrow> (Inl GsNotFound, w)
     | Some p \<Rightarrow>
        (let (r, rt) = rt_new_ref (gsw_rt w);
             envelope = encode_gen_call_envelope W \<lparr> gf_pid = me, gf_reference = r \<rparr> msg
         in (Inr r, w\<lparr> gsw_rt := snd (rt_send_raw p (PData envelope) rt) \<rparr>)))"

text \<open>Waiting for the reply: the messages that arrive before the timeout, in order, and whether the mailbox
  is then closed.  Each one is taken; what is left of them is returned.\<close>

definition decode_reply :: "(byte list \<Rightarrow> decode_error + 'r) \<Rightarrow> byte list \<Rightarrow> gs_error + 'r" where
  "decode_reply dec payload =
    (case decode_tag payload of
       Inl e \<Rightarrow> Inl (GsDecode e)
     | Inr (_, reply_payload) \<Rightarrow> (case dec reply_payload of Inl e \<Rightarrow> Inl (GsDecode e) | Inr reply \<Rightarrow> Inr reply))"

fun wait_for_reply :: "gs_wire \<Rightarrow> (byte list \<Rightarrow> decode_error + 'r) \<Rightarrow> ref \<Rightarrow> bool \<Rightarrow> payload list \<Rightarrow>
    (gs_error + 'r) \<times> payload list" where
  "wait_for_reply W dec r closed [] = (Inl (if closed then GsStopped Normal else GsTimedOut), [])"
| "wait_for_reply W dec r closed (raw # raws) =
    (case gw_unmessage W raw of
       Some (GsReply r' payload) \<Rightarrow>
         if r' = r then (decode_reply dec payload, raws) else wait_for_reply W dec r closed raws
     | _ \<Rightarrow> wait_for_reply W dec r closed raws)"

text \<open>The second half of a call, on the mailbox of the caller as it is when the wait is over.\<close>

definition gs_call_wait :: "gs_wire \<Rightarrow> (byte list \<Rightarrow> decode_error + 'r) \<Rightarrow> ref \<Rightarrow> pid \<Rightarrow> gs_world \<Rightarrow> (gs_error + 'r) \<times> gs_world" where
  "gs_call_wait W dec r me w =
    (case rt_get (gsw_rt w) me of
       None \<Rightarrow> (Inl (GsStopped Normal), w)
     | Some q \<Rightarrow>
        (let (res, left) = wait_for_reply W dec r (pr_closed q) (pr_mailbox q)
         in (res, w\<lparr> gsw_rt := rt_update me (\<lambda>q. q\<lparr> pr_mailbox := left \<rparr>) (gsw_rt w) \<rparr>)))"

definition gs_cast :: "gs_wire \<Rightarrow> (string \<Rightarrow> pid option) \<Rightarrow> server_ref \<Rightarrow> byte list \<Rightarrow> gs_world \<Rightarrow> gs_world" where
  "gs_cast W via server msg w =
    (case resolve_ref via server (gsw_rt w) of
       None \<Rightarrow> w
     | Some p \<Rightarrow> w\<lparr> gsw_rt := snd (rt_send_raw p (PData (encode_gen_cast_envelope W msg)) (gsw_rt w)) \<rparr>)"

definition gs_stop_server :: "gs_wire \<Rightarrow> (string \<Rightarrow> pid option) \<Rightarrow> server_ref \<Rightarrow> exit_reason \<Rightarrow> gs_world \<Rightarrow>
    (gs_error + unit) \<times> gs_world" where
  "gs_stop_server W via server reason w =
    (case resolve_ref via server (gsw_rt w) of
       None \<Rightarrow> (Inl GsNotFound, w)
     | Some p \<Rightarrow>
        (case rt_send_raw p (PData (encode_stop W reason None)) (gsw_rt w) of
           (Inl _, rt) \<Rightarrow> (Inl GsNotFound, w\<lparr> gsw_rt := rt \<rparr>)
         | (Inr _, rt) \<Rightarrow> (Inr (), w\<lparr> gsw_rt := rt \<rparr>)))"

section \<open>What is assumed of the serialisation library\<close>

text \<open>Decoding undoes encoding.  A message does not read as an envelope: an envelope starts with the length
  of its tag, a message with the number of its variant.  A string is its length and its bytes.\<close>

definition wire_ok :: "gs_wire \<Rightarrow> bool" where
  "wire_ok W \<longleftrightarrow>
     (\<forall>t. gw_untagged W (PData (gw_tagged W t)) = Some t) \<and>
     (\<forall>x. gw_uncall W (gw_call W x) = Some x) \<and>
     (\<forall>x. gw_uncast W (gw_cast W x) = Some x) \<and>
     (\<forall>m. gw_unmessage W (PData (gw_message W m)) = Some m) \<and>
     (\<forall>m tag x. gw_untagged W (PData (gw_message W m)) = Some (tag, x) \<longrightarrow> tag \<noteq> gen_call_tag \<and> tag \<noteq> gen_cast_tag) \<and>
     (\<forall>s. gw_string W s = varint (length s) @ map of_char s)"

lemma wire_okD:
  assumes "wire_ok W"
  shows "gw_untagged W (PData (gw_tagged W t)) = Some t"
    "gw_uncall W (gw_call W x) = Some x" "gw_uncast W (gw_cast W y) = Some y"
    "gw_unmessage W (PData (gw_message W m)) = Some m"
    "gw_untagged W (PData (gw_message W m)) = Some (tag, z) \<Longrightarrow> tag \<noteq> gen_call_tag \<and> tag \<noteq> gen_cast_tag"
    "gw_string W s = varint (length s) @ map of_char s"
  using assms unfolding wire_ok_def by blast+

lemma decode_envelopes:
  assumes "wire_ok W"
  shows "decode_gen_call_envelope W (PData (encode_gen_call_envelope W origin request)) = Some (origin, request)"
    "decode_gen_call_envelope W (PData (encode_gen_cast_envelope W request)) = None"
    "decode_gen_cast_envelope W (PData (encode_gen_cast_envelope W request)) = Some request"
    "decode_gen_call_envelope W (PData (gw_message W m)) = None"
    "decode_gen_cast_envelope W (PData (gw_message W m)) = None"
  using wire_okD [OF assms]
  by (auto simp: decode_gen_call_envelope_def encode_gen_call_envelope_def decode_gen_cast_envelope_def
      encode_gen_cast_envelope_def gen_call_tag_def gen_cast_tag_def split: option.split)

lemma gs_handle_encoded:
  assumes "wire_ok W"
  shows "gs_handle W cb me (Some (PData (encode_gen_call_envelope W origin request))) s w = gs_envelope_call W cb me origin request s w"
    "gs_handle W cb me (Some (PData (encode_gen_cast_envelope W request))) s w = gs_envelope_cast W cb me request s w"
    "gs_handle W cb me (Some (PData (gw_message W m))) s w = gs_protocol W cb me (PData (gw_message W m)) m s w"
  using wire_okD(4) [OF assms] decode_envelopes [OF assms] by (simp_all add: gs_handle_def)

section \<open>What a reply does to the caller\<close>

lemma rt_local_send_raw' [simp]: "rt_local (snd (rt_send_raw p d s)) q = rt_local s q"
  by (simp add: rt_send_raw_def rt_local_def rt_handle_send_def rt_update_def split: option.split)

definition reply_bytes :: "gs_wire \<Rightarrow> ('s, 'c, 'k, 'i, 'r) gs_callbacks \<Rightarrow> 'r gs_reply \<Rightarrow> byte list option" where
  "reply_bytes W cb reply =
    (case reply of
       ReplyOk v \<Rightarrow> Some (gc_enc_reply cb v) | ReplyContinue v _ \<Rightarrow> Some (gc_enc_reply cb v)
     | ReplyTimeout v _ \<Rightarrow> Some (gc_enc_reply cb v) | ReplyNone \<Rightarrow> None | ReplyStop _ v \<Rightarrow> Some (gc_enc_reply cb v)
     | ReplyStopNone reason \<Rightarrow> Some (gw_string W (''stopped: '' @ gc_debug cb reason)))"

lemma schedule_rt [simp]:
  "gsw_rt (schedule_timeout W me d w) = gsw_rt w" "gsw_rt (schedule_continue W me arg w) = gsw_rt w"
  by (simp_all add: schedule_timeout_def schedule_continue_def)

lemma handle_call_reply_rt:
  "gsw_rt (snd (handle_call_reply W cb me origin reply w)) =
    (case reply_bytes W cb reply of
       Some bytes \<Rightarrow> snd (rt_send_raw (gf_pid origin) (PData (encode_reply W (gf_reference origin) bytes)) (gsw_rt w))
     | None \<Rightarrow> gsw_rt w)"
  by (simp add: handle_call_reply_def reply_bytes_def gs_send_reply_def gs_send_error_def split: gs_reply.split)

lemma wait_for_reply_skip:
  assumes "\<forall>raw \<in> set xs. \<forall>bytes. gw_unmessage W raw \<noteq> Some (GsReply r bytes)"
  shows "wait_for_reply W dec r closed (xs @ ys) = wait_for_reply W dec r closed ys"
  using assms by (induction xs) (auto split: option.split gs_message.split)

text \<open>What a call ends with: the value of the reply, a timeout when there is none.  A server that stops without a
  reply sends an untagged text, which the caller cannot read: the length of the text and its start are taken for
  the length of a tag, which is longer than the message unless the text has 32 KiB and more.\<close>

definition call_outcome :: "gs_wire \<Rightarrow> ('s, 'c, 'k, 'i, 'r) gs_callbacks \<Rightarrow> (byte list \<Rightarrow> decode_error + 'r) \<Rightarrow> 'r gs_reply \<Rightarrow>
    gs_error + 'r" where
  "call_outcome W cb dec reply =
    (case reply of
       ReplyOk v \<Rightarrow> Inr v | ReplyContinue v _ \<Rightarrow> Inr v | ReplyTimeout v _ \<Rightarrow> Inr v | ReplyStop _ v \<Rightarrow> Inr v
     | ReplyNone \<Rightarrow> Inl GsTimedOut
     | ReplyStopNone reason \<Rightarrow>
         if length (''stopped: '' @ gc_debug cb reason) < 2 ^ 15 then Inl (GsDecode (InvalidData ''tag length exceeds message''))
         else decode_reply dec (gw_string W (''stopped: '' @ gc_debug cb reason)))"

definition reply_codec_ok :: "('s, 'c, 'k, 'i, 'r) gs_callbacks \<Rightarrow> (byte list \<Rightarrow> decode_error + 'r) \<Rightarrow> bool" where
  "reply_codec_ok cb dec \<longleftrightarrow>
    (\<forall>v. \<exists>tag body. gc_enc_reply cb v = encode_with_tag tag body \<and> utf8_valid tag \<and> length tag < 2 ^ 16 \<and> dec body = Inr v)"

lemma of_le16_nat:
  assumes "a < 256" "b < 256"
  shows "unat (of_le16 (word_of_nat a) (word_of_nat b)) = a + 256 * b"
proof -
  define n where "n = a + 256 * b"
  have n: "n < 2 ^ 16" "a = n mod 256" "b = n div 256" using assms by (simp_all add: n_def)
  have w: "unat (word_of_nat n :: 16 word) = n" using n(1) by (simp add: unat_of_nat take_bit_eq_mod)
  have "unat (ucast (word_of_nat n :: 16 word) :: byte) = unat (word_of_nat a :: byte)"
    by (simp only: unsigned_ucast_eq w) (simp add: unat_of_nat take_bit_eq_mod n(2))
  then have "(ucast (word_of_nat n :: 16 word) :: byte) = word_of_nat a" by (simp only: word_unat_eq_iff)
  moreover have "unat (ucast (drop_bit 8 (word_of_nat n :: 16 word)) :: byte) = unat (word_of_nat b :: byte)"
    using n(1) assms(2) [unfolded n(3)]
    by (simp only: unsigned_ucast_eq unsigned_drop_bit_eq w) (simp add: unat_of_nat take_bit_eq_mod drop_bit_eq_div n(3))
  then have "(ucast (drop_bit 8 (word_of_nat n :: 16 word)) :: byte) = word_of_nat b" by (simp only: word_unat_eq_iff)
  ultimately show ?thesis using of_le16_le16 [of "word_of_nat n"] w by (simp add: n_def)
qed

lemma varint_as_tag_length:
  assumes "n < 2 ^ 15" "length xs = n" "xs = 0x73 # ys"
  shows "decode_tag (varint n @ xs) = Inl (InvalidData ''tag length exceeds message'')"
proof -
  have longer: "decode_tag (word_of_nat a # word_of_nat b # zs) = Inl (InvalidData ''tag length exceeds message'')"
    if "a < 256" "b < 256" "length zs < a + 256 * b" for a b zs
    using that(3) by (simp add: decode_tag_def Let_def of_le16_nat [OF that(1,2)])
  have n: "n < 32768" using assms(1) by simp
  consider "n < 128" | "128 \<le> n" "n < 16384" | "16384 \<le> n" by linarith
  then show ?thesis
  proof cases
    case 1
    have "length ys < n + 256 * 0x73" using assms(2,3) by simp
    then show ?thesis using longer [of n "0x73" ys] 1 by (simp add: varint_small assms(3))
  next
    case 2
    have "n div 128 < 256" "length xs < n mod 128 + 128 + 256 * (n div 128)"
      using assms(2) 2 mult_div_mod_eq [of 128 n] by linarith+
    then show ?thesis using longer [of "n mod 128 + 128" "n div 128" xs] by (simp add: varint_two 2)
  next
    case 3
    let ?zs = "word_of_nat (n div 16384) # xs"
    have "length ?zs < 128 + 256 * 128" using assms(2) n by simp
    also have "\<dots> \<le> n mod 128 + 128 + 256 * (n div 128 mod 128 + 128)" by (intro add_mono mult_le_mono) simp_all
    finally have "length ?zs < n mod 128 + 128 + 256 * (n div 128 mod 128 + 128)" .
    then show ?thesis using longer [of "n mod 128 + 128" "n div 128 mod 128 + 128" ?zs] 3 n by (simp add: varint_three)
  qed
qed

lemma wait_for_reply_outcome:
  assumes "wire_ok W" "reply_codec_ok cb dec"
  shows "wait_for_reply W dec r False
      (case reply_bytes W cb reply of Some bytes \<Rightarrow> [PData (encode_reply W r bytes)] | None \<Rightarrow> []) = (call_outcome W cb dec reply, [])"
proof -
  have val: "decode_reply dec (gc_enc_reply cb v) = Inr v" for v
  proof -
    obtain tag body where "gc_enc_reply cb v = encode_with_tag tag body" "utf8_valid tag" "length tag < 2 ^ 16" "dec body = Inr v"
      using assms(2) unfolding reply_codec_ok_def by blast
    then show ?thesis using tag_roundtrip by (simp add: decode_reply_def)
  qed
  have st: "decode_reply dec (gw_string W (''stopped: '' @ shown)) = Inl (GsDecode (InvalidData ''tag length exceeds message''))"
    if "length (''stopped: '' @ shown) < 2 ^ 15" for shown
    unfolding decode_reply_def wire_okD(6) [OF assms(1)]
    using varint_as_tag_length [OF that, of "map of_char (''stopped: '' @ shown)" "map of_char (''topped: '' @ shown)"] by simp
  show ?thesis
    by (cases reply) (simp_all add: reply_bytes_def call_outcome_def encode_reply_def wire_okD(4) [OF assms(1)] val st
        del: append.simps power_numeral)
qed

lemma hm_get_retain_None: "hm_get m k = None \<Longrightarrow> hm_get (hm_retain P m) k = None"
  by (induction m) (auto simp: hm_retain_def split: if_splits)

text \<open>The loop is only left through \<open>terminate\<close>.\<close>

lemma gs_leave_terminates:
  "gs_leave cb stop s w = (Some reason, s1, w1) \<Longrightarrow> \<exists>s0 rt0. (s1, gsw_rt w1) = gc_terminate cb reason (s0, rt0)"
  by (cases stop) (auto simp: gs_leave_def split: prod.splits, metis)

lemma gs_status_step_terminates:
  "gs_status_step W cb me f s w = (Some reason, s1, w1) \<Longrightarrow> \<exists>s0 rt0. (s1, gsw_rt w1) = gc_terminate cb reason (s0, rt0)"
  by (auto simp: gs_status_step_def split: prod.splits dest!: gs_leave_terminates)

lemma gs_handle_terminates:
  assumes "gs_handle W cb me msg s w = (Some reason, s1, w1)"
  shows "\<exists>s0 rt0. (s1, gsw_rt w1) = gc_terminate cb reason (s0, rt0)"
proof -
  have protocol: ?thesis if "gs_protocol W cb me raw m s w = (Some reason, s1, w1)" for raw m
    using that gs_leave_terminates gs_status_step_terminates
    by (fastforce simp: gs_protocol_def split: gs_message.splits option.splits)
  have call: ?thesis if "gs_envelope_call W cb me origin request s w = (Some reason, s1, w1)" for origin request
    using that gs_leave_terminates by (fastforce simp: gs_envelope_call_def split: sum.splits prod.splits)
  have cast: ?thesis if "gs_envelope_cast W cb me request s w = (Some reason, s1, w1)" for request
    using that gs_status_step_terminates by (fastforce simp: gs_envelope_cast_def split: sum.splits prod.splits)
  have info: ?thesis if "gs_info W cb me raw s w = (Some reason, s1, w1)" for raw
    using that gs_status_step_terminates by (fastforce simp: gs_info_def split: option.splits)
  show ?thesis
    using assms gs_leave_terminates protocol call cast info
    by (auto simp: gs_handle_def split: option.splits prod.splits)
qed
end
