(* ===== verification/Plain_Wire.thy ===== *)
theory Plain_Wire
  imports Core
begin

text \<open>
  A small self-delimiting encoding of values.  The serialisation library of the program is an argument of
  the models that send messages, and the laws assumed of it are hypotheses of their properties; this
  encoding satisfies them, so the hypotheses can hold.  A value is a list of numbers, a number a run of
  ones closed by a zero.
\<close>

definition nats_bytes :: "nat list \<Rightarrow> byte list" where
  "nats_bytes ns = concat (map (\<lambda>n. replicate n 1 @ [0]) ns)"

fun count_nats :: "nat \<Rightarrow> byte list \<Rightarrow> nat list" where
  "count_nats k [] = []"
| "count_nats k (b # bs) = (if b = 0 then k # count_nats 0 bs else count_nats (Suc k) bs)"

definition bytes_nats :: "byte list \<Rightarrow> nat list" where
  "bytes_nats bs = count_nats 0 bs"

lemma count_nats_run: "count_nats k (replicate n 1 @ 0 # bs) = (k + n) # count_nats 0 bs"
  by (induction n arbitrary: k) auto

lemma bytes_nats_bytes [simp]: "bytes_nats (nats_bytes ns) = ns"
  by (induction ns) (simp_all add: nats_bytes_def bytes_nats_def count_nats_run)

text \<open>Values: an encoder, and a decoder that returns what is left of the input.\<close>

definition enc_string :: "string \<Rightarrow> nat list" where
  "enc_string s = length s # map of_char s"

fun dec_string :: "nat list \<Rightarrow> string \<times> nat list" where
  "dec_string [] = ([], [])"
| "dec_string (n # ns) = (map char_of (take n ns), drop n ns)"

definition enc_bytes :: "byte list \<Rightarrow> nat list" where
  "enc_bytes bs = length bs # map unat bs"

fun dec_bytes :: "nat list \<Rightarrow> byte list \<times> nat list" where
  "dec_bytes [] = ([], [])"
| "dec_bytes (n # ns) = (map word_of_nat (take n ns), drop n ns)"

lemma dec_string [simp]: "dec_string (enc_string s @ ns) = (s, ns)"
  by (simp add: enc_string_def o_def)

lemma dec_bytes [simp]: "dec_bytes (enc_bytes bs @ ns) = (bs, ns)"
  by (simp add: enc_bytes_def o_def)

lemma dec_string_length: "length (fst (dec_string (n # ns))) \<le> n"
  by simp

definition enc_pid :: "pid \<Rightarrow> nat list" where
  "enc_pid p = unat (pid_id p) # unat (pid_creation p) # enc_string (pid_node p)"

fun dec_pid :: "nat list \<Rightarrow> pid \<times> nat list" where
  "dec_pid (i # c # ns) =
    (let (n, rest) = dec_string ns in (\<lparr> pid_node = n, pid_id = word_of_nat i, pid_creation = word_of_nat c \<rparr>, rest))"
| "dec_pid ns = (\<lparr> pid_node = [], pid_id = 0, pid_creation = 0 \<rparr>, ns)"

lemma dec_pid [simp]: "dec_pid (enc_pid p @ ns) = (p, ns)"
  by (simp add: enc_pid_def)

fun enc_reason :: "exit_reason \<Rightarrow> nat list" where
  "enc_reason Normal = [0]"
| "enc_reason Shutdown = [1]"
| "enc_reason (ShutdownReason s) = 2 # enc_string s"
| "enc_reason Killed = [3]"
| "enc_reason (Error s) = 4 # enc_string s"

fun dec_reason :: "nat list \<Rightarrow> exit_reason \<times> nat list" where
  "dec_reason [] = (Normal, [])"
| "dec_reason (n # ns) =
    (if n = 0 then (Normal, ns) else if n = 1 then (Shutdown, ns) else if n = 3 then (Killed, ns)
     else (let (s, rest) = dec_string ns in (if n = 2 then ShutdownReason s else Error s, rest)))"

lemma dec_reason [simp]: "dec_reason (enc_reason r @ ns) = (r, ns)"
  by (cases r) simp_all

end
