(* ===== verification/Gs_Props.thy ===== *)
theory Gs_Props
  imports GenServer Plain_Wire
begin

text \<open>
  What calls and stops of servers come to (\<open>gen_server/server.rs\<close>), over the model of \<open>GenServer\<close>, and a
  serialisation of its messages with which the hypotheses on the library hold.
\<close>

section \<open>Properties\<close>

text \<open>A callback that leaves the process of the caller alone.\<close>

definition spares :: "pid \<Rightarrow> (runtime \<Rightarrow> runtime) \<Rightarrow> bool" where
  "spares p f \<longleftrightarrow> (\<forall>rt. rt_get (f rt) p = rt_get rt p \<and> rt_local (f rt) p = rt_local rt p)"

lemma gs_leave_spares:
  assumes "\<forall>reason s. spares p (\<lambda>rt. snd (gc_terminate cb reason (s, rt)))"
  shows "rt_get (gsw_rt (snd (snd (gs_leave cb stop s w)))) p = rt_get (gsw_rt w) p"
  using assms by (simp add: gs_leave_def spares_def split_def Let_def split: option.split)

text \<open>C6. A call is answered by what the handler replies.  The request reaches the handler together with the
  caller and a fresh reference; the next round of the server and the caller's wait give the value of the
  reply, a timeout when the handler does not reply, and, when it stops without a reply, a decoding error
  instead of the reason, unless the text of the reason has almost 32 KiB, when its first bytes are skipped as a tag
  and the reply is what the rest decodes to.  Every other message that was in the caller's mailbox is gone after the wait.\<close>

theorem gen_call_answered:
  assumes wire: "wire_ok W" "reply_codec_ok cb dec"
    and send: "gs_call_send W via server msg me w = (Inr r, w1)" "resolve_ref via server (gsw_rt w) = Some p" "p \<noteq> me"
    and places: "rt_local (gsw_rt w) p" "rt_local (gsw_rt w) me"
    and procs: "rt_get (gsw_rt w) p = Some P" "pr_mailbox P = []" "\<not> pr_closed P" "rt_get (gsw_rt w) me = Some Q" "\<not> pr_closed Q"
    and fresh: "\<forall>raw \<in> set (pr_mailbox Q). \<forall>bytes. gw_unmessage W raw \<noteq> Some (GsReply r bytes)"
    and request: "decode_tag msg = Inr (tag, body)" "gc_dec_call cb body = Inr req"
    and handler: "\<forall>rt. gc_call cb req \<lparr> gf_pid = me, gf_reference = r \<rparr> (s, rt) = (reply, s1, f rt)" "spares me f"
    and ending: "\<forall>reason s. spares me (\<lambda>rt. snd (gc_terminate cb reason (s, rt)))"
  shows "\<exists>stop s2 w2. gs_round W cb p s w1 = Some (stop, s2, w2) \<and>
    (\<exists>w3. gs_call_wait W dec r me w2 = (call_outcome W cb dec reply, w3) \<and>
      rt_get (gsw_rt w3) me = Some (Q\<lparr> pr_mailbox := [] \<rparr>))"
proof -
  define env where "env = PData (encode_gen_call_envelope W \<lparr> gf_pid = me, gf_reference = r \<rparr> msg)"
  obtain rt0 where new: "rt_new_ref (gsw_rt w) = (r, rt0)" and w1: "w1 = w\<lparr> gsw_rt := snd (rt_send_raw p env rt0) \<rparr>"
    using send(1,2) by (auto simp: gs_call_send_def env_def split: prod.splits)
  have rt0: "rt_get rt0 q = rt_get (gsw_rt w) q" "rt_local rt0 q = rt_local (gsw_rt w) q" for q
    using new by (auto simp: rt_new_ref_def rt_get_def rt_local_def)
  have P1: "rt_get (gsw_rt w1) p = Some (P\<lparr> pr_mailbox := [env] \<rparr>)" and Q1: "rt_get (gsw_rt w1) me = Some Q"
    and loc1: "rt_local (gsw_rt w1) me"
    using procs(1-4) send(3) places rt0 by (simp_all add: w1 rt_get_send_raw handle_send_def)
  obtain rt1 where recv: "ctx_recv p (gsw_rt w1) = (Some env, rt1)" and Q2: "rt_get rt1 me = Some Q" and loc2: "rt_local rt1 me"
    using P1 Q1 loc1 send(3) by (auto simp: ctx_recv_def)
  let ?w = "w1\<lparr> gsw_rt := f rt1 \<rparr>"
  have f: "rt_get (f rt1) me = Some Q" "rt_local (f rt1) me" using handler(2) Q2 loc2 by (simp_all add: spares_def)
  obtain stop w2 where h: "handle_call_reply W cb p \<lparr> gf_pid = me, gf_reference = r \<rparr> reply ?w = (stop, w2)" by fastforce
  have "gs_handle W cb p (Some env) s (w1\<lparr> gsw_rt := rt1 \<rparr>) = gs_leave cb stop s1 w2"
    using handler(1) request h by (simp add: env_def gs_handle_encoded [OF wire(1)] gs_envelope_call_def)
  then have round: "gs_round W cb p s w1 = Some (gs_leave cb stop s1 w2)" using recv by (simp add: gs_round_def)
  obtain s2 stop' w4 where leave: "gs_leave cb stop s1 w2 = (stop', s2, w4)" by (metis prod.collapse)
  let ?sent = "case reply_bytes W cb reply of Some bytes \<Rightarrow> [PData (encode_reply W r bytes)] | None \<Rightarrow> []"
  have "gsw_rt w2 = (case reply_bytes W cb reply of Some bytes \<Rightarrow> snd (rt_send_raw me (PData (encode_reply W r bytes)) (f rt1))
      | None \<Rightarrow> f rt1)"
    using handle_call_reply_rt [of W cb p "\<lparr> gf_pid = me, gf_reference = r \<rparr>" reply ?w] h by (simp split: option.split)
  then have "rt_get (gsw_rt w2) me = Some (Q\<lparr> pr_mailbox := pr_mailbox Q @ ?sent \<rparr>)"
    using f procs(5) by (simp add: rt_get_send_raw handle_send_def split: option.split)
  then have Q4: "rt_get (gsw_rt w4) me = Some (Q\<lparr> pr_mailbox := pr_mailbox Q @ ?sent \<rparr>)"
    using gs_leave_spares [OF ending, of stop s1 w2] leave by simp
  have "wait_for_reply W dec r False (pr_mailbox Q @ ?sent) = (call_outcome W cb dec reply, [])"
    using wait_for_reply_outcome [OF wire] by (simp add: wait_for_reply_skip [OF fresh])
  then show ?thesis using round leave Q4 procs(5) by (simp add: gs_call_wait_def)
qed

text \<open>However a server stops, others see a normal exit.  Whatever message ends the loop, \<open>terminate\<close> gets
  the reason as the last callback; but the task then ends without a reason of its own, so watchers get a
  \<open>Down\<close> with \<open>Normal\<close>, linked processes that trap exits an \<open>Exit\<close> with \<open>Normal\<close>, and the others are not
  taken down.  The name is free again and the process is gone.\<close>

lemma server_stop_reason_lost:
  assumes stop: "gs_handle W cb me msg s w = (Some reason, s1, w1)"
    and proc: "rt_get (gsw_rt w1) me = Some P" "\<not> pr_terminated P" "distinct (pr_links P)"
    and other: "q \<noteq> me" "rt_local (gsw_rt w1) q" "rt_get (gsw_rt w1) q = Some Q" "\<not> pr_closed Q"
  shows "(\<exists>s0 rt0. (s1, gsw_rt w1) = gc_terminate cb reason (s0, rt0)) \<and>
    rt_get (gsw_rt (gs_end me (Some (NLocal n)) None w1)) me = None \<and>
    rt_whereis n (gsw_rt (gs_end me (Some (NLocal n)) None w1)) = None \<and>
    (\<exists>Q'. rt_get (gsw_rt (gs_end me (Some (NLocal n)) None w1)) q = Some Q' \<and> pr_terminated Q' = pr_terminated Q \<and>
      pr_mailbox Q' = pr_mailbox Q @
        (if q \<in> set (pr_links P) \<and> pr_trap_exit Q then [PSystem (Exit me Normal)] else []) @
        map (\<lambda>r. PSystem (Down r me Normal)) (refs_of q P))"
proof -
  let ?rt = "rt_update me (\<lambda>q. q\<lparr> pr_closed := True \<rparr>) (name_unregister (NLocal n) (gsw_rt w1))"
  let ?P = "P\<lparr> pr_closed := True \<rparr>"
  have P: "rt_get ?rt me = Some ?P" "\<not> pr_terminated ?P" "distinct (pr_links ?P)" using proc by simp_all
  have Q: "rt_get ?rt q = Some Q" "rt_local ?rt q" using other by simp_all
  have ended: "gsw_rt (gs_end me (Some (NLocal n)) None w1) = handle_process_exit me Normal ?rt"
    by (simp add: gs_end_def rt_task_end_def)
  have "\<exists>s0 rt0. (s1, gsw_rt w1) = gc_terminate cb reason (s0, rt0)"
    using gs_handle_terminates [OF stop] .
  moreover have "rt_get (handle_process_exit me Normal ?rt) me = None" by (rule process_exit_gone(1) [OF P(1,2)])
  moreover have "rt_whereis n (handle_process_exit me Normal ?rt) = None"
    using process_exit_gone(2) [OF P(1,2)] by (simp add: rt_whereis_def name_unregister_def rt_unregister_name_def hm_get_retain_None)
  moreover have "rt_get (handle_process_exit me Normal ?rt) q =
      Some (fold (monitor_effect me Normal) (refs_of q ?P) (if q \<in> set (pr_links ?P) then link_effect me Normal Q else Q))"
    using process_exit_get [OF P other(1) Q(2)] Q(1) by simp
  ultimately show ?thesis
    using other(4) by (simp add: ended monitor_effects_fields link_effect_fields is_abnormal_def refs_of_def)
qed
section \<open>A serialisation that satisfies the laws\<close>

definition enc_from :: "gs_from \<Rightarrow> nat list" where
  "enc_from f = unat (gf_reference f) # enc_pid (gf_pid f)"

fun dec_from :: "nat list \<Rightarrow> gs_from \<times> nat list" where
  "dec_from (r # ns) = (let (p, rest) = dec_pid ns in (\<lparr> gf_pid = p, gf_reference = word_of_nat r \<rparr>, rest))"
| "dec_from [] = (\<lparr> gf_pid = fst (dec_pid []), gf_reference = 0 \<rparr>, [])"

lemma dec_from [simp]: "dec_from (enc_from f @ ns) = (f, ns)"
  by (simp add: enc_from_def)

fun enc_gs_message :: "gs_message \<Rightarrow> nat list" where
  "enc_gs_message (GsCall f bs) = 0 # enc_from f @ enc_bytes bs"
| "enc_gs_message (GsCast bs) = 1 # enc_bytes bs"
| "enc_gs_message (GsReply r bs) = 2 # unat r # enc_bytes bs"
| "enc_gs_message (GsStop reason None) = 3 # enc_reason reason @ [0]"
| "enc_gs_message (GsStop reason (Some f)) = 3 # enc_reason reason @ 1 # enc_from f"
| "enc_gs_message GsTimeout = [4]"
| "enc_gs_message (GsContinue bs) = 5 # enc_bytes bs"

fun dec_gs_message :: "nat list \<Rightarrow> gs_message option" where
  "dec_gs_message [] = None"
| "dec_gs_message (n # ns) =
    (if n = 0 then (let (f, rest) = dec_from ns in Some (GsCall f (fst (dec_bytes rest))))
     else if n = 1 then Some (GsCast (fst (dec_bytes ns)))
     else if n = 2 then Some (GsReply (word_of_nat (hd ns)) (fst (dec_bytes (tl ns))))
     else if n = 3 then
       (let (reason, rest) = dec_reason ns in Some (GsStop reason (if hd rest = 0 then None else Some (fst (dec_from (tl rest))))))
     else if n = 4 then Some GsTimeout
     else if n = 5 then Some (GsContinue (fst (dec_bytes ns)))
     else None)"

text \<open>A first byte below 128 is a length or the number of a variant.\<close>

definition small_byte :: "nat \<Rightarrow> byte" where
  "small_byte n = (if n < 128 then word_of_nat n else 128)"

lemma unat_byte: "n < 256 \<Longrightarrow> unat (word_of_nat n :: byte) = n"
  by (simp add: unat_of_nat take_bit_eq_mod)

lemma small_byte_less: "small_byte n < 128 \<Longrightarrow> unat (small_byte n) = n"
  by (simp add: small_byte_def unat_byte split: if_splits)

definition of_headed :: "('a \<Rightarrow> nat) \<Rightarrow> (nat list \<Rightarrow> 'a option) \<Rightarrow> payload \<Rightarrow> 'a option" where
  "of_headed f dec p =
    (case p of
       PData (b # bs) \<Rightarrow> (case dec (bytes_nats bs) of None \<Rightarrow> None | Some x \<Rightarrow> if small_byte (f x) = b then Some x else None)
     | _ \<Rightarrow> None)"

definition plain_wire :: gs_wire where
  "plain_wire = \<lparr>
     gw_tagged = (\<lambda>(tag, bs). small_byte (length tag) # nats_bytes (enc_string tag @ enc_bytes bs)),
     gw_untagged = of_headed (\<lambda>(tag, _). length tag) (\<lambda>ns. let (tag, rest) = dec_string ns in Some (tag, fst (dec_bytes rest))),
     gw_call = (\<lambda>(f, bs). nats_bytes (enc_from f @ enc_bytes bs)),
     gw_uncall = (\<lambda>bs. let (f, rest) = dec_from (bytes_nats bs) in Some (f, fst (dec_bytes rest))),
     gw_cast = (\<lambda>bs. bs), gw_uncast = Some,
     gw_message = (\<lambda>m. small_byte (hd (enc_gs_message m)) # nats_bytes (enc_gs_message m)),
     gw_unmessage = of_headed (\<lambda>m. hd (enc_gs_message m)) dec_gs_message,
     gw_string = (\<lambda>s. varint (length s) @ map of_char s), gw_unit = [] \<rparr>"

lemma dec_end [simp]:
  "dec_bytes (enc_bytes bs) = (bs, [])" "dec_from (enc_from f) = (f, [])" "dec_string (enc_string s) = (s, [])"
  using dec_bytes [of bs "[]"] dec_from [of f "[]"] dec_string [of s "[]"] by simp_all

lemma dec_enc_gs_message [simp]: "dec_gs_message (enc_gs_message m) = Some m"
proof (cases m)
  case (GsStop reason origin)
  then show ?thesis by (cases origin) simp_all
qed simp_all

lemma gs_message_head: "hd (enc_gs_message m) \<le> 5"
  by (cases m rule: enc_gs_message.cases) auto

lemma plain_wire_heads:
  "gw_untagged plain_wire (PData (b # bs)) = Some (tag, x) \<Longrightarrow> b < 128 \<Longrightarrow> length tag = unat b"
  "6 \<le> b \<Longrightarrow> b < 128 \<Longrightarrow> gw_unmessage plain_wire (PData (b # bs)) = None"
proof -
  assume t: "gw_untagged plain_wire (PData (b # bs)) = Some (tag, x)" and b: "b < 128"
  have "small_byte (length tag) = b" using t by (auto simp: plain_wire_def of_headed_def split: option.splits if_splits prod.splits)
  then show "length tag = unat b" using b small_byte_less by metis
next
  assume b: "6 \<le> b" "b < 128"
  have "small_byte (hd (enc_gs_message m)) \<noteq> b" for m
  proof
    assume e: "small_byte (hd (enc_gs_message m)) = b"
    then have "unat b = hd (enc_gs_message m)" using b(2) small_byte_less by metis
    then show False using gs_message_head [of m] b(1) by (simp add: word_le_nat_alt)
  qed
  then show "gw_unmessage plain_wire (PData (b # bs)) = None" by (simp add: plain_wire_def of_headed_def split: option.split)
qed

lemma plain_wire_ok: "wire_ok plain_wire"
proof -
  have "tag \<noteq> gen_call_tag \<and> tag \<noteq> gen_cast_tag"
    if m: "gw_untagged plain_wire (PData (gw_message plain_wire m)) = Some (tag, x)" for m tag x
  proof -
    let ?b = "small_byte (hd (enc_gs_message m))"
    have b: "?b < 128" "unat ?b \<le> 5"
      using gs_message_head [of m] by (simp_all add: small_byte_def word_less_nat_alt unat_byte)
    have "gw_untagged plain_wire (PData (?b # nats_bytes (enc_gs_message m))) = Some (tag, x)" using m by (simp add: plain_wire_def)
    then have "length tag = unat ?b" using plain_wire_heads(1) b(1) by blast
    then show ?thesis using b(2) by (auto simp: gen_call_tag_def gen_cast_tag_def)
  qed
  then show ?thesis by (auto simp: wire_ok_def plain_wire_def of_headed_def split: prod.split)
qed

text \<open>A server whose state is a byte: a call replies with the state and asks to be continued.\<close>

definition ex_gs :: "(byte, byte, byte, byte, byte) gs_callbacks" where
  "ex_gs = \<lparr> gc_call = (\<lambda>req f (s, rt). (ReplyContinue (s + req) [1], s + req, rt)), gc_cast = (\<lambda>k (s, rt). (StatusOk, k, rt)),
     gc_info = (\<lambda>i x. (StatusOk, x)), gc_raw_info = (\<lambda>p x. (StatusOk, x)), gc_timeout = (\<lambda>x. (StatusOk, x)),
     gc_continue = (\<lambda>a x. (StatusStop (Error ''no''), x)), gc_terminate = (\<lambda>r x. x),
     gc_dec_call = (\<lambda>bs. case bs of b # _ \<Rightarrow> Inr b | [] \<Rightarrow> Inl (InvalidData [])), gc_dec_cast = (\<lambda>bs. Inr (hd bs)),
     gc_dec_info = (\<lambda>_. None), gc_enc_reply = (\<lambda>v. encode_with_tag [] [v]), gc_shown = (\<lambda>_. []), gc_debug = exit_display \<rparr>"

definition ex_gs_pid :: "64 word \<Rightarrow> pid" where
  "ex_gs_pid i = \<lparr> pid_node = [], pid_id = i, pid_creation = 0 \<rparr>"

text \<open>Process 1 is a client with a message in its mailbox, process 2 the server.\<close>

definition ex_gs_world :: gs_world where
  "ex_gs_world = \<lparr> gsw_rt = snd (rt_send_raw (ex_gs_pid 1) (PSystem Timeout)
     (snd (rt_spawn (snd (rt_spawn (runtime_new \<lparr> ps_this = None, ps_counter = 1, ps_creation = 0 \<rparr>)))))), gsw_tasks = [] \<rparr>"

definition ex_gs_sent :: "(gs_error + ref) \<times> gs_world" where
  "ex_gs_sent = gs_call_send plain_wire (\<lambda>_. None) (SrvPid (ex_gs_pid 2)) (encode_with_tag [] [7]) (ex_gs_pid 1) ex_gs_world"

definition ex_gs_dec :: "byte list \<Rightarrow> decode_error + byte" where
  "ex_gs_dec bs = (case bs of b # _ \<Rightarrow> Inr b | [] \<Rightarrow> Inl (InvalidData []))"

theorem gen_call_answered_witness:
  "\<exists>stop s2 w2. gs_round plain_wire ex_gs (ex_gs_pid 2) 5 (snd ex_gs_sent) = Some (stop, s2, w2) \<and>
    (\<exists>w3. gs_call_wait plain_wire ex_gs_dec 0 (ex_gs_pid 1) w2 = (Inr 12, w3) \<and>
      rt_get (gsw_rt w3) (ex_gs_pid 1) = Some proc_new)"
proof -
  have codec: "reply_codec_ok ex_gs ex_gs_dec"
    unfolding reply_codec_ok_def
    by (rule allI, rule exI [of _ "[]"], rule exI [of _ "[_]"]) (simp add: ex_gs_def ex_gs_dec_def)
  have sent: "gs_call_send plain_wire (\<lambda>_. None) (SrvPid (ex_gs_pid 2)) (encode_with_tag [] [7]) (ex_gs_pid 1) ex_gs_world =
      (Inr 0, snd ex_gs_sent)"
  proof -
    have "fst ex_gs_sent = Inr 0" by code_simp
    then show ?thesis by (metis ex_gs_sent_def prod.collapse)
  qed
  have procs: "rt_get (gsw_rt ex_gs_world) (ex_gs_pid 2) = Some proc_new"
    "rt_get (gsw_rt ex_gs_world) (ex_gs_pid 1) = Some (proc_new\<lparr> pr_mailbox := [PSystem Timeout] \<rparr>)"
    "rt_local (gsw_rt ex_gs_world) (ex_gs_pid 2)" "rt_local (gsw_rt ex_gs_world) (ex_gs_pid 1)"
    by code_simp+
  have tag: "decode_tag (encode_with_tag [] [7]) = Inr ([], [7])" by (rule tag_roundtrip) simp_all
  have "\<exists>stop s2 w2. gs_round plain_wire ex_gs (ex_gs_pid 2) 5 (snd ex_gs_sent) = Some (stop, s2, w2) \<and>
    (\<exists>w3. gs_call_wait plain_wire ex_gs_dec 0 (ex_gs_pid 1) w2 = (call_outcome plain_wire ex_gs ex_gs_dec (ReplyContinue 12 [1]), w3) \<and>
      rt_get (gsw_rt w3) (ex_gs_pid 1) = Some (proc_new\<lparr> pr_mailbox := [PSystem Timeout], pr_mailbox := [] \<rparr>))"
    by (rule gen_call_answered [OF plain_wire_ok codec sent _ _ procs(3,4,1) _ _ procs(2) _ _ tag,
          where req = 7 and ?s1.0 = 12 and f = "\<lambda>rt. rt"])
      (simp_all add: ex_gs_def spares_def proc_new_def resolve_ref_def ex_gs_pid_def plain_wire_def of_headed_def)
  then show ?thesis by (simp add: call_outcome_def proc_new_def)
qed

end
