(* ===== verification/Gs_System.thy ===== *)
theory Gs_System
  imports Gs_Props
begin

text \<open>
  What servers make of system messages (\<open>gen_server/server.rs\<close>, \<open>protocol.rs\<close>, \<open>core/system_message.rs\<close>).
  The loop tries the bytes of a message as an envelope, then as a protocol message, and only then hands
  them to the callbacks.  The format of the serialisation library does not describe itself and a decoder
  leaves unread what it does not need, so a system message may read as a protocol message.
\<close>

section \<open>The format\<close>

text \<open>What the format documents: a variant is its number and its fields, a number is written by \<open>varint\<close>, a
  sequence is its length and its elements, the reading stops after the last field.  \<open>sysb\<close>, \<open>pidb\<close>
  and \<open>reasonb\<close> are the bytes of a system message, of a process identifier and of a reason; \<open>Down\<close> and
  the protocol's \<open>Cast\<close> are variants 1, \<open>Exit\<close> and \<open>Call\<close> variants 0.\<close>

definition postcard_wire :: "gs_wire \<Rightarrow> (system_message \<Rightarrow> byte list) \<Rightarrow> (pid \<Rightarrow> byte list) \<Rightarrow>
    (exit_reason \<Rightarrow> byte list) \<Rightarrow> bool" where
  "postcard_wire W sysb pidb reasonb \<longleftrightarrow>
     (\<forall>m. gw_unmessage W (PSystem m) = gw_unmessage W (PData (sysb m))) \<and>
     (\<forall>m. gw_untagged W (PSystem m) = gw_untagged W (PData (sysb m))) \<and>
     (\<forall>r p reason. sysb (Down r p reason) = 1 # varint (unat r) @ pidb p @ reasonb reason) \<and>
     (\<forall>p reason. sysb (Exit p reason) = 0 # pidb p @ reasonb reason) \<and>
     (\<forall>reason. reasonb reason =
       (case reason of Normal \<Rightarrow> [0] | Shutdown \<Rightarrow> [1] | ShutdownReason t \<Rightarrow> 2 # varint (length t) @ map of_char t
        | Killed \<Rightarrow> [3] | Error t \<Rightarrow> 4 # varint (length t) @ map of_char t)) \<and>
     (\<forall>n bs. gw_unmessage W (PData (1 # varint n @ bs)) = (if n \<le> length bs then Some (GsCast (take n bs)) else None)) \<and>
     (\<forall>p k n bs. k < 2 ^ 64 \<longrightarrow> gw_unmessage W (PData (0 # pidb p @ varint k @ varint n @ bs)) =
        (if n \<le> length bs then Some (GsCall \<lparr> gf_pid = p, gf_reference = word_of_nat k \<rparr> (take n bs)) else None)) \<and>
     (\<forall>p k. gw_unmessage W (PData (0 # pidb p @ varint k)) = None) \<and>
     (\<forall>b bs tag x. b < 128 \<and> gw_untagged W (PData (b # bs)) = Some (tag, x) \<longrightarrow> length tag = unat b)"

lemma postcard_wireD:
  assumes "postcard_wire W sysb pidb reasonb"
  shows "gw_unmessage W (PSystem m) = gw_unmessage W (PData (sysb m))" "gw_untagged W (PSystem m) = gw_untagged W (PData (sysb m))"
    "sysb (Down r p reason) = 1 # varint (unat r) @ pidb p @ reasonb reason"
    "sysb (Exit p reason) = 0 # pidb p @ reasonb reason"
    "reasonb reason =
       (case reason of Normal \<Rightarrow> [0] | Shutdown \<Rightarrow> [1] | ShutdownReason t \<Rightarrow> 2 # varint (length t) @ map of_char t
        | Killed \<Rightarrow> [3] | Error t \<Rightarrow> 4 # varint (length t) @ map of_char t)"
    "gw_unmessage W (PData (1 # varint n @ bs)) = (if n \<le> length bs then Some (GsCast (take n bs)) else None)"
    "k < 2 ^ 64 \<Longrightarrow> gw_unmessage W (PData (0 # pidb p @ varint k @ varint n @ bs)) =
       (if n \<le> length bs then Some (GsCall \<lparr> gf_pid = p, gf_reference = word_of_nat k \<rparr> (take n bs)) else None)"
    "gw_unmessage W (PData (0 # pidb p @ varint k)) = None"
    "b < 128 \<Longrightarrow> gw_untagged W (PData (b # bs)) = Some (tag, x) \<Longrightarrow> length tag = unat b"
  using assms unfolding postcard_wire_def by blast+

text \<open>A message whose first byte is small is no envelope.\<close>

lemma no_envelope:
  assumes "postcard_wire W sysb pidb reasonb" "sysb m = b # bs" "b < 9"
  shows "decode_gen_call_envelope W (PSystem m) = None" "decode_gen_cast_envelope W (PSystem m) = None"
proof -
  have b: "b < 128" "unat b < 9" using assms(3) by (auto simp: word_less_nat_alt)
  have "tag \<noteq> gen_call_tag \<and> tag \<noteq> gen_cast_tag" if "gw_untagged W (PSystem m) = Some (tag, x)" for tag x
  proof -
    have "length tag = unat b"
      using that postcard_wireD(9) [OF assms(1) b(1)] by (simp add: postcard_wireD(2) [OF assms(1)] assms(2))
    then show ?thesis using b(2) by (auto simp: gen_call_tag_def gen_cast_tag_def)
  qed
  then show "decode_gen_call_envelope W (PSystem m) = None" "decode_gen_cast_envelope W (PSystem m) = None"
    by (auto simp: decode_gen_call_envelope_def decode_gen_cast_envelope_def split: option.split)
qed

lemma down_unmessage:
  assumes "postcard_wire W sysb pidb reasonb"
  shows "gw_unmessage W (PSystem (Down r p reason)) =
    (if unat r \<le> length (pidb p @ reasonb reason) then Some (GsCast (take (unat r) (pidb p @ reasonb reason))) else None)"
  by (simp only: postcard_wireD(1,3,6) [OF assms])

text \<open>The reasons that carry a text.\<close>

definition worded :: "exit_reason \<Rightarrow> bool" where
  "worded reason = (case reason of ShutdownReason t \<Rightarrow> True | Error t \<Rightarrow> True | _ \<Rightarrow> False)"

lemma exit_unmessage:
  assumes "postcard_wire W sysb pidb reasonb"
  shows "if worded reason then \<exists>f bs. gw_unmessage W (PSystem (Exit p reason)) = Some (GsCall f bs)
    else gw_unmessage W (PSystem (Exit p reason)) = None"
proof -
  note bytes = postcard_wireD(1,4,5) [OF assms]
  note call = postcard_wireD(7) [OF assms, of _ p] and short = postcard_wireD(8) [OF assms, of p]
  have v: "varint 0 = [0]" "varint 1 = [1]" "varint 2 = [2]" "varint 3 = [3]" "varint 4 = [4]" by (simp_all add: varint_small)
  show ?thesis
    using short [of 0] short [of 1, unfolded v] short [of 3]
      call [of 2 "length t" "map of_char t" for t] call [of 4 "length t" "map of_char t" for t]
    by (cases reason) (simp_all add: bytes worded_def v)
qed

section \<open>What reaches the callbacks\<close>

text \<open>C7. A server loses system messages.  A \<open>Down\<close> whose reference is not larger than the number of bytes that
  follow it reads as a protocol \<open>Cast\<close>, and an \<open>Exit\<close> with an error, or with a shutdown that carries a text, as a
  protocol \<open>Call\<close>; if the bytes are no \<open>Info\<close> value of the server either, the loop drops both without calling the
  server.  Only the \<open>Down\<close> messages with larger references, and an \<open>Exit\<close> without a text, come to
  \<open>handle_raw_info\<close>.  The references of the first monitors of a node are small.\<close>

theorem server_misses_signals:
  assumes "postcard_wire W sysb pidb reasonb"
  shows "gs_handle W cb me (Some (PSystem (Down r p reason))) s w =
      (case gc_dec_info cb (PSystem (Down r p reason)) of
         Some i \<Rightarrow> gs_status_step W cb me (gc_info cb i) s w
       | None \<Rightarrow>
          if unat r \<le> length (pidb p @ reasonb reason) then (None, s, w)
          else gs_status_step W cb me (gc_raw_info cb (PSystem (Down r p reason))) s w) \<and>
    gs_handle W cb me (Some (PSystem (Exit q reason))) s w =
      (case gc_dec_info cb (PSystem (Exit q reason)) of
         Some i \<Rightarrow> gs_status_step W cb me (gc_info cb i) s w
       | None \<Rightarrow>
          if worded reason then (None, s, w) else gs_status_step W cb me (gc_raw_info cb (PSystem (Exit q reason))) s w)"
proof
  have "(1 :: byte) < 9" "(0 :: byte) < 9" by simp_all
  note down = no_envelope [OF assms(1) postcard_wireD(3) [OF assms] this(1)]
    and exit = no_envelope [OF assms(1) postcard_wireD(4) [OF assms(1)] this(2)]
  show "gs_handle W cb me (Some (PSystem (Down r p reason))) s w =
      (case gc_dec_info cb (PSystem (Down r p reason)) of
         Some i \<Rightarrow> gs_status_step W cb me (gc_info cb i) s w
       | None \<Rightarrow>
          if unat r \<le> length (pidb p @ reasonb reason) then (None, s, w)
          else gs_status_step W cb me (gc_raw_info cb (PSystem (Down r p reason))) s w)"
    by (simp add: gs_handle_def down down_unmessage [OF assms] gs_protocol_def gs_info_def split: option.split)
  show "gs_handle W cb me (Some (PSystem (Exit q reason))) s w =
      (case gc_dec_info cb (PSystem (Exit q reason)) of
         Some i \<Rightarrow> gs_status_step W cb me (gc_info cb i) s w
       | None \<Rightarrow>
          if worded reason then (None, s, w) else gs_status_step W cb me (gc_raw_info cb (PSystem (Exit q reason))) s w)"
    using exit_unmessage [OF assms, of reason q]
    by (auto simp: gs_handle_def exit gs_protocol_def gs_info_def split: if_splits option.split)
qed

section \<open>A format for which this holds\<close>

text \<open>Numbers in unary between zeros stand for the fields before the last two.\<close>

fun take_nats :: "nat \<Rightarrow> nat \<Rightarrow> byte list \<Rightarrow> nat list \<times> byte list" where
  "take_nats 0 k bs = ([], bs)"
| "take_nats (Suc n) k [] = ([], [])"
| "take_nats (Suc n) k (b # bs) =
    (if b = 0 then (let (ns, rest) = take_nats n 0 bs in (k # ns, rest)) else take_nats (Suc n) (Suc k) bs)"

lemma take_nats_run: "take_nats (Suc n) k (replicate j 1 @ 0 # bs) = (let (ns, rest) = take_nats n 0 bs in ((k + j) # ns, rest))"
  by (induction j arbitrary: k) simp_all

lemma take_nats_bytes [simp]: "take_nats (length ns) 0 (nats_bytes ns @ bs) = (ns, bs)"
  by (induction ns) (simp_all add: nats_bytes_def take_nats_run)

definition ex_pidb :: "pid \<Rightarrow> byte list" where
  "ex_pidb p = nats_bytes (take 3 (enc_pid p)) @ nats_bytes (drop 3 (enc_pid p))"

definition take_pid :: "byte list \<Rightarrow> pid \<times> byte list" where
  "take_pid bs = (let (ns, bs1) = take_nats 3 0 bs; (cs, bs2) = take_nats (ns ! 2) 0 bs1 in (fst (dec_pid (ns @ cs)), bs2))"

lemma take_pid [simp]: "take_pid (ex_pidb p @ bs) = (p, bs)"
proof -
  let ?h = "[unat (pid_id p), unat (pid_creation p), length (pid_node p)]" and ?c = "map of_char (pid_node p) :: nat list"
  have "enc_pid p = ?h @ ?c" by (simp add: enc_pid_def enc_string_def)
  moreover have "take_nats 3 0 (nats_bytes ?h @ nats_bytes ?c @ bs) = (?h, nats_bytes ?c @ bs)"
    using take_nats_bytes [of ?h] by (simp add: numeral_3_eq_3)
  moreover have "take_nats (length (pid_node p)) 0 (nats_bytes ?c @ bs) = (?c, bs)"
    using take_nats_bytes [of ?c] by simp
  moreover have "dec_pid (?h @ ?c) = (p, [])" using dec_pid [of p "[]"] calculation(1) by simp
  ultimately show ?thesis by (simp add: take_pid_def ex_pidb_def)
qed

fun take_varint :: "byte list \<Rightarrow> (nat \<times> byte list) option" where
  "take_varint [] = None"
| "take_varint (b # bs) =
    (if b < 128 then Some (unat b, bs) else map_option (\<lambda>(n, rest). (unat b - 128 + 128 * n, rest)) (take_varint bs))"

lemma take_varint [simp]: "take_varint (varint n @ bs) = Some (n, bs)"
proof (induction n rule: less_induct)
  case (less n)
  show ?case
  proof (cases "n < 128")
    case True
    then show ?thesis by (simp add: varint_small word_less_nat_alt unat_byte)
  next
    case False
    have "\<not> (word_of_nat (n mod 128 + 128) :: byte) < 128" by (simp add: word_less_nat_alt unat_byte del: of_nat_add)
    then show ?thesis using False less [of "n div 128"] by (simp add: varint.simps [of n] unat_byte del: of_nat_add)
  qed
qed

definition ex_reasonb :: "exit_reason \<Rightarrow> byte list" where
  "ex_reasonb reason =
    (case reason of Normal \<Rightarrow> [0] | Shutdown \<Rightarrow> [1] | ShutdownReason t \<Rightarrow> 2 # varint (length t) @ map of_char t
     | Killed \<Rightarrow> [3] | Error t \<Rightarrow> 4 # varint (length t) @ map of_char t)"

fun ex_sysb :: "system_message \<Rightarrow> byte list" where
  "ex_sysb (Exit p reason) = 0 # ex_pidb p @ ex_reasonb reason"
| "ex_sysb (Down r p reason) = 1 # varint (unat r) @ ex_pidb p @ ex_reasonb reason"
| "ex_sysb Timeout = [2]"

definition take_sized :: "byte list \<Rightarrow> byte list option" where
  "take_sized bs = (case take_varint bs of Some (n, rest) \<Rightarrow> if n \<le> length rest then Some (take n rest) else None | None \<Rightarrow> None)"

fun ex_unmessage :: "byte list \<Rightarrow> gs_message option" where
  "ex_unmessage [] = None"
| "ex_unmessage (b # bs) =
    (if b = 0 then
       (case take_pid bs of
          (p, bs1) \<Rightarrow>
            (case take_varint bs1 of
               Some (k, bs2) \<Rightarrow> map_option (GsCall \<lparr> gf_pid = p, gf_reference = word_of_nat k \<rparr>) (take_sized bs2)
             | None \<Rightarrow> None))
     else if b = 1 then map_option GsCast (take_sized bs)
     else None)"

fun ex_untagged :: "byte list \<Rightarrow> (string \<times> byte list) option" where
  "ex_untagged [] = None"
| "ex_untagged (b # bs) = (if unat b \<le> length bs then Some (map (char_of \<circ> unat) (take (unat b) bs), drop (unat b) bs) else None)"

fun ex_payload_bytes :: "payload \<Rightarrow> byte list" where
  "ex_payload_bytes (PSystem m) = ex_sysb m"
| "ex_payload_bytes (PData bs) = bs"

definition ex_postcard :: gs_wire where
  "ex_postcard = plain_wire\<lparr> gw_untagged := ex_untagged \<circ> ex_payload_bytes, gw_unmessage := ex_unmessage \<circ> ex_payload_bytes \<rparr>"

lemma ex_postcard_ok: "postcard_wire ex_postcard ex_sysb ex_pidb ex_reasonb"
proof -
  have "ex_unmessage (0 # ex_pidb p @ varint k) = None" for p k
    using take_varint [of k "[]"] by (simp add: take_sized_def)
  then show ?thesis
    unfolding postcard_wire_def by (intro conjI allI impI) (auto simp: ex_postcard_def ex_reasonb_def take_sized_def split: if_splits)
qed

text \<open>The server drops a \<open>Down\<close> with reference 4, and is told one with reference 400.\<close>

theorem server_misses_signals_witness:
  "gs_handle ex_postcard ex_gs (ex_gs_pid 2) (Some (PSystem (Down 4 (ex_gs_pid 3) (Error ''boom'')))) 5 ex_gs_world = (None, 5, ex_gs_world) \<and>
   gs_handle ex_postcard ex_gs (ex_gs_pid 2) (Some (PSystem (Exit (ex_gs_pid 3) (Error ''boom'')))) 5 ex_gs_world = (None, 5, ex_gs_world) \<and>
   gs_handle ex_postcard ex_gs (ex_gs_pid 2) (Some (PSystem (Down 400 (ex_gs_pid 3) (Error ''boom'')))) 5 ex_gs_world =
     gs_status_step ex_postcard ex_gs (ex_gs_pid 2) (gc_raw_info ex_gs (PSystem (Down 400 (ex_gs_pid 3) (Error ''boom'')))) 5 ex_gs_world"
proof -
  have "length (ex_pidb (ex_gs_pid 3)) = 6" by code_simp
  then have size: "length (ex_pidb (ex_gs_pid 3) @ ex_reasonb (Error ''boom'')) = 12" by (simp add: ex_reasonb_def varint_small)
  have info: "gc_dec_info ex_gs x = None" for x by (simp add: ex_gs_def)
  note p = server_misses_signals [OF ex_postcard_ok, where cb = ex_gs and p = "ex_gs_pid 3" and q = "ex_gs_pid 3" and reason = "Error ''boom''",
      unfolded size info]
  show ?thesis using p [of "ex_gs_pid 2" 4] p [of "ex_gs_pid 2" 400] by (simp add: worded_def)
qed

end
