(* ===== verification/Btree.thy ===== *)
theory Btree
  imports Prelude
begin

text \<open>
  The contents of an ordered map of the standard library (\<open>BTreeMap\<close>): a list of pairs with strictly ascending
  keys.  The ordered stores and the objects of JSON are such maps.
\<close>

fun bl_insert :: "'k::linorder \<Rightarrow> 'v \<Rightarrow> ('k \<times> 'v) list \<Rightarrow> ('k \<times> 'v) list" where
  "bl_insert k v [] = [(k, v)]"
| "bl_insert k v ((x, y) # r) =
    (if k < x then (k, v) # (x, y) # r else if k = x then (k, v) # r else (x, y) # bl_insert k v r)"

lemma bl_insert_keys: "set (map fst (bl_insert k v d)) = insert k (set (map fst d))"
  by (induction k v d rule: bl_insert.induct) auto

lemma bl_insert_sorted: "sorted_wrt (<) (map fst d) \<Longrightarrow> sorted_wrt (<) (map fst (bl_insert k v d))"
proof (induction k v d rule: bl_insert.induct)
  case (2 k v x y r)
  show ?case
  proof (cases "k < x \<or> k = x")
    case True
    then show ?thesis using 2 by auto
  next
    case False
    then have "sorted_wrt (<) (map fst (bl_insert k v r))" using 2 by auto
    moreover have "\<forall>z \<in> set (map fst (bl_insert k v r)). x < z"
      unfolding bl_insert_keys using 2(2) False by auto
    ultimately show ?thesis using False by auto
  qed
qed simp

lemma bl_insert_get: "sorted_wrt (<) (map fst d) \<Longrightarrow> map_of (bl_insert k v d) = (map_of d)(k \<mapsto> v)"
  by (induction k v d rule: bl_insert.induct) (auto simp: fun_eq_iff)

lemma sorted_wrt_filter_fst: "sorted_wrt (<) (map fst d) \<Longrightarrow> sorted_wrt (<) (map fst (filter P d))"
  by (induction d) auto

end
