(* ===== verification/Store.thy ===== *)
theory Store
  imports Runtime Codec Btree
begin

text \<open>
  Stores owned by processes (\<open>store/mod.rs\<close>): the hash store and the ordered store with their access
  check.  \<open>caller\<close> is the process in whose context an operation runs, if any.  A \<open>BTreeMap\<close> is a list of
  pairs with ascending keys and the mark whether its root is allocated.  The locale \<open>kv_data\<close> is what the operations rely on of the two maps.
\<close>

section \<open>Types\<close>

type_synonym store_id = "64 word"

datatype access = Public | Private

record store_options =
  so_access :: access
  so_name :: "string option"
  so_heir :: "pid option"

definition store_options_default :: store_options where
  "store_options_default = \<lparr> so_access = Public, so_name = None, so_heir = None \<rparr>"

datatype store_error = StoreDeleted | AccessDenied | NameAlreadyRegistered | StoreNotFound | NoProcessContext

fun store_error_display :: "store_error \<Rightarrow> string" where
  "store_error_display StoreDeleted = ''store has been deleted''"
| "store_error_display AccessDenied = ''access denied''"
| "store_error_display NameAlreadyRegistered = ''name already registered''"
| "store_error_display StoreNotFound = ''store not found''"
| "store_error_display NoProcessContext = ''no process context available''"

record 'd store =
  st_id :: store_id
  st_owner :: pid
  st_data :: 'd
  st_access :: access
  st_name :: "string option"
  st_heir :: "pid option"
  st_deleted :: bool

definition check_access :: "pid option \<Rightarrow> 'd store \<Rightarrow> store_error + unit" where
  "check_access caller s =
    (if st_deleted s then Inl StoreDeleted
     else
      (case st_access s of
         Public \<Rightarrow> Inr ()
       | Private \<Rightarrow>
          (case caller of
             None \<Rightarrow> Inl NoProcessContext
           | Some p \<Rightarrow> if p = st_owner s then Inr () else Inl AccessDenied)))"

text \<open>An operation on the data behind the check.\<close>

definition checked :: "pid option \<Rightarrow> ('d \<Rightarrow> 'r \<times> 'd) \<Rightarrow> 'd store \<Rightarrow> (store_error + 'r) \<times> 'd store" where
  "checked caller f s =
    (case check_access caller s of
       Inl e \<Rightarrow> (Inl e, s)
     | Inr _ \<Rightarrow> (let (r, d) = f (st_data s) in (Inr r, s\<lparr> st_data := d \<rparr>)))"

definition mark_deleted :: "'d store \<Rightarrow> 'd store" where
  "mark_deleted s = s\<lparr> st_deleted := True \<rparr>"

section \<open>The hash store\<close>

type_synonym ('k, 'v) hash_store = "('k, 'v) hmap store"

definition store_insert :: "pid option \<Rightarrow> 'k \<Rightarrow> 'v \<Rightarrow> ('k, 'v) hash_store \<Rightarrow> (store_error + 'v option) \<times> ('k, 'v) hash_store" where
  "store_insert caller k v = checked caller (\<lambda>d. (hm_get d k, hm_insert k v d))"

definition store_get :: "pid option \<Rightarrow> 'k \<Rightarrow> ('k, 'v) hash_store \<Rightarrow> (store_error + 'v option) \<times> ('k, 'v) hash_store" where
  "store_get caller k = checked caller (\<lambda>d. (hm_get d k, d))"

definition store_remove :: "pid option \<Rightarrow> 'k \<Rightarrow> ('k, 'v) hash_store \<Rightarrow> (store_error + 'v option) \<times> ('k, 'v) hash_store" where
  "store_remove caller k = checked caller (\<lambda>d. (hm_get d k, hm_remove k d))"

definition store_contains_key :: "pid option \<Rightarrow> 'k \<Rightarrow> ('k, 'v) hash_store \<Rightarrow> (store_error + bool) \<times> ('k, 'v) hash_store" where
  "store_contains_key caller k = checked caller (\<lambda>d. (hm_contains k d, d))"

text \<open>An update reads the value and then writes the new one; other processes can run in between.\<close>

definition store_update_read :: "'k \<Rightarrow> ('v option \<Rightarrow> 'v) \<Rightarrow> ('k, 'v) hmap \<Rightarrow> 'v" where
  "store_update_read k f d = f (hm_get d k)"

definition store_update_write :: "'k \<Rightarrow> 'v \<Rightarrow> ('k, 'v) hmap \<Rightarrow> 'v \<times> ('k, 'v) hmap" where
  "store_update_write k v d = (v, hm_insert k v d)"

definition store_update :: "pid option \<Rightarrow> 'k \<Rightarrow> ('v option \<Rightarrow> 'v) \<Rightarrow> ('k, 'v) hash_store \<Rightarrow> (store_error + 'v) \<times> ('k, 'v) hash_store" where
  "store_update caller k f = checked caller (\<lambda>d. store_update_write k (store_update_read k f d) d)"

definition entry_or_insert :: "'k \<Rightarrow> 'v \<Rightarrow> ('k, 'v) hmap \<Rightarrow> 'v \<times> ('k, 'v) hmap" where
  "entry_or_insert k v d = (case hm_get d k of Some old \<Rightarrow> (old, d) | None \<Rightarrow> (v, hm_insert k v d))"

definition store_get_or_insert :: "pid option \<Rightarrow> 'k \<Rightarrow> 'v \<Rightarrow> ('k, 'v) hash_store \<Rightarrow> (store_error + 'v) \<times> ('k, 'v) hash_store" where
  "store_get_or_insert caller k v = checked caller (entry_or_insert k v)"

definition store_get_or_insert_with :: "pid option \<Rightarrow> 'k \<Rightarrow> (unit \<Rightarrow> 'v) \<Rightarrow> ('k, 'v) hash_store \<Rightarrow> (store_error + 'v) \<times> ('k, 'v) hash_store" where
  "store_get_or_insert_with caller k f =
    checked caller (\<lambda>d. case hm_get d k of Some old \<Rightarrow> (old, d) | None \<Rightarrow> (f (), hm_insert k (f ()) d))"

definition store_insert_many :: "pid option \<Rightarrow> ('k \<times> 'v) list \<Rightarrow> ('k, 'v) hash_store \<Rightarrow> (store_error + unit) \<times> ('k, 'v) hash_store" where
  "store_insert_many caller items = checked caller (\<lambda>d. ((), fold (\<lambda>(k, v). hm_insert k v) items d))"

definition store_keys :: "pid option \<Rightarrow> ('k, 'v) hash_store \<Rightarrow> (store_error + 'k list) \<times> ('k, 'v) hash_store" where
  "store_keys caller = checked caller (\<lambda>d. (hm_keys d, d))"

definition store_values :: "pid option \<Rightarrow> ('k, 'v) hash_store \<Rightarrow> (store_error + 'v list) \<times> ('k, 'v) hash_store" where
  "store_values caller = checked caller (\<lambda>d. (hm_values d, d))"

definition store_iter :: "pid option \<Rightarrow> ('k, 'v) hash_store \<Rightarrow> (store_error + ('k \<times> 'v) list) \<times> ('k, 'v) hash_store" where
  "store_iter caller = checked caller (\<lambda>d. (d, d))"

definition store_len :: "pid option \<Rightarrow> ('k, 'v) hash_store \<Rightarrow> (store_error + nat) \<times> ('k, 'v) hash_store" where
  "store_len caller = checked caller (\<lambda>d. (length d, d))"

definition store_is_empty :: "pid option \<Rightarrow> ('k, 'v) hash_store \<Rightarrow> (store_error + bool) \<times> ('k, 'v) hash_store" where
  "store_is_empty caller = checked caller (\<lambda>d. (d = [], d))"

definition store_clear :: "pid option \<Rightarrow> ('k, 'v) hash_store \<Rightarrow> (store_error + unit) \<times> ('k, 'v) hash_store" where
  "store_clear caller = checked caller (\<lambda>d. ((), []))"

text \<open>The function decides whether an entry stays and may change its value.\<close>

definition retain_entries :: "('k \<Rightarrow> 'v \<Rightarrow> bool \<times> 'v) \<Rightarrow> ('k \<times> 'v) list \<Rightarrow> ('k \<times> 'v) list" where
  "retain_entries f d = List.map_filter (\<lambda>(k, v). let (keep, v') = f k v in if keep then Some (k, v') else None) d"

definition store_retain :: "pid option \<Rightarrow> ('k \<Rightarrow> 'v \<Rightarrow> bool \<times> 'v) \<Rightarrow> ('k, 'v) hash_store \<Rightarrow> (store_error + unit) \<times> ('k, 'v) hash_store" where
  "store_retain caller f = checked caller (\<lambda>d. ((), retain_entries f d))"

section \<open>The ordered store\<close>

text \<open>A \<open>BTreeMap\<close> allocates its root with the first insertion and gives it up in \<open>clear\<close> only; removing the last
  entry leaves an empty root.\<close>

record ('k, 'v) btree =
  bt_root :: bool
  bt_list :: "('k \<times> 'v) list"

type_synonym ('k, 'v) ordered_store = "('k, 'v) btree store"

definition bt_new :: "('k, 'v) btree" where
  "bt_new = \<lparr> bt_root = False, bt_list = [] \<rparr>"

definition bt_insert :: "'k::linorder \<Rightarrow> 'v \<Rightarrow> ('k, 'v) btree \<Rightarrow> ('k, 'v) btree" where
  "bt_insert k v d = \<lparr> bt_root = True, bt_list = bl_insert k v (bt_list d) \<rparr>"

definition bt_remove :: "'k::linorder \<Rightarrow> ('k, 'v) btree \<Rightarrow> ('k, 'v) btree" where
  "bt_remove k d = d\<lparr> bt_list := filter (\<lambda>(x, _). x \<noteq> k) (bt_list d) \<rparr>"

definition bt_get :: "('k::linorder, 'v) btree \<Rightarrow> 'k \<Rightarrow> 'v option" where
  "bt_get d k = map_of (bt_list d) k"

definition bt_ok :: "('k::linorder, 'v) btree \<Rightarrow> bool" where
  "bt_ok d \<longleftrightarrow> sorted_wrt (<) (map fst (bt_list d)) \<and> (bt_list d \<noteq> [] \<longrightarrow> bt_root d)"

datatype 'k bound = Included 'k | Excluded 'k | Unbounded

fun above :: "'k::linorder bound \<Rightarrow> 'k \<Rightarrow> bool" where
  "above (Included a) k = (a \<le> k)" | "above (Excluded a) k = (a < k)" | "above Unbounded k = True"

fun below :: "'k::linorder bound \<Rightarrow> 'k \<Rightarrow> bool" where
  "below (Included b) k = (k \<le> b)" | "below (Excluded b) k = (k < b)" | "below Unbounded k = True"

text \<open>\<open>BTreeMap::range\<close> panics on a range that starts after its end and on an empty open interval, once the map has
  a root: \<open>None\<close>.\<close>

fun range_panics :: "'k::linorder bound \<Rightarrow> 'k bound \<Rightarrow> bool" where
  "range_panics (Excluded a) (Excluded b) = (b \<le> a)"
| "range_panics (Included a) (Included b) = (b < a)"
| "range_panics (Included a) (Excluded b) = (b < a)"
| "range_panics (Excluded a) (Included b) = (b < a)"
| "range_panics _ _ = False"

definition bt_range :: "'k::linorder bound \<Rightarrow> 'k bound \<Rightarrow> ('k, 'v) btree \<Rightarrow> ('k \<times> 'v) list option" where
  "bt_range lo hi d =
    (if bt_root d \<and> range_panics lo hi then None else Some (filter (\<lambda>(k, _). above lo k \<and> below hi k) (bt_list d)))"

definition ordered_insert :: "pid option \<Rightarrow> 'k::linorder \<Rightarrow> 'v \<Rightarrow> ('k, 'v) ordered_store \<Rightarrow> (store_error + 'v option) \<times> ('k, 'v) ordered_store" where
  "ordered_insert caller k v = checked caller (\<lambda>d. (bt_get d k, bt_insert k v d))"

definition ordered_get :: "pid option \<Rightarrow> 'k::linorder \<Rightarrow> ('k, 'v) ordered_store \<Rightarrow> (store_error + 'v option) \<times> ('k, 'v) ordered_store" where
  "ordered_get caller k = checked caller (\<lambda>d. (bt_get d k, d))"

definition ordered_remove :: "pid option \<Rightarrow> 'k::linorder \<Rightarrow> ('k, 'v) ordered_store \<Rightarrow> (store_error + 'v option) \<times> ('k, 'v) ordered_store" where
  "ordered_remove caller k = checked caller (\<lambda>d. (bt_get d k, bt_remove k d))"

definition ordered_contains_key :: "pid option \<Rightarrow> 'k::linorder \<Rightarrow> ('k, 'v) ordered_store \<Rightarrow> (store_error + bool) \<times> ('k, 'v) ordered_store" where
  "ordered_contains_key caller k = checked caller (\<lambda>d. (bt_get d k \<noteq> None, d))"

text \<open>Here the lock is held from the read to the write.\<close>

definition ordered_update :: "pid option \<Rightarrow> 'k::linorder \<Rightarrow> ('v option \<Rightarrow> 'v) \<Rightarrow> ('k, 'v) ordered_store \<Rightarrow> (store_error + 'v) \<times> ('k, 'v) ordered_store" where
  "ordered_update caller k f = checked caller (\<lambda>d. let v = f (bt_get d k) in (v, bt_insert k v d))"

definition ordered_insert_many :: "pid option \<Rightarrow> ('k::linorder \<times> 'v) list \<Rightarrow> ('k, 'v) ordered_store \<Rightarrow> (store_error + unit) \<times> ('k, 'v) ordered_store" where
  "ordered_insert_many caller items = checked caller (\<lambda>d. ((), fold (\<lambda>(k, v). bt_insert k v) items d))"

definition ordered_keys :: "pid option \<Rightarrow> ('k, 'v) ordered_store \<Rightarrow> (store_error + 'k list) \<times> ('k, 'v) ordered_store" where
  "ordered_keys caller = checked caller (\<lambda>d. (map fst (bt_list d), d))"

definition ordered_values :: "pid option \<Rightarrow> ('k, 'v) ordered_store \<Rightarrow> (store_error + 'v list) \<times> ('k, 'v) ordered_store" where
  "ordered_values caller = checked caller (\<lambda>d. (map snd (bt_list d), d))"

definition ordered_iter :: "pid option \<Rightarrow> ('k, 'v) ordered_store \<Rightarrow> (store_error + ('k \<times> 'v) list) \<times> ('k, 'v) ordered_store" where
  "ordered_iter caller = checked caller (\<lambda>d. (bt_list d, d))"

definition ordered_len :: "pid option \<Rightarrow> ('k, 'v) ordered_store \<Rightarrow> (store_error + nat) \<times> ('k, 'v) ordered_store" where
  "ordered_len caller = checked caller (\<lambda>d. (length (bt_list d), d))"

definition ordered_is_empty :: "pid option \<Rightarrow> ('k, 'v) ordered_store \<Rightarrow> (store_error + bool) \<times> ('k, 'v) ordered_store" where
  "ordered_is_empty caller = checked caller (\<lambda>d. (bt_list d = [], d))"

definition ordered_clear :: "pid option \<Rightarrow> ('k, 'v) ordered_store \<Rightarrow> (store_error + unit) \<times> ('k, 'v) ordered_store" where
  "ordered_clear caller = checked caller (\<lambda>d. ((), bt_new))"

definition ordered_retain :: "pid option \<Rightarrow> ('k \<Rightarrow> 'v \<Rightarrow> bool \<times> 'v) \<Rightarrow> ('k, 'v) ordered_store \<Rightarrow> (store_error + unit) \<times> ('k, 'v) ordered_store" where
  "ordered_retain caller f = checked caller (\<lambda>d. ((), d\<lparr> bt_list := retain_entries f (bt_list d) \<rparr>))"

definition list_first :: "'a list \<Rightarrow> 'a option" where
  "list_first xs = (case xs of [] \<Rightarrow> None | x # _ \<Rightarrow> Some x)"

definition list_last :: "'a list \<Rightarrow> 'a option" where
  "list_last xs = list_first (rev xs)"

definition ordered_first :: "pid option \<Rightarrow> ('k, 'v) ordered_store \<Rightarrow> (store_error + ('k \<times> 'v) option) \<times> ('k, 'v) ordered_store" where
  "ordered_first caller = checked caller (\<lambda>d. (list_first (bt_list d), d))"

definition ordered_last :: "pid option \<Rightarrow> ('k, 'v) ordered_store \<Rightarrow> (store_error + ('k \<times> 'v) option) \<times> ('k, 'v) ordered_store" where
  "ordered_last caller = checked caller (\<lambda>d. (list_last (bt_list d), d))"

definition ordered_pop_first :: "pid option \<Rightarrow> ('k, 'v) ordered_store \<Rightarrow> (store_error + ('k \<times> 'v) option) \<times> ('k, 'v) ordered_store" where
  "ordered_pop_first caller = checked caller (\<lambda>d. (list_first (bt_list d), d\<lparr> bt_list := drop 1 (bt_list d) \<rparr>))"

definition ordered_pop_last :: "pid option \<Rightarrow> ('k, 'v) ordered_store \<Rightarrow> (store_error + ('k \<times> 'v) option) \<times> ('k, 'v) ordered_store" where
  "ordered_pop_last caller = checked caller (\<lambda>d. (list_last (bt_list d), d\<lparr> bt_list := butlast (bt_list d) \<rparr>))"

text \<open>\<open>None\<close> is a panic.\<close>

definition ordered_range :: "pid option \<Rightarrow> 'k::linorder bound \<Rightarrow> 'k bound \<Rightarrow> nat \<Rightarrow> ('k, 'v) ordered_store \<Rightarrow>
    (store_error + ('k \<times> 'v) list option)" where
  "ordered_range caller lo hi limit s = fst (checked caller (\<lambda>d. (map_option (take limit) (bt_range lo hi d), d)) s)"

definition ordered_range_rev :: "pid option \<Rightarrow> 'k::linorder bound \<Rightarrow> 'k bound \<Rightarrow> nat \<Rightarrow> ('k, 'v) ordered_store \<Rightarrow>
    (store_error + ('k \<times> 'v) list option)" where
  "ordered_range_rev caller lo hi limit s =
    fst (checked caller (\<lambda>d. (map_option (\<lambda>xs. take limit (rev xs)) (bt_range lo hi d), d)) s)"

definition ordered_range_count :: "pid option \<Rightarrow> 'k::linorder bound \<Rightarrow> 'k bound \<Rightarrow> ('k, 'v) ordered_store \<Rightarrow>
    (store_error + nat option)" where
  "ordered_range_count caller lo hi s = fst (checked caller (\<lambda>d. (map_option length (bt_range lo hi d), d)) s)"

section \<open>The maps behind the stores\<close>

lemma retain_entries_get:
  assumes "distinct (map fst xs)"
  shows "map_of (retain_entries f xs) k =
    (case map_of xs k of None \<Rightarrow> None | Some v \<Rightarrow> if fst (f k v) then Some (snd (f k v)) else None)"
  using assms
proof (induction xs arbitrary: k)
  case (Cons x xs)
  obtain a b where x: "x = (a, b)" by (cases x)
  have "map_of xs a = None" using Cons.prems by (simp add: x map_of_eq_None_iff)
  then have "map_of (retain_entries f xs) a = None" using Cons by simp
  then show ?case using Cons by (auto simp: x retain_entries_def map_filter_simps split_def Let_def)
qed (simp add: retain_entries_def map_filter_simps)

lemma retain_entries_keys: "set (map fst (retain_entries f xs)) \<subseteq> set (map fst xs)"
  by (induction xs) (auto simp: retain_entries_def map_filter_simps split_def Let_def)

text \<open>What the operations rely on: reading, writing and removing keep an invariant and act as on a map, and
  the entries list the map without repetition.\<close>

locale kv_data =
  fixes lookup :: "'d \<Rightarrow> 'k \<Rightarrow> 'v option"
    and put :: "'k \<Rightarrow> 'v \<Rightarrow> 'd \<Rightarrow> 'd"
    and del :: "'k \<Rightarrow> 'd \<Rightarrow> 'd"
    and entries :: "'d \<Rightarrow> ('k \<times> 'v) list"
    and inv :: "'d \<Rightarrow> bool"
  assumes lookup_put: "inv d \<Longrightarrow> lookup (put k v d) = (lookup d)(k \<mapsto> v)"
    and lookup_del: "inv d \<Longrightarrow> lookup (del k d) = (lookup d)(k := None)"
    and inv_put: "inv d \<Longrightarrow> inv (put k v d)"
    and inv_del: "inv d \<Longrightarrow> inv (del k d)"
    and lookup_entries: "inv d \<Longrightarrow> lookup d = map_of (entries d)"
    and distinct_entries: "inv d \<Longrightarrow> distinct (map fst (entries d))"
begin

lemma put_many:
  assumes "inv d"
  shows "inv (fold (\<lambda>(k, v). put k v) items d) \<and> lookup (fold (\<lambda>(k, v). put k v) items d) = lookup d ++ map_of (rev items)"
  using assms
proof (induction items arbitrary: d)
  case (Cons x items)
  obtain k v where x: "x = (k, v)" by (cases x)
  show ?case using Cons.IH [OF inv_put [OF Cons.prems, of k v]] by (simp add: x lookup_put [OF Cons.prems] map_add_def fun_eq_iff
      split: option.split)
qed simp

lemma number_of_entries:
  assumes "inv d"
  shows "length (entries d) = card (dom (lookup d))"
  using distinct_card [OF distinct_entries [OF assms]] by (simp add: lookup_entries [OF assms] dom_map_of_conv_image_fst)

lemma retained:
  assumes "inv d"
  shows "map_of (retain_entries f (entries d)) k =
    (case lookup d k of None \<Rightarrow> None | Some v \<Rightarrow> if fst (f k v) then Some (snd (f k v)) else None)"
  using retain_entries_get [OF distinct_entries [OF assms]] by (simp add: lookup_entries [OF assms])

end

interpretation hash: kv_data hm_get hm_insert hm_remove "\<lambda>d. d" hm_ok
  by unfold_locales (simp_all, simp add: hm_ok_def)

lemma bt_get_map_of: "bt_get d = map_of (bt_list d)"
  by (simp add: fun_eq_iff bt_get_def)

interpretation ordered: kv_data bt_get bt_insert bt_remove bt_list bt_ok
proof
  fix k :: 'a and v :: 'b and d :: "('a, 'b) btree"
  assume ok: "bt_ok d"
  show "bt_get (bt_insert k v d) = (bt_get d)(k \<mapsto> v)" "bt_ok (bt_insert k v d)"
    using ok by (simp_all add: bt_ok_def bt_insert_def bt_get_map_of bl_insert_get bl_insert_sorted)
  have "map_of (filter (\<lambda>(x, _). x \<noteq> k) xs) = (map_of xs)(k := None)" for xs :: "('a \<times> 'b) list"
    by (induction xs) (auto simp: fun_eq_iff)
  then show "bt_get (bt_remove k d) = (bt_get d)(k := None)" by (simp add: bt_remove_def bt_get_map_of)
  show "bt_ok (bt_remove k d)" using ok by (auto simp: bt_ok_def bt_remove_def sorted_wrt_filter_fst)
  show "distinct (map fst (bt_list d))" using ok strict_sorted_iff unfolding bt_ok_def by blast
qed (simp_all add: bt_get_map_of)

section \<open>Refinement of maps\<close>

text \<open>The operations both stores have, those only one of them has, and their results.\<close>

datatype ('k, 'v) kv_op =
    KInsert 'k 'v | KGet 'k | KRemove 'k | KContains 'k | KUpdate 'k "'v option \<Rightarrow> 'v"
  | KInsertMany "('k \<times> 'v) list" | KRetain "'k \<Rightarrow> 'v \<Rightarrow> bool \<times> 'v" | KClear | KLen | KIsEmpty

datatype ('k, 'v) hash_op =
    HCommon "('k, 'v) kv_op" | HGetOrInsert 'k 'v | HGetOrInsertWith 'k "unit \<Rightarrow> 'v" | HKeys | HValues | HIter

datatype ('k, 'v) ordered_op =
    OCommon "('k, 'v) kv_op" | OKeys | OValues | OIter | OFirst | OLast | OPopFirst | OPopLast
  | ORange "'k bound" "'k bound" nat | ORangeRev "'k bound" "'k bound" nat | ORangeCount "'k bound" "'k bound"

datatype ('k, 'v) kv_result =
    ROption "'v option" | RValue 'v | RBool bool | RUnit | RNat nat | RKeys "'k list" | RValues "'v list"
  | REntry "('k \<times> 'v) option" | REntries "('k \<times> 'v) list" | RPanic

definition result :: "('a \<Rightarrow> ('k, 'v) kv_result) \<Rightarrow> (store_error + 'a) \<times> 's \<Rightarrow> (store_error + ('k, 'v) kv_result) \<times> 's" where
  "result f r = (case r of (Inl e, s) \<Rightarrow> (Inl e, s) | (Inr a, s) \<Rightarrow> (Inr (f a), s))"

fun hash_exec_common :: "pid option \<Rightarrow> ('k, 'v) kv_op \<Rightarrow> ('k, 'v) hash_store \<Rightarrow> (store_error + ('k, 'v) kv_result) \<times> ('k, 'v) hash_store" where
  "hash_exec_common c (KInsert k v) s = result ROption (store_insert c k v s)"
| "hash_exec_common c (KGet k) s = result ROption (store_get c k s)"
| "hash_exec_common c (KRemove k) s = result ROption (store_remove c k s)"
| "hash_exec_common c (KContains k) s = result RBool (store_contains_key c k s)"
| "hash_exec_common c (KUpdate k f) s = result RValue (store_update c k f s)"
| "hash_exec_common c (KInsertMany items) s = result (\<lambda>_. RUnit) (store_insert_many c items s)"
| "hash_exec_common c (KRetain f) s = result (\<lambda>_. RUnit) (store_retain c f s)"
| "hash_exec_common c KClear s = result (\<lambda>_. RUnit) (store_clear c s)"
| "hash_exec_common c KLen s = result RNat (store_len c s)"
| "hash_exec_common c KIsEmpty s = result RBool (store_is_empty c s)"

fun hash_exec :: "pid option \<Rightarrow> ('k, 'v) hash_op \<Rightarrow> ('k, 'v) hash_store \<Rightarrow> (store_error + ('k, 'v) kv_result) \<times> ('k, 'v) hash_store" where
  "hash_exec c (HCommon op) s = hash_exec_common c op s"
| "hash_exec c (HGetOrInsert k v) s = result RValue (store_get_or_insert c k v s)"
| "hash_exec c (HGetOrInsertWith k f) s = result RValue (store_get_or_insert_with c k f s)"
| "hash_exec c HKeys s = result RKeys (store_keys c s)"
| "hash_exec c HValues s = result RValues (store_values c s)"
| "hash_exec c HIter s = result REntries (store_iter c s)"

fun ordered_exec_common :: "pid option \<Rightarrow> ('k::linorder, 'v) kv_op \<Rightarrow> ('k, 'v) ordered_store \<Rightarrow>
    (store_error + ('k, 'v) kv_result) \<times> ('k, 'v) ordered_store" where
  "ordered_exec_common c (KInsert k v) s = result ROption (ordered_insert c k v s)"
| "ordered_exec_common c (KGet k) s = result ROption (ordered_get c k s)"
| "ordered_exec_common c (KRemove k) s = result ROption (ordered_remove c k s)"
| "ordered_exec_common c (KContains k) s = result RBool (ordered_contains_key c k s)"
| "ordered_exec_common c (KUpdate k f) s = result RValue (ordered_update c k f s)"
| "ordered_exec_common c (KInsertMany items) s = result (\<lambda>_. RUnit) (ordered_insert_many c items s)"
| "ordered_exec_common c (KRetain f) s = result (\<lambda>_. RUnit) (ordered_retain c f s)"
| "ordered_exec_common c KClear s = result (\<lambda>_. RUnit) (ordered_clear c s)"
| "ordered_exec_common c KLen s = result RNat (ordered_len c s)"
| "ordered_exec_common c KIsEmpty s = result RBool (ordered_is_empty c s)"

definition or_panic :: "('a \<Rightarrow> ('k, 'v) kv_result) \<Rightarrow> 'a option \<Rightarrow> ('k, 'v) kv_result" where
  "or_panic f x = (case x of None \<Rightarrow> RPanic | Some a \<Rightarrow> f a)"

fun ordered_exec :: "pid option \<Rightarrow> ('k::linorder, 'v) ordered_op \<Rightarrow> ('k, 'v) ordered_store \<Rightarrow>
    (store_error + ('k, 'v) kv_result) \<times> ('k, 'v) ordered_store" where
  "ordered_exec c (OCommon op) s = ordered_exec_common c op s"
| "ordered_exec c OKeys s = result RKeys (ordered_keys c s)"
| "ordered_exec c OValues s = result RValues (ordered_values c s)"
| "ordered_exec c OIter s = result REntries (ordered_iter c s)"
| "ordered_exec c OFirst s = result REntry (ordered_first c s)"
| "ordered_exec c OLast s = result REntry (ordered_last c s)"
| "ordered_exec c OPopFirst s = result REntry (ordered_pop_first c s)"
| "ordered_exec c OPopLast s = result REntry (ordered_pop_last c s)"
| "ordered_exec c (ORange lo hi n) s = result (or_panic REntries) (ordered_range c lo hi n s, s)"
| "ordered_exec c (ORangeRev lo hi n) s = result (or_panic REntries) (ordered_range_rev c lo hi n s, s)"
| "ordered_exec c (ORangeCount lo hi) s = result (or_panic RNat) (ordered_range_count c lo hi s, s)"

fun exec_all :: "('op \<Rightarrow> 's \<Rightarrow> 'r \<times> 's) \<Rightarrow> 'op list \<Rightarrow> 's \<Rightarrow> 'r list \<times> 's" where
  "exec_all step [] s = ([], s)"
| "exec_all step (op # ops) s = (let (r, s1) = step op s; (rs, s2) = exec_all step ops s1 in (r # rs, s2))"

text \<open>The specification: a finite map.\<close>

fun map_exec :: "('k, 'v) kv_op \<Rightarrow> ('k \<rightharpoonup> 'v) \<Rightarrow> ('k, 'v) kv_result \<times> ('k \<rightharpoonup> 'v)" where
  "map_exec (KInsert k v) m = (ROption (m k), m(k \<mapsto> v))"
| "map_exec (KGet k) m = (ROption (m k), m)"
| "map_exec (KRemove k) m = (ROption (m k), m(k := None))"
| "map_exec (KContains k) m = (RBool (k \<in> dom m), m)"
| "map_exec (KUpdate k f) m = (RValue (f (m k)), m(k \<mapsto> f (m k)))"
| "map_exec (KInsertMany items) m = (RUnit, m ++ map_of (rev items))"
| "map_exec (KRetain f) m =
    (RUnit, \<lambda>k. case m k of None \<Rightarrow> None | Some v \<Rightarrow> if fst (f k v) then Some (snd (f k v)) else None)"
| "map_exec KClear m = (RUnit, Map.empty)"
| "map_exec KLen m = (RNat (card (dom m)), m)"
| "map_exec KIsEmpty m = (RBool (dom m = {}), m)"

text \<open>The hash store lists its entries in no particular order: a listing of the map is any list of its keys without
  repetition, and a step of the specification gives the condition its result has to meet.\<close>

definition lists_map :: "('k \<rightharpoonup> 'v) \<Rightarrow> ('k list \<Rightarrow> ('k, 'v) kv_result) \<Rightarrow> ('k, 'v) kv_result \<Rightarrow> bool" where
  "lists_map m f r \<longleftrightarrow> (\<exists>ks. distinct ks \<and> set ks = dom m \<and> r = f ks)"

fun hash_map_exec :: "('k, 'v) hash_op \<Rightarrow> ('k \<rightharpoonup> 'v) \<Rightarrow> (('k, 'v) kv_result \<Rightarrow> bool) \<times> ('k \<rightharpoonup> 'v)" where
  "hash_map_exec (HCommon op) m = (let (r, m') = map_exec op m in ((=) r, m'))"
| "hash_map_exec (HGetOrInsert k v) m =
    (case m k of Some old \<Rightarrow> ((=) (RValue old), m) | None \<Rightarrow> ((=) (RValue v), m(k \<mapsto> v)))"
| "hash_map_exec (HGetOrInsertWith k f) m =
    (case m k of Some old \<Rightarrow> ((=) (RValue old), m) | None \<Rightarrow> ((=) (RValue (f ())), m(k \<mapsto> f ())))"
| "hash_map_exec HKeys m = (lists_map m RKeys, m)"
| "hash_map_exec HValues m = (lists_map m (\<lambda>ks. RValues (map (\<lambda>k. the (m k)) ks)), m)"
| "hash_map_exec HIter m = (lists_map m (\<lambda>ks. REntries (map (\<lambda>k. (k, the (m k))) ks)), m)"

text \<open>The ordered store lists the map by ascending keys; beside the map the specification keeps whether an
  ill-formed range panics, which it does from the first insertion after the start or a \<open>clear\<close>.\<close>

definition sorted_entries :: "('k::linorder \<rightharpoonup> 'v) \<Rightarrow> ('k \<times> 'v) list" where
  "sorted_entries m = map (\<lambda>k. (k, the (m k))) (sorted_list_of_set (dom m))"

definition without :: "('k \<times> 'v) option \<Rightarrow> ('k \<rightharpoonup> 'v) \<Rightarrow> ('k \<rightharpoonup> 'v)" where
  "without e m = (case e of None \<Rightarrow> m | Some (k, _) \<Rightarrow> m(k := None))"

definition in_range :: "'k::linorder bound \<Rightarrow> 'k bound \<Rightarrow> ('k \<rightharpoonup> 'v) \<Rightarrow> ('k \<times> 'v) list" where
  "in_range lo hi m = filter (\<lambda>(k, _). above lo k \<and> below hi k) (sorted_entries m)"

fun strict_after :: "('k, 'v) kv_op \<Rightarrow> bool \<Rightarrow> bool" where
  "strict_after (KInsert k v) strict = True"
| "strict_after (KUpdate k f) strict = True"
| "strict_after (KInsertMany items) strict = (strict \<or> items \<noteq> [])"
| "strict_after KClear strict = False"
| "strict_after _ strict = strict"

fun ordered_map_exec :: "('k::linorder, 'v) ordered_op \<Rightarrow> bool \<times> ('k \<rightharpoonup> 'v) \<Rightarrow> ('k, 'v) kv_result \<times> bool \<times> ('k \<rightharpoonup> 'v)" where
  "ordered_map_exec (OCommon op) (strict, m) = (let (r, m') = map_exec op m in (r, strict_after op strict, m'))"
| "ordered_map_exec OKeys (strict, m) = (RKeys (sorted_list_of_set (dom m)), strict, m)"
| "ordered_map_exec OValues (strict, m) = (RValues (map snd (sorted_entries m)), strict, m)"
| "ordered_map_exec OIter (strict, m) = (REntries (sorted_entries m), strict, m)"
| "ordered_map_exec OFirst (strict, m) = (REntry (list_first (sorted_entries m)), strict, m)"
| "ordered_map_exec OLast (strict, m) = (REntry (list_last (sorted_entries m)), strict, m)"
| "ordered_map_exec OPopFirst (strict, m) =
    (REntry (list_first (sorted_entries m)), strict, without (list_first (sorted_entries m)) m)"
| "ordered_map_exec OPopLast (strict, m) =
    (REntry (list_last (sorted_entries m)), strict, without (list_last (sorted_entries m)) m)"
| "ordered_map_exec (ORange lo hi n) (strict, m) =
    ((if strict \<and> range_panics lo hi then RPanic else REntries (take n (in_range lo hi m))), strict, m)"
| "ordered_map_exec (ORangeRev lo hi n) (strict, m) =
    ((if strict \<and> range_panics lo hi then RPanic else REntries (take n (rev (in_range lo hi m)))), strict, m)"
| "ordered_map_exec (ORangeCount lo hi) (strict, m) =
    ((if strict \<and> range_panics lo hi then RPanic else RNat (length (in_range lo hi m))), strict, m)"

definition bt_abs :: "('k::linorder, 'v) btree \<Rightarrow> bool \<times> ('k \<rightharpoonup> 'v)" where
  "bt_abs d = (bt_root d, bt_get d)"

lemma bt_dom: "dom (bt_get d) = set (map fst (bt_list d))"
  by (simp add: bt_get_map_of dom_map_of_conv_image_fst)

lemma sorted_entries_bt:
  assumes "bt_ok d"
  shows "sorted_entries (bt_get d) = bt_list d" "sorted_list_of_set (dom (bt_get d)) = map fst (bt_list d)"
proof -
  have keys: "sorted (map fst (bt_list d))" "distinct (map fst (bt_list d))"
    using assms strict_sorted_iff unfolding bt_ok_def by blast+
  then show dom: "sorted_list_of_set (dom (bt_get d)) = map fst (bt_list d)"
    unfolding bt_dom using keys by (intro sorted_list_of_set.idem_if_sorted_distinct)
  have "map (\<lambda>k. (k, the (bt_get d k))) (map fst (bt_list d)) = bt_list d"
    using keys(2) by (auto simp: bt_get_def intro!: map_idI)
  then show "sorted_entries (bt_get d) = bt_list d" by (simp only: sorted_entries_def dom)
qed

lemma checked_cases:
  "checked caller f s =
    (case check_access caller s of
       Inl e \<Rightarrow> (Inl e, s) | Inr _ \<Rightarrow> (Inr (fst (f (st_data s))), s\<lparr> st_data := snd (f (st_data s)) \<rparr>))"
  by (simp add: checked_def split_def Let_def split: sum.split)

text \<open>A step of a store against a step of the specification.\<close>

definition simulates :: "('d \<Rightarrow> 'm) \<Rightarrow> ('d \<Rightarrow> bool) \<Rightarrow> 'd store \<Rightarrow>
    (store_error + ('k, 'v) kv_result) \<times> 'd store \<Rightarrow> (('k, 'v) kv_result \<Rightarrow> bool) \<times> 'm \<Rightarrow> bool" where
  "simulates absf okd s r spec \<longleftrightarrow>
     (\<exists>x. fst r = Inr x \<and> fst spec x) \<and> okd (st_data (snd r)) \<and> absf (st_data (snd r)) = snd spec \<and>
     (\<exists>d. snd r = s\<lparr> st_data := d \<rparr>)"

lemma simulates_result:
  assumes "check_access c s = Inr ()" "fst spec (g (fst (f (st_data s))))" "okd (snd (f (st_data s)))"
    and "absf (snd (f (st_data s))) = snd spec"
  shows "simulates absf okd s (result g (checked c f s)) spec"
  using assms by (auto simp: simulates_def result_def checked_cases)

lemmas hash_ops = store_insert_def store_get_def store_remove_def store_contains_key_def store_update_def store_insert_many_def
  store_retain_def store_clear_def store_len_def store_is_empty_def store_get_or_insert_def store_get_or_insert_with_def
  store_keys_def store_values_def store_iter_def

lemmas ordered_ops = ordered_insert_def ordered_get_def ordered_remove_def ordered_contains_key_def ordered_update_def
  ordered_insert_many_def ordered_retain_def ordered_clear_def ordered_len_def ordered_is_empty_def

text \<open>A step of the specification with one result.\<close>

definition exactly :: "'r \<times> 'm \<Rightarrow> ('r \<Rightarrow> bool) \<times> 'm" where
  "exactly rm = ((=) (fst rm), snd rm)"

lemma exactly_simps [simp]: "fst (exactly rm) x \<longleftrightarrow> fst rm = x" "snd (exactly rm) = snd rm"
  by (simp_all add: exactly_def)

lemma hash_exec_common_simulates:
  assumes "hm_ok (st_data s)" "check_access c s = Inr ()"
  shows "simulates hm_get hm_ok s (hash_exec_common c op s) (exactly (map_exec op (hm_get (st_data s))))"
proof -
  note keep = retain_entries_get [OF assms(1) [unfolded hm_ok_def]]
  have ret_ok: "hm_ok (retain_entries f (st_data s))" for f
  proof -
    have "distinct (map fst (retain_entries f xs))" if "distinct (map fst xs)" for xs :: "('a \<times> 'b) list"
      using that
    proof (induction xs)
      case (Cons x xs)
      then show ?case using retain_entries_keys [of f xs]
        by (auto simp: retain_entries_def map_filter_simps split_def Let_def)
    qed (simp add: retain_entries_def map_filter_simps)
    then show ?thesis using assms(1) by (simp add: hm_ok_def)
  qed
  show ?thesis
  proof (cases op)
    case (KLen)
    show ?thesis unfolding KLen hash_exec_common.simps hash_ops
      using assms hash.number_of_entries [OF assms(1)] by (intro simulates_result) simp_all
  next
    case (KRetain f)
    show ?thesis unfolding KRetain hash_exec_common.simps hash_ops
      using assms ret_ok keep by (intro simulates_result) (simp_all add: fun_eq_iff)
  next
    case (KInsertMany items)
    show ?thesis unfolding KInsertMany hash_exec_common.simps hash_ops
      using assms hash.put_many [OF assms(1), of items] by (intro simulates_result) simp_all
  qed (use assms in \<open>simp only: hash_exec_common.simps hash_ops; intro simulates_result;
      simp add: store_update_read_def store_update_write_def hm_contains_def domIff; fail\<close>)+
qed

lemma hash_exec_simulates:
  assumes "hm_ok (st_data s)" "check_access c s = Inr ()"
  shows "simulates hm_get hm_ok s (hash_exec c op s) (hash_map_exec op (hm_get (st_data s)))"
proof -
  let ?d = "st_data s"
  have distinct: "distinct (map fst ?d)" using assms(1) by (simp add: hm_ok_def)
  have listing: "lists_map (hm_get ?d) f (f (map fst ?d))" for f :: "'a list \<Rightarrow> ('a, 'b) kv_result"
    unfolding lists_map_def using distinct set_hm_keys [of ?d] by (intro exI [of _ "map fst ?d"]) (simp add: hm_keys_def)
  have the_get: "the (hm_get ?d k) = v" if "(k, v) \<in> set ?d" for k v
    using map_of_is_SomeI [OF distinct that] by simp
  have entries: "map (\<lambda>k. (k, the (hm_get ?d k))) (map fst ?d) = ?d" "map (\<lambda>k. the (hm_get ?d k)) (map fst ?d) = map snd ?d"
    by (auto simp: the_get intro!: map_idI)
  show ?thesis
  proof (cases op)
    case (HCommon op')
    then show ?thesis using hash_exec_common_simulates [OF assms, of op'] by (simp add: exactly_def split_def Let_def)
  next
    case (HGetOrInsert k v)
    show ?thesis unfolding HGetOrInsert hash_exec.simps hash_ops
      using assms by (intro simulates_result) (simp_all add: entry_or_insert_def split: option.split)
  next
    case (HGetOrInsertWith k f)
    show ?thesis unfolding HGetOrInsertWith hash_exec.simps hash_ops
      using assms by (intro simulates_result) (simp_all split: option.split)
  next
    case HKeys
    show ?thesis unfolding HKeys hash_exec.simps hash_ops
      using assms listing [of RKeys] by (intro simulates_result) (simp_all add: hm_keys_def)
  next
    case HValues
    show ?thesis unfolding HValues hash_exec.simps hash_ops
      using assms listing [of "\<lambda>ks. RValues (map (\<lambda>k. the (hm_get ?d k)) ks)", unfolded entries(2)]
      by (intro simulates_result) (simp_all add: hm_values_def)
  next
    case HIter
    show ?thesis unfolding HIter hash_exec.simps hash_ops
      using assms listing [of "\<lambda>ks. REntries (map (\<lambda>k. (k, the (hm_get ?d k))) ks)", unfolded entries(1)]
      by (intro simulates_result) simp_all
  qed
qed

lemma retain_entries_simps:
  "retain_entries f [] = []"
  "retain_entries f (x # d) =
    (if fst (f (fst x) (snd x)) then (fst x, snd (f (fst x) (snd x))) # retain_entries f d else retain_entries f d)"
  by (simp_all add: retain_entries_def map_filter_simps split_def Let_def)

lemma retain_entries_ok: "sorted_wrt (<) (map fst d) \<Longrightarrow> sorted_wrt (<) (map fst (retain_entries f d))"
  for d :: "('k::linorder \<times> 'v) list"
proof (induction d)
  case (Cons x d)
  have "sorted_wrt (<) (map fst (retain_entries f d))" "\<forall>y \<in> set (map fst d). fst x < y" using Cons by simp_all
  moreover from this(2) have "\<forall>y \<in> set (map fst (retain_entries f d)). fst x < y"
    using retain_entries_keys [of f d] by blast
  ultimately show ?case by (simp add: retain_entries_simps)
qed (simp add: retain_entries_simps)

text \<open>The two changes of a tree that write its root mark, and the one that leaves it alone.\<close>

lemma bt_root_simps [simp]:
  "bt_root (bt_insert k v d)" "bt_root (bt_remove k d) = bt_root d" "\<not> bt_root bt_new"
  by (simp_all add: bt_insert_def bt_remove_def bt_new_def)

lemma bt_root_many: "bt_root (fold (\<lambda>p. bt_insert (fst p) (snd p)) items d) = (bt_root d \<or> items \<noteq> [])"
proof (induction items arbitrary: d)
  case (Cons x items)
  show ?case using Cons.IH [of "bt_insert (fst x) (snd x) d"] by simp
qed simp

lemma bt_relist:
  assumes "bt_ok d" "sorted_wrt (<) (map fst xs)" "bt_list d = [] \<longrightarrow> xs = []"
  shows "bt_ok (d\<lparr> bt_list := xs \<rparr>)" "bt_abs (d\<lparr> bt_list := xs \<rparr>) = (bt_root d, map_of xs)"
  using assms by (auto simp: bt_ok_def bt_abs_def bt_get_map_of)

lemma bt_new_laws: "bt_ok bt_new" "bt_abs bt_new = (False, Map.empty)"
  by (simp_all add: bt_ok_def bt_abs_def bt_get_map_of bt_new_def)

definition ordered_spec :: "('k::linorder, 'v) kv_op \<Rightarrow> ('k, 'v) btree \<Rightarrow> ('k, 'v) kv_result \<times> bool \<times> ('k \<rightharpoonup> 'v)" where
  "ordered_spec op d = (let (r, m) = map_exec op (bt_get d) in (r, strict_after op (bt_root d), m))"

lemma ordered_exec_common_simulates:
  assumes "bt_ok (st_data s)" "check_access c s = Inr ()"
  shows "simulates bt_abs bt_ok s (ordered_exec_common c op s) (exactly (ordered_spec op (st_data s)))"
proof -
  let ?d = "st_data s"
  have distinct: "distinct (map fst (bt_list ?d))" by (rule ordered.distinct_entries [OF assms(1)])
  note keep = retain_entries_get [OF distinct, folded bt_get_def]
  note spec = ordered_spec_def bt_abs_def split_def Let_def
  show ?thesis
  proof (cases op)
    case (KLen)
    show ?thesis unfolding KLen ordered_exec_common.simps ordered_ops
      using assms ordered.number_of_entries [OF assms(1)] by (intro simulates_result) (simp_all add: spec)
  next
    case (KRetain f)
    have "sorted_wrt (<) (map fst (retain_entries f (bt_list ?d)))"
      using assms(1) by (simp add: bt_ok_def retain_entries_ok)
    note r = bt_relist [OF assms(1) this]
    have "bt_list ?d = [] \<longrightarrow> retain_entries f (bt_list ?d) = []" by (simp add: retain_entries_simps)
    note r = r [OF this]
    show ?thesis unfolding KRetain ordered_exec_common.simps ordered_ops
      using assms r keep by (intro simulates_result) (simp_all add: ordered_spec_def fun_eq_iff)
  next
    case (KInsertMany items)
    show ?thesis unfolding KInsertMany ordered_exec_common.simps ordered_ops
      using assms ordered.put_many [OF assms(1), of items] by (intro simulates_result) (simp_all add: spec bt_root_many)
  next
    case (KIsEmpty)
    show ?thesis unfolding KIsEmpty ordered_exec_common.simps ordered_ops
      using assms by (intro simulates_result) (simp_all add: spec bt_dom)
  next
    case (KClear)
    show ?thesis unfolding KClear ordered_exec_common.simps ordered_ops
      using assms by (intro simulates_result) (simp_all add: ordered_spec_def bt_new_laws)
  qed (use assms ordered.lookup_put [OF assms(1)] ordered.lookup_del [OF assms(1)] ordered.inv_put [OF assms(1)]
      ordered.inv_del [OF assms(1)] in
      \<open>simp only: ordered_exec_common.simps ordered_ops; intro simulates_result; simp add: spec domIff; fail\<close>)+
qed

lemma bt_drop:
  assumes "bt_ok d"
  shows "bt_ok (d\<lparr> bt_list := drop 1 (bt_list d) \<rparr>)"
    "bt_abs (d\<lparr> bt_list := drop 1 (bt_list d) \<rparr>) = (bt_root d, without (list_first (bt_list d)) (bt_get d))"
    "bt_ok (d\<lparr> bt_list := butlast (bt_list d) \<rparr>)"
    "bt_abs (d\<lparr> bt_list := butlast (bt_list d) \<rparr>) = (bt_root d, without (list_last (bt_list d)) (bt_get d))"
proof -
  let ?l = "bt_list d"
  have sorted: "sorted_wrt (<) (map fst ?l)" using assms by (simp add: bt_ok_def)
  have "sorted_wrt (<) (map fst (drop 1 ?l))" using sorted by (cases ?l) auto
  moreover have "map_of (drop 1 ?l) = without (list_first ?l) (bt_get d)"
    using sorted by (cases ?l) (auto simp: bt_get_map_of without_def list_first_def fun_eq_iff map_of_eq_None_iff)
  ultimately show "bt_ok (d\<lparr> bt_list := drop 1 ?l \<rparr>)" "bt_abs (d\<lparr> bt_list := drop 1 ?l \<rparr>) = (bt_root d, without (list_first ?l) (bt_get d))"
    using bt_relist [OF assms, of "drop 1 ?l"] by simp_all
  have "sorted_wrt (<) (map fst (butlast ?l))" using sorted by (cases ?l rule: rev_cases) (auto simp: sorted_wrt_append)
  moreover have "map_of (butlast ?l) = without (list_last ?l) (bt_get d)"
  proof (cases ?l rule: rev_cases)
    case (snoc ys y)
    obtain k v where y: "y = (k, v)" by (cases y)
    have "map_of ys k = None" using sorted snoc by (auto simp: sorted_wrt_append y map_of_eq_None_iff)
    then show ?thesis
      by (auto simp: snoc y bt_get_map_of without_def list_last_def list_first_def fun_eq_iff map_add_def split: option.split)
  qed (simp add: bt_get_map_of without_def list_last_def list_first_def)
  ultimately show "bt_ok (d\<lparr> bt_list := butlast ?l \<rparr>)" "bt_abs (d\<lparr> bt_list := butlast ?l \<rparr>) = (bt_root d, without (list_last ?l) (bt_get d))"
    using bt_relist [OF assms, of "butlast ?l"] by simp_all
qed

lemma ordered_exec_simulates:
  assumes "bt_ok (st_data s)" "check_access c s = Inr ()"
  shows "simulates bt_abs bt_ok s (ordered_exec c op s) (exactly (ordered_map_exec op (bt_abs (st_data s))))"
proof -
  let ?d = "st_data s"
  note abs = sorted_entries_bt [OF assms(1)]
  have range: "simulates bt_abs bt_ok s (result g (fst (checked c (\<lambda>d. (f d, d)) s), s)) (exactly (g (f ?d), bt_abs ?d))" for f g
    using assms by (simp add: simulates_def result_def checked_cases) (rule exI [of _ ?d], simp)
  note entries = bt_abs_def or_panic_def bt_range_def in_range_def
  show ?thesis
  proof (cases op)
    case (OCommon op')
    then show ?thesis using ordered_exec_common_simulates [OF assms, of op'] by (simp add: ordered_spec_def bt_abs_def)
  next
    case OPopFirst
    show ?thesis unfolding OPopFirst ordered_exec.simps ordered_pop_first_def
      using assms bt_drop [OF assms(1)] abs by (intro simulates_result) (simp_all add: bt_abs_def [of ?d])
  next
    case OPopLast
    show ?thesis unfolding OPopLast ordered_exec.simps ordered_pop_last_def
      using assms bt_drop [OF assms(1)] abs by (intro simulates_result) (simp_all add: bt_abs_def [of ?d])
  next
    case (ORange lo hi n)
    show ?thesis unfolding ORange ordered_exec.simps ordered_range_def
      using range [of "or_panic REntries" "\<lambda>d. map_option (take n) (bt_range lo hi d)"] abs by (auto simp: entries)
  next
    case (ORangeRev lo hi n)
    show ?thesis unfolding ORangeRev ordered_exec.simps ordered_range_rev_def
      using range [of "or_panic REntries" "\<lambda>d. map_option (\<lambda>xs. take n (rev xs)) (bt_range lo hi d)"] abs by (auto simp: entries)
  next
    case (ORangeCount lo hi)
    show ?thesis unfolding ORangeCount ordered_exec.simps ordered_range_count_def
      using range [of "or_panic RNat" "\<lambda>d. map_option length (bt_range lo hi d)"] abs by (auto simp: entries)
  qed (use assms abs in \<open>simp only: ordered_exec.simps ordered_keys_def ordered_values_def ordered_iter_def ordered_first_def
      ordered_last_def; intro simulates_result; simp add: bt_abs_def; fail\<close>)+
qed

lemma denied_exec:
  assumes "check_access c s = Inl e"
  shows "ordered_exec c op s = (Inl e, s)"
proof -
  have "result g (checked c f s) = (Inl e, s)" "result g' (fst (checked c f s), s) = (Inl e, s)" for f g g'
    using assms by (simp_all add: result_def checked_def)
  note deny = this
  have "ordered_exec_common c op' s = (Inl e, s)" for op'
    by (cases op') (simp_all only: ordered_exec_common.simps ordered_ops deny)
  then show ?thesis
    by (cases op) (simp_all only: ordered_exec.simps ordered_keys_def ordered_values_def ordered_iter_def ordered_first_def
      ordered_last_def ordered_pop_first_def ordered_pop_last_def ordered_range_def ordered_range_rev_def ordered_range_count_def deny)
qed

lemma denied_hash_exec:
  assumes "check_access c s = Inl e"
  shows "hash_exec c op s = (Inl e, s)"
proof -
  have "result g (checked c f s) = (Inl e, s)" for f g
    using assms by (simp add: result_def checked_def)
  note deny = this
  have "hash_exec_common c op' s = (Inl e, s)" for op'
    by (cases op') (simp_all only: hash_exec_common.simps hash_ops deny)
  then show ?thesis by (cases op) (simp_all only: hash_exec.simps hash_ops deny)
qed

lemma check_access_data: "check_access c (s\<lparr> st_data := d \<rparr>) = check_access c s"
  by (simp add: check_access_def split: access.split option.split)

lemma simulated_run:
  assumes step: "\<And>s op. okd (st_data s) \<Longrightarrow> check_access c s = Inr () \<Longrightarrow>
      simulates absf okd s (step op s) (spec op (absf (st_data s)))"
    and "okd (st_data s)" "check_access c s = Inr ()"
  shows "list_all2 (\<lambda>r ok. \<exists>x. r = Inr x \<and> ok x) (fst (exec_all step ops s)) (fst (exec_all spec ops (absf (st_data s)))) \<and>
    okd (st_data (snd (exec_all step ops s))) \<and>
    absf (st_data (snd (exec_all step ops s))) = snd (exec_all spec ops (absf (st_data s)))"
  using assms(2,3)
proof (induction ops arbitrary: s)
  case (Cons op ops)
  obtain r s1 where e: "step op s = (r, s1)" by (cases "step op s")
  obtain a m where sp: "spec op (absf (st_data s)) = (a, m)" by (cases "spec op (absf (st_data s))")
  obtain x d where s1: "r = Inr x" "a x" "okd (st_data s1)" "absf (st_data s1) = m" "s1 = s\<lparr> st_data := d \<rparr>"
    using step [OF Cons.prems, of op] by (auto simp: simulates_def e sp)
  have "check_access c s1 = Inr ()" using Cons.prems(2) by (simp add: s1(5) check_access_data)
  from Cons.IH [OF s1(3) this] show ?case by (simp add: e sp s1(1,2,4) split_def Let_def)
qed simp

lemma exactly_run:
  "fst (exec_all (\<lambda>op m. exactly (spec op m)) ops m) = map (=) (fst (exec_all spec ops m))"
  "snd (exec_all (\<lambda>op m. exactly (spec op m)) ops m) = snd (exec_all spec ops m)"
  by (induction ops arbitrary: m) (simp_all add: exactly_def split_def Let_def)

lemma exactly_results: "list_all2 (\<lambda>r ok. \<exists>x. r = Inr x \<and> ok x) rs (map (=) xs) \<longleftrightarrow> rs = map Inr xs"
  by (induction rs arbitrary: xs) (auto simp: list_all2_Cons1)

lemma denied_run:
  assumes "\<And>op. step op s = (r, s)"
  shows "exec_all step ops s = (replicate (length ops) r, s)"
  by (induction ops) (simp_all add: assms)

text \<open>C14. Both stores are maps behind an access check.  Any sequence of operations of a process that the
  check admits gives exactly the results, and leaves the contents, that the same operations have on a finite
  map; for the ordered store this includes keys and entries in ascending order, the first and last entry,
  the ranges in both directions with their limits, and the panics of ill-formed ranges; the hash store may list
  its keys, values and entries in any order, each once.  A process that the check refuses gets the error from
  every operation and changes nothing.\<close>

theorem stores_refine_maps:
  assumes "bt_ok (st_data s)" "hm_ok (st_data t)"
  shows "(case check_access c s of
      Inl e \<Rightarrow> exec_all (ordered_exec c) ops s = (replicate (length ops) (Inl e), s)
    | Inr _ \<Rightarrow>
        fst (exec_all (ordered_exec c) ops s) = map Inr (fst (exec_all ordered_map_exec ops (bt_abs (st_data s)))) \<and>
        bt_abs (st_data (snd (exec_all (ordered_exec c) ops s))) = snd (exec_all ordered_map_exec ops (bt_abs (st_data s))) \<and>
        bt_ok (st_data (snd (exec_all (ordered_exec c) ops s)))) \<and>
    (case check_access c t of
      Inl e \<Rightarrow> exec_all (hash_exec c) kops t = (replicate (length kops) (Inl e), t)
    | Inr _ \<Rightarrow>
        list_all2 (\<lambda>r ok. \<exists>x. r = Inr x \<and> ok x) (fst (exec_all (hash_exec c) kops t))
          (fst (exec_all hash_map_exec kops (hm_get (st_data t)))) \<and>
        hm_get (st_data (snd (exec_all (hash_exec c) kops t))) = snd (exec_all hash_map_exec kops (hm_get (st_data t))) \<and>
        hm_ok (st_data (snd (exec_all (hash_exec c) kops t))))"
proof (rule conjI)
  show "case check_access c s of
      Inl e \<Rightarrow> exec_all (ordered_exec c) ops s = (replicate (length ops) (Inl e), s)
    | Inr _ \<Rightarrow>
        fst (exec_all (ordered_exec c) ops s) = map Inr (fst (exec_all ordered_map_exec ops (bt_abs (st_data s)))) \<and>
        bt_abs (st_data (snd (exec_all (ordered_exec c) ops s))) = snd (exec_all ordered_map_exec ops (bt_abs (st_data s))) \<and>
        bt_ok (st_data (snd (exec_all (ordered_exec c) ops s)))"
    using denied_run [where step = "ordered_exec c", OF denied_exec]
      simulated_run [where step = "ordered_exec c" and absf = bt_abs and spec = "\<lambda>op m. exactly (ordered_map_exec op m)",
        OF ordered_exec_simulates assms(1)]
    by (cases "check_access c s") (auto simp: exactly_run exactly_results)
  show "case check_access c t of
      Inl e \<Rightarrow> exec_all (hash_exec c) kops t = (replicate (length kops) (Inl e), t)
    | Inr _ \<Rightarrow>
        list_all2 (\<lambda>r ok. \<exists>x. r = Inr x \<and> ok x) (fst (exec_all (hash_exec c) kops t))
          (fst (exec_all hash_map_exec kops (hm_get (st_data t)))) \<and>
        hm_get (st_data (snd (exec_all (hash_exec c) kops t))) = snd (exec_all hash_map_exec kops (hm_get (st_data t))) \<and>
        hm_ok (st_data (snd (exec_all (hash_exec c) kops t)))"
    using denied_run [where step = "hash_exec c", OF denied_hash_exec]
      simulated_run [where step = "hash_exec c", OF hash_exec_simulates assms(2)]
    by (cases "check_access c t") auto
qed

definition ex_ordered_store :: "access \<Rightarrow> (nat, nat) ordered_store" where
  "ex_ordered_store acc = \<lparr> st_id = 0, st_owner = \<lparr> pid_node = [], pid_id = 1, pid_creation = 0 \<rparr>, st_data = bt_new, st_access = acc,
     st_name = None, st_heir = None, st_deleted = False \<rparr>"

definition ex_hash_store :: "(nat, nat) hash_store" where
  "ex_hash_store = \<lparr> st_id = 1, st_owner = \<lparr> pid_node = [], pid_id = 1, pid_creation = 0 \<rparr>, st_data = [], st_access = Public,
     st_name = None, st_heir = None, st_deleted = False \<rparr>"

definition ex_store_ops :: "(nat, nat) ordered_op list" where
  "ex_store_ops = [ORange (Excluded 3) (Excluded 3) 9, OCommon (KInsert 5 1), OCommon (KInsert 2 7),
     ORangeRev (Included 1) Unbounded 1, OPopFirst, OKeys, ORange (Excluded 3) (Excluded 3) 9]"

definition ex_hash_ops :: "(nat, nat) hash_op list" where
  "ex_hash_ops = [HGetOrInsert 5 1, HGetOrInsertWith 5 (\<lambda>_. 2), HKeys]"

theorem stores_refine_maps_witness:
  "fst (exec_all (ordered_exec (Some (st_owner (ex_ordered_store Private)))) ex_store_ops (ex_ordered_store Private)) =
     map Inr (fst (exec_all ordered_map_exec ex_store_ops (bt_abs bt_new))) \<and>
   fst (exec_all (ordered_exec (Some (st_owner (ex_ordered_store Private)))) ex_store_ops (ex_ordered_store Private)) =
    [Inr (REntries []), Inr (ROption None), Inr (ROption None), Inr (REntries [(5, 1)]), Inr (REntry (Some (2, 7))),
     Inr (RKeys [5]), Inr RPanic] \<and>
   fst (exec_all (hash_exec None) ex_hash_ops ex_hash_store) = [Inr (RValue 1), Inr (RValue 1), Inr (RKeys [5])] \<and>
   hm_get (st_data (snd (exec_all (hash_exec None) ex_hash_ops ex_hash_store))) 5 = Some 1"
proof -
  let ?s = "ex_ordered_store Private" and ?t = ex_hash_store
  have ok: "bt_ok (st_data ?s)" "hm_ok (st_data ?t)" by (simp_all add: ex_ordered_store_def ex_hash_store_def bt_new_laws)
  have "check_access (Some (st_owner ?s)) ?s = Inr ()" by (simp add: check_access_def ex_ordered_store_def)
  then have "fst (exec_all (ordered_exec (Some (st_owner ?s))) ex_store_ops ?s) =
      map Inr (fst (exec_all ordered_map_exec ex_store_ops (bt_abs (st_data ?s))))"
    using stores_refine_maps [OF ok, of "Some (st_owner ?s)" ex_store_ops "[]"] by simp
  moreover have "st_data ?s = bt_new" by (simp add: ex_ordered_store_def)
  moreover have "check_access None ?t = Inr ()" by (simp add: check_access_def ex_hash_store_def)
  then have "hm_get (st_data (snd (exec_all (hash_exec None) ex_hash_ops ?t))) = snd (exec_all hash_map_exec ex_hash_ops (hm_get (st_data ?t)))"
    using stores_refine_maps [OF ok, of None "[]" ex_hash_ops] by simp
  then have "hm_get (st_data (snd (exec_all (hash_exec None) ex_hash_ops ?t))) 5 = Some 1"
    by (simp add: ex_hash_ops_def ex_hash_store_def entry_or_insert_def)
  moreover have "fst (exec_all (ordered_exec (Some (st_owner ?s))) ex_store_ops ?s) =
    [Inr (REntries []), Inr (ROption None), Inr (ROption None), Inr (REntries [(5, 1)]), Inr (REntry (Some (2, 7))),
     Inr (RKeys [5]), Inr RPanic]"
    by code_simp
  moreover have "fst (exec_all (hash_exec None) ex_hash_ops ?t) = [Inr (RValue 1), Inr (RValue 1), Inr (RKeys [5])]"
    by code_simp
  ultimately show ?thesis by simp
qed
end
