(* ===== verification/Store_Reg.thy ===== *)
theory Store_Reg
  imports Store
begin

text \<open>
  The registry of stores (\<open>store/registry.rs\<close>): owners, names and heirs, giving a store away, and the
  clean-up when a process ends, which hands its stores to their heirs or forgets them.  The registry
  lives beside the runtime, which tells whether an heir is alive and carries the message to it.
\<close>

section \<open>State\<close>

record store_metadata =
  sm_owner :: pid
  sm_name :: "string option"
  sm_heir :: "pid option"

record store_registry =
  sr_stores :: "(store_id, store_metadata) hmap"
  sr_names :: "(string, store_id) hmap"
  sr_by_owner :: "(pid, store_id list) hmap"

definition store_registry_new :: store_registry where
  "store_registry_new = \<lparr> sr_stores = [], sr_names = [], sr_by_owner = [] \<rparr>"

definition register_store :: "store_id \<Rightarrow> pid \<Rightarrow> string option \<Rightarrow> pid option \<Rightarrow> store_registry \<Rightarrow> store_registry" where
  "register_store sid owner nm heir R =
     R\<lparr> sr_stores := hm_insert sid \<lparr> sm_owner = owner, sm_name = nm, sm_heir = heir \<rparr> (sr_stores R),
        sr_names := (case nm of Some n \<Rightarrow> hm_insert n sid (sr_names R) | None \<Rightarrow> sr_names R),
        sr_by_owner := hm_entry owner [] (List.insert sid) (sr_by_owner R) \<rparr>"

definition unregister_store :: "store_id \<Rightarrow> store_registry \<Rightarrow> store_registry" where
  "unregister_store sid R =
    (case hm_get (sr_stores R) sid of
       None \<Rightarrow> R
     | Some m \<Rightarrow>
         R\<lparr> sr_stores := hm_remove sid (sr_stores R),
            sr_names := (case sm_name m of Some n \<Rightarrow> hm_remove n (sr_names R) | None \<Rightarrow> sr_names R),
            sr_by_owner := hm_get_mut (sm_owner m) (removeAll sid) (sr_by_owner R) \<rparr>)"

definition transfer_ownership :: "store_id \<Rightarrow> pid \<Rightarrow> pid \<Rightarrow> store_registry \<Rightarrow> store_registry" where
  "transfer_ownership sid old new R =
     R\<lparr> sr_stores := hm_get_mut sid (\<lambda>m. m\<lparr> sm_owner := new \<rparr>) (sr_stores R),
        sr_by_owner := hm_entry new [] (List.insert sid) (hm_get_mut old (removeAll sid) (sr_by_owner R)) \<rparr>"

definition store_whereis :: "string \<Rightarrow> store_registry \<Rightarrow> store_id option" where
  "store_whereis n R = hm_get (sr_names R) n"

definition stores_owned_by :: "pid \<Rightarrow> store_registry \<Rightarrow> store_id list" where
  "stores_owned_by p R = (case hm_get (sr_by_owner R) p of Some ids \<Rightarrow> ids | None \<Rightarrow> [])"

definition owner_of :: "store_id \<Rightarrow> store_registry \<Rightarrow> pid option" where
  "owner_of sid R = map_option sm_owner (hm_get (sr_stores R) sid)"

definition heir_of :: "store_id \<Rightarrow> store_registry \<Rightarrow> pid option" where
  "heir_of sid R = (case hm_get (sr_stores R) sid of Some m \<Rightarrow> sm_heir m | None \<Rightarrow> None)"

definition name_of :: "store_id \<Rightarrow> store_registry \<Rightarrow> string option" where
  "name_of sid R = (case hm_get (sr_stores R) sid of Some m \<Rightarrow> sm_name m | None \<Rightarrow> None)"

definition set_heir :: "store_id \<Rightarrow> pid option \<Rightarrow> store_registry \<Rightarrow> store_registry" where
  "set_heir sid heir R = R\<lparr> sr_stores := hm_get_mut sid (\<lambda>m. m\<lparr> sm_heir := heir \<rparr>) (sr_stores R) \<rparr>"

record store_stats =
  ss_total :: nat
  ss_named :: nat
  ss_owners :: nat

definition store_stats_of :: "store_registry \<Rightarrow> store_stats" where
  "store_stats_of R = \<lparr> ss_total = length (sr_stores R), ss_named = length (sr_names R), ss_owners = length (sr_by_owner R) \<rparr>"

section \<open>Stores in the runtime\<close>

record store_inherited =
  sh_store_id :: store_id
  sh_old_owner :: pid
  sh_name :: "string option"

text \<open>The payload of the message is serialised by a library.\<close>

definition inherited_encode :: "(store_inherited \<Rightarrow> byte list) \<Rightarrow> store_inherited \<Rightarrow> byte list" where
  "inherited_encode enc m = encode_with_tag (map of_char ''StoreInherited'') (enc m)"

record store_world =
  sw_registry :: store_registry
  sw_next_id :: store_id
  sw_rt :: runtime

definition store_id_new :: "store_world \<Rightarrow> store_id \<times> store_world" where
  "store_id_new w = (sw_next_id w, w\<lparr> sw_next_id := sw_next_id w + 1 \<rparr>)"

text \<open>\<open>d0\<close> is the empty map of either kind of store.\<close>

definition store_new_with_owner :: "'d \<Rightarrow> pid \<Rightarrow> store_options \<Rightarrow> store_world \<Rightarrow> 'd store \<times> store_world" where
  "store_new_with_owner d0 owner opts w =
    (let (sid, w1) = store_id_new w in
     (\<lparr> st_id = sid, st_owner = owner, st_data = d0, st_access = so_access opts, st_name = so_name opts,
        st_heir = so_heir opts, st_deleted = False \<rparr>,
      w1\<lparr> sw_registry := register_store sid owner (so_name opts) (so_heir opts) (sw_registry w1) \<rparr>))"

text \<open>Without a process there is no owner: \<open>None\<close> is a panic.\<close>

definition store_with_options :: "'d \<Rightarrow> pid option \<Rightarrow> store_options \<Rightarrow> store_world \<Rightarrow> ('d store \<times> store_world) option" where
  "store_with_options d0 caller opts w =
    (case caller of None \<Rightarrow> None | Some p \<Rightarrow> Some (store_new_with_owner d0 p opts w))"

text \<open>The owner a store remembers is fixed when it is created; only the registry changes.\<close>

definition give_away :: "pid option \<Rightarrow> pid \<Rightarrow> 'd store \<Rightarrow> store_world \<Rightarrow> (store_error + unit) \<times> store_world" where
  "give_away caller new s w =
    (case caller of
       None \<Rightarrow> (Inl NoProcessContext, w)
     | Some p \<Rightarrow>
        if p \<noteq> st_owner s then (Inl AccessDenied, w)
        else (Inr (), w\<lparr> sw_registry := transfer_ownership (st_id s) (st_owner s) new (sw_registry w) \<rparr>))"

text \<open>One store of a process that has ended, then all of them.\<close>

definition cleanup_store :: "(store_inherited \<Rightarrow> byte list) \<Rightarrow> pid \<Rightarrow> store_id \<Rightarrow> store_world \<Rightarrow> store_world" where
  "cleanup_store enc p sid w =
    (case heir_of sid (sw_registry w) of
       Some heir \<Rightarrow>
        if rt_alive heir (sw_rt w) then
          (let nm = name_of sid (sw_registry w); R = transfer_ownership sid p heir (sw_registry w);
               msg = \<lparr> sh_store_id = sid, sh_old_owner = p, sh_name = nm \<rparr>
           in w\<lparr> sw_registry := R, sw_rt := snd (rt_send_raw heir (PData (inherited_encode enc msg)) (sw_rt w)) \<rparr>)
        else w\<lparr> sw_registry := unregister_store sid (sw_registry w) \<rparr>
     | None \<Rightarrow> w\<lparr> sw_registry := unregister_store sid (sw_registry w) \<rparr>)"

definition cleanup_owned_stores :: "(store_inherited \<Rightarrow> byte list) \<Rightarrow> pid \<Rightarrow> store_world \<Rightarrow> store_world" where
  "cleanup_owned_stores enc p w =
    (let w1 = fold (cleanup_store enc p) (stores_owned_by p (sw_registry w)) w
     in w1\<lparr> sw_registry := (sw_registry w1)\<lparr> sr_by_owner := hm_remove p (sr_by_owner (sw_registry w1)) \<rparr> \<rparr>)"

section \<open>The invariant\<close>

text \<open>Every store is in the set of its owner, a name leads to a store of that name, and the identifiers have
  been handed out.\<close>

definition reg_inv :: "store_registry \<Rightarrow> bool" where
  "reg_inv R \<longleftrightarrow>
     (\<forall>sid m. hm_get (sr_stores R) sid = Some m \<longrightarrow> sid \<in> set (stores_owned_by (sm_owner m) R)) \<and>
     (\<forall>n sid. hm_get (sr_names R) n = Some sid \<longrightarrow> (\<exists>m. hm_get (sr_stores R) sid = Some m \<and> sm_name m = Some n))"

lemmas reg_invI = reg_inv_def [THEN iffD2, OF conjI, rule_format]
lemmas reg_invD = reg_inv_def [THEN iffD1, THEN conjunct1, rule_format] reg_inv_def [THEN iffD1, THEN conjunct2, rule_format]

lemma owned_entry [simp]:
  "stores_owned_by p (R\<lparr> sr_by_owner := hm_entry q [] f m \<rparr>) =
    (if p = q then f (case hm_get m q of Some ids \<Rightarrow> ids | None \<Rightarrow> []) else (case hm_get m p of Some ids \<Rightarrow> ids | None \<Rightarrow> []))"
  by (simp add: stores_owned_by_def split: option.split)

lemma owned_get_mut:
  "(case hm_get (hm_get_mut q (removeAll sid) m) p of Some ids \<Rightarrow> ids | None \<Rightarrow> []) =
    (let ids = (case hm_get m p of Some ids \<Rightarrow> ids | None \<Rightarrow> []) in if p = q then removeAll sid ids else ids)"
  by (simp add: hm_get_get_mut Let_def split: option.split)

lemma stores_owned_transfer:
  "stores_owned_by p (transfer_ownership sid old new R) =
    (if p = new then List.insert sid (if p = old then removeAll sid (stores_owned_by p R) else stores_owned_by p R)
     else if p = old then removeAll sid (stores_owned_by p R) else stores_owned_by p R)"
  by (simp add: transfer_ownership_def owned_get_mut Let_def) (simp add: stores_owned_by_def)

lemma transfer_stores:
  "hm_get (sr_stores (transfer_ownership sid old new R)) i =
    (if i = sid then map_option (\<lambda>m. m\<lparr> sm_owner := new \<rparr>) (hm_get (sr_stores R) sid) else hm_get (sr_stores R) i)"
  "sr_names (transfer_ownership sid old new R) = sr_names R"
  by (simp_all add: transfer_ownership_def hm_get_get_mut)

lemma unregister_stores:
  "hm_get (sr_stores (unregister_store sid R)) i = (if i = sid then None else hm_get (sr_stores R) i)"
  "hm_get (sr_names (unregister_store sid R)) n =
    (if \<exists>m. hm_get (sr_stores R) sid = Some m \<and> sm_name m = Some n then None else hm_get (sr_names R) n)"
  "stores_owned_by p (unregister_store sid R) =
    (if \<exists>m. hm_get (sr_stores R) sid = Some m \<and> sm_owner m = p then removeAll sid (stores_owned_by p R) else stores_owned_by p R)"
  by (auto simp: unregister_store_def stores_owned_by_def hm_get_get_mut split: option.splits)

lemma transfer_inv:
  assumes "reg_inv R"
  shows "reg_inv (transfer_ownership sid old new R)"
proof (rule reg_invI, goal_cases)
  case (1 i m)
  show ?case
  proof (cases "i = sid")
    case False
    then have i: "hm_get (sr_stores R) i = Some m" using 1 by (simp add: transfer_stores)
    show ?thesis using reg_invD(1) [OF assms i] False by (auto simp: stores_owned_transfer)
  next
    case True
    then show ?thesis using 1 by (auto simp: transfer_stores stores_owned_transfer)
  qed
next
  case (2 n i)
  then obtain m where "hm_get (sr_stores R) i = Some m" "sm_name m = Some n"
    using reg_invD(2) [OF assms] by (auto simp: transfer_stores)
  then show ?case by (cases "i = sid") (simp_all add: transfer_stores)
qed

lemma unregister_inv:
  assumes "reg_inv R"
  shows "reg_inv (unregister_store sid R)"
proof (rule reg_invI, goal_cases)
  case (1 i m)
  then show ?case using reg_invD(1) [OF assms] by (auto simp: unregister_stores split: if_splits)
next
  case (2 n i)
  then obtain m where "hm_get (sr_stores R) i = Some m" "sm_name m = Some n" "i \<noteq> sid"
    using reg_invD(2) [OF assms, of n i] by (auto simp: unregister_stores split: if_splits)
  then show ?case by (simp add: unregister_stores)
qed

lemma register_inv:
  assumes "reg_inv R" "hm_get (sr_stores R) sid = None"
  shows "reg_inv (register_store sid owner nm heir R)"
proof (rule reg_invI, goal_cases)
  case (1 i m)
  have own: "stores_owned_by q (register_store sid owner nm heir R) =
      (if q = owner then List.insert sid (stores_owned_by q R) else stores_owned_by q R)" for q
    by (simp add: register_store_def stores_owned_by_def split: option.split)
  show ?case
  proof (cases "i = sid")
    case False
    then have i: "hm_get (sr_stores R) i = Some m" using 1 by (simp add: register_store_def)
    show ?thesis using reg_invD(1) [OF assms(1) i] by (auto simp: own)
  next
    case True
    then show ?thesis using 1 by (auto simp: own register_store_def)
  qed
next
  case (2 n i)
  show ?case
  proof (cases "nm = Some n")
    case True
    then show ?thesis using 2 by (simp add: register_store_def)
  next
    case False
    then have "hm_get (sr_names R) n = Some i" using 2 by (auto simp: register_store_def split: option.splits if_splits)
    then obtain m where "hm_get (sr_stores R) i = Some m" "sm_name m = Some n" using reg_invD(2) [OF assms(1)] by blast
    then show ?thesis using assms(2) by (auto simp: register_store_def)
  qed
qed

section \<open>Clean-up\<close>

text \<open>The heir that takes a store over, if there is one and it is alive.\<close>

definition taker :: "store_world \<Rightarrow> store_id \<Rightarrow> pid option" where
  "taker w sid =
    (case heir_of sid (sw_registry w) of
       Some h \<Rightarrow> if rt_alive h (sw_rt w) then Some h else None
     | None \<Rightarrow> None)"

lemma taker_registered: "taker w sid = Some h \<Longrightarrow> hm_get (sr_stores (sw_registry w)) sid \<noteq> None"
  by (auto simp: taker_def heir_of_def split: option.splits)

lemma rt_alive_send [simp]: "rt_alive q (snd (rt_send_raw p d s)) = rt_alive q s"
  by (simp add: rt_alive_def rt_get_send_raw handle_is_alive_def split: option.split)

definition inherit_message :: "(store_inherited \<Rightarrow> byte list) \<Rightarrow> pid \<Rightarrow> store_world \<Rightarrow> store_id \<Rightarrow> payload" where
  "inherit_message enc p w sid =
     PData (inherited_encode enc \<lparr> sh_store_id = sid, sh_old_owner = p, sh_name = name_of sid (sw_registry w) \<rparr>)"

lemma cleanup_store_eq:
  "cleanup_store enc p sid w =
    (case taker w sid of
       Some h \<Rightarrow> w\<lparr> sw_registry := transfer_ownership sid p h (sw_registry w),
                   sw_rt := snd (rt_send_raw h (inherit_message enc p w sid) (sw_rt w)) \<rparr>
     | None \<Rightarrow> w\<lparr> sw_registry := unregister_store sid (sw_registry w) \<rparr>)"
  by (simp add: cleanup_store_def taker_def inherit_message_def Let_def split: option.split)

lemma cleanup_store_stores:
  "hm_get (sr_stores (sw_registry (cleanup_store enc p sid w))) i =
    (if i = sid then (case taker w sid of Some h \<Rightarrow> map_option (\<lambda>m. m\<lparr> sm_owner := h \<rparr>) (hm_get (sr_stores (sw_registry w)) sid) | None \<Rightarrow> None)
     else hm_get (sr_stores (sw_registry w)) i)"
  by (simp add: cleanup_store_eq transfer_stores unregister_stores split: option.split)

lemma cleanup_store_others:
  assumes "i \<noteq> sid"
  shows "taker (cleanup_store enc p sid w) i = taker w i"
    "inherit_message enc p (cleanup_store enc p sid w) i = inherit_message enc p w i"
proof -
  have same: "heir_of i (sw_registry (cleanup_store enc p sid w)) = heir_of i (sw_registry w)"
    "name_of i (sw_registry (cleanup_store enc p sid w)) = name_of i (sw_registry w)"
    using assms by (simp_all add: heir_of_def name_of_def cleanup_store_stores)
  have "rt_alive h (sw_rt (cleanup_store enc p sid w)) = rt_alive h (sw_rt w)" for h
    by (simp add: cleanup_store_eq split: option.split)
  then show "taker (cleanup_store enc p sid w) i = taker w i" by (simp add: taker_def same split: option.split)
  show "inherit_message enc p (cleanup_store enc p sid w) i = inherit_message enc p w i" by (simp add: inherit_message_def same)
qed

lemma cleanup_fold_stores:
  "distinct ids \<Longrightarrow> hm_get (sr_stores (sw_registry (fold (cleanup_store enc p) ids w))) i =
    (if i \<in> set ids then (case taker w i of Some h \<Rightarrow> map_option (\<lambda>m. m\<lparr> sm_owner := h \<rparr>) (hm_get (sr_stores (sw_registry w)) i) | None \<Rightarrow> None)
     else hm_get (sr_stores (sw_registry w)) i)"
proof (induction ids arbitrary: w)
  case (Cons sid ids)
  have "taker (cleanup_store enc p sid w) i = taker w i" if "i \<in> set ids"
    using Cons.prems that by (intro cleanup_store_others(1)) auto
  then show ?case using Cons by (auto simp: cleanup_store_stores split: option.split)
qed simp

lemma cleanup_fold_inv: "reg_inv (sw_registry w) \<Longrightarrow> reg_inv (sw_registry (fold (cleanup_store enc p) ids w))"
proof (induction ids arbitrary: w)
  case (Cons sid ids)
  have "reg_inv (sw_registry (cleanup_store enc p sid w))"
    using Cons.prems by (simp add: cleanup_store_eq transfer_inv unregister_inv split: option.split)
  then show ?case using Cons.IH by simp
qed simp

lemma cleanup_fold_mail:
  assumes "distinct ids" "rt_local (sw_rt w) q" "rt_get (sw_rt w) q = Some Q" "\<not> pr_closed Q"
  shows "rt_get (sw_rt (fold (cleanup_store enc p) ids w)) q =
    Some (Q\<lparr> pr_mailbox := pr_mailbox Q @ map (inherit_message enc p w) (filter (\<lambda>i. taker w i = Some q) ids) \<rparr>)"
  using assms
proof (induction ids arbitrary: w Q)
  case (Cons sid ids)
  let ?w = "cleanup_store enc p sid w"
  let ?Q = "Q\<lparr> pr_mailbox := pr_mailbox Q @ (if taker w sid = Some q then [inherit_message enc p w sid] else []) \<rparr>"
  have here: "rt_local (sw_rt ?w) q" "rt_get (sw_rt ?w) q = Some ?Q" "\<not> pr_closed ?Q"
    using Cons.prems by (auto simp: cleanup_store_eq rt_get_send_raw handle_send_def split: option.split)
  have ne: "i \<noteq> sid" if "i \<in> set ids" for i using Cons.prems(1) that by auto
  have rest: "filter (\<lambda>i. taker ?w i = Some q) ids = filter (\<lambda>i. taker w i = Some q) ids"
    "map (inherit_message enc p ?w) (filter P ids) = map (inherit_message enc p w) (filter P ids)" for P
    by (auto intro!: filter_cong simp: cleanup_store_others [OF ne])
  show ?case using Cons.IH [OF _ here] Cons.prems(1) by (simp add: rest)
qed simp

lemma cleanup_registry:
  "sw_registry (cleanup_owned_stores enc p w) =
    (let R = sw_registry (fold (cleanup_store enc p) (stores_owned_by p (sw_registry w)) w) in R\<lparr> sr_by_owner := hm_remove p (sr_by_owner R) \<rparr>)"
  "sw_rt (cleanup_owned_stores enc p w) = sw_rt (fold (cleanup_store enc p) (stores_owned_by p (sw_registry w)) w)"
  "sw_next_id (cleanup_owned_stores enc p w) = sw_next_id (fold (cleanup_store enc p) (stores_owned_by p (sw_registry w)) w)"
  by (simp_all add: cleanup_owned_stores_def Let_def)

lemma cleanup_inv:
  assumes "reg_inv (sw_registry w)" "distinct (stores_owned_by p (sw_registry w))" "\<not> rt_alive p (sw_rt w)"
  shows "reg_inv (sw_registry (cleanup_owned_stores enc p w)) \<and> owner_of i (sw_registry (cleanup_owned_stores enc p w)) \<noteq> Some p"
proof -
  let ?ids = "stores_owned_by p (sw_registry w)"
  let ?R = "sw_registry (fold (cleanup_store enc p) ?ids w)"
  have inv: "reg_inv ?R" by (rule cleanup_fold_inv [OF assms(1)])
  have gone: "sm_owner m \<noteq> p" if "hm_get (sr_stores ?R) i = Some m" for i m
  proof (cases "i \<in> set ?ids")
    case True
    then show ?thesis using that assms(3) cleanup_fold_stores [OF assms(2), of enc p w i]
      by (auto simp: taker_def split: option.splits if_splits)
  next
    case False
    then have i: "hm_get (sr_stores (sw_registry w)) i = Some m" using that cleanup_fold_stores [OF assms(2)] by simp
    show ?thesis using reg_invD(1) [OF assms(1) i] False by blast
  qed
  have R: "sw_registry (cleanup_owned_stores enc p w) = ?R\<lparr> sr_by_owner := hm_remove p (sr_by_owner ?R) \<rparr>"
    by (simp add: cleanup_registry Let_def)
  have own: "stores_owned_by q (?R\<lparr> sr_by_owner := hm_remove p (sr_by_owner ?R) \<rparr>) = stores_owned_by q ?R" if "q \<noteq> p" for q
    using that by (simp add: stores_owned_by_def)
  have "reg_inv (?R\<lparr> sr_by_owner := hm_remove p (sr_by_owner ?R) \<rparr>)"
    by (rule reg_invI) (use reg_invD [OF inv] gone own in auto)
  then show ?thesis using gone by (auto simp: R owner_of_def)
qed

text \<open>What a store holds does not matter to the registry, so the stores of a run hold nothing.  Runs: stores are created, given away, get heirs, processes end, and the runtime changes as it likes.\<close>

inductive store_reach :: "store_world \<Rightarrow> bool" where
  start: "store_reach \<lparr> sw_registry = store_registry_new, sw_next_id = 0, sw_rt = rt \<rparr>"
| new: "store_reach w \<Longrightarrow> sw_next_id w < - 1 \<Longrightarrow> store_reach (snd (store_new_with_owner () owner opts w))"
| give: "store_reach w \<Longrightarrow> store_reach (snd (give_away caller new (s :: unit store) w))"
| heir: "store_reach w \<Longrightarrow> store_reach (w\<lparr> sw_registry := set_heir sid heir (sw_registry w) \<rparr>)"
| cleanup: "store_reach w \<Longrightarrow> \<not> rt_alive p (sw_rt w) \<Longrightarrow> store_reach (cleanup_owned_stores enc p w)"
| runtime: "store_reach w \<Longrightarrow> store_reach (w\<lparr> sw_rt := rt \<rparr>)"

definition ids_below :: "store_world \<Rightarrow> bool" where
  "ids_below w \<longleftrightarrow> (\<forall>sid m. hm_get (sr_stores (sw_registry w)) sid = Some m \<longrightarrow> sid < sw_next_id w) \<and>
     (\<forall>p. distinct (stores_owned_by p (sw_registry w)))"

lemma cleanup_fold_below: "ids_below w \<Longrightarrow> ids_below (fold (cleanup_store enc p) ids w)"
proof (induction ids arbitrary: w)
  case (Cons sid ids)
  have next_id: "sw_next_id (cleanup_store enc p sid w) = sw_next_id w" by (simp add: cleanup_store_eq split: option.split)
  have "distinct (stores_owned_by q (sw_registry (cleanup_store enc p sid w)))" for q
    using Cons.prems by (simp add: cleanup_store_eq stores_owned_transfer unregister_stores ids_below_def distinct_removeAll split: option.split)
  then have "ids_below (cleanup_store enc p sid w)"
    using Cons.prems by (auto simp: ids_below_def next_id cleanup_store_stores split: if_splits option.splits)
  then show ?case using Cons.IH by simp
qed simp
lemma store_reach_inv:
  assumes "store_reach w"
  shows "reg_inv (sw_registry w) \<and> ids_below w"
  using assms
proof induction
  case (start rt)
  then show ?case by (simp add: reg_inv_def ids_below_def store_registry_new_def stores_owned_by_def)
next
  case (new w owner opts)
  let ?R = "register_store (sw_next_id w) owner (so_name opts) (so_heir opts) (sw_registry w)"
  have w: "sw_registry (snd (store_new_with_owner () owner opts w)) = ?R"
    "sw_next_id (snd (store_new_with_owner () owner opts w)) = sw_next_id w + 1"
    by (simp_all add: store_new_with_owner_def store_id_new_def Let_def)
  have up: "sw_next_id w < sw_next_id w + 1" using new.hyps(2) by unat_arith
  have fresh: "hm_get (sr_stores (sw_registry w)) (sw_next_id w) = None"
  proof (rule ccontr)
    assume "\<not> ?thesis"
    then obtain m where "hm_get (sr_stores (sw_registry w)) (sw_next_id w) = Some m" by blast
    then have "sw_next_id w < sw_next_id w" using new.IH unfolding ids_below_def by blast
    then show False by simp
  qed
  have "i < sw_next_id w + 1" if "hm_get (sr_stores ?R) i = Some m" for i m
    using that new.IH up by (auto simp: register_store_def ids_below_def split: if_splits dest: order_less_trans)
  moreover have "distinct (stores_owned_by p ?R)" for p
    using new.IH by (auto simp: register_store_def ids_below_def stores_owned_by_def split: option.split dest!: spec [of _ p])
  ultimately show ?case using register_inv [OF _ fresh] new.IH by (simp add: w ids_below_def)
next
  case (give w caller new s)
  have "ids_below (w\<lparr> sw_registry := transfer_ownership sid old p (sw_registry w) \<rparr>)" for sid old p
    using give.IH by (auto simp: ids_below_def transfer_stores stores_owned_transfer distinct_removeAll split: if_splits)
  then show ?case using give.IH transfer_inv by (auto simp: give_away_def split: option.split)
next
  case (heir w sid h)
  have stores: "hm_get (sr_stores (set_heir sid h R)) i =
      (if i = sid then map_option (\<lambda>m. m\<lparr> sm_heir := h \<rparr>) (hm_get (sr_stores R) i) else hm_get (sr_stores R) i)"
    "sr_names (set_heir sid h R) = sr_names R" "stores_owned_by p (set_heir sid h R) = stores_owned_by p R" for R i p
    by (simp_all add: set_heir_def hm_get_get_mut stores_owned_by_def)
  have "reg_inv (set_heir sid h (sw_registry w))"
  proof (rule reg_invI, goal_cases)
    case (1 i m)
    then obtain m0 where "hm_get (sr_stores (sw_registry w)) i = Some m0" "sm_owner m = sm_owner m0"
      by (auto simp: stores split: if_splits)
    then show ?case using heir.IH reg_invD(1) by (auto simp: stores)
  next
    case (2 n i)
    then have "hm_get (sr_names (sw_registry w)) n = Some i" by (simp add: stores)
    then obtain m where "hm_get (sr_stores (sw_registry w)) i = Some m" "sm_name m = Some n"
      using heir.IH reg_invD(2) [of "sw_registry w" n i] by blast
    then show ?case by (cases "i = sid") (simp_all add: stores)
  qed
  then show ?case using heir.IH by (auto simp: ids_below_def stores split: if_splits)
next
  case (cleanup w p enc)
  have "distinct (stores_owned_by p (sw_registry w))" using cleanup.IH by (simp add: ids_below_def)
  then have inv: "reg_inv (sw_registry (cleanup_owned_stores enc p w))" using cleanup_inv cleanup.IH cleanup.hyps(2) by blast
  have "ids_below (cleanup_owned_stores enc p w)"
    using cleanup_fold_below [of w enc p "stores_owned_by p (sw_registry w)"] cleanup.IH
    by (auto simp: ids_below_def cleanup_registry Let_def stores_owned_by_def)
  then show ?case using inv by simp
next
  case (runtime w rt)
  then show ?case by (simp add: ids_below_def)
qed

section \<open>Properties\<close>

text \<open>C15. The end of a process settles the stores filed under it.  In every reachable registry these are all
  the stores it owns and, when a store has been given away twice, also stores that have another owner by now.
  Each of them, whoever owns it, goes to its heir if that is alive and is forgotten otherwise; a store that is
  not filed under the process keeps its owner, and none is left with the dead process; every living process
  gets, behind its other messages, one message for each store it inherits; a name still leads to a registered
  store.\<close>

theorem store_cleanup_effect:
  assumes "store_reach w" "\<not> rt_alive p (sw_rt w)" and "w' = cleanup_owned_stores enc p w"
  shows "owner_of i (sw_registry w') =
      (if i \<in> set (stores_owned_by p (sw_registry w)) then taker w i else owner_of i (sw_registry w)) \<and>
    (owner_of i (sw_registry w) = Some p \<longrightarrow> i \<in> set (stores_owned_by p (sw_registry w))) \<and>
    owner_of i (sw_registry w') \<noteq> Some p \<and>
    (store_whereis n (sw_registry w') = Some i \<longrightarrow> owner_of i (sw_registry w') \<noteq> None) \<and>
    (rt_local (sw_rt w) q \<and> rt_get (sw_rt w) q = Some Q \<and> \<not> pr_closed Q \<longrightarrow>
      rt_get (sw_rt w') q = Some (Q\<lparr> pr_mailbox := pr_mailbox Q @
        map (inherit_message enc p w) (filter (\<lambda>i. taker w i = Some q) (stores_owned_by p (sw_registry w))) \<rparr>))"
proof -
  let ?ids = "stores_owned_by p (sw_registry w)"
  have inv: "reg_inv (sw_registry w)" and distinct: "distinct ?ids"
    using store_reach_inv [OF assms(1)] by (simp_all add: ids_below_def)
  note after = cleanup_inv [OF inv distinct assms(2), of enc]
  have own: "i \<in> set ?ids" if "owner_of i (sw_registry w) = Some p"
    using that reg_invD(1) [OF inv] by (auto simp: owner_of_def)
  have stores: "sr_stores (sw_registry w') = sr_stores (sw_registry (fold (cleanup_store enc p) ?ids w))"
    by (simp add: assms(3) cleanup_registry Let_def)
  have kept: "owner_of i (sw_registry w') = (if i \<in> set ?ids then taker w i else owner_of i (sw_registry w))"
    using taker_registered [of w i] by (auto simp: owner_of_def stores cleanup_fold_stores [OF distinct] option.map_comp o_def split: option.split)
  have named: "owner_of i (sw_registry w') \<noteq> None" if "store_whereis n (sw_registry w') = Some i"
    using reg_invD(2) after that by (fastforce simp: assms(3) store_whereis_def owner_of_def)
  have mail: "rt_get (sw_rt w') q = Some (Q\<lparr> pr_mailbox := pr_mailbox Q @
        map (inherit_message enc p w) (filter (\<lambda>i. taker w i = Some q) ?ids) \<rparr>)"
    if "rt_local (sw_rt w) q \<and> rt_get (sw_rt w) q = Some Q \<and> \<not> pr_closed Q"
    using cleanup_fold_mail [OF distinct, of w q Q enc p] that by (simp add: assms(3) cleanup_registry(2))
  have "owner_of i (sw_registry w') \<noteq> Some p" using after by (simp add: assms(3))
  then show ?thesis using kept named mail own by blast
qed

text \<open>Giving a private store away does not hand it over.  The store itself goes on asking for its
  creator: the new owner may neither use the store nor give it on, the old one still may do both.  When it
  gives the store to somebody else, the store also stays filed under the first receiver, whose end
  then removes it from the registry, whoever owns it now.\<close>

lemma given_store_not_owned:
  assumes "store_reach w" "st_access s = Private" "\<not> st_deleted s" "distinct [st_owner s, b, c]"
    and "hm_get (sr_stores (sw_registry w)) (st_id s) = Some m" "sm_owner m = st_owner s" "sm_heir m = None"
    and "give_away (Some (st_owner s)) b s w = (r1, w1)" "give_away (Some (st_owner s)) c s w1 = (r2, w2)"
    and "\<not> rt_alive b (sw_rt w)"
  shows "r1 = Inr () \<and> owner_of (st_id s) (sw_registry w1) = Some b \<and>
    check_access (Some b) s = Inl AccessDenied \<and> give_away (Some b) c s w1 = (Inl AccessDenied, w1) \<and>
    check_access (Some (st_owner s)) s = Inr () \<and>
    r2 = Inr () \<and> owner_of (st_id s) (sw_registry w2) = Some c \<and>
    owner_of (st_id s) (sw_registry (cleanup_owned_stores enc b w2)) = None"
proof -
  let ?a = "st_owner s" and ?i = "st_id s"
  let ?R1 = "transfer_ownership ?i ?a b (sw_registry w)"
  let ?R2 = "transfer_ownership ?i ?a c ?R1"
  have w1: "r1 = Inr ()" "w1 = w\<lparr> sw_registry := ?R1 \<rparr>" and w2: "r2 = Inr ()" "w2 = w\<lparr> sw_registry := ?R2 \<rparr>"
    using assms(8,9) by (auto simp: give_away_def)
  have "distinct (stores_owned_by b (sw_registry w))" using store_reach_inv [OF assms(1)] by (simp add: ids_below_def)
  then have distinct: "distinct (stores_owned_by b (sw_registry w2))" and filed: "?i \<in> set (stores_owned_by b (sw_registry w2))"
    using assms(4) by (auto simp: w2 stores_owned_transfer)
  have "hm_get (sr_stores ?R2) ?i = Some (m\<lparr> sm_owner := c \<rparr>)" using assms(5) by (simp add: transfer_stores)
  then have "taker w2 ?i = None" using assms(7) by (simp add: taker_def heir_of_def w2)
  then have "owner_of ?i (sw_registry (cleanup_owned_stores enc b w2)) = None"
    using cleanup_fold_stores [OF distinct, of enc b w2 ?i] filed by (simp add: owner_of_def cleanup_registry Let_def)
  then show ?thesis
    using assms(2-5) w1 w2 by (auto simp: owner_of_def transfer_stores check_access_def give_away_def)
qed

definition ex_store_pid :: "64 word \<Rightarrow> pid" where
  "ex_store_pid i = \<lparr> pid_node = [], pid_id = i, pid_creation = 0 \<rparr>"

text \<open>Process 1 is alive and the heir of a store of process 2, which is dead.\<close>

definition ex_store_world :: store_world where
  "ex_store_world = snd (store_new_with_owner () (ex_store_pid 2) \<lparr> so_access = Public, so_name = Some ''s'', so_heir = Some (ex_store_pid 1) \<rparr>
     \<lparr> sw_registry = store_registry_new, sw_next_id = 0,
        sw_rt = snd (rt_spawn (runtime_new \<lparr> ps_this = None, ps_counter = 1, ps_creation = 0 \<rparr>)) \<rparr>)"

lemma ex_store_reach: "store_reach ex_store_world"
  unfolding ex_store_world_def by (rule store_reach.new [OF store_reach.start]) (simp add: word_gt_0)

theorem store_cleanup_effect_witness:
  "owner_of 0 (sw_registry (cleanup_owned_stores (\<lambda>_. []) (ex_store_pid 2) ex_store_world)) = Some (ex_store_pid 1)"
proof -
  have dead: "\<not> rt_alive (ex_store_pid 2) (sw_rt ex_store_world)" by code_simp
  have "stores_owned_by (ex_store_pid 2) (sw_registry ex_store_world) = [0]" "taker ex_store_world 0 = Some (ex_store_pid 1)"
    by code_simp+
  then show ?thesis using store_cleanup_effect [OF ex_store_reach dead refl, of 0] by simp
qed

definition ex_private :: "unit store \<times> store_world" where
  "ex_private = store_new_with_owner () (ex_store_pid 1) \<lparr> so_access = Private, so_name = None, so_heir = None \<rparr>
     \<lparr> sw_registry = store_registry_new, sw_next_id = 0,
        sw_rt = snd (rt_spawn (runtime_new \<lparr> ps_this = None, ps_counter = 1, ps_creation = 0 \<rparr>)) \<rparr>"

end
