(* ===== verification/Timer.thy ===== *)
theory Timer
  imports Runtime
begin

text \<open>
  Timers (\<open>timer/mod.rs\<close>): the table of running timers and the tasks behind them.  A task is woken by its
  cancellation or by the clock; polling it is an external step at some time \<open>now\<close>, and a cancellation
  is looked at first.  A function to apply is a change of the runtime.
\<close>

section \<open>State\<close>

datatype timer_error = TimerNotFound | TimerCancelFailed

record timer_entry =
  te_started :: int
  te_duration :: int

datatype timer_action = SendTo pid "byte list" | Apply "runtime \<Rightarrow> runtime" | ExitProcess pid exit_reason

text \<open>\<open>tk_period\<close> is there for an interval.  The cancellation of a task is the message in its channel, or the
  loss of the sending end when the entry is dropped.\<close>

record timer_task =
  tk_action :: timer_action
  tk_due :: int
  tk_period :: "int option"
  tk_cancelled :: bool

record timer_world =
  tw_timers :: "(ref, timer_entry) hmap"
  tw_tasks :: "(ref, timer_task) hmap"
  tw_rt :: runtime

section \<open>Operations\<close>

definition timer_start :: "timer_action \<Rightarrow> int option \<Rightarrow> int \<Rightarrow> int \<Rightarrow> timer_world \<Rightarrow> ref \<times> timer_world" where
  "timer_start action period d now w =
    (let (r, rt) = rt_new_ref (tw_rt w);
         tasks = (if period = Some 0 then tw_tasks w
                  else hm_insert r \<lparr> tk_action = action, tk_due = now + d, tk_period = period, tk_cancelled = False \<rparr> (tw_tasks w))
     in (r, w\<lparr> tw_timers := hm_insert r \<lparr> te_started = now, te_duration = d \<rparr> (tw_timers w), tw_tasks := tasks, tw_rt := rt \<rparr>))"

definition send_after :: "int \<Rightarrow> pid \<Rightarrow> byte list \<Rightarrow> int \<Rightarrow> timer_world \<Rightarrow> ref \<times> timer_world" where
  "send_after delay p msg = timer_start (SendTo p msg) None delay"

text \<open>The first tick of an interval is skipped.  An interval of length zero makes the task panic, so that
  only the entry is left.\<close>

definition send_interval :: "int \<Rightarrow> pid \<Rightarrow> byte list \<Rightarrow> int \<Rightarrow> timer_world \<Rightarrow> ref \<times> timer_world" where
  "send_interval interval p msg = timer_start (SendTo p msg) (Some interval) interval"

definition apply_after :: "int \<Rightarrow> (runtime \<Rightarrow> runtime) \<Rightarrow> int \<Rightarrow> timer_world \<Rightarrow> ref \<times> timer_world" where
  "apply_after delay f = timer_start (Apply f) None delay"

definition apply_interval :: "int \<Rightarrow> (runtime \<Rightarrow> runtime) \<Rightarrow> int \<Rightarrow> timer_world \<Rightarrow> ref \<times> timer_world" where
  "apply_interval interval f = timer_start (Apply f) (Some interval) interval"

definition exit_after :: "int \<Rightarrow> pid \<Rightarrow> exit_reason \<Rightarrow> int \<Rightarrow> timer_world \<Rightarrow> ref \<times> timer_world" where
  "exit_after delay p reason = timer_start (ExitProcess p reason) None delay"

definition kill_after :: "int \<Rightarrow> pid \<Rightarrow> int \<Rightarrow> timer_world \<Rightarrow> ref \<times> timer_world" where
  "kill_after delay p = exit_after delay p Killed"

definition remaining :: "int \<Rightarrow> timer_entry \<Rightarrow> int" where
  "remaining now e = max 0 (te_duration e - (now - te_started e))"

definition timer_cancel :: "ref \<Rightarrow> int \<Rightarrow> timer_world \<Rightarrow> (timer_error + int) \<times> timer_world" where
  "timer_cancel r now w =
    (case hm_get (tw_timers w) r of
       None \<Rightarrow> (Inl TimerNotFound, w)
     | Some e \<Rightarrow>
         (Inr (remaining now e),
          w\<lparr> tw_timers := hm_remove r (tw_timers w), tw_tasks := hm_get_mut r (\<lambda>t. t\<lparr> tk_cancelled := True \<rparr>) (tw_tasks w) \<rparr>))"

definition timer_read :: "ref \<Rightarrow> int \<Rightarrow> timer_world \<Rightarrow> int option" where
  "timer_read r now w = map_option (remaining now) (hm_get (tw_timers w) r)"

text \<open>The action of a timer, and whether an interval goes on.\<close>

definition timer_act :: "timer_action \<Rightarrow> runtime \<Rightarrow> bool \<times> runtime" where
  "timer_act action rt =
    (case action of
       SendTo p msg \<Rightarrow> (case rt_send_raw p (PData msg) rt of (Inl _, rt1) \<Rightarrow> (False, rt1) | (Inr _, rt1) \<Rightarrow> (True, rt1))
     | Apply f \<Rightarrow> (True, f rt)
     | ExitProcess p reason \<Rightarrow> (True, rt_update p (handle_mark_terminated reason) rt))"

definition timer_drop :: "ref \<Rightarrow> timer_world \<Rightarrow> timer_world" where
  "timer_drop r w = w\<lparr> tw_timers := hm_remove r (tw_timers w), tw_tasks := hm_remove r (tw_tasks w) \<rparr>"

text \<open>A task is polled.\<close>

definition timer_poll :: "ref \<Rightarrow> int \<Rightarrow> timer_world \<Rightarrow> timer_world" where
  "timer_poll r now w =
    (case hm_get (tw_tasks w) r of
       None \<Rightarrow> w
     | Some t \<Rightarrow>
        if tk_cancelled t then timer_drop r w
        else if now < tk_due t then w
        else
          (let (go, rt) = timer_act (tk_action t) (tw_rt w); w1 = w\<lparr> tw_rt := rt \<rparr> in
           case tk_period t of
             Some d \<Rightarrow>
               if go then w1\<lparr> tw_tasks := hm_insert r (t\<lparr> tk_due := tk_due t + d \<rparr>) (tw_tasks w1) \<rparr> else timer_drop r w1
           | None \<Rightarrow> timer_drop r w1))"

section \<open>Timers that are over\<close>

text \<open>What others do to the runtime: the counter of references does not run over.\<close>

inductive timer_step :: "timer_world \<Rightarrow> timer_world \<Rightarrow> bool" where
  start: "rt_next_ref (tw_rt w) < - 1 \<Longrightarrow> timer_step w (snd (timer_start action period d now w))"
| cancel: "timer_step w (snd (timer_cancel r now w))"
| poll: "rt_next_ref (tw_rt w) \<le> rt_next_ref (tw_rt (timer_poll r now w)) \<Longrightarrow> timer_step w (timer_poll r now w)"
| others: "rt_next_ref (tw_rt w) \<le> rt_next_ref rt \<Longrightarrow> timer_step w (w\<lparr> tw_rt := rt \<rparr>)"

abbreviation timer_run :: "timer_world \<Rightarrow> timer_world \<Rightarrow> bool" where
  "timer_run \<equiv> timer_step\<^sup>*\<^sup>*"

definition timer_world_new :: "runtime \<Rightarrow> timer_world" where
  "timer_world_new rt = \<lparr> tw_timers = [], tw_tasks = [], tw_rt = rt \<rparr>"

text \<open>References in use have been handed out, and a task that has not been cancelled has an entry.\<close>

definition timers_ok :: "timer_world \<Rightarrow> bool" where
  "timers_ok w \<longleftrightarrow>
     (\<forall>r e. hm_get (tw_timers w) r = Some e \<longrightarrow> r < rt_next_ref (tw_rt w)) \<and>
     (\<forall>r t. hm_get (tw_tasks w) r = Some t \<longrightarrow> r < rt_next_ref (tw_rt w)) \<and>
     (\<forall>r t. hm_get (tw_tasks w) r = Some t \<longrightarrow> tk_cancelled t \<longleftrightarrow> hm_get (tw_timers w) r = None) \<and>
     (\<forall>r t. hm_get (tw_tasks w) r = Some t \<longrightarrow> tk_period t \<noteq> Some 0)"

definition timer_over :: "ref \<Rightarrow> timer_world \<Rightarrow> bool" where
  "timer_over r w \<longleftrightarrow> r < rt_next_ref (tw_rt w) \<and> hm_get (tw_timers w) r = None \<and>
     (case hm_get (tw_tasks w) r of None \<Rightarrow> True | Some t \<Rightarrow> tk_cancelled t)"

lemma timer_world_new_ok: "timers_ok (timer_world_new rt)"
  by (simp add: timers_ok_def timer_world_new_def)

lemma next_ref_up: "r < - 1 \<Longrightarrow> r < r + (1 :: 64 word)"
  by unat_arith

lemma timer_startE:
  assumes "timer_start action period d now w = (r, w')"
  shows "r = rt_next_ref (tw_rt w)" "rt_next_ref (tw_rt w') = r + 1"
    "tw_timers w' = hm_insert r \<lparr> te_started = now, te_duration = d \<rparr> (tw_timers w)"
    "tw_tasks w' = (if period = Some 0 then tw_tasks w
       else hm_insert r \<lparr> tk_action = action, tk_due = now + d, tk_period = period, tk_cancelled = False \<rparr> (tw_tasks w))"
  using assms by (auto simp: timer_start_def rt_new_ref_def)

lemma timer_poll_cases:
  obtains (idle) "timer_poll r now w = w" "\<And>t. hm_get (tw_tasks w) r = Some t \<Longrightarrow> \<not> tk_cancelled t \<Longrightarrow> now < tk_due t"
  | (gone) t where "hm_get (tw_tasks w) r = Some t" "tk_cancelled t" "timer_poll r now w = timer_drop r w"
  | (again) t d rt where "hm_get (tw_tasks w) r = Some t" "\<not> tk_cancelled t" "tk_due t \<le> now" "tk_period t = Some d"
      "timer_act (tk_action t) (tw_rt w) = (True, rt)"
      "timer_poll r now w = w\<lparr> tw_rt := rt, tw_tasks := hm_insert r (t\<lparr> tk_due := tk_due t + d \<rparr>) (tw_tasks w) \<rparr>"
  | (last) t b rt where "hm_get (tw_tasks w) r = Some t" "\<not> tk_cancelled t" "tk_due t \<le> now"
      "timer_act (tk_action t) (tw_rt w) = (b, rt)" "tk_period t = None \<or> \<not> b"
      "timer_poll r now w = timer_drop r (w\<lparr> tw_rt := rt \<rparr>)"
proof (cases "hm_get (tw_tasks w) r")
  case None
  then show ?thesis by (intro idle) (simp_all add: timer_poll_def)
next
  case (Some t)
  obtain b rt where act: "timer_act (tk_action t) (tw_rt w) = (b, rt)" by (cases "timer_act (tk_action t) (tw_rt w)")
  consider "tk_cancelled t" | "\<not> tk_cancelled t" "now < tk_due t" | "\<not> tk_cancelled t" "tk_due t \<le> now" by linarith
  then show ?thesis
  proof cases
    case 1
    then show ?thesis using Some by (intro gone) (simp_all add: timer_poll_def)
  next
    case 2
    then show ?thesis using Some by (intro idle) (simp_all add: timer_poll_def)
  next
    case 3
    show ?thesis
    proof (cases "tk_period t = None \<or> \<not> b")
      case True
      then show ?thesis using Some 3 act by (intro last [OF _ _ _ act]) (auto simp: timer_poll_def Let_def split: option.split)
    next
      case False
      then obtain d where "tk_period t = Some d" "b" by auto
      then show ?thesis using Some 3 act by (intro again) (simp_all add: timer_poll_def)
    qed
  qed
qed

lemma timers_okD:
  assumes "timers_ok w"
  shows "hm_get (tw_timers w) r = Some e \<Longrightarrow> r < rt_next_ref (tw_rt w)"
    "hm_get (tw_tasks w) r = Some t \<Longrightarrow> r < rt_next_ref (tw_rt w)"
    "hm_get (tw_tasks w) r = Some t \<Longrightarrow> tk_cancelled t \<longleftrightarrow> hm_get (tw_timers w) r = None"
    "hm_get (tw_tasks w) r = Some t \<Longrightarrow> tk_period t \<noteq> Some 0"
  using assms unfolding timers_ok_def by blast+

lemma timers_okI:
  assumes "\<And>r e. hm_get (tw_timers w) r = Some e \<Longrightarrow> r < rt_next_ref (tw_rt w)"
    "\<And>r t. hm_get (tw_tasks w) r = Some t \<Longrightarrow>
      r < rt_next_ref (tw_rt w) \<and> (tk_cancelled t \<longleftrightarrow> hm_get (tw_timers w) r = None) \<and> tk_period t \<noteq> Some 0"
  shows "timers_ok w"
  using assms unfolding timers_ok_def by blast

lemma timers_ok_drop: "timers_ok w \<Longrightarrow> timers_ok (timer_drop r w)"
  by (rule timers_okI) (auto simp: timer_drop_def dest: timers_okD split: if_splits)

lemma timers_ok_rt:
  assumes "timers_ok w" "rt_next_ref (tw_rt w) \<le> rt_next_ref rt"
  shows "timers_ok (w\<lparr> tw_rt := rt \<rparr>)"
  using assms by (intro timers_okI) (auto dest: timers_okD intro: order_less_le_trans)

lemma timer_step_ok:
  assumes "timer_step w w'" "timers_ok w"
  shows "timers_ok w'"
  using assms
proof cases
  case (start action period d now)
  obtain r w1 where s: "timer_start action period d now w = (r, w1)" by fastforce
  note e = timer_startE [OF s]
  have up: "rt_next_ref (tw_rt w) < rt_next_ref (tw_rt w1)" unfolding e(2) e(1) by (rule next_ref_up [OF start(2)])
  have "timers_ok w1"
  proof (rule timers_okI, goal_cases)
    case (1 i x)
    then show ?case using up timers_okD(1) [OF assms(2), of i] e by (cases "i = r") auto
  next
    case (2 i t)
    show ?case
    proof (cases "i = r")
      case True
      then have "period \<noteq> Some 0" using 2 timers_okD(2) [OF assms(2), of i] e(1,4) by auto
      then show ?thesis using 2 True up e by auto
    next
      case False
      then show ?thesis using 2 up timers_okD [OF assms(2), of i] e by (auto split: if_splits)
    qed
  qed
  then show ?thesis using start s by simp
next
  case (cancel r now)
  then show ?thesis using assms(2) timers_okD(4) [OF assms(2)]
    by (auto simp: timer_cancel_def hm_get_get_mut dest: timers_okD(1-3) intro!: timers_okI split: option.splits if_splits)
next
  case (poll r now)
  show ?thesis
  proof (cases rule: timer_poll_cases [of r now w])
    case (again t d rt)
    then have ok: "timers_ok (w\<lparr> tw_rt := rt \<rparr>)" using timers_ok_rt assms(2) poll by simp
    have w': "w' = w\<lparr> tw_rt := rt, tw_tasks := hm_insert r (t\<lparr> tk_due := tk_due t + d \<rparr>) (tw_tasks w) \<rparr>"
      using again poll by simp
    show ?thesis unfolding w'
    proof (rule timers_okI, goal_cases)
      case (1 i e)
      then show ?case using timers_okD(1) [OF ok, of i e] by simp
    next
      case (2 i x)
      then show ?case using timers_okD(2-4) [OF ok, of r t] timers_okD(2-4) [OF ok, of i x] again(1) by (auto split: if_splits)
    qed
  next
    case (last t b rt)
    then show ?thesis using timers_ok_drop [OF timers_ok_rt [OF assms(2), of rt], of r] poll by (simp add: timer_drop_def)
  qed (use assms(2) poll timers_ok_drop in simp_all)
next
  case (others rt)
  then show ?thesis using timers_ok_rt assms(2) by simp
qed

lemma timer_run_ok: "timer_run w w' \<Longrightarrow> timers_ok w \<Longrightarrow> timers_ok w'"
  by (induction rule: rtranclp_induct) (auto intro: timer_step_ok)

lemma timer_over_drop: "timer_over r w \<Longrightarrow> timer_over r (timer_drop i w)"
  by (auto simp: timer_over_def timer_drop_def split: option.splits)

lemma timer_over_rt: "timer_over r w \<Longrightarrow> rt_next_ref (tw_rt w) \<le> rt_next_ref rt \<Longrightarrow> timer_over r (w\<lparr> tw_rt := rt \<rparr>)"
  by (auto simp: timer_over_def)

lemma timer_step_over:
  assumes "timer_step w w'" "timer_over r w"
  shows "timer_over r w'"
  using assms
proof cases
  case (start action period d now)
  obtain i w1 where s: "timer_start action period d now w = (i, w1)" by fastforce
  note e = timer_startE [OF s]
  have up: "rt_next_ref (tw_rt w) < rt_next_ref (tw_rt w1)" unfolding e(2) e(1) by (rule next_ref_up [OF start(2)])
  have "r \<noteq> i" using assms(2) e(1) by (auto simp: timer_over_def)
  then show ?thesis using assms(2) start s up e by (auto simp: timer_over_def)
next
  case (cancel i now)
  then show ?thesis using assms(2) by (auto simp: timer_over_def timer_cancel_def hm_get_get_mut split: option.splits)
next
  case (poll i now)
  show ?thesis
  proof (cases rule: timer_poll_cases [of i now w])
    case (again t d rt)
    then have "i \<noteq> r" using assms(2) by (auto simp: timer_over_def)
    then show ?thesis using again poll assms(2) by (auto simp: timer_over_def)
  next
    case (last t b rt)
    then show ?thesis using timer_over_drop [OF timer_over_rt [OF assms(2), of rt], of i] poll by (simp add: timer_drop_def)
  qed (use assms(2) poll timer_over_drop in simp_all)
next
  case (others rt)
  then show ?thesis using timer_over_rt assms(2) by simp
qed

lemma timer_run_over: "timer_run w w' \<Longrightarrow> timer_over r w \<Longrightarrow> timer_over r w'"
  by (induction rule: rtranclp_induct) (auto intro: timer_step_over)

lemma timer_over_silent:
  assumes "timer_over r w"
  shows "tw_rt (timer_poll r now w) = tw_rt w" "timer_read r now w = None" "timer_cancel r now w = (Inl TimerNotFound, w)"
  using assms by (auto simp: timer_over_def timer_poll_def timer_read_def timer_cancel_def timer_drop_def split: option.splits)
text \<open>C28. A timer fires once or never.  In every reachable state, cancelling a running timer returns the time
  that was left of its first period; polling the task of a one-shot timer that is due performs its action.
  After either of these, whatever happens then, polling the task does not touch the runtime, reading the
  timer finds nothing and cancelling it is an error.\<close>

theorem timer_fires_once_or_never:
  assumes "timer_run (timer_world_new rt0) w" "hm_get (tw_tasks w) r = Some t" "\<not> tk_cancelled t"
    and "w' = snd (timer_cancel r now w) \<or>
      w' = timer_poll r now w \<and> tk_due t \<le> now \<and> tk_period t = None \<and> rt_next_ref (tw_rt w) \<le> rt_next_ref (tw_rt w')"
    and "timer_run w' w''"
  shows "(\<exists>e. hm_get (tw_timers w) r = Some e \<and> fst (timer_cancel r now w) = Inr (max 0 (te_started e + te_duration e - now))) \<and>
    (w' = timer_poll r now w \<and> tk_due t \<le> now \<longrightarrow> tw_rt w' = snd (timer_act (tk_action t) (tw_rt w))) \<and>
    tw_rt (timer_poll r later w'') = tw_rt w'' \<and> timer_read r later w'' = None \<and>
    timer_cancel r later w'' = (Inl TimerNotFound, w'')"
proof -
  have ok: "timers_ok w" by (rule timer_run_ok [OF assms(1) timer_world_new_ok])
  obtain e where e: "hm_get (tw_timers w) r = Some e" using timers_okD(3) [OF ok assms(2)] assms(3) by blast
  have "timer_over r w'"
    using assms(4)
  proof
    assume "w' = snd (timer_cancel r now w)"
    then show ?thesis using e assms(2) timers_okD(1) [OF ok e] by (simp add: timer_over_def timer_cancel_def hm_get_get_mut)
  next
    assume poll: "w' = timer_poll r now w \<and> tk_due t \<le> now \<and> tk_period t = None \<and> rt_next_ref (tw_rt w) \<le> rt_next_ref (tw_rt w')"
    then have "w' = timer_drop r (w\<lparr> tw_rt := snd (timer_act (tk_action t) (tw_rt w)) \<rparr>)"
      using assms(2,3) by (simp add: timer_poll_def split_def Let_def)
    then show ?thesis using poll timers_okD(1) [OF ok e] by (auto simp: timer_over_def timer_drop_def)
  qed
  note over = timer_over_silent [OF timer_run_over [OF assms(5) this], of later]
  have "tw_rt w' = snd (timer_act (tk_action t) (tw_rt w))" if "w' = timer_poll r now w" "tk_due t \<le> now"
    using that assms(2,3) by (simp add: timer_poll_def timer_drop_def split_def Let_def split: option.split)
  then show ?thesis using over e by (auto simp: timer_cancel_def remaining_def algebra_simps)
qed

definition ex_timer_pid :: pid where
  "ex_timer_pid = \<lparr> pid_node = [], pid_id = 1, pid_creation = 0 \<rparr>"

definition ex_timers :: "ref \<times> timer_world" where
  "ex_timers = send_after 10 ex_timer_pid [1] 100
     (timer_world_new (snd (rt_spawn (runtime_new \<lparr> ps_this = None, ps_counter = 1, ps_creation = 0 \<rparr>))))"

theorem timer_fires_once_or_never_witness:
  "timer_read 0 500 (timer_poll 0 110 (snd ex_timers)) = None \<and>
   map_option pr_mailbox (rt_get (tw_rt (timer_poll 0 110 (snd ex_timers))) ex_timer_pid) = Some [PData [1]]"
proof -
  let ?w0 = "timer_world_new (snd (rt_spawn (runtime_new \<lparr> ps_this = None, ps_counter = 1, ps_creation = 0 \<rparr>)))"
  let ?t = "\<lparr> tk_action = SendTo ex_timer_pid [1], tk_due = 110, tk_period = None, tk_cancelled = False \<rparr>"
  have zero: "rt_next_ref (tw_rt ?w0) = 0" by code_simp
  have "timer_run ?w0 (snd ex_timers)"
    unfolding ex_timers_def send_after_def by (intro r_into_rtranclp timer_step.start) (simp add: zero word_gt_0)
  moreover have "hm_get (tw_tasks (snd ex_timers)) 0 = Some ?t"
    by (simp add: ex_timers_def send_after_def timer_start_def rt_new_ref_def zero split_def Let_def)
  moreover have "rt_next_ref (tw_rt (snd ex_timers)) = 1" "rt_next_ref (tw_rt (timer_poll 0 110 (snd ex_timers))) = 1" by code_simp+
  moreover have "map_option pr_mailbox (rt_get (snd (timer_act (tk_action ?t) (tw_rt (snd ex_timers)))) ex_timer_pid) = Some [PData [1]]"
    by code_simp
  ultimately show ?thesis
    using timer_fires_once_or_never [of _ "snd ex_timers" 0 ?t "timer_poll 0 110 (snd ex_timers)" 110 "timer_poll 0 110 (snd ex_timers)" 500]
    by simp
qed
end
