(* ===== verification/PubSub.thy ===== *)
theory PubSub
  imports Gs_Props Registry Pg
begin

text \<open>
  Publish and subscribe (\<open>pubsub/server.rs\<close>): a server whose callbacks keep the subscriptions of local
  processes in a registry and broadcast payloads to them, and to the servers of other nodes, which are
  found in a process group.  The callbacks are those of \<open>GenServer\<close>; the process groups of the node are
  kept with the state of the server.  \<open>conn\<close> are the connected nodes, \<open>me\<close> is the server's process.
\<close>

section \<open>Messages\<close>

datatype pubsub_call =
    Subscribe string pid | Unsubscribe string pid | UnsubscribeAll pid | GetSubscribers string | GetLocalSubscribers string

datatype pubsub_cast =
    Broadcast string "byte list" "pid option" | LocalBroadcast string "byte list" "pid option"
  | ForwardBroadcast string "byte list" "pid option"

datatype pubsub_info = CompleteInit

datatype pubsub_reply = PubSubOk | Subscribers "pid list"

text \<open>The payloads are serialised by a library: \<open>*_dec\<close> may fail.\<close>

record pubsub_codec =
  pc_call :: "pubsub_call \<Rightarrow> byte list"
  pc_call_dec :: "byte list \<Rightarrow> decode_error + pubsub_call"
  pc_cast :: "pubsub_cast \<Rightarrow> byte list"
  pc_cast_dec :: "byte list \<Rightarrow> decode_error + pubsub_cast"
  pc_info :: "pubsub_info \<Rightarrow> byte list"
  pc_info_dec :: "payload \<Rightarrow> pubsub_info option"
  pc_reply :: "pubsub_reply \<Rightarrow> byte list"
  pc_reply_dec :: "byte list \<Rightarrow> decode_error + pubsub_reply"
  pc_shown :: "decode_error \<Rightarrow> string"
  pc_debug :: "exit_reason \<Rightarrow> string"

definition tag_bytes :: "string \<Rightarrow> byte list" where
  "tag_bytes s = map of_char s"

definition call_encode_local :: "pubsub_codec \<Rightarrow> pubsub_call \<Rightarrow> byte list" where
  "call_encode_local C m = encode_with_tag (tag_bytes ''PubSubCall'') (pc_call C m)"

definition cast_encode_local :: "pubsub_codec \<Rightarrow> pubsub_cast \<Rightarrow> byte list" where
  "cast_encode_local C m = encode_with_tag (tag_bytes ''PubSubCast'') (pc_cast C m)"

definition info_encode_local :: "pubsub_codec \<Rightarrow> pubsub_info \<Rightarrow> byte list" where
  "info_encode_local C m = encode_with_tag (tag_bytes ''PubSubInfo'') (pc_info C m)"

definition reply_encode_local :: "pubsub_codec \<Rightarrow> pubsub_reply \<Rightarrow> byte list" where
  "reply_encode_local C m = encode_with_tag (tag_bytes ''PubSubReply'') (pc_reply C m)"

section \<open>The server\<close>

record pubsub =
  pb_name :: string
  pb_registry :: "(string, unit) registry"
  pb_pg_group :: string
  pb_self_pid :: "pid option"
  pb_groups :: process_groups
  pb_group_out :: pg_out

definition pubsub_new :: "string \<Rightarrow> process_groups \<Rightarrow> pubsub" where
  "pubsub_new nm groups =
    \<lparr> pb_name = nm, pb_registry = new_duplicate (''pubsub:'' @ nm), pb_pg_group = ''pubsub:'' @ nm, pb_self_pid = None,
      pb_groups = groups, pb_group_out = [] \<rparr>"

definition pubsub_init :: "pubsub_codec \<Rightarrow> string \<Rightarrow> process_groups \<Rightarrow> pubsub gs_init" where
  "pubsub_init C nm groups = InitContinue (pubsub_new nm groups) (info_encode_local C CompleteInit)"

text \<open>A process is sent the payload once for every entry it has under the topic.\<close>

definition dispatch_local :: "(string, unit) registry \<Rightarrow> string \<Rightarrow> byte list \<Rightarrow> pid option \<Rightarrow> runtime \<Rightarrow> runtime" where
  "dispatch_local reg topic bytes exclude rt =
    (case registry_dispatch topic
        (\<lambda>entries. fold (\<lambda>(p, _) rt. if Some p \<noteq> exclude then snd (rt_send_raw p (PData bytes) rt) else rt) entries rt) reg of
       Some rt' \<Rightarrow> rt'
     | None \<Rightarrow> rt)"

definition forward_to_remote_nodes :: "pubsub_codec \<Rightarrow> string \<Rightarrow> string \<Rightarrow> byte list \<Rightarrow> pid option \<Rightarrow> pid option \<Rightarrow>
    process_groups \<Rightarrow> runtime \<Rightarrow> runtime" where
  "forward_to_remote_nodes C pg_group topic bytes exclude self_pid groups rt =
    fold (\<lambda>p rt.
        if Some p = self_pid then rt
        else if \<not> rt_local rt p then snd (rt_send_raw p (PData (cast_encode_local C (ForwardBroadcast topic bytes exclude))) rt)
        else rt)
      (pg_get_members pg_group groups) rt"

definition pubsub_handle_call :: "pubsub_call \<Rightarrow> pubsub \<times> runtime \<Rightarrow> pubsub_reply gs_reply \<times> pubsub \<times> runtime" where
  "pubsub_handle_call msg = (\<lambda>(s, rt).
    (case msg of
       Subscribe topic p \<Rightarrow>
         (ReplyOk PubSubOk,
          if rt_local rt p then s\<lparr> pb_registry := snd (registry_register topic p () (pb_registry s)) \<rparr> else s, rt)
     | Unsubscribe topic p \<Rightarrow>
         (ReplyOk PubSubOk, if rt_local rt p then s\<lparr> pb_registry := registry_unregister topic p (pb_registry s) \<rparr> else s, rt)
     | UnsubscribeAll p \<Rightarrow> (ReplyOk PubSubOk, s\<lparr> pb_registry := registry_unregister_all p (pb_registry s) \<rparr>, rt)
     | GetSubscribers topic \<Rightarrow>
         (ReplyOk (Subscribers (pg_get_members (pb_pg_group s @ '':'' @ topic) (pb_groups s))), s, rt)
     | GetLocalSubscribers topic \<Rightarrow>
         (ReplyOk (Subscribers (map fst (registry_lookup topic (pb_registry s)))), s, rt)))"

definition pubsub_handle_cast :: "pubsub_codec \<Rightarrow> pubsub_cast \<Rightarrow> pubsub \<times> runtime \<Rightarrow> gs_status \<times> pubsub \<times> runtime" where
  "pubsub_handle_cast C msg = (\<lambda>(s, rt).
    (case msg of
       Broadcast topic bytes exclude \<Rightarrow>
         (StatusOk, s, forward_to_remote_nodes C (pb_pg_group s) topic bytes exclude (pb_self_pid s) (pb_groups s)
            (dispatch_local (pb_registry s) topic bytes exclude rt))
     | LocalBroadcast topic bytes exclude \<Rightarrow> (StatusOk, s, dispatch_local (pb_registry s) topic bytes exclude rt)
     | ForwardBroadcast topic bytes exclude \<Rightarrow> (StatusOk, s, dispatch_local (pb_registry s) topic bytes exclude rt)))"

definition pubsub_handle_info :: "node list \<Rightarrow> pid \<Rightarrow> pubsub_info \<Rightarrow> pubsub \<times> runtime \<Rightarrow> gs_status \<times> pubsub \<times> runtime" where
  "pubsub_handle_info conn me msg = (\<lambda>(s, rt).
    (let (groups, out) = pg_join (ps_this (rt_pids rt)) conn (pb_pg_group s) me (pb_groups s)
     in (StatusOk,
         s\<lparr> pb_self_pid := Some me, pb_groups := groups, pb_group_out := pb_group_out s @ out \<rparr>,
         snd (rt_register_name (pb_name s) me rt))))"

definition pubsub_handle_continue :: "pubsub_codec \<Rightarrow> node list \<Rightarrow> pid \<Rightarrow> byte list \<Rightarrow> pubsub \<times> runtime \<Rightarrow> gs_status \<times> pubsub \<times> runtime" where
  "pubsub_handle_continue C conn me arg x =
    (case decode_tag arg of
       Inl _ \<Rightarrow> (StatusOk, x)
     | Inr (_, bytes) \<Rightarrow>
        (case pc_info_dec C (PData bytes) of
           None \<Rightarrow> (StatusOk, x)
         | Some info \<Rightarrow> pubsub_handle_info conn me info x))"

definition pubsub_callbacks :: "pubsub_codec \<Rightarrow> node list \<Rightarrow> pid \<Rightarrow>
    (pubsub, pubsub_call, pubsub_cast, pubsub_info, pubsub_reply) gs_callbacks" where
  "pubsub_callbacks C conn me = \<lparr>
     gc_call = (\<lambda>msg origin. pubsub_handle_call msg), gc_cast = pubsub_handle_cast C,
     gc_info = pubsub_handle_info conn me, gc_raw_info = (\<lambda>_ x. (StatusOk, x)), gc_timeout = (\<lambda>x. (StatusOk, x)),
     gc_continue = pubsub_handle_continue C conn me, gc_terminate = (\<lambda>_ x. x),
     gc_dec_call = pc_call_dec C, gc_dec_cast = pc_cast_dec C, gc_dec_info = pc_info_dec C,
     gc_enc_reply = reply_encode_local C, gc_shown = pc_shown C, gc_debug = pc_debug C \<rparr>"

section \<open>The functions of clients\<close>

definition pubsub_not_found :: "string \<Rightarrow> string" where
  "pubsub_not_found nm = ''PubSub '' @ [CHR 0x27] @ nm @ [CHR 0x27] @ '' not found''"

text \<open>A request by name, up to the wait for its reply.\<close>

definition pubsub_request :: "gs_wire \<Rightarrow> pubsub_codec \<Rightarrow> string \<Rightarrow> pubsub_call \<Rightarrow> pid \<Rightarrow> gs_world \<Rightarrow>
    (string + gs_error + ref) \<times> gs_world" where
  "pubsub_request W C nm request me w =
    (case rt_whereis nm (gsw_rt w) of
       None \<Rightarrow> (Inl (pubsub_not_found nm), w)
     | Some p \<Rightarrow> (let (r, w1) = gs_call_send W (\<lambda>_. None) (SrvPid p) (call_encode_local C request) me w in (Inr r, w1)))"

definition subscribe_pid :: "gs_wire \<Rightarrow> pubsub_codec \<Rightarrow> string \<Rightarrow> string \<Rightarrow> pid \<Rightarrow> pid \<Rightarrow> gs_world \<Rightarrow> (string + gs_error + ref) \<times> gs_world" where
  "subscribe_pid W C nm topic p = pubsub_request W C nm (Subscribe topic p)"

definition unsubscribe_pid :: "gs_wire \<Rightarrow> pubsub_codec \<Rightarrow> string \<Rightarrow> string \<Rightarrow> pid \<Rightarrow> pid \<Rightarrow> gs_world \<Rightarrow> (string + gs_error + ref) \<times> gs_world" where
  "unsubscribe_pid W C nm topic p = pubsub_request W C nm (Unsubscribe topic p)"

definition unsubscribe_all :: "gs_wire \<Rightarrow> pubsub_codec \<Rightarrow> string \<Rightarrow> pid \<Rightarrow> pid \<Rightarrow> gs_world \<Rightarrow> (string + gs_error + ref) \<times> gs_world" where
  "unsubscribe_all W C nm p = pubsub_request W C nm (UnsubscribeAll p)"

text \<open>What the functions make of the end of the wait; \<open>shown\<close> is the error's text.\<close>

definition ok_result :: "string \<Rightarrow> (gs_error \<Rightarrow> string) \<Rightarrow> gs_error + pubsub_reply \<Rightarrow> string + unit" where
  "ok_result what shown r = (case r of Inr _ \<Rightarrow> Inr () | Inl e \<Rightarrow> Inl (what @ '' failed: '' @ shown e))"

definition subscribers_result :: "(gs_error \<Rightarrow> string) \<Rightarrow> gs_error + pubsub_reply \<Rightarrow> string + pid list" where
  "subscribers_result shown r =
    (case r of
       Inr (Subscribers ps) \<Rightarrow> Inr ps
     | Inr _ \<Rightarrow> Inl ''unexpected reply type''
     | Inl e \<Rightarrow> Inl (''subscribers failed: '' @ shown e))"

definition broadcast_impl :: "gs_wire \<Rightarrow> pubsub_codec \<Rightarrow> string \<Rightarrow> string \<Rightarrow> byte list \<Rightarrow> pid option \<Rightarrow> gs_world \<Rightarrow> (string + unit) \<times> gs_world" where
  "broadcast_impl W C nm topic bytes exclude w =
    (case rt_whereis nm (gsw_rt w) of
       None \<Rightarrow> (Inl (pubsub_not_found nm), w)
     | Some p \<Rightarrow> (Inr (), gs_cast W (\<lambda>_. None) (SrvPid p) (cast_encode_local C (Broadcast topic bytes exclude)) w))"

definition local_broadcast_impl :: "gs_wire \<Rightarrow> pubsub_codec \<Rightarrow> string \<Rightarrow> string \<Rightarrow> byte list \<Rightarrow> pid option \<Rightarrow> gs_world \<Rightarrow> (string + unit) \<times> gs_world" where
  "local_broadcast_impl W C nm topic bytes exclude w =
    (case rt_whereis nm (gsw_rt w) of
       None \<Rightarrow> (Inl (pubsub_not_found nm), w)
     | Some p \<Rightarrow> (Inr (), gs_cast W (\<lambda>_. None) (SrvPid p) (cast_encode_local C (LocalBroadcast topic bytes exclude)) w))"

section \<open>Runs of the server\<close>

text \<open>What the server handles, one message after the other.\<close>

datatype pubsub_event = PbCall pubsub_call | PbCast pubsub_cast | PbContinue "byte list"

fun pubsub_step :: "pubsub_codec \<Rightarrow> node list \<Rightarrow> pid \<Rightarrow> pubsub_event \<Rightarrow> pubsub \<times> runtime \<Rightarrow> pubsub \<times> runtime" where
  "pubsub_step C conn me (PbCall msg) x = snd (pubsub_handle_call msg x)"
| "pubsub_step C conn me (PbCast msg) x = snd (pubsub_handle_cast C msg x)"
| "pubsub_step C conn me (PbContinue arg) x = snd (pubsub_handle_continue C conn me arg x)"

text \<open>How often a process is subscribed to a topic, from the history of the calls alone; \<open>here\<close> tells the
  local processes.\<close>

fun subscribed_after :: "(pid \<Rightarrow> bool) \<Rightarrow> string \<Rightarrow> pid \<Rightarrow> pubsub_event \<Rightarrow> nat \<Rightarrow> nat" where
  "subscribed_after here t p (PbCall (Subscribe t' p')) n = (if t' = t \<and> p' = p \<and> here p then Suc n else n)"
| "subscribed_after here t p (PbCall (Unsubscribe t' p')) n = (if t' = t \<and> p' = p \<and> here p then 0 else n)"
| "subscribed_after here t p (PbCall (UnsubscribeAll p')) n = (if p' = p then 0 else n)"
| "subscribed_after here t p _ n = n"

definition entries_of :: "string \<Rightarrow> pid \<Rightarrow> (string, unit) registry \<Rightarrow> nat" where
  "entries_of t p reg = count_list (map en_pid (hm_at (rg_entries reg) t)) p"

lemma count_without [simp]:
  "count_list (map en_pid (filter (\<lambda>e. en_pid e \<noteq> p') es)) p = (if p' = p then 0 else count_list (map en_pid es) p)"
  by (induction es) auto

lemma entries_of_unregister: "entries_of t p (registry_unregister t' p' reg) = (if t' = t \<and> p' = p then 0 else entries_of t p reg)"
  by (simp add: entries_of_def registry_unregister_def)

lemma entries_of_register:
  "rg_type reg = Duplicate \<Longrightarrow> entries_of t p (snd (registry_register t' p' () reg)) = (if t' = t \<and> p' = p then Suc (entries_of t p reg) else entries_of t p reg)"
  by (simp add: entries_of_def registry_register_def Let_def)

lemma entries_of_unregister_all:
  assumes "rg_ok reg"
  shows "entries_of t p (registry_unregister_all p' reg) = (if p' = p then 0 else entries_of t p reg)"
proof -
  have mem: "p' \<in> en_pid ` set (hm_at (rg_entries reg) t) \<longleftrightarrow> t \<in> set (hm_at (rg_keys reg) p')"
    using assms by (simp add: rg_ok_def rg_members_def)
  have none: "count_list (map en_pid (hm_at (rg_entries reg) t)) p' = 0" if "t \<notin> set (hm_at (rg_keys reg) p')"
    using mem that by (simp add: count_list_0_iff)
  show ?thesis
  proof (cases "hm_get (rg_keys reg) p'")
    case None
    then have "hm_at (rg_keys reg) p' = []" by (simp add: hm_at_def)
    then show ?thesis using None none by (auto simp: entries_of_def registry_unregister_all_def)
  next
    case (Some ks)
    then have "hm_at (rg_keys reg) p' = ks" by (simp add: hm_at_def)
    then show ?thesis using Some none by (auto simp: entries_of_def registry_unregister_all_def fold_shrink_at)
  qed
qed

text \<open>What a broadcast does to a local process.\<close>

definition deliver :: "nat \<Rightarrow> payload \<Rightarrow> proc \<Rightarrow> proc" where
  "deliver n d q = (if pr_closed q then q else q\<lparr> pr_mailbox := pr_mailbox q @ replicate n d \<rparr>)"

lemma deliver_0 [simp]: "deliver 0 d q = q" "map_option (deliver 0 d) x = x"
  by (simp_all add: deliver_def) (cases x; simp add: deliver_def)

lemma deliver_Suc: "deliver n d (snd (handle_send d q)) = deliver (Suc n) d q"
  by (simp add: deliver_def handle_send_def)

lemma send_all_get:
  "rt_local rt q \<Longrightarrow>
   rt_get (fold (\<lambda>(p, _) rt. if Some p \<noteq> ex then snd (rt_send_raw p d rt) else rt) ps rt) q =
     map_option (deliver (if Some q = ex then 0 else count_list (map fst ps) q) d) (rt_get rt q)"
proof (induction ps arbitrary: rt)
  case Nil
  then show ?case by (simp add: option.map_ident)
next
  case (Cons x ps)
  then show ?case
    by (cases x) (auto simp: rt_get_send_raw option.map_comp o_def deliver_Suc)
qed

lemma dispatch_local_get:
  assumes "rt_local rt q"
  shows "rt_get (dispatch_local reg t bytes ex rt) q =
    map_option (deliver (if Some q = ex then 0 else entries_of t q reg) (PData bytes)) (rt_get rt q)"
proof -
  have fsts: "map (fst \<circ> entry_pair) es = map en_pid es" for es :: "unit entry list" by (simp add: entry_pair_def)
  show ?thesis
  proof (cases "hm_get (rg_entries reg) t")
    case None
    then show ?thesis by (simp add: dispatch_local_def registry_dispatch_def entries_of_def hm_at_def)
  next
    case (Some es)
    then show ?thesis
      using send_all_get [OF assms, of ex "PData bytes" "map entry_pair es"]
      by (simp only: dispatch_local_def registry_dispatch_def entries_of_def hm_at_def fsts option.case map_map)
  qed
qed

lemma forward_get:
  assumes "rt_local rt q"
  shows "rt_get (forward_to_remote_nodes C g t bytes ex self groups rt) q = rt_get rt q"
proof -
  have "rt_get (fold (\<lambda>p rt. if Some p = self then rt
        else if \<not> rt_local rt p then snd (rt_send_raw p d rt) else rt) ps rt) q = rt_get rt q" for ps d
    using assms by (induction ps arbitrary: rt) (auto simp: rt_get_send_raw)
  then show ?thesis by (simp add: forward_to_remote_nodes_def)
qed

lemma rt_local_sends:
  "rt_local (fold (\<lambda>p rt. if P p then rt else if \<not> rt_local rt p then snd (rt_send_raw p d rt) else rt) ps rt) q = rt_local rt q"
proof (induction ps arbitrary: rt)
  case (Cons p ps)
  show ?case unfolding fold_simps comp_apply Cons.IH by simp
qed simp

lemma rt_local_sends':
  "rt_local (fold (\<lambda>(p, _) rt. if P p then snd (rt_send_raw p d rt) else rt) es rt) q = rt_local rt q"
proof (induction es arbitrary: rt)
  case (Cons e es)
  show ?case unfolding fold_simps comp_apply Cons.IH by (simp split: prod.split)
qed simp

lemma rt_local_dispatch [simp]: "rt_local (dispatch_local reg t bytes ex rt) q = rt_local rt q"
  unfolding dispatch_local_def registry_dispatch_def
  by (cases "hm_get (rg_entries reg) t") (simp_all only: option.case rt_local_sends' [where P = "\<lambda>p. Some p \<noteq> ex"])

lemma rt_local_cast [simp]: "rt_local (snd (snd (pubsub_handle_cast C msg (s, rt)))) q = rt_local rt q"
  by (cases msg) (simp_all add: pubsub_handle_cast_def forward_to_remote_nodes_def rt_local_sends)

lemma cast_state [simp]: "fst (snd (pubsub_handle_cast C msg (s, rt))) = s"
  by (simp add: pubsub_handle_cast_def split: pubsub_cast.split)

lemma pg_join_others: "g' \<noteq> g \<Longrightarrow> pg_get_members g' (fst (pg_join this conn g p gs)) = pg_get_members g' gs"
  by (auto simp: pg_join_def pg_add_def pg_get_members_def split: option.split)

text \<open>What holds after a history: \<open>here\<close>, \<open>n\<close>.\<close>

definition pubsub_after :: "string \<Rightarrow> process_groups \<Rightarrow> (pid \<Rightarrow> bool) \<Rightarrow> string \<Rightarrow> pid \<Rightarrow> nat \<Rightarrow> pubsub \<times> runtime \<Rightarrow> bool" where
  "pubsub_after nm groups here t p n = (\<lambda>(s, rt).
    rg_ok (pb_registry s) \<and> rg_type (pb_registry s) = Duplicate \<and> pb_pg_group s = ''pubsub:'' @ nm \<and>
    rt_local rt = here \<and> entries_of t p (pb_registry s) = n \<and>
    (\<forall>g. g \<noteq> pb_pg_group s \<longrightarrow> pg_get_members g (pb_groups s) = pg_get_members g groups))"

lemma pubsub_continue_after:
  "pubsub_after nm groups here t p n (s, rt) \<Longrightarrow> pubsub_after nm groups here t p n (snd (pubsub_handle_continue C conn me arg (s, rt)))"
  using pg_join_others [of _ "pb_pg_group s" "ps_this (rt_pids rt)" conn me "pb_groups s"]
  by (auto simp: pubsub_handle_continue_def pubsub_handle_info_def pubsub_after_def rt_register_name_def rt_local_def Let_def
      split: sum.split option.split prod.split)

lemma pubsub_call_after:
  assumes "pubsub_after nm groups here t p n (s, rt)"
  shows "pubsub_after nm groups here t p (subscribed_after here t p (PbCall msg) n) (snd (pubsub_handle_call msg (s, rt)))"
  using assms
  by (cases msg) (auto simp: pubsub_after_def pubsub_handle_call_def register_ok unregister_ok unregister_all_ok
      entries_of_register entries_of_unregister entries_of_unregister_all)

lemma pubsub_run_after:
  "pubsub_after nm groups here t p n x \<Longrightarrow>
   pubsub_after nm groups here t p (fold (subscribed_after here t p) evs n) (fold (pubsub_step C conn me) evs x)"
proof (induction evs arbitrary: n x)
  case (Cons ev evs)
  obtain s rt where x: "x = (s, rt)" by (cases x)
  have "pubsub_after nm groups here t p (subscribed_after here t p ev n) (pubsub_step C conn me ev x)"
  proof (cases ev)
    case (PbCall msg)
    then show ?thesis using Cons.prems pubsub_call_after x by simp
  next
    case (PbCast msg)
    have "rt_local (snd (snd (pubsub_handle_cast C msg (s, rt)))) = rt_local rt" by (rule ext) simp
    then show ?thesis using Cons.prems x PbCast by (simp add: pubsub_after_def split_def)
  next
    case (PbContinue arg)
    then show ?thesis using Cons.prems pubsub_continue_after x by simp
  qed
  then show ?case using Cons.IH by simp
qed simp

definition pubsub_run :: "pubsub_codec \<Rightarrow> node list \<Rightarrow> pid \<Rightarrow> string \<Rightarrow> process_groups \<Rightarrow> runtime \<Rightarrow> pubsub_event list \<Rightarrow> pubsub \<times> runtime" where
  "pubsub_run C conn me nm groups rt evs = fold (pubsub_step C conn me) evs (pubsub_new nm groups, rt)"

definition subscriptions :: "(pid \<Rightarrow> bool) \<Rightarrow> string \<Rightarrow> pid \<Rightarrow> pubsub_event list \<Rightarrow> nat" where
  "subscriptions here t p evs = fold (subscribed_after here t p) evs 0"

lemma pubsub_run_ok: "pubsub_after nm groups (rt_local rt) t p (subscriptions (rt_local rt) t p evs) (pubsub_run C conn me nm groups rt evs)"
  unfolding pubsub_run_def subscriptions_def
  by (rule pubsub_run_after) (simp add: pubsub_after_def pubsub_new_def new_ok entries_of_def, simp add: new_duplicate_def)

text \<open>C29. Subscribing and broadcasting on one node.  After any history of requests, broadcasts and
  continuations a local process gets a broadcast of any kind once for every subscription to its topic since
  it last unsubscribed, in whatever order it subscribed, and not at all when it is excluded; a subscription
  is not undone by the end of the process.  The local subscribers listed are the same, with repetitions.
  But the list of all subscribers does not depend on the subscriptions: it is a process group that no
  subscription joins.\<close>

theorem pubsub_delivery:
  assumes here: "rt_local rt q"
    and msg: "msg \<in> {Broadcast t bytes ex, LocalBroadcast t bytes ex, ForwardBroadcast t bytes ex}"
  shows "rt_get (snd (pubsub_step C conn me (PbCast msg) (pubsub_run C conn me nm groups rt evs))) q =
      map_option (deliver (if ex = Some q then 0 else subscriptions (rt_local rt) t q evs) (PData bytes))
        (rt_get (snd (pubsub_run C conn me nm groups rt evs)) q) \<and>
    (\<exists>ps. fst (pubsub_handle_call (GetLocalSubscribers t) (pubsub_run C conn me nm groups rt evs)) = ReplyOk (Subscribers ps) \<and>
      count_list ps q = subscriptions (rt_local rt) t q evs) \<and>
    fst (pubsub_handle_call (GetSubscribers t) (pubsub_run C conn me nm groups rt evs)) =
      ReplyOk (Subscribers (pg_get_members (''pubsub:'' @ nm @ '':'' @ t) groups))"
proof -
  obtain s rt' where run: "pubsub_run C conn me nm groups rt evs = (s, rt')" by fastforce
  have ok: "rt_local rt' = rt_local rt" "entries_of t q (pb_registry s) = subscriptions (rt_local rt) t q evs"
    "pb_pg_group s = ''pubsub:'' @ nm" "\<forall>g. g \<noteq> ''pubsub:'' @ nm \<longrightarrow> pg_get_members g (pb_groups s) = pg_get_members g groups"
    using pubsub_run_ok [of nm groups rt t q evs C conn me] unfolding run by (auto simp: pubsub_after_def)
  have "rt_get (snd (snd (pubsub_handle_cast C msg (s, rt')))) q =
      map_option (deliver (if Some q = ex then 0 else entries_of t q (pb_registry s)) (PData bytes)) (rt_get rt' q)"
    using msg here by (auto simp: pubsub_handle_cast_def dispatch_local_get forward_get ok(1))
  moreover have "count_list (map fst (registry_lookup t (pb_registry s))) q = entries_of t q (pb_registry s)"
    by (simp add: registry_lookup_at entries_of_def entry_pair_def comp_def)
  ultimately show ?thesis
    using ok(2-4) by (auto simp: run pubsub_handle_call_def eq_commute [of ex])
qed

section \<open>Broadcasts to other nodes\<close>

text \<open>In the wire format used, the first byte of a tagged value is the length of its tag and that of an
  enumeration the number of its variant, as long as they are below 128.\<close>

definition leading_bytes :: "gs_wire \<Rightarrow> pubsub_codec \<Rightarrow> bool" where
  "leading_bytes W C \<longleftrightarrow>
    (\<forall>b bs tag x. b < 128 \<and> gw_untagged W (PData (b # bs)) = Some (tag, x) \<longrightarrow> length tag = unat b) \<and>
    (\<forall>b bs. 6 \<le> b \<and> b < 128 \<longrightarrow> gw_unmessage W (PData (b # bs)) = None) \<and>
    (\<forall>b bs. 1 \<le> b \<and> b < 128 \<longrightarrow> pc_info_dec C (PData (b # bs)) = None)"

lemma cast_bytes_head: "\<exists>bs. cast_encode_local C m = 10 # bs"
  by (simp add: cast_encode_local_def encode_with_tag_def tag_bytes_def le16_def)

lemma send_remote_wire:
  "rt_remote_hook rt = Some (\<lambda>_ _. None) \<Longrightarrow>
   rt_wire (fold (\<lambda>p rt. if P p then rt else if \<not> rt_local rt p then snd (rt_send_raw p d rt) else rt) ps rt) =
     rt_wire rt @ map (\<lambda>p. (p, d)) (filter (\<lambda>p. \<not> P p \<and> \<not> rt_local rt p) ps)"
proof (induction ps arbitrary: rt)
  case (Cons p ps)
  let ?rt = "if P p then rt else if \<not> rt_local rt p then snd (rt_send_raw p d rt) else rt"
  have "rt_remote_hook ?rt = Some (\<lambda>_ _. None)" "rt_local ?rt q = rt_local rt q" for q
    using Cons.prems by (auto simp: rt_send_raw_def rt_local_def)
  then show ?case
    using Cons.IH [of ?rt] Cons.prems by (simp add: rt_send_raw_def)
qed simp

text \<open>A broadcast does not reach the subscribers of other nodes.  The server sends the encoded broadcast
  to every other server of its group that is on another node, without the envelope of a cast; a server that
  receives these bytes finds neither a call nor a cast nor a message in them and leaves its state and all
  processes as they are.\<close>

lemma forwarded_broadcast_lost:
  assumes wire: "leading_bytes W C" and hook: "rt_remote_hook rt = Some (\<lambda>_ _. None)"
  shows "rt_wire (forward_to_remote_nodes C g t bytes ex self groups rt) = rt_wire rt @
      map (\<lambda>p. (p, PData (cast_encode_local C (ForwardBroadcast t bytes ex))))
        (filter (\<lambda>p. self \<noteq> Some p \<and> \<not> rt_local rt p) (pg_get_members g groups)) \<and>
    gs_handle W (pubsub_callbacks C conn me) me (Some (PData (cast_encode_local C (ForwardBroadcast t bytes ex)))) s w = (None, s, w)"
proof -
  obtain bs where bytes: "cast_encode_local C (ForwardBroadcast t bytes ex) = 10 # bs" using cast_bytes_head by blast
  have small: "(10 :: byte) < 128" "(6 :: byte) \<le> 10" "(1 :: byte) \<le> 10" by (simp_all add: word_less_alt word_le_def)
  have tag: "length tag = 10" if "gw_untagged W (PData (10 # bs)) = Some (tag, x)" for tag x
    using wire that small unfolding leading_bytes_def by fastforce
  have none: "gw_unmessage W (PData (10 # bs)) = None" "pc_info_dec C (PData (10 # bs)) = None"
    using wire small unfolding leading_bytes_def by blast+
  have "decode_gen_call_envelope W (PData (10 # bs)) = None" "decode_gen_cast_envelope W (PData (10 # bs)) = None"
    using tag by (auto simp: decode_gen_call_envelope_def decode_gen_cast_envelope_def gen_call_tag_def gen_cast_tag_def
        split: option.split)
  then have "gs_handle W (pubsub_callbacks C conn me) me (Some (PData (10 # bs))) s w = (None, s, w)"
    by (simp add: gs_handle_def none gs_info_def pubsub_callbacks_def gs_status_step_def handle_status_def gs_leave_def)
  then show ?thesis
    using send_remote_wire [OF hook, of "\<lambda>p. Some p = self" "PData (10 # bs)" "pg_get_members g groups"]
    unfolding forward_to_remote_nodes_def bytes by (simp add: eq_commute [of self])
qed
section \<open>A run\<close>

definition ex_pubsub :: pubsub_codec where
  "ex_pubsub = \<lparr> pc_call = (\<lambda>_. []), pc_call_dec = (\<lambda>_. Inl (InvalidData [])), pc_cast = (\<lambda>_. []),
     pc_cast_dec = (\<lambda>_. Inl (InvalidData [])), pc_info = (\<lambda>_. [0]),
     pc_info_dec = (\<lambda>d. if d = PData [0] then Some CompleteInit else None), pc_reply = (\<lambda>_. []),
     pc_reply_dec = (\<lambda>_. Inl (InvalidData [])), pc_shown = (\<lambda>_. []), pc_debug = (\<lambda>_. []) \<rparr>"

text \<open>Process 1 subscribes twice and gets two copies.\<close>

definition ex_twice :: "pubsub_event list" where
  "ex_twice = [PbCall (Subscribe ''t'' (ex_gs_pid 1)), PbCall (Subscribe ''t'' (ex_gs_pid 1))]"

theorem pubsub_delivery_witness:
  "map_option pr_mailbox (rt_get (snd (pubsub_step ex_pubsub [] (ex_gs_pid 2) (PbCast (LocalBroadcast ''t'' [9] None))
      (pubsub_run ex_pubsub [] (ex_gs_pid 2) ''s'' \<lparr> pg_groups = [], pg_pid_groups = [] \<rparr> (gsw_rt ex_gs_world) ex_twice))) (ex_gs_pid 1)) =
    Some [PSystem Timeout, PData [9], PData [9]]"
proof -
  have procs: "rt_local (gsw_rt ex_gs_world) (ex_gs_pid 1)"
    "rt_get (gsw_rt ex_gs_world) (ex_gs_pid 1) = Some (proc_new\<lparr> pr_mailbox := [PSystem Timeout] \<rparr>)"
    by code_simp+
  have kept: "snd (pubsub_run ex_pubsub [] (ex_gs_pid 2) ''s'' \<lparr> pg_groups = [], pg_pid_groups = [] \<rparr> (gsw_rt ex_gs_world) ex_twice) =
      gsw_rt ex_gs_world"
    by (simp add: pubsub_run_def ex_twice_def pubsub_handle_call_def pubsub_new_def)
  have two: "subscriptions (rt_local (gsw_rt ex_gs_world)) ''t'' (ex_gs_pid 1) ex_twice = 2"
    by (simp add: subscriptions_def ex_twice_def procs(1))
  have "LocalBroadcast ''t'' [9] None \<in> {Broadcast ''t'' [9] None, LocalBroadcast ''t'' [9] None, ForwardBroadcast ''t'' [9] None}"
    by simp
  note pubsub_delivery [OF procs(1) this, of ex_pubsub "[]" "ex_gs_pid 2" "''s''" "\<lparr> pg_groups = [], pg_pid_groups = [] \<rparr>" ex_twice]
  from conjunct1 [OF this] show ?thesis
    by (simp only: kept two procs(2)) (simp add: deliver_def proc_new_def numeral_2_eq_2)
qed

end
