(* ===== verification/Channel.thy ===== *)
theory Channel
  imports Codec Runtime Pg
begin

text \<open>
  Channels (\<open>channel/core.rs\<close>): topics and patterns, a channel of the user with its callbacks and the
  handler made from it, and the server that keeps the channels one client has joined.  Callbacks act on
  the state of their channel and on the world: the node's processes, its process groups and the counter
  of join references.  The serialisation library is an argument.
\<close>

section \<open>Topics\<close>

definition str_strip_prefix :: "string \<Rightarrow> string \<Rightarrow> string option" where
  "str_strip_prefix p t = (if take (length p) t = p then Some (drop (length p) t) else None)"

definition strip_star :: "string \<Rightarrow> string option" where
  "strip_star pat = (if pat \<noteq> [] \<and> last pat = CHR 0x2A then Some (butlast pat) else None)"

definition topic_matches :: "string \<Rightarrow> string \<Rightarrow> bool" where
  "topic_matches pat topic =
    (case strip_star pat of Some pre \<Rightarrow> str_strip_prefix pre topic \<noteq> None | None \<Rightarrow> pat = topic)"

definition topic_wildcard :: "string \<Rightarrow> string \<Rightarrow> string option" where
  "topic_wildcard pat topic = (case strip_star pat of Some pre \<Rightarrow> str_strip_prefix pre topic | None \<Rightarrow> None)"

section \<open>The world and the socket\<close>

record chan_world =
  cw_rt :: runtime
  cw_groups :: process_groups
  cw_conn :: "node list"
  cw_out :: pg_out
  cw_now :: "64 word"
  cw_ids :: "64 word"

definition world_this :: "chan_world \<Rightarrow> node_identity option" where
  "world_this w = ps_this (rt_pids (cw_rt w))"

definition world_join :: "string \<Rightarrow> pid \<Rightarrow> chan_world \<Rightarrow> chan_world" where
  "world_join g p w =
    (let (groups, out) = pg_join (world_this w) (cw_conn w) g p (cw_groups w) in w\<lparr> cw_groups := groups, cw_out := cw_out w @ out \<rparr>)"

definition world_leave :: "string \<Rightarrow> pid \<Rightarrow> chan_world \<Rightarrow> chan_world" where
  "world_leave g p w =
    (let (groups, out) = pg_leave (world_this w) (cw_conn w) g p (cw_groups w) in w\<lparr> cw_groups := groups, cw_out := cw_out w @ out \<rparr>)"

definition world_send :: "byte list \<Rightarrow> pid \<Rightarrow> chan_world \<Rightarrow> chan_world" where
  "world_send bytes p w = w\<lparr> cw_rt := snd (rt_send_raw p (PData bytes) (cw_rt w)) \<rparr>"

definition hex_digit :: "nat \<Rightarrow> char" where
  "hex_digit n = (if n < 10 then char_of (48 + n) else char_of (87 + n))"

fun hex_of :: "nat \<Rightarrow> string" where
  "hex_of n = (if n < 16 then [hex_digit n] else hex_of (n div 16) @ [hex_digit (n mod 16)])"

declare hex_of.simps [simp del]

definition uuid_simple :: "chan_world \<Rightarrow> string \<times> chan_world" where
  "uuid_simple w = (hex_of (unat (cw_now w)) @ ''-'' @ hex_of (unat (cw_ids w)), w\<lparr> cw_ids := cw_ids w + 1 \<rparr>)"

record socket =
  so_pid :: pid
  so_topic :: string
  so_join_ref :: string

definition socket_new :: "pid \<Rightarrow> string \<Rightarrow> chan_world \<Rightarrow> socket \<times> chan_world" where
  "socket_new p topic w =
    (let (r, w1) = uuid_simple w in (\<lparr> so_pid = p, so_topic = topic, so_join_ref = r \<rparr>, w1))"

section \<open>Results and messages\<close>

record join_error =
  je_reason :: string
  je_details :: "(string, string) hmap option"

definition join_error_new :: "string \<Rightarrow> join_error" where
  "join_error_new reason = \<lparr> je_reason = reason, je_details = None \<rparr>"

definition with_details :: "(string, string) hmap \<Rightarrow> join_error \<Rightarrow> join_error" where
  "with_details d e = e\<lparr> je_details := Some d \<rparr>"

datatype 'c join_result = JoinedOk 'c | JoinedReply 'c "byte list" | JoinedError join_error

datatype reply_status = RsOk | RsError

datatype 'o handle_result =
    HrNoReply | HrReply reply_status 'o | HrReplyRaw reply_status "byte list" | HrBroadcast string 'o
  | HrBroadcastFrom string 'o | HrPush string 'o | HrPushRaw string "byte list" | HrStop string

datatype out_result = OutSend | OutSendModified "string option" "byte list" | OutDrop

datatype terminate_reason =
    TerminateNormal | TerminateLeft | TerminateClosed | TerminateShutdown string | TerminateError string

datatype raw_result =
    RawNoReply | RawReply reply_status "byte list" | RawBroadcast string "byte list"
  | RawBroadcastFrom string "byte list" | RawPush string "byte list" | RawStop string

text \<open>\<open>enc\<close> is the serialisation of the payload, which may fail.\<close>

definition handle_result_to_raw :: "('o \<Rightarrow> byte list option) \<Rightarrow> 'o handle_result \<Rightarrow> raw_result" where
  "handle_result_to_raw enc r =
    (case r of
       HrNoReply \<Rightarrow> RawNoReply
     | HrReply status payload \<Rightarrow> (case enc payload of Some bytes \<Rightarrow> RawReply status bytes | None \<Rightarrow> RawNoReply)
     | HrReplyRaw status payload \<Rightarrow> RawReply status payload
     | HrBroadcast event payload \<Rightarrow> (case enc payload of Some bytes \<Rightarrow> RawBroadcast event bytes | None \<Rightarrow> RawNoReply)
     | HrBroadcastFrom event payload \<Rightarrow> (case enc payload of Some bytes \<Rightarrow> RawBroadcastFrom event bytes | None \<Rightarrow> RawNoReply)
     | HrPush event payload \<Rightarrow> (case enc payload of Some bytes \<Rightarrow> RawPush event bytes | None \<Rightarrow> RawNoReply)
     | HrPushRaw event payload \<Rightarrow> RawPush event payload
     | HrStop reason \<Rightarrow> RawStop reason)"

text \<open>The same with JSON payloads, whose serialisation is then the argument.\<close>

definition handle_result_to_raw_json :: "('o \<Rightarrow> byte list option) \<Rightarrow> 'o handle_result \<Rightarrow> raw_result" where
  "handle_result_to_raw_json json_enc r = handle_result_to_raw json_enc r"

record chan_message =
  cm_topic :: string
  cm_event :: string
  cm_payload :: "byte list"
  cm_msg_ref :: "string option"
  cm_join_ref :: "string option"

definition chan_message_new :: "string \<Rightarrow> string \<Rightarrow> byte list \<Rightarrow> chan_message" where
  "chan_message_new topic event payload =
    \<lparr> cm_topic = topic, cm_event = event, cm_payload = payload, cm_msg_ref = None, cm_join_ref = None \<rparr>"

definition cm_with_ref :: "string \<Rightarrow> chan_message \<Rightarrow> chan_message" where
  "cm_with_ref r m = m\<lparr> cm_msg_ref := Some r \<rparr>"

definition cm_with_join_ref :: "string \<Rightarrow> chan_message \<Rightarrow> chan_message" where
  "cm_with_join_ref r m = m\<lparr> cm_join_ref := Some r \<rparr>"

datatype channel_reply =
    ChJoinOk string "byte list option" | ChJoinError string string
  | ChReply string string "byte list" | ChPush string string "byte list"

record chan_wire =
  cy_reply :: "channel_reply \<Rightarrow> byte list option"
  cy_unreply :: "payload \<Rightarrow> channel_reply option"

section \<open>Pushing and broadcasting\<close>

definition chan_group :: "string \<Rightarrow> string" where
  "chan_group topic = ''channel:'' @ topic"

definition chan_push :: "chan_wire \<Rightarrow> ('a \<Rightarrow> byte list option) \<Rightarrow> socket \<Rightarrow> string \<Rightarrow> 'a \<Rightarrow> chan_world \<Rightarrow> chan_world" where
  "chan_push W enc socket event payload w =
    (case enc payload of
       None \<Rightarrow> w
     | Some payload_bytes \<Rightarrow>
        (case cy_reply W (ChPush (so_topic socket) event payload_bytes) of
           None \<Rightarrow> w
         | Some bytes \<Rightarrow> world_send bytes (so_pid socket) w))"

definition broadcast_to_topic :: "chan_wire \<Rightarrow> ('a \<Rightarrow> byte list option) \<Rightarrow> string \<Rightarrow> string \<Rightarrow> 'a \<Rightarrow> chan_world \<Rightarrow> chan_world" where
  "broadcast_to_topic W enc topic event payload w =
    (case enc payload of
       None \<Rightarrow> w
     | Some payload_bytes \<Rightarrow>
        (case cy_reply W (ChPush topic event payload_bytes) of
           None \<Rightarrow> w
         | Some bytes \<Rightarrow> fold (world_send bytes) (pg_get_members (chan_group topic) (cw_groups w)) w))"

definition chan_broadcast :: "chan_wire \<Rightarrow> ('a \<Rightarrow> byte list option) \<Rightarrow> socket \<Rightarrow> string \<Rightarrow> 'a \<Rightarrow> chan_world \<Rightarrow> chan_world" where
  "chan_broadcast W enc socket event payload w = broadcast_to_topic W enc (so_topic socket) event payload w"

definition broadcast_to_topic_from :: "chan_wire \<Rightarrow> ('a \<Rightarrow> byte list option) \<Rightarrow> string \<Rightarrow> pid \<Rightarrow> string \<Rightarrow> 'a \<Rightarrow> chan_world \<Rightarrow> chan_world" where
  "broadcast_to_topic_from W enc topic from_pid event payload w =
    (case enc payload of
       None \<Rightarrow> w
     | Some payload_bytes \<Rightarrow>
        (case cy_reply W (ChPush topic event payload_bytes) of
           None \<Rightarrow> w
         | Some bytes \<Rightarrow>
            fold (\<lambda>p w. if p \<noteq> from_pid then world_send bytes p w else w) (pg_get_members (chan_group topic) (cw_groups w)) w))"

definition chan_broadcast_from :: "chan_wire \<Rightarrow> ('a \<Rightarrow> byte list option) \<Rightarrow> socket \<Rightarrow> string \<Rightarrow> 'a \<Rightarrow> chan_world \<Rightarrow> chan_world" where
  "chan_broadcast_from W enc socket event payload w =
    (case enc payload of
       None \<Rightarrow> w
     | Some payload_bytes \<Rightarrow>
        (case cy_reply W (ChPush (so_topic socket) event payload_bytes) of
           None \<Rightarrow> w
         | Some bytes \<Rightarrow>
            fold (\<lambda>p w. if p \<noteq> so_pid socket then world_send bytes p w else w)
              (pg_get_members (chan_group (so_topic socket)) (cw_groups w)) w))"

text \<open>The variants for clients that read JSON.\<close>

definition chan_push_json :: "chan_wire \<Rightarrow> ('a \<Rightarrow> byte list option) \<Rightarrow> socket \<Rightarrow> string \<Rightarrow> 'a \<Rightarrow> chan_world \<Rightarrow> chan_world" where
  "chan_push_json W json_enc socket event payload w = chan_push W json_enc socket event payload w"

definition chan_broadcast_from_json :: "chan_wire \<Rightarrow> ('a \<Rightarrow> byte list option) \<Rightarrow> socket \<Rightarrow> string \<Rightarrow> 'a \<Rightarrow> chan_world \<Rightarrow> chan_world" where
  "chan_broadcast_from_json W json_enc socket event payload w = chan_broadcast_from W json_enc socket event payload w"

section \<open>A channel and its handler\<close>

record ('c, 'j, 'i, 'o, 'f) channel =
  ch_pattern :: string
  ch_intercept :: "string list"
  ch_dec_join :: "byte list \<Rightarrow> decode_error + 'j"
  ch_dec_in :: "byte list \<Rightarrow> decode_error + 'i"
  ch_dec_info :: "payload \<Rightarrow> decode_error + 'f"
  ch_enc_out :: "'o \<Rightarrow> byte list option"
  ch_shown :: "decode_error \<Rightarrow> string"
  ch_join :: "string \<Rightarrow> 'j \<Rightarrow> socket \<Rightarrow> chan_world \<Rightarrow> 'c join_result \<times> chan_world"
  ch_in :: "string \<Rightarrow> 'i \<Rightarrow> socket \<Rightarrow> 'c \<times> chan_world \<Rightarrow> 'o handle_result \<times> 'c \<times> chan_world"
  ch_info :: "'f \<Rightarrow> socket \<Rightarrow> 'c \<times> chan_world \<Rightarrow> 'o handle_result \<times> 'c \<times> chan_world"
  ch_out :: "string \<Rightarrow> byte list \<Rightarrow> socket \<Rightarrow> 'c \<times> chan_world \<Rightarrow> out_result \<times> 'c \<times> chan_world"
  ch_terminate :: "terminate_reason \<Rightarrow> socket \<Rightarrow> 'c \<times> chan_world \<Rightarrow> 'c \<times> chan_world"

definition handle_in_raw :: "('c, 'j, 'i, 'o, 'f) channel \<Rightarrow> string \<Rightarrow> byte list \<Rightarrow> socket \<Rightarrow> 'c \<times> chan_world \<Rightarrow>
    raw_result \<times> 'c \<times> chan_world" where
  "handle_in_raw C event payload socket x =
    (case ch_dec_in C payload of
       Inr msg \<Rightarrow> (let (result, x1) = ch_in C event msg socket x in (handle_result_to_raw (ch_enc_out C) result, x1))
     | Inl _ \<Rightarrow> (RawNoReply, x))"

definition handle_info_raw :: "('c, 'j, 'i, 'o, 'f) channel \<Rightarrow> payload \<Rightarrow> socket \<Rightarrow> 'c \<times> chan_world \<Rightarrow>
    raw_result \<times> 'c \<times> chan_world" where
  "handle_info_raw C msg socket x =
    (case ch_dec_info C msg of
       Inr info \<Rightarrow> (let (result, x1) = ch_info C info socket x in (handle_result_to_raw (ch_enc_out C) result, x1))
     | Inl _ \<Rightarrow> (RawNoReply, x))"

definition is_intercepted :: "('c, 'j, 'i, 'o, 'f) channel \<Rightarrow> string \<Rightarrow> bool" where
  "is_intercepted C event = (event \<in> set (ch_intercept C))"

text \<open>What a handler offers: joining, and the operations of the channel instance that joining gives.\<close>

record 'c channel_handler =
  hd_pattern :: string
  hd_matches :: "string \<Rightarrow> bool"
  hd_join :: "string \<Rightarrow> byte list \<Rightarrow> socket \<Rightarrow> chan_world \<Rightarrow> (join_error + 'c \<times> byte list option) \<times> chan_world"
  hd_event :: "string \<Rightarrow> byte list \<Rightarrow> socket \<Rightarrow> 'c \<times> chan_world \<Rightarrow> raw_result \<times> 'c \<times> chan_world"
  hd_info :: "payload \<Rightarrow> socket \<Rightarrow> 'c \<times> chan_world \<Rightarrow> raw_result \<times> 'c \<times> chan_world"
  hd_terminate :: "terminate_reason \<Rightarrow> socket \<Rightarrow> 'c \<times> chan_world \<Rightarrow> 'c \<times> chan_world"
  hd_intercepted :: "string \<Rightarrow> bool"
  hd_out :: "string \<Rightarrow> byte list \<Rightarrow> socket \<Rightarrow> 'c \<times> chan_world \<Rightarrow> out_result \<times> 'c \<times> chan_world"

definition typed_join :: "('c, 'j, 'i, 'o, 'f) channel \<Rightarrow> string \<Rightarrow> byte list \<Rightarrow> socket \<Rightarrow> chan_world \<Rightarrow>
    (join_error + 'c \<times> byte list option) \<times> chan_world" where
  "typed_join C topic payload socket w =
    (case ch_dec_join C payload of
       Inl e \<Rightarrow> (Inl (join_error_new (''invalid payload: '' @ ch_shown C e)), w)
     | Inr join_payload \<Rightarrow>
        (case ch_join C topic join_payload socket w of
           (JoinedOk c, w1) \<Rightarrow> (Inr (c, None), w1)
         | (JoinedReply c reply, w1) \<Rightarrow> (Inr (c, Some reply), w1)
         | (JoinedError e, w1) \<Rightarrow> (Inl e, w1)))"

definition typed_channel_handler :: "('c, 'j, 'i, 'o, 'f) channel \<Rightarrow> 'c channel_handler" where
  "typed_channel_handler C =
    \<lparr> hd_pattern = ch_pattern C, hd_matches = topic_matches (ch_pattern C), hd_join = typed_join C,
      hd_event = handle_in_raw C, hd_info = handle_info_raw C, hd_terminate = ch_terminate C,
      hd_intercepted = is_intercepted C, hd_out = ch_out C \<rparr>"

section \<open>The server\<close>

datatype channel_message =
    CmJoin string "byte list" pid string | CmEvent string string "byte list" string | CmLeave string
  | CmBroadcast string string "byte list"

record 'c chan_conn =
  cn_socket :: socket
  cn_instance :: 'c
  cn_handler :: "'c channel_handler"

record 'c channel_server =
  cs_client :: pid
  cs_handlers :: "'c channel_handler list"
  cs_channels :: "(string, 'c chan_conn) hmap"

definition channel_server_new :: "pid \<Rightarrow> 'c channel_server" where
  "channel_server_new p = \<lparr> cs_client = p, cs_handlers = [], cs_channels = [] \<rparr>"

definition add_dyn_handler :: "'c channel_handler \<Rightarrow> 'c channel_server \<Rightarrow> 'c channel_server" where
  "add_dyn_handler h s = s\<lparr> cs_handlers := cs_handlers s @ [h] \<rparr>"

definition add_handler :: "('c, 'j, 'i, 'o, 'f) channel \<Rightarrow> 'c channel_server \<Rightarrow> 'c channel_server" where
  "add_handler C s = s\<lparr> cs_handlers := cs_handlers s @ [typed_channel_handler C] \<rparr>"

definition find_handler :: "string \<Rightarrow> 'c channel_handler list \<Rightarrow> 'c channel_handler option" where
  "find_handler topic hs = find (\<lambda>h. hd_matches h topic) hs"

text \<open>An operation of the channel of a connection.\<close>

definition conn_run :: "('c channel_handler \<Rightarrow> socket \<Rightarrow> 'c \<times> chan_world \<Rightarrow> 'r \<times> 'c \<times> chan_world) \<Rightarrow>
    'c chan_conn \<Rightarrow> chan_world \<Rightarrow> 'r \<times> 'c chan_conn \<times> chan_world" where
  "conn_run f conn w =
    (let (r, c, w1) = f (cn_handler conn) (cn_socket conn) (cn_instance conn, w) in (r, conn\<lparr> cn_instance := c \<rparr>, w1))"

definition conn_terminate :: "terminate_reason \<Rightarrow> 'c chan_conn \<Rightarrow> chan_world \<Rightarrow> chan_world" where
  "conn_terminate reason conn w = snd (hd_terminate (cn_handler conn) reason (cn_socket conn) (cn_instance conn, w))"

definition cs_handle_join :: "string \<Rightarrow> byte list \<Rightarrow> string \<Rightarrow> 'c channel_server \<times> chan_world \<Rightarrow>
    channel_reply \<times> 'c channel_server \<times> chan_world" where
  "cs_handle_join topic payload msg_ref = (\<lambda>(s, w).
    if hm_contains topic (cs_channels s) then (ChJoinError msg_ref ''already joined'', s, w)
    else (case find_handler topic (cs_handlers s) of
       None \<Rightarrow> (ChJoinError msg_ref (''no handler for topic: '' @ topic), s, w)
     | Some h \<Rightarrow>
        (let (socket, w1) = socket_new (cs_client s) topic w in
         case hd_join h topic payload socket w1 of
           (Inr (inst, reply_payload), w2) \<Rightarrow>
             (ChJoinOk msg_ref reply_payload,
              s\<lparr> cs_channels := hm_insert topic \<lparr> cn_socket = socket, cn_instance = inst, cn_handler = h \<rparr> (cs_channels s) \<rparr>,
              world_join (chan_group topic) (cs_client s) w2)
         | (Inl e, w2) \<Rightarrow> (ChJoinError msg_ref (je_reason e), s, w2))))"

definition cs_handle_leave :: "string \<Rightarrow> 'c channel_server \<times> chan_world \<Rightarrow> 'c channel_server \<times> chan_world" where
  "cs_handle_leave topic = (\<lambda>(s, w).
    (case hm_get (cs_channels s) topic of
       None \<Rightarrow> (s, w)
     | Some conn \<Rightarrow>
        (s\<lparr> cs_channels := hm_remove topic (cs_channels s) \<rparr>,
         world_leave (chan_group topic) (cs_client s) (conn_terminate TerminateLeft conn w))))"

definition cs_broadcast :: "chan_wire \<Rightarrow> string \<Rightarrow> string \<Rightarrow> byte list \<Rightarrow> chan_world \<Rightarrow> chan_world" where
  "cs_broadcast W topic event payload w =
    (case cy_reply W (ChPush topic event payload) of
       None \<Rightarrow> w
     | Some bytes \<Rightarrow> fold (world_send bytes) (pg_get_members (chan_group topic) (cw_groups w)) w)"

definition cs_broadcast_from :: "chan_wire \<Rightarrow> pid \<Rightarrow> string \<Rightarrow> string \<Rightarrow> byte list \<Rightarrow> chan_world \<Rightarrow> chan_world" where
  "cs_broadcast_from W client topic event payload w =
    (case cy_reply W (ChPush topic event payload) of
       None \<Rightarrow> w
     | Some bytes \<Rightarrow>
        fold (\<lambda>p w. if p \<noteq> client then world_send bytes p w else w) (pg_get_members (chan_group topic) (cw_groups w)) w)"

definition status_text :: "reply_status \<Rightarrow> string" where
  "status_text st = (case st of RsOk \<Rightarrow> ''ok'' | RsError \<Rightarrow> ''error'')"

definition cs_handle_event :: "chan_wire \<Rightarrow> string \<Rightarrow> string \<Rightarrow> byte list \<Rightarrow> string \<Rightarrow> 'c channel_server \<times> chan_world \<Rightarrow>
    channel_reply option \<times> 'c channel_server \<times> chan_world" where
  "cs_handle_event W topic event payload msg_ref = (\<lambda>(s, w).
    (case hm_get (cs_channels s) topic of
       None \<Rightarrow> (None, s, w)
     | Some conn \<Rightarrow>
        (let (result, conn1, w1) = conn_run (\<lambda>h. hd_event h event payload) conn w;
             s1 = s\<lparr> cs_channels := hm_insert topic conn1 (cs_channels s) \<rparr>
         in case result of
              RawNoReply \<Rightarrow> (None, s1, w1)
            | RawReply status bytes \<Rightarrow> (Some (ChReply msg_ref (status_text status) bytes), s1, w1)
            | RawBroadcast ev bytes \<Rightarrow> (None, s1, cs_broadcast W topic ev bytes w1)
            | RawBroadcastFrom ev bytes \<Rightarrow> (None, s1, cs_broadcast_from W (cs_client s) topic ev bytes w1)
            | RawPush ev bytes \<Rightarrow> (Some (ChPush topic ev bytes), s1, w1)
            | RawStop _ \<Rightarrow> (None, cs_handle_leave topic (s1, w1)))))"

fun cs_terminate_topics :: "terminate_reason \<Rightarrow> string list \<Rightarrow> 'c channel_server \<times> chan_world \<Rightarrow> 'c channel_server \<times> chan_world" where
  "cs_terminate_topics reason [] x = x"
| "cs_terminate_topics reason (topic # topics) (s, w) =
    (case hm_get (cs_channels s) topic of
       None \<Rightarrow> cs_terminate_topics reason topics (s, w)
     | Some conn \<Rightarrow>
        cs_terminate_topics reason topics
          (s\<lparr> cs_channels := hm_remove topic (cs_channels s) \<rparr>,
           world_leave (chan_group topic) (cs_client s) (conn_terminate reason conn w)))"

definition cs_terminate :: "terminate_reason \<Rightarrow> 'c channel_server \<times> chan_world \<Rightarrow> 'c channel_server \<times> chan_world" where
  "cs_terminate reason x = cs_terminate_topics reason (hm_keys (cs_channels (fst x))) x"

definition joined_topics :: "'c channel_server \<Rightarrow> string list" where
  "joined_topics s = hm_keys (cs_channels s)"

definition is_joined :: "string \<Rightarrow> 'c channel_server \<Rightarrow> bool" where
  "is_joined topic s = hm_contains topic (cs_channels s)"

definition cs_handle_info :: "string \<Rightarrow> payload \<Rightarrow> 'c channel_server \<times> chan_world \<Rightarrow>
    raw_result option \<times> 'c channel_server \<times> chan_world" where
  "cs_handle_info topic msg = (\<lambda>(s, w).
    (case hm_get (cs_channels s) topic of
       None \<Rightarrow> (None, s, w)
     | Some conn \<Rightarrow>
        (let (result, conn1, w1) = conn_run (\<lambda>h. hd_info h msg) conn w
         in (Some result, s\<lparr> cs_channels := hm_insert topic conn1 (cs_channels s) \<rparr>, w1))))"

fun cs_info_topics :: "payload \<Rightarrow> string list \<Rightarrow> 'c channel_server \<times> chan_world \<Rightarrow>
    (string \<times> raw_result) list \<times> 'c channel_server \<times> chan_world" where
  "cs_info_topics msg [] x = ([], x)"
| "cs_info_topics msg (topic # topics) x =
    (case cs_handle_info topic msg x of
       (None, _) \<Rightarrow> cs_info_topics msg topics x
     | (Some result, x1) \<Rightarrow> (let (results, x2) = cs_info_topics msg topics x1 in ((topic, result) # results, x2)))"

definition cs_handle_info_any :: "payload \<Rightarrow> 'c channel_server \<times> chan_world \<Rightarrow>
    (string \<times> raw_result) list \<times> 'c channel_server \<times> chan_world" where
  "cs_handle_info_any msg x = cs_info_topics msg (hm_keys (cs_channels (fst x))) x"

text \<open>The builder of servers.\<close>

definition server_builder_channel :: "('c, 'j, 'i, 'o, 'f) channel \<Rightarrow> 'c channel_handler list \<Rightarrow> 'c channel_handler list" where
  "server_builder_channel C hs = hs @ [typed_channel_handler C]"

definition server_builder_build :: "pid \<Rightarrow> 'c channel_handler list \<Rightarrow> 'c channel_server" where
  "server_builder_build client hs = \<lparr> cs_client = client, cs_handlers = hs, cs_channels = [] \<rparr>"

end
