(* ===== verification/Channel_Ws.thy ===== *)
theory Channel_Ws
  imports Channel Btree
begin

text \<open>
  The endpoint of channels for WebSocket clients (\<open>channel/websocket.rs\<close>): messages of the Phoenix protocol and
  their serializers, the handler that converts payloads from and to JSON, the session of a client and the
  loop that serves it.  Parsing and printing of JSON and the serialisation of the messages of a channel
  are arguments.
\<close>

section \<open>Messages\<close>

text \<open>The values of the JSON library: a number is an integer of 64 bits, with or without sign, or a float, here by its
  text; an object is an ordered map.\<close>

datatype json_number = PosInt "64 word" | NegInt "64 word" | Float string

datatype json =
  JNull | JBool bool | JNumber json_number | JString string | JArray "json list" | JObject "(string \<times> json) list"

text \<open>An object with the given entries.\<close>

definition json_object :: "(string \<times> json) list \<Rightarrow> json" where
  "json_object entries = JObject (fold (\<lambda>(k, v). bl_insert k v) entries [])"

definition as_str :: "json \<Rightarrow> string option" where
  "as_str v = (case v of JString s \<Rightarrow> Some s | _ \<Rightarrow> None)"

definition opt_str :: "string option \<Rightarrow> json" where
  "opt_str x = (case x of None \<Rightarrow> JNull | Some s \<Rightarrow> JString s)"

record phx_message =
  px_join_ref :: "string option"
  px_msg_ref :: "string option"
  px_topic :: string
  px_event :: string
  px_payload :: json

definition phx_new :: "string \<Rightarrow> string \<Rightarrow> json \<Rightarrow> phx_message" where
  "phx_new topic event payload =
    \<lparr> px_join_ref = None, px_msg_ref = None, px_topic = topic, px_event = event, px_payload = payload \<rparr>"

definition phx_with_join_ref :: "string \<Rightarrow> phx_message \<Rightarrow> phx_message" where
  "phx_with_join_ref r m = m\<lparr> px_join_ref := Some r \<rparr>"

definition phx_with_msg_ref :: "string \<Rightarrow> phx_message \<Rightarrow> phx_message" where
  "phx_with_msg_ref r m = m\<lparr> px_msg_ref := Some r \<rparr>"

definition phx_from_json :: "json \<Rightarrow> phx_message option" where
  "phx_from_json v =
    (case v of
       JArray arr \<Rightarrow>
         if length arr \<noteq> 5 then None
         else (case as_str (arr ! 2) of
            None \<Rightarrow> None
          | Some topic \<Rightarrow>
             (case as_str (arr ! 3) of
                None \<Rightarrow> None
              | Some event \<Rightarrow> Some \<lparr> px_join_ref = as_str (arr ! 0), px_msg_ref = as_str (arr ! 1), px_topic = topic,
                                   px_event = event, px_payload = arr ! 4 \<rparr>))
     | _ \<Rightarrow> None)"

definition phx_to_json :: "phx_message \<Rightarrow> json" where
  "phx_to_json m = JArray [opt_str (px_join_ref m), opt_str (px_msg_ref m), JString (px_topic m), JString (px_event m), px_payload m]"

definition phx_reply :: "string option \<Rightarrow> string option \<Rightarrow> string \<Rightarrow> string \<Rightarrow> json \<Rightarrow> phx_message" where
  "phx_reply join_ref msg_ref topic status response =
    \<lparr> px_join_ref = join_ref, px_msg_ref = msg_ref, px_topic = topic, px_event = ''phx_reply'',
      px_payload = json_object [(''status'', JString status), (''response'', response)] \<rparr>"

definition phx_ok_reply :: "string option \<Rightarrow> string option \<Rightarrow> string \<Rightarrow> json \<Rightarrow> phx_message" where
  "phx_ok_reply join_ref msg_ref topic response = phx_reply join_ref msg_ref topic ''ok'' response"

definition phx_error_reply :: "string option \<Rightarrow> string option \<Rightarrow> string \<Rightarrow> string \<Rightarrow> phx_message" where
  "phx_error_reply join_ref msg_ref topic reason =
    phx_reply join_ref msg_ref topic ''error'' (json_object [(''reason'', JString reason)])"

definition phx_push :: "string option \<Rightarrow> string \<Rightarrow> string \<Rightarrow> json \<Rightarrow> phx_message" where
  "phx_push join_ref topic event payload =
    \<lparr> px_join_ref = join_ref, px_msg_ref = None, px_topic = topic, px_event = event, px_payload = payload \<rparr>"

section \<open>Serializers\<close>

record decoded_message =
  dm_join_ref :: "string option"
  dm_msg_ref :: "string option"
  dm_topic :: string
  dm_event :: string
  dm_payload :: "byte list"

record serializer =
  sz_decode :: "byte list \<Rightarrow> decoded_message option"
  sz_reply :: "string option \<Rightarrow> string option \<Rightarrow> string \<Rightarrow> string \<Rightarrow> byte list \<Rightarrow> byte list"
  sz_push :: "string option \<Rightarrow> string \<Rightarrow> string \<Rightarrow> byte list \<Rightarrow> byte list"

definition sz_fastlane :: "serializer \<Rightarrow> string \<Rightarrow> string \<Rightarrow> byte list \<Rightarrow> byte list" where
  "sz_fastlane S topic event payload = sz_push S None topic event payload"

text \<open>The JSON library: parsing bytes, and printing.  An array of the bytes stands for a payload that is
  not JSON.\<close>

record json_lib =
  jl_parse :: "byte list \<Rightarrow> json option"
  jl_print :: "json \<Rightarrow> byte list"
  jl_bytes :: "byte list \<Rightarrow> json"

definition v2_decode :: "json_lib \<Rightarrow> byte list \<Rightarrow> decoded_message option" where
  "v2_decode J data =
    (if \<not> utf8_valid data then None
     else (case jl_parse J data of
        Some (JArray arr) \<Rightarrow>
          if length arr \<noteq> 5 then None
          else (case as_str (arr ! 2) of
             None \<Rightarrow> None
           | Some topic \<Rightarrow>
              (case as_str (arr ! 3) of
                 None \<Rightarrow> None
               | Some event \<Rightarrow> Some \<lparr> dm_join_ref = as_str (arr ! 0), dm_msg_ref = as_str (arr ! 1), dm_topic = topic,
                                    dm_event = event, dm_payload = jl_print J (arr ! 4) \<rparr>))
      | _ \<Rightarrow> None))"

definition v2_encode_reply :: "json_lib \<Rightarrow> string option \<Rightarrow> string option \<Rightarrow> string \<Rightarrow> string \<Rightarrow> byte list \<Rightarrow> byte list" where
  "v2_encode_reply J join_ref msg_ref topic status payload =
    (let response = (case jl_parse J payload of Some v \<Rightarrow> v | None \<Rightarrow> json_object [])
     in jl_print J (JArray [opt_str join_ref, opt_str msg_ref, JString topic, JString ''phx_reply'',
                           json_object [(''status'', JString status), (''response'', response)]]))"

definition v2_encode_push :: "json_lib \<Rightarrow> string option \<Rightarrow> string \<Rightarrow> string \<Rightarrow> byte list \<Rightarrow> byte list" where
  "v2_encode_push J join_ref topic event payload =
    (let v = (case jl_parse J payload of Some v \<Rightarrow> v | None \<Rightarrow> json_object [(''data'', jl_bytes J payload)])
     in jl_print J (JArray [opt_str join_ref, JNull, JString topic, JString event, v]))"

definition v2_serializer :: "json_lib \<Rightarrow> serializer" where
  "v2_serializer J = \<lparr> sz_decode = v2_decode J, sz_reply = v2_encode_reply J, sz_push = v2_encode_push J \<rparr>"

record serializer_registry =
  sr_serializers :: "(string, serializer) hmap"
  sr_default :: string

definition serializer_registry_new :: "json_lib \<Rightarrow> serializer_registry" where
  "serializer_registry_new J = \<lparr> sr_serializers = hm_insert ''2.0.0'' (v2_serializer J) [], sr_default = ''2.0.0'' \<rparr>"

definition serializer_register :: "string \<Rightarrow> serializer \<Rightarrow> serializer_registry \<Rightarrow> serializer_registry" where
  "serializer_register version S r = r\<lparr> sr_serializers := hm_insert version S (sr_serializers r) \<rparr>"

definition serializer_default_version :: "string \<Rightarrow> serializer_registry \<Rightarrow> serializer_registry" where
  "serializer_default_version version r = r\<lparr> sr_default := version \<rparr>"

definition serializer_get :: "json_lib \<Rightarrow> string option \<Rightarrow> serializer_registry \<Rightarrow> serializer" where
  "serializer_get J version r =
    (let vsn = (case version of Some v \<Rightarrow> v | None \<Rightarrow> sr_default r) in
     case hm_get (sr_serializers r) vsn of
       Some S \<Rightarrow> S
     | None \<Rightarrow> (case hm_get (sr_serializers r) (sr_default r) of Some S \<Rightarrow> S | None \<Rightarrow> v2_serializer J))"

definition serializer_versions :: "serializer_registry \<Rightarrow> string list" where
  "serializer_versions r = hm_keys (sr_serializers r)"

section \<open>The handler with JSON payloads\<close>

text \<open>Reading and writing the messages of a channel as JSON, and its outgoing messages in the internal
  format.\<close>

record ('j, 'i, 'o) json_codec =
  jc_join :: "byte list \<Rightarrow> string + 'j"
  jc_in :: "byte list \<Rightarrow> 'i option"
  jc_in_internal :: "'i \<Rightarrow> byte list option"
  jc_out_internal :: "byte list \<Rightarrow> 'o option"
  jc_out :: "'o \<Rightarrow> byte list option"
  jc_object :: "byte list \<Rightarrow> (string \<times> json) list option"
  jc_value :: "json \<Rightarrow> byte list option"

definition payload_to_json :: "('j, 'i, 'o) json_codec \<Rightarrow> byte list \<Rightarrow> byte list option" where
  "payload_to_json J payload = (case jc_out_internal J payload of None \<Rightarrow> None | Some out \<Rightarrow> jc_out J out)"

definition convert_result_to_json :: "('j, 'i, 'o) json_codec \<Rightarrow> raw_result \<Rightarrow> raw_result" where
  "convert_result_to_json J r =
    (let conv = (\<lambda>payload. case payload_to_json J payload of Some bytes \<Rightarrow> bytes | None \<Rightarrow> payload) in
     case r of
       RawReply status payload \<Rightarrow> RawReply status (conv payload)
     | RawPush event payload \<Rightarrow> RawPush event (conv payload)
     | RawBroadcast event payload \<Rightarrow> RawBroadcast event (conv payload)
     | RawBroadcastFrom event payload \<Rightarrow> RawBroadcastFrom event (conv payload)
     | other \<Rightarrow> other)"

definition json_join :: "('j, 'i, 'o) json_codec \<Rightarrow> ('c, 'j, 'i, 'o, 'f) channel \<Rightarrow> string \<Rightarrow> byte list \<Rightarrow> socket \<Rightarrow> chan_world \<Rightarrow>
    (join_error + 'c \<times> byte list option) \<times> chan_world" where
  "json_join J C topic payload socket w =
    (case jc_join J payload of
       Inl e \<Rightarrow> (Inl (join_error_new (''invalid payload: '' @ e)), w)
     | Inr join_payload \<Rightarrow>
        (case ch_join C topic join_payload socket w of
           (JoinedOk c, w1) \<Rightarrow> (Inr (c, None), w1)
         | (JoinedReply c reply, w1) \<Rightarrow>
             (Inr (c, jc_value J (JObject (case jc_object J reply of Some entries \<Rightarrow> entries | None \<Rightarrow> []))), w1)
         | (JoinedError e, w1) \<Rightarrow> (Inl e, w1)))"

definition json_event :: "('j, 'i, 'o) json_codec \<Rightarrow> ('c, 'j, 'i, 'o, 'f) channel \<Rightarrow> string \<Rightarrow> byte list \<Rightarrow> socket \<Rightarrow>
    'c \<times> chan_world \<Rightarrow> raw_result \<times> 'c \<times> chan_world" where
  "json_event J C event payload socket x =
    (let internal = (case jc_in J payload of
           Some msg \<Rightarrow> (case jc_in_internal J msg of Some bytes \<Rightarrow> bytes | None \<Rightarrow> payload)
         | None \<Rightarrow> payload);
         (result, x1) = handle_in_raw C event internal socket x
     in (convert_result_to_json J result, x1))"

definition json_info :: "('j, 'i, 'o) json_codec \<Rightarrow> ('c, 'j, 'i, 'o, 'f) channel \<Rightarrow> payload \<Rightarrow> socket \<Rightarrow>
    'c \<times> chan_world \<Rightarrow> raw_result \<times> 'c \<times> chan_world" where
  "json_info J C msg socket x =
    (let (result, x1) = handle_info_raw C msg socket x in (convert_result_to_json J result, x1))"

definition json_channel_handler :: "('j, 'i, 'o) json_codec \<Rightarrow> ('c, 'j, 'i, 'o, 'f) channel \<Rightarrow> 'c channel_handler" where
  "json_channel_handler J C =
    \<lparr> hd_pattern = ch_pattern C, hd_matches = topic_matches (ch_pattern C), hd_join = json_join J C,
      hd_event = json_event J C, hd_info = json_info J C, hd_terminate = ch_terminate C,
      hd_intercepted = is_intercepted C, hd_out = ch_out C \<rparr>"

section \<open>The session of a client\<close>

record 'c ws_conn =
  wc_conn :: "'c chan_conn"
  wc_join_ref :: "string option"

record 'c ws_session =
  ws_pid :: pid
  ws_handlers :: "'c channel_handler list"
  ws_channels :: "(string, 'c ws_conn) hmap"

definition ws_session_new :: "pid \<Rightarrow> 'c channel_handler list \<Rightarrow> 'c ws_session" where
  "ws_session_new p hs = \<lparr> ws_pid = p, ws_handlers = hs, ws_channels = [] \<rparr>"

definition ws_handle_join :: "string \<Rightarrow> byte list \<Rightarrow> string option \<Rightarrow> 'c ws_session \<times> chan_world \<Rightarrow>
    (join_error + byte list option) \<times> 'c ws_session \<times> chan_world" where
  "ws_handle_join topic payload join_ref = (\<lambda>(s, w).
    if hm_contains topic (ws_channels s) then (Inl (join_error_new ''already joined''), s, w)
    else (case find_handler topic (ws_handlers s) of
       None \<Rightarrow> (Inl (join_error_new (''no handler for topic: '' @ topic)), s, w)
     | Some h \<Rightarrow>
        (let (socket, w1) = socket_new (ws_pid s) topic w in
         case hd_join h topic payload socket w1 of
           (Inl e, w2) \<Rightarrow> (Inl e, s, w2)
         | (Inr (inst, reply_payload), w2) \<Rightarrow>
            (Inr reply_payload,
             s\<lparr> ws_channels := hm_insert topic
                 \<lparr> wc_conn = \<lparr> cn_socket = socket, cn_instance = inst, cn_handler = h \<rparr>, wc_join_ref = join_ref \<rparr> (ws_channels s) \<rparr>,
             world_join (chan_group topic) (ws_pid s) w2))))"

definition ws_handle_event :: "string \<Rightarrow> string \<Rightarrow> byte list \<Rightarrow> 'c ws_session \<times> chan_world \<Rightarrow>
    raw_result option \<times> 'c ws_session \<times> chan_world" where
  "ws_handle_event topic event payload = (\<lambda>(s, w).
    (case hm_get (ws_channels s) topic of
       None \<Rightarrow> (None, s, w)
     | Some c \<Rightarrow>
        (let (result, conn1, w1) = conn_run (\<lambda>h. hd_event h event payload) (wc_conn c) w
         in (Some result, s\<lparr> ws_channels := hm_insert topic (c\<lparr> wc_conn := conn1 \<rparr>) (ws_channels s) \<rparr>, w1))))"

definition ws_handle_leave :: "string \<Rightarrow> 'c ws_session \<times> chan_world \<Rightarrow> 'c ws_session \<times> chan_world" where
  "ws_handle_leave topic = (\<lambda>(s, w).
    (case hm_get (ws_channels s) topic of
       None \<Rightarrow> (s, w)
     | Some c \<Rightarrow>
        (s\<lparr> ws_channels := hm_remove topic (ws_channels s) \<rparr>,
         world_leave (chan_group topic) (ws_pid s) (conn_terminate TerminateLeft (wc_conn c) w))))"

fun ws_info_topics :: "payload \<Rightarrow> string list \<Rightarrow> 'c ws_session \<times> chan_world \<Rightarrow>
    (string \<times> raw_result) list \<times> 'c ws_session \<times> chan_world" where
  "ws_info_topics msg [] x = ([], x)"
| "ws_info_topics msg (topic # topics) (s, w) =
    (case hm_get (ws_channels s) topic of
       None \<Rightarrow> ws_info_topics msg topics (s, w)
     | Some c \<Rightarrow>
        (let (result, conn1, w1) = conn_run (\<lambda>h. hd_info h msg) (wc_conn c) w;
             s1 = s\<lparr> ws_channels := hm_insert topic (c\<lparr> wc_conn := conn1 \<rparr>) (ws_channels s) \<rparr>;
             (results, x2) = ws_info_topics msg topics (s1, w1)
         in ((topic, result) # results, x2)))"

definition ws_handle_info_all :: "payload \<Rightarrow> 'c ws_session \<times> chan_world \<Rightarrow> (string \<times> raw_result) list \<times> 'c ws_session \<times> chan_world" where
  "ws_handle_info_all msg x = ws_info_topics msg (hm_keys (ws_channels (fst x))) x"

definition ws_is_joined :: "string \<Rightarrow> 'c ws_session \<Rightarrow> bool" where
  "ws_is_joined topic s = hm_contains topic (ws_channels s)"

definition ws_join_ref :: "string \<Rightarrow> 'c ws_session \<Rightarrow> string option" where
  "ws_join_ref topic s = (case hm_get (ws_channels s) topic of None \<Rightarrow> None | Some c \<Rightarrow> wc_join_ref c)"

fun ws_terminate_topics :: "string list \<Rightarrow> 'c ws_session \<times> chan_world \<Rightarrow> 'c ws_session \<times> chan_world" where
  "ws_terminate_topics [] x = x"
| "ws_terminate_topics (topic # topics) (s, w) =
    (case hm_get (ws_channels s) topic of
       None \<Rightarrow> ws_terminate_topics topics (s, w)
     | Some c \<Rightarrow>
        ws_terminate_topics topics
          (s\<lparr> ws_channels := hm_remove topic (ws_channels s) \<rparr>,
           world_leave (chan_group topic) (ws_pid s) (conn_terminate TerminateClosed (wc_conn c) w)))"

definition ws_terminate :: "'c ws_session \<times> chan_world \<Rightarrow> 'c ws_session \<times> chan_world" where
  "ws_terminate x = ws_terminate_topics (hm_keys (ws_channels (fst x))) x"

section \<open>The endpoint\<close>

record ws_config =
  wcf_max_message_size :: nat
  wcf_heartbeat_timeout :: nat

definition ws_config_default :: ws_config where
  "ws_config_default = \<lparr> wcf_max_message_size = 64 * 1024, wcf_heartbeat_timeout = 60 \<rparr>"

record 'c ws_endpoint =
  we_handlers :: "'c channel_handler list"
  we_config :: ws_config
  we_registry :: serializer_registry

definition ws_endpoint_new :: "json_lib \<Rightarrow> 'c ws_endpoint" where
  "ws_endpoint_new J = \<lparr> we_handlers = [], we_config = ws_config_default, we_registry = serializer_registry_new J \<rparr>"

definition ws_with_config :: "ws_config \<Rightarrow> 'c ws_endpoint \<Rightarrow> 'c ws_endpoint" where
  "ws_with_config cfg e = e\<lparr> we_config := cfg \<rparr>"

definition ws_with_registry :: "serializer_registry \<Rightarrow> 'c ws_endpoint \<Rightarrow> 'c ws_endpoint" where
  "ws_with_registry r e = e\<lparr> we_registry := r \<rparr>"

definition ws_with_serializer :: "json_lib \<Rightarrow> serializer \<Rightarrow> 'c ws_endpoint \<Rightarrow> 'c ws_endpoint" where
  "ws_with_serializer J S e =
    e\<lparr> we_registry := serializer_default_version ''default'' (serializer_register ''default'' S (serializer_registry_new J)) \<rparr>"

definition ws_channel :: "('j, 'i, 'o) json_codec \<Rightarrow> ('c, 'j, 'i, 'o, 'f) channel \<Rightarrow> 'c ws_endpoint \<Rightarrow> 'c ws_endpoint" where
  "ws_channel J C e = e\<lparr> we_handlers := we_handlers e @ [json_channel_handler J C] \<rparr>"

definition ws_channel_postcard :: "('c, 'j, 'i, 'o, 'f) channel \<Rightarrow> 'c ws_endpoint \<Rightarrow> 'c ws_endpoint" where
  "ws_channel_postcard C e = e\<lparr> we_handlers := we_handlers e @ [typed_channel_handler C] \<rparr>"

text \<open>The version is taken from the query of the requested address.\<close>

fun split_at :: "char \<Rightarrow> string \<Rightarrow> string list" where
  "split_at c [] = [[]]"
| "split_at c (x # xs) =
    (if x = c then [] # split_at c xs else (case split_at c xs of w # ws \<Rightarrow> (x # w) # ws | [] \<Rightarrow> [[x]]))"

fun split_once :: "char \<Rightarrow> string \<Rightarrow> (string \<times> string) option" where
  "split_once c [] = None"
| "split_once c (x # xs) =
    (if x = c then Some ([], xs) else map_option (\<lambda>(a, b). (x # a, b)) (split_once c xs))"

definition parse_query_params :: "string \<Rightarrow> (string, string) hmap" where
  "parse_query_params uri =
    (case split_once (CHR ''?'') uri of
       None \<Rightarrow> []
     | Some (_, query) \<Rightarrow>
        fold (\<lambda>pair params. case split_once (CHR ''='') pair of Some (key, val) \<Rightarrow> hm_insert key val params | None \<Rightarrow> params)
          (split_at (CHR ''&'') query) [])"

definition negotiated_serializer :: "json_lib \<Rightarrow> 'c ws_endpoint \<Rightarrow> string \<Rightarrow> serializer" where
  "negotiated_serializer J e uri = serializer_get J (hm_get (parse_query_params uri) ''vsn'') (we_registry e)"

section \<open>Messages of the client\<close>

definition text_bytes :: "string \<Rightarrow> byte list" where
  "text_bytes s = map of_char s"

text \<open>\<open>reason_json\<close> prints the object with the reason.\<close>

definition reason_json :: "json_lib \<Rightarrow> string \<Rightarrow> byte list" where
  "reason_json J reason = jl_print J (json_object [(''reason'', JString reason)])"

definition handle_join_decoded :: "json_lib \<Rightarrow> serializer \<Rightarrow> decoded_message \<Rightarrow> 'c ws_session \<times> chan_world \<Rightarrow>
    byte list list \<times> 'c ws_session \<times> chan_world" where
  "handle_join_decoded J S m x =
    (case ws_handle_join (dm_topic m) (dm_payload m) (dm_join_ref m) x of
       (Inr reply_payload, x1) \<Rightarrow>
         ([sz_reply S (dm_join_ref m) (dm_msg_ref m) (dm_topic m) ''ok''
             (case reply_payload of Some bytes \<Rightarrow> bytes | None \<Rightarrow> text_bytes ''{}'')], x1)
     | (Inl e, x1) \<Rightarrow>
         ([sz_reply S (dm_join_ref m) (dm_msg_ref m) (dm_topic m) ''error'' (reason_json J (je_reason e))], x1))"

definition handle_leave_decoded :: "serializer \<Rightarrow> decoded_message \<Rightarrow> 'c ws_session \<times> chan_world \<Rightarrow>
    byte list list \<times> 'c ws_session \<times> chan_world" where
  "handle_leave_decoded S m x =
    ([sz_reply S None (dm_msg_ref m) (dm_topic m) ''ok'' (text_bytes ''{}'')], ws_handle_leave (dm_topic m) x)"

definition handle_channel_event_decoded :: "json_lib \<Rightarrow> chan_wire \<Rightarrow> serializer \<Rightarrow> decoded_message \<Rightarrow>
    'c ws_session \<times> chan_world \<Rightarrow> byte list list \<times> 'c ws_session \<times> chan_world" where
  "handle_channel_event_decoded J W S m x =
    (if \<not> ws_is_joined (dm_topic m) (fst x) then
       ([sz_reply S None (dm_msg_ref m) (dm_topic m) ''error'' (reason_json J ''not joined'')], x)
     else (case ws_handle_event (dm_topic m) (dm_event m) (dm_payload m) x of
       (None, s, w) \<Rightarrow>
         ([sz_reply S (ws_join_ref (dm_topic m) s) (dm_msg_ref m) (dm_topic m) ''error'' (reason_json J ''handler error'')], s, w)
     | (Some result, s, w) \<Rightarrow>
        (let ok = sz_reply S (ws_join_ref (dm_topic m) s) (dm_msg_ref m) (dm_topic m) ''ok'' (text_bytes ''{}'') in
         case result of
           RawNoReply \<Rightarrow> ([ok], s, w)
         | RawReply status payload \<Rightarrow>
             ([sz_reply S (ws_join_ref (dm_topic m) s) (dm_msg_ref m) (dm_topic m) (status_text status) payload], s, w)
         | RawPush event payload \<Rightarrow> ([sz_push S (ws_join_ref (dm_topic m) s) (dm_topic m) event payload], s, w)
         | RawBroadcast event payload \<Rightarrow> ([ok], s, cs_broadcast W (dm_topic m) event payload w)
         | RawBroadcastFrom event payload \<Rightarrow> ([ok], s, cs_broadcast_from W (ws_pid s) (dm_topic m) event payload w)
         | RawStop _ \<Rightarrow> ([], ws_handle_leave (dm_topic m) (s, w)))))"

definition handle_decoded_message :: "json_lib \<Rightarrow> chan_wire \<Rightarrow> serializer \<Rightarrow> decoded_message \<Rightarrow>
    'c ws_session \<times> chan_world \<Rightarrow> byte list list \<times> 'c ws_session \<times> chan_world" where
  "handle_decoded_message J W S m x =
    (if dm_event m = ''heartbeat'' \<and> dm_topic m = ''phoenix'' then
       ([sz_reply S None (dm_msg_ref m) ''phoenix'' ''ok'' (text_bytes ''{}'')], x)
     else if dm_event m = ''phx_join'' then handle_join_decoded J S m x
     else if dm_event m = ''phx_leave'' then handle_leave_decoded S m x
     else handle_channel_event_decoded J W S m x)"

section \<open>The loop of a connection\<close>

text \<open>Of the results of \<open>handle_info\<close> only broadcasts have an effect.\<close>

definition info_broadcasts :: "chan_wire \<Rightarrow> (string \<times> raw_result) list \<Rightarrow> chan_world \<Rightarrow> chan_world" where
  "info_broadcasts W results w =
    fold (\<lambda>(topic, result) w. case result of RawBroadcast event payload \<Rightarrow> cs_broadcast W topic event payload w | _ \<Rightarrow> w) results w"

text \<open>A message in the mailbox of the session: what is written to the client.\<close>

definition ws_mailbox :: "chan_wire \<Rightarrow> serializer \<Rightarrow> payload \<Rightarrow> 'c ws_session \<times> chan_world \<Rightarrow>
    byte list list \<times> 'c ws_session \<times> chan_world" where
  "ws_mailbox W S msg x =
    (case cy_unreply W msg of
       Some (ChPush topic event payload) \<Rightarrow>
         (let (results, s, w) = ws_handle_info_all msg x
          in ([sz_push S (ws_join_ref topic s) topic event payload], s, info_broadcasts W results w))
     | Some _ \<Rightarrow> ([], x)
     | None \<Rightarrow> (let (results, s, w) = ws_handle_info_all msg x in ([], s, info_broadcasts W results w)))"

definition ws_text :: "json_lib \<Rightarrow> chan_wire \<Rightarrow> serializer \<Rightarrow> byte list \<Rightarrow> 'c ws_session \<times> chan_world \<Rightarrow>
    byte list list \<times> 'c ws_session \<times> chan_world" where
  "ws_text J W S text x =
    (case sz_decode S text of None \<Rightarrow> ([], x) | Some m \<Rightarrow> handle_decoded_message J W S m x)"

text \<open>What the loop meets, with the number of writes that succeed before one fails.  A failed write ends the
  loop after a message of the mailbox, but only drops the other replies to a message of the client.
  \<open>lossy\<close> is the text made of the bytes of a frame.\<close>

datatype ws_event = WsMail payload nat | WsText "byte list" nat | WsSkip | WsEnd

fun ws_loop :: "json_lib \<Rightarrow> chan_wire \<Rightarrow> serializer \<Rightarrow> (byte list \<Rightarrow> byte list) \<Rightarrow> ws_event list \<Rightarrow> 'c ws_session \<times> chan_world \<Rightarrow>
    byte list list \<times> 'c ws_session \<times> chan_world" where
  "ws_loop J W S lossy [] x = ([], x)"
| "ws_loop J W S lossy (WsMail msg n # evs) x =
    (let (frames, x1) = ws_mailbox W S msg x in
     if n < length frames then (take n (map lossy frames), ws_terminate x1)
     else (let (frames', x2) = ws_loop J W S lossy evs x1 in (map lossy frames @ frames', x2)))"
| "ws_loop J W S lossy (WsText text n # evs) x =
    (let (frames, x1) = ws_text J W S text x;
         (frames', x2) = ws_loop J W S lossy evs x1
     in (take n (map lossy frames) @ frames', x2))"
| "ws_loop J W S lossy (WsSkip # evs) x = ws_loop J W S lossy evs x"
| "ws_loop J W S lossy (WsEnd # evs) x = ([], ws_terminate x)"

end
