(* ===== verification/Chan_Transport.thy ===== *)
theory Chan_Transport
  imports Channel_Ws
begin

text \<open>
  Channels over other transports (\<open>channel/transport.rs\<close>): the configuration and its builder, the messages
  of a transport, and the loop that serves a connection with a channel server.  The parser and the encoder
  of the wire format are arguments; what the transport itself does is the sequence of its results.
\<close>

section \<open>Configuration\<close>

record connection_metadata =
  cm_peer_addr :: "string option"
  cm_params :: "(string, string) hmap"
  cm_custom :: "(string, string) hmap"

datatype control_message = CtlPing "byte list" | CtlPong "byte list" | CtlClose "16 word option" "string option"

record 'c transport_config =
  tc_handlers :: "'c channel_handler list"
  tc_recv_timeout :: nat
  tc_heartbeat_interval :: "nat option"
  tc_max_message_size :: "nat option"
  tc_custom :: "(string, string) hmap"

text \<open>Durations are milliseconds.\<close>

definition transport_config_default :: "'c transport_config" where
  "transport_config_default =
    \<lparr> tc_handlers = [], tc_recv_timeout = 10, tc_heartbeat_interval = Some (30 * 1000),
      tc_max_message_size = Some (64 * 1024), tc_custom = [] \<rparr>"

definition tc_handler :: "('c, 'j, 'i, 'o, 'f) channel \<Rightarrow> 'c transport_config \<Rightarrow> 'c transport_config" where
  "tc_handler C cfg = cfg\<lparr> tc_handlers := tc_handlers cfg @ [typed_channel_handler C] \<rparr>"

definition tc_with_handler :: "'c channel_handler \<Rightarrow> 'c transport_config \<Rightarrow> 'c transport_config" where
  "tc_with_handler h cfg = cfg\<lparr> tc_handlers := tc_handlers cfg @ [h] \<rparr>"

definition tc_set_recv_timeout :: "nat \<Rightarrow> 'c transport_config \<Rightarrow> 'c transport_config" where
  "tc_set_recv_timeout t cfg = cfg\<lparr> tc_recv_timeout := t \<rparr>"

definition tc_set_heartbeat :: "nat \<Rightarrow> 'c transport_config \<Rightarrow> 'c transport_config" where
  "tc_set_heartbeat t cfg = cfg\<lparr> tc_heartbeat_interval := Some t \<rparr>"

definition tc_no_heartbeat :: "'c transport_config \<Rightarrow> 'c transport_config" where
  "tc_no_heartbeat cfg = cfg\<lparr> tc_heartbeat_interval := None \<rparr>"

definition tc_set_max_message_size :: "nat \<Rightarrow> 'c transport_config \<Rightarrow> 'c transport_config" where
  "tc_set_max_message_size n cfg = cfg\<lparr> tc_max_message_size := Some n \<rparr>"

definition build_server :: "pid \<Rightarrow> 'c transport_config \<Rightarrow> 'c channel_server" where
  "build_server me cfg = fold add_dyn_handler (tc_handlers cfg) (channel_server_new me)"

section \<open>Messages\<close>

record transport_message =
  tm_join_ref :: "string option"
  tm_msg_ref :: "string option"
  tm_topic :: string
  tm_event :: string
  tm_payload :: "byte list"

datatype transport_result =
  TrOk | TrReply "byte list" | TrReplies "byte list list" | TrClose | TrError string

datatype transport_reply =
    TReply "string option" "string option" string string "byte list"
  | TPush "string option" string string "byte list"

text \<open>The builder passes everything on to the configuration.\<close>

definition builder_channel :: "('c, 'j, 'i, 'o, 'f) channel \<Rightarrow> 'c transport_config \<Rightarrow> 'c transport_config" where
  "builder_channel C cfg = tc_handler C cfg"

definition builder_handler :: "'c channel_handler \<Rightarrow> 'c transport_config \<Rightarrow> 'c transport_config" where
  "builder_handler h cfg = tc_with_handler h cfg"

definition builder_settings :: "nat option option \<Rightarrow> nat option \<Rightarrow> nat option \<Rightarrow> 'c transport_config \<Rightarrow> 'c transport_config" where
  "builder_settings heartbeat max_size recv cfg =
    (let c1 = (case heartbeat of None \<Rightarrow> cfg | Some None \<Rightarrow> tc_no_heartbeat cfg | Some (Some t) \<Rightarrow> tc_set_heartbeat t cfg);
         c2 = (case max_size of None \<Rightarrow> c1 | Some n \<Rightarrow> tc_set_max_message_size n c1)
     in (case recv of None \<Rightarrow> c2 | Some t \<Rightarrow> tc_set_recv_timeout t c2))"

text \<open>The reason of a refused join is put between quotes as it is.\<close>

definition quoted_reason :: "string \<Rightarrow> byte list" where
  "quoted_reason reason = text_bytes (''{\"reason\":\"'' @ reason @ ''\"}'')"

definition or_empty :: "string option \<Rightarrow> string" where
  "or_empty r = (case r of Some s \<Rightarrow> s | None \<Rightarrow> [])"

definition join_answer :: "channel_reply \<Rightarrow> string \<times> byte list" where
  "join_answer reply =
    (case reply of
       ChJoinOk _ payload \<Rightarrow> (''ok'', case payload of Some bytes \<Rightarrow> bytes | None \<Rightarrow> text_bytes ''{}'')
     | ChJoinError _ reason \<Rightarrow> (''error'', quoted_reason reason)
     | _ \<Rightarrow> (''ok'', text_bytes ''{}''))"

definition handle_message :: "chan_wire \<Rightarrow> (transport_reply \<Rightarrow> byte list) \<Rightarrow> transport_message \<Rightarrow>
    'c channel_server \<times> chan_world \<Rightarrow> byte list list \<times> 'c channel_server \<times> chan_world" where
  "handle_message W encoder m x =
    (if tm_event m = ''phx_join'' then
       (let (reply, x1) = cs_handle_join (tm_topic m) (tm_payload m) (or_empty (tm_msg_ref m)) x;
            (status, payload) = join_answer reply
        in ([encoder (TReply (tm_join_ref m) (tm_msg_ref m) (tm_topic m) status payload)], x1))
     else if tm_event m = ''phx_leave'' then
       ([encoder (TReply (tm_join_ref m) (tm_msg_ref m) (tm_topic m) ''ok'' (text_bytes ''{}''))], cs_handle_leave (tm_topic m) x)
     else if tm_event m = ''heartbeat'' \<and> tm_topic m = ''phoenix'' then
       ([encoder (TReply None (tm_msg_ref m) ''phoenix'' ''ok'' (text_bytes ''{}''))], x)
     else
       (case cs_handle_event W (tm_topic m) (tm_event m) (tm_payload m) (or_empty (tm_msg_ref m)) x of
          (Some (ChReply msg_ref status payload), x1) \<Rightarrow>
            ([encoder (TReply (tm_join_ref m) (Some msg_ref) (tm_topic m) status payload)], x1)
        | (Some (ChPush topic event payload), x1) \<Rightarrow> ([encoder (TPush (tm_join_ref m) topic event payload)], x1)
        | (_, x1) \<Rightarrow> ([], x1)))"

section \<open>The loop\<close>

text \<open>What the loop meets, with the number of sends that succeed before one fails; a failed send ends it
  with an error.  The results of \<open>handle_info\<close> are not used.\<close>

datatype tr_event = TrMail payload nat | TrData "byte list" nat | TrClosed | TrFailed

definition tr_mailbox :: "chan_wire \<Rightarrow> (transport_reply \<Rightarrow> byte list) \<Rightarrow> payload \<Rightarrow> byte list list" where
  "tr_mailbox W encoder msg =
    (case cy_unreply W msg of
       Some (ChPush topic event payload) \<Rightarrow> [encoder (TPush None topic event payload)]
     | _ \<Rightarrow> [])"

fun run_transport_loop :: "chan_wire \<Rightarrow> (byte list \<Rightarrow> transport_message option) \<Rightarrow> (transport_reply \<Rightarrow> byte list) \<Rightarrow>
    tr_event list \<Rightarrow> 'c channel_server \<times> chan_world \<Rightarrow> bool \<times> byte list list \<times> 'c channel_server \<times> chan_world" where
  "run_transport_loop W parser encoder [] x = (True, [], x)"
| "run_transport_loop W parser encoder (TrMail msg n # evs) x =
    (let frames = tr_mailbox W encoder msg in
     if n < length frames then (False, [], x)
     else (let (_, x1) = cs_handle_info_any msg x; (ok, out, x2) = run_transport_loop W parser encoder evs x1
           in (ok, frames @ out, x2)))"
| "run_transport_loop W parser encoder (TrData bytes n # evs) x =
    (let (frames, x1) = (case parser bytes of Some m \<Rightarrow> handle_message W encoder m x | None \<Rightarrow> ([], x)) in
     if n < length frames then (False, take n frames, x1)
     else (let (ok, out, x2) = run_transport_loop W parser encoder evs x1 in (ok, frames @ out, x2)))"
| "run_transport_loop W parser encoder (TrClosed # evs) x = (True, [], cs_terminate TerminateClosed x)"
| "run_transport_loop W parser encoder (TrFailed # evs) x = (True, [], cs_terminate TerminateClosed x)"

end
