(* ===== verification/Channel_Props.thy ===== *)
theory Channel_Props
  imports Chan_Transport Plain_Wire
begin

text \<open>
  What the sessions of channels keep: a client is in the process group of a topic exactly as long as it has
  joined it.  The channel server and the WebSocket session move between such states in the same way, which
  is stated once as a contract and interpreted for both.
\<close>

section \<open>Moves of a session\<close>

text \<open>The topics joined and the process groups, as joining and leaving change them.\<close>

inductive session_move :: "pid \<Rightarrow> string set \<times> process_groups \<Rightarrow> string set \<times> process_groups \<Rightarrow> bool" for p where
  stay: "session_move p x x"
| join: "session_move p x (T, g) \<Longrightarrow> session_move p x (insert t T, pg_add (chan_group t) p g)"
| leave: "session_move p x (T, g) \<Longrightarrow> session_move p x (T - {t}, pg_del (chan_group t) p g)"

inductive_cases session_moveE: "session_move p x y"

lemma session_move_trans: "session_move p y z \<Longrightarrow> session_move p x y \<Longrightarrow> session_move p x z"
  by (induction rule: session_move.induct) (auto intro: session_move.intros)

definition chan_member :: "string \<Rightarrow> pid \<Rightarrow> process_groups \<Rightarrow> bool" where
  "chan_member t p g \<longleftrightarrow> p \<in> set (pg_get_members (chan_group t) g)"

lemma pg_members_at: "pg_get_members grp g = hm_at (pg_groups g) grp"
  by (simp add: pg_get_members_def hm_at_def)

lemma chan_group_eq [simp]: "chan_group t = chan_group u \<longleftrightarrow> t = u"
  by (simp add: chan_group_def)

lemma chan_member_moves [simp]:
  "chan_member t q (pg_add (chan_group u) p g) \<longleftrightarrow> (t = u \<and> q = p) \<or> chan_member t q g"
  "chan_member t q (pg_del (chan_group u) p g) \<longleftrightarrow> \<not> (t = u \<and> q = p) \<and> chan_member t q g"
  by (auto simp: chan_member_def pg_members_at pg_add_def pg_del_def)

text \<open>Along the moves the client's memberships follow its topics, and nobody else's change.\<close>

definition synced :: "pid \<Rightarrow> string set \<times> process_groups \<Rightarrow> bool" where
  "synced p = (\<lambda>(T, g). \<forall>t. t \<in> T \<longleftrightarrow> chan_member t p g)"

lemma session_move_synced: "session_move p x y \<Longrightarrow> synced p x \<Longrightarrow> synced p y"
  by (induction rule: session_move.induct) (auto simp: synced_def split: prod.splits)

lemma session_move_others: "session_move p x y \<Longrightarrow> q \<noteq> p \<Longrightarrow> chan_member t q (snd y) = chan_member t q (snd x)"
  by (induction rule: session_move.induct) auto

section \<open>The contract of a session\<close>

locale channel_session =
  fixes client :: "'s \<Rightarrow> pid" and joined :: "'s \<Rightarrow> string set" and good :: "'s \<Rightarrow> bool"
    and step :: "'e \<Rightarrow> 's \<times> chan_world \<Rightarrow> 's \<times> chan_world"
  assumes step_good: "good s \<Longrightarrow> good (fst (step e (s, w)))"
    and step_client: "good s \<Longrightarrow> client (fst (step e (s, w))) = client s"
    and step_move: "good s \<Longrightarrow>
      session_move (client s) (joined s, cw_groups w) (joined (fst (step e (s, w))), cw_groups (snd (step e (s, w))))"
begin

definition run :: "'e list \<Rightarrow> 's \<times> chan_world \<Rightarrow> 's \<times> chan_world" where
  "run es x = fold step es x"

lemma run_move:
  "good (fst x) \<Longrightarrow> good (fst (run es x)) \<and> client (fst (run es x)) = client (fst x) \<and>
    session_move (client (fst x)) (joined (fst x), cw_groups (snd x)) (joined (fst (run es x)), cw_groups (snd (run es x)))"
proof (induction es arbitrary: x)
  case Nil
  then show ?case by (simp add: run_def session_move.stay)
next
  case (Cons e es)
  obtain s w where x: "x = (s, w)" by (cases x)
  have run: "run (e # es) x = run es (step e x)" by (simp add: run_def)
  have s: "good s" using Cons.prems x by simp
  note step = step_good [OF s, of e w] step_client [OF s, of e w] step_move [OF s, of w e]
  note ih = Cons.IH [of "step e x", unfolded x, OF step(1)]
  show ?case
    using ih session_move_trans [OF _ step(3)] unfolding x run [unfolded x] by (simp add: step(2))
qed

lemma run_synced:
  assumes "good s"
  shows "synced (client s) (joined s, cw_groups w) \<Longrightarrow> synced (client s) (joined (fst (run es (s, w))), cw_groups (snd (run es (s, w))))"
    and "q \<noteq> client s \<Longrightarrow> chan_member t q (cw_groups (snd (run es (s, w)))) = chan_member t q (cw_groups w)"
    and "good (fst (run es (s, w)))" "client (fst (run es (s, w))) = client s"
proof -
  have r: "good (fst (run es (s, w)))" "client (fst (run es (s, w))) = client s"
    and m: "session_move (client s) (joined s, cw_groups w) (joined (fst (run es (s, w))), cw_groups (snd (run es (s, w))))"
    using run_move [of "(s, w)" es] assms by simp_all
  show "good (fst (run es (s, w)))" "client (fst (run es (s, w))) = client s" by (rule r)+
  show "synced (client s) (joined s, cw_groups w) \<Longrightarrow> synced (client s) (joined (fst (run es (s, w))), cw_groups (snd (run es (s, w))))"
    by (rule session_move_synced [OF m])
  show "q \<noteq> client s \<Longrightarrow> chan_member t q (cw_groups (snd (run es (s, w)))) = chan_member t q (cw_groups w)"
    using session_move_others [OF m] by simp
qed

end

section \<open>Callbacks\<close>

text \<open>Callbacks that do not join or leave groups themselves.\<close>

definition keeps_groups :: "'c channel_handler \<Rightarrow> bool" where
  "keeps_groups h \<longleftrightarrow>
    (\<forall>t pl so w. cw_groups (snd (hd_join h t pl so w)) = cw_groups w) \<and>
    (\<forall>e pl so x. cw_groups (snd (snd (hd_event h e pl so x))) = cw_groups (snd x)) \<and>
    (\<forall>m so x. cw_groups (snd (snd (hd_info h m so x))) = cw_groups (snd x)) \<and>
    (\<forall>r so x. cw_groups (snd (hd_terminate h r so x)) = cw_groups (snd x))"

lemma world_send_groups [simp]: "cw_groups (world_send bytes p w) = cw_groups w"
  by (simp add: world_send_def)

lemma fold_send_groups [simp]:
  "cw_groups (fold (world_send bytes) ps w) = cw_groups w"
  "cw_groups (fold (\<lambda>p w. if P p then world_send bytes p w else w) ps w) = cw_groups w"
  by (induction ps arbitrary: w) auto

lemma cs_broadcast_groups [simp]:
  "cw_groups (cs_broadcast W t e b w) = cw_groups w" "cw_groups (cs_broadcast_from W p t e b w) = cw_groups w"
  by (simp_all add: cs_broadcast_def cs_broadcast_from_def split: option.split)

lemma world_join_groups [simp]: "cw_groups (world_join g p w) = pg_add g p (cw_groups w)"
  by (simp add: world_join_def pg_join_def)

lemma world_leave_groups [simp]: "cw_groups (world_leave g p w) = pg_del g p (cw_groups w)"
  by (simp add: world_leave_def pg_leave_def)

lemma socket_new_groups: "socket_new p t w = (so, w') \<Longrightarrow> cw_groups w' = cw_groups w"
  by (auto simp: socket_new_def uuid_simple_def)

lemma conn_terminate_groups: "keeps_groups (cn_handler c) \<Longrightarrow> cw_groups (conn_terminate r c w) = cw_groups w"
  by (simp add: conn_terminate_def keeps_groups_def)

lemma conn_run_groups:
  assumes "conn_run f c w = (r, c', w')" "\<And>so x. cw_groups (snd (snd (f (cn_handler c) so x))) = cw_groups (snd x)"
  shows "cw_groups w' = cw_groups w" "cn_handler c' = cn_handler c"
  using assms(1) assms(2) [of "cn_socket c" "(cn_instance c, w)"] by (auto simp: conn_run_def split: prod.splits)

lemma find_handler_in: "find_handler t hs = Some h \<Longrightarrow> h \<in> set hs"
  by (auto simp: find_handler_def find_Some_iff)

section \<open>The channel server\<close>

datatype cs_event =
    CsJoin string "byte list" string | CsEvent string string "byte list" string | CsLeave string
  | CsInfo string payload | CsTerminate terminate_reason

fun cs_step :: "chan_wire \<Rightarrow> cs_event \<Rightarrow> 'c channel_server \<times> chan_world \<Rightarrow> 'c channel_server \<times> chan_world" where
  "cs_step W (CsJoin t pl r) x = snd (cs_handle_join t pl r x)"
| "cs_step W (CsEvent t e pl r) x = snd (cs_handle_event W t e pl r x)"
| "cs_step W (CsLeave t) x = cs_handle_leave t x"
| "cs_step W (CsInfo t m) x = snd (cs_handle_info t m x)"
| "cs_step W (CsTerminate r) x = cs_terminate r x"

definition cs_good :: "'c channel_server \<Rightarrow> bool" where
  "cs_good s \<longleftrightarrow> (\<forall>h \<in> set (cs_handlers s). keeps_groups h) \<and>
     (\<forall>t c. hm_get (cs_channels s) t = Some c \<longrightarrow> keeps_groups (cn_handler c))"

definition cs_joined :: "'c channel_server \<Rightarrow> string set" where
  "cs_joined s = dom (hm_get (cs_channels s))"

text \<open>What one operation does, in terms of the moves.\<close>

definition cs_moves :: "'c channel_server \<times> chan_world \<Rightarrow> 'c channel_server \<times> chan_world \<Rightarrow> bool" where
  "cs_moves x y \<longleftrightarrow> cs_good (fst y) \<and> cs_client (fst y) = cs_client (fst x) \<and>
     session_move (cs_client (fst x)) (cs_joined (fst x), cw_groups (snd x)) (cs_joined (fst y), cw_groups (snd y))"

lemma cs_moves_trans: "cs_moves x y \<Longrightarrow> cs_moves y z \<Longrightarrow> cs_moves x z"
  by (auto simp: cs_moves_def intro: session_move_trans)

lemma cs_moves_refl: "cs_good (fst x) \<Longrightarrow> cs_moves x x"
  by (simp add: cs_moves_def session_move.stay)

lemma cs_moves_update:
  assumes "cs_good s" "hm_get (cs_channels s) t = Some c" "cn_handler c' = cn_handler c" "cw_groups w' = cw_groups w"
  shows "cs_moves (s, w) (s\<lparr> cs_channels := hm_insert t c' (cs_channels s) \<rparr>, w')"
proof -
  have "insert t (dom (hm_get (cs_channels s))) = dom (hm_get (cs_channels s))" using assms(2) by auto
  then show ?thesis using assms by (auto simp: cs_moves_def cs_good_def cs_joined_def session_move.stay)
qed

lemma cs_moves_remove:
  assumes "cs_good s" "hm_get (cs_channels s) t = Some c"
  shows "cs_moves (s, w) (s\<lparr> cs_channels := hm_remove t (cs_channels s) \<rparr>,
    world_leave (chan_group t) (cs_client s) (conn_terminate r c w))"
  using assms session_move.leave [OF session_move.stay]
  by (auto simp: cs_moves_def cs_good_def cs_joined_def conn_terminate_groups)

lemma cs_join_moves:
  assumes good: "cs_good s"
  shows "cs_moves (s, w) (snd (cs_handle_join t pl r (s, w)))"
proof (cases "hm_contains t (cs_channels s)")
  case True
  then show ?thesis using good by (simp add: cs_handle_join_def cs_moves_refl)
next
  case new: False
  show ?thesis
  proof (cases "find_handler t (cs_handlers s)")
    case None
    then show ?thesis using good new by (simp add: cs_handle_join_def cs_moves_refl)
  next
    case (Some h)
    obtain so w1 where so: "socket_new (cs_client s) t w = (so, w1)" by fastforce
    obtain r w2 where j: "hd_join h t pl so w1 = (r, w2)" by fastforce
    have keeps: "keeps_groups h" using find_handler_in [OF Some] good by (simp add: cs_good_def)
    then have g: "cw_groups w2 = cw_groups w"
      using j socket_new_groups [OF so] by (metis keeps_groups_def snd_conv)
    show ?thesis
    proof (cases r)
      case (Inl e)
      then show ?thesis using good new Some so j g by (simp add: cs_handle_join_def cs_moves_def session_move.stay)
    next
      case (Inr y)
      then show ?thesis
        using good new Some so j g keeps session_move.join [OF session_move.stay, of "cs_client s" "cs_joined s" "cw_groups w" t]
        by (cases y) (auto simp: cs_handle_join_def cs_moves_def cs_good_def cs_joined_def)
    qed
  qed
qed

lemma cs_leave_moves: "cs_good s \<Longrightarrow> cs_moves (s, w) (cs_handle_leave t (s, w))"
  by (cases "hm_get (cs_channels s) t") (simp_all add: cs_handle_leave_def cs_moves_refl cs_moves_remove)

lemma cs_moves_groups: "cs_moves x (s, w) \<Longrightarrow> cw_groups w' = cw_groups w \<Longrightarrow> cs_moves x (s, w')"
  by (simp add: cs_moves_def)

lemma cs_event_moves:
  assumes good: "cs_good s"
  shows "cs_moves (s, w) (snd (cs_handle_event W t e pl r (s, w)))"
proof (cases "hm_get (cs_channels s) t")
  case None
  then show ?thesis using good by (simp add: cs_handle_event_def cs_moves_refl)
next
  case (Some c)
  obtain res c1 w1 where run: "conn_run (\<lambda>h. hd_event h e pl) c w = (res, c1, w1)" by (metis prod_cases3)
  have keeps: "keeps_groups (cn_handler c)" using good Some by (simp add: cs_good_def)
  then have "cw_groups w1 = cw_groups w" "cn_handler c1 = cn_handler c"
    using conn_run_groups [OF run] by (simp_all add: keeps_groups_def)
  then have m: "cs_moves (s, w) (s\<lparr> cs_channels := hm_insert t c1 (cs_channels s) \<rparr>, w1)" (is "cs_moves _ (?s, _)")
    by (intro cs_moves_update [OF good Some])
  then have "cs_moves (?s, w1) (cs_handle_leave t (?s, w1))" by (intro cs_leave_moves) (simp add: cs_moves_def)
  then have "cs_moves (s, w) (cs_handle_leave t (?s, w1))" by (rule cs_moves_trans [OF m])
  then show ?thesis
    using Some run m cs_moves_groups [OF m] by (cases res) (simp_all add: cs_handle_event_def)
qed

lemma cs_info_moves:
  assumes good: "cs_good s"
  shows "cs_moves (s, w) (snd (cs_handle_info t m (s, w)))"
proof (cases "hm_get (cs_channels s) t")
  case None
  then show ?thesis using good by (simp add: cs_handle_info_def cs_moves_refl)
next
  case (Some c)
  obtain res c1 w1 where run: "conn_run (\<lambda>h. hd_info h m) c w = (res, c1, w1)" by (metis prod_cases3)
  have keeps: "keeps_groups (cn_handler c)" using good Some by (simp add: cs_good_def)
  then have "cw_groups w1 = cw_groups w" "cn_handler c1 = cn_handler c"
    using conn_run_groups [OF run] by (simp_all add: keeps_groups_def)
  then show ?thesis using Some run cs_moves_update [OF good Some] by (simp add: cs_handle_info_def)
qed

lemma cs_terminate_topics_moves:
  "cs_good (fst x) \<Longrightarrow> cs_moves x (cs_terminate_topics r ts x) \<and>
    cs_joined (fst (cs_terminate_topics r ts x)) = cs_joined (fst x) - set ts"
proof (induction r ts x rule: cs_terminate_topics.induct)
  case (2 r t ts s w)
  show ?case
  proof (cases "hm_get (cs_channels s) t")
    case None
    then show ?thesis using 2 by (auto simp: cs_joined_def)
  next
    case (Some c)
    have m: "cs_moves (s, w) (s\<lparr> cs_channels := hm_remove t (cs_channels s) \<rparr>,
        world_leave (chan_group t) (cs_client s) (conn_terminate r c w))"
      using cs_moves_remove 2(3) Some by simp
    have "cs_joined (s\<lparr> cs_channels := hm_remove t (cs_channels s) \<rparr>) = cs_joined s - {t}" by (simp add: cs_joined_def)
    moreover have "cs_good (s\<lparr> cs_channels := hm_remove t (cs_channels s) \<rparr>)" using m by (simp add: cs_moves_def)
    ultimately show ?thesis
      using "2.IH"(2) [OF Some] Some cs_moves_trans [OF m] by auto
  qed
qed (simp add: cs_moves_refl)

lemma cs_terminate_moves:
  "cs_good (fst x) \<Longrightarrow> cs_moves x (cs_terminate r x) \<and> cs_joined (fst (cs_terminate r x)) = {}"
  using cs_terminate_topics_moves [of x r "hm_keys (cs_channels (fst x))"]
  by (auto simp: cs_terminate_def cs_joined_def set_hm_keys)

lemma cs_step_moves: "cs_good s \<Longrightarrow> cs_moves (s, w) (cs_step W e (s, w))"
  using cs_join_moves cs_event_moves cs_leave_moves cs_info_moves cs_terminate_moves [of "(s, w)"] by (cases e) simp_all

interpretation cs: channel_session cs_client cs_joined cs_good "cs_step W" for W
  using cs_step_moves by unfold_locales (fastforce simp: cs_moves_def)+

section \<open>The WebSocket session is a channel server\<close>

lemma map_values_insert: "hm_map_values f (hm_insert k v m) = hm_insert k (f v) (hm_map_values f m)"
  by (induction m) (auto simp: hm_map_values_def hm_insert_def)

lemma map_values_remove: "hm_map_values f (hm_remove k m) = hm_remove k (hm_map_values f m)"
  by (induction m) (auto simp: hm_map_values_def hm_remove_def)

definition ws_server :: "'c ws_session \<Rightarrow> 'c channel_server" where
  "ws_server s = \<lparr> cs_client = ws_pid s, cs_handlers = ws_handlers s, cs_channels = hm_map_values wc_conn (ws_channels s) \<rparr>"

abbreviation on_server :: "'c ws_session \<times> chan_world \<Rightarrow> 'c channel_server \<times> chan_world" where
  "on_server \<equiv> apfst ws_server"

lemma ws_server_fields [simp]:
  "cs_client (ws_server s) = ws_pid s" "cs_handlers (ws_server s) = ws_handlers s"
  "hm_get (cs_channels (ws_server s)) t = map_option wc_conn (hm_get (ws_channels s) t)"
  "hm_contains t (cs_channels (ws_server s)) = hm_contains t (ws_channels s)"
  "hm_keys (cs_channels (ws_server s)) = hm_keys (ws_channels s)"
  by (simp_all add: ws_server_def hm_get_map_values hm_contains_def hm_keys_def)

lemma ws_server_updates:
  "ws_server (s\<lparr> ws_channels := hm_insert t c (ws_channels s) \<rparr>) =
    (ws_server s)\<lparr> cs_channels := hm_insert t (wc_conn c) (cs_channels (ws_server s)) \<rparr>"
  "ws_server (s\<lparr> ws_channels := hm_remove t (ws_channels s) \<rparr>) =
    (ws_server s)\<lparr> cs_channels := hm_remove t (cs_channels (ws_server s)) \<rparr>"
  by (simp_all add: ws_server_def map_values_insert map_values_remove)

definition join_reply :: "string \<Rightarrow> join_error + byte list option \<Rightarrow> channel_reply" where
  "join_reply msg_ref r = (case r of Inr payload \<Rightarrow> ChJoinOk msg_ref payload | Inl e \<Rightarrow> ChJoinError msg_ref (je_reason e))"

lemma ws_join_server:
  "cs_handle_join t pl r (on_server x) =
    (join_reply r (fst (ws_handle_join t pl jr x)), on_server (snd (ws_handle_join t pl jr x)))"
  by (cases x) (auto simp: cs_handle_join_def ws_handle_join_def join_reply_def join_error_new_def Let_def
      ws_server_updates split: option.split prod.split sum.split)

lemma ws_leave_server: "cs_handle_leave t (on_server x) = on_server (ws_handle_leave t x)"
  by (cases x) (auto simp: cs_handle_leave_def ws_handle_leave_def ws_server_updates split: option.split)

lemma ws_terminate_server: "cs_terminate TerminateClosed (on_server x) = on_server (ws_terminate x)"
proof -
  have "cs_terminate_topics TerminateClosed ts (on_server x) = on_server (ws_terminate_topics ts x)" for ts
    by (induction ts x rule: ws_terminate_topics.induct) (auto simp: ws_server_updates split: option.split)
  then show ?thesis by (cases x) (simp add: cs_terminate_def ws_terminate_def)
qed

lemma ws_info_server:
  "cs_handle_info_any m (on_server x) = (fst (ws_handle_info_all m x), on_server (snd (ws_handle_info_all m x)))"
proof -
  have "cs_info_topics m ts (on_server x) = (fst (ws_info_topics m ts x), on_server (snd (ws_info_topics m ts x)))" for ts
    by (induction m ts x rule: ws_info_topics.induct)
      (auto simp: ws_server_updates cs_handle_info_def split: option.split prod.split)
  then show ?thesis by (cases x) (simp add: cs_handle_info_any_def ws_handle_info_all_def)
qed

text \<open>The reply of the channel server to an event, and the frames of the session.\<close>

lemma ws_event_server:
  "snd (cs_handle_event W (dm_topic m) (dm_event m) (dm_payload m) r (on_server x)) =
    on_server (snd (handle_channel_event_decoded J W S m x))"
proof (cases x)
  case (Pair s w)
  show ?thesis
  proof (cases "hm_get (ws_channels s) (dm_topic m)")
    case None
    then show ?thesis
      by (simp add: Pair cs_handle_event_def handle_channel_event_decoded_def ws_is_joined_def hm_contains_def)
  next
    case (Some c)
    obtain res c1 w1 where run: "conn_run (\<lambda>h. hd_event h (dm_event m) (dm_payload m)) (wc_conn c) w = (res, c1, w1)"
      by (metis prod_cases3)
    show ?thesis
      using Some run ws_leave_server [of "dm_topic m" "(s\<lparr> ws_channels := hm_insert (dm_topic m) (c\<lparr> wc_conn := c1 \<rparr>) (ws_channels s) \<rparr>, w1)"]
      by (cases res) (simp_all add: Pair cs_handle_event_def handle_channel_event_decoded_def ws_is_joined_def
          hm_contains_def ws_handle_event_def ws_server_updates Let_def)
  qed
qed

definition as_transport :: "decoded_message \<Rightarrow> transport_message" where
  "as_transport m = \<lparr> tm_join_ref = dm_join_ref m, tm_msg_ref = dm_msg_ref m, tm_topic = dm_topic m, tm_event = dm_event m,
     tm_payload = dm_payload m \<rparr>"

lemma as_transport_fields [simp]:
  "tm_join_ref (as_transport m) = dm_join_ref m" "tm_msg_ref (as_transport m) = dm_msg_ref m" "tm_topic (as_transport m) = dm_topic m"
  "tm_event (as_transport m) = dm_event m" "tm_payload (as_transport m) = dm_payload m"
  by (simp_all add: as_transport_def)

lemma handle_message_server:
  "snd (handle_message W enc (as_transport m) (on_server x)) = on_server (snd (handle_decoded_message J W S m x))"
proof -
  have other: "snd (case cs_handle_event W t e pl r y of
          (Some (ChReply msg_ref status payload), x1) \<Rightarrow> (f msg_ref status payload, x1)
        | (Some (ChPush topic event payload), x1) \<Rightarrow> (g topic event payload, x1)
        | (_, x1) \<Rightarrow> ([], x1)) = snd (cs_handle_event W t e pl r y)" for t e pl r y and f g :: "_ \<Rightarrow> _ \<Rightarrow> _ \<Rightarrow> byte list list"
    by (auto split: prod.split option.split channel_reply.split)
  consider "dm_event m = ''phx_join''" | "dm_event m = ''phx_leave''" | "dm_event m = ''heartbeat''" "dm_topic m = ''phoenix''"
    | "dm_event m \<noteq> ''phx_join''" "dm_event m \<noteq> ''phx_leave''" "\<not> (dm_event m = ''heartbeat'' \<and> dm_topic m = ''phoenix'')"
    by blast
  then show ?thesis
  proof cases
    case 1
    obtain r y where j: "ws_handle_join (dm_topic m) (dm_payload m) (dm_join_ref m) x = (r, y)" by fastforce
    show ?thesis
      using 1 j ws_join_server [of "dm_topic m" "dm_payload m" "or_empty (dm_msg_ref m)" x "dm_join_ref m"]
      by (cases r) (simp_all add: handle_message_def handle_decoded_message_def handle_join_decoded_def Let_def split_def)
  next
    case 4
    let ?t = "as_transport m"
    have "handle_message W enc ?t (on_server x) =
        (case cs_handle_event W (tm_topic ?t) (tm_event ?t) (tm_payload ?t) (or_empty (tm_msg_ref ?t)) (on_server x) of
          (Some (ChReply msg_ref status payload), x1) \<Rightarrow>
            ([enc (TReply (tm_join_ref ?t) (Some msg_ref) (tm_topic ?t) status payload)], x1)
        | (Some (ChPush topic event payload), x1) \<Rightarrow> ([enc (TPush (tm_join_ref ?t) topic event payload)], x1)
        | (_, x1) \<Rightarrow> ([], x1))"
      using 4 unfolding handle_message_def by (cases "dm_event m = ''heartbeat''") simp_all
    moreover have "handle_decoded_message J W S m x = handle_channel_event_decoded J W S m x"
      using 4 unfolding handle_decoded_message_def by (cases "dm_event m = ''heartbeat''") simp_all
    ultimately show ?thesis by (simp only: other ws_event_server as_transport_fields)
  qed (simp_all add: handle_message_def handle_decoded_message_def handle_leave_decoded_def ws_leave_server)
qed
section \<open>Properties\<close>

text \<open>C30. While a server runs, its client is in the process group of a topic exactly as long as it has joined
  it.  Whatever the clients ask and whatever the callbacks answer (they may refuse a join, stop a channel,
  broadcast, fail to decode), the topics joined are those whose group holds the client, every other process
  is in the same channel groups as before, and after the server has terminated the client is in none.\<close>

theorem channel_membership:
  assumes handlers: "\<forall>h \<in> set (cs_handlers s). keeps_groups h"
    and start: "cs_channels s = []" "\<forall>t. \<not> chan_member t (cs_client s) (cw_groups w)"
  shows "(is_joined t (fst (fold (cs_step W) es (s, w))) \<longleftrightarrow>
      chan_member t (cs_client s) (cw_groups (snd (fold (cs_step W) es (s, w))))) \<and>
    (q = cs_client s \<or> chan_member t q (cw_groups (snd (fold (cs_step W) es (s, w)))) = chan_member t q (cw_groups w)) \<and>
    joined_topics (fst (cs_terminate r (fold (cs_step W) es (s, w)))) = [] \<and>
    \<not> chan_member t (cs_client s) (cw_groups (snd (cs_terminate r (fold (cs_step W) es (s, w)))))"
proof -
  have good: "cs_good s" using handlers start(1) by (simp add: cs_good_def)
  have sync: "synced (cs_client s) (cs_joined s, cw_groups w)" using start by (simp add: synced_def cs_joined_def)
  note run = cs.run_synced [OF good, unfolded cs.run_def]
  have after: "synced (cs_client s) (cs_joined (fst (fold (cs_step W) es (s, w))), cw_groups (snd (fold (cs_step W) es (s, w))))" for es
    by (rule run(1) [OF sync])
  have ended: "fold (cs_step W) (es @ [CsTerminate r]) (s, w) = cs_terminate r (fold (cs_step W) es (s, w))" by simp
  have "cs_joined (fst (cs_terminate r (fold (cs_step W) es (s, w)))) = {}"
    using cs_terminate_moves [OF run(3)] by blast
  then have "joined_topics (fst (cs_terminate r (fold (cs_step W) es (s, w)))) = []"
    by (simp add: joined_topics_def cs_joined_def hm_keys_def)
  then show ?thesis
    using after [of es] after [of "es @ [CsTerminate r]"] run(2) [of q]
    unfolding ended by (auto simp: synced_def cs_joined_def is_joined_def hm_contains_def joined_topics_def hm_keys_def)
qed

text \<open>What the sessions of the two transports make of a sequence of messages.\<close>

definition ws_messages :: "json_lib \<Rightarrow> chan_wire \<Rightarrow> serializer \<Rightarrow> decoded_message list \<Rightarrow> 'c ws_session \<times> chan_world \<Rightarrow>
    'c ws_session \<times> chan_world" where
  "ws_messages J W S ms x = fold (\<lambda>m x. snd (handle_decoded_message J W S m x)) ms x"

definition tr_messages :: "chan_wire \<Rightarrow> (transport_reply \<Rightarrow> byte list) \<Rightarrow> transport_message list \<Rightarrow> 'c channel_server \<times> chan_world \<Rightarrow>
    'c channel_server \<times> chan_world" where
  "tr_messages W enc ms x = fold (\<lambda>m x. snd (handle_message W enc m x)) ms x"

text \<open>C31. The WebSocket session and the channel server behind the other transports do the same.  On the same
  messages, with the same handlers, they join the same topics, call the same callbacks on the same states,
  broadcast the same, end in the same world and clean up in the same way; they differ in the replies: to an
  event of a topic that is not joined the session answers with an error and the transport with nothing.\<close>

theorem transports_agree:
  "tr_messages W enc (map as_transport ms) (on_server x) = on_server (ws_messages J W S ms x) \<and>
   cs_terminate TerminateClosed (on_server x) = on_server (ws_terminate x) \<and>
   cs_handle_info_any msg (on_server x) = (fst (ws_handle_info_all msg x), on_server (snd (ws_handle_info_all msg x))) \<and>
   (ws_is_joined (dm_topic m) (fst x) \<or> dm_event m \<in> {''phx_join'', ''phx_leave''} \<or>
      (dm_event m = ''heartbeat'' \<and> dm_topic m = ''phoenix'') \<or>
      (fst (handle_message W enc (as_transport m) (on_server x)) = [] \<and>
       fst (handle_decoded_message J W S m x) =
         [sz_reply S None (dm_msg_ref m) (dm_topic m) ''error'' (reason_json J ''not joined'')]))"
proof -
  have "tr_messages W enc (map as_transport ms) (on_server x) = on_server (ws_messages J W S ms x)"
    by (induction ms arbitrary: x) (simp_all add: tr_messages_def ws_messages_def handle_message_server [where J = J and S = S])
  moreover have "fst (handle_message W enc (as_transport m) (on_server x)) = [] \<and> fst (handle_decoded_message J W S m x) =
         [sz_reply S None (dm_msg_ref m) (dm_topic m) ''error'' (reason_json J ''not joined'')]"
    if "\<not> ws_is_joined (dm_topic m) (fst x)" "dm_event m \<notin> {''phx_join'', ''phx_leave''}"
      "\<not> (dm_event m = ''heartbeat'' \<and> dm_topic m = ''phoenix'')"
  proof -
    obtain s w where x: "x = (s, w)" by (cases x)
    have none: "hm_get (ws_channels s) (dm_topic m) = None" using that(1) x by (simp add: ws_is_joined_def hm_contains_def)
    show ?thesis
      using that none by (cases "dm_event m = ''heartbeat''") (simp_all add: x handle_message_def handle_decoded_message_def
        handle_channel_event_decoded_def cs_handle_event_def)
  qed
  ultimately show ?thesis using ws_terminate_server [of x] ws_info_server [of msg x] by blast
qed
section \<open>The end of a connection\<close>

lemma handle_message_moves:
  assumes "cs_good (fst x)"
  shows "cs_moves x (snd (handle_message W enc m x))"
proof -
  obtain s w where x: "x = (s, w)" by (cases x)
  have good: "cs_good s" using assms x by simp
  have ev: "snd (handle_message W enc m x) \<in> {x, snd (cs_handle_join (tm_topic m) (tm_payload m) (or_empty (tm_msg_ref m)) x),
      cs_handle_leave (tm_topic m) x, snd (cs_handle_event W (tm_topic m) (tm_event m) (tm_payload m) (or_empty (tm_msg_ref m)) x)}"
    by (auto simp: handle_message_def Let_def split: prod.split option.split channel_reply.split)
  then show ?thesis
    using cs_join_moves [OF good] cs_leave_moves [OF good] cs_event_moves [OF good] cs_moves_refl [OF assms] x by auto
qed

lemma cs_info_any_moves:
  assumes "cs_good (fst x)"
  shows "cs_moves x (snd (cs_handle_info_any msg x))"
proof -
  have "cs_good (fst x) \<Longrightarrow> cs_moves x (snd (cs_info_topics msg ts x))" for ts
  proof (induction ts arbitrary: x)
    case Nil
    then show ?case by (simp add: cs_moves_refl)
  next
    case (Cons t ts)
    obtain s w where x: "x = (s, w)" by (cases x)
    obtain r y where i: "cs_handle_info t msg x = (r, y)" by fastforce
    have m: "cs_moves x y" using cs_info_moves [of s w t msg] Cons.prems i x by simp
    then have "cs_moves y (snd (cs_info_topics msg ts y))" by (intro Cons.IH) (simp add: cs_moves_def)
    then have "cs_moves x (snd (cs_info_topics msg ts y))" by (rule cs_moves_trans [OF m])
    moreover have "cs_moves x (snd (cs_info_topics msg ts x))" using Cons by blast
    ultimately show ?case using i by (cases r) (simp_all add: split_def Let_def)
  qed
  then show ?thesis using assms by (simp add: cs_handle_info_any_def)
qed

lemma transport_loop_moves:
  "cs_good (fst x) \<Longrightarrow> cs_moves x (snd (snd (run_transport_loop W parser enc (evs @ [TrClosed]) x))) \<and>
    (fst (run_transport_loop W parser enc (evs @ [TrClosed]) x) \<longrightarrow>
      cs_joined (fst (snd (snd (run_transport_loop W parser enc (evs @ [TrClosed]) x)))) = {})"
proof (induction evs arbitrary: x)
  case Nil
  then show ?case using cs_terminate_moves by simp
next
  case (Cons ev evs)
  note ended = cs_terminate_moves [OF Cons.prems]
  show ?case
  proof (cases ev)
    case (TrMail msg n)
    let ?x1 = "snd (cs_handle_info_any msg x)"
    have m: "cs_moves x ?x1" by (rule cs_info_any_moves [OF Cons.prems])
    then have "cs_good (fst ?x1)" by (simp add: cs_moves_def)
    note ih = Cons.IH [OF this]
    show ?thesis
      using ih cs_moves_trans [OF m] cs_moves_refl [OF Cons.prems] by (simp add: TrMail Let_def split_def)
  next
    case (TrData bytes n)
    let ?r = "case parser bytes of Some m \<Rightarrow> handle_message W enc m x | None \<Rightarrow> ([], x)"
    have m: "cs_moves x (snd ?r)"
      using handle_message_moves [OF Cons.prems] cs_moves_refl [OF Cons.prems] by (simp split: option.split)
    then have "cs_good (fst (snd ?r))" by (simp add: cs_moves_def)
    note ih = Cons.IH [OF this]
    obtain frames x1 where r: "?r = (frames, x1)" by fastforce
    show ?thesis
      using ih cs_moves_trans [OF m] m unfolding r by (simp add: TrData r Let_def split_def)
  qed (use ended in simp_all)
qed

text \<open>The session of a WebSocket moves as its channel server does.\<close>

definition ws_step :: "json_lib \<Rightarrow> chan_wire \<Rightarrow> serializer \<Rightarrow> decoded_message + payload \<Rightarrow> 'c ws_session \<times> chan_world \<Rightarrow>
    'c ws_session \<times> chan_world" where
  "ws_step J W S ev x = (case ev of Inl m \<Rightarrow> snd (handle_decoded_message J W S m x) | Inr msg \<Rightarrow> snd (ws_mailbox W S msg x))"

lemma info_broadcasts_groups [simp]: "cw_groups (info_broadcasts W results w) = cw_groups w"
  unfolding info_broadcasts_def by (induction results arbitrary: w) (auto split: raw_result.split)

lemma ws_step_moves:
  assumes "cs_good (ws_server (fst x))"
  shows "cs_moves (on_server x) (on_server (ws_step J W S ev x))"
proof (cases ev)
  case (Inl m)
  have "cs_moves (on_server x) (snd (handle_message W (\<lambda>_. []) (as_transport m) (on_server x)))"
    using assms by (intro handle_message_moves) simp
  then show ?thesis
    using Inl handle_message_server [of W "\<lambda>_. []" m x J S] by (simp add: ws_step_def)
next
  case (Inr msg)
  have refl: "cs_moves (on_server x) (on_server x)" using assms by (intro cs_moves_refl) simp
  have "cs_moves (on_server x) (on_server (snd (ws_handle_info_all msg x)))"
    using cs_info_any_moves [of "on_server x" msg] assms by (simp add: ws_info_server)
  then have "cs_moves (on_server x) (ws_server s, info_broadcasts W rs w)" if "ws_handle_info_all msg x = (rs, s, w)" for rs s w
    using that cs_moves_groups by fastforce
  then show ?thesis
    using Inr refl by (auto simp: ws_step_def ws_mailbox_def split: option.split channel_reply.split prod.split)
qed

interpretation ws: channel_session ws_pid "\<lambda>s. dom (hm_get (ws_channels s))" "\<lambda>s. cs_good (ws_server s)" "ws_step J W S" for J W S
proof
  fix s :: "'a ws_session" and w e
  assume good: "cs_good (ws_server s)"
  have j: "cs_joined (ws_server s) = dom (hm_get (ws_channels s))" for s :: "'a ws_session"
    by (rule set_eqI) (auto simp: cs_joined_def dom_def)
  note ws_step_moves [of "(s, w)" J W S e]
  then have "cs_moves (ws_server s, w) (on_server (ws_step J W S e (s, w)))" using good by simp
  then show "cs_good (ws_server (fst (ws_step J W S e (s, w))))" "ws_pid (fst (ws_step J W S e (s, w))) = ws_pid s"
    "session_move (ws_pid s) (dom (hm_get (ws_channels s)), cw_groups w)
       (dom (hm_get (ws_channels (fst (ws_step J W S e (s, w))))), cw_groups (snd (ws_step J W S e (s, w))))"
    by (simp_all add: cs_moves_def j)
qed

lemma ws_loop_ends:
  "cs_good (ws_server (fst x)) \<Longrightarrow> cs_moves (on_server x) (on_server (snd (ws_loop J W S lossy (evs @ [WsEnd]) x))) \<and>
    cs_joined (ws_server (fst (snd (ws_loop J W S lossy (evs @ [WsEnd]) x)))) = {}"
proof (induction evs arbitrary: x)
  case Nil
  then show ?case using cs_terminate_moves [of "on_server x" TerminateClosed] by (simp add: ws_terminate_server)
next
  case (Cons ev evs)
  have step: "cs_moves (on_server x) (on_server y) \<and> cs_good (ws_server (fst y))" if "y = ws_step J W S e x" for e y
    using ws_step_moves [OF Cons.prems, of J W S e] that by (simp add: cs_moves_def)
  have closed: "cs_moves y (on_server (ws_terminate x1)) \<and> cs_joined (ws_server (fst (ws_terminate x1))) = {}"
    if "cs_moves y (on_server x1)" for x1 :: "'a ws_session \<times> chan_world" and y
  proof -
    have "cs_good (fst (on_server x1))" using that by (simp add: cs_moves_def)
    from cs_terminate_moves [OF this, of TerminateClosed] show ?thesis
      using cs_moves_trans [OF that] by (simp add: ws_terminate_server)
  qed
  show ?case
  proof (cases ev)
    case (WsMail msg n)
    let ?x1 = "snd (ws_mailbox W S msg x)"
    have m: "cs_moves (on_server x) (on_server ?x1)" "cs_good (ws_server (fst ?x1))"
      using step [of ?x1 "Inr msg"] by (simp_all add: ws_step_def)
    show ?thesis
      using Cons.IH [OF m(2)] cs_moves_trans [OF m(1)] closed [OF m(1)] by (simp add: WsMail Let_def split_def)
  next
    case (WsText raw n)
    let ?x1 = "snd (ws_text J W S raw x)"
    have m: "cs_moves (on_server x) (on_server ?x1)" "cs_good (ws_server (fst ?x1))"
      using step [of _ "Inl (the (sz_decode S raw))"] cs_moves_refl [of "on_server x"] Cons.prems
      by (cases "sz_decode S raw"; simp add: ws_text_def ws_step_def)+
    show ?thesis
      using Cons.IH [OF m(2)] cs_moves_trans [OF m(1)] by (simp add: WsText Let_def split_def)
  next
    case WsSkip
    then show ?thesis using Cons by simp
  next
    case WsEnd
    then show ?thesis using closed [OF cs_moves_refl] Cons.prems by simp
  qed
qed
lemma build_server_fields: "build_server me cfg = \<lparr> cs_client = me, cs_handlers = tc_handlers cfg, cs_channels = [] \<rparr>"
proof -
  have "fold add_dyn_handler hs s = s\<lparr> cs_handlers := cs_handlers s @ hs \<rparr>" for hs :: "'a channel_handler list" and s
    by (induction hs arbitrary: s) (simp_all add: add_dyn_handler_def)
  then show ?thesis by (simp add: build_server_def channel_server_new_def)
qed

lemma fresh_good: "\<forall>h \<in> set hs. keeps_groups h \<Longrightarrow> cs_good \<lparr> cs_client = p, cs_handlers = hs, cs_channels = [] \<rparr>"
  by (simp add: cs_good_def)

lemma moves_from_start:
  assumes "cs_moves (\<lparr> cs_client = p, cs_handlers = hs, cs_channels = [] \<rparr>, w) (s, w')" "\<forall>t. \<not> chan_member t p (cw_groups w)"
  shows "t \<in> cs_joined s \<longleftrightarrow> chan_member t p (cw_groups w')"
proof -
  have "session_move p ({}, cw_groups w) (cs_joined s, cw_groups w')" using assms(1) by (simp add: cs_moves_def cs_joined_def)
  then have "synced p (cs_joined s, cw_groups w')" 
    using session_move_synced [of p "({}, cw_groups w)" "(cs_joined s, cw_groups w')"] assms(2) by (simp add: synced_def)
  then show ?thesis by (simp add: synced_def)
qed

text \<open>C32. When a connection ends.  A client whose WebSocket is closed is in no channel group any more, whatever
  came before, failed writes included.  Behind the other transports this holds when the connection is closed
  or reading fails; but when a send fails the loop returns at once without leaving the channels, and the
  process is still in the group of every topic it had joined.\<close>

theorem connection_cleanup:
  assumes handlers: "\<forall>h \<in> set hs. keeps_groups h" and cfg: "tc_handlers cfg = hs"
    and start: "\<forall>t. \<not> chan_member t me (cw_groups w)"
    and run: "run_transport_loop W parser enc (evs @ [TrClosed]) (build_server me cfg, w) = (ok, sent, s, w')"
  shows "\<not> chan_member t me (cw_groups (snd (snd (ws_loop J W S lossy (evs' @ [WsEnd]) (ws_session_new me hs, w))))) \<and>
    (if ok then \<not> is_joined t s \<and> \<not> chan_member t me (cw_groups w')
     else is_joined t s = chan_member t me (cw_groups w'))"
proof -
  note good = fresh_good [OF handlers, of me]
  have ws0: "on_server (ws_session_new me hs, w) = (\<lparr> cs_client = me, cs_handlers = hs, cs_channels = [] \<rparr>, w)"
    by (simp add: ws_server_def ws_session_new_def hm_map_values_def)
  obtain y where y: "snd (ws_loop J W S lossy (evs' @ [WsEnd]) (ws_session_new me hs, w)) = y" by blast
  have "cs_moves (\<lparr> cs_client = me, cs_handlers = hs, cs_channels = [] \<rparr>, w) (ws_server (fst y), snd y)"
    "cs_joined (ws_server (fst y)) = {}"
    using ws_loop_ends [of "(ws_session_new me hs, w)" J W S lossy evs'] good ws0 y by (cases y; simp)+
  from moves_from_start [OF this(1) start, of t] this(2) have ws: "\<not> chan_member t me (cw_groups (snd y))" by simp
  have "cs_moves (\<lparr> cs_client = me, cs_handlers = hs, cs_channels = [] \<rparr>, w) (s, w')" "ok \<longrightarrow> cs_joined s = {}"
    using transport_loop_moves [of "(build_server me cfg, w)" W parser enc evs] good run by (simp_all add: build_server_fields cfg)
  then have "t \<in> cs_joined s \<longleftrightarrow> chan_member t me (cw_groups w')" "ok \<longrightarrow> cs_joined s = {}"
    using moves_from_start start by blast+
  then show ?thesis using ws y by (auto simp: is_joined_def hm_contains_def cs_joined_def)
qed

section \<open>A run\<close>

definition ex_handler :: "unit channel_handler" where
  "ex_handler = \<lparr> hd_pattern = ''r:*'', hd_matches = topic_matches ''r:*'', hd_join = (\<lambda>t pl so w. (Inr ((), None), w)),
     hd_event = (\<lambda>e pl so x. (RawBroadcast e pl, x)), hd_info = (\<lambda>m so x. (RawNoReply, x)), hd_terminate = (\<lambda>r so x. x),
     hd_intercepted = (\<lambda>e. False), hd_out = (\<lambda>e pl so x. (OutSend, x)) \<rparr>"

definition ex_client :: pid where
  "ex_client = \<lparr> pid_node = [], pid_id = 1, pid_creation = 0 \<rparr>"

definition ex_chan_world :: chan_world where
  "ex_chan_world = \<lparr> cw_rt = runtime_new \<lparr> ps_this = None, ps_counter = 1, ps_creation = 0 \<rparr>, cw_groups = pg_new, cw_conn = [],
     cw_out = [], cw_now = 0, cw_ids = 0 \<rparr>"

definition ex_parser :: "byte list \<Rightarrow> transport_message option" where
  "ex_parser bytes = Some \<lparr> tm_join_ref = None, tm_msg_ref = None, tm_topic = ''r:1'', tm_event = ''phx_join'', tm_payload = bytes \<rparr>"

definition ex_chan_wire :: chan_wire where
  "ex_chan_wire = \<lparr> cy_reply = (\<lambda>_. None), cy_unreply = (\<lambda>_. None) \<rparr>"

definition ex_serializer :: serializer where
  "ex_serializer = \<lparr> sz_decode = (\<lambda>_. None), sz_reply = (\<lambda>_ _ _ _ _. []), sz_push = (\<lambda>_ _ _ _. []) \<rparr>"

definition ex_json :: json_lib where
  "ex_json = \<lparr> jl_parse = (\<lambda>_. None), jl_print = (\<lambda>_. []), jl_bytes = (\<lambda>_. JNull) \<rparr>"

lemma ex_handler_keeps: "keeps_groups ex_handler"
  by (simp add: keeps_groups_def ex_handler_def)

lemma ex_start: "\<not> chan_member t p (cw_groups ex_chan_world)"
  by (simp add: chan_member_def ex_chan_world_def pg_new_def pg_get_members_def)

theorem channel_membership_witness:
  "is_joined ''r:1'' (fst (fold (cs_step ex_chan_wire) [CsJoin ''r:1'' [] []]
     (\<lparr> cs_client = ex_client, cs_handlers = [ex_handler], cs_channels = [] \<rparr>, ex_chan_world))) =
   chan_member ''r:1'' ex_client (cw_groups (snd (fold (cs_step ex_chan_wire) [CsJoin ''r:1'' [] []]
     (\<lparr> cs_client = ex_client, cs_handlers = [ex_handler], cs_channels = [] \<rparr>, ex_chan_world))))"
  by (rule conjunct1 [OF channel_membership [where s = "\<lparr> cs_client = ex_client, cs_handlers = [ex_handler], cs_channels = [] \<rparr>",
      simplified]]) (simp_all add: ex_handler_keeps ex_start)

text \<open>The join succeeds, sending its reply fails: the process stays in the group.\<close>

definition ex_config :: "unit transport_config" where
  "ex_config = tc_with_handler ex_handler transport_config_default"

definition ex_failed :: "bool \<times> byte list list \<times> unit channel_server \<times> chan_world" where
  "ex_failed = run_transport_loop ex_chan_wire ex_parser (\<lambda>_. []) ([TrData [] 0] @ [TrClosed]) (build_server ex_client ex_config, ex_chan_world)"

lemma ex_failed_run: "fst ex_failed = False" "is_joined ''r:1'' (fst (snd (snd ex_failed)))"
  by (simp_all add: ex_failed_def build_server_fields ex_config_def tc_with_handler_def transport_config_default_def ex_parser_def
      handle_message_def cs_handle_join_def find_handler_def ex_handler_def topic_matches_def strip_star_def str_strip_prefix_def
      socket_new_def uuid_simple_def join_answer_def Let_def is_joined_def hm_contains_def)

theorem connection_cleanup_witness:
  "\<not> fst ex_failed \<and> chan_member ''r:1'' ex_client (cw_groups (snd (snd (snd ex_failed))))"
proof -
  obtain ok sent s w' where r: "ex_failed = (ok, sent, s, w')" by (metis prod_cases4)
  have hs: "\<forall>h \<in> set [ex_handler]. keeps_groups h" "\<forall>t. \<not> chan_member t ex_client (cw_groups ex_chan_world)"
    by (simp_all add: ex_handler_keeps ex_start)
  have cfg: "tc_handlers ex_config = [ex_handler]" by (simp add: ex_config_def tc_with_handler_def transport_config_default_def)
  have "if ok then \<not> is_joined ''r:1'' s \<and> \<not> chan_member ''r:1'' ex_client (cw_groups w')
     else is_joined ''r:1'' s = chan_member ''r:1'' ex_client (cw_groups w')"
    using connection_cleanup [OF hs(1) cfg hs(2) r [unfolded ex_failed_def], of "''r:1''" ex_json ex_serializer id "[]"] by blast
  then show ?thesis using ex_failed_run unfolding r by simp
qed
section \<open>Messages and topics\<close>

lemma as_str_opt [simp]: "as_str (opt_str x) = x" "as_str (JString s) = Some s"
  by (simp_all add: as_str_def opt_str_def split: option.split)

lemma str_strip_prefix_Some: "str_strip_prefix p t = Some u \<longleftrightarrow> t = p @ u"
  by (auto simp: str_strip_prefix_def) (metis append_take_drop_id)

text \<open>The values that the JSON library reads back as they were: strings are UTF-8, as every \<open>String\<close> is, the keys of an
  object ascend, and there are no floats, whose printing and parsing need not be exact.\<close>

definition rust_string :: "string \<Rightarrow> bool" where
  "rust_string s = utf8_valid (map of_char s)"

fun json_plain :: "json \<Rightarrow> bool" where
  "json_plain JNull = True"
| "json_plain (JBool b) = True"
| "json_plain (JNumber n) = (case n of PosInt w \<Rightarrow> True | NegInt w \<Rightarrow> sint w < 0 | Float s \<Rightarrow> False)"
| "json_plain (JString s) = rust_string s"
| "json_plain (JArray vs) = (\<forall>v \<in> set vs. json_plain v)"
| "json_plain (JObject kvs) = (sorted_wrt (<) (map fst kvs) \<and> (\<forall>x \<in> set kvs. rust_string (fst x) \<and> json_plain (snd x)))"

text \<open>How deep arrays and objects are nested; the parser accepts less than 128 levels.\<close>

fun json_depth :: "json \<Rightarrow> nat" where
  "json_depth (JArray vs) = Suc (fold max (map json_depth vs) 0)"
| "json_depth (JObject kvs) = Suc (fold max (map (\<lambda>x. json_depth (snd x)) kvs) 0)"
| "json_depth _ = 0"

definition json_reads_back :: "json_lib \<Rightarrow> bool" where
  "json_reads_back J \<longleftrightarrow>
     (\<forall>v. json_plain v \<longrightarrow> utf8_valid (jl_print J v) \<and> (json_depth v < 128 \<longrightarrow> jl_parse J (jl_print J v) = Some v))"

lemma json_reads_backD:
  assumes "json_reads_back J" "json_plain v" "json_depth v < 128"
  shows "utf8_valid (jl_print J v)" "jl_parse J (jl_print J v) = Some v"
  using assms by (simp_all add: json_reads_back_def)

lemma string_order: "''response'' < ''status''"
  by (simp add: less_char_def)

lemma reply_object: "json_object [(''status'', JString st), (''response'', v)] = JObject [(''response'', v), (''status'', JString st)]"
  using string_order by (simp add: json_object_def)

lemma ascii_valid: "\<forall>b \<in> set bs. b < 128 \<Longrightarrow> utf8_valid bs"
  by (induction bs) simp_all

lemma opt_str_plain:
  "json_plain (opt_str x) \<longleftrightarrow> (\<forall>s. x = Some s \<longrightarrow> rust_string s)" "json_depth (opt_str x) = 0"
  by (cases x; simp add: opt_str_def)+

text \<open>C33. What the protocol carries arrives.  A message written as JSON is read back unchanged; what the V2
  serializer writes for a reply or a push is read by it as a message with the same references, topic and
  event, the reply with the status and the response, whenever the payload has no floats and less than 126 levels;
  and a topic matches a pattern that ends in a star exactly when it is the prefix followed by what the wildcard
  gives.\<close>

theorem phoenix_roundtrip:
  assumes json: "json_reads_back J"
    and payload: "json_plain v" "json_depth v < 126"
    and texts: "rust_string topic" "rust_string ev" "rust_string st" "\<forall>s. jr = Some s \<or> mr = Some s \<longrightarrow> rust_string s"
  shows "phx_from_json (phx_to_json m) = Some m \<and>
    v2_decode J (v2_encode_reply J jr mr topic st (jl_print J v)) =
      Some \<lparr> dm_join_ref = jr, dm_msg_ref = mr, dm_topic = topic, dm_event = ''phx_reply'',
        dm_payload = jl_print J (json_object [(''status'', JString st), (''response'', v)]) \<rparr> \<and>
    v2_decode J (v2_encode_push J jr topic ev (jl_print J v)) =
      Some \<lparr> dm_join_ref = jr, dm_msg_ref = None, dm_topic = topic, dm_event = ev, dm_payload = jl_print J v \<rparr> \<and>
    (topic_matches (pre @ ''*'') topic = (\<exists>rest. topic_wildcard (pre @ ''*'') topic = Some rest)) \<and>
    (topic_wildcard (pre @ ''*'') topic = Some rest) = (topic = pre @ rest)"
proof -
  have "strip_star (pre @ ''*'') = Some pre" by (simp add: strip_star_def)
  then have topics: "topic_wildcard (pre @ ''*'') topic = str_strip_prefix pre topic"
    "topic_matches (pre @ ''*'') topic = (str_strip_prefix pre topic \<noteq> None)" for topic
    by (simp_all add: topic_wildcard_def topic_matches_def)
  let ?reply = "JArray [opt_str jr, opt_str mr, JString topic, JString ''phx_reply'', JObject [(''response'', v), (''status'', JString st)]]"
  let ?push = "JArray [opt_str jr, JNull, JString topic, JString ev, v]"
  have words: "rust_string ''phx_reply''" "rust_string ''response''" "rust_string ''status''"
    by (simp_all add: rust_string_def ascii_valid)
  have plain: "json_plain ?reply" "json_depth ?reply < 128" "json_plain ?push" "json_depth ?push < 128"
    using payload texts words string_order by (auto simp: opt_str_plain)
  have "json_depth v < 128" using payload(2) by simp
  note reads = json_reads_backD [OF json plain(1,2)] json_reads_backD [OF json plain(3,4)]
    json_reads_backD [OF json payload(1) this]
  show ?thesis
    unfolding topics str_strip_prefix_Some
    using reads by (simp add: phx_from_json_def phx_to_json_def v2_decode_def v2_encode_reply_def v2_encode_push_def reply_object
        as_str_def [of JNull] str_strip_prefix_Some)
qed

section \<open>A JSON library with these laws\<close>

fun enc_json :: "json \<Rightarrow> nat list" where
  "enc_json JNull = [0]"
| "enc_json (JBool b) = [1, if b then 1 else 0]"
| "enc_json (JNumber n) =
    2 # (case n of PosInt w \<Rightarrow> [0, unat w] | NegInt w \<Rightarrow> [1, unat w] | Float s \<Rightarrow> 2 # enc_string s)"
| "enc_json (JString s) = 3 # enc_string s"
| "enc_json (JArray vs) = 4 # length vs # concat (map enc_json vs)"
| "enc_json (JObject kvs) = 5 # length kvs # concat (map (\<lambda>(k, v). enc_string k @ enc_json v) kvs)"

primrec dec_list :: "(nat list \<Rightarrow> 'a \<times> nat list) \<Rightarrow> nat \<Rightarrow> nat list \<Rightarrow> 'a list \<times> nat list" where
  "dec_list f 0 ns = ([], ns)"
| "dec_list f (Suc k) ns = (let (x, ns1) = f ns; (xs, ns2) = dec_list f k ns1 in (x # xs, ns2))"

primrec dec_json :: "nat \<Rightarrow> nat list \<Rightarrow> json \<times> nat list" where
  "dec_json 0 ns = (JNull, ns)"
| "dec_json (Suc n) ns =
    (case ns of
       [] \<Rightarrow> (JNull, [])
     | t # r \<Rightarrow>
        if t = 0 then (JNull, r)
        else if t = 1 then (JBool (hd r = 1), tl r)
        else if t = 2 then
          (if hd r = 0 then (JNumber (PosInt (of_nat (r ! 1))), drop 2 r)
           else if hd r = 1 then (JNumber (NegInt (of_nat (r ! 1))), drop 2 r)
           else apfst (JNumber \<circ> Float) (dec_string (tl r)))
        else if t = 3 then apfst JString (dec_string r)
        else if t = 4 then apfst JArray (dec_list (dec_json n) (hd r) (tl r))
        else apfst JObject (dec_list (\<lambda>r. let (k, r1) = dec_string r; (v, r2) = dec_json n r1 in ((k, v), r2)) (hd r) (tl r)))"

lemma dec_list_enc:
  "(\<And>x ns. x \<in> set xs \<Longrightarrow> f (enc x @ ns) = (x, ns)) \<Longrightarrow> dec_list f (length xs) (concat (map enc xs) @ ns) = (xs, ns)"
  by (induction xs) simp_all

lemma dec_enc_json: "length (enc_json v) \<le> n \<Longrightarrow> dec_json n (enc_json v @ ns) = (v, ns)"
proof (induction v arbitrary: n ns)
  case (JArray vs)
  then obtain k where n: "n = Suc k" by (cases n) simp_all
  have "length (enc_json x) \<le> k" if "x \<in> set vs" for x
    using JArray.prems member_le_sum_list [of "length (enc_json x)" "map (length \<circ> enc_json) vs"] that
    by (simp add: n length_concat comp_def)
  then have "dec_list (dec_json k) (length vs) (concat (map enc_json vs) @ ns) = (vs, ns)"
    using JArray.IH by (intro dec_list_enc) blast
  then show ?case by (simp add: n)
next
  case (JObject kvs)
  then obtain k where n: "n = Suc k" by (cases n) simp_all
  let ?enc = "\<lambda>(k, v). enc_string k @ enc_json v"
  have len: "length (enc_json (snd x)) \<le> k" if "x \<in> set kvs" for x
  proof -
    have "length (?enc x) \<in> set (map (length \<circ> ?enc) kvs)" using that by simp
    then have "length (?enc x) \<le> sum_list (map (length \<circ> ?enc) kvs)" by (rule member_le_sum_list) simp
    then show ?thesis using JObject.prems by (cases x) (simp add: n length_concat comp_def)
  qed
  have "dec_list (\<lambda>r. let (key, r1) = dec_string r; (v, r2) = dec_json k r1 in ((key, v), r2)) (length kvs)
      (concat (map ?enc kvs) @ ns) = (kvs, ns)"
  proof (rule dec_list_enc)
    fix x ns
    assume x: "x \<in> set kvs"
    have "dec_json k (enc_json (snd x) @ ns) = (snd x, ns)"
      by (rule JObject.IH [OF x _ len [OF x]]) (cases x; simp)
    then show "(let (key, r1) = dec_string (?enc x @ ns); (v, r2) = dec_json k r1 in ((key, v), r2)) = (x, ns)"
      by (cases x) simp
  qed
  then show ?case by (simp add: n)
next
  case JNull
  then show ?case by (cases n) simp_all
next
  case (JBool b)
  then show ?case by (cases n) simp_all
next
  case (JNumber w)
  then show ?case by (cases n; cases w) simp_all
next
  case (JString s)
  then show ?case by (cases n) simp_all
qed

definition plain_json :: json_lib where
  "plain_json = \<lparr> jl_parse = (\<lambda>bs. let ns = bytes_nats bs in if ns = [] then None else Some (fst (dec_json (length ns) ns))),
     jl_print = (\<lambda>v. nats_bytes (enc_json v)), jl_bytes = (\<lambda>bs. JArray []) \<rparr>"

lemma plain_json_ok: "json_reads_back plain_json"
proof -
  have "enc_json v \<noteq> []" for v by (cases v) simp_all
  then have "jl_parse plain_json (jl_print plain_json v) = Some v" for v
    using dec_enc_json [of v "length (enc_json v)" "[]"] by (simp add: plain_json_def)
  moreover have "utf8_valid (jl_print plain_json v)" for v
    by (rule ascii_valid) (auto simp: plain_json_def nats_bytes_def word_less_alt)
  ultimately show ?thesis by (simp add: json_reads_back_def)
qed

definition ex_response :: json where
  "ex_response = JArray [JBool True, JNumber (NegInt (- 3)), json_object [(''b'', JNull), (''a'', JString ''x'')]]"

theorem phoenix_roundtrip_witness:
  "v2_decode plain_json (v2_encode_reply plain_json None (Some ''7'') ''r:1'' ''ok'' (jl_print plain_json ex_response)) =
     Some \<lparr> dm_join_ref = None, dm_msg_ref = Some ''7'', dm_topic = ''r:1'', dm_event = ''phx_reply'',
       dm_payload = jl_print plain_json (json_object [(''status'', JString ''ok''), (''response'', ex_response)]) \<rparr> \<and>
   topic_wildcard (''r:'' @ ''*'') ''r:1'' = Some ''1''"
proof -
  have "json_plain ex_response" "json_depth ex_response < 126"
    by (simp_all add: ex_response_def json_object_def rust_string_def ascii_valid less_char_def)
  moreover have "rust_string ''r:1''" "rust_string ''ok''" "rust_string ''7''" by (simp_all add: rust_string_def ascii_valid)
  ultimately show ?thesis
    using phoenix_roundtrip [OF plain_json_ok, of ex_response "''r:1''" "''ok''" "''ok''" None "Some ''7''" "phx_new [] [] JNull" "''r:''" "''1''"]
    by simp
qed

end
