(* ===== verification/Decimal.thy ===== *)
theory Decimal
  imports Core
begin

text \<open>
  Numbers in decimal and the pieces of strings: what the code uses of the standard library to print and to
  read numbers and socket addresses, and that printed numbers are read back.
\<close>

section \<open>Numbers\<close>

fun digits_of :: "nat \<Rightarrow> string" where
  "digits_of n = (if n < 10 then [char_of (48 + n)] else digits_of (n div 10) @ [char_of (48 + n mod 10)])"

declare digits_of.simps [simp del]

text \<open>Reading an unsigned number of 64 bits; a plus sign may come first.\<close>

definition digit_value :: "char \<Rightarrow> nat option" where
  "digit_value c = (let n = of_char c :: nat in if 48 \<le> n \<and> n \<le> 57 then Some (n - 48) else None)"

fun read_digits :: "nat \<Rightarrow> string \<Rightarrow> nat option" where
  "read_digits k [] = Some k"
| "read_digits k (c # cs) = (case digit_value c of None \<Rightarrow> None | Some d \<Rightarrow> read_digits (10 * k + d) cs)"

definition parse_u64 :: "string \<Rightarrow> 64 word option" where
  "parse_u64 s =
    (let ds = (case s of c # cs \<Rightarrow> if c = CHR ''+'' then cs else s | [] \<Rightarrow> s) in
     if ds = [] then None
     else (case read_digits 0 ds of
             None \<Rightarrow> None
           | Some n \<Rightarrow> if n < 2 ^ 64 then Some (word_of_nat n) else None))"

definition rsplit_once :: "char \<Rightarrow> string \<Rightarrow> (string \<times> string) option" where
  "rsplit_once c s =
    (if c \<in> set s then
       (let tail = takeWhile (\<lambda>x. x \<noteq> c) (rev s) in Some (take (length s - length tail - 1) s, rev tail))
     else None)"

fun split_on :: "char \<Rightarrow> string \<Rightarrow> string list" where
  "split_on c [] = [[]]"
| "split_on c (x # xs) =
    (if x = c then [] # split_on c xs
     else (case split_on c xs of [] \<Rightarrow> [[x]] | y # ys \<Rightarrow> (x # y) # ys))"

section \<open>Socket addresses\<close>

text \<open>What \<open>SocketAddr\<close> is read from: four numbers up to 255 without leading zeros and a port, or an address in
  brackets, whose form is the argument \<open>v6\<close>.  Names of hosts are not read.\<close>

definition read_octet :: "string \<Rightarrow> bool" where
  "read_octet s =
    (length s \<le> 3 \<and> s \<noteq> [] \<and> (hd s = CHR ''0'' \<longrightarrow> length s = 1) \<and>
     (case read_digits 0 s of Some n \<Rightarrow> n < 256 | None \<Rightarrow> False))"

definition is_ipv4 :: "string \<Rightarrow> bool" where
  "is_ipv4 h = (length (split_on (CHR ''.'') h) = 4 \<and> list_all read_octet (split_on (CHR ''.'') h))"

definition read_port :: "string \<Rightarrow> bool" where
  "read_port s = (s \<noteq> [] \<and> (case read_digits 0 s of Some n \<Rightarrow> n < 2 ^ 16 | None \<Rightarrow> False))"

definition socket_addr :: "(string \<Rightarrow> bool) \<Rightarrow> string \<Rightarrow> bool" where
  "socket_addr v6 s =
    (case rsplit_once (CHR 0x3A) s of
       Some (h, p) \<Rightarrow> read_port p \<and> (is_ipv4 h \<or> (h \<noteq> [] \<and> hd h = CHR 0x5B \<and> v6 h))
     | None \<Rightarrow> False)"

section \<open>Reading what was printed\<close>

lemma digit_value_digit: "d < 10 \<Longrightarrow> digit_value (char_of (48 + d)) = Some d"
  by (simp add: digit_value_def Let_def)

lemma digits_nonempty: "digits_of n \<noteq> []"
  by (subst digits_of.simps) simp

lemma digits_are_digits: "c \<in> set (digits_of n) \<Longrightarrow> digit_value c \<noteq> None"
proof (induction n rule: digits_of.induct)
  case (1 n)
  then show ?case
    by (subst (asm) digits_of.simps) (auto simp: digit_value_digit split: if_splits)
qed

lemma read_digits_append:
  "read_digits k (xs @ ys) = (case read_digits k xs of None \<Rightarrow> None | Some m \<Rightarrow> read_digits m ys)"
  by (induction xs arbitrary: k) (auto split: option.split)

lemma read_digits_of: "read_digits 0 (digits_of n) = Some n"
proof (induction n rule: digits_of.induct)
  case (1 n)
  show ?case
  proof (cases "n < 10")
    case True
    then show ?thesis by (subst digits_of.simps) (simp add: digit_value_digit)
  next
    case False
    then have "read_digits 0 (digits_of (n div 10)) = Some (n div 10)" using 1 by blast
    then show ?thesis
      using False by (subst digits_of.simps) (simp add: read_digits_append digit_value_digit)
  qed
qed

lemma special_no_digit: "digit_value (CHR 0x3A) = None" "digit_value (CHR ''+'') = None"
  by (simp_all add: digit_value_def Let_def)

lemma parse_digits: "parse_u64 (digits_of (unat w)) = Some w"
proof -
  obtain c cs where d: "digits_of (unat w) = c # cs" using digits_nonempty by (cases "digits_of (unat w)") blast+
  have "c \<noteq> CHR ''+''" using digits_are_digits [of c "unat w"] d special_no_digit by auto
  moreover have "unat w < 2 ^ 64" by (rule order_less_le_trans [OF unsigned_less]) simp
  ultimately show ?thesis
    using read_digits_of [of "unat w"] unfolding parse_u64_def d by simp
qed

lemma rsplit_last: "c \<notin> set ds \<Longrightarrow> rsplit_once c (r @ [c] @ ds) = Some (r, ds)"
proof -
  assume "c \<notin> set ds"
  then have "takeWhile (\<lambda>x. x \<noteq> c) (rev ds @ c # rev r) = rev ds"
    by (subst takeWhile_append2) auto
  then show ?thesis by (simp add: rsplit_once_def)
qed

lemma port_printed: "read_port (digits_of (unat (w :: 16 word)))"
proof -
  have "unat w < 2 ^ 16" by (rule order_less_le_trans [OF unsigned_less]) simp
  then show ?thesis by (simp add: read_port_def digits_nonempty read_digits_of)
qed

lemma printed_no_colon: "CHR 0x3A \<notin> set (digits_of n)"
  using digits_are_digits special_no_digit(1) by blast

lemma read_digits_digits: "read_digits k s = Some n \<Longrightarrow> c \<in> set s \<Longrightarrow> digit_value c \<noteq> None"
  by (induction s arbitrary: k) (auto split: option.splits)

lemma split_on_chars: "x \<in> set s \<Longrightarrow> x = c \<or> (\<exists>p \<in> set (split_on c s). x \<in> set p)"
proof (induction s)
  case (Cons y s)
  show ?case
  proof (cases "split_on c s")
    case Nil
    then show ?thesis using Cons by auto
  next
    case (Cons p ps)
    then show ?thesis using Cons.IH Cons.prems by auto
  qed
qed simp

lemma ipv4_chars: "is_ipv4 h \<Longrightarrow> x \<in> set h \<Longrightarrow> x = CHR ''.'' \<or> digit_value x \<noteq> None"
  using split_on_chars [of x h "CHR ''.''"] read_digits_digits
  by (auto simp: is_ipv4_def read_octet_def list_all_iff split: option.splits)

text \<open>The name of a host is not an address, whatever the port.\<close>

lemma host_name_no_addr:
  assumes "x \<in> set h" "x \<noteq> CHR ''.''" "digit_value x = None" "hd h \<noteq> CHR 0x5B"
  shows "\<not> socket_addr v6 (h @ [CHR 0x3A] @ digits_of n)"
proof -
  have "\<not> is_ipv4 h" using ipv4_chars [OF _ assms(1)] assms(2,3) by blast
  then show ?thesis using assms(4) rsplit_last [OF printed_no_colon, of h n] by (simp add: socket_addr_def)
qed

lemma ipv4_addr: "is_ipv4 h \<Longrightarrow> socket_addr v6 (h @ [CHR 0x3A] @ digits_of (unat (w :: 16 word)))"
  using rsplit_last [OF printed_no_colon] port_printed by (simp add: socket_addr_def)

end
