(* ===== verification/Presence.thy ===== *)
theory Presence
  imports PubSub Crdt NodeMonitor Decimal
begin

text \<open>
  The presence server (\<open>presence/server.rs\<close>, \<open>presence/types.rs\<close>): a server around the CRDT of \<open>Crdt\<close> that
  answers the calls of clients, broadcasts changes to channels through publish and subscribe, and exchanges
  deltas with the presence servers of other nodes.  The process groups and node monitors of its node, the
  nodes connected and the clock are kept with its state; the serialisation of its messages is an argument.
\<close>

section \<open>References\<close>

type_synonym presence_ref = string

text \<open>A new reference: the node's name, the time in microseconds and a counter.\<close>

definition presence_ref_new :: "node_identity option \<Rightarrow> 64 word \<Rightarrow> 64 word \<Rightarrow> presence_ref \<times> 64 word" where
  "presence_ref_new this now count =
    (node_name_atom this @ '':'' @ digits_of (unat now) @ '':'' @ digits_of (unat count), count + 1)"

definition presence_ref_node :: "presence_ref \<Rightarrow> string" where
  "presence_ref_node r = takeWhile (\<lambda>c. c \<noteq> CHR 0x3A) r"

definition tag_to_ref :: "tag \<Rightarrow> presence_ref" where
  "tag_to_ref t = tag_replica t @ '':'' @ digits_of (unat (tag_clock t))"

definition ref_to_tag :: "presence_ref \<Rightarrow> tag" where
  "ref_to_tag r =
    (case rsplit_once (CHR 0x3A) r of
       Some (replica, clock_str) \<Rightarrow>
         (case parse_u64 clock_str of
            Some clock \<Rightarrow> \<lparr> tag_replica = replica, tag_clock = clock \<rparr>
          | None \<Rightarrow> \<lparr> tag_replica = r, tag_clock = 0 \<rparr>)
     | None \<Rightarrow> \<lparr> tag_replica = r, tag_clock = 0 \<rparr>)"

section \<open>States and messages\<close>

record presence_meta =
  pm_phx_ref :: presence_ref
  pm_phx_ref_prev :: "presence_ref option"
  pm_owner :: pid
  pm_meta :: "byte list"
  pm_updated_at :: "64 word"

record presence_state =
  pst_metas :: "presence_meta list"

type_synonym presences = "(string, presence_state) hmap"

record presence_diff =
  pd_joins :: presences
  pd_leaves :: presences

definition presence_diff_is_empty :: "presence_diff \<Rightarrow> bool" where
  "presence_diff_is_empty d = (pd_joins d = [] \<and> pd_leaves d = [])"

datatype presence_message =
    PmDelta string presence_diff | PmStateSync string presences | PmSyncRequest pid
  | PmSyncResponse "(string, presences) hmap"

datatype presence_call =
    PcTrack string string pid "byte list" | PcUntrack string string pid | PcUntrackAll pid
  | PcUpdate string string pid "byte list" | PcList string | PcGet string string

datatype presence_cast = PkApplyDelta string presence_diff | PkSyncState string presences

datatype presence_info =
    PiCompleteInit | PiCrdtDelta string presence_delta | PiSyncRequest pid causal_context
  | PiSyncResponse presence_delta | PiNodeDown string string

datatype presence_reply = PrOk "presence_ref option" | PrList presences | PrGet "presence_state option"

datatype crdt_message =
    CrDelta string presence_delta | CrSyncRequest pid causal_context | CrSyncResponse presence_delta

text \<open>What the serialisation library does with these messages, and the wire of the servers.\<close>

record presence_codec =
  pv_wire :: gs_wire
  pv_pubsub :: pubsub_codec
  pv_info :: "presence_info \<Rightarrow> byte list"
  pv_info_dec :: "payload \<Rightarrow> presence_info option"
  pv_message :: "presence_message \<Rightarrow> byte list"
  pv_node_down_dec :: "payload \<Rightarrow> node_down option"
  pv_crdt_dec :: "payload \<Rightarrow> crdt_message option"
  pv_message_dec :: "payload \<Rightarrow> presence_message option"

section \<open>Conversions\<close>

definition entry_to_meta :: "64 word \<Rightarrow> tracked_entry \<Rightarrow> presence_meta" where
  "entry_to_meta now e =
    \<lparr> pm_phx_ref = tag_to_ref (te_tag e), pm_phx_ref_prev = None, pm_owner = te_pid e, pm_meta = te_meta e, pm_updated_at = now \<rparr>"

definition crdt_to_presence_state :: "64 word \<Rightarrow> (string, tracked_entry list) hmap \<Rightarrow> presences" where
  "crdt_to_presence_state now m = hm_map_values (\<lambda>es. \<lparr> pst_metas = map (entry_to_meta now) es \<rparr>) m"

definition meta_to_entry :: "string \<Rightarrow> string \<Rightarrow> presence_meta \<Rightarrow> tracked_entry" where
  "meta_to_entry topic key m =
    \<lparr> te_topic = topic, te_pid = pm_owner m, te_key = key, te_meta = pm_meta m, te_tag = ref_to_tag (pm_phx_ref m) \<rparr>"

definition presence_state_to_crdt_delta :: "string \<Rightarrow> presences \<Rightarrow> presence_delta" where
  "presence_state_to_crdt_delta topic state =
    delta_default\<lparr> d_joins := concat (map (\<lambda>(key, st). map (meta_to_entry topic key) (pst_metas st)) state) \<rparr>"

definition presence_diff_to_crdt_delta :: "string \<Rightarrow> presence_diff \<Rightarrow> presence_delta" where
  "presence_diff_to_crdt_delta topic diff =
    delta_default\<lparr>
      d_joins := concat (map (\<lambda>(key, st). map (meta_to_entry topic key) (pst_metas st)) (pd_joins diff)),
      d_leave_tags := concat (map (\<lambda>st. map (\<lambda>m. ref_to_tag (pm_phx_ref m)) (pst_metas st)) (hm_values (pd_leaves diff))) \<rparr>"

section \<open>The server\<close>

record presence =
  pn_name :: string
  pn_pubsub :: string
  pn_pg_group :: string
  pn_crdt :: crdt
  pn_self_pid :: "pid option"
  pn_monitored :: "node list"
  pn_groups :: process_groups
  pn_group_out :: pg_out
  pn_monitors :: node_monitors
  pn_dist_out :: "(node \<times> dist_message) list"
  pn_dist_up :: bool
  pn_conn :: "node list"
  pn_now :: "64 word"

definition my_node :: "runtime \<Rightarrow> node" where
  "my_node rt = node_name_atom (ps_this (rt_pids rt))"

definition presence_new :: "string \<Rightarrow> string \<Rightarrow> node_identity option \<Rightarrow> presence \<Rightarrow> presence" where
  "presence_new nm pubsub this env =
    env\<lparr> pn_name := nm, pn_pubsub := pubsub, pn_pg_group := ''presence:'' @ nm, pn_crdt := crdt_new (node_name_atom this),
         pn_self_pid := None, pn_monitored := [] \<rparr>"

definition presence_init :: "presence_codec \<Rightarrow> string \<Rightarrow> string \<Rightarrow> node_identity option \<Rightarrow> presence \<Rightarrow> presence gs_init" where
  "presence_init V nm pubsub this env =
    InitContinue (presence_new nm pubsub this env) (encode_with_tag (tag_bytes ''PresenceInfo'') (pv_info V PiCompleteInit))"

text \<open>Broadcasting to the channels of a topic, and to the presence servers of other nodes.\<close>

definition broadcast_delta :: "presence_codec \<Rightarrow> string \<Rightarrow> string \<Rightarrow> presence_diff \<Rightarrow> runtime \<Rightarrow> runtime" where
  "broadcast_delta V pubsub topic diff rt =
    (if presence_diff_is_empty diff then rt
     else gsw_rt (snd (broadcast_impl (pv_wire V) (pv_pubsub V) pubsub (''presence:'' @ topic)
        (pv_message V (PmDelta topic diff)) None \<lparr> gsw_rt = rt, gsw_tasks = [] \<rparr>)))"

definition send_info :: "presence_codec \<Rightarrow> pid \<Rightarrow> presence_info \<Rightarrow> runtime \<Rightarrow> runtime" where
  "send_info V p msg rt = snd (rt_send_raw p (PData (pv_info V msg)) rt)"

definition broadcast_crdt_delta :: "presence_codec \<Rightarrow> pid \<Rightarrow> string \<Rightarrow> presence_delta \<Rightarrow> presence \<times> runtime \<Rightarrow> runtime" where
  "broadcast_crdt_delta V me topic delta = (\<lambda>(s, rt).
    if delta_is_empty delta then rt
    else fold (\<lambda>p rt. if p \<noteq> me \<and> pid_node p \<noteq> my_node rt then send_info V p (PiCrdtDelta topic delta) rt else rt)
      (pg_get_members (pn_pg_group s) (pn_groups s)) rt)"

text \<open>The pending delta is taken and sent.\<close>

definition send_pending :: "presence_codec \<Rightarrow> pid \<Rightarrow> string \<Rightarrow> presence \<times> runtime \<Rightarrow> presence \<times> runtime" where
  "send_pending V me topic = (\<lambda>(s, rt).
    (case take_delta (pn_crdt s) of
       (None, c) \<Rightarrow> (s\<lparr> pn_crdt := c \<rparr>, rt)
     | (Some delta, c) \<Rightarrow> (s\<lparr> pn_crdt := c \<rparr>, broadcast_crdt_delta V me topic delta (s, rt))))"

definition join_diff :: "string \<Rightarrow> presence_meta \<Rightarrow> presence_diff" where
  "join_diff key m = \<lparr> pd_joins = [(key, \<lparr> pst_metas = [m] \<rparr>)], pd_leaves = [] \<rparr>"

definition presence_track :: "presence_codec \<Rightarrow> pid \<Rightarrow> string \<Rightarrow> string \<Rightarrow> pid \<Rightarrow> byte list \<Rightarrow> presence \<times> runtime \<Rightarrow>
    presence_reply \<times> presence \<times> runtime" where
  "presence_track V me topic key p meta = (\<lambda>(s, rt).
    (let (tag, c) = track topic p key meta (pn_crdt s);
         phx_ref = tag_to_ref tag;
         diff = join_diff key \<lparr> pm_phx_ref = phx_ref, pm_phx_ref_prev = None, pm_owner = p, pm_meta = meta, pm_updated_at = pn_now s \<rparr>
     in (PrOk (Some phx_ref), send_pending V me topic (s\<lparr> pn_crdt := c \<rparr>, broadcast_delta V (pn_pubsub s) topic diff rt))))"

definition presence_untrack :: "presence_codec \<Rightarrow> pid \<Rightarrow> string \<Rightarrow> string \<Rightarrow> pid \<Rightarrow> presence \<times> runtime \<Rightarrow>
    presence_reply \<times> presence \<times> runtime" where
  "presence_untrack V me topic key p = (\<lambda>(s, rt).
    (let (removed, c) = untrack topic key p (pn_crdt s); s1 = s\<lparr> pn_crdt := c \<rparr> in
     if removed = [] then (PrOk None, s1, rt)
     else
       (let metas = map (\<lambda>t. \<lparr> pm_phx_ref = tag_to_ref t, pm_phx_ref_prev = None, pm_owner = p, pm_meta = [], pm_updated_at = 0 \<rparr>) removed;
            diff = \<lparr> pd_joins = [], pd_leaves = [(key, \<lparr> pst_metas = metas \<rparr>)] \<rparr>
        in (PrOk None, send_pending V me topic (s1, broadcast_delta V (pn_pubsub s) topic diff rt)))))"

text \<open>Entries grouped by their key.\<close>

definition group_metas :: "64 word \<Rightarrow> tracked_entry list \<Rightarrow> presences" where
  "group_metas now es =
    fold (\<lambda>e m. hm_entry (te_key e) \<lparr> pst_metas = [] \<rparr> (\<lambda>st. \<lparr> pst_metas = pst_metas st @ [entry_to_meta now e] \<rparr>) m) es []"

definition leave_diff :: "64 word \<Rightarrow> tracked_entry list \<Rightarrow> presence_diff" where
  "leave_diff now es = \<lparr> pd_joins = [], pd_leaves = group_metas now es \<rparr>"

definition broadcast_leaves :: "presence_codec \<Rightarrow> presence \<Rightarrow> (string, tracked_entry list) hmap \<Rightarrow> runtime \<Rightarrow> runtime" where
  "broadcast_leaves V s removed rt =
    fold (\<lambda>(topic, es) rt. if es = [] then rt else broadcast_delta V (pn_pubsub s) topic (leave_diff (pn_now s) es) rt) removed rt"

definition presence_untrack_all :: "presence_codec \<Rightarrow> pid \<Rightarrow> pid \<Rightarrow> presence \<times> runtime \<Rightarrow> presence_reply \<times> presence \<times> runtime" where
  "presence_untrack_all V me p = (\<lambda>(s, rt).
    (let (removed, c) = untrack_all p (pn_crdt s);
         rt1 = broadcast_leaves V s removed rt
     in case take_delta c of
          (None, c1) \<Rightarrow> (PrOk None, s\<lparr> pn_crdt := c1 \<rparr>, rt1)
        | (Some delta, c1) \<Rightarrow>
            (PrOk None, s\<lparr> pn_crdt := c1 \<rparr>, fold (\<lambda>topic rt. broadcast_crdt_delta V me topic delta (s, rt)) (hm_keys removed) rt1)))"

definition presence_update :: "presence_codec \<Rightarrow> pid \<Rightarrow> string \<Rightarrow> string \<Rightarrow> pid \<Rightarrow> byte list \<Rightarrow> presence \<times> runtime \<Rightarrow>
    presence_reply \<times> presence \<times> runtime" where
  "presence_update V me topic key p meta = (\<lambda>(s, rt).
    (let (removed, c) = untrack topic key p (pn_crdt s);
         (new_tag, c1) = track topic p key meta c;
         new_ref = tag_to_ref new_tag;
         prev = (case removed of [] \<Rightarrow> None | t # _ \<Rightarrow> Some (tag_to_ref t));
         diff = join_diff key \<lparr> pm_phx_ref = new_ref, pm_phx_ref_prev = prev, pm_owner = p, pm_meta = meta, pm_updated_at = pn_now s \<rparr>
     in (PrOk (if removed = [] then None else Some new_ref),
         send_pending V me topic (s\<lparr> pn_crdt := c1 \<rparr>, broadcast_delta V (pn_pubsub s) topic diff rt))))"

definition presence_handle_call :: "presence_codec \<Rightarrow> pid \<Rightarrow> presence_call \<Rightarrow> presence \<times> runtime \<Rightarrow> presence_reply gs_reply \<times> presence \<times> runtime" where
  "presence_handle_call V me msg x =
    (case msg of
       PcTrack topic key p meta \<Rightarrow> apfst ReplyOk (presence_track V me topic key p meta x)
     | PcUntrack topic key p \<Rightarrow> apfst ReplyOk (presence_untrack V me topic key p x)
     | PcUntrackAll p \<Rightarrow> apfst ReplyOk (presence_untrack_all V me p x)
     | PcUpdate topic key p meta \<Rightarrow> apfst ReplyOk (presence_update V me topic key p meta x)
     | PcList topic \<Rightarrow> (ReplyOk (PrList (crdt_to_presence_state (pn_now (fst x)) (crdt_list topic (pn_crdt (fst x))))), x)
     | PcGet topic key \<Rightarrow>
        (ReplyOk (PrGet (map_option (\<lambda>es. \<lparr> pst_metas = map (entry_to_meta (pn_now (fst x))) es \<rparr>) (crdt_get topic key (pn_crdt (fst x))))), x))"

definition merge_into :: "presence_delta \<Rightarrow> presence \<Rightarrow> presence" where
  "merge_into delta s = s\<lparr> pn_crdt := snd (merge delta (pn_crdt s)) \<rparr>"

definition presence_handle_cast :: "presence_cast \<Rightarrow> presence \<times> runtime \<Rightarrow> gs_status \<times> presence \<times> runtime" where
  "presence_handle_cast msg = (\<lambda>(s, rt).
    (case msg of
       PkApplyDelta topic diff \<Rightarrow> (StatusOk, merge_into (presence_diff_to_crdt_delta topic diff) s, rt)
     | PkSyncState topic state \<Rightarrow> (StatusOk, merge_into (presence_state_to_crdt_delta topic state) s, rt)))"

text \<open>A node is monitored when it is another one, is not monitored yet and monitoring works.\<close>

definition monitor_peer :: "pid \<Rightarrow> node \<Rightarrow> presence \<times> runtime \<Rightarrow> bool \<times> presence" where
  "monitor_peer me n = (\<lambda>(s, rt).
    if n \<noteq> my_node rt \<and> n \<notin> set (pn_monitored s) then
      (case monitor_node (pn_dist_up s) (pn_conn s) me n (pn_monitors s) of
         (Inr _, m, out) \<Rightarrow>
           (True, s\<lparr> pn_monitored := n # pn_monitored s, pn_monitors := m, pn_dist_out := pn_dist_out s @ out \<rparr>)
       | (Inl _, m, out) \<Rightarrow> (False, s\<lparr> pn_monitors := m, pn_dist_out := pn_dist_out s @ out \<rparr>))
    else (False, s))"

definition greet_replica :: "presence_codec \<Rightarrow> pid \<Rightarrow> string \<Rightarrow> tracked_entry \<Rightarrow> presence \<times> runtime \<Rightarrow> presence \<times> runtime" where
  "greet_replica V me topic e = (\<lambda>(s, rt).
    (case monitor_peer me (tag_replica (te_tag e)) (s, rt) of
       (False, s1) \<Rightarrow> (s1, rt)
     | (True, s1) \<Rightarrow>
        (let ours = crdt_extract_all (pn_crdt s1) in
         if delta_is_empty ours then (s1, rt)
         else (case find (\<lambda>p. pid_node p = tag_replica (te_tag e)) (pg_get_members (pn_pg_group s1) (pn_groups s1)) of
                 None \<Rightarrow> (s1, rt)
               | Some p \<Rightarrow> (s1, send_info V p (PiCrdtDelta topic ours) rt)))))"

definition handle_crdt_delta :: "presence_codec \<Rightarrow> pid \<Rightarrow> string \<Rightarrow> presence_delta \<Rightarrow> presence \<times> runtime \<Rightarrow> presence \<times> runtime" where
  "handle_crdt_delta V me topic delta x = apfst (merge_into delta) (fold (greet_replica V me topic) (d_joins delta) x)"

definition handle_crdt_sync_request :: "presence_codec \<Rightarrow> pid \<Rightarrow> pid \<Rightarrow> causal_context \<Rightarrow> presence \<times> runtime \<Rightarrow> presence \<times> runtime" where
  "handle_crdt_sync_request V me from_pid ctx = (\<lambda>(s, rt).
    (let s1 = snd (monitor_peer me (pid_node from_pid) (s, rt));
         delta = crdt_extract ctx (pn_crdt s1)
     in (s1, if delta_is_empty delta then rt else send_info V from_pid (PiSyncResponse delta) rt)))"

definition handle_crdt_sync_response :: "presence_delta \<Rightarrow> presence \<times> runtime \<Rightarrow> presence \<times> runtime" where
  "handle_crdt_sync_response delta = (\<lambda>(s, rt). (merge_into delta s, rt))"

definition group_by_topic :: "tracked_entry list \<Rightarrow> (string, tracked_entry list) hmap" where
  "group_by_topic es = fold (\<lambda>e m. hm_entry (te_topic e) [] (\<lambda>l. l @ [e]) m) es []"

text \<open>The same code for the node's name in a \<open>NodeDown\<close> of either kind.\<close>

definition handle_node_down :: "presence_codec \<Rightarrow> node \<Rightarrow> presence \<times> runtime \<Rightarrow> presence \<times> runtime" where
  "handle_node_down V n = (\<lambda>(s, rt).
    (let (removed, c) = remove_down_replica n (pn_crdt s);
         s1 = s\<lparr> pn_crdt := c, pn_monitored := removeAll n (pn_monitored s) \<rparr>
     in (s1, if removed = [] then rt
             else fold (\<lambda>(topic, es) rt. broadcast_delta V (pn_pubsub s) topic (leave_diff (pn_now s) es) rt) (group_by_topic removed) rt)))"

definition request_sync :: "presence_codec \<Rightarrow> pid \<Rightarrow> pid \<Rightarrow> presence \<times> runtime \<Rightarrow> presence \<times> runtime" where
  "request_sync V me peer = (\<lambda>(s, rt).
    if peer \<noteq> me \<and> pid_node peer \<noteq> my_node rt then
      (snd (monitor_peer me (pid_node peer) (s, rt)), send_info V peer (PiSyncRequest me (c_context (pn_crdt s))) rt)
    else (s, rt))"

definition complete_init :: "presence_codec \<Rightarrow> pid \<Rightarrow> presence \<times> runtime \<Rightarrow> presence \<times> runtime" where
  "complete_init V me = (\<lambda>(s, rt).
    (let rt1 = snd (rt_register_name (pn_name s) me rt);
         existing = pg_get_members (pn_pg_group s) (pn_groups s);
         (groups, out) = pg_join (ps_this (rt_pids rt)) (pn_conn s) (pn_pg_group s) me (pn_groups s);
         s1 = s\<lparr> pn_self_pid := Some me, pn_groups := groups, pn_group_out := pn_group_out s @ out \<rparr>;
         (s2, rt2) = fold (request_sync V me) existing (s1, rt1)
     in (fold (\<lambda>n s. snd (monitor_peer me n (s, rt2))) (pn_conn s2) s2, rt2)))"

definition presence_handle_info :: "presence_codec \<Rightarrow> pid \<Rightarrow> presence_info \<Rightarrow> presence \<times> runtime \<Rightarrow> gs_status \<times> presence \<times> runtime" where
  "presence_handle_info V me msg x =
    (StatusOk,
     (case msg of
        PiCompleteInit \<Rightarrow> complete_init V me x
      | PiCrdtDelta topic delta \<Rightarrow> handle_crdt_delta V me topic delta x
      | PiSyncRequest from_pid ctx \<Rightarrow> handle_crdt_sync_request V me from_pid ctx x
      | PiSyncResponse delta \<Rightarrow> handle_crdt_sync_response delta x
      | PiNodeDown n _ \<Rightarrow> handle_node_down V n x))"

definition handle_crdt_message :: "presence_codec \<Rightarrow> pid \<Rightarrow> crdt_message \<Rightarrow> presence \<times> runtime \<Rightarrow> presence \<times> runtime" where
  "handle_crdt_message V me msg x =
    (case msg of
       CrDelta topic delta \<Rightarrow> handle_crdt_delta V me topic delta x
     | CrSyncRequest from_pid ctx \<Rightarrow> handle_crdt_sync_request V me from_pid ctx x
     | CrSyncResponse delta \<Rightarrow> handle_crdt_sync_response delta x)"

definition handle_legacy_message :: "presence_codec \<Rightarrow> presence_message \<Rightarrow> presence \<times> runtime \<Rightarrow> presence \<times> runtime" where
  "handle_legacy_message V msg = (\<lambda>(s, rt).
    (case msg of
       PmDelta topic diff \<Rightarrow> (merge_into (presence_diff_to_crdt_delta topic diff) s, rt)
     | PmStateSync topic state \<Rightarrow> (merge_into (presence_state_to_crdt_delta topic state) s, rt)
     | PmSyncRequest from_pid \<Rightarrow>
        (let delta = crdt_extract_all (pn_crdt s)
         in (s, if delta_is_empty delta then rt else send_info V from_pid (PiSyncResponse delta) rt))
     | PmSyncResponse states \<Rightarrow>
        (fold (\<lambda>(topic, state) s. merge_into (presence_state_to_crdt_delta topic state) s) states s, rt)))"

definition presence_raw_info :: "presence_codec \<Rightarrow> pid \<Rightarrow> payload \<Rightarrow> presence \<times> runtime \<Rightarrow> gs_status \<times> presence \<times> runtime" where
  "presence_raw_info V me raw x =
    (StatusOk,
     (case pv_node_down_dec V raw of
        Some nd \<Rightarrow> handle_node_down V (nd_node_name nd) x
      | None \<Rightarrow>
     (case pv_crdt_dec V raw of
        Some msg \<Rightarrow> handle_crdt_message V me msg x
      | None \<Rightarrow>
     (case pv_message_dec V raw of
        Some msg \<Rightarrow> handle_legacy_message V msg x
      | None \<Rightarrow>
     (case raw of
        PData bytes \<Rightarrow>
          (case decode_tag bytes of
             Inr (tag, _) \<Rightarrow> if tag = tag_bytes ''PresenceCompleteInit'' then complete_init V me x else x
           | Inl _ \<Rightarrow> x)
      | PSystem _ \<Rightarrow> x)))))"

definition presence_handle_continue :: "presence_codec \<Rightarrow> pid \<Rightarrow> byte list \<Rightarrow> presence \<times> runtime \<Rightarrow> gs_status \<times> presence \<times> runtime" where
  "presence_handle_continue V me arg x =
    (case decode_tag arg of
       Inl _ \<Rightarrow> (StatusOk, x)
     | Inr (_, bytes) \<Rightarrow>
        (case pv_info_dec V (PData bytes) of None \<Rightarrow> (StatusOk, x) | Some info \<Rightarrow> presence_handle_info V me info x))"

definition presence_terminate :: "exit_reason \<Rightarrow> presence \<times> runtime \<Rightarrow> presence \<times> runtime" where
  "presence_terminate reason = (\<lambda>(s, rt).
    (case pn_self_pid s of
       None \<Rightarrow> (s, rt)
     | Some p \<Rightarrow>
        (let (groups, out) = pg_leave (ps_this (rt_pids rt)) (pn_conn s) (pn_pg_group s) p (pn_groups s)
         in (s\<lparr> pn_groups := groups, pn_group_out := pn_group_out s @ out \<rparr>, rt))))"

record presence_lib =
  pl_dec_call :: "byte list \<Rightarrow> decode_error + presence_call"
  pl_dec_cast :: "byte list \<Rightarrow> decode_error + presence_cast"
  pl_enc_reply :: "presence_reply \<Rightarrow> byte list"
  pl_shown :: "decode_error \<Rightarrow> string"
  pl_debug :: "exit_reason \<Rightarrow> string"

definition presence_callbacks :: "presence_codec \<Rightarrow> presence_lib \<Rightarrow> pid \<Rightarrow>
    (presence, presence_call, presence_cast, presence_info, presence_reply) gs_callbacks" where
  "presence_callbacks V L me = \<lparr>
     gc_call = (\<lambda>msg origin. presence_handle_call V me msg), gc_cast = presence_handle_cast,
     gc_info = presence_handle_info V me, gc_raw_info = presence_raw_info V me, gc_timeout = (\<lambda>x. (StatusOk, x)),
     gc_continue = presence_handle_continue V me, gc_terminate = presence_terminate,
     gc_dec_call = pl_dec_call L, gc_dec_cast = pl_dec_cast L, gc_dec_info = pv_info_dec V,
     gc_enc_reply = (\<lambda>r. encode_with_tag (tag_bytes ''PresenceReply'') (pl_enc_reply L r)), gc_shown = pl_shown L, gc_debug = pl_debug L \<rparr>"

section \<open>The functions of clients\<close>

definition presence_not_found :: "string \<Rightarrow> string" where
  "presence_not_found nm = ''Presence '' @ [CHR 0x27] @ nm @ [CHR 0x27] @ '' not found''"

text \<open>A request by name, up to the wait for its reply; \<open>enc\<close> serialises it.\<close>

definition presence_request :: "gs_wire \<Rightarrow> (presence_call \<Rightarrow> byte list) \<Rightarrow> string \<Rightarrow> presence_call \<Rightarrow> pid \<Rightarrow> gs_world \<Rightarrow>
    (string + gs_error + ref) \<times> gs_world" where
  "presence_request W enc nm request me w =
    (case rt_whereis nm (gsw_rt w) of
       None \<Rightarrow> (Inl (presence_not_found nm), w)
     | Some p \<Rightarrow>
        (let (r, w1) = gs_call_send W (\<lambda>_. None) (SrvPid p) (encode_with_tag (tag_bytes ''PresenceCall'') (enc request)) me w in (Inr r, w1)))"

definition track_result :: "(gs_error \<Rightarrow> string) \<Rightarrow> gs_error + presence_reply \<Rightarrow> string + presence_ref" where
  "track_result shown r =
    (case r of
       Inr (PrOk (Some phx_ref)) \<Rightarrow> Inr phx_ref
     | Inr (PrOk None) \<Rightarrow> Inl ''track returned no ref''
     | Inr _ \<Rightarrow> Inl ''unexpected reply type''
     | Inl e \<Rightarrow> Inl (''track failed: '' @ shown e))"

definition untrack_result :: "string \<Rightarrow> (gs_error \<Rightarrow> string) \<Rightarrow> gs_error + presence_reply \<Rightarrow> string + unit" where
  "untrack_result what shown r = (case r of Inr _ \<Rightarrow> Inr () | Inl e \<Rightarrow> Inl (what @ '' failed: '' @ shown e))"

definition update_result :: "(gs_error \<Rightarrow> string) \<Rightarrow> gs_error + presence_reply \<Rightarrow> string + presence_ref option" where
  "update_result shown r =
    (case r of
       Inr (PrOk phx_ref) \<Rightarrow> Inr phx_ref
     | Inr _ \<Rightarrow> Inl ''unexpected reply type''
     | Inl e \<Rightarrow> Inl (''update failed: '' @ shown e))"

definition list_result :: "(gs_error \<Rightarrow> string) \<Rightarrow> gs_error + presence_reply \<Rightarrow> string + presences" where
  "list_result shown r =
    (case r of
       Inr (PrList m) \<Rightarrow> Inr m
     | Inr _ \<Rightarrow> Inl ''unexpected reply type''
     | Inl e \<Rightarrow> Inl (''list failed: '' @ shown e))"

definition get_result :: "(gs_error \<Rightarrow> string) \<Rightarrow> gs_error + presence_reply \<Rightarrow> string + presence_state option" where
  "get_result shown r =
    (case r of
       Inr (PrGet st) \<Rightarrow> Inr st
     | Inr _ \<Rightarrow> Inl ''unexpected reply type''
     | Inl e \<Rightarrow> Inl (''get failed: '' @ shown e))"

end
