(* ===== verification/Presence_Props.thy ===== *)
theory Presence_Props
  imports Presence
begin

text \<open>
  What presence servers do: references and states convert back, nothing is kept back, a presence tracked on
  one node shows on the others, and what a lost node had does not come back.
\<close>

section \<open>References\<close>

lemma tag_ref [simp]: "ref_to_tag (tag_to_ref t) = t"
proof -
  have "CHR 0x3A \<notin> set (digits_of (unat (tag_clock t)))"
    using digits_are_digits special_no_digit by blast
  from rsplit_last [OF this, of "tag_replica t"] show ?thesis
    by (simp add: ref_to_tag_def tag_to_ref_def parse_digits)
qed

lemma meta_entry: "te_topic e = topic \<Longrightarrow> te_key e = key \<Longrightarrow> meta_to_entry topic key (entry_to_meta now e) = e"
  by (simp add: meta_to_entry_def entry_to_meta_def)

lemma crdt_list_ok: "hm_ok (crdt_list topic s)"
proof -
  have step: "hm_ok acc \<Longrightarrow> hm_ok (fold (\<lambda>((t, k), entries) result.
        if t \<noteq> topic then result
        else if online s entries = [] then result
        else hm_insert k (online s entries) result) vs acc)" for vs acc
    by (induction vs arbitrary: acc) auto
  show ?thesis unfolding crdt_list_def by (rule step) simp
qed

text \<open>References and the old message format lose nothing.  The reference of a tag is read back as the
  tag, whatever the name of the replica is (colons included) and for every value of the clock; and the
  presences of a topic, converted to the old format and back, are exactly the entries of the topic whose
  replica is up, as joins of a delta without leaves.\<close>

lemma legacy_roundtrip:
  "ref_to_tag (tag_to_ref t) = t \<and>
   set (d_joins (presence_state_to_crdt_delta topic (crdt_to_presence_state now (crdt_list topic (crdt_run r ops))))) =
     {e \<in> crdt_entries (crdt_run r ops). te_topic e = topic \<and> is_replica_up (crdt_run r ops) (tag_replica (te_tag e))} \<and>
   d_leave_tags (presence_state_to_crdt_delta topic (crdt_to_presence_state now (crdt_list topic (crdt_run r ops)))) = []"
proof -
  let ?s = "crdt_run r ops"
  have ok: "crdt_ok ?s" by (rule crdt_run_ok)
  have found: "(key, es) \<in> set (crdt_list topic ?s) \<longleftrightarrow> crdt_get topic key ?s = Some es" for key es
    using crdt_list_ok [of topic ?s] crdt_list_get [OF ok, of topic key] unfolding hm_ok_def by (metis map_of_eq_Some_iff)
  have members: "(\<exists>es. crdt_get topic key ?s = Some es \<and> e \<in> set es) \<longleftrightarrow>
      e \<in> crdt_entries ?s \<and> slot_of e = (topic, key) \<and> is_replica_up ?s (tag_replica (te_tag e))" for key e
    using crdt_get_entries [OF ok, of topic key] by (auto split: option.splits)
  have restored: "meta_to_entry topic key (entry_to_meta now e) = e" if "slot_of e = (topic, key)" for key e
    using that by (intro meta_entry) (simp_all add: slot_of_def)
  have "set (d_joins (presence_state_to_crdt_delta topic (crdt_to_presence_state now (crdt_list topic ?s)))) =
      (\<Union>(key, es) \<in> set (crdt_list topic ?s). (\<lambda>e. meta_to_entry topic key (entry_to_meta now e)) ` set es)"
    by (simp add: presence_state_to_crdt_delta_def crdt_to_presence_state_def hm_map_values_def split_def image_image)
  also have "\<dots> = {e. \<exists>key es. (key, es) \<in> set (crdt_list topic ?s) \<and> e \<in> set es}"
  proof -
    have "meta_to_entry topic key (entry_to_meta now e) = e" if "(key, es) \<in> set (crdt_list topic ?s)" "e \<in> set es" for key es e
      using that members [of key e] by (intro restored) (auto simp: found)
    then show ?thesis by force
  qed
  also have "\<dots> = {e \<in> crdt_entries ?s. te_topic e = topic \<and> is_replica_up ?s (tag_replica (te_tag e))}"
    using members unfolding found slot_of_def by blast
  finally show ?thesis by (simp add: presence_state_to_crdt_delta_def delta_default_def)
qed

section \<open>Runs\<close>

datatype presence_event =
  EvCall presence_call | EvCast presence_cast | EvInfo presence_info | EvRaw payload | EvContinue "byte list"

fun presence_step :: "presence_codec \<Rightarrow> pid \<Rightarrow> presence_event \<Rightarrow> presence \<times> runtime \<Rightarrow> presence \<times> runtime" where
  "presence_step V me (EvCall msg) x = snd (presence_handle_call V me msg x)"
| "presence_step V me (EvCast msg) x = snd (presence_handle_cast msg x)"
| "presence_step V me (EvInfo msg) x = snd (presence_handle_info V me msg x)"
| "presence_step V me (EvRaw raw) x = snd (presence_raw_info V me raw x)"
| "presence_step V me (EvContinue arg) x = snd (presence_handle_continue V me arg x)"

text \<open>Between two messages: the CRDT is well formed, its replica is the node, and no change is pending.\<close>

definition presence_ok :: "string \<Rightarrow> node \<Rightarrow> presence \<Rightarrow> bool" where
  "presence_ok g n s \<longleftrightarrow> crdt_ok (pn_crdt s) \<and> c_replica (pn_crdt s) = n \<and> c_delta (pn_crdt s) = delta_default \<and> pn_pg_group s = g"

lemma presence_ok_cong:
  "presence_ok g n s \<Longrightarrow> pn_crdt s' = pn_crdt s \<Longrightarrow> pn_pg_group s' = pn_pg_group s \<Longrightarrow> presence_ok g n s'"
  by (simp add: presence_ok_def)

lemma crdt_frames:
  "c_replica (snd (track t p k m c)) = c_replica c" "c_replica (snd (untrack t k p c)) = c_replica c"
  "c_replica (snd (untrack_all p c)) = c_replica c" "c_replica (snd (take_delta c)) = c_replica c"
  "c_replica (snd (remove_down_replica r c)) = c_replica c" "c_delta (snd (remove_down_replica r c)) = c_delta c"
  by (simp_all add: track_def untrack_def untrack_all_def take_delta_def remove_down_replica_def Let_def split_def)

lemma merge_frames: "c_replica (snd (merge d c)) = c_replica c" "c_delta (snd (merge d c)) = c_delta c"
  by (simp_all add: merge_def Let_def split_def)

lemma take_delta_default: "c_delta (snd (take_delta c)) = delta_default \<longleftrightarrow> \<not> (delta_is_empty (c_delta c) \<and> c_delta c \<noteq> delta_default)"
  by (auto simp: take_delta_def)

lemma untrack_nothing: "fst (untrack t k p c) = [] \<Longrightarrow> c_delta (snd (untrack t k p c)) = c_delta c"
  by (simp add: untrack_def Let_def)

lemma untrack_delta:
  "fst (untrack t k p c) \<noteq> [] \<Longrightarrow> \<not> delta_is_empty (c_delta (snd (untrack t k p c)))"
  by (simp add: untrack_def Let_def delta_is_empty_def)

lemma track_delta: "\<not> delta_is_empty (c_delta (snd (track t p k m c)))"
  by (simp add: track_def Let_def delta_is_empty_def)

lemma untrack_all_delta:
  assumes ok: "crdt_ok c" and empty: "c_delta c = delta_default" "delta_is_empty (c_delta (snd (untrack_all p c)))"
  shows "c_delta (snd (untrack_all p c)) = delta_default"
proof -
  obtain removed c' where res: "untrack_all p c = (removed, c')" by fastforce
  note E = untrack_all_effect [OF ok res]
  have leaves: "d_leave_tags (c_delta c') = []" using empty(2) res by (simp add: delta_is_empty_def)
  then have "{e \<in> crdt_entries c. te_pid e = p} = {}" using E(3) by auto
  then have "set (hm_at removed t) = {}" for t unfolding E(4) by blast
  then have none: "hm_at removed t = []" for t by simp
  have "removed = []"
  proof (cases removed)
    case (Cons a rest)
    then have "hm_at removed (fst a) = snd a" by (cases a) (simp add: hm_at_def)
    then show ?thesis using none [of "fst a"] E(5) Cons by (cases a) (simp add: hm_tight_def)
  qed
  then have "c_delta c' = (c_delta c)\<lparr> d_leave_tags := d_leave_tags (c_delta c') \<rparr>"
    using res by (auto simp: untrack_all_def Let_def split_def)
  then show ?thesis using leaves res by (simp add: empty(1) delta_default_def)
qed

lemma presence_ok_pending:
  assumes "crdt_ok (pn_crdt s)" "c_replica (pn_crdt s) = n" "pn_pg_group s = g"
    and "\<not> delta_is_empty (c_delta (pn_crdt s)) \<or> c_delta (pn_crdt s) = delta_default"
  shows "presence_ok g n (fst (send_pending V me topic (s, rt)))"
  using assms take_delta_ok [of "pn_crdt s"] crdt_frames(4) [of "pn_crdt s"]
  by (cases "take_delta (pn_crdt s)")
    (auto simp: send_pending_def presence_ok_def take_delta_def split: if_splits option.splits)

lemma presence_call_ok:
  assumes ok: "presence_ok g n s"
  shows "presence_ok g n (fst (snd (presence_handle_call V me msg (s, rt))))"
proof (cases msg)
  case (PcTrack t k p m)
  obtain tag c where t: "track t p k m (pn_crdt s) = (tag, c)" by fastforce
  have "crdt_ok c" "c_replica c = n" "\<not> delta_is_empty (c_delta c)"
    using ok track_ok [of "pn_crdt s" t p k m] crdt_frames(1) [of t p k m "pn_crdt s"] track_delta [of t p k m "pn_crdt s"] t
    by (simp_all add: presence_ok_def)
  then show ?thesis
    using ok t by (auto simp: PcTrack presence_handle_call_def presence_track_def Let_def presence_ok_def [of _ _ s] intro: presence_ok_pending)
next
  case (PcUntrack t k p)
  obtain removed c where u: "untrack t k p (pn_crdt s) = (removed, c)" by fastforce
  have c: "crdt_ok c" "c_replica c = n" "removed = [] \<longrightarrow> c_delta c = delta_default" "removed \<noteq> [] \<longrightarrow> \<not> delta_is_empty (c_delta c)"
    using ok untrack_ok [of "pn_crdt s" t k p] crdt_frames(2) [of t k p "pn_crdt s"] untrack_delta [of t k p "pn_crdt s"]
      untrack_nothing [of t k p "pn_crdt s"] u
    by (simp_all add: presence_ok_def)
  show ?thesis
  proof (cases "removed = []")
    case True
    then show ?thesis using c ok u by (simp add: PcUntrack presence_handle_call_def presence_untrack_def presence_ok_def)
  next
    case False
    then show ?thesis
      using c ok u by (auto simp: PcUntrack presence_handle_call_def presence_untrack_def Let_def presence_ok_def [of _ _ s] intro: presence_ok_pending)
  qed
next
  case (PcUntrackAll p)
  obtain removed c where u: "untrack_all p (pn_crdt s) = (removed, c)" by fastforce
  have c: "crdt_ok c" "c_replica c = n" "\<not> delta_is_empty (c_delta c) \<or> c_delta c = delta_default"
    using ok untrack_all_ok [of "pn_crdt s" p] crdt_frames(3) [of p "pn_crdt s"] untrack_all_delta [of "pn_crdt s" p] u
    by (auto simp: presence_ok_def)
  then show ?thesis
    using ok u take_delta_ok [OF c(1)] crdt_frames(4) [of c]
    by (auto simp: PcUntrackAll presence_handle_call_def presence_untrack_all_def Let_def presence_ok_def take_delta_def split: if_splits option.splits prod.splits)
next
  case (PcUpdate t k p m)
  obtain removed c where u: "untrack t k p (pn_crdt s) = (removed, c)" by fastforce
  obtain tag c1 where t: "track t p k m c = (tag, c1)" by fastforce
  have "crdt_ok c" "c_replica c = n"
    using ok untrack_ok [of "pn_crdt s" t k p] crdt_frames(2) [of t k p "pn_crdt s"] u by (simp_all add: presence_ok_def)
  then have "crdt_ok c1" "c_replica c1 = n" "\<not> delta_is_empty (c_delta c1)"
    using track_ok [of c t p k m] crdt_frames(1) [of t p k m c] track_delta [of t p k m c] t by simp_all
  then show ?thesis
    using ok u t by (auto simp: PcUpdate presence_handle_call_def presence_update_def Let_def presence_ok_def [of _ _ s] intro: presence_ok_pending)
qed (use ok in \<open>simp_all add: presence_handle_call_def\<close>)

lemma merge_into_ok: "presence_ok g n s \<Longrightarrow> presence_ok g n (merge_into d s)"
  by (simp add: presence_ok_def merge_into_def merge_ok merge_frames)

lemma monitor_peer_keeps:
  "pn_crdt (snd (monitor_peer me m (s, rt))) = pn_crdt s" "pn_pg_group (snd (monitor_peer me m (s, rt))) = pn_pg_group s"
  by (auto simp: monitor_peer_def split: sum.split prod.split)

lemma monitor_peer_ok: "presence_ok g n s \<Longrightarrow> presence_ok g n (snd (monitor_peer me m (s, rt)))"
  by (rule presence_ok_cong) (simp_all add: monitor_peer_keeps)

lemma crdt_delta_ok: "presence_ok g n (fst x) \<Longrightarrow> presence_ok g n (fst (handle_crdt_delta V me topic d x))"
proof -
  have greet: "presence_ok g n (fst (greet_replica V me topic e x))" if "presence_ok g n (fst x)" for e x
    using that monitor_peer_ok [of g n "fst x" me "tag_replica (te_tag e)" "snd x"]
    by (cases x) (auto simp: greet_replica_def Let_def split: prod.split bool.split option.split)
  have "presence_ok g n (fst x) \<Longrightarrow> presence_ok g n (fst (fold (greet_replica V me topic) es x))" for es x
    by (induction es arbitrary: x) (simp_all add: greet)
  then show "presence_ok g n (fst x) \<Longrightarrow> ?thesis" by (simp add: handle_crdt_delta_def merge_into_ok)
qed

lemma node_down_ok: "presence_ok g n (fst x) \<Longrightarrow> presence_ok g n (fst (handle_node_down V m x))"
  using remove_down_ok crdt_frames(5,6)
  by (cases x) (auto simp: handle_node_down_def presence_ok_def Let_def split_def)

lemma sync_request_ok: "presence_ok g n (fst x) \<Longrightarrow> presence_ok g n (fst (handle_crdt_sync_request V me p ctx x))"
  by (cases x) (simp add: handle_crdt_sync_request_def Let_def monitor_peer_ok)

lemma sync_response_ok: "presence_ok g n (fst x) \<Longrightarrow> presence_ok g n (fst (handle_crdt_sync_response d x))"
  by (cases x) (simp add: handle_crdt_sync_response_def merge_into_ok)

lemma complete_init_ok:
  assumes "presence_ok g n (fst x)"
  shows "presence_ok g n (fst (complete_init V me x))"
proof -
  have requests: "presence_ok g n (fst y) \<Longrightarrow> presence_ok g n (fst (fold (request_sync V me) ps y))" for ps y
    by (induction ps arbitrary: y) (auto simp: request_sync_def monitor_peer_ok)
  have nodes: "presence_ok g n s \<Longrightarrow> presence_ok g n (fold (\<lambda>m s. snd (monitor_peer me m (s, rt))) ns s)" for ns s rt
    by (induction ns arbitrary: s) (simp_all add: monitor_peer_ok)
  obtain s rt where x: "x = (s, rt)" by (cases x)
  obtain groups out where j: "pg_join (ps_this (rt_pids rt)) (pn_conn s) (pn_pg_group s) me (pn_groups s) = (groups, out)" by fastforce
  let ?s1 = "s\<lparr> pn_self_pid := Some me, pn_groups := groups, pn_group_out := pn_group_out s @ out \<rparr>"
  have "presence_ok g n ?s1" using assms x by (simp add: presence_ok_def)
  then have "presence_ok g n (fst (fold (request_sync V me) (pg_get_members (pn_pg_group s) (pn_groups s))
      (?s1, snd (rt_register_name (pn_name s) me rt))))" by (intro requests) simp
  then show ?thesis by (simp add: x complete_init_def j Let_def split_def nodes)
qed

lemma presence_info_ok: "presence_ok g n (fst x) \<Longrightarrow> presence_ok g n (fst (snd (presence_handle_info V me msg x)))"
  by (cases msg) (simp_all add: presence_handle_info_def complete_init_ok crdt_delta_ok sync_request_ok sync_response_ok node_down_ok)

lemma legacy_ok: "presence_ok g n (fst x) \<Longrightarrow> presence_ok g n (fst (handle_legacy_message V msg x))"
proof -
  have "presence_ok g n s \<Longrightarrow> presence_ok g n (fold (\<lambda>(t, st) s. merge_into (presence_state_to_crdt_delta t st) s) ms s)" for ms s
    by (induction ms arbitrary: s) (auto simp: merge_into_ok)
  then show "presence_ok g n (fst x) \<Longrightarrow> ?thesis"
    by (cases x; cases msg) (simp_all add: handle_legacy_message_def Let_def merge_into_ok)
qed

lemma presence_step_ok:
  assumes ok: "presence_ok g n (fst x)"
  shows "presence_ok g n (fst (presence_step V me ev x))"
proof (cases ev)
  case (EvCall msg)
  then show ?thesis using ok presence_call_ok [of g n "fst x" V me msg "snd x"] by simp
next
  case (EvCast msg)
  then show ?thesis using ok by (cases x; cases msg) (simp_all add: presence_handle_cast_def merge_into_ok)
next
  case (EvRaw raw)
  have "presence_ok g n (fst (handle_crdt_message V me m x))" for m
    using ok by (cases m) (simp_all add: handle_crdt_message_def crdt_delta_ok sync_request_ok sync_response_ok)
  then show ?thesis
    using ok by (simp add: EvRaw presence_raw_info_def node_down_ok legacy_ok complete_init_ok split: option.split payload.split sum.split prod.split)
next
  case (EvContinue arg)
  then show ?thesis
    using ok presence_info_ok by (simp add: presence_handle_continue_def split: option.split sum.split prod.split)
qed (use ok presence_info_ok in simp_all)

section \<open>Sending\<close>

lemma my_node_local: "rt_local rt p \<longleftrightarrow> pid_node p = my_node rt"
  by (simp add: rt_local_def pid_is_local_def my_node_def)

definition sends_only :: "runtime \<Rightarrow> runtime \<Rightarrow> bool" where
  "sends_only rt rt' \<longleftrightarrow> rt_remote_hook rt' = rt_remote_hook rt \<and> my_node rt' = my_node rt \<and> set (rt_wire rt) \<subseteq> set (rt_wire rt')"

lemma sends_only_refl [simp]: "sends_only rt rt"
  by (simp add: sends_only_def)

lemma sends_only_trans: "sends_only a b \<Longrightarrow> sends_only b c \<Longrightarrow> sends_only a c"
  by (auto simp: sends_only_def)

lemma sends_only_send [simp]: "sends_only rt (snd (rt_send_raw p d rt))"
  by (auto simp: sends_only_def rt_send_raw_def rt_handle_send_def rt_update_def my_node_def split: option.split)

lemma sends_only_fold: "(\<And>x rt. sends_only rt (f x rt)) \<Longrightarrow> sends_only rt (fold f xs rt)"
proof (induction xs arbitrary: rt)
  case (Cons x xs)
  have "sends_only (f x rt) (fold f xs (f x rt))" by (rule Cons.IH [OF Cons.prems])
  then show ?case using sends_only_trans [OF Cons.prems [where x = x and rt = rt]] by simp
qed simp

lemma broadcast_delta_sends [simp]: "sends_only rt (broadcast_delta V ps t d rt)"
  by (simp add: broadcast_delta_def broadcast_impl_def gs_cast_def split: option.split)

lemma send_to_all:
  assumes hook: "rt_remote_hook rt = Some (\<lambda>_ _. None)" and p: "p \<in> set ps" "p \<noteq> me" "pid_node p \<noteq> my_node rt"
  shows "(p, PData (pv_info V msg)) \<in> set (rt_wire
    (fold (\<lambda>p rt. if p \<noteq> me \<and> pid_node p \<noteq> my_node rt then send_info V p msg rt else rt) ps rt))"
  (is "_ \<in> set (rt_wire (fold ?f ps rt))")
  using assms
proof (induction ps arbitrary: rt)
  case (Cons q ps)
  have step: "sends_only rt (?f q rt)" by (simp add: send_info_def)
  show ?case
  proof (cases "q = p")
    case True
    have "(p, PData (pv_info V msg)) \<in> set (rt_wire (?f q rt))"
      using True Cons.prems by (simp add: send_info_def rt_send_raw_def my_node_local)
    moreover have "sends_only (?f q rt) (fold ?f ps (?f q rt))"
      by (rule sends_only_fold) (simp add: send_info_def)
    ultimately show ?thesis by (auto simp: sends_only_def)
  next
    case False
    then show ?thesis using Cons.IH [of "?f q rt"] Cons.prems step by (simp add: sends_only_def)
  qed
qed simp

lemma greet_keeps: "pn_crdt (fst (greet_replica V me topic e x)) = pn_crdt (fst x)"
  using monitor_peer_keeps(1) [of me "tag_replica (te_tag e)" "fst x" "snd x"]
  by (cases x) (auto simp: greet_replica_def Let_def split: prod.split bool.split option.split)

lemma crdt_of_delta: "pn_crdt (fst (handle_crdt_delta V me topic d x)) = snd (merge d (pn_crdt (fst x)))"
proof -
  have "pn_crdt (fst (fold (greet_replica V me topic) es x)) = pn_crdt (fst x)" for es
    by (induction es arbitrary: x) (simp_all add: greet_keeps)
  then show ?thesis by (simp add: handle_crdt_delta_def merge_into_def)
qed

section \<open>Properties of the servers\<close>

definition presence_run :: "presence_codec \<Rightarrow> pid \<Rightarrow> string \<Rightarrow> string \<Rightarrow> node_identity option \<Rightarrow> presence \<Rightarrow> presence_event list \<Rightarrow>
    runtime \<Rightarrow> presence \<times> runtime" where
  "presence_run V me nm pubsub this env evs rt = fold (presence_step V me) evs (presence_new nm pubsub this env, rt)"

lemma presence_run_ok:
  "presence_ok (''presence:'' @ nm) (node_name_atom this) (fst (presence_run V me nm pubsub this env evs rt))"
proof -
  have "presence_ok g n (fst x) \<Longrightarrow> presence_ok g n (fst (fold (presence_step V me) evs x))" for g n x
    by (induction evs arbitrary: x) (simp_all add: presence_step_ok)
  moreover have "presence_ok (''presence:'' @ nm) (node_name_atom this) (presence_new nm pubsub this env)"
    by (simp add: presence_ok_def presence_new_def crdt_new_def) (simp add: crdt_new_ok [unfolded crdt_new_def])
  ultimately show ?thesis by (simp add: presence_run_def)
qed

text \<open>C34. A presence shows on the other nodes unless they have seen a later clock.  When a client tracks a presence
  at a server, whatever that server and one on another node have handled before, the reply is the reference of
  the new entry, and the server has sent the peer a delta.  Let the peer hold no entry of the tracking replica
  with a later clock and not hold the replica down.  If it has seen no clock of the replica above the present
  one, then once it has handled the delta it answers a request for the key with a state in which the reference,
  the process and the metadata are found.  If it has, as after a restart of the tracking server, whose clock
  starts again at zero, the delta adds nothing to it.\<close>

theorem presence_replicates:
  assumes a: "presence_run V me nm ps this env evs rt0 = (s, rt)"
    and b: "presence_run V' me' nm' ps' this' env' evs' rt0' = (s', rt')"
    and peer: "me' \<in> set (pg_get_members (''presence:'' @ nm) (pn_groups s))" "me' \<noteq> me" "pid_node me' \<noteq> my_node rt"
    and hook: "rt_remote_hook rt = Some (\<lambda>_ _. None)"
    and fresh: "c_clock (pn_crdt s) \<noteq> - 1"
      "\<forall>e \<in> crdt_entries (pn_crdt s'). tag_replica (te_tag e) = node_name_atom this \<longrightarrow> tag_clock (te_tag e) \<le> c_clock (pn_crdt s)"
      "is_replica_up (pn_crdt s') (node_name_atom this)"
  shows "\<exists>delta phx_ref rest. presence_handle_call V me (PcTrack topic key p meta) (s, rt) = (ReplyOk (PrOk (Some phx_ref)), rest) \<and>
    (me', PData (pv_info V (PiCrdtDelta topic delta))) \<in> set (rt_wire (snd rest)) \<and>
    (if ctx_clock (c_context (pn_crdt s')) (node_name_atom this) \<le> c_clock (pn_crdt s)
     then (\<exists>st m rest'. presence_handle_call V' me' (PcGet topic key)
        (snd (presence_handle_info V' me' (PiCrdtDelta topic delta) (s', rt'))) = (ReplyOk (PrGet (Some st)), rest') \<and>
        m \<in> set (pst_metas st) \<and> pm_phx_ref m = phx_ref \<and> pm_owner m = p \<and> pm_meta m = meta)
     else crdt_entries (pn_crdt (fst (snd (presence_handle_info V' me' (PiCrdtDelta topic delta) (s', rt'))))) = crdt_entries (pn_crdt s'))"
proof -
  have ok: "presence_ok (''presence:'' @ nm) (node_name_atom this) s" using presence_run_ok [of nm this V me ps env evs rt0] a by simp
  have ok': "presence_ok (''presence:'' @ nm') (node_name_atom this') s'" using presence_run_ok [of nm' this' V' me' ps' env' evs' rt0'] b by simp
  let ?c = "pn_crdt s" and ?c' = "pn_crdt s'"
  let ?e = "track_entry topic p key meta ?c"
  let ?d = "\<lparr> d_joins = [?e], d_leave_tags = [], d_context = hm_insert (c_replica ?c) (c_clock ?c + 1) (c_context ?c) \<rparr>"
  obtain tag c1 where t: "track topic p key meta ?c = (tag, c1)" by fastforce
  have tag: "te_tag ?e = tag" "tag_replica tag = node_name_atom this" "tag_clock tag = c_clock ?c + 1" "slot_of ?e = (topic, key)"
      "te_pid ?e = p" "te_meta ?e = meta" "te_topic ?e = topic" "te_key ?e = key"
    using t ok by (auto simp: track_def Let_def track_entry_def presence_ok_def slot_of_def)
  have "fst (take_delta c1) = Some ?d"
    using track_then_take(1) [of ?c topic p key meta] ok t by (simp add: presence_ok_def)
  then obtain c2 where take: "take_delta c1 = (Some ?d, c2)" by (cases "take_delta c1") auto
  let ?rt1 = "broadcast_delta V (pn_pubsub s) topic (join_diff key \<lparr> pm_phx_ref = tag_to_ref tag, pm_phx_ref_prev = None, pm_owner = p,
      pm_meta = meta, pm_updated_at = pn_now s \<rparr>) rt"
  let ?s1 = "s\<lparr> pn_crdt := c1 \<rparr>"
  have call: "presence_handle_call V me (PcTrack topic key p meta) (s, rt) =
      (ReplyOk (PrOk (Some (tag_to_ref tag))), ?s1\<lparr> pn_crdt := c2 \<rparr>, broadcast_crdt_delta V me topic ?d (?s1, ?rt1))"
    by (simp add: presence_handle_call_def presence_track_def t send_pending_def take Let_def)
  have only: "sends_only rt ?rt1" by simp
  have sent: "(me', PData (pv_info V (PiCrdtDelta topic ?d))) \<in> set (rt_wire (broadcast_crdt_delta V me topic ?d (?s1, ?rt1)))"
    unfolding broadcast_crdt_delta_def prod.case
    using send_to_all [of ?rt1 me' "pg_get_members (''presence:'' @ nm) (pn_groups s)" me V "PiCrdtDelta topic ?d"] peer hook only ok
    by (simp add: delta_is_empty_def sends_only_def presence_ok_def)
  obtain s2 rt2 where h: "handle_crdt_delta V' me' topic ?d (s', rt') = (s2, rt2)" by fastforce
  have crdt2: "pn_crdt s2 = snd (merge ?d ?c')" (is "_ = ?c2")
    using crdt_of_delta [of V' me' topic ?d "(s', rt')"] h by simp
  have ok2: "crdt_ok ?c2" using ok' merge_ok by (simp add: presence_ok_def)
  have pos: "c_clock ?c < c_clock ?c + 1" using unat_Suc_word [OF fresh(1)] by (simp add: word_less_nat_alt)
  have "te_tag ?e \<notin> te_tag ` crdt_entries ?c'"
  proof
    assume "te_tag ?e \<in> te_tag ` crdt_entries ?c'"
    then have "c_clock ?c + 1 \<le> c_clock ?c" using fresh(2) tag(1-3) by auto
    then show False using pos by simp
  qed
  note new = this
  have "0 < c_clock ?c + 1" using word_Suc_pos [OF fresh(1)] .
  then have dom: "dominated (c_context ?c') ?e \<longleftrightarrow> c_clock ?c + 1 \<le> ctx_clock (c_context ?c') (node_name_atom this)"
    using tag(1-3) dominated_ctx_clock [of ?e] by auto
  have handled: "presence_handle_info V' me' (PiCrdtDelta topic ?d) (s', rt') = (StatusOk, s2, rt2)"
    by (simp add: presence_handle_info_def h)
  show ?thesis
  proof (cases "ctx_clock (c_context ?c') (node_name_atom this) \<le> c_clock ?c")
    case seen: True
    have "\<not> dominated (c_context ?c') ?e" using seen pos dom by auto
    then have "?e \<in> crdt_entries ?c2" using merge_one_join [of ?c' ?d ?e] ok' new by (simp add: presence_ok_def)
    moreover have "is_replica_up ?c2 r = is_replica_up ?c' r" for r
      by (simp add: is_replica_up_def merge_def Let_def split_def)
    ultimately have "?e \<in> (case crdt_get topic key ?c2 of None \<Rightarrow> {} | Some es \<Rightarrow> set es)"
      using crdt_get_entries [OF ok2, of topic key] fresh(3) tag by simp
    then obtain es where es: "crdt_get topic key ?c2 = Some es" "?e \<in> set es" by (cases "crdt_get topic key ?c2") auto
    let ?m = "entry_to_meta (pn_now s2) ?e"
    have get: "presence_handle_call V' me' (PcGet topic key) (snd (presence_handle_info V' me' (PiCrdtDelta topic ?d) (s', rt'))) =
        (ReplyOk (PrGet (Some \<lparr> pst_metas = map (entry_to_meta (pn_now s2)) es \<rparr>)), s2, rt2)"
      by (simp add: handled presence_handle_call_def crdt2 es(1))
    have member: "?m \<in> set (map (entry_to_meta (pn_now s2)) es)"
      using es(2) by (simp only: set_map) (rule imageI)
    have m: "pm_phx_ref ?m = tag_to_ref tag" "pm_owner ?m = p" "pm_meta ?m = meta"
      using tag by (simp_all add: entry_to_meta_def)
    show ?thesis unfolding if_P [OF seen]
      by (intro exI [of _ ?d] exI [of _ "tag_to_ref tag"] exI conjI, rule call, simp add: sent, rule get) (use member m in simp_all)
  next
    case behind: False
    have "unat (c_clock ?c) < unat (ctx_clock (c_context ?c') (node_name_atom this))" using behind by (simp add: word_less_nat_alt not_le)
    then have "dominated (c_context ?c') ?e" using dom unat_Suc_word [OF fresh(1)] by (simp add: word_le_nat_alt)
    then have "crdt_entries (pn_crdt s2) = crdt_entries ?c'"
      using merge_one_dominated [of ?c' ?d ?e] ok' by (simp add: crdt2 presence_ok_def)
    then have kept: "crdt_entries (pn_crdt (fst (snd (presence_handle_info V' me' (PiCrdtDelta topic ?d) (s', rt'))))) = crdt_entries ?c'"
      by (simp add: handled)
    show ?thesis unfolding if_not_P [OF behind]
      by (intro exI [of _ ?d] exI [of _ "tag_to_ref tag"] exI conjI, rule call, simp add: sent, rule kept)
  qed
qed

text \<open>C35. What a lost node had does not come back.  Once a server that had synchronised with another one has
  handled the loss of its node, it has no entry of that node; and when the two then talk again, neither the
  answer to its request for synchronisation nor the whole state of the other server restores any entry the
  node had, although the other server still holds them and lists them.\<close>

theorem node_down_not_resynced:
  assumes a: "presence_run V me nm ps this env evs rt0 = (s, rt)"
    and b: "presence_run V' me' nm' ps' this' env' evs' rt0' = (s', rt')"
    and synced: "\<forall>e \<in> crdt_entries (pn_crdt s). tag_replica (te_tag e) = n \<longrightarrow>
      0 < tag_clock (te_tag e) \<and> tag_clock (te_tag e) \<le> ctx_clock (c_context (pn_crdt s')) n"
    and tags: "tags_unique (crdt_entries (pn_crdt s') \<union> crdt_entries (pn_crdt s))"
    and down: "presence_handle_info V' me' (PiNodeDown n reason) (s', rt') = (status, s1, rt1)"
    and delta: "delta \<in> {crdt_extract (c_context (pn_crdt s1)) (pn_crdt s), crdt_extract_all (pn_crdt s)}"
    and again: "presence_handle_info V' me' (PiSyncResponse delta) (s1, rt1) = (status2, s2, rt2)"
  shows "(\<forall>e \<in> crdt_entries (pn_crdt s1). tag_replica (te_tag e) \<noteq> n) \<and>
    (\<forall>e \<in> crdt_entries (pn_crdt s2). tag_replica (te_tag e) \<noteq> n)"
proof -
  have ok: "crdt_ok (pn_crdt s)" "crdt_ok (pn_crdt s')"
    using presence_run_ok [of nm this V me ps env evs rt0] presence_run_ok [of nm' this' V' me' ps' env' evs' rt0'] a b
    by (simp_all add: presence_ok_def)
  have s1: "pn_crdt s1 = snd (remove_down_replica n (pn_crdt s'))"
    using down by (auto simp: presence_handle_info_def handle_node_down_def Let_def split: prod.splits)
  have s2: "pn_crdt s2 = snd (merge delta (pn_crdt s1))"
    using again by (auto simp: presence_handle_info_def handle_crdt_sync_response_def merge_into_def)
  have e1: "crdt_entries (pn_crdt s1) = {e \<in> crdt_entries (pn_crdt s'). tag_replica (te_tag e) \<noteq> n}"
    unfolding s1 by (rule remove_down_entries [OF ok(2)])
  have ok1: "crdt_ok (pn_crdt s1)" unfolding s1 by (rule remove_down_ok [OF ok(2)])
  have c1: "c_context (pn_crdt s1) = c_context (pn_crdt s')" by (simp add: s1 remove_down_frame)
  have d: "set (d_joins delta) \<subseteq> crdt_entries (pn_crdt s)" "d_context delta = c_context (pn_crdt s)"
    using delta by (auto simp: crdt_extract_def crdt_extract_all_def delta_default_def crdt_entries_def)
  have okd: "hm_ok (d_context delta)" using crdt_okD(4) [OF ok(1)] d by simp
  have "tags_unique (crdt_entries (pn_crdt s1) \<union> set (d_joins delta))"
    by (rule tags_unique_subset [OF tags]) (use d e1 in auto)
  note M = crdt_merge_semantics_lemma [OF ok1 okd this surjective_pairing]
  have "dominated (c_context (pn_crdt s1)) e" if "e \<in> set (d_joins delta)" "tag_replica (te_tag e) = n" for e
    using that synced d(1) dominated_ctx_clock [of e "c_context (pn_crdt s')"] by (auto simp: c1)
  then show ?thesis unfolding s2 M(2) using e1 by blast
qed

text \<open>The theorems on two servers, of the nodes \<open>a\<close> and \<open>b\<close>, of which the first has the second in its group.\<close>

definition ex_pv :: presence_codec where
  "ex_pv = \<lparr> pv_wire = plain_wire, pv_pubsub = ex_pubsub,
     pv_info = (\<lambda>msg. case msg of PiCompleteInit \<Rightarrow> [0] | PiCrdtDelta _ _ \<Rightarrow> [1] | PiSyncRequest _ _ \<Rightarrow> [2] | PiSyncResponse _ \<Rightarrow> [3] | PiNodeDown _ _ \<Rightarrow> [4]),
     pv_info_dec = (\<lambda>d. if d = PData [0] then Some PiCompleteInit else None), pv_message = (\<lambda>_. [5]),
     pv_node_down_dec = (\<lambda>_. None), pv_crdt_dec = (\<lambda>_. None), pv_message_dec = (\<lambda>_. None) \<rparr>"

definition ex_node :: "node \<Rightarrow> node_identity option" where
  "ex_node n = Some \<lparr> ni_name = n, ni_creation = 1 \<rparr>"

definition ex_pn_pid :: "node \<Rightarrow> pid" where
  "ex_pn_pid n = \<lparr> pid_node = n, pid_id = 1, pid_creation = 1 \<rparr>"

definition ex_pn_env :: presence where
  "ex_pn_env = \<lparr> pn_name = [], pn_pubsub = [], pn_pg_group = [], pn_crdt = crdt_new [], pn_self_pid = None, pn_monitored = [],
     pn_groups = \<lparr> pg_groups = [(''presence:r'', [ex_pn_pid ''a'', ex_pn_pid ''b''])], pg_pid_groups = [] \<rparr>, pn_group_out = [],
     pn_monitors = nm_new, pn_dist_out = [], pn_dist_up = True, pn_conn = [], pn_now = 9 \<rparr>"

definition ex_pn_rt :: "node \<Rightarrow> runtime" where
  "ex_pn_rt n = runtime_new \<lparr> ps_this = ex_node n, ps_counter = 1, ps_creation = 0 \<rparr> \<lparr> rt_remote_hook := Some (\<lambda>_ _. None) \<rparr>"

lemmas ex_presence_defs = ex_pv_def ex_node_def ex_pn_pid_def ex_pn_env_def ex_pn_rt_def

abbreviation ex_track :: presence_call where
  "ex_track \<equiv> PcTrack ''t'' ''k'' (ex_pn_pid ''a'') [7]"

definition ex_joined :: tracked_entry where
  "ex_joined = \<lparr> te_topic = ''t'', te_pid = ex_pn_pid ''a'', te_key = ''k'', te_meta = [7], te_tag = \<lparr> tag_replica = ''a'', tag_clock = 1 \<rparr> \<rparr>"

theorem presence_replicates_witness:
  "\<exists>delta phx_ref rest. presence_handle_call ex_pv (ex_pn_pid ''a'') ex_track (presence_new ''r'' ''s'' (ex_node ''a'') ex_pn_env, ex_pn_rt ''a'') =
      (ReplyOk (PrOk (Some phx_ref)), rest) \<and>
    (ex_pn_pid ''b'', PData (pv_info ex_pv (PiCrdtDelta ''t'' delta))) \<in> set (rt_wire (snd rest)) \<and>
    (\<exists>st m rest'. presence_handle_call ex_pv (ex_pn_pid ''b'') (PcGet ''t'' ''k'')
        (snd (presence_handle_info ex_pv (ex_pn_pid ''b'') (PiCrdtDelta ''t'' delta)
          (presence_new ''r'' ''s'' (ex_node ''b'') ex_pn_env, ex_pn_rt ''b''))) = (ReplyOk (PrGet (Some st)), rest') \<and>
      m \<in> set (pst_metas st) \<and> pm_phx_ref m = phx_ref \<and> pm_owner m = ex_pn_pid ''a'' \<and> pm_meta m = [7])"
proof -
  let ?s = "\<lambda>n. presence_new ''r'' ''s'' (ex_node n) ex_pn_env"
  have c: "ctx_clock (c_context (pn_crdt (?s ''b''))) (node_name_atom (ex_node ''a'')) \<le> c_clock (pn_crdt (?s ''a''))"
    by (simp add: presence_new_def ex_presence_defs node_name_atom_def crdt_new_def ctx_clock_def)
  note P = presence_replicates [where evs = "[]" and evs' = "[]" and nm = "''r''" and nm' = "''r''" and ps = "''s''" and ps' = "''s''" and
      this = "ex_node ''a''" and this' = "ex_node ''b''" and env = ex_pn_env and env' = ex_pn_env and rt0 = "ex_pn_rt ''a''" and rt0' = "ex_pn_rt ''b''"
      and s = "?s ''a''" and s' = "?s ''b''"]
  show ?thesis
    by (rule P [unfolded if_P [OF c]])
      (simp_all add: presence_run_def presence_new_def ex_presence_defs my_node_def node_name_atom_def pg_get_members_def runtime_new_def
        crdt_new_def crdt_entries_def hm_values_def is_replica_up_def)
qed

definition ex_srv_a :: "presence \<times> runtime" where
  "ex_srv_a = presence_run ex_pv (ex_pn_pid ''a'') ''r'' ''s'' (ex_node ''a'') ex_pn_env [EvCall ex_track] (ex_pn_rt ''a'')"

definition ex_srv_b :: "presence \<times> runtime" where
  "ex_srv_b = presence_run ex_pv (ex_pn_pid ''b'') ''r'' ''s'' (ex_node ''b'') ex_pn_env
     [EvInfo (PiCrdtDelta ''t'' \<lparr> d_joins = [ex_joined], d_leave_tags = [], d_context = [(''a'', 1)] \<rparr>)] (ex_pn_rt ''b'')"

lemmas ex_crdt_defs = presence_run_def presence_new_def node_name_atom_def crdt_new_def ex_joined_def crdt_entries_def hm_values_def

lemma ex_srv_a_entries: "crdt_entries (pn_crdt (fst ex_srv_a)) = {ex_joined}"
  by (simp add: ex_srv_a_def ex_crdt_defs ex_node_def ex_pn_env_def presence_handle_call_def presence_track_def send_pending_def
      track_def take_delta_def delta_is_empty_def delta_default_def Let_def hm_entry_def hm_insert_def hm_at_def)

lemma ex_srv_b_entries:
  "crdt_entries (pn_crdt (fst ex_srv_b)) = {ex_joined}" "ctx_clock (c_context (pn_crdt (fst ex_srv_b))) ''a'' = 1"
  by (simp_all add: ex_srv_b_def ex_crdt_defs ex_node_def ex_pn_env_def presence_handle_info_def crdt_of_delta merge_def merge_join_def
      dominated_def merge_clock_def ctx_clock_def prune_empty_def hm_retain_def hm_entry_def hm_insert_def hm_at_def Let_def)

text \<open>The node \<open>a\<close> is lost; afterwards the two servers talk again.\<close>

abbreviation ex_lost :: "presence \<times> runtime" where
  "ex_lost \<equiv> snd (presence_handle_info ex_pv (ex_pn_pid ''b'') (PiNodeDown ''a'' ''lost'') ex_srv_b)"

abbreviation ex_again :: "presence \<times> runtime" where
  "ex_again \<equiv> snd (presence_handle_info ex_pv (ex_pn_pid ''b'') (PiSyncResponse (crdt_extract_all (pn_crdt (fst ex_srv_a)))) ex_lost)"

theorem node_down_not_resynced_witness:
  "''a'' \<notin> (\<lambda>e. tag_replica (te_tag e)) ` crdt_entries (pn_crdt (fst ex_lost)) \<and>
   ''a'' \<notin> (\<lambda>e. tag_replica (te_tag e)) ` crdt_entries (pn_crdt (fst ex_again))"
proof -
  obtain sa ra where A: "ex_srv_a = (sa, ra)" by (cases ex_srv_a)
  obtain sb rb where B: "ex_srv_b = (sb, rb)" by (cases ex_srv_b)
  have e: "crdt_entries (pn_crdt sa) = {ex_joined}" "crdt_entries (pn_crdt sb) = {ex_joined}"
    "ctx_clock (c_context (pn_crdt sb)) ''a'' = 1"
    using ex_srv_a_entries ex_srv_b_entries by (simp_all add: A B)
  have synced: "\<forall>e \<in> crdt_entries (pn_crdt sa). tag_replica (te_tag e) = ''a'' \<longrightarrow>
      0 < tag_clock (te_tag e) \<and> tag_clock (te_tag e) \<le> ctx_clock (c_context (pn_crdt sb)) ''a''"
    by (simp add: e ex_joined_def)
  have tags: "tags_unique (crdt_entries (pn_crdt sb) \<union> crdt_entries (pn_crdt sa))"
    by (simp add: e tags_unique_def)
  obtain st s1 r1 where lost: "presence_handle_info ex_pv (ex_pn_pid ''b'') (PiNodeDown ''a'' ''lost'') (sb, rb) = (st, s1, r1)"
    by (metis prod.exhaust)
  obtain st' s2 r2 where again: "presence_handle_info ex_pv (ex_pn_pid ''b'') (PiSyncResponse (crdt_extract_all (pn_crdt sa))) (s1, r1) = (st', s2, r2)"
    by (metis prod.exhaust)
  show ?thesis
    using node_down_not_resynced [OF A [unfolded ex_srv_a_def] B [unfolded ex_srv_b_def] synced tags lost insertI2 [OF singletonI] again]
    by (auto simp: A B lost again)
qed

end
