(* ===== verification/Erlang.thy ===== *)
theory Erlang
  imports Manager
begin

text \<open>
  Talking to Erlang nodes: terms in the external format (\<open>core/etf.rs\<close>) and connections
  (\<open>distribution/erlang.rs\<close>).  The crates that encode terms and speak the protocol are not part of the
  repository.  What they do is an argument here: the record \<open>etf_lib\<close> of the codec, and in a connection
  the function telling whether the peer takes a packet.  Of their types the constructors that the code
  names are written out; every other form of a term or a control message is one constructor.
\<close>

section \<open>Terms\<close>

record ext_pid =
  ep_node :: string
  ep_id :: "32 word"
  ep_serial :: "32 word"
  ep_creation :: "32 word"

record ext_ref =
  er_node :: string
  er_creation :: "32 word"
  er_ids :: "32 word list"

datatype erl_term =
    TAtom string | TInteger "64 word" | TPid ext_pid | TReference ext_ref
  | TTuple "erl_term list" | TList "erl_term list" | TOther nat

datatype erl_control =
    CmSend erl_term | CmSendSender erl_term | CmRegSend erl_term
  | CmLink erl_term erl_term | CmExit erl_term erl_term erl_term
  | CmMonitorP erl_term erl_term erl_term | CmDemonitorP erl_term erl_term erl_term
  | CmUnlink erl_term erl_term | CmUnlinkId erl_term erl_term erl_term | CmUnlinkIdAck
  | CmMonitorPExit erl_term erl_term erl_term erl_term
  | CmSpawnRequest erl_term erl_term erl_term erl_term
  | CmSpawnReply erl_term erl_term erl_term erl_term
  | CmOther nat

record etf_lib =
  el_encode :: "erl_term \<Rightarrow> string + byte list"
  el_decode :: "byte list \<Rightarrow> string + erl_term"
  el_debug :: "erl_term \<Rightarrow> string"
  el_debug_all :: "erl_term list \<Rightarrow> string"
  el_control :: "erl_control \<Rightarrow> erl_term"

datatype etf_error = EtfDecode string | EtfEncode string | UnexpectedFormat string string

fun etf_error_display :: "etf_error \<Rightarrow> string" where
  "etf_error_display (EtfDecode e) = ''ETF decode error: '' @ e"
| "etf_error_display (EtfEncode e) = ''ETF encode error: '' @ e"
| "etf_error_display (UnexpectedFormat expected got) = ''Unexpected term format: expected '' @ expected @ '', got '' @ got"

text \<open>Bytes that hold a term.\<close>

definition decode_term :: "etf_lib \<Rightarrow> byte list \<Rightarrow> etf_error + erl_term" where
  "decode_term L bytes = (case el_decode L bytes of Inl e \<Rightarrow> Inl (EtfDecode e) | Inr t \<Rightarrow> Inr t)"

definition match_tagged :: "etf_lib \<Rightarrow> string \<Rightarrow> byte list \<Rightarrow> erl_term list option" where
  "match_tagged L expected bytes =
    (case decode_term L bytes of
       Inr (TTuple (TAtom a # elems)) \<Rightarrow> if a = expected then Some elems else None
     | _ \<Rightarrow> None)"

definition etf_tag :: "etf_lib \<Rightarrow> byte list \<Rightarrow> string option" where
  "etf_tag L bytes =
    (case decode_term L bytes of
       Inr (TTuple (TAtom a # elems)) \<Rightarrow> Some a
     | _ \<Rightarrow> None)"

definition encode_etf :: "etf_lib \<Rightarrow> ('a \<Rightarrow> erl_term) \<Rightarrow> 'a \<Rightarrow> etf_error + byte list" where
  "encode_etf L to_etf v = (case el_encode L (to_etf v) of Inl e \<Rightarrow> Inl (EtfEncode e) | Inr bytes \<Rightarrow> Inr bytes)"

definition decode_etf :: "etf_lib \<Rightarrow> (erl_term \<Rightarrow> etf_error + 'a) \<Rightarrow> byte list \<Rightarrow> etf_error + 'a" where
  "decode_etf L from_etf bytes = (case decode_term L bytes of Inl e \<Rightarrow> Inl e | Inr t \<Rightarrow> from_etf t)"

text \<open>The sequence number is unsigned in the program and signed in the term: the same 64 bits.\<close>

record etf_ping =
  ping_seq :: "64 word"

record etf_pong =
  pong_seq :: "64 word"

definition ping_to_etf :: "etf_ping \<Rightarrow> erl_term" where
  "ping_to_etf p = TTuple [TAtom ''ping'', TInteger (ping_seq p)]"

definition pong_to_etf :: "etf_pong \<Rightarrow> erl_term" where
  "pong_to_etf p = TTuple [TAtom ''pong'', TInteger (pong_seq p)]"

definition ping_from_etf :: "etf_lib \<Rightarrow> erl_term \<Rightarrow> etf_error + etf_ping" where
  "ping_from_etf L t =
    (case t of
       TTuple elems \<Rightarrow>
         (case elems of
            [TAtom tag, TInteger s] \<Rightarrow>
              if tag = ''ping'' then Inr \<lparr> ping_seq = s \<rparr> else Inl (UnexpectedFormat ''{ping, integer()}'' (el_debug_all L elems))
          | _ \<Rightarrow> Inl (UnexpectedFormat ''{ping, integer()}'' (el_debug_all L elems)))
     | other \<Rightarrow> Inl (UnexpectedFormat ''tuple'' (el_debug L other)))"

definition pong_from_etf :: "etf_lib \<Rightarrow> erl_term \<Rightarrow> etf_error + etf_pong" where
  "pong_from_etf L t =
    (case t of
       TTuple elems \<Rightarrow>
         (case elems of
            [TAtom tag, TInteger s] \<Rightarrow>
              if tag = ''pong'' then Inr \<lparr> pong_seq = s \<rparr> else Inl (UnexpectedFormat ''{pong, integer()}'' (el_debug_all L elems))
          | _ \<Rightarrow> Inl (UnexpectedFormat ''{pong, integer()}'' (el_debug_all L elems)))
     | other \<Rightarrow> Inl (UnexpectedFormat ''tuple'' (el_debug L other)))"

section \<open>Connections\<close>

record erl_config =
  ec_local_node :: string
  ec_remote_node :: string
  ec_cookie :: string
  ec_epmd_host :: "string option"
  ec_timeout_secs :: "64 word"

definition erl_config_new :: "string \<Rightarrow> string \<Rightarrow> string \<Rightarrow> erl_config" where
  "erl_config_new l r cookie =
    \<lparr> ec_local_node = l, ec_remote_node = r, ec_cookie = cookie, ec_epmd_host = None, ec_timeout_secs = 30 \<rparr>"

definition with_epmd_host :: "string \<Rightarrow> erl_config \<Rightarrow> erl_config" where
  "with_epmd_host h c = c\<lparr> ec_epmd_host := Some h \<rparr>"

definition with_timeout :: "64 word \<Rightarrow> erl_config \<Rightarrow> erl_config" where
  "with_timeout secs c = c\<lparr> ec_timeout_secs := secs \<rparr>"

text \<open>What the client library is asked to send.\<close>

datatype erl_packet =
    EpMessage ext_pid ext_pid erl_term | EpNamed ext_pid string erl_term
  | EpLink ext_pid ext_pid | EpUnlink ext_pid ext_pid "64 word"
  | EpMonitor ext_pid ext_pid ext_ref | EpDemonitor ext_pid ext_pid ext_ref
  | EpRaw "byte list" | EpClose

record erl_connection =
  cx_local :: string
  cx_remote :: string
  cx_counter :: "64 word"
  cx_refuses :: "erl_packet \<Rightarrow> string option"
  cx_sent :: "erl_packet list"

text \<open>What the library is given to connect with: names, cookie and a port mapper, but no timeout.\<close>

record erl_dial =
  ed_local :: string
  ed_remote :: string
  ed_cookie :: string
  ed_epmd_host :: "string option"

definition erl_dial_of :: "erl_config \<Rightarrow> erl_dial" where
  "erl_dial_of c = \<lparr> ed_local = ec_local_node c, ed_remote = ec_remote_node c, ed_cookie = ec_cookie c, ed_epmd_host = ec_epmd_host c \<rparr>"

text \<open>\<open>dial\<close> is the library's way to connect; it gives what the peer then refuses.\<close>

definition erl_connect :: "(erl_dial \<Rightarrow> string + (erl_packet \<Rightarrow> string option)) \<Rightarrow> erl_config \<Rightarrow> dist_error + erl_connection" where
  "erl_connect dial c =
    (case dial (erl_dial_of c) of
       Inl e \<Rightarrow> Inl (ConnectError (''Erlang connection failed: '' @ e))
     | Inr refuses \<Rightarrow>
        Inr \<lparr> cx_local = ec_local_node c, cx_remote = ec_remote_node c, cx_counter = 1, cx_refuses = refuses, cx_sent = [] \<rparr>)"

definition erl_packet_out :: "string \<Rightarrow> erl_packet \<Rightarrow> erl_connection \<Rightarrow> (dist_error + unit) \<times> erl_connection" where
  "erl_packet_out what p c =
    (case cx_refuses c p of
       Some e \<Rightarrow> (Inl (Io (what @ '' failed: '' @ e)), c)
     | None \<Rightarrow> (Inr (), c\<lparr> cx_sent := cx_sent c @ [p] \<rparr>))"

definition send_to_pid :: "ext_pid \<Rightarrow> ext_pid \<Rightarrow> erl_term \<Rightarrow> erl_connection \<Rightarrow> (dist_error + unit) \<times> erl_connection" where
  "send_to_pid origin to msg = erl_packet_out ''send'' (EpMessage origin to msg)"

definition send_to_name :: "ext_pid \<Rightarrow> string \<Rightarrow> erl_term \<Rightarrow> erl_connection \<Rightarrow> (dist_error + unit) \<times> erl_connection" where
  "send_to_name origin nm msg = erl_packet_out ''send_to_name'' (EpNamed origin nm msg)"

definition erl_link :: "ext_pid \<Rightarrow> ext_pid \<Rightarrow> erl_connection \<Rightarrow> (dist_error + unit) \<times> erl_connection" where
  "erl_link origin to = erl_packet_out ''link'' (EpLink origin to)"

definition erl_unlink :: "ext_pid \<Rightarrow> ext_pid \<Rightarrow> 64 word \<Rightarrow> erl_connection \<Rightarrow> (dist_error + unit) \<times> erl_connection" where
  "erl_unlink origin to i = erl_packet_out ''unlink'' (EpUnlink origin to i)"

definition erl_monitor :: "ext_pid \<Rightarrow> ext_pid \<Rightarrow> ext_ref \<Rightarrow> erl_connection \<Rightarrow> (dist_error + unit) \<times> erl_connection" where
  "erl_monitor origin to r = erl_packet_out ''monitor'' (EpMonitor origin to r)"

definition erl_demonitor :: "ext_pid \<Rightarrow> ext_pid \<Rightarrow> ext_ref \<Rightarrow> erl_connection \<Rightarrow> (dist_error + unit) \<times> erl_connection" where
  "erl_demonitor origin to r = erl_packet_out ''demonitor'' (EpDemonitor origin to r)"

definition erl_close :: "erl_connection \<Rightarrow> (dist_error + unit) \<times> erl_connection" where
  "erl_close = erl_packet_out ''close'' EpClose"

definition pass_through :: byte where
  "pass_through = 112"

definition send_control :: "etf_lib \<Rightarrow> erl_control \<Rightarrow> erl_connection \<Rightarrow> (dist_error + unit) \<times> erl_connection" where
  "send_control L control c =
    (case el_encode L (el_control L control) of
       Inl e \<Rightarrow> (Inl (EncodeError (''ETF encode error: '' @ e)), c)
     | Inr bytes \<Rightarrow> erl_packet_out ''send_control'' (EpRaw (pass_through # bytes)) c)"

text \<open>Identifiers: one counter of 64 bits, of which identifiers carry the lower 32.\<close>

definition allocate_pid :: "erl_connection \<Rightarrow> ext_pid \<times> erl_connection" where
  "allocate_pid c =
    (\<lparr> ep_node = cx_local c, ep_id = ucast (cx_counter c), ep_serial = 0, ep_creation = 1 \<rparr>, c\<lparr> cx_counter := cx_counter c + 1 \<rparr>)"

definition allocate_ref :: "erl_connection \<Rightarrow> ext_ref \<times> erl_connection" where
  "allocate_ref c =
    (\<lparr> er_node = cx_local c, er_creation = 1, er_ids = [ucast (cx_counter c)] \<rparr>, c\<lparr> cx_counter := cx_counter c + 1 \<rparr>)"

definition pid_to_erlang :: "pid \<Rightarrow> string \<Rightarrow> 32 word \<Rightarrow> ext_pid" where
  "pid_to_erlang p nm creation = \<lparr> ep_node = nm, ep_id = ucast (pid_id p), ep_serial = 0, ep_creation = creation \<rparr>"

record erl_message =
  em_control :: erl_control
  em_payload :: "erl_term option"

definition take_payload :: "erl_message \<Rightarrow> erl_term option \<times> erl_message" where
  "take_payload m = (em_payload m, m\<lparr> em_payload := None \<rparr>)"

end
