(* ===== verification/Beam.thy ===== *)
theory Beam
  imports Erlang
begin

text \<open>
  The part of the distribution manager that the feature \<open>erlang-dist\<close> adds (\<open>distribution/manager.rs\<close>,
  \<open>distribution/mod.rs\<close>, \<open>runtime/registry.rs\<close>): the table of Erlang nodes, connecting, the two tasks of
  a connection, and what control messages from an Erlang node do here.

  A connection is shared by its two tasks under a lock, which is held while the next message is awaited;
  the lock serves the tasks in the order in which they ask.  A link is a connection with its queue, the
  message the sending task has taken, and the tasks that hold and await the lock, the holder first.
\<close>

section \<open>State\<close>

datatype link_task = SenderTask | ReceiverTask

record beam_link =
  bl_node :: node
  bl_conn :: erl_connection
  bl_queue :: "(pid \<times> erl_term) list"
  bl_taken :: "(pid \<times> erl_term) option"
  bl_lock :: "link_task list"
  bl_receiving :: bool

record erlang_handle =
  eh_info :: node_info
  eh_link :: nat
  eh_last_seen :: nat

record beam =
  bm_dist :: dist_manager
  bm_erlang :: "(node, erlang_handle) hmap"
  bm_links :: "beam_link list"

definition native_nodes :: "beam \<Rightarrow> node list" where
  "native_nodes b = hm_keys (dm_nodes (bm_dist b))"

definition erlang_nodes :: "beam \<Rightarrow> node list" where
  "erlang_nodes b = hm_keys (bm_erlang b)"

definition beam_node_info :: "node \<Rightarrow> beam \<Rightarrow> node_info option" where
  "beam_node_info n b =
    (case get_node_info n (bm_dist b) of
       Some i \<Rightarrow> Some i
     | None \<Rightarrow> map_option eh_info (hm_get (bm_erlang b) n))"

definition is_beam_node :: "node \<Rightarrow> beam \<Rightarrow> bool" where
  "is_beam_node n b = (dm_node_type n (bm_dist b) = Some Erlang)"

section \<open>Sending\<close>

definition queue_capacity :: nat where
  "queue_capacity = 256"

definition set_link :: "nat \<Rightarrow> (beam_link \<Rightarrow> beam_link) \<Rightarrow> beam \<Rightarrow> beam" where
  "set_link i f b = (if i < length (bm_links b) then b\<lparr> bm_links := (bm_links b)[i := f (bm_links b ! i)] \<rparr> else b)"

text \<open>A full queue drops the message, and the caller is told that all is well.\<close>

definition link_push :: "pid \<times> erl_term \<Rightarrow> beam_link \<Rightarrow> beam_link" where
  "link_push msg l = (if length (bl_queue l) < queue_capacity then l\<lparr> bl_queue := bl_queue l @ [msg] \<rparr> else l)"

definition send_to_erlang :: "etf_lib \<Rightarrow> pid \<Rightarrow> byte list \<Rightarrow> beam \<Rightarrow> (dist_error + unit) \<times> beam" where
  "send_to_erlang L p bytes b =
    (case hm_get (bm_erlang b) (pid_node p) of
       Some h \<Rightarrow>
         (case el_decode L bytes of
            Inl e \<Rightarrow> (Inl (DecodeErr (''ETF decode error: '' @ e)), b)
          | Inr term \<Rightarrow> (Inr (), set_link (eh_link h) (link_push (p, term)) b))
     | None \<Rightarrow> (Inl (NotConnected (pid_node p)), b))"

text \<open>A typed send: terms for an Erlang node, the other format otherwise; \<open>to_etf\<close> and \<open>enc\<close> serialise.\<close>

definition beam_send :: "etf_lib \<Rightarrow> ('a \<Rightarrow> string + byte list) \<Rightarrow> ('a \<Rightarrow> byte list) \<Rightarrow> pid \<Rightarrow> 'a \<Rightarrow> beam \<Rightarrow> (send_error + unit) \<times> beam" where
  "beam_send L to_etf enc p msg b =
    (if \<not> rt_local (dl_rt (bm_dist b)) p \<and> is_beam_node (pid_node p) b then
       (case to_etf msg of
          Inl e \<Rightarrow> (Inl (EncodingError (''ETF encoding failed: '' @ e)), b)
        | Inr bytes \<Rightarrow>
           (case send_to_erlang L p bytes b of
              (Inl e, b1) \<Rightarrow> (Inl (DistributionError (dist_error_display e)), b1)
            | (Inr _, b1) \<Rightarrow> (Inr (), b1)))
     else
       (let (r, s) = rt_send_raw p (PData (enc msg)) (dl_rt (bm_dist b))
        in (r, b\<lparr> bm_dist := (bm_dist b)\<lparr> dl_rt := s \<rparr> \<rparr>)))"

section \<open>Connecting\<close>

definition beam_connect_check :: "node \<Rightarrow> beam \<Rightarrow> dist_error + unit" where
  "beam_connect_check n b = (if hm_contains n (bm_erlang b) then Inl (AlreadyConnected n) else Inr ())"

text \<open>After the connection stands; meanwhile other tasks may have run.\<close>

definition beam_connect_finish :: "node \<Rightarrow> erl_connection \<Rightarrow> beam \<Rightarrow> beam" where
  "beam_connect_finish n c b =
    b\<lparr> bm_erlang := hm_insert n
         \<lparr> eh_info = \<lparr> in_name = n, in_addr = None, in_creation = 0 \<rparr>, eh_link = length (bm_links b), eh_last_seen = dm_clock (bm_dist b) \<rparr>
         (bm_erlang b),
       bm_dist := (bm_dist b)\<lparr> dm_types := hm_insert n Erlang (dm_types (bm_dist b)) \<rparr>,
       bm_links := bm_links b @
         [\<lparr> bl_node = n, bl_conn = c, bl_queue = [], bl_taken = None, bl_lock = [], bl_receiving = True \<rparr>] \<rparr>"

definition connect_erlang :: "(erl_dial \<Rightarrow> string + (erl_packet \<Rightarrow> string option)) \<Rightarrow> node \<Rightarrow> string \<Rightarrow> beam \<Rightarrow> (dist_error + node) \<times> beam" where
  "connect_erlang dial n cookie b =
    (case beam_connect_check n b of
       Inl e \<Rightarrow> (Inl e, b)
     | Inr _ \<Rightarrow>
        (case erl_connect dial (erl_config_new (dm_node_name (bm_dist b)) n cookie) of
           Inl e \<Rightarrow> (Inl e, b)
         | Inr c \<Rightarrow> (Inr n, beam_connect_finish n c b)))"

section \<open>Reading terms\<close>

definition extract_local_pid :: "pid_source \<Rightarrow> erl_term \<Rightarrow> pid option" where
  "extract_local_pid src t =
    (case t of
       TPid p \<Rightarrow> Some \<lparr> pid_node = node_name_atom (ps_this src), pid_id = ucast (ep_id p), pid_creation = ps_creation src \<rparr>
     | _ \<Rightarrow> None)"

definition extract_remote_pid :: "erl_term \<Rightarrow> pid option" where
  "extract_remote_pid t =
    (case t of
       TPid p \<Rightarrow> Some \<lparr> pid_node = ep_node p, pid_id = ucast (ep_id p), pid_creation = ep_creation p \<rparr>
     | _ \<Rightarrow> None)"

definition extract_atom_name :: "erl_term \<Rightarrow> string option" where
  "extract_atom_name t = (case t of TAtom a \<Rightarrow> Some a | _ \<Rightarrow> None)"

definition extract_reference :: "erl_term \<Rightarrow> ref option" where
  "extract_reference t =
    (case t of
       TReference r \<Rightarrow>
         (case er_ids r of
            [id0] \<Rightarrow> Some (ucast id0)
          | id0 # id1 # _ \<Rightarrow> Some (or (push_bit 32 (ucast id1)) (ucast id0))
          | [] \<Rightarrow> None)
     | _ \<Rightarrow> None)"

definition extract_exit_reason :: "etf_lib \<Rightarrow> erl_term \<Rightarrow> string" where
  "extract_exit_reason L t =
    (case t of
       TAtom a \<Rightarrow> a
     | TTuple (TAtom tag # rest) \<Rightarrow>
         (case rest of
            [x] \<Rightarrow> ''{:'' @ tag @ '', '' @ el_debug L x @ ''}''
          | _ \<Rightarrow> '':'' @ tag)
     | _ \<Rightarrow> el_debug L t)"

section \<open>Messages from an Erlang node\<close>

definition deliver_etf_to_local :: "etf_lib \<Rightarrow> pid \<Rightarrow> erl_term \<Rightarrow> dist_manager \<Rightarrow> dist_manager" where
  "deliver_etf_to_local L p payload m =
    (case el_encode L payload of
       Inl _ \<Rightarrow> m
     | Inr bytes \<Rightarrow> dl_runtime (\<lambda>s. snd (rt_send_raw p (PData bytes) s)) m)"

definition here_pid :: "dist_manager \<Rightarrow> erl_term \<Rightarrow> pid option" where
  "here_pid m t = extract_local_pid (rt_pids (dl_rt m)) t"

text \<open>Monitors, links that end, and the end of what is watched; every other message is ignored.\<close>

fun handle_erlang_watching :: "etf_lib \<Rightarrow> node \<Rightarrow> erl_control \<Rightarrow> dist_manager \<Rightarrow> dist_manager" where
  "handle_erlang_watching L n (CmMonitorP origin to reference) m =
    (case (extract_remote_pid origin, here_pid m to, extract_reference reference) of
       (Some r, Some p, Some i) \<Rightarrow> dl_monitors (add_incoming_monitor p r i n) m | _ \<Rightarrow> m)"
| "handle_erlang_watching L n (CmDemonitorP origin to reference) m =
    (case (extract_remote_pid origin, here_pid m to, extract_reference reference) of
       (Some r, Some p, Some i) \<Rightarrow> dl_monitors (remove_incoming_monitor p r i) m | _ \<Rightarrow> m)"
| "handle_erlang_watching L n (CmUnlink origin to) m =
    (case (extract_remote_pid origin, here_pid m to) of
       (Some r, Some p) \<Rightarrow> handle_incoming_unlink r p m | _ \<Rightarrow> m)"
| "handle_erlang_watching L n (CmUnlinkId i origin to) m =
    (case (extract_remote_pid origin, here_pid m to) of
       (Some r, Some p) \<Rightarrow> handle_incoming_unlink r p m | _ \<Rightarrow> m)"
| "handle_erlang_watching L n CmUnlinkIdAck m = m"
| "handle_erlang_watching L n (CmMonitorPExit origin to reference reason) m =
    (case (extract_remote_pid origin, here_pid m to, extract_reference reference) of
       (Some r, Some p, Some i) \<Rightarrow> handle_process_down i r (extract_exit_reason L reason) m | _ \<Rightarrow> m)"
| "handle_erlang_watching L n _ m = m"

fun handle_erlang_control :: "etf_lib \<Rightarrow> node \<Rightarrow> erl_control \<Rightarrow> erl_term option \<Rightarrow> dist_manager \<Rightarrow> dist_manager" where
  "handle_erlang_control L n (CmSend to) payload m =
    (case (here_pid m to, payload) of (Some p, Some t) \<Rightarrow> deliver_etf_to_local L p t m | _ \<Rightarrow> m)"
| "handle_erlang_control L n (CmSendSender to) payload m =
    (case (here_pid m to, payload) of (Some p, Some t) \<Rightarrow> deliver_etf_to_local L p t m | _ \<Rightarrow> m)"
| "handle_erlang_control L n (CmRegSend to_name) payload m =
    (case extract_atom_name to_name of
       None \<Rightarrow> m
     | Some nm \<Rightarrow>
        (case (rt_whereis nm (dl_rt m), payload) of (Some p, Some t) \<Rightarrow> deliver_etf_to_local L p t m | _ \<Rightarrow> m))"
| "handle_erlang_control L n (CmLink origin to) payload m =
    (case (extract_remote_pid origin, here_pid m to) of
       (Some r, Some p) \<Rightarrow> handle_incoming_link (dm_conn m) r p n m | _ \<Rightarrow> m)"
| "handle_erlang_control L n (CmExit origin to reason) payload m =
    (case (extract_remote_pid origin, here_pid m to) of
       (Some r, Some p) \<Rightarrow> handle_incoming_exit r p (extract_exit_reason L reason) m | _ \<Rightarrow> m)"
| "handle_erlang_control L n other payload m = handle_erlang_watching L n other m"

definition handle_erlang_incoming :: "etf_lib \<Rightarrow> node \<Rightarrow> erl_message \<Rightarrow> dist_manager \<Rightarrow> dist_manager" where
  "handle_erlang_incoming L n msg m = handle_erlang_control L n (em_control msg) (em_payload msg) m"

section \<open>Requests to spawn\<close>

text \<open>The module and the function of a request, whose arity must be a number.\<close>

definition parse_mfa :: "erl_term \<Rightarrow> (string \<times> string) option" where
  "parse_mfa mfa =
    (case mfa of
       TTuple [TAtom m, TAtom f, TInteger _] \<Rightarrow> Some (m, f)
     | _ \<Rightarrow> None)"

definition option_named :: "string \<Rightarrow> erl_term \<Rightarrow> bool" where
  "option_named nm opt =
    (case opt of
       TAtom a \<Rightarrow> a = nm
     | TTuple [TAtom a, _] \<Rightarrow> a = nm
     | _ \<Rightarrow> False)"

definition parse_option :: "string \<Rightarrow> erl_term \<Rightarrow> erl_term \<Rightarrow> pid option" where
  "parse_option nm origin opts =
    (case opts of
       TList xs \<Rightarrow> if list_ex (option_named nm) xs then extract_remote_pid origin else None
     | _ \<Rightarrow> None)"

definition send_spawn_error :: "etf_lib \<Rightarrow> erl_term \<Rightarrow> erl_term \<Rightarrow> string \<Rightarrow> erl_connection \<Rightarrow> erl_connection" where
  "send_spawn_error L req to reason c =
    snd (send_control L (CmSpawnReply req to (TInteger 0) (TTuple [TAtom ''error'', TAtom reason])) c)"

definition spawn_flags :: "pid option \<Rightarrow> ref option \<Rightarrow> 64 word" where
  "spawn_flags link_to monitor_ref = (if link_to \<noteq> None then 1 else 0) + (if monitor_ref \<noteq> None then 2 else 0)"

definition handle_spawn_request :: "etf_lib \<Rightarrow> erl_term \<Rightarrow> erl_term \<Rightarrow> erl_term \<Rightarrow> erl_term \<Rightarrow>
    erl_connection \<times> dist_manager \<Rightarrow> erl_connection \<times> dist_manager" where
  "handle_spawn_request L req origin mfa opts = (\<lambda>(c, m).
    (case parse_mfa mfa of
       None \<Rightarrow> (send_spawn_error L req origin ''badarg'' c, m)
     | Some (modul, function) \<Rightarrow>
        (let link_to = parse_option ''link'' origin opts; monitor_from = parse_option ''monitor'' origin opts;
             (result, m1) = execute_spawn modul function [] link_to monitor_from m
         in case result of
              Inl e \<Rightarrow> (send_spawn_error L req origin e c, m1)
            | Inr (p, r) \<Rightarrow>
               (snd (send_control L
                  (CmSpawnReply req origin (TInteger (spawn_flags link_to r))
                    (TPid (pid_to_erlang p (cx_local c) (ps_creation (rt_pids (dl_rt m1))))))
                  c), m1))))"

section \<open>The tasks of a connection\<close>

text \<open>The sending task takes a message from its queue and asks for the lock, then sends it under the lock.\<close>

definition sender_take :: "beam_link \<Rightarrow> beam_link" where
  "sender_take l =
    (case (bl_taken l, bl_queue l) of
       (None, msg # rest) \<Rightarrow> l\<lparr> bl_taken := Some msg, bl_queue := rest, bl_lock := bl_lock l @ [SenderTask] \<rparr>
     | _ \<Rightarrow> l)"

definition sender_send :: "beam_link \<Rightarrow> beam_link" where
  "sender_send l =
    (case (bl_lock l, bl_taken l) of
       (SenderTask # waiting, Some (dest, payload)) \<Rightarrow>
         (let (origin, c) = allocate_pid (bl_conn l)
          in l\<lparr> bl_conn := snd (send_to_pid origin (pid_to_erlang dest (bl_node l) 0) payload c),
                bl_taken := None, bl_lock := waiting \<rparr>)
     | _ \<Rightarrow> l)"

text \<open>The receiving task asks for the lock, and holds it until a message has come.\<close>

definition receiver_ask :: "beam_link \<Rightarrow> beam_link" where
  "receiver_ask l =
    (if bl_receiving l \<and> ReceiverTask \<notin> set (bl_lock l) then l\<lparr> bl_lock := bl_lock l @ [ReceiverTask] \<rparr> else l)"

definition receiver_holds :: "beam_link \<Rightarrow> bool" where
  "receiver_holds l \<longleftrightarrow> (\<exists>waiting. bl_lock l = ReceiverTask # waiting)"

definition receiver_message :: "etf_lib \<Rightarrow> nat \<Rightarrow> erl_message \<Rightarrow> beam \<Rightarrow> beam" where
  "receiver_message L i msg b =
    (let l = bm_links b ! i in
     case em_control msg of
       CmSpawnRequest req origin mfa opts \<Rightarrow>
         (let (c, m) = handle_spawn_request L req origin mfa opts (bl_conn l, bm_dist b)
          in set_link i (\<lambda>l. l\<lparr> bl_conn := c, bl_lock := tl (bl_lock l) \<rparr>) (b\<lparr> bm_dist := m \<rparr>))
     | _ \<Rightarrow>
         (set_link i (\<lambda>l. l\<lparr> bl_lock := tl (bl_lock l) \<rparr>) b)\<lparr> bm_dist := handle_erlang_incoming L (bl_node l) msg (bm_dist b) \<rparr>)"

text \<open>An error ends the task, which takes the node out of the tables.\<close>

definition receiver_error :: "nat \<Rightarrow> beam \<Rightarrow> beam" where
  "receiver_error i b =
    (let n = bl_node (bm_links b ! i);
         b1 = set_link i (\<lambda>l. l\<lparr> bl_lock := tl (bl_lock l), bl_receiving := False \<rparr>) b
     in b1\<lparr> bm_erlang := hm_remove n (bm_erlang b1),
            bm_dist := (bm_dist b1)\<lparr> dm_types := hm_remove n (dm_types (bm_dist b1)) \<rparr> \<rparr>)"

end
