(* ===== verification/Beam_Props.thy ===== *)
theory Beam_Props
  imports Beam Dist_Props
begin

text \<open>
  Properties of the Erlang part: a peer that is silent is sent nothing, its watchers are not told of local
  processes that end, a reply goes to whichever process has the number, a request to spawn is answered once,
  and the typed messages of \<open>core/etf.rs\<close>.
\<close>

section \<open>While the receiving task waits\<close>

text \<open>What can happen around a link while no message comes from its peer: processes send, and the tasks run.\<close>

inductive beam_wait :: "etf_lib \<Rightarrow> beam \<Rightarrow> beam \<Rightarrow> bool" for L where
  BwSend: "beam_wait L b (snd (send_to_erlang L p bytes b))"
| BwTake: "beam_wait L b (set_link i sender_take b)"
| BwPass: "beam_wait L b (set_link i sender_send b)"
| BwAsk: "beam_wait L b (set_link i receiver_ask b)"

inductive_cases beam_waitE: "beam_wait L b b'"

definition link_pending :: "beam_link \<Rightarrow> (pid \<times> erl_term) list" where
  "link_pending l = (case bl_taken l of None \<Rightarrow> [] | Some msg \<Rightarrow> [msg]) @ bl_queue l"

text \<open>What every such step keeps of a link whose receiving task holds the lock.\<close>

definition link_kept :: "beam_link \<Rightarrow> beam_link \<Rightarrow> bool" where
  "link_kept l l' \<longleftrightarrow> cx_sent (bl_conn l') = cx_sent (bl_conn l) \<and> receiver_holds l' \<and>
     (\<exists>more. link_pending l' = link_pending l @ more) \<and> (length (bl_queue l) \<le> queue_capacity \<longrightarrow> length (bl_queue l') \<le> queue_capacity)"

lemma link_kept_refl: "receiver_holds l \<Longrightarrow> link_kept l l"
  by (simp add: link_kept_def)

lemma link_kept_trans: "link_kept l l1 \<Longrightarrow> link_kept l1 l2 \<Longrightarrow> link_kept l l2"
  by (auto simp: link_kept_def)

lemma link_steps_kept:
  assumes "receiver_holds l"
  shows "link_kept l (link_push msg l)" "link_kept l (sender_take l)" "link_kept l (sender_send l)" "link_kept l (receiver_ask l)"
  using assms
  by (auto simp: link_kept_def link_push_def sender_take_def sender_send_def receiver_ask_def link_pending_def receiver_holds_def
      split: option.split list.split link_task.split)

lemma set_link_nth: "i < length (bm_links b) \<Longrightarrow> bm_links (set_link j f b) ! i = (if i = j then f (bm_links b ! i) else bm_links b ! i)"
  by (simp add: set_link_def)

lemma set_link_length [simp]: "length (bm_links (set_link j f b)) = length (bm_links b)"
  by (simp add: set_link_def)

lemma beam_wait_kept:
  assumes "beam_wait L b b'" and i: "i < length (bm_links b)" and "receiver_holds (bm_links b ! i)"
  shows "i < length (bm_links b') \<and> link_kept (bm_links b ! i) (bm_links b' ! i)"
proof -
  note kept = link_kept_refl [OF assms(3)] link_steps_kept [OF assms(3)]
  from assms(1) show ?thesis
    by (elim beam_waitE) (use kept i in \<open>auto simp: set_link_nth send_to_erlang_def split: option.split sum.split\<close>)
qed

lemma beam_waits_kept:
  assumes "(beam_wait L)\<^sup>*\<^sup>* b b'" and "i < length (bm_links b)" and "receiver_holds (bm_links b ! i)"
  shows "i < length (bm_links b') \<and> link_kept (bm_links b ! i) (bm_links b' ! i)"
  using assms
proof (induction rule: rtranclp_induct)
  case (step b1 b2)
  then have 1: "i < length (bm_links b1)" "link_kept (bm_links b ! i) (bm_links b1 ! i)" by blast+
  have "receiver_holds (bm_links b1 ! i)" using 1(2) by (simp add: link_kept_def)
  from beam_wait_kept [OF step.hyps(2) 1(1) this] show ?case using link_kept_trans [OF 1(2)] by blast
qed (simp add: link_kept_refl)

text \<open>C36. A silent Erlang node is sent nothing.  While the receiving task of a connection waits for the next
  message it keeps the lock, so nothing that processes send to the node leaves, whatever they and the two
  tasks do; the messages stay behind each other in the queue.  Once the queue is full, a further message is
  dropped and its sender is told that it was sent.\<close>

theorem beam_silent_peer_blocks:
  assumes "(beam_wait L)\<^sup>*\<^sup>* b b'" and "i < length (bm_links b)" and "receiver_holds (bm_links b ! i)"
    and "length (bl_queue (bm_links b ! i)) \<le> queue_capacity"
  shows "cx_sent (bl_conn (bm_links b' ! i)) = cx_sent (bl_conn (bm_links b ! i)) \<and>
    (\<exists>more. link_pending (bm_links b' ! i) = link_pending (bm_links b ! i) @ more) \<and>
    length (bl_queue (bm_links b' ! i)) \<le> queue_capacity \<and>
    (length (bl_queue (bm_links b' ! i)) = queue_capacity \<longrightarrow>
      (\<forall>p bytes h t. hm_get (bm_erlang b') (pid_node p) = Some h \<and> eh_link h = i \<and> el_decode L bytes = Inr t \<longrightarrow>
        send_to_erlang L p bytes b' = (Inr (), b')))"
proof -
  note K = beam_waits_kept [OF assms(1-3)]
  have "send_to_erlang L p bytes b' = (Inr (), b')"
    if "length (bl_queue (bm_links b' ! i)) = queue_capacity" "hm_get (bm_erlang b') (pid_node p) = Some h" "eh_link h = i"
      "el_decode L bytes = Inr t" for p bytes h t
    using that by (simp add: send_to_erlang_def set_link_def link_push_def)
  then show ?thesis using K assms(4) by (auto simp: link_kept_def)
qed

section \<open>What a node is not told\<close>

definition to_node :: "node \<Rightarrow> dist_manager \<Rightarrow> (node \<times> dist_message) list" where
  "to_node n m = filter (\<lambda>x. fst x = n) (dl_out m)"

definition quiet :: "node \<Rightarrow> dist_manager \<Rightarrow> dist_manager \<Rightarrow> bool" where
  "quiet n m m' \<longleftrightarrow> dm_nodes m' = dm_nodes m \<and> to_node n m' = to_node n m"

lemma quiet_refl [simp]: "quiet n m m"
  by (simp add: quiet_def)

lemma quiet_trans: "quiet n m m1 \<Longrightarrow> quiet n m1 m2 \<Longrightarrow> quiet n m m2"
  by (simp add: quiet_def)

lemma dm_nodes_more: "dist_local.more m' = dist_local.more m \<Longrightarrow> dm_nodes m' = dm_nodes m"
  by (cases m; cases m') simp

lemma quiet_dl [simp]: "quiet n m (dl_monitors f m)" "quiet n m (dl_runtime g m)" "quiet n m (m\<lparr> dl_rt := s \<rparr>)"
  by (simp_all add: quiet_def to_node_def dl_monitors_def dl_runtime_def)

lemma quiet_send: "n \<notin> set conn \<Longrightarrow> quiet n m (dl_send conn k msg m)"
  by (auto simp: quiet_def to_node_def dl_send_def)

lemma quiet_sends: "n \<notin> set conn \<Longrightarrow> quiet n m (fold (\<lambda>x. dl_send conn (to x) (msg x)) xs m)"
  by (induction xs arbitrary: m) (auto intro: quiet_trans [OF quiet_send])

lemma quiet_incoming:
  assumes "n \<notin> set conn"
  shows "quiet n m (handle_process_down r p reason m)" "quiet n m (handle_incoming_link conn p q k m)"
    "quiet n m (handle_incoming_unlink p q m)" "quiet n m (handle_incoming_exit p q reason m)"
proof -
  show "quiet n m (handle_incoming_link conn p q k m)"
    using quiet_send [OF assms] by (auto simp: handle_incoming_link_def intro: quiet_trans [OF quiet_dl(1) quiet_dl(2)])
qed (auto simp: handle_process_down_def handle_incoming_unlink_def handle_incoming_exit_def Let_def quiet_def to_node_def
      dl_monitors_def dl_runtime_def split: option.split)

lemma quiet_control:
  assumes "n \<notin> set (dm_conn m)"
  shows "quiet n m (handle_erlang_control L k c payload m)"
proof -
  have "quiet n m (handle_erlang_watching L k c m)"
    using quiet_incoming [OF assms] by (cases c) (simp_all split: option.split)
  then show ?thesis
    using quiet_incoming [OF assms] by (cases c) (simp_all add: deliver_etf_to_local_def split: option.split sum.split)
qed

lemma quiet_notify:
  assumes n: "n \<notin> set conn"
  shows "quiet n m (notify_local_process_down conn p reason m)"
proof -
  have links: "quiet n m (exit_links conn p reason m)" for m
    unfolding exit_links_def
    by (cases "hm_get (pm_links (dl_pm m)) p") (auto intro: quiet_trans [OF quiet_dl(1) quiet_sends [OF n]])
  define down where "down = (case hm_get (pm_incoming (dl_pm m)) p of None \<Rightarrow> m
    | Some ws \<Rightarrow> fold (\<lambda>(watcher, r). dl_send conn (pid_node watcher) (ProcessDown r p (exit_display reason))) ws
        (dl_monitors (\<lambda>m. m\<lparr> pm_incoming := hm_remove p (pm_incoming m) \<rparr>) m))"
  have "quiet n m down"
    unfolding down_def split_def
    by (cases "hm_get (pm_incoming (dl_pm m)) p") (auto intro: quiet_trans [OF quiet_dl(1) quiet_sends [OF n]])
  then show ?thesis
    unfolding notify_local_process_down_def Let_def down_def [symmetric]
    by (rule quiet_trans [OF quiet_trans [OF _ quiet_dl(1)] links])
qed

lemma quiet_task_end:
  assumes n: "n \<notin> set (dm_conn m)"
  shows "quiet n m (dist_task_end (dm_conn m) p custom m)"
proof -
  have "quiet n w (fold (\<lambda>(p, reason). notify_local_process_down (dm_conn m) p reason) xs w)" for xs w
    by (induction xs arbitrary: w) (auto intro: quiet_trans [OF quiet_notify [OF n]])
  then show ?thesis
    unfolding dist_task_end_def Let_def by (rule quiet_trans [OF quiet_dl(3)])
qed

lemma quiet_spawn: "quiet n m (snd (execute_spawn modul function args lnk mon m))"
  by (auto simp: execute_spawn_def quiet_def to_node_def Let_def split_def split: option.split)

text \<open>Packets that answer a request to spawn.\<close>

definition spawn_replies :: "etf_lib \<Rightarrow> erl_packet list \<Rightarrow> bool" where
  "spawn_replies L ps \<longleftrightarrow> (\<forall>x \<in> set ps. \<exists>req to flags res bytes.
     el_encode L (el_control L (CmSpawnReply req to flags res)) = Inr bytes \<and> x = EpRaw (pass_through # bytes))"

lemma no_replies [simp]: "spawn_replies L []"
  by (simp add: spawn_replies_def)

lemma send_control_replies:
  "\<exists>ps. cx_sent (snd (send_control L (CmSpawnReply req to flags res) c)) = cx_sent c @ ps \<and> spawn_replies L ps"
  by (auto simp: send_control_def erl_packet_out_def spawn_replies_def split: sum.split option.split)

lemma spawn_request_quiet:
  assumes "handle_spawn_request L req origin mfa opts (c, m) = (c', m')"
  shows "quiet n m m'" "\<exists>ps. cx_sent c' = cx_sent c @ ps \<and> spawn_replies L ps"
  using assms quiet_spawn [of n m] send_control_replies
  by (auto simp: handle_spawn_request_def send_spawn_error_def Let_def split_def split: option.splits prod.splits sum.splits)

datatype beam_event = BeMessage nat erl_message | BeEnds pid "exit_reason option"

fun beam_event_step :: "etf_lib \<Rightarrow> beam_event \<Rightarrow> beam \<Rightarrow> beam" where
  "beam_event_step L (BeMessage i msg) b =
    (if i < length (bm_links b) \<and> receiver_holds (bm_links b ! i) then receiver_message L i msg b else b)"
| "beam_event_step L (BeEnds p custom) b = b\<lparr> bm_dist := dist_task_end (dm_conn (bm_dist b)) p custom (bm_dist b) \<rparr>"

definition only_replies :: "etf_lib \<Rightarrow> beam \<Rightarrow> beam \<Rightarrow> bool" where
  "only_replies L b b' \<longleftrightarrow> length (bm_links b') = length (bm_links b) \<and> (\<forall>i < length (bm_links b).
     \<exists>ps. cx_sent (bl_conn (bm_links b' ! i)) = cx_sent (bl_conn (bm_links b ! i)) @ ps \<and> spawn_replies L ps)"

lemma only_replies_refl [simp]: "only_replies L b b"
  by (simp add: only_replies_def spawn_replies_def)

lemma only_replies_trans:
  assumes "only_replies L b b1" "only_replies L b1 b2"
  shows "only_replies L b b2"
  unfolding only_replies_def
proof (intro conjI allI impI)
  show "length (bm_links b2) = length (bm_links b)" using assms by (simp add: only_replies_def)
  fix i assume i: "i < length (bm_links b)"
  obtain ps where ps: "cx_sent (bl_conn (bm_links b1 ! i)) = cx_sent (bl_conn (bm_links b ! i)) @ ps" "spawn_replies L ps"
    using assms(1) i by (auto simp: only_replies_def)
  obtain qs where qs: "cx_sent (bl_conn (bm_links b2 ! i)) = cx_sent (bl_conn (bm_links b1 ! i)) @ qs" "spawn_replies L qs"
    using assms i by (auto simp: only_replies_def)
  show "\<exists>ps. cx_sent (bl_conn (bm_links b2 ! i)) = cx_sent (bl_conn (bm_links b ! i)) @ ps \<and> spawn_replies L ps"
    by (rule exI [of _ "ps @ qs"]) (use ps qs in \<open>auto simp: spawn_replies_def\<close>)
qed

lemma only_replies_set_link:
  assumes "\<exists>ps. cx_sent (bl_conn (f (bm_links b ! i))) = cx_sent (bl_conn (bm_links b ! i)) @ ps \<and> spawn_replies L ps"
  shows "only_replies L b (set_link i f b)"
  using assms by (auto simp: only_replies_def set_link_nth spawn_replies_def)

lemma only_replies_dist [simp]: "only_replies L b (b'\<lparr> bm_dist := m \<rparr>) = only_replies L b b'" "only_replies L (b\<lparr> bm_dist := m \<rparr>) b' = only_replies L b b'"
  by (simp_all add: only_replies_def)

lemma set_link_frame [simp]: "bm_dist (set_link i f b) = bm_dist b" "bm_erlang (set_link i f b) = bm_erlang b"
  by (simp_all add: set_link_def)

lemma set_link_dist: "set_link i f (b\<lparr> bm_dist := m \<rparr>) = (set_link i f b)\<lparr> bm_dist := m \<rparr>"
  by (simp add: set_link_def)

lemma event_quiet:
  assumes n: "n \<notin> set (dm_conn (bm_dist b))"
  shows "quiet n (bm_dist b) (bm_dist (beam_event_step L ev b)) \<and> only_replies L b (beam_event_step L ev b)"
proof (cases ev)
  case (BeEnds p custom)
  then show ?thesis using quiet_task_end [OF n] by simp
next
  case (BeMessage i msg)
  show ?thesis
  proof (cases "i < length (bm_links b) \<and> receiver_holds (bm_links b ! i)")
    case True
    show ?thesis
    proof (cases "\<exists>req origin mfa opts. em_control msg = CmSpawnRequest req origin mfa opts")
      case spawn: True
      then obtain req origin mfa opts where msg: "em_control msg = CmSpawnRequest req origin mfa opts" by blast
      obtain c m where res: "handle_spawn_request L req origin mfa opts (bl_conn (bm_links b ! i), bm_dist b) = (c, m)" by fastforce
      note S = spawn_request_quiet [OF res]
      have "only_replies L b (set_link i (\<lambda>l. l\<lparr> bl_conn := c, bl_lock := tl (bl_lock l) \<rparr>) b)"
        by (rule only_replies_set_link) (simp add: S(2))
      then show ?thesis using True S(1) by (simp add: BeMessage receiver_message_def msg res Let_def set_link_dist)
    next
      case False
      then have "receiver_message L i msg b =
          (set_link i (\<lambda>l. l\<lparr> bl_lock := tl (bl_lock l) \<rparr>) b)\<lparr> bm_dist := handle_erlang_incoming L (bl_node (bm_links b ! i)) msg (bm_dist b) \<rparr>"
        by (cases "em_control msg") (auto simp: receiver_message_def Let_def)
      moreover have "only_replies L b (set_link i (\<lambda>l. l\<lparr> bl_lock := tl (bl_lock l) \<rparr>) b)"
        by (rule only_replies_set_link) simp
      ultimately show ?thesis using True quiet_control [OF n] by (simp add: BeMessage handle_erlang_incoming_def)
    qed
  qed (auto simp: BeMessage)
qed

text \<open>An Erlang node is not told what became of the processes it watches.  Whatever control messages it
  sends, monitors and links of local processes included, and whichever local processes end, before or after:
  nothing is put in the queue of a node that is not connected in the native way, and the only packets that
  leave over an Erlang connection are answers to requests to spawn.\<close>

lemma beam_watchers_not_told:
  assumes "n \<notin> set (native_nodes b)"
  shows "to_node n (bm_dist (fold (beam_event_step L) evs b)) = to_node n (bm_dist b) \<and>
    only_replies L b (fold (beam_event_step L) evs b)"
proof -
  have "quiet n (bm_dist b) (bm_dist (fold (beam_event_step L) evs b)) \<and> only_replies L b (fold (beam_event_step L) evs b)"
    using assms
  proof (induction evs arbitrary: b)
    case (Cons ev evs)
    let ?b1 = "beam_event_step L ev b"
    have 1: "quiet n (bm_dist b) (bm_dist ?b1)" "only_replies L b ?b1"
      using event_quiet Cons.prems by (simp_all add: native_nodes_def dm_conn_def)
    then have "n \<notin> set (native_nodes ?b1)" using Cons.prems by (simp add: quiet_def native_nodes_def)
    from Cons.IH [OF this] show ?case using quiet_trans [OF 1(1)] only_replies_trans [OF 1(2)] by simp
  qed simp
  then show ?thesis by (simp add: quiet_def)
qed

section \<open>Replies\<close>

lemma low32:
  assumes "x < 2 ^ 32"
  shows "ucast (ucast x :: 32 word) = (x :: 64 word)"
proof -
  have "unat x < 2 ^ 32" using assms by (simp add: word_less_nat_alt)
  then show ?thesis by (simp add: word_unat_eq_iff unsigned_ucast_eq unsigned_take_bit_eq take_bit_nat_eq_self)
qed

lemma low32_iff: "ucast (ucast x :: 32 word) = (x :: 64 word) \<longleftrightarrow> x < 2 ^ 32"
proof
  assume "ucast (ucast x :: 32 word) = x"
  moreover have "unat (ucast (ucast x :: 32 word) :: 64 word) < 2 ^ 32"
    using take_bit_nat_less_exp [of 32 "unat x"] by (simp add: unsigned_ucast_eq unsigned_take_bit_eq)
  ultimately have "unat x < 2 ^ 32" by simp
  then show "x < 2 ^ 32" by (simp add: word_less_nat_alt)
qed (rule low32)

text \<open>A reply to a message goes to whoever has the number.  Every message to an Erlang node carries a
  sender made for it alone, numbered by the connection; the process that sent it does not appear.  When the
  Erlang side answers that sender, the answer is delivered to the local process whose number happens to be
  the same, and to no other process.\<close>

lemma beam_reply_to_stranger:
  assumes "bl_lock l = SenderTask # waiting" and "bl_taken l = Some (dest, payload)" and "\<forall>x. cx_refuses (bl_conn l) x = None"
    and "el_encode L answer = Inr bytes" and "cx_counter (bl_conn l) < 2 ^ 32"
    and q: "rt_get (dl_rt m) q = Some Q" "pid_node q = node_name_atom (ps_this (rt_pids (dl_rt m)))"
      "pid_creation q = ps_creation (rt_pids (dl_rt m))" "pid_id q = cx_counter (bl_conn l)" "\<not> pr_closed Q"
  shows "\<exists>origin to. cx_sent (bl_conn (sender_send l)) = cx_sent (bl_conn l) @ [EpMessage origin to payload] \<and>
    (\<forall>r. rt_get (dl_rt (handle_erlang_control L n (CmSend (TPid origin)) (Some answer) m)) r =
      (if r = q then Some (Q\<lparr> pr_mailbox := pr_mailbox Q @ [PData bytes] \<rparr>) else rt_get (dl_rt m) r))"
proof -
  let ?origin = "fst (allocate_pid (bl_conn l))"
  have id: "ucast (ep_id ?origin) = pid_id q"
    using assms(5) q(4) by (simp add: allocate_pid_def low32)
  have "here_pid m (TPid ?origin) = Some q"
    using q id by (cases q) (simp add: here_pid_def extract_local_pid_def)
  moreover have "rt_local (dl_rt m) q" using q by (simp add: rt_local_def pid_is_local_def)
  ultimately have "rt_get (dl_rt (handle_erlang_control L n (CmSend (TPid ?origin)) (Some answer) m)) r =
      (if r = q then Some (Q\<lparr> pr_mailbox := pr_mailbox Q @ [PData bytes] \<rparr>) else rt_get (dl_rt m) r)" for r
    using assms(4) q by (simp add: deliver_etf_to_local_def dl_runtime_def rt_get_send_raw handle_send_def)
  moreover have "\<exists>to. cx_sent (bl_conn (sender_send l)) = cx_sent (bl_conn l) @ [EpMessage ?origin to payload]"
    using assms(1-3) by (simp add: sender_send_def allocate_pid_def send_to_pid_def erl_packet_out_def)
  ultimately show ?thesis by blast
qed

section \<open>Requests to spawn\<close>

text \<open>What sending a control message puts on a connection: one packet, unless the library cannot encode the message
  or the connection does not take it; then nothing.\<close>

definition control_packets :: "etf_lib \<Rightarrow> erl_control \<Rightarrow> erl_connection \<Rightarrow> erl_packet list" where
  "control_packets L control c =
    (case el_encode L (el_control L control) of
       Inl _ \<Rightarrow> []
     | Inr bytes \<Rightarrow> if cx_refuses c (EpRaw (pass_through # bytes)) = None then [EpRaw (pass_through # bytes)] else [])"

lemma send_control_packets: "cx_sent (snd (send_control L control c)) = cx_sent c @ control_packets L control c"
  by (simp add: send_control_def control_packets_def erl_packet_out_def split: sum.split option.split)

text \<open>C37. A request to spawn is answered at most once, and its options are not carried out.  A request from an
  Erlang node leads to one reply, which goes out when the library can encode it and the connection takes it;
  otherwise nothing is sent, whatever has been done.  The reply either reports an error, and nothing has
  changed, or carries the identifier of a new process; messages to that identifier come to the process
  exactly if its number is below \<open>2 ^ 32\<close>, since the number is cut to 32 bits.  The reply claims a link or a
  monitor when one was asked for; but the new process has no links and no watchers, and nothing of it is
  remembered for the other node.\<close>

theorem beam_spawn_answered:
  assumes "cx_local c = node_name_atom (ps_this (rt_pids (dl_rt m)))"
    and "handle_spawn_request L req origin mfa opts (c, m) = (c', m')"
  shows "\<exists>flags res. cx_sent c' = cx_sent c @ control_packets L (CmSpawnReply req origin (TInteger flags) res) c \<and>
    ((\<exists>reason. res = TTuple [TAtom ''error'', TAtom reason] \<and> m' = m) \<or>
     (\<exists>p q modul function. parse_mfa mfa = Some (modul, function) \<and> spawn_contains modul function m \<and>
        res = TPid q \<and> (here_pid m' res = Some p \<longleftrightarrow> pid_id p < 2 ^ 32) \<and> rt_get (dl_rt m') p = Some proc_new \<and> dl_pm m' = dl_pm m \<and>
        (bit flags 0 \<longleftrightarrow> parse_option ''link'' origin opts \<noteq> None) \<and> (bit flags 1 \<longleftrightarrow> parse_option ''monitor'' origin opts \<noteq> None)))"
proof -
  have failed: ?thesis if "c' = send_spawn_error L req origin reason c" "m' = m" for reason
    using send_control_packets [of L "CmSpawnReply req origin (TInteger 0) (TTuple [TAtom ''error'', TAtom reason])" c] that
    unfolding send_spawn_error_def by blast
  show ?thesis
  proof (cases "parse_mfa mfa")
    case None
    then show ?thesis using assms(2) by (intro failed [of "''badarg''"]) (simp_all add: handle_spawn_request_def)
  next
    case (Some mf)
    obtain modul fn where mf: "mf = (modul, fn)" by (cases mf)
    let ?l = "parse_option ''link'' origin opts" and ?w = "parse_option ''monitor'' origin opts"
    show ?thesis
    proof (cases "hm_get (dm_functions m) (modul, fn)")
      case None
      then show ?thesis
        using assms(2) Some
        by (intro failed [of "''function '' @ modul @ '':'' @ fn @ '' not registered for remote spawn''"])
          (simp_all add: mf handle_spawn_request_def execute_spawn_def)
    next
      case (Some f)
      obtain p s where spawned: "rt_spawn (dl_rt m) = (p, s)" by fastforce
      obtain r m1 where run: "execute_spawn modul fn [] ?l ?w m = (Inr (p, r), m1)" and
          r: "r \<noteq> None \<longleftrightarrow> ?w \<noteq> None" and rt: "rt_procs (dl_rt m1) = rt_procs s" "rt_pids (dl_rt m1) = rt_pids s" "dl_pm m1 = dl_pm m"
        using Some by (cases ?w) (auto simp: execute_spawn_def spawned rt_new_ref_def)
      let ?q = "pid_to_erlang p (cx_local c) (ps_creation (rt_pids (dl_rt m1)))"
      have res: "m' = m1" "c' = snd (send_control L (CmSpawnReply req origin (TInteger (spawn_flags ?l r)) (TPid ?q)) c)"
        using assms(2) \<open>parse_mfa mfa = Some mf\<close> by (auto simp: handle_spawn_request_def mf run)
      have p: "pid_node p = node_name_atom (ps_this (rt_pids s))" "pid_creation p = ps_creation (rt_pids s)"
        "hm_get (rt_procs s) p = Some proc_new"
        using spawned by (auto simp: rt_spawn_def pid_new_def)
      have here: "here_pid m' (TPid ?q) = Some p \<longleftrightarrow> pid_id p < 2 ^ 32"
        using p low32_iff [of "pid_id p"]
        by (cases p) (auto simp: here_pid_def extract_local_pid_def pid_to_erlang_def res rt)
      have flags: "bit (spawn_flags ?l r) 0 \<longleftrightarrow> ?l \<noteq> None" "bit (spawn_flags ?l r) 1 \<longleftrightarrow> ?w \<noteq> None"
        using r by (auto simp: spawn_flags_def)
      have "rt_get (dl_rt m') p = Some proc_new" "spawn_contains modul fn m"
        using p rt Some by (simp_all add: res rt_get_def spawn_contains_def hm_contains_def)
      then show ?thesis
        using send_control_packets [of L "CmSpawnReply req origin (TInteger (spawn_flags ?l r)) (TPid ?q)" c] here flags rt(3)
          \<open>parse_mfa mfa = Some mf\<close>
        unfolding res mf by blast
    qed
  qed
qed

section \<open>Typed messages\<close>

text \<open>The messages of \<open>core/etf.rs\<close> are typed: bytes are read as a ping or a pong exactly if the library reads them
  as the term it is written as, number included, so that no bytes are both, and the tag tells which they are.
  A number that the library gives back in another form than it was given is not read as a message.\<close>

lemma etf_messages_typed:
  "decode_etf L (ping_from_etf L) bytes = Inr p \<longleftrightarrow> el_decode L bytes = Inr (ping_to_etf p)"
  "decode_etf L (pong_from_etf L) bytes = Inr q \<longleftrightarrow> el_decode L bytes = Inr (pong_to_etf q)"
  "decode_etf L (ping_from_etf L) bytes = Inr p \<Longrightarrow> etf_tag L bytes = Some ''ping'' \<and>
     match_tagged L ''ping'' bytes = Some [TInteger (ping_seq p)] \<and> (\<nexists>r. decode_etf L (pong_from_etf L) bytes = Inr r)"
proof -
  have ping: "ping_from_etf L t = Inr p \<longleftrightarrow> t = ping_to_etf p" for t p
    by (cases p) (auto simp: ping_from_etf_def ping_to_etf_def split: erl_term.splits list.splits if_splits)
  have pong: "pong_from_etf L t = Inr q \<longleftrightarrow> t = pong_to_etf q" for t q
    by (cases q) (auto simp: pong_from_etf_def pong_to_etf_def split: erl_term.splits list.splits if_splits)
  show p: "decode_etf L (ping_from_etf L) bytes = Inr p \<longleftrightarrow> el_decode L bytes = Inr (ping_to_etf p)"
    and "decode_etf L (pong_from_etf L) bytes = Inr q \<longleftrightarrow> el_decode L bytes = Inr (pong_to_etf q)"
    by (simp_all add: decode_etf_def decode_term_def ping pong split: sum.split)
  show "decode_etf L (ping_from_etf L) bytes = Inr p \<Longrightarrow> etf_tag L bytes = Some ''ping'' \<and>
     match_tagged L ''ping'' bytes = Some [TInteger (ping_seq p)] \<and> (\<nexists>r. decode_etf L (pong_from_etf L) bytes = Inr r)"
    unfolding p by (auto simp: decode_etf_def decode_term_def etf_tag_def match_tagged_def ping_to_etf_def pong_from_etf_def)
qed

section \<open>Examples\<close>

text \<open>A codec that writes everything as the same byte, and a node connected to one Erlang node.\<close>

definition ex_etf_all :: etf_lib where
  "ex_etf_all = \<lparr> el_encode = (\<lambda>_. Inr [7]), el_decode = (\<lambda>_. Inr (TAtom ''t'')), el_debug = (\<lambda>_. ''term''),
     el_debug_all = (\<lambda>_. ''terms''), el_control = (\<lambda>_. TAtom ''control'') \<rparr>"

definition ex_conn :: erl_connection where
  "ex_conn = \<lparr> cx_local = ''a'', cx_remote = ''e'', cx_counter = 1, cx_refuses = (\<lambda>_. None), cx_sent = [] \<rparr>"

definition ex_beam_link :: "(pid \<times> erl_term) list \<Rightarrow> (pid \<times> erl_term) option \<Rightarrow> link_task list \<Rightarrow> beam_link" where
  "ex_beam_link queue taken lock =
    \<lparr> bl_node = ''e'', bl_conn = ex_conn, bl_queue = queue, bl_taken = taken, bl_lock = lock, bl_receiving = True \<rparr>"

definition ex_beam :: beam where
  "ex_beam = \<lparr> bm_dist = ex_dm ''a'',
     bm_erlang = [(''e'', \<lparr> eh_info = \<lparr> in_name = ''e'', in_addr = None, in_creation = 0 \<rparr>, eh_link = 0, eh_last_seen = 0 \<rparr>)],
     bm_links = [ex_beam_link [] None [ReceiverTask]] \<rparr>"

abbreviation ex_erl_pid :: ext_pid where
  "ex_erl_pid \<equiv> \<lparr> ep_node = ''e'', ep_id = 9, ep_serial = 0, ep_creation = 1 \<rparr>"

abbreviation ex_beam_asked :: beam where
  "ex_beam_asked \<equiv> set_link 0 sender_take (snd (send_to_erlang ex_etf_all (ex_proc ''e'') [] ex_beam))"

theorem beam_silent_peer_blocks_witness:
  "cx_sent (bl_conn (bm_links (set_link 0 sender_send ex_beam_asked) ! 0)) = []"
proof -
  have run: "(beam_wait ex_etf_all)\<^sup>*\<^sup>* ex_beam (set_link 0 sender_send ex_beam_asked)"
    by (rule rtranclp.rtrancl_into_rtrancl [OF rtranclp.rtrancl_into_rtrancl [OF r_into_rtranclp]]) (rule beam_wait.intros)+
  show ?thesis
    using beam_silent_peer_blocks [OF run, of 0]
    by (simp add: ex_beam_def ex_beam_link_def ex_conn_def receiver_holds_def)
qed

definition ex_spawn_dm :: dist_manager where
  "ex_spawn_dm = spawn_register ''m'' ''f'' 0 (ex_dm ''a'')"

abbreviation ex_spawned :: "erl_connection \<times> dist_manager" where
  "ex_spawned \<equiv> handle_spawn_request ex_etf_all (TInteger 4) (TPid ex_erl_pid) (TTuple [TAtom ''m'', TAtom ''f'', TInteger 0])
     (TList [TAtom ''link'']) (ex_conn, ex_spawn_dm)"

theorem beam_spawn_answered_witness:
  "\<exists>p. cx_sent (fst ex_spawned) = [EpRaw [112, 7]] \<and> rt_get (dl_rt (snd ex_spawned)) p = Some proc_new \<and>
     dl_pm (snd ex_spawned) = pm_new"
proof -
  have "length (dm_started (snd ex_spawned)) = 1" "length (dm_started ex_spawn_dm) = 0" by code_simp+
  then have spawned: "snd ex_spawned \<noteq> ex_spawn_dm" by force
  obtain c m where res: "ex_spawned = (c, m)" by (cases ex_spawned) blast
  have node: "cx_local ex_conn = node_name_atom (ps_this (rt_pids (dl_rt ex_spawn_dm)))" by code_simp
  obtain flags answer where "cx_sent c = cx_sent ex_conn @ control_packets ex_etf_all (CmSpawnReply (TInteger 4) (TPid ex_erl_pid) (TInteger flags) answer) ex_conn"
    and effect: "\<exists>p. m = ex_spawn_dm \<or> rt_get (dl_rt m) p = Some proc_new \<and> dl_pm m = dl_pm ex_spawn_dm"
    using beam_spawn_answered [OF node res] by blast
  then have "cx_sent c = [EpRaw [112, 7]]" by (simp add: ex_conn_def ex_etf_all_def pass_through_def control_packets_def)
  moreover have "dl_pm ex_spawn_dm = pm_new" by (simp add: ex_spawn_dm_def spawn_register_def ex_dm_def)
  ultimately show ?thesis using effect spawned by (auto simp: res)
qed

end
