(* ===== verification/Peer.thy ===== *)
theory Peer
  imports Manager Decimal
begin

text \<open>
  Starting distribution (\<open>distribution/node.rs\<close>, the functions of \<open>distribution/manager.rs\<close> on the global
  manager) and the nodes a program starts as children of its own process (\<open>peer/core.rs\<close>,
  \<open>peer/options.rs\<close>).  The operating system is an argument: what spawning a command gives, and for each round
  of the loop that waits for a peer the state of the child, what dialling it gives and the time elapsed.
\<close>

section \<open>Starting distribution\<close>

record dist_config =
  dcf_name :: "string option"
  dcf_listen_addr :: "string option"
  dcf_cert_path :: "string option"
  dcf_key_path :: "string option"
  dcf_creation :: "32 word"

definition dist_config_new :: dist_config where
  "dist_config_new = \<lparr> dcf_name = None, dcf_listen_addr = None, dcf_cert_path = None, dcf_key_path = None, dcf_creation = 0 \<rparr>"

definition with_name :: "string \<Rightarrow> dist_config \<Rightarrow> dist_config" where "with_name n c = c\<lparr> dcf_name := Some n \<rparr>"
definition with_listen_addr :: "string \<Rightarrow> dist_config \<Rightarrow> dist_config" where "with_listen_addr a c = c\<lparr> dcf_listen_addr := Some a \<rparr>"
definition with_cert_path :: "string \<Rightarrow> dist_config \<Rightarrow> dist_config" where "with_cert_path p c = c\<lparr> dcf_cert_path := Some p \<rparr>"
definition with_key_path :: "string \<Rightarrow> dist_config \<Rightarrow> dist_config" where "with_key_path p c = c\<lparr> dcf_key_path := Some p \<rparr>"
definition with_creation :: "32 word \<Rightarrow> dist_config \<Rightarrow> dist_config" where "with_creation i c = c\<lparr> dcf_creation := i \<rparr>"

definition manager_new :: "node \<Rightarrow> 32 word \<Rightarrow> runtime \<Rightarrow> dist_manager" where
  "manager_new nm creation rt = \<lparr> dl_pm = pm_new, dl_rt = rt, dl_out = [], dm_node_name = nm, dm_creation = creation, dm_nodes = [],
     dm_addr_to_node = [], dm_known = [], dm_reconnecting = [], dm_types = [], dm_monitors = nm_new, dm_pings = [], dm_pongs = [],
     dm_spawns = [], dm_spawn_replies = [], dm_pg = pg_new, dm_global = [], dm_functions = [], dm_started = [], dm_closed = [],
     dm_clock = 0, dm_heartbeat_seq = 0, dm_ping_seq = 0, dm_spawn_seq = 0 \<rparr>"

text \<open>The globals: the runtime with the identity of the node, and the manager once it has been set.\<close>

record dist_boot =
  db_rt :: runtime
  db_manager :: "dist_manager option"
  db_hook :: bool

definition bad_address :: "string \<Rightarrow> dist_error" where
  "bad_address a = InvalidAddress (a @ '': invalid socket address syntax'')"

definition name_node :: "node \<Rightarrow> 32 word \<Rightarrow> runtime \<Rightarrow> runtime" where
  "name_node nm creation rt =
    rt\<lparr> rt_pids := (rt_pids rt)\<lparr> ps_this := snd (init_node nm creation (ps_this (rt_pids rt))) \<rparr> \<rparr>"

text \<open>\<open>default_name\<close> is made of the process and the host, \<open>listen\<close> is the error of the listener, if any.\<close>

definition init_distribution :: "string \<Rightarrow> (string \<Rightarrow> bool) \<Rightarrow> (string \<Rightarrow> dist_error option) \<Rightarrow> dist_config \<Rightarrow> dist_boot \<Rightarrow>
    (dist_error + unit) \<times> dist_boot" where
  "init_distribution default_name v6 listen config b =
    (let nm = (case dcf_name config of Some n \<Rightarrow> n | None \<Rightarrow> default_name);
         rt = name_node nm (dcf_creation config) (db_rt b);
         b1 = b\<lparr> db_rt := rt \<rparr>;
         go = (case db_manager b1 of
                 Some _ \<Rightarrow> (Inl (ConnectError ''distribution already initialized''), b1)
               | None \<Rightarrow>
                  (let b2 = b1\<lparr> db_manager := Some (manager_new nm (dcf_creation config) (rt\<lparr> rt_distributed := True \<rparr>)), db_hook := True \<rparr>
                   in case dcf_listen_addr config of
                        None \<Rightarrow> (Inr (), b2)
                      | Some a \<Rightarrow> (case listen a of Some e \<Rightarrow> (Inl e, b2) | None \<Rightarrow> (Inr (), b2))))
     in case dcf_listen_addr config of
          Some a \<Rightarrow> if socket_addr v6 a then go else (Inl (bad_address a), b1)
        | None \<Rightarrow> go)"

text \<open>\<open>node::start\<close>.\<close>

definition node_start :: "(string \<Rightarrow> bool) \<Rightarrow> (string \<Rightarrow> dist_error option) \<Rightarrow> string \<Rightarrow> 16 word \<Rightarrow> dist_boot \<Rightarrow> (dist_error + unit) \<times> dist_boot" where
  "node_start v6 listen nm port =
    init_distribution '''' v6 listen (with_listen_addr (''0.0.0.0:'' @ digits_of (unat port)) (with_name nm dist_config_new))"

text \<open>The functions on the global manager; \<open>up\<close> tells whether it has been set.\<close>

definition dist_connect :: "dist_codec \<Rightarrow> (string \<Rightarrow> bool) \<Rightarrow> bool \<Rightarrow> (addr \<Rightarrow> dist_error + nat \<times> dist_message) \<Rightarrow> string \<Rightarrow>
    dist_manager \<Rightarrow> (dist_error + node) \<times> dist_manager" where
  "dist_connect C v6 up dial a m =
    (if \<not> up then (Inl NotInitialized, m)
     else if \<not> socket_addr v6 a then (Inl (bad_address a), m)
     else connect_to C dial a m)"

definition dist_disconnect :: "dist_codec \<Rightarrow> bool \<Rightarrow> node \<Rightarrow> dist_manager \<Rightarrow> (dist_error + unit) \<times> dist_manager" where
  "dist_disconnect C up n m = (if up then disconnect_from C n m else (Inl NotInitialized, m))"

definition dist_nodes :: "bool \<Rightarrow> dist_manager \<Rightarrow> node list" where
  "dist_nodes up m = (if up then connected_nodes m else [])"

definition dist_node_info :: "bool \<Rightarrow> node \<Rightarrow> dist_manager \<Rightarrow> node_info option" where
  "dist_node_info up n m = (if up then get_node_info n m else None)"

definition send_remote :: "bool \<Rightarrow> pid option \<Rightarrow> pid \<Rightarrow> byte list \<Rightarrow> dist_manager \<Rightarrow> (dist_error + unit) \<times> dist_manager" where
  "send_remote up me p payload m = (if up then send_to_remote me p payload m else (Inl NotInitialized, m))"

definition remote_send_hook :: "bool \<Rightarrow> pid option \<Rightarrow> pid \<Rightarrow> byte list \<Rightarrow> dist_manager \<Rightarrow> (send_error + unit) \<times> dist_manager" where
  "remote_send_hook up me p payload m =
    (case send_remote up me p payload m of (Inl _, m1) \<Rightarrow> (Inl (ProcessNotFound p), m1) | (Inr _, m1) \<Rightarrow> (Inr (), m1))"

section \<open>Options of a peer\<close>

datatype spawn_method = CurrentExecutable | Executable string | Ssh string "string option" string | CustomCommand string "string list"
datatype peer_connection = StandardConn | TcpConn "16 word" | StdioConn
datatype shutdown_behavior = HaltPeer | ContinuePeer | ReconnectPeer nat

record peer_options =
  po_name :: "string option"
  po_host :: "string option"
  po_args :: "string list"
  po_env :: "(string, string) hmap"
  po_spawn_method :: spawn_method
  po_connection :: peer_connection
  po_shutdown :: shutdown_behavior
  po_boot_timeout :: "nat option"
  po_dist_port :: "16 word option"
  po_ports :: "(string, 16 word) hmap"

definition peer_options_new :: peer_options where
  "peer_options_new = \<lparr> po_name = None, po_host = Some ''localhost'', po_args = [], po_env = [], po_spawn_method = CurrentExecutable,
     po_connection = StandardConn, po_shutdown = HaltPeer, po_boot_timeout = Some 30000, po_dist_port = None, po_ports = [] \<rparr>"

definition peer_name :: "string \<Rightarrow> peer_options \<Rightarrow> peer_options" where "peer_name n po = po\<lparr> po_name := Some n \<rparr>"
definition peer_host :: "string \<Rightarrow> peer_options \<Rightarrow> peer_options" where "peer_host h po = po\<lparr> po_host := Some h \<rparr>"
definition peer_arg :: "string \<Rightarrow> peer_options \<Rightarrow> peer_options" where "peer_arg a po = po\<lparr> po_args := po_args po @ [a] \<rparr>"
definition peer_args :: "string list \<Rightarrow> peer_options \<Rightarrow> peer_options" where "peer_args xs po = po\<lparr> po_args := po_args po @ xs \<rparr>"
definition peer_env :: "string \<Rightarrow> string \<Rightarrow> peer_options \<Rightarrow> peer_options" where "peer_env k v po = po\<lparr> po_env := hm_insert k v (po_env po) \<rparr>"
definition peer_spawn_method :: "spawn_method \<Rightarrow> peer_options \<Rightarrow> peer_options" where "peer_spawn_method x po = po\<lparr> po_spawn_method := x \<rparr>"
definition peer_connect_by :: "peer_connection \<Rightarrow> peer_options \<Rightarrow> peer_options" where "peer_connect_by x po = po\<lparr> po_connection := x \<rparr>"
definition peer_shutdown :: "shutdown_behavior \<Rightarrow> peer_options \<Rightarrow> peer_options" where "peer_shutdown x po = po\<lparr> po_shutdown := x \<rparr>"
definition peer_boot_timeout :: "nat \<Rightarrow> peer_options \<Rightarrow> peer_options" where "peer_boot_timeout t po = po\<lparr> po_boot_timeout := Some t \<rparr>"
definition peer_no_boot_timeout :: "peer_options \<Rightarrow> peer_options" where "peer_no_boot_timeout po = po\<lparr> po_boot_timeout := None \<rparr>"
definition peer_dist_port :: "16 word \<Rightarrow> peer_options \<Rightarrow> peer_options" where "peer_dist_port p po = po\<lparr> po_dist_port := Some p \<rparr>"
definition peer_port :: "string \<Rightarrow> 16 word \<Rightarrow> peer_options \<Rightarrow> peer_options" where "peer_port n p po = po\<lparr> po_ports := hm_insert n p (po_ports po) \<rparr>"
definition peer_executable :: "string \<Rightarrow> peer_options \<Rightarrow> peer_options" where "peer_executable x po = po\<lparr> po_spawn_method := Executable x \<rparr>"

section \<open>Peers\<close>

datatype peer_error =
    PeSpawnFailed string | PeProcessExited "int option" | PeBootTimeout | PeConnectionFailed string | PeNotRunning | PeDistribution string

fun peer_error_display :: "(int \<Rightarrow> string) \<Rightarrow> peer_error \<Rightarrow> string" where
  "peer_error_display shown (PeSpawnFailed e) = ''failed to spawn peer: '' @ e"
| "peer_error_display shown (PeProcessExited (Some c)) = ''peer process exited with code '' @ shown c"
| "peer_error_display shown (PeProcessExited None) = ''peer process was terminated''"
| "peer_error_display shown PeBootTimeout = ''timeout waiting for peer to boot''"
| "peer_error_display shown (PeConnectionFailed e) = ''failed to connect to peer: '' @ e"
| "peer_error_display shown PeNotRunning = ''peer is not running''"
| "peer_error_display shown (PeDistribution e) = ''distribution error: '' @ e"

datatype peer_state = Booting | PeerRunning | PeerDown

datatype stdio = Piped | Inherited | NullIo

record os_command =
  oc_program :: string
  oc_args :: "string list"
  oc_env :: "(string, string) hmap"
  oc_stdio :: "stdio \<times> stdio \<times> stdio"
  oc_kill_on_drop :: bool

record peer =
  pe_node :: node
  pe_child :: "nat option"
  pe_state :: peer_state
  pe_options :: peer_options
  pe_kill_on_drop :: bool
  pe_dist_port :: "16 word"

definition method_command :: "(string + string) \<Rightarrow> spawn_method \<Rightarrow> peer_error + string \<times> string list" where
  "method_command exe method =
    (case method of
       CurrentExecutable \<Rightarrow> (case exe of Inl e \<Rightarrow> Inl (PeSpawnFailed (''cannot get current exe: '' @ e)) | Inr x \<Rightarrow> Inr (x, []))
     | Executable path \<Rightarrow> Inr (path, [])
     | Ssh h user remote \<Rightarrow> Inr (''ssh'', (case user of Some u \<Rightarrow> [''-l'', u] | None \<Rightarrow> []) @ [h, remote])
     | CustomCommand command args \<Rightarrow> Inr (command, args))"

definition peer_stdio :: "peer_connection \<Rightarrow> stdio \<times> stdio \<times> stdio" where
  "peer_stdio conn = (case conn of StdioConn \<Rightarrow> (Piped, Piped, Inherited) | _ \<Rightarrow> (NullIo, Inherited, Inherited))"

definition peer_args_of :: "string \<Rightarrow> 16 word \<Rightarrow> peer_options \<Rightarrow> string list" where
  "peer_args_of nm port po =
    [''--name'', nm, ''--dist-port'', digits_of (unat port)] @
    concat (map (\<lambda>(k, p). [''--'' @ k, digits_of (unat p)]) (po_ports po)) @ po_args po"

text \<open>\<open>exe\<close> is the current executable, \<open>free_port\<close> a port found free, \<open>spawn\<close> starts a command.\<close>

definition peer_start :: "(string + string) \<Rightarrow> 16 word option \<Rightarrow> (os_command \<Rightarrow> string + nat) \<Rightarrow> peer_options \<Rightarrow> bool \<Rightarrow> 64 word \<Rightarrow>
    (peer_error + peer) \<times> 64 word" where
  "peer_start exe free_port spawn po kill_on_drop counter =
    (let (nm, counter1) = (case po_name po of Some n \<Rightarrow> (n, counter) | None \<Rightarrow> (''peer'' @ digits_of (unat counter), counter + 1));
         h = (case po_host po of Some h \<Rightarrow> h | None \<Rightarrow> ''localhost'');
         port = (case po_dist_port po of Some p \<Rightarrow> p | None \<Rightarrow> (case free_port of Some p \<Rightarrow> p | None \<Rightarrow> 0))
     in case method_command exe (po_spawn_method po) of
          Inl e \<Rightarrow> (Inl e, counter1)
        | Inr (program, args) \<Rightarrow>
           (case spawn \<lparr> oc_program = program, oc_args = args @ peer_args_of nm port po, oc_env = po_env po,
                         oc_stdio = peer_stdio (po_connection po), oc_kill_on_drop = kill_on_drop \<rparr> of
              Inl e \<Rightarrow> (Inl (PeSpawnFailed e), counter1)
            | Inr child \<Rightarrow>
               (Inr \<lparr> pe_node = nm @ ''@'' @ h, pe_child = Some child, pe_state = Booting, pe_options = po,
                      pe_kill_on_drop = kill_on_drop, pe_dist_port = port \<rparr>, counter1)))"

definition dist_addr :: "peer \<Rightarrow> string" where
  "dist_addr p =
    (case po_host (pe_options p) of Some h \<Rightarrow> h | None \<Rightarrow> ''localhost'') @ [CHR 0x3A] @ digits_of (unat (pe_dist_port p))"

datatype child_status = StillRunning | ChildExited "int option" | CheckFailed string

record boot_round =
  br_child :: child_status
  br_dial :: "dist_error + nat \<times> dist_message"
  br_elapsed :: nat

text \<open>One round of the loop; no result when it goes on after a pause.\<close>

definition wait_boot_round :: "dist_codec \<Rightarrow> (string \<Rightarrow> bool) \<Rightarrow> bool \<Rightarrow> nat option \<Rightarrow> boot_round \<Rightarrow> peer \<times> dist_manager \<Rightarrow>
    (peer_error + unit) option \<times> peer \<times> dist_manager" where
  "wait_boot_round C v6 up timeout r = (\<lambda>(p, m).
    (case (pe_child p, br_child r) of
       (Some _, ChildExited code) \<Rightarrow> (Some (Inl (PeProcessExited code)), p\<lparr> pe_state := PeerDown \<rparr>, m)
     | (Some _, CheckFailed e) \<Rightarrow> (Some (Inl (PeSpawnFailed (''failed to check process status: '' @ e))), p, m)
     | _ \<Rightarrow>
        (case dist_connect C v6 up (\<lambda>_. br_dial r) (dist_addr p) m of
           (Inr _, m1) \<Rightarrow> (Some (Inr ()), p\<lparr> pe_state := PeerRunning \<rparr>, m1)
         | (Inl _, m1) \<Rightarrow>
            (case timeout of
               Some t \<Rightarrow> if br_elapsed r > t then (Some (Inl PeBootTimeout), p, m1) else (None, p, m1)
             | None \<Rightarrow> (None, p, m1)))))"

fun wait_boot_loop :: "dist_codec \<Rightarrow> (string \<Rightarrow> bool) \<Rightarrow> bool \<Rightarrow> nat option \<Rightarrow> boot_round list \<Rightarrow> peer \<times> dist_manager \<Rightarrow>
    (peer_error + unit) option \<times> peer \<times> dist_manager" where
  "wait_boot_loop C v6 up timeout [] x = (None, x)"
| "wait_boot_loop C v6 up timeout (r # rs) x =
    (case wait_boot_round C v6 up timeout r x of
       (Some res, x1) \<Rightarrow> (Some res, x1)
     | (None, x1) \<Rightarrow> wait_boot_loop C v6 up timeout rs x1)"

definition wait_boot :: "dist_codec \<Rightarrow> (string \<Rightarrow> bool) \<Rightarrow> bool \<Rightarrow> nat option \<Rightarrow> boot_round list \<Rightarrow> peer \<times> dist_manager \<Rightarrow>
    (peer_error + unit) option \<times> peer \<times> dist_manager" where
  "wait_boot C v6 up timeout rs x =
    wait_boot_loop C v6 up (case timeout of Some t \<Rightarrow> Some t | None \<Rightarrow> po_boot_timeout (pe_options (fst x))) rs x"

text \<open>The last part of the result are the children killed.\<close>

definition peer_stop :: "dist_codec \<Rightarrow> bool \<Rightarrow> peer \<times> dist_manager \<Rightarrow> (peer_error + unit) \<times> peer \<times> dist_manager \<times> nat list" where
  "peer_stop C up = (\<lambda>(p, m).
    (let (m1, killed) =
       (case pe_child p of
          None \<Rightarrow> (m, [])
        | Some child \<Rightarrow>
           (if pe_state p = PeerRunning \<and> up
            then snd (disconnect_from C (pe_node p) (dl_send (dm_conn m) (pe_node p) (NodeGoingDown ''peer shutdown requested'') m))
            else m, [child]))
     in (Inr (), p\<lparr> pe_child := None, pe_state := PeerDown \<rparr>, m1, killed)))"

definition peer_is_alive :: "child_status \<Rightarrow> peer \<Rightarrow> bool \<times> peer" where
  "peer_is_alive status p =
    (case (pe_child p, status) of
       (Some _, ChildExited _) \<Rightarrow> (False, p\<lparr> pe_state := PeerDown \<rparr>)
     | (Some _, StillRunning) \<Rightarrow> (True, p)
     | _ \<Rightarrow> (False, p))"

definition random_name_with_prefix :: "string \<Rightarrow> nat \<Rightarrow> 64 word \<Rightarrow> string \<times> 64 word" where
  "random_name_with_prefix prefix_str nanos counter =
    (prefix_str @ ''_'' @ digits_of (unat counter) @ ''_'' @ digits_of (nanos mod 1000000), counter + 1)"

end
