(* ===== verification/Peer_Props.thy ===== *)
theory Peer_Props
  imports Peer Dist_Props
begin

text \<open>
  When waiting for a peer ends, what stopping a peer does, and the identity of a node whose start was
  repeated.
\<close>

section \<open>Waiting\<close>

definition over_time :: "nat option \<Rightarrow> boot_round \<Rightarrow> bool" where
  "over_time timeout r \<longleftrightarrow> (case timeout of None \<Rightarrow> False | Some t \<Rightarrow> br_elapsed r > t)"

text \<open>If every attempt to connect is refused, a peer that runs is waited for until the time is over.\<close>

lemma wait_boot_refused:
  assumes refused: "\<And>m r. P m \<Longrightarrow> r \<in> set rs \<Longrightarrow>
      \<exists>e m1. dist_connect C v6 up (\<lambda>_. br_dial r) (dist_addr p) m = (Inl e, m1) \<and> P m1"
    and "P m" and "\<forall>r \<in> set rs. br_child r = StillRunning"
  shows "\<exists>m1. wait_boot_loop C v6 up timeout rs (p, m) =
    (if \<exists>r \<in> set rs. over_time timeout r then Some (Inl PeBootTimeout) else None, p, m1) \<and> P m1"
  using assms
proof (induction rs arbitrary: m)
  case (Cons r rs)
  obtain e m1 where c: "dist_connect C v6 up (\<lambda>_. br_dial r) (dist_addr p) m = (Inl e, m1)" "P m1"
    using Cons.prems(1) [of m r] Cons.prems(2) by auto
  have round: "wait_boot_round C v6 up timeout r (p, m) = (if over_time timeout r then Some (Inl PeBootTimeout) else None, p, m1)"
    using Cons.prems(3) c(1) by (auto simp: wait_boot_round_def over_time_def split: option.split)
  show ?case
  proof (cases "over_time timeout r")
    case True
    then show ?thesis using round c(2) by simp
  next
    case False
    then show ?thesis using round Cons.IH [OF _ c(2)] Cons.prems(1,3) by simp
  qed
qed simp

abbreviation boot_limit :: "nat option \<Rightarrow> peer_options \<Rightarrow> nat option" where
  "boot_limit timeout po \<equiv> (case timeout of Some t \<Rightarrow> Some t | None \<Rightarrow> po_boot_timeout po)"

lemma peer_start_result:
  assumes "peer_start exe free_port spawn po kill counter = (Inr p, counter')"
  shows "pe_options p = po" "pe_child p \<noteq> None" "pe_state p = Booting"
  using assms by (auto simp: peer_start_def Let_def split: prod.splits sum.splits option.splits)

text \<open>Waiting for a peer on a named host never succeeds.  The host of a peer is \<open>localhost\<close> unless another is
  chosen, and the address dialled is made of the host as it is written; only numbers are read as addresses.
  So as long as the child runs, waiting for a peer whose host is a name ends with \<open>BootTimeout\<close> in the first
  round after the limit, and without a limit does not end, whatever dialling would give; nothing is connected.\<close>

lemma peer_host_name_never_boots:
  assumes "peer_start exe free_port spawn po kill counter = (Inr p, counter')"
    and "(case po_host po of Some h \<Rightarrow> h | None \<Rightarrow> ''localhost'') = h" and "x \<in> set h" "x \<noteq> CHR ''.''" "digit_value x = None" "hd h \<noteq> CHR 0x5B"
    and "\<forall>r \<in> set rs. br_child r = StillRunning"
  shows "wait_boot C v6 up timeout rs (p, m) =
    (if \<exists>r \<in> set rs. over_time (boot_limit timeout po) r then Some (Inl PeBootTimeout) else None, p, m)"
proof -
  note po = peer_start_result(1) [OF assms(1)]
  have "\<not> socket_addr v6 (dist_addr p)"
    using host_name_no_addr [OF assms(3-6), of v6 "unat (pe_dist_port p)"] unfolding dist_addr_def po assms(2) .
  then have "\<exists>e m1. dist_connect C v6 up (\<lambda>_. br_dial r) (dist_addr p) m' = (Inl e, m1) \<and> m1 = m" if "m' = m" for m' r
    using that by (simp add: dist_connect_def)
  from wait_boot_refused [OF this refl assms(7)]
  show ?thesis unfolding wait_boot_def fst_conv po by blast
qed

text \<open>A peer that has connected by itself is not noticed.  When the node that answers at the peer's address is
  connected to this node already, because it connected first, every attempt is refused as a second
  connection: waiting ends with \<open>BootTimeout\<close> or does not end, the peer stays \<open>Booting\<close>, and the node stays
  connected all the while.\<close>

lemma peer_connected_back_not_noticed:
  assumes "peer_start exe free_port spawn po kill counter = (Inr p, counter')"
    and "hm_contains n (dm_nodes m)" and "\<forall>r \<in> set rs. br_child r = StillRunning \<and> (\<exists>c i. br_dial r = Inr (c, Welcome n i))"
  shows "\<exists>m1. wait_boot C v6 up timeout rs (p, m) =
      (if \<exists>r \<in> set rs. over_time (boot_limit timeout po) r then Some (Inl PeBootTimeout) else None, p, m1) \<and>
    pe_state p = Booting \<and> hm_contains n (dm_nodes m1)"
proof -
  note po = peer_start_result [OF assms(1)]
  have "\<exists>e m1. dist_connect C v6 up (\<lambda>_. br_dial r) (dist_addr p) m' = (Inl e, m1) \<and> hm_contains n (dm_nodes m1)"
    if "hm_contains n (dm_nodes m')" "r \<in> set rs" for m' r
    using that assms(3)
    by (auto simp: dist_connect_def connect_to_def connect_check_def connect_finish_def perform_handshake_def close_connection_def
        split: option.split)
  from wait_boot_refused [where P = "\<lambda>m. hm_contains n (dm_nodes m)", OF this assms(2)]
  show ?thesis using assms(3) po(3) unfolding wait_boot_def fst_conv po(1) by blast
qed

section \<open>Stopping\<close>


lemma hm_keys_removed: "k \<notin> set (hm_keys (hm_remove k m))"
  by (simp add: hm_remove_def hm_keys_def delete_keys)

lemma disconnect_removes:
  "dm_nodes (snd (disconnect_from C n m)) = hm_remove n (dm_nodes m)" "dm_types (snd (disconnect_from C n m)) = hm_remove n (dm_types m)"
proof -
  have "dm_nodes (snd (disconnect_from C n m)) = hm_remove n (dm_nodes m) \<and>
      dm_types (snd (disconnect_from C n m)) = hm_remove n (dm_types m)"
  proof (cases "hm_get (dm_nodes m) n")
    case None
    then show ?thesis using None by (simp add: disconnect_from_def)
  next
    case (Some cn)
    then show ?thesis using disconnect_tables [of C n m] by (simp add: dm_tables_def dm_without_def)
  qed
  then show "dm_nodes (snd (disconnect_from C n m)) = hm_remove n (dm_nodes m)"
    "dm_types (snd (disconnect_from C n m)) = hm_remove n (dm_types m)" by auto
qed

text \<open>Stopping a peer always succeeds and is final for its process, not for its state.  The child, if there is
  one, is killed and forgotten, and the peer is down; if it was running, its node is told first, when it is
  connected, and disconnected.  But a later wait looks at no process any more: if another node answers at the
  address, it succeeds, and the peer is running without being alive.\<close>

lemma peer_stop_effect:
  assumes "peer_stop C up (p, m) = (result, p', m', killed)"
  shows "result = Inr () \<and> pe_state p' = PeerDown \<and> pe_child p' = None \<and> \<not> fst (peer_is_alive status p') \<and>
    killed = (case pe_child p of None \<Rightarrow> [] | Some c \<Rightarrow> [c]) \<and>
    (pe_child p \<noteq> None \<and> pe_state p = PeerRunning \<and> up \<longrightarrow>
      \<not> hm_contains (pe_node p) (dm_nodes m') \<and> pe_node p \<notin> set (connected_nodes m') \<and>
      (pe_node p \<in> set (dm_conn m) \<longrightarrow> (pe_node p, NodeGoingDown ''peer shutdown requested'') \<in> set (dl_out m'))) \<and>
    (up \<and> socket_addr v6 (dist_addr p) \<and> connect_check (dist_addr p) m2 = Inr () \<and> \<not> hm_contains n (dm_nodes m2) \<longrightarrow>
      (\<exists>p2 m3. wait_boot C v6 up timeout [\<lparr> br_child = status, br_dial = Inr (c, Welcome n i), br_elapsed = 0 \<rparr>] (p', m2) =
          (Some (Inr ()), p2, m3) \<and> pe_state p2 = PeerRunning \<and> \<not> fst (peer_is_alive status p2)))"
proof -
  have p': "p' = p\<lparr> pe_child := None, pe_state := PeerDown \<rparr>" "result = Inr ()" "killed = (case pe_child p of None \<Rightarrow> [] | Some c \<Rightarrow> [c])"
    using assms by (auto simp: peer_stop_def Let_def split: option.splits)
  have addr: "dist_addr p' = dist_addr p" by (simp add: p' dist_addr_def)
  have dead: "\<not> fst (peer_is_alive status q)" if "pe_child q = None" for q
    using that by (simp add: peer_is_alive_def)
  let ?m1 = "dl_send (dm_conn m) (pe_node p) (NodeGoingDown ''peer shutdown requested'') m"
  have gone: "\<not> hm_contains (pe_node p) (dm_nodes m') \<and> pe_node p \<notin> set (connected_nodes m') \<and>
      (pe_node p \<in> set (dm_conn m) \<longrightarrow> (pe_node p, NodeGoingDown ''peer shutdown requested'') \<in> set (dl_out m'))"
    if "pe_child p \<noteq> None" "pe_state p = PeerRunning" up
  proof -
    have m': "m' = snd (disconnect_from C (pe_node p) ?m1)" using assms that by (auto simp: peer_stop_def Let_def split: option.splits)
    have tables: "dm_nodes m' = hm_remove (pe_node p) (dm_nodes m)" "dm_types m' = hm_remove (pe_node p) (dm_types m)"
      unfolding m' using disconnect_removes [of C "pe_node p" ?m1] by (simp_all add: dl_send_def)
    have "dl_out m' = dl_out ?m1"
      unfolding m' by (auto simp: disconnect_from_def drop_addr_def close_connection_def Let_def split: option.split)
    then show ?thesis using tables by (auto simp: connected_nodes_def hm_contains_def dl_send_def hm_keys_removed)
  qed
  have later: "\<exists>p2 m3. wait_boot C v6 up timeout [\<lparr> br_child = status, br_dial = Inr (c, Welcome n i), br_elapsed = 0 \<rparr>] (p', m2) =
          (Some (Inr ()), p2, m3) \<and> pe_state p2 = PeerRunning \<and> \<not> fst (peer_is_alive status p2)"
    if "up" "socket_addr v6 (dist_addr p)" "connect_check (dist_addr p) m2 = Inr ()" "\<not> hm_contains n (dm_nodes m2)"
  proof -
    have "pe_child p' = None" by (simp add: p'(1))
    then show ?thesis
      using that dead by (simp add: wait_boot_def wait_boot_round_def addr dist_connect_def connect_to_def connect_finish_def perform_handshake_def)
  qed
  show ?thesis using p' dead gone later by auto
qed

section \<open>Starting twice\<close>

text \<open>A start that fails for its listening address has named the node already.  A second start succeeds under
  another name, which the manager announces to other nodes, while processes keep the first.\<close>

lemma restart_keeps_first_name:
  assumes "ps_this (rt_pids (db_rt b)) = None" "db_manager b = None" "\<not> socket_addr v6 a"
    and "init_distribution d v6 listen (with_listen_addr a (with_name n1 dist_config_new)) b = (r1, b1)"
    and "init_distribution d v6 listen (with_name n2 dist_config_new) b1 = (r2, b2)"
  shows "r1 = Inl (bad_address a) \<and> r2 = Inr () \<and>
    (\<exists>m. db_manager b2 = Some m \<and> dm_node_name m = n2 \<and> node_name_atom (dm_this m) = n1)"
  using assms
  by (auto simp: init_distribution_def with_listen_addr_def with_name_def dist_config_new_def name_node_def init_node_def manager_new_def
      dm_this_def node_name_atom_def Let_def)

section \<open>Examples\<close>

definition ex_peer_started :: "(peer_error + peer) \<times> 64 word" where
  "ex_peer_started = peer_start (Inr ''prog'') (Some 4000) (\<lambda>_. Inr 1) peer_options_new False 0"

definition ex_child :: peer where
  "ex_child = \<lparr> pe_node = ''peer0@localhost'', pe_child = Some 1, pe_state = Booting, pe_options = peer_options_new,
     pe_kill_on_drop = False, pe_dist_port = 4000 \<rparr>"

lemma ex_child_started: "peer_start (Inr ''prog'') (Some 4000) (\<lambda>_. Inr 1) peer_options_new False 0 = (Inr ex_child, 1)"
proof -
  have "digits_of (0 :: nat) = ''0''" by code_simp
  then show ?thesis
    by (simp add: peer_start_def peer_options_new_def method_command_def ex_child_def)
qed

definition ex_rounds :: "boot_round list" where
  "ex_rounds = [\<lparr> br_child = StillRunning, br_dial = Inr (1, Welcome ''b'' 0), br_elapsed = 100 \<rparr>,
     \<lparr> br_child = StillRunning, br_dial = Inr (2, Welcome ''b'' 0), br_elapsed = 30001 \<rparr>]"

lemma ex_over_time: "\<exists>r \<in> set ex_rounds. over_time (boot_limit None peer_options_new) r"
  by (simp add: ex_rounds_def over_time_def peer_options_new_def)

end
