(* ===== verification/Jobs.thy ===== *)
theory Jobs
  imports Gs_System DynSup Decimal Store
begin

text \<open>
  The job queue of the examples (\<open>examples/job_queue/src\<close>): the jobs (\<open>job.rs\<close>), the queue with its pool of
  workers (\<open>queue.rs\<close>), the workers (\<open>worker.rs\<close>), the store of dead letters (\<open>dead_letter.rs\<close>), the
  statistics (\<open>stats.rs\<close>) and the supervision tree (\<open>main.rs\<close>).  The queue runs on the models of the runtime
  and of the dynamic supervisor; what it casts to the other servers and the timers it sets are recorded in
  order.
\<close>

section \<open>Jobs\<close>

datatype job_type = Resize | Thumbnail | Watermark | Compress

fun base_duration :: "job_type \<Rightarrow> nat" where
  "base_duration Resize = 800"
| "base_duration Thumbnail = 400"
| "base_duration Watermark = 1200"
| "base_duration Compress = 600"

record job =
  jb_id :: "64 word"
  jb_type :: job_type
  jb_filename :: string
  jb_retries :: "32 word"

definition job_new :: "64 word \<Rightarrow> job_type \<Rightarrow> string \<Rightarrow> job" where
  "job_new i t f = \<lparr> jb_id = i, jb_type = t, jb_filename = f, jb_retries = 0 \<rparr>"

definition max_retries :: "32 word" where "max_retries = 3"
definition max_queue_depth :: nat where "max_queue_depth = 100"

datatype job_result = JobSuccess "64 word" "64 word" | JobFailed "64 word" string | JobCrashed "64 word"

text \<open>The random number is an argument.\<close>

definition filename_of :: "nat \<Rightarrow> string" where
  "filename_of n = ''photo_'' @ replicate (3 - length (digits_of n)) (CHR ''0'') @ digits_of n @ ''.jpg''"

definition job_type_of :: "nat \<Rightarrow> job_type" where
  "job_type_of n = (if n = 0 then Resize else if n = 1 then Thumbnail else if n = 2 then Watermark else Compress)"

section \<open>The queue\<close>

datatype stats_cast =
    SCompleted "64 word" "64 word" | SFailed "64 word" | SRetried "64 word" "32 word" | SDeadLettered "64 word" | SEnqueued

datatype queue_cast = QEnqueue job | QEnqueueBatch "job list" | QJobFinished pid job_result | QAddWorker | QRemoveWorker

record queue_status =
  qs_pending :: nat
  qs_in_flight :: nat
  qs_total :: nat
  qs_idle :: nat

record job_queue =
  jq_pending :: "job list"
  jq_in_flight :: "(pid, job) hmap"
  jq_idle :: "pid list"
  jq_sup :: pid
  jq_all :: "pid list"

text \<open>What the queue hands on: a job to a worker, an event to the statistics, a job to the dead letters, and
  a timer that sends the bytes of a message to a process.\<close>

datatype queue_out = ToWorker pid job | ToStats pid stats_cast | ToDead pid job | SendAfter int pid queue_cast

record queue_world =
  qw_dyn :: dyn_world
  qw_worker_id :: "32 word"
  qw_out :: "queue_out list"

abbreviation qw_rt :: "queue_world \<Rightarrow> runtime" where
  "qw_rt w \<equiv> dw_rt (qw_dyn w)"

definition qw_emit :: "queue_out \<Rightarrow> queue_world \<Rightarrow> queue_world" where
  "qw_emit out w = w\<lparr> qw_out := qw_out w @ [out] \<rparr>"

definition report_stat :: "stats_cast \<Rightarrow> queue_world \<Rightarrow> queue_world" where
  "report_stat msg w = (case rt_whereis ''stats'' (qw_rt w) of None \<Rightarrow> w | Some p \<Rightarrow> qw_emit (ToStats p msg) w)"

text \<open>The loop takes the last idle worker; one that is dead is forgotten, and one that finds no job is put
  back.\<close>

function dispatch_next :: "job_queue \<times> queue_world \<Rightarrow> job_queue \<times> queue_world" where
  "dispatch_next (q, w) =
    (if jq_idle q = [] then (q, w)
     else
      (let p = List.last (jq_idle q); q1 = q\<lparr> jq_idle := butlast (jq_idle q) \<rparr> in
       if \<not> rt_alive p (qw_rt w) then dispatch_next (q1\<lparr> jq_all := filter (\<lambda>x. x \<noteq> p) (jq_all q1) \<rparr>, w)
       else
        (case jq_pending q1 of
           [] \<Rightarrow> (q1\<lparr> jq_idle := jq_idle q1 @ [p] \<rparr>, w)
         | j # js \<Rightarrow>
             dispatch_next (q1\<lparr> jq_pending := js, jq_in_flight := hm_insert p j (jq_in_flight q1) \<rparr>, qw_emit (ToWorker p j) w))))"
  by pat_completeness auto
termination
  by (relation "measure (\<lambda>(q, w). length (jq_idle q))") (auto simp: Let_def)

definition enqueue :: "job \<Rightarrow> job_queue \<times> queue_world \<Rightarrow> job_queue \<times> queue_world" where
  "enqueue j = (\<lambda>(q, w).
    (if max_queue_depth \<le> length (jq_pending q) then (q, w)
     else dispatch_next (q\<lparr> jq_pending := jq_pending q @ [j] \<rparr>, report_stat SEnqueued w)))"

text \<open>The counter of retries is an addition that panics when it overflows; it never gets there.\<close>

definition send_to_retry :: "job \<Rightarrow> queue_world \<Rightarrow> queue_world" where
  "send_to_retry j0 w =
    (let j = j0\<lparr> jb_retries := jb_retries j0 + 1 \<rparr> in
     if jb_retries j > max_retries then
       (let w1 = report_stat (SDeadLettered (jb_id j)) w in
        case rt_whereis ''dead_letter'' (qw_rt w1) of None \<Rightarrow> w1 | Some p \<Rightarrow> qw_emit (ToDead p j) w1)
     else
       (let w1 = report_stat (SRetried (jb_id j) (jb_retries j)) w; delay = secs (2 ^ unat (jb_retries j - 1)) in
        case rt_whereis ''job_queue'' (qw_rt w1) of None \<Rightarrow> w1 | Some p \<Rightarrow> qw_emit (SendAfter delay p (QEnqueue j)) w1))"

definition handle_job_result :: "pid \<Rightarrow> job_result \<Rightarrow> job_queue \<times> queue_world \<Rightarrow> job_queue \<times> queue_world" where
  "handle_job_result p outcome = (\<lambda>(q, w).
    (let found = hm_get (jq_in_flight q) p;
         q1 = q\<lparr> jq_in_flight := hm_remove p (jq_in_flight q), jq_idle := jq_idle q @ [p] \<rparr>;
         retry = (\<lambda>w. case found of None \<Rightarrow> w | Some j \<Rightarrow> send_to_retry j w);
         w1 = (case outcome of
                 JobSuccess i d \<Rightarrow> report_stat (SCompleted i d) w
               | JobFailed i e \<Rightarrow> retry (report_stat (SFailed i) w)
               | JobCrashed i \<Rightarrow> retry (report_stat (SFailed i) w))
     in dispatch_next (q1, w1)))"

text \<open>Starting a worker (\<open>worker.rs\<close>): the start function runs in the process that asks, which is the one
  the worker is linked to; its \<open>init\<close> always succeeds.\<close>

definition worker_spec :: "pid \<Rightarrow> 32 word \<Rightarrow> runtime child_spec" where
  "worker_spec me i = child_spec_restart Temporary
    (child_spec_new (''worker_'' @ digits_of (unat i)) (\<lambda>rt. let (p, rt1) = rt_spawn_link me rt in (Inr p, rt1)))"

definition start_worker :: "(send_error \<Rightarrow> string) \<Rightarrow> pid \<Rightarrow> pid \<Rightarrow> 32 word \<Rightarrow> queue_world \<Rightarrow> (start_child_error + pid) \<times> queue_world" where
  "start_worker shown me super i w =
    (let (res, d) = dyn_start_child shown me super (worker_spec me i) (qw_dyn w) in (res, w\<lparr> qw_dyn := d \<rparr>))"

definition spawn_worker :: "(send_error \<Rightarrow> string) \<Rightarrow> pid \<Rightarrow> job_queue \<times> queue_world \<Rightarrow> job_queue \<times> queue_world" where
  "spawn_worker shown me = (\<lambda>(q, w).
    (case start_worker shown me (jq_sup q) (qw_worker_id w) (w\<lparr> qw_worker_id := qw_worker_id w + 1 \<rparr>) of
       (Inl _, w1) \<Rightarrow> (q, w1)
     | (Inr p, w1) \<Rightarrow>
        (let w2 = w1\<lparr> qw_dyn := (qw_dyn w1)\<lparr> dw_rt := snd (ctx_monitor me p (qw_rt w1)) \<rparr> \<rparr>
         in dispatch_next (q\<lparr> jq_all := jq_all q @ [p], jq_idle := jq_idle q @ [p] \<rparr>, w2))))"

definition remove_idle_worker :: "pid \<Rightarrow> job_queue \<times> queue_world \<Rightarrow> job_queue \<times> queue_world" where
  "remove_idle_worker me = (\<lambda>(q, w).
    (if jq_idle q = [] then (q, w)
     else
      (let p = List.last (jq_idle q) in
       (q\<lparr> jq_idle := butlast (jq_idle q), jq_all := filter (\<lambda>x. x \<noteq> p) (jq_all q) \<rparr>,
        w\<lparr> qw_dyn := snd (dyn_terminate_child me (jq_sup q) p (qw_dyn w)) \<rparr>))))"

text \<open>The initial workers are started one by one; without the registered supervisor \<open>init\<close> panics.\<close>

definition queue_init :: "(send_error \<Rightarrow> string) \<Rightarrow> pid \<Rightarrow> nat \<Rightarrow> queue_world \<Rightarrow> (job_queue \<times> queue_world) option" where
  "queue_init shown me workers w =
    (case rt_whereis ''worker_sup'' (qw_rt w) of
       None \<Rightarrow> None
     | Some super \<Rightarrow>
        Some ((spawn_worker shown me ^^ workers)
          (\<lparr> jq_pending = [], jq_in_flight = [], jq_idle = [], jq_sup = super, jq_all = [] \<rparr>, w)))"

definition status_of_queue :: "job_queue \<Rightarrow> queue_status" where
  "status_of_queue q = \<lparr> qs_pending = length (jq_pending q), qs_in_flight = length (jq_in_flight q),
     qs_total = length (jq_all q), qs_idle = length (jq_idle q) \<rparr>"

definition queue_handle_cast :: "(send_error \<Rightarrow> string) \<Rightarrow> pid \<Rightarrow> queue_cast \<Rightarrow> job_queue \<times> queue_world \<Rightarrow> job_queue \<times> queue_world" where
  "queue_handle_cast shown me msg =
    (case msg of
       QEnqueue j \<Rightarrow> enqueue j
     | QEnqueueBatch js \<Rightarrow> fold enqueue js
     | QJobFinished p outcome \<Rightarrow> handle_job_result p outcome
     | QAddWorker \<Rightarrow> spawn_worker shown me
     | QRemoveWorker \<Rightarrow> remove_idle_worker me)"

definition queue_handle_raw_info :: "(send_error \<Rightarrow> string) \<Rightarrow> pid \<Rightarrow> system_message option \<Rightarrow>
    job_queue \<times> queue_world \<Rightarrow> job_queue \<times> queue_world" where
  "queue_handle_raw_info shown me msg = (\<lambda>(q, w).
    (case msg of
       Some (Down r p reason) \<Rightarrow>
        (if p \<notin> set (jq_all q) then (q, w)
         else
          (let q1 = q\<lparr> jq_all := filter (\<lambda>x. x \<noteq> p) (jq_all q), jq_idle := filter (\<lambda>x. x \<noteq> p) (jq_idle q),
                       jq_in_flight := hm_remove p (jq_in_flight q) \<rparr>;
               w1 = (case hm_get (jq_in_flight q) p of None \<Rightarrow> w | Some j \<Rightarrow> send_to_retry j w)
           in spawn_worker shown me (q1, w1)))
     | _ \<Rightarrow> (q, w)))"

section \<open>Workers, dead letters, statistics\<close>

text \<open>The time a job takes and the two random decisions are arguments; a crash is a panic of the worker.\<close>

definition process_job :: "64 word \<Rightarrow> bool \<Rightarrow> bool \<Rightarrow> job \<Rightarrow> job_result option" where
  "process_job duration should_crash should_fail j =
    (if should_crash then None
     else if should_fail then Some (JobFailed (jb_id j) ''simulated processing error'')
     else Some (JobSuccess (jb_id j) duration))"

text \<open>What a worker does with a job: the report it casts to the queue, or a panic.\<close>

definition worker_handle_cast :: "pid \<Rightarrow> pid \<Rightarrow> 64 word \<Rightarrow> bool \<Rightarrow> bool \<Rightarrow> job \<Rightarrow> queue_world \<Rightarrow>
    (pid \<times> queue_cast) option \<times> queue_world" where
  "worker_handle_cast me queue duration should_crash should_fail j w =
    (case process_job duration should_crash should_fail j of
       Some outcome \<Rightarrow> (Some (queue, QJobFinished me outcome), w)
     | None \<Rightarrow> (None, w\<lparr> qw_dyn := (qw_dyn w)\<lparr> dw_rt := rt_task_panic me (qw_rt w) \<rparr> \<rparr>))"

type_synonym dead_letters = "(64 word, job) hash_store"

definition dead_letter_add :: "pid \<Rightarrow> job \<Rightarrow> dead_letters \<Rightarrow> dead_letters" where
  "dead_letter_add me j d = snd (store_insert (Some me) (jb_id j) j d)"

definition dead_letter_count :: "pid \<Rightarrow> dead_letters \<Rightarrow> nat" where
  "dead_letter_count me d = (case fst (store_len (Some me) d) of Inr n \<Rightarrow> n | Inl _ \<Rightarrow> 0)"

definition dead_letter_list :: "pid \<Rightarrow> dead_letters \<Rightarrow> job list" where
  "dead_letter_list me d = (case fst (store_values (Some me) d) of Inr js \<Rightarrow> js | Inl _ \<Rightarrow> [])"

text \<open>The floating-point operations the statistics use.\<close>

record 'f floats =
  fl_of_u64 :: "64 word \<Rightarrow> 'f"
  fl_of_count :: "nat \<Rightarrow> 'f"
  fl_secs :: "int \<Rightarrow> 'f"
  fl_zero :: 'f
  fl_add :: "'f \<Rightarrow> 'f \<Rightarrow> 'f"
  fl_div :: "'f \<Rightarrow> 'f \<Rightarrow> 'f"

record 'f stats_snapshot =
  sn_completed :: "64 word"
  sn_failed :: "64 word"
  sn_retried :: "64 word"
  sn_dead :: "64 word"
  sn_enqueued :: "64 word"
  sn_throughput :: 'f
  sn_avg :: 'f

record 'f stats =
  st_completed :: "64 word"
  st_failed :: "64 word"
  st_retried :: "64 word"
  st_dead :: "64 word"
  st_enqueued :: "64 word"
  st_recent :: "(int \<times> 64 word) list"
  st_activity :: "string list"
  st_window :: int
  st_snapshot :: "'f stats_snapshot"

definition stats_init :: "'f floats \<Rightarrow> 'f stats" where
  "stats_init F = \<lparr> st_completed = 0, st_failed = 0, st_retried = 0, st_dead = 0, st_enqueued = 0, st_recent = [],
     st_activity = [], st_window = secs 10,
     st_snapshot = \<lparr> sn_completed = 0, sn_failed = 0, sn_retried = 0, sn_dead = 0, sn_enqueued = 0,
       sn_throughput = fl_zero F, sn_avg = fl_zero F \<rparr> \<rparr>"

definition show_u64 :: "64 word \<Rightarrow> string" where
  "show_u64 i = digits_of (unat i)"

function push_activity_loop :: "string list \<Rightarrow> string list" where
  "push_activity_loop es = (if length es > 100 then push_activity_loop (tl es) else es)"
  by pat_completeness auto
termination
  by (relation "measure length") auto

definition push_activity :: "string \<Rightarrow> 'f stats \<Rightarrow> 'f stats" where
  "push_activity m s = s\<lparr> st_activity := push_activity_loop (st_activity s @ [m]) \<rparr>"

text \<open>The totals are 64-bit sums that panic when they overflow; they count messages, so they do not.\<close>

definition stats_handle_cast :: "int \<Rightarrow> stats_cast \<Rightarrow> 'f stats \<Rightarrow> 'f stats" where
  "stats_handle_cast now msg s =
    (case msg of
       SCompleted i d \<Rightarrow>
         push_activity (''job '' @ show_u64 i @ '' completed ('' @ show_u64 d @ ''ms)'')
           (s\<lparr> st_completed := st_completed s + 1, st_recent := st_recent s @ [(now, d)] \<rparr>)
     | SFailed i \<Rightarrow> push_activity (''job '' @ show_u64 i @ '' failed'') (s\<lparr> st_failed := st_failed s + 1 \<rparr>)
     | SRetried i n \<Rightarrow>
         push_activity (''job '' @ show_u64 i @ '' retry '' @ digits_of (unat n) @ ''/'' @ digits_of (unat max_retries))
           (s\<lparr> st_retried := st_retried s + 1 \<rparr>)
     | SDeadLettered i \<Rightarrow> push_activity (''job '' @ show_u64 i @ '' -> dead letter'') (s\<lparr> st_dead := st_dead s + 1 \<rparr>)
     | SEnqueued \<Rightarrow> s\<lparr> st_enqueued := st_enqueued s + 1 \<rparr>)"

definition stats_activity :: "nat \<Rightarrow> 'f stats \<Rightarrow> string list" where
  "stats_activity n s = take n (rev (st_activity s))"

definition compute_snapshot :: "'f floats \<Rightarrow> int \<Rightarrow> 'f stats \<Rightarrow> 'f stats" where
  "compute_snapshot F now s =
    (let recent = dropWhile (\<lambda>(t, _). t < now - st_window s) (st_recent s);
         n = fl_of_count F (length recent);
         throughput = fl_div F n (fl_secs F (st_window s));
         avg = (if length recent > 0 then fl_div F (foldl (fl_add F) (fl_zero F) (map (fl_of_u64 F \<circ> snd) recent)) n else fl_zero F)
     in s\<lparr> st_recent := recent,
           st_snapshot := \<lparr> sn_completed = st_completed s, sn_failed = st_failed s, sn_retried = st_retried s, sn_dead = st_dead s,
             sn_enqueued = st_enqueued s, sn_throughput = throughput, sn_avg = avg \<rparr> \<rparr>)"

section \<open>The application\<close>

text \<open>The supervision tree (\<open>main.rs\<close>): stats, dead letters, the supervisor of the workers, the queue, the
  producer; each depends on those before it.  The start functions are given by the name of the child.\<close>

definition app_flags :: supervisor_flags where
  "app_flags = flags_max_seconds 5 (flags_max_restarts 10 (supervisor_flags_new RestForOne))"

definition app_children :: "(string \<Rightarrow> 'w \<Rightarrow> (start_child_error + pid) \<times> 'w) \<Rightarrow> 'w child_spec list" where
  "app_children start =
    (let permanent = (\<lambda>i. child_spec_restart Permanent (child_spec_new i (start i)))
     in [permanent ''stats_collector'', permanent ''dead_letter'', child_spec_supervisor (permanent ''worker_sup''),
         permanent ''job_queue'', permanent ''producer''])"

text \<open>A batch of jobs for random numbers of types and file names, and a round of the producer.\<close>

definition new_batch :: "64 word \<Rightarrow> (nat \<times> nat) list \<Rightarrow> job list \<times> 64 word" where
  "new_batch counter rnd =
    (map (\<lambda>(i, t, f). job_new (counter + word_of_nat i) (job_type_of t) (filename_of f)) (enumerate 0 rnd),
     counter + word_of_nat (length rnd))"

definition producer_round :: "64 word \<Rightarrow> (nat \<times> nat) list \<Rightarrow> runtime \<Rightarrow> (pid \<times> queue_cast) option \<times> 64 word" where
  "producer_round counter rnd rt =
    (let (jobs, counter1) = new_batch counter (take 5 rnd)
     in (map_option (\<lambda>p. (p, QEnqueueBatch jobs)) (rt_whereis ''job_queue'' rt), counter1))"

section \<open>The queue as a server\<close>

text \<open>What the server keeps beside the runtime, and the callbacks; \<open>dec\<close> and \<open>unsys\<close> are the decoders of the
  library for the casts of the queue and for system messages.  The type of information messages has no
  values, so that nothing decodes as one.\<close>

type_synonym queue_state = "job_queue \<times> (pid, dyn_sup) hmap \<times> 32 word \<times> queue_out list"

definition on_queue :: "(job_queue \<times> queue_world \<Rightarrow> job_queue \<times> queue_world) \<Rightarrow> queue_state \<times> runtime \<Rightarrow> queue_state \<times> runtime" where
  "on_queue f = (\<lambda>((q, sups, i, out), rt).
    (let (q1, w) = f (q, \<lparr> qw_dyn = \<lparr> dw_sups = sups, dw_rt = rt \<rparr>, qw_worker_id = i, qw_out = out \<rparr>)
     in ((q1, dw_sups (qw_dyn w), qw_worker_id w, qw_out w), qw_rt w)))"

definition queue_callbacks :: "(byte list \<Rightarrow> decode_error + unit) \<Rightarrow> (byte list \<Rightarrow> decode_error + queue_cast) \<Rightarrow> (payload \<Rightarrow> system_message option) \<Rightarrow>
    (queue_status \<Rightarrow> byte list) \<Rightarrow> (send_error \<Rightarrow> string) \<Rightarrow> (decode_error \<Rightarrow> string) \<Rightarrow> (exit_reason \<Rightarrow> string) \<Rightarrow> pid \<Rightarrow>
    (queue_state, unit, queue_cast, unit, queue_status) gs_callbacks" where
  "queue_callbacks dec_call dec unsys enc shown shown_dec debug me = \<lparr>
     gc_call = (\<lambda>_ _ (s, rt). (ReplyOk (status_of_queue (fst s)), s, rt)),
     gc_cast = (\<lambda>msg x. (StatusOk, on_queue (queue_handle_cast shown me msg) x)),
     gc_info = (\<lambda>_ x. (StatusOk, x)),
     gc_raw_info = (\<lambda>raw x. (StatusOk, on_queue (queue_handle_raw_info shown me (unsys raw)) x)),
     gc_timeout = (\<lambda>x. (StatusOk, x)), gc_continue = (\<lambda>_ x. (StatusOk, x)), gc_terminate = (\<lambda>_ x. x),
     gc_dec_call = dec_call, gc_dec_cast = dec, gc_dec_info = (\<lambda>_. None), gc_enc_reply = enc,
     gc_shown = shown_dec, gc_debug = debug \<rparr>"

end
