(* ===== verification/Jobs_Props.thy ===== *)
theory Jobs_Props
  imports Jobs Runtime_Inv "HOL-Library.Multiset"
begin

text \<open>
  What the job queue (\<open>Jobs\<close>) keeps over its runs: its books balance, its workers are idle or busy, and
  no job waits while a worker is idle; and what becomes of its retries and of workers that crash.
\<close>

declare dispatch_next.simps [simp del]

section \<open>Accounts\<close>

definition told :: "(stats_cast \<Rightarrow> bool) \<Rightarrow> queue_world \<Rightarrow> nat" where
  "told f w = length (filter (\<lambda>x. case x of ToStats _ m \<Rightarrow> f m | _ \<Rightarrow> False) (qw_out w))"

fun takes_off :: "stats_cast \<Rightarrow> bool" where
  "takes_off (SCompleted _ _) = True"
| "takes_off (SRetried _ _) = True"
| "takes_off (SDeadLettered _) = True"
| "takes_off _ = False"

fun puts_on :: "stats_cast \<Rightarrow> bool" where
  "puts_on SEnqueued = True"
| "puts_on _ = False"

text \<open>What the queue hands on: a retry after 1, 2 or 4 seconds, and a dead letter after the third.\<close>

fun out_ok :: "queue_out \<Rightarrow> bool" where
  "out_ok (ToWorker _ j) \<longleftrightarrow> jb_retries j \<le> 3"
| "out_ok (ToStats _ _) \<longleftrightarrow> True"
| "out_ok (ToDead _ j) \<longleftrightarrow> jb_retries j = 4"
| "out_ok (SendAfter d _ m) \<longleftrightarrow>
     (case m of QEnqueue j \<Rightarrow> (jb_retries j, d) \<in> {(1, secs 1), (2, secs 2), (3, secs 4)} | _ \<Rightarrow> False)"

definition jq_inv :: "job_queue \<times> queue_world \<Rightarrow> bool" where
  "jq_inv = (\<lambda>(q, w).
     mset (jq_all q) = mset (jq_idle q) + mset (hm_keys (jq_in_flight q)) \<and> distinct (jq_all q) \<and>
     (\<forall>p \<in> set (jq_all q). allocated (qw_rt w) p) \<and> rt_whereis ''stats'' (qw_rt w) \<noteq> None \<and>
     length (jq_pending q) \<le> max_queue_depth \<and>
     told puts_on w = length (jq_pending q) + length (jq_in_flight q) + told takes_off w \<and>
     (\<forall>x \<in> set (qw_out w). out_ok x) \<and>
     (\<forall>j \<in> set (jq_pending q) \<union> snd ` set (jq_in_flight q). jb_retries j \<le> max_retries))"

definition jq_busy :: "job_queue \<Rightarrow> bool" where
  "jq_busy q \<longleftrightarrow> jq_pending q = [] \<or> jq_idle q = []"

lemma told_emit [simp]:
  "told f (qw_emit x w) = told f w + (case x of ToStats _ m \<Rightarrow> if f m then 1 else 0 | _ \<Rightarrow> 0)"
  by (cases x) (simp_all add: told_def qw_emit_def)

lemma emit_frame [simp]: "qw_dyn (qw_emit x w) = qw_dyn w" "set (qw_out (qw_emit x w)) = insert x (set (qw_out w))"
  by (auto simp: qw_emit_def)

lemma report_frame [simp]: "qw_dyn (report_stat m w) = qw_dyn w"
  by (simp add: report_stat_def split: option.split)

lemma told_report:
  "rt_whereis ''stats'' (qw_rt w) \<noteq> None \<Longrightarrow> told f (report_stat m w) = told f w + (if f m then 1 else 0)"
  by (auto simp: report_stat_def)

lemma report_ok: "x \<in> set (qw_out (report_stat m w)) \<Longrightarrow> x \<in> set (qw_out w) \<or> out_ok x"
  by (auto simp: report_stat_def split: option.splits)

section \<open>Dispatching\<close>

lemma mset_filter_ne: "distinct xs \<Longrightarrow> mset (filter (\<lambda>x. x \<noteq> p) xs) = mset xs - {#p#}"
  using distinct_remove1_removeAll [of xs p] mset_remove1 [of p xs] by (simp add: removeAll_filter_not_eq eq_commute)

lemma keys_insert_absent: "hm_get m k = None \<Longrightarrow> hm_insert k v m = m @ [(k, v)]"
  by (induction m) (auto simp: hm_insert_def split: if_splits)

lemma absent_key:
  assumes "mset xs = add_mset p (A + mset (hm_keys m))" "distinct xs"
  shows "hm_get m p = None"
proof -
  have "mset (remove1 p xs) = A + mset (hm_keys m)" by (simp add: assms(1))
  moreover have "p \<notin> set (remove1 p xs)" using assms(2) by simp
  ultimately have "p \<notin> set (hm_keys m)" by (metis set_mset_mset set_mset_union UnI2)
  then show ?thesis by (simp add: set_hm_keys domIff)
qed

lemma dispatch_inv:
  "jq_inv x \<Longrightarrow> jq_inv (dispatch_next x) \<and> jq_busy (fst (dispatch_next x)) \<and> qw_dyn (snd (dispatch_next x)) = qw_dyn (snd x)"
proof (induction x rule: dispatch_next.induct)
  case (1 q w)
  show ?case
  proof (cases "jq_idle q = []")
    case True
    then show ?thesis using 1(3) by (subst (1 2 3) dispatch_next.simps) (simp add: jq_busy_def)
  next
    case False
    let ?p = "List.last (jq_idle q)"
    define rest where "rest = butlast (jq_idle q)"
    have idle: "jq_idle q = rest @ [?p]" using False by (simp add: rest_def)
    have "mset (jq_idle q) = add_mset ?p (mset rest)" by (subst idle) simp
    then have inv: "mset (jq_all q) = add_mset ?p (mset rest + mset (hm_keys (jq_in_flight q)))" "distinct (jq_all q)"
      using 1(3) by (simp_all add: jq_inv_def)
    have absent: "hm_get (jq_in_flight q) ?p = None" by (rule absent_key [OF inv])
    show ?thesis
    proof (cases "rt_alive ?p (qw_rt w)")
      case dead: False
      let ?q = "q\<lparr> jq_idle := rest, jq_all := filter (\<lambda>x. x \<noteq> ?p) (jq_all q) \<rparr>"
      have "jq_inv (?q, w)" using 1(3) inv by (auto simp: jq_inv_def mset_filter_ne simp del: mset_filter)
      moreover have "dispatch_next (q, w) = dispatch_next (?q, w)"
        using False dead by (subst dispatch_next.simps) (simp add: Let_def rest_def)
      ultimately show ?thesis using 1(1) [OF False refl refl] dead by (simp add: rest_def)
    next
      case alive: True
      show ?thesis
      proof (cases "jq_pending q")
        case Nil
        have "dispatch_next (q, w) = (q, w)"
          using False alive Nil by (subst dispatch_next.simps) (simp add: Let_def)
        then show ?thesis using 1(3) Nil by (simp add: jq_busy_def)
      next
        case (Cons j js)
        let ?q = "q\<lparr> jq_idle := rest, jq_pending := js, jq_in_flight := hm_insert ?p j (jq_in_flight q) \<rparr>"
        have "jq_inv (?q, qw_emit (ToWorker ?p j) w)"
          using 1(3) inv Cons by (auto simp: jq_inv_def keys_insert_absent [OF absent] hm_keys_def max_retries_def)
        moreover have "dispatch_next (q, w) = dispatch_next (?q, qw_emit (ToWorker ?p j) w)"
          using False alive Cons by (subst dispatch_next.simps) (simp add: Let_def rest_def)
        ultimately show ?thesis using 1(2) [OF False refl refl] alive Cons by (simp add: rest_def)
      qed
    qed
  qed
qed


lemma jq_invD:
  assumes "jq_inv (q, w)"
  shows "mset (jq_all q) = mset (jq_idle q) + mset (hm_keys (jq_in_flight q))" "distinct (jq_all q)"
    "p \<in> set (jq_all q) \<Longrightarrow> allocated (qw_rt w) p" "rt_whereis ''stats'' (qw_rt w) \<noteq> None"
    "length (jq_pending q) \<le> max_queue_depth"
    "told puts_on w = length (jq_pending q) + length (jq_in_flight q) + told takes_off w"
    "x \<in> set (qw_out w) \<Longrightarrow> out_ok x" "j \<in> set (jq_pending q) \<Longrightarrow> jb_retries j \<le> max_retries"
    "(p, j) \<in> set (jq_in_flight q) \<Longrightarrow> jb_retries j \<le> max_retries"
  using assms unfolding jq_inv_def by force+

section \<open>The operations\<close>

definition jq_ok :: "job_queue \<times> queue_world \<Rightarrow> bool" where
  "jq_ok x \<longleftrightarrow> jq_inv x \<and> jq_busy (fst x)"

lemma dispatch_ok: "jq_inv x \<Longrightarrow> jq_ok (dispatch_next x) \<and> qw_dyn (snd (dispatch_next x)) = qw_dyn (snd x)"
  using dispatch_inv by (simp add: jq_ok_def)

lemma enqueue_ok:
  assumes "jq_ok (q, w)" "jb_retries j \<le> max_retries"
  shows "jq_ok (enqueue j (q, w))"
proof (cases "max_queue_depth \<le> length (jq_pending q)")
  case True
  then show ?thesis using assms by (simp add: enqueue_def)
next
  case False
  note inv = jq_invD [of q w]
  have q: "jq_inv (q, w)" using assms(1) by (simp add: jq_ok_def)
  have out: "x \<in> set (qw_out (report_stat SEnqueued w)) \<Longrightarrow> out_ok x" for x
    using report_ok inv(7) [OF q] by blast
  have "jq_inv (q\<lparr> jq_pending := jq_pending q @ [j] \<rparr>, report_stat SEnqueued w)"
    using False assms(2) inv(1-6) [OF q] inv(8,9) [OF q] out
    by (auto simp: jq_inv_def told_report)
  then show ?thesis using False dispatch_ok by (simp add: enqueue_def)
qed

lemma retries_cases: "x \<le> max_retries \<Longrightarrow> x = 0 \<or> x = 1 \<or> x = 2 \<or> x = 3"
  unfolding max_retries_def by unat_arith

lemma retry_effect:
  assumes "jb_retries j \<le> max_retries" "rt_whereis ''stats'' (qw_rt w) \<noteq> None"
  shows "qw_dyn (send_to_retry j w) = qw_dyn w" "told puts_on (send_to_retry j w) = told puts_on w"
    "told takes_off (send_to_retry j w) = told takes_off w + 1"
    "x \<in> set (qw_out (send_to_retry j w)) \<Longrightarrow> x \<in> set (qw_out w) \<or> out_ok x"
  using retries_cases [OF assms(1)] assms(2)
  by (auto simp: send_to_retry_def Let_def told_report max_retries_def secs_def report_stat_def split: option.splits)

lemma keys_remove: "hm_keys (hm_remove p m) = filter (\<lambda>x. x \<noteq> p) (hm_keys m)"
  by (induction m) (auto simp: hm_remove_def hm_keys_def)

text \<open>A report of a worker that has been given a job, and the loss of any worker.\<close>

lemma in_flight_removed:
  assumes "jq_inv (q, w)" "hm_get (jq_in_flight q) p = Some j"
  shows "mset (hm_keys (jq_in_flight q)) = add_mset p (mset (hm_keys (hm_remove p (jq_in_flight q))))"
    "length (jq_in_flight q) = Suc (length (hm_remove p (jq_in_flight q)))" "p \<notin> set (jq_idle q)"
proof -
  have d: "distinct (jq_all q)" "mset (jq_all q) = mset (jq_idle q) + mset (hm_keys (jq_in_flight q))"
    using jq_invD [OF assms(1)] by simp_all
  then have both: "distinct (jq_idle q @ hm_keys (jq_in_flight q))" by (metis mset_append mset_eq_imp_distinct_iff)
  have p: "p \<in> set (hm_keys (jq_in_flight q))" using assms(2) by (auto simp: set_hm_keys)
  then show "p \<notin> set (jq_idle q)" using both by auto
  show keys: "mset (hm_keys (jq_in_flight q)) = add_mset p (mset (hm_keys (hm_remove p (jq_in_flight q))))"
    using both p by (simp add: keys_remove mset_filter_ne del: mset_filter)
  have "size (mset (hm_keys m)) = length m" for m :: "(pid, job) hmap" by (simp add: hm_keys_def)
  then show "length (jq_in_flight q) = Suc (length (hm_remove p (jq_in_flight q)))"
    using arg_cong [OF keys, of size] by simp
qed

lemma remove_subset: "(x, j) \<in> set (hm_remove p m) \<Longrightarrow> (x, j) \<in> set m"
  by (auto simp: hm_remove_def AList.delete_eq)

lemma job_result_ok:
  assumes "jq_ok (q, w)" "hm_contains p (jq_in_flight q)"
  shows "jq_ok (handle_job_result p outcome (q, w))"
proof -
  have inv: "jq_inv (q, w)" using assms(1) by (simp add: jq_ok_def)
  obtain j where j: "hm_get (jq_in_flight q) p = Some j" using assms(2) by (auto simp: hm_contains_def)
  have jr: "jb_retries j \<le> max_retries" using jq_invD(9) [OF inv map_of_SomeD [OF j]] .
  note r = in_flight_removed [OF inv j]
  let ?q = "q\<lparr> jq_in_flight := hm_remove p (jq_in_flight q), jq_idle := jq_idle q @ [p] \<rparr>"
  define w1 where "w1 = (case outcome of JobSuccess i d \<Rightarrow> report_stat (SCompleted i d) w
      | JobFailed i e \<Rightarrow> send_to_retry j (report_stat (SFailed i) w) | JobCrashed i \<Rightarrow> send_to_retry j (report_stat (SFailed i) w))"
  have stats: "rt_whereis ''stats'' (qw_rt w) \<noteq> None" by (rule jq_invD(4) [OF inv])
  have w1: "qw_dyn w1 = qw_dyn w" "told puts_on w1 = told puts_on w" "told takes_off w1 = told takes_off w + 1"
    using retry_effect(1-3) [OF jr] stats by (auto simp: w1_def told_report split: job_result.split)
  have out: "x \<in> set (qw_out w1) \<Longrightarrow> out_ok x" for x
    using retry_effect(4) [OF jr, of "report_stat _ w" x] stats report_ok [of x _ w] jq_invD(7) [OF inv, of x]
    by (auto simp: w1_def split: job_result.splits)
  have "jq_inv (?q, w1)"
    using jq_invD(1,2,3,5,6) [OF inv] jq_invD(8,9) [OF inv] r(1,2) stats out
    by (auto simp: jq_inv_def w1 dest: remove_subset)
  moreover have "handle_job_result p outcome (q, w) = dispatch_next (?q, w1)"
    by (cases outcome) (simp_all add: handle_job_result_def Let_def w1_def j)
  ultimately show ?thesis using dispatch_ok by simp
qed

section \<open>Starting and stopping workers\<close>

lemma monitor_keeps:
  "rt_names (snd (ctx_monitor me p s)) = rt_names s" "allocated (snd (ctx_monitor me p s)) = allocated s"
  by (auto simp: ctx_monitor_def Let_def split_def rt_new_ref_def rt_send_raw_def rt_handle_send_eq fun_eq_iff allocated_def rt_local_def
      split: option.split)

lemma exit_keeps:
  "rt_names (snd (ctx_exit me p reason s)) = rt_names s" "allocated (snd (ctx_exit me p reason s)) = allocated s"
  "rt_names (ctx_demonitor me r s) = rt_names s" "allocated (ctx_demonitor me r s) = allocated s"
  by (auto simp: ctx_exit_def ctx_demonitor_def Let_def rt_handle_send_eq fun_eq_iff allocated_def rt_local_def split: option.split)

lemma spawn_link_effect:
  assumes "rt_spawn_link parent s = (p, s1)" "ps_counter (rt_pids s) \<noteq> - 1"
  shows "rt_names s1 = rt_names s" "\<not> allocated s p" "allocated s1 p" "allocated s x \<Longrightarrow> allocated s1 x"
proof -
  have p: "p = fst (rt_spawn s)" and s1: "rt_names s1 = rt_names (snd (rt_spawn s))" "allocated s1 = allocated (snd (rt_spawn s))"
    using assms(1) by (auto simp: rt_spawn_link_def split_def Let_def fun_eq_iff allocated_def rt_local_def split: option.splits)
  show "rt_names s1 = rt_names s" unfolding s1 by (subst rt_spawn_eq) simp
  show "\<not> allocated s p" unfolding p by (subst rt_spawn_eq) (simp add: allocated_def)
  show "allocated s1 p" "allocated s x \<Longrightarrow> allocated s1 x"
    unfolding s1 p using rt_spawn_allocated [OF assms(2)] by auto
qed

lemma start_worker_effect:
  assumes "start_worker shown me super i w = (res, w1)" "ps_counter (rt_pids (qw_rt w)) \<noteq> - 1"
  shows "rt_names (qw_rt w1) = rt_names (qw_rt w) \<and> qw_out w1 = qw_out w \<and> (\<forall>x. allocated (qw_rt w) x \<longrightarrow> allocated (qw_rt w1) x) \<and>
    (\<forall>p. res = Inr p \<longrightarrow> \<not> allocated (qw_rt w) p \<and> allocated (qw_rt w1) p)"
proof -
  obtain p s1 where sp: "rt_spawn_link me (qw_rt w) = (p, s1)" by (metis prod.exhaust)
  obtain r s2 where mo: "ctx_monitor me p s1 = (r, s2)" by (metis prod.exhaust)
  have s2: "rt_names s2 = rt_names s1" "allocated s2 = allocated s1" using monitor_keeps [of me p s1] mo by simp_all
  show ?thesis
    using assms(1) spawn_link_effect [OF sp assms(2)]
    by (auto simp: start_worker_def dyn_start_child_def dyn_on_def do_start_child_def worker_spec_def child_spec_new_def
        child_spec_restart_def sp mo s2 split: option.splits sum.splits if_splits)
qed

lemma jq_inv_world:
  assumes "jq_inv (q, w)" "rt_names (qw_rt w1) = rt_names (qw_rt w)" "qw_out w1 = qw_out w"
    "\<And>p. allocated (qw_rt w) p \<Longrightarrow> allocated (qw_rt w1) p"
  shows "jq_inv (q, w1)"
proof -
  have "told f w1 = told f w" for f by (simp add: told_def assms(3))
  then show ?thesis using assms by (auto simp: jq_inv_def rt_whereis_def)
qed

lemma spawn_worker_ok:
  assumes "jq_ok (q, w)" "ps_counter (rt_pids (qw_rt w)) \<noteq> - 1"
  shows "jq_ok (spawn_worker shown me (q, w))"
proof -
  let ?w0 = "w\<lparr> qw_worker_id := qw_worker_id w + 1 \<rparr>"
  obtain res w1 where st: "start_worker shown me (jq_sup q) (qw_worker_id w) ?w0 = (res, w1)" by (metis prod.exhaust)
  have eff: "rt_names (qw_rt w1) = rt_names (qw_rt w)" "qw_out w1 = qw_out w" "\<And>x. allocated (qw_rt w) x \<Longrightarrow> allocated (qw_rt w1) x"
    "\<And>p. res = Inr p \<Longrightarrow> \<not> allocated (qw_rt w) p \<and> allocated (qw_rt w1) p"
    using start_worker_effect [OF st] assms(2) by auto
  have inv: "jq_inv (q, w)" using assms(1) by (simp add: jq_ok_def)
  show ?thesis
  proof (cases res)
    case (Inl e)
    then show ?thesis
      using st jq_inv_world [OF inv eff(1-3)] assms(1) by (simp add: spawn_worker_def jq_ok_def)
  next
    case (Inr p)
    let ?w2 = "w1\<lparr> qw_dyn := (qw_dyn w1)\<lparr> dw_rt := snd (ctx_monitor me p (qw_rt w1)) \<rparr> \<rparr>"
    let ?q = "q\<lparr> jq_all := jq_all q @ [p], jq_idle := jq_idle q @ [p] \<rparr>"
    have keep: "jq_inv (q, ?w2)" by (rule jq_inv_world [OF inv]) (simp_all add: eff monitor_keeps)
    have "p \<notin> set (jq_all q)" using eff(4) [OF Inr] jq_invD(3) [OF inv] by blast
    then have "jq_inv (?q, ?w2)" using keep eff(4) [OF Inr] by (auto simp: jq_inv_def monitor_keeps)
    then show ?thesis using st Inr dispatch_ok by (simp add: spawn_worker_def Let_def)
  qed
qed

lemma remove_idle_ok:
  assumes "jq_ok (q, w)"
  shows "jq_ok (remove_idle_worker me (q, w))"
proof (cases "jq_idle q = []")
  case True
  then show ?thesis using assms by (simp add: remove_idle_worker_def)
next
  case False
  let ?p = "List.last (jq_idle q)"
  have inv: "jq_inv (q, w)" and busy: "jq_busy q" using assms by (simp_all add: jq_ok_def)
  have "mset (jq_idle q) = add_mset ?p (mset (butlast (jq_idle q)))"
    using False by (metis append_butlast_last_id mset_append mset_single_iff union_mset_add_mset_right add.right_neutral mset.simps)
  then have "jq_inv (q\<lparr> jq_idle := butlast (jq_idle q), jq_all := filter (\<lambda>x. x \<noteq> ?p) (jq_all q) \<rparr>, w)"
    using inv by (auto simp: jq_inv_def mset_filter_ne simp del: mset_filter)
  then have "jq_inv (q\<lparr> jq_idle := butlast (jq_idle q), jq_all := filter (\<lambda>x. x \<noteq> ?p) (jq_all q) \<rparr>,
      w\<lparr> qw_dyn := snd (dyn_terminate_child me (jq_sup q) ?p (qw_dyn w)) \<rparr>)"
    by (rule jq_inv_world)
      (auto simp: dyn_terminate_child_def dyn_on_def do_terminate_child_def exit_keeps split_def Let_def split: option.splits)
  then show ?thesis using False busy by (simp add: remove_idle_worker_def jq_ok_def jq_busy_def Let_def)
qed

lemma down_ok:
  assumes "jq_ok (q, w)" "ps_counter (rt_pids (qw_rt w)) \<noteq> - 1"
  shows "jq_ok (queue_handle_raw_info shown me msg (q, w))"
proof (cases "\<exists>r p reason. msg = Some (Down r p reason) \<and> p \<in> set (jq_all q)")
  case False
  then show ?thesis using assms(1) by (auto simp: queue_handle_raw_info_def split: option.split system_message.split)
next
  case True
  then obtain r p reason where msg: "msg = Some (Down r p reason)" and p: "p \<in> set (jq_all q)" by blast
  have inv: "jq_inv (q, w)" and busy: "jq_busy q" using assms(1) by (simp_all add: jq_ok_def)
  let ?q = "q\<lparr> jq_all := filter (\<lambda>x. x \<noteq> p) (jq_all q), jq_idle := filter (\<lambda>x. x \<noteq> p) (jq_idle q),
      jq_in_flight := hm_remove p (jq_in_flight q) \<rparr>"
  define w1 where "w1 = (case hm_get (jq_in_flight q) p of None \<Rightarrow> w | Some j \<Rightarrow> send_to_retry j w)"
  have d: "distinct (jq_all q)" "mset (jq_all q) = mset (jq_idle q) + mset (hm_keys (jq_in_flight q))"
    using jq_invD [OF inv] by simp_all
  have m: "mset (jq_all ?q) = mset (jq_idle ?q) + mset (hm_keys (jq_in_flight ?q))"
    using d(2) by (simp add: keys_remove)
  have inv1: "jq_inv (?q, w1)"
  proof (cases "hm_get (jq_in_flight q) p")
    case None
    then have "hm_remove p (jq_in_flight q) = jq_in_flight q"
      by (simp add: hm_remove_def map_of_eq_None_iff)
    then show ?thesis using inv m None d(1) by (auto simp: jq_inv_def w1_def)
  next
    case (Some j)
    have jr: "jb_retries j \<le> max_retries" using jq_invD(9) [OF inv map_of_SomeD [OF Some]] .
    note eff = retry_effect [OF jr jq_invD(4) [OF inv]]
    have out: "x \<in> set (qw_out w1) \<Longrightarrow> out_ok x" for x
      using eff(4) [of x] jq_invD(7) [OF inv, of x] by (auto simp: w1_def Some)
    have w1: "qw_dyn w1 = qw_dyn w" "told puts_on w1 = told puts_on w" "told takes_off w1 = told takes_off w + 1"
      using eff(1-3) by (simp_all add: w1_def Some)
    show ?thesis
      using jq_invD(3,4,5,6) [OF inv] jq_invD(8,9) [OF inv] in_flight_removed(2) [OF inv Some] d(1) m out
      by (auto simp: jq_inv_def w1 dest: remove_subset)
  qed
  have "jq_ok (?q, w1)" using inv1 busy by (auto simp: jq_ok_def jq_busy_def)
  moreover have "ps_counter (rt_pids (qw_rt w1)) \<noteq> - 1"
  proof (cases "hm_get (jq_in_flight q) p")
    case (Some j)
    show ?thesis
      using retry_effect(1) [OF jq_invD(9) [OF inv map_of_SomeD [OF Some]] jq_invD(4) [OF inv]] assms(2) by (simp add: w1_def Some)
  qed (use assms(2) in \<open>simp add: w1_def\<close>)
  moreover have "queue_handle_raw_info shown me msg (q, w) = spawn_worker shown me (?q, w1)"
    using p by (simp add: queue_handle_raw_info_def msg w1_def Let_def)
  ultimately show ?thesis using spawn_worker_ok by simp
qed

section \<open>Runs\<close>

text \<open>A message of the queue: a worker reports on a job it has been given, and jobs come with at most three
  retries.  Between two messages other tasks use the runtime and the supervisors; \<open>stats\<close> stays registered and
  identifiers of processes are not given out twice.\<close>

definition cast_ok :: "queue_cast \<Rightarrow> job_queue \<Rightarrow> bool" where
  "cast_ok msg q =
    (case msg of
       QJobFinished p _ \<Rightarrow> hm_contains p (jq_in_flight q)
     | QEnqueue j \<Rightarrow> jb_retries j \<le> max_retries
     | QEnqueueBatch js \<Rightarrow> list_all (\<lambda>j. jb_retries j \<le> max_retries) js
     | _ \<Rightarrow> True)"

definition room_for :: "(send_error \<Rightarrow> string) \<Rightarrow> pid \<Rightarrow> nat \<Rightarrow> queue_world \<Rightarrow> bool" where
  "room_for shown me n w \<longleftrightarrow>
     list_all (\<lambda>k. case queue_init shown me k w of None \<Rightarrow> True | Some (_, w1) \<Rightarrow> ps_counter (rt_pids (qw_rt w1)) \<noteq> - 1) [0..<n]"

inductive queue_run :: "(send_error \<Rightarrow> string) \<Rightarrow> pid \<Rightarrow> job_queue \<times> queue_world \<Rightarrow> bool" for shown me where
  init: "queue_init shown me n w = Some x \<Longrightarrow> room_for shown me n w \<Longrightarrow> qw_out w = [] \<Longrightarrow>
    rt_whereis ''stats'' (qw_rt w) \<noteq> None \<Longrightarrow> queue_run shown me x"
| cast: "queue_run shown me (q, w) \<Longrightarrow> cast_ok msg q \<Longrightarrow> ps_counter (rt_pids (qw_rt w)) \<noteq> - 1 \<Longrightarrow>
    queue_run shown me (queue_handle_cast shown me msg (q, w))"
| raw: "queue_run shown me (q, w) \<Longrightarrow> ps_counter (rt_pids (qw_rt w)) \<noteq> - 1 \<Longrightarrow>
    queue_run shown me (queue_handle_raw_info shown me msg (q, w))"
| other: "queue_run shown me (q, w) \<Longrightarrow> rt_whereis ''stats'' (dw_rt d) \<noteq> None \<Longrightarrow>
    (\<forall>p. allocated (qw_rt w) p \<longrightarrow> allocated (dw_rt d) p) \<Longrightarrow> queue_run shown me (q, w\<lparr> qw_dyn := d, qw_worker_id := i \<rparr>)"

lemma enqueue_all_ok:
  "list_all (\<lambda>j. jb_retries j \<le> max_retries) js \<Longrightarrow> jq_ok x \<Longrightarrow> jq_ok (fold enqueue js x)"
proof (induction js arbitrary: x)
  case (Cons j js)
  obtain q w where "x = (q, w)" by (cases x)
  then show ?case using Cons enqueue_ok by simp
qed simp

lemma queue_init_ok:
  "queue_init shown me n w = Some x \<Longrightarrow> room_for shown me n w \<Longrightarrow> qw_out w = [] \<Longrightarrow>
    rt_whereis ''stats'' (qw_rt w) \<noteq> None \<Longrightarrow> jq_ok x"
proof (induction n arbitrary: x)
  case 0
  then show ?case
    by (auto simp: queue_init_def jq_ok_def jq_inv_def jq_busy_def told_def hm_keys_def split: option.splits)
next
  case (Suc n)
  obtain q1 w1 where init: "queue_init shown me n w = Some (q1, w1)"
    using Suc.prems(1) by (cases "queue_init shown me n w") (auto simp: queue_init_def split: option.splits)
  have "x = spawn_worker shown me (q1, w1)"
    using Suc.prems(1) init by (auto simp: queue_init_def split: option.splits)
  moreover have "room_for shown me n w" "ps_counter (rt_pids (qw_rt w1)) \<noteq> - 1"
    using Suc.prems(2) init by (simp_all add: room_for_def)
  ultimately show ?case using spawn_worker_ok Suc.IH [OF init] Suc.prems(3,4) by blast
qed

lemma queue_run_ok: "queue_run shown me x \<Longrightarrow> jq_ok x"
proof (induction rule: queue_run.induct)
  case (init n w x)
  then show ?case using queue_init_ok by blast
next
  case (cast q w msg)
  then show ?case
    using enqueue_ok enqueue_all_ok job_result_ok spawn_worker_ok remove_idle_ok
    by (cases msg) (auto simp: queue_handle_cast_def cast_ok_def)
next
  case (raw q w msg)
  then show ?case using down_ok by simp
next
  case (other q w d i)
  have inv: "jq_inv (q, w)" and busy: "jq_busy q" using other.IH by (simp_all add: jq_ok_def)
  have "told f (w\<lparr> qw_dyn := d, qw_worker_id := i \<rparr>) = told f w" for f by (simp add: told_def)
  then show ?case using inv busy other.hyps by (auto simp: jq_ok_def jq_inv_def)
qed

text \<open>C10. The books of the job queue balance.  After any run: every worker of the pool is listed once and is
  either idle or has exactly one job; no job waits while a worker is idle, and at most a hundred wait; the jobs
  reported as enqueued are those pending, in flight, completed, retried or dead; and what the queue
  hands on is a job with at most three retries to a worker, a retry after 1, 2 or 4 seconds, or a dead
  letter after the third retry.\<close>

theorem job_queue_ledger:
  assumes "queue_run shown me (q, w)"
  shows "distinct (jq_all q) \<and> mset (jq_all q) = mset (jq_idle q) + mset (hm_keys (jq_in_flight q)) \<and>
    (jq_pending q = [] \<or> jq_idle q = []) \<and> length (jq_pending q) \<le> 100 \<and>
    told puts_on w = length (jq_pending q) + length (jq_in_flight q) + told takes_off w \<and>
    (\<forall>x \<in> set (qw_out w). out_ok x)"
  using queue_run_ok [OF assms] by (simp add: jq_ok_def jq_inv_def jq_busy_def max_queue_depth_def)

text \<open>Process 3 is the queue, with two workers and three jobs; the worker of the second job reports a failure.\<close>

definition ex_jobs_pid :: "64 word \<Rightarrow> pid" where
  "ex_jobs_pid i = \<lparr> pid_node = [], pid_id = i, pid_creation = 0 \<rparr>"

definition ex_jobs_world :: queue_world where
  "ex_jobs_world =
    (let rt = ((\<lambda>s. snd (rt_spawn s)) ^^ 3) (runtime_new \<lparr> ps_this = None, ps_counter = 1, ps_creation = 0 \<rparr>);
         rt1 = fold (\<lambda>(n, i) s. snd (rt_register_name n (ex_jobs_pid i) s))
           [(''stats'', 1), (''dead_letter'', 2), (''job_queue'', 3), (''worker_sup'', 4)] rt
     in \<lparr> qw_dyn = snd (dyn_start dyn_opts_default \<lparr> dw_sups = [], dw_rt = rt1 \<rparr>), qw_worker_id = 1, qw_out = [] \<rparr>)"

definition ex_jobs_start :: "job_queue \<times> queue_world" where
  "ex_jobs_start = (case queue_init (\<lambda>_. []) (ex_jobs_pid 3) 2 ex_jobs_world of Some x \<Rightarrow> x
     | None \<Rightarrow> (\<lparr> jq_pending = [], jq_in_flight = [], jq_idle = [], jq_sup = ex_jobs_pid 4, jq_all = [] \<rparr>, ex_jobs_world))"

definition ex_jobs_given :: "job_queue \<times> queue_world" where
  "ex_jobs_given = queue_handle_cast (\<lambda>_. []) (ex_jobs_pid 3)
     (QEnqueueBatch [job_new 1 Resize ''a'', job_new 2 Compress ''b'', job_new 3 Resize ''c'']) ex_jobs_start"

definition ex_jobs_failed :: "job_queue \<times> queue_world" where
  "ex_jobs_failed = queue_handle_cast (\<lambda>_. []) (ex_jobs_pid 3) (QJobFinished (ex_jobs_pid 5) (JobFailed 2 ''no'')) ex_jobs_given"

lemma ex_jobs_run: "queue_run (\<lambda>_. []) (ex_jobs_pid 3) ex_jobs_failed"
proof -
  have "rt_whereis ''worker_sup'' (qw_rt ex_jobs_world) = Some (ex_jobs_pid 4)" by code_simp
  then have "queue_init (\<lambda>_. []) (ex_jobs_pid 3) 2 ex_jobs_world \<noteq> None" by (simp add: queue_init_def)
  then have start: "queue_init (\<lambda>_. []) (ex_jobs_pid 3) 2 ex_jobs_world = Some ex_jobs_start"
    by (auto simp: ex_jobs_start_def)
  have "room_for (\<lambda>_. []) (ex_jobs_pid 3) 2 ex_jobs_world" by code_simp
  moreover have "qw_out ex_jobs_world = []" by code_simp
  moreover have "rt_whereis ''stats'' (qw_rt ex_jobs_world) \<noteq> None" by code_simp
  ultimately have r0: "queue_run (\<lambda>_. []) (ex_jobs_pid 3) ex_jobs_start" by (rule queue_run.init [OF start])
  obtain q0 w0 where s0: "ex_jobs_start = (q0, w0)" by (cases ex_jobs_start)
  have "ps_counter (rt_pids (qw_rt (snd ex_jobs_start))) \<noteq> - 1" by code_simp
  then have r1: "queue_run (\<lambda>_. []) (ex_jobs_pid 3) ex_jobs_given"
    using queue_run.cast [OF r0 [unfolded s0]] unfolding ex_jobs_given_def s0
    by (simp add: cast_ok_def job_new_def max_retries_def)
  obtain q1 w1 where s1: "ex_jobs_given = (q1, w1)" by (cases ex_jobs_given)
  have "ps_counter (rt_pids (qw_rt (snd ex_jobs_given))) \<noteq> - 1" "hm_contains (ex_jobs_pid 5) (jq_in_flight (fst ex_jobs_given))"
    by code_simp+
  then show ?thesis
    using queue_run.cast [OF r1 [unfolded s1]] unfolding ex_jobs_failed_def s1 by (simp add: cast_ok_def)
qed

theorem job_queue_ledger_witness:
  "length (jq_pending (fst ex_jobs_failed)) + length (jq_in_flight (fst ex_jobs_failed)) + told takes_off (snd ex_jobs_failed) = 3 \<and>
   length (jq_in_flight (fst ex_jobs_failed)) = 2"
proof -
  obtain q w where s: "ex_jobs_failed = (q, w)" by (cases ex_jobs_failed)
  have "told puts_on (snd ex_jobs_failed) = 3" "length (jq_in_flight (fst ex_jobs_failed)) = 2" by code_simp+
  then show ?thesis using job_queue_ledger [OF ex_jobs_run [unfolded s]] by (simp add: s)
qed

section \<open>Retries\<close>

text \<open>What the format documents of a message whose first byte is zero: \<open>Enqueue\<close> is the first variant of the
  casts of the queue, an envelope would have an empty tag, \<open>Call\<close> is the first variant of the protocol
  messages and \<open>Exit\<close> of the system messages.\<close>

definition zero_variants :: "gs_wire \<Rightarrow> (queue_cast \<Rightarrow> byte list) \<Rightarrow> (payload \<Rightarrow> system_message option) \<Rightarrow> bool" where
  "zero_variants W enc unsys \<longleftrightarrow>
     (\<forall>j. \<exists>bs. enc (QEnqueue j) = 0 # bs) \<and>
     (\<forall>bs tag x. gw_untagged W (PData (0 # bs)) = Some (tag, x) \<longrightarrow> tag = []) \<and>
     (\<forall>bs m. gw_unmessage W (PData (0 # bs)) = Some m \<longrightarrow> (\<exists>f x. m = GsCall f x)) \<and>
     (\<forall>bs m. unsys (PData (0 # bs)) = Some m \<longrightarrow> (\<exists>p r. m = Exit p r))"

lemma raw_enqueue_ignored:
  assumes "zero_variants W enc unsys"
  shows "gs_handle W (queue_callbacks dec_call dec unsys enc_status shown shown_dec debug me) me (Some (PData (enc (QEnqueue j)))) s v = (None, s, v)"
proof -
  obtain bs where bs: "enc (QEnqueue j) = 0 # bs" using assms unfolding zero_variants_def by blast
  have tag: "gw_untagged W (PData (0 # bs)) = Some (tag, x) \<Longrightarrow> tag = []" for tag x
    using assms unfolding zero_variants_def by blast
  have msg: "gw_unmessage W (PData (0 # bs)) = Some m \<Longrightarrow> \<exists>f x. m = GsCall f x" for m
    using assms unfolding zero_variants_def by blast
  have sys: "unsys (PData (0 # bs)) = Some m \<Longrightarrow> \<exists>p r. m = Exit p r" for m
    using assms unfolding zero_variants_def by blast
  have no: "decode_gen_call_envelope W (PData (0 # bs)) = None" "decode_gen_cast_envelope W (PData (0 # bs)) = None"
    using tag by (auto simp: decode_gen_call_envelope_def decode_gen_cast_envelope_def gen_call_tag_def gen_cast_tag_def split: option.split)
  obtain q sups i out where s: "s = (q, sups, i, out)" by (cases s)
  have raw: "on_queue (queue_handle_raw_info shown me (unsys (PData (0 # bs)))) (s, gsw_rt v) = (s, gsw_rt v)"
    using sys by (auto simp: s on_queue_def queue_handle_raw_info_def split: option.split system_message.split)
  show ?thesis
  proof (cases "gw_unmessage W (PData (0 # bs))")
    case None
    then show ?thesis using raw
      by (simp add: bs gs_handle_def no gs_info_def queue_callbacks_def gs_status_step_def handle_status_def gs_leave_def)
  next
    case (Some m)
    then show ?thesis using msg [OF Some] by (auto simp: bs gs_handle_def no gs_protocol_def queue_callbacks_def)
  qed
qed

lemma dispatch_keeps_out: "set (qw_out (snd x)) \<subseteq> set (qw_out (snd (dispatch_next x)))"
proof (induction x rule: dispatch_next.induct)
  case (1 q w)
  show ?case
    by (subst dispatch_next.simps) (use 1 in \<open>auto simp: Let_def split: list.split\<close>)
qed

text \<open>C40. A retried job is lost.  When a job fails for the first to the third time a timer is set that
  sends its bytes to the queue, but without the envelope of a cast: whenever they arrive, the queue takes
  them for something else and changes nothing.\<close>

theorem job_retry_lost:
  assumes "zero_variants W enc unsys" "hm_get (jq_in_flight q) p = Some j" "jb_retries j < max_retries"
    and "rt_whereis ''job_queue'' (qw_rt w) = Some k" "again = j\<lparr> jb_retries := jb_retries j + 1 \<rparr>"
  shows "SendAfter (secs (2 ^ unat (jb_retries j))) k (QEnqueue again) \<in>
      set (qw_out (snd (handle_job_result p (JobFailed i e) (q, w)))) \<and>
    gs_handle W (queue_callbacks dec_call dec unsys enc_status shown shown_dec debug me) me (Some (PData (enc (QEnqueue again)))) s v =
      (None, s, v)"
proof
  have "\<not> max_retries < jb_retries j + 1" using assms(3) unfolding max_retries_def by unat_arith
  then have "SendAfter (secs (2 ^ unat (jb_retries j))) k (QEnqueue again) \<in> set (qw_out (send_to_retry j (report_stat (SFailed i) w)))"
    using assms(4) by (simp add: send_to_retry_def Let_def assms(5))
  then show "SendAfter (secs (2 ^ unat (jb_retries j))) k (QEnqueue again) \<in>
      set (qw_out (snd (handle_job_result p (JobFailed i e) (q, w))))"
    using dispatch_keeps_out by (simp add: handle_job_result_def Let_def assms(2)) fastforce
  show "gs_handle W (queue_callbacks dec_call dec unsys enc_status shown shown_dec debug me) me (Some (PData (enc (QEnqueue again)))) s v =
      (None, s, v)"
    by (rule raw_enqueue_ignored [OF assms(1)])
qed

text \<open>The first job of the run above fails; a format in which messages are their variants.\<close>

definition ex_jobs_enc :: "queue_cast \<Rightarrow> byte list" where
  "ex_jobs_enc msg = (case msg of QEnqueue j \<Rightarrow> 0 # map of_char (jb_filename j) | _ \<Rightarrow> [1])"

definition ex_jobs_unsys :: "payload \<Rightarrow> system_message option" where
  "ex_jobs_unsys raw = (case raw of PSystem m \<Rightarrow> Some m | PData bs \<Rightarrow> if take 1 bs = [0] then Some (Exit (ex_jobs_pid 0) Normal) else None)"

lemma ex_jobs_zero: "zero_variants ex_postcard ex_jobs_enc ex_jobs_unsys"
  by (auto simp: zero_variants_def ex_postcard_def ex_jobs_enc_def ex_jobs_unsys_def split: if_splits prod.splits list.splits option.splits)

theorem job_retry_lost_witness:
  "SendAfter (secs 1) (ex_jobs_pid 3) (QEnqueue ((job_new 1 Resize ''a'')\<lparr> jb_retries := 1 \<rparr>)) \<in>
     set (qw_out (snd (handle_job_result (ex_jobs_pid 6) (JobFailed 1 ''no'') ex_jobs_given)))"
proof -
  obtain q w where s: "ex_jobs_given = (q, w)" by (cases ex_jobs_given)
  have "hm_get (jq_in_flight (fst ex_jobs_given)) (ex_jobs_pid 6) = Some (job_new 1 Resize ''a'')"
    "rt_whereis ''job_queue'' (qw_rt (snd ex_jobs_given)) = Some (ex_jobs_pid 3)" by code_simp+
  then show ?thesis
    using conjunct1 [OF job_retry_lost [OF ex_jobs_zero, of q "ex_jobs_pid 6" "job_new 1 Resize ''a''" w "ex_jobs_pid 3" _ 1 "''no''"]]
    by (simp add: s job_new_def max_retries_def)
qed

section \<open>Crashes\<close>

text \<open>A worker that panics is neither replaced nor is its job recovered: the queue and every other process
  are as they were, so the job stays in flight.\<close>

lemma crashed_worker_unnoticed:
  assumes "p \<noteq> me"
  shows "fst (worker_handle_cast me k d True f j w) = None \<and>
    rt_get (qw_rt (snd (worker_handle_cast me k d True f j w))) p = rt_get (qw_rt w) p \<and>
    rt_alive me (qw_rt (snd (worker_handle_cast me k d True f j w))) = rt_alive me (qw_rt w)"
  using assms by (simp add: worker_handle_cast_def process_job_def rt_task_panic_def rt_alive_def handle_is_alive_def split: option.split)

section \<open>Statistics\<close>

text \<open>The log of the dashboard keeps the last hundred entries.\<close>

declare push_activity_loop.simps [simp del]

lemma push_activity_loop_eq: "push_activity_loop es = drop (length es - 100) es"
proof (induction es rule: push_activity_loop.induct)
  case (1 es)
  show ?case
  proof (cases "length es > 100")
    case True
    have "push_activity_loop es = push_activity_loop (tl es)" using True by (subst push_activity_loop.simps) simp
    also have "\<dots> = drop (length (tl es) - 100) (tl es)" by (rule 1 [OF True])
    also have "\<dots> = drop (length es - 100) es" using True Suc_diff_le [of 101 "length es"] by (simp add: drop_Suc [symmetric])
    finally show ?thesis .
  next
    case False
    then show ?thesis by (subst push_activity_loop.simps) simp
  qed
qed

lemma activity_bounded:
  assumes "length (st_activity s) \<le> 100"
  shows "length (st_activity (stats_handle_cast now msg s)) \<le> 100"
  using assms by (cases msg) (simp_all add: stats_handle_cast_def push_activity_def push_activity_loop_eq)

lemma stats_follow_queue:
  "st_enqueued (stats_handle_cast now msg s) = st_enqueued s + (if puts_on msg then 1 else 0)"
  by (cases msg) (simp_all add: stats_handle_cast_def push_activity_def)

end
