(* ===== verification/Chat.thy ===== *)
theory Chat
  imports Channel Global DynSup Decimal Codec
begin

text \<open>
  The chat server of the examples (\<open>examples/chat/src\<close>): the protocol with its frames (\<open>protocol.rs\<close>), the
  registry of rooms (\<open>registry.rs\<close>), rooms and their supervisor (\<open>room.rs\<close>, \<open>room_supervisor.rs\<close>), the channels of
  rooms and of the lobby (\<open>channel.rs\<close>, \<open>lobby.rs\<close>) and the session of a client (\<open>session.rs\<close>), on the model of
  channels.
\<close>

section \<open>Protocol\<close>

datatype client_command =
    CNick string | CJoin string | CLeave string | CMsg string string | CListRooms | CListUsers string | CQuit

record history_message =
  hm_from :: string
  hm_text :: string
  hm_timestamp :: "64 word"

record room_info =
  ri_name :: string
  ri_user_count :: nat

datatype server_event =
    EvWelcome string | EvNickOk string | EvNickError string | EvJoined string | EvJoinError string string | EvLeft string
  | EvMessage string string string | EvUserJoined string string | EvUserLeft string string | EvRoomList "room_info list"
  | EvUserList string "string list" | EvHistory string "history_message list" | EvError string | EvShutdown

text \<open>A frame is the length of the payload in four bytes and the payload; the codec is the library's.\<close>

definition chat_frame :: "('m \<Rightarrow> byte list) \<Rightarrow> 'm \<Rightarrow> byte list" where
  "chat_frame enc m = be32 (word_of_nat (length (enc m))) @ enc m"

definition chat_parse_frame :: "(byte list \<Rightarrow> 'm option) \<Rightarrow> byte list \<Rightarrow> ('m \<times> nat) option" where
  "chat_parse_frame dec buf =
    (if length buf < 4 then None
     else (let len = unat (of_be32 (buf ! 0) (buf ! 1) (buf ! 2) (buf ! 3)) in
       if length buf < 4 + len then None
       else (case dec (take len (drop 4 buf)) of None \<Rightarrow> None | Some m \<Rightarrow> Some (m, 4 + len))))"

section \<open>Rooms\<close>

definition max_history :: nat where "max_history = 50"

record room =
  rm_name :: string
  rm_history :: "history_message list"

definition room_init :: "string \<Rightarrow> room" where
  "room_init name = \<lparr> rm_name = name, rm_history = [] \<rparr>"

function trim_history :: "history_message list \<Rightarrow> history_message list" where
  "trim_history h = (if length h > max_history then trim_history (tl h) else h)"
  by pat_completeness auto
termination
  by (relation "measure length") (auto simp: max_history_def)

definition room_store_message :: "64 word \<Rightarrow> string \<Rightarrow> string \<Rightarrow> room \<Rightarrow> room" where
  "room_store_message now origin text r =
    r\<lparr> rm_history := trim_history (rm_history r @ [\<lparr> hm_from = origin, hm_text = text, hm_timestamp = now \<rparr>]) \<rparr>"

definition room_get_history :: "room \<Rightarrow> history_message list" where
  "room_get_history r = rm_history r"

section \<open>The registry of rooms\<close>

type_synonym chat_registry = "(string, pid) hmap"

definition room_global_name :: "string \<Rightarrow> string" where
  "room_global_name name = ''room:'' @ name"

definition registry_get_room :: "global_names \<Rightarrow> string \<Rightarrow> chat_registry \<Rightarrow> pid option \<times> chat_registry" where
  "registry_get_room names name rooms =
    (case hm_get rooms name of
       Some p \<Rightarrow> (Some p, rooms)
     | None \<Rightarrow>
        (case global_whereis (room_global_name name) names of
           Some p \<Rightarrow> (Some p, hm_insert name p rooms)
         | None \<Rightarrow> (None, rooms)))"

definition registry_list_rooms :: "global_names \<Rightarrow> room_info list" where
  "registry_list_rooms names =
    map (\<lambda>n. \<lparr> ri_name = n, ri_user_count = 0 \<rparr>) (List.map_filter (str_strip_prefix ''room:'') (global_registered names))"

section \<open>The supervisor of rooms\<close>

record room_super =
  rs_pid :: "pid option"
  rs_dyn :: dyn_world
  rs_names :: global_names
  rs_conn :: "node list"
  rs_out :: global_out

text \<open>Started a second time, the new supervisor runs on although the start fails.\<close>

definition room_super_start :: "room_super \<Rightarrow> (string + pid) \<times> room_super" where
  "room_super_start s =
    (let (p, d) = dyn_start (dyn_opts_max_seconds 5 (dyn_opts_max_restarts 10 dyn_opts_default)) (rs_dyn s) in
     case rs_pid s of
       Some _ \<Rightarrow> (Inl ''already started'', s\<lparr> rs_dyn := d \<rparr>)
     | None \<Rightarrow> (Inr p, s\<lparr> rs_pid := Some p, rs_dyn := d \<rparr>))"

text \<open>A room is a server that is not linked to anyone; its \<open>init\<close> always succeeds.\<close>

definition room_spec :: "string \<Rightarrow> runtime child_spec" where
  "room_spec name = child_spec_restart Transient
    (child_spec_new (''room:'' @ name) (\<lambda>rt. let (p, rt1) = rt_spawn rt in (Inr p, rt1)))"

definition start_room :: "(send_error \<Rightarrow> string) \<Rightarrow> pid \<Rightarrow> string \<Rightarrow> room_super \<Rightarrow> (start_child_error + pid) \<times> room_super" where
  "start_room shown me name s =
    (case rs_pid s of
       None \<Rightarrow> (Inl (ChildStartFailed ''room supervisor not started''), s)
     | Some super \<Rightarrow>
        (let (res, d) = dyn_start_child shown me super (room_spec name) (rs_dyn s) in (res, s\<lparr> rs_dyn := d \<rparr>)))"

definition terminate_room :: "pid \<Rightarrow> pid \<Rightarrow> room_super \<Rightarrow> (string + unit) \<times> room_super" where
  "terminate_room me p s =
    (case rs_pid s of
       None \<Rightarrow> (Inl ''room supervisor not started'', s)
     | Some super \<Rightarrow> (let (res, d) = dyn_terminate_child me super p (rs_dyn s) in (res, s\<lparr> rs_dyn := d \<rparr>)))"

definition get_room :: "string \<Rightarrow> room_super \<Rightarrow> pid option" where
  "get_room name s = global_whereis (room_global_name name) (rs_names s)"

definition get_or_create_room :: "(send_error \<Rightarrow> string) \<Rightarrow> pid \<Rightarrow> string \<Rightarrow> room_super \<Rightarrow> (start_child_error + pid) \<times> room_super" where
  "get_or_create_room shown me name s =
    (case global_whereis (room_global_name name) (rs_names s) of
       Some p \<Rightarrow> (Inr p, s)
     | None \<Rightarrow>
        (case start_room shown me name s of
           (Inl e, s1) \<Rightarrow> (Inl e, s1)
         | (Inr p, s1) \<Rightarrow>
            (let (registered, names, out) = global_register (rs_conn s1) (room_global_name name) p (rs_names s1);
                 s2 = s1\<lparr> rs_names := names, rs_out := rs_out s1 @ out \<rparr> in
             if registered then (Inr p, s2)
             else
              (case global_whereis (room_global_name name) (rs_names s2) of
                 Some q \<Rightarrow> (Inr q, snd (terminate_room me p s2))
               | None \<Rightarrow> (Inr p, s2)))))"

section \<open>The channel of a room\<close>

datatype room_in = NewMsg string | UpdateNick string
datatype room_out = MessageBroadcast string string | NickError string

datatype room_event =
    ReUserJoined string | ReUserLeft string | ReMessage string string | RePresenceState "string list"
  | RePresenceSyncRequest string | RePresenceSyncResponse string | ReHistory "history_message list"

datatype chat_channel_info = AfterJoin | PushPresenceState | PresenceSyncRequest string

record user_meta =
  um_nick :: string
  um_status :: string

record room_channel =
  rc_nick :: string
  rc_room :: string

datatype presence_note = PnDelta "(user_meta option \<times> pid) list" "(user_meta option \<times> pid) list" | PnOther

text \<open>What a channel and a session ask of the other servers and of the libraries.  The operations act on the
  world of the channels: creating and finding rooms, calling a room for its history, presence and its
  listing, subscriptions, and a task that sends something later.\<close>

record chat_env =
  ce_create :: "string \<Rightarrow> chan_world \<Rightarrow> chan_world"
  ce_room :: "string \<Rightarrow> chan_world \<Rightarrow> pid option"
  ce_history :: "pid \<Rightarrow> chan_world \<Rightarrow> history_message list option \<times> chan_world"
  ce_store :: "pid \<Rightarrow> string \<Rightarrow> string \<Rightarrow> chan_world \<Rightarrow> chan_world"
  ce_rooms :: "chan_world \<Rightarrow> room_info list \<times> chan_world"
  ce_track :: "string \<Rightarrow> string \<Rightarrow> pid \<Rightarrow> user_meta \<Rightarrow> chan_world \<Rightarrow> chan_world"
  ce_untrack :: "string \<Rightarrow> string \<Rightarrow> pid \<Rightarrow> chan_world \<Rightarrow> chan_world"
  ce_metas :: "string \<Rightarrow> chan_world \<Rightarrow> user_meta option list \<times> chan_world"
  ce_subscribe :: "string \<Rightarrow> pid \<Rightarrow> chan_world \<Rightarrow> chan_world"
  ce_unsubscribe :: "string \<Rightarrow> pid \<Rightarrow> chan_world \<Rightarrow> chan_world"
  ce_later :: "pid \<Rightarrow> byte list \<Rightarrow> chan_world \<Rightarrow> chan_world"
  ce_wire :: chan_wire
  ce_json_event :: "room_event \<Rightarrow> byte list option"
  ce_json_out :: "room_out \<Rightarrow> byte list option"
  ce_out :: "room_out \<Rightarrow> byte list option"
  ce_json_text :: "byte list \<Rightarrow> string option"
  ce_json_nick :: "byte list \<Rightarrow> string option"
  ce_json_in :: "byte list \<Rightarrow> room_in option"
  ce_in :: "byte list \<Rightarrow> room_in option"
  ce_info :: "chat_channel_info \<Rightarrow> byte list"
  ce_uninfo :: "byte list \<Rightarrow> chat_channel_info option"
  ce_event :: "byte list \<Rightarrow> room_event option"
  ce_presence :: "payload \<Rightarrow> presence_note option"

text \<open>The tag of \<open>ChannelInfo\<close>, and the text of a process identifier.\<close>

definition info_tag :: "byte list" where
  "info_tag = map of_char ''ChannelInfo''"

definition pid_text :: "node_identity option \<Rightarrow> pid \<Rightarrow> string" where
  "pid_text this p =
    (if pid_is_local this p then ''<0.'' else ''<'' @ pid_node p @ ''.'') @
    digits_of (unat (pid_id p)) @ ''.'' @ digits_of (unat (pid_creation p)) @ ''>''"

definition presence_key :: "pid \<Rightarrow> chan_world \<Rightarrow> string" where
  "presence_key p w = ''user:'' @ pid_text (world_this w) p"

definition room_join :: "chat_env \<Rightarrow> string \<Rightarrow> string \<Rightarrow> socket \<Rightarrow> chan_world \<Rightarrow> room_channel join_result \<times> chan_world" where
  "room_join E topic nick socket w =
    (case str_strip_prefix ''room:'' topic of
       None \<Rightarrow> (JoinedError (join_error_new ''invalid room topic''), w)
     | Some name \<Rightarrow>
        if name = [] then (JoinedError (join_error_new ''invalid room topic''), w)
        else if nick = [] \<or> 32 < length nick then (JoinedError (join_error_new ''nickname must be 1-32 characters''), w)
        else
         (let p = so_pid socket;
              w1 = ce_create E name w;
              w2 = ce_track E topic (presence_key p w1) p \<lparr> um_nick = nick, um_status = ''online'' \<rparr> w1;
              w3 = ce_subscribe E (''presence:'' @ topic) p w2;
              w4 = world_send (encode_with_tag info_tag (ce_info E AfterJoin)) p w3
          in (JoinedOk \<lparr> rc_nick = nick, rc_room = name \<rparr>, w4)))"

definition room_handle_in :: "room_in \<Rightarrow> room_channel \<Rightarrow> room_out handle_result \<times> room_channel" where
  "room_handle_in msg c =
    (case msg of
       NewMsg text \<Rightarrow> (HrBroadcast ''new_msg'' (MessageBroadcast (rc_nick c) text), c)
     | UpdateNick nick \<Rightarrow>
        if nick = [] \<or> 32 < length nick
        then (HrReply RsError (NickError ''nickname must be 1-32 characters''), c)
        else (HrNoReply, c\<lparr> rc_nick := nick \<rparr>))"

text \<open>The event names the message; otherwise the payload is tried as the message itself.\<close>

definition room_decode_in :: "chat_env \<Rightarrow> string \<Rightarrow> byte list \<Rightarrow> room_in option" where
  "room_decode_in E event payload =
    (let whole = (case ce_json_in E payload of Some m \<Rightarrow> Some m | None \<Rightarrow> ce_in E payload) in
     if event = ''new_msg'' then (case ce_json_text E payload of Some t \<Rightarrow> Some (NewMsg t) | None \<Rightarrow> whole)
     else if event = ''update_nick'' then (case ce_json_nick E payload of Some n \<Rightarrow> Some (UpdateNick n) | None \<Rightarrow> whole)
     else whole)"

definition room_handle_in_raw :: "chat_env \<Rightarrow> string \<Rightarrow> byte list \<Rightarrow> socket \<Rightarrow> room_channel \<times> chan_world \<Rightarrow>
    raw_result \<times> room_channel \<times> chan_world" where
  "room_handle_in_raw E event payload socket = (\<lambda>(c, w).
    (case room_decode_in E event payload of
       None \<Rightarrow> (RawNoReply, c, w)
     | Some msg \<Rightarrow> (let (res, c1) = room_handle_in msg c in (handle_result_to_raw_json (ce_json_out E) res, c1, w))))"

definition push_event :: "chat_env \<Rightarrow> socket \<Rightarrow> string \<Rightarrow> room_event \<Rightarrow> chan_world \<Rightarrow> chan_world" where
  "push_event E socket event ev w = chan_push_json (ce_wire E) (ce_json_event E) socket event ev w"

definition announce :: "chat_env \<Rightarrow> socket \<Rightarrow> string \<Rightarrow> room_event \<Rightarrow> chan_world \<Rightarrow> chan_world" where
  "announce E socket event ev w = chan_broadcast_from_json (ce_wire E) (ce_json_event E) socket event ev w"

definition presence_users :: "chat_env \<Rightarrow> string \<Rightarrow> chan_world \<Rightarrow> string list \<times> chan_world" where
  "presence_users E topic w = (let (metas, w1) = ce_metas E topic w in (List.map_filter (map_option um_nick) metas, w1))"

definition room_handle_info :: "chat_env \<Rightarrow> chat_channel_info \<Rightarrow> socket \<Rightarrow> room_channel \<times> chan_world \<Rightarrow>
    room_out handle_result \<times> room_channel \<times> chan_world" where
  "room_handle_info E msg socket = (\<lambda>(c, w).
    (case msg of
       AfterJoin \<Rightarrow>
         (let w1 = announce E socket ''user_joined'' (ReUserJoined (rc_nick c)) w;
              w2 = (case ce_room E (rc_room c) w1 of
                      None \<Rightarrow> w1
                    | Some p \<Rightarrow>
                       (case ce_history E p w1 of
                          (Some (m # ms), w') \<Rightarrow> push_event E socket ''history'' (ReHistory (m # ms)) w'
                        | (_, w') \<Rightarrow> w'))
          in (HrNoReply, c, ce_later E (so_pid socket) (ce_info E PushPresenceState) w2))
     | PushPresenceState \<Rightarrow>
         (let (users, w1) = presence_users E (''room:'' @ rc_room c) w;
              all = (if rc_nick c \<in> set users then users else users @ [rc_nick c])
          in (HrNoReply, c, push_event E socket ''presence_state'' (RePresenceState all) w1))
     | PresenceSyncRequest _ \<Rightarrow>
         (HrNoReply, c, announce E socket ''presence_sync_response'' (RePresenceSyncResponse (rc_nick c)) w)))"

text \<open>The changes of the presence of others, told to the client.\<close>

definition tell_changes :: "chat_env \<Rightarrow> socket \<Rightarrow> string \<Rightarrow> (string \<Rightarrow> room_event) \<Rightarrow> (user_meta option \<times> pid) list \<Rightarrow> chan_world \<Rightarrow> chan_world" where
  "tell_changes E socket event ev metas w =
    fold (\<lambda>(meta, p) w. case meta of
        Some m \<Rightarrow> if p \<noteq> so_pid socket then push_event E socket event (ev (um_nick m)) w else w
      | None \<Rightarrow> w) metas w"

definition decode_info :: "chat_env \<Rightarrow> payload \<Rightarrow> chat_channel_info option" where
  "decode_info E msg =
    (case msg of
       PSystem _ \<Rightarrow> None
     | PData bytes \<Rightarrow>
        (case decode_tag bytes of
           Inl _ \<Rightarrow> None
         | Inr (tag, payload) \<Rightarrow> if tag = info_tag then ce_uninfo E payload else None))"

definition room_handle_info_raw :: "chat_env \<Rightarrow> payload \<Rightarrow> socket \<Rightarrow> room_channel \<times> chan_world \<Rightarrow>
    raw_result \<times> room_channel \<times> chan_world" where
  "room_handle_info_raw E msg socket = (\<lambda>(c, w).
    (case decode_info E msg of
       Some info \<Rightarrow> (let (res, c1, w1) = room_handle_info E info socket (c, w) in (handle_result_to_raw (ce_out E) res, c1, w1))
     | None \<Rightarrow>
        (let w1 = (case cy_unreply (ce_wire E) msg of
               Some (ChPush _ _ payload) \<Rightarrow>
                 (case ce_event E payload of
                    Some (RePresenceSyncRequest origin) \<Rightarrow> world_send (ce_info E (PresenceSyncRequest origin)) (so_pid socket) w
                  | _ \<Rightarrow> w)
             | _ \<Rightarrow> w);
             w2 = (case ce_presence E msg of
               Some (PnDelta joins leaves) \<Rightarrow>
                 tell_changes E socket ''user_left'' ReUserLeft leaves (tell_changes E socket ''user_joined'' ReUserJoined joins w1)
             | _ \<Rightarrow> w1)
         in (RawNoReply, c, w2))))"

definition room_terminate :: "chat_env \<Rightarrow> terminate_reason \<Rightarrow> socket \<Rightarrow> room_channel \<times> chan_world \<Rightarrow> room_channel \<times> chan_world" where
  "room_terminate E reason socket = (\<lambda>(c, w).
    (let p = so_pid socket; topic = ''room:'' @ rc_room c;
         w1 = announce E socket ''user_left'' (ReUserLeft (rc_nick c)) w;
         w2 = ce_untrack E topic (presence_key p w1) p w1
     in (c, ce_unsubscribe E (''presence:'' @ topic) p w2)))"

text \<open>The handler of rooms; \<open>dec_join\<close> is the decoder of the payload of a join.\<close>

definition room_handler :: "chat_env \<Rightarrow> (byte list \<Rightarrow> decode_error + string) \<Rightarrow> (decode_error \<Rightarrow> string) \<Rightarrow> room_channel channel_handler" where
  "room_handler E dec_join shown =
    (typed_channel_handler \<lparr> ch_pattern = ''room:*'', ch_intercept = [], ch_dec_join = dec_join,
       ch_dec_in = (\<lambda>bs. case ce_in E bs of Some m \<Rightarrow> Inr m | None \<Rightarrow> Inl (InvalidData [])),
       ch_dec_info = (\<lambda>p. case decode_info E p of Some m \<Rightarrow> Inr m | None \<Rightarrow> Inl (InvalidData [])),
       ch_enc_out = ce_out E, ch_shown = shown, ch_join = room_join E,
       ch_in = (\<lambda>_ m _ (c, w). let (res, c1) = room_handle_in m c in (res, c1, w)),
       ch_info = room_handle_info E, ch_out = (\<lambda>_ _ _ x. (OutSend, x)), ch_terminate = room_terminate E \<rparr>)
     \<lparr> hd_event := room_handle_in_raw E, hd_info := room_handle_info_raw E \<rparr>"

section \<open>The channel of the lobby\<close>

definition lobby_join :: "string \<Rightarrow> string option \<Rightarrow> socket \<Rightarrow> chan_world \<Rightarrow> string option join_result \<times> chan_world" where
  "lobby_join topic nick socket w = (JoinedOk nick, w)"

definition lobby_handle_in :: "chat_env \<Rightarrow> string \<Rightarrow> unit \<Rightarrow> socket \<Rightarrow> string option \<times> chan_world \<Rightarrow>
    room_info list handle_result \<times> string option \<times> chan_world" where
  "lobby_handle_in E event msg socket = (\<lambda>(c, w). let (rooms, w1) = ce_rooms E w in (HrReply RsOk rooms, c, w1))"


section \<open>Sessions\<close>

text \<open>What a session has sent to its client is kept in order; the results of sending are ignored, except for
  the welcome.\<close>

record session =
  se_pending :: "byte list"
  se_nick :: "string option"
  se_channels :: "room_channel channel_server"
  se_sent :: "server_event list"
  se_closed :: bool

definition session_new :: "room_channel channel_handler \<Rightarrow> pid \<Rightarrow> session" where
  "session_new h p = \<lparr> se_pending = [], se_nick = None,
     se_channels = server_builder_build p [h], se_sent = [], se_closed = False \<rparr>"

definition send_event :: "server_event \<Rightarrow> session \<Rightarrow> session" where
  "send_event ev s = s\<lparr> se_sent := se_sent s @ [ev] \<rparr>"

definition session_nick :: "string \<Rightarrow> session \<Rightarrow> session" where
  "session_nick nick s =
    (if nick = [] \<or> 32 < length nick then send_event (EvNickError ''Nickname must be 1-32 characters'') s
     else send_event (EvNickOk nick) (s\<lparr> se_nick := Some nick \<rparr>))"

text \<open>\<open>enc_join\<close> is the encoder of the payload of a join.\<close>

definition session_join :: "chat_env \<Rightarrow> (string \<Rightarrow> byte list) \<Rightarrow> string \<Rightarrow> session \<times> chan_world \<Rightarrow> session \<times> chan_world" where
  "session_join E enc_join name = (\<lambda>(s, w).
    (case se_nick s of
       None \<Rightarrow> (send_event (EvJoinError name ''Set a nickname first with /nick'') s, w)
     | Some nick \<Rightarrow>
        (let topic = ''room:'' @ name in
         if is_joined topic (se_channels s) then (send_event (EvJoinError name ''Already in this room'') s, w)
         else
          (let (reply, cs, w1) = cs_handle_join topic (enc_join nick) (''join-'' @ name) (se_channels s, ce_create E name w);
               s1 = s\<lparr> se_channels := cs \<rparr>
           in (case reply of
                 ChJoinOk _ _ \<Rightarrow> send_event (EvJoined name) s1
               | ChJoinError _ reason \<Rightarrow> send_event (EvJoinError name reason) s1
               | _ \<Rightarrow> s1, w1)))))"

definition session_leave :: "string \<Rightarrow> session \<times> chan_world \<Rightarrow> session \<times> chan_world" where
  "session_leave name = (\<lambda>(s, w).
    (let topic = ''room:'' @ name in
     if \<not> is_joined topic (se_channels s) then (send_event (EvError (''Not in room '' @ [CHR 0x27] @ name @ [CHR 0x27])) s, w)
     else
      (let (cs, w1) = cs_handle_leave topic (se_channels s, w) in (send_event (EvLeft name) (s\<lparr> se_channels := cs \<rparr>), w1))))"

definition session_msg :: "chat_env \<Rightarrow> string \<Rightarrow> string \<Rightarrow> session \<times> chan_world \<Rightarrow> session \<times> chan_world" where
  "session_msg E name text = (\<lambda>(s, w).
    (let topic = ''room:'' @ name in
     if \<not> is_joined topic (se_channels s)
     then (send_event (EvError (''Not in room '' @ [CHR 0x27] @ name @ [CHR 0x27] @ ''. Join first.'')) s, w)
     else
      (case se_nick s of
         None \<Rightarrow> (s, w)
       | Some nick \<Rightarrow>
          (let w1 = (case ce_room E name w of None \<Rightarrow> w | Some p \<Rightarrow> ce_store E p nick text w);
               payload = (case ce_json_event E (ReMessage nick text) of Some bytes \<Rightarrow> bytes | None \<Rightarrow> [])
           in (s, (case cy_reply (ce_wire E) (ChPush topic ''new_msg'' payload) of
                     None \<Rightarrow> w1
                   | Some bytes \<Rightarrow> fold (world_send bytes) (pg_get_members (chan_group topic) (cw_groups w1)) w1)))))) "

definition session_list_users :: "chat_env \<Rightarrow> string \<Rightarrow> session \<times> chan_world \<Rightarrow> session \<times> chan_world" where
  "session_list_users E name = (\<lambda>(s, w).
    (let (users, w1) = presence_users E (''room:'' @ name) w in (send_event (EvUserList name users) s, w1)))"

definition session_list_rooms :: "chat_env \<Rightarrow> session \<times> chan_world \<Rightarrow> session \<times> chan_world" where
  "session_list_rooms E = (\<lambda>(s, w). (let (rooms, w1) = ce_rooms E w in (send_event (EvRoomList rooms) s, w1)))"

definition session_cleanup :: "session \<times> chan_world \<Rightarrow> session \<times> chan_world" where
  "session_cleanup = (\<lambda>(s, w).
    (let (cs, w1) = cs_terminate TerminateClosed (se_channels s, w) in (s\<lparr> se_channels := cs, se_closed := True \<rparr>, w1)))"

text \<open>A command; the first component says whether the session goes on.\<close>

definition session_command :: "chat_env \<Rightarrow> (string \<Rightarrow> byte list) \<Rightarrow> client_command \<Rightarrow> session \<times> chan_world \<Rightarrow>
    bool \<times> session \<times> chan_world" where
  "session_command E enc_join cmd = (\<lambda>(s, w).
    (case cmd of
       CNick nick \<Rightarrow> (True, session_nick nick s, w)
     | CJoin name \<Rightarrow> (True, session_join E enc_join name (s, w))
     | CLeave name \<Rightarrow> (True, session_leave name (s, w))
     | CMsg name text \<Rightarrow> (True, session_msg E name text (s, w))
     | CListRooms \<Rightarrow> (True, session_list_rooms E (s, w))
     | CListUsers name \<Rightarrow> (True, session_list_users E name (s, w))
     | CQuit \<Rightarrow> (False, session_cleanup (s, w))))"

text \<open>A push of a channel becomes an event of the client; \<open>dec_nick\<close> and \<open>dec_event\<close> decode its payload.\<close>

definition event_of_push :: "(byte list \<Rightarrow> string option) \<Rightarrow> (byte list \<Rightarrow> room_event option) \<Rightarrow> string \<Rightarrow> string \<Rightarrow> byte list \<Rightarrow>
    server_event option" where
  "event_of_push dec_nick dec_event topic event payload =
    (let name = (case str_strip_prefix ''room:'' topic of Some n \<Rightarrow> n | None \<Rightarrow> topic) in
     if event = ''user_joined'' \<or> event = ''presence_sync_response'' then map_option (EvUserJoined name) (dec_nick payload)
     else if event = ''user_left'' then map_option (EvUserLeft name) (dec_nick payload)
     else if event = ''new_msg'' then
       (case dec_event payload of Some (ReMessage origin text) \<Rightarrow> Some (EvMessage name origin text) | _ \<Rightarrow> None)
     else if event = ''presence_state'' then
       (case dec_event payload of Some (RePresenceState users) \<Rightarrow> Some (EvUserList name users) | _ \<Rightarrow> None)
     else if event = ''history'' then
       (case dec_event payload of Some (ReHistory ms) \<Rightarrow> Some (EvHistory name ms) | _ \<Rightarrow> None)
     else None)"

text \<open>What a channel answers to a message of another process: broadcasts go to the group without the own
  process, anything else is dropped.\<close>

definition session_results :: "chat_env \<Rightarrow> pid \<Rightarrow> (string \<times> raw_result) list \<Rightarrow> chan_world \<Rightarrow> chan_world" where
  "session_results E me results w =
    fold (\<lambda>(topic, r) w. case r of
        RawBroadcast event payload \<Rightarrow> cs_broadcast_from (ce_wire E) me topic event payload w
      | RawBroadcastFrom event payload \<Rightarrow> cs_broadcast_from (ce_wire E) me topic event payload w
      | _ \<Rightarrow> w) results w"

definition session_mail :: "chat_env \<Rightarrow> (byte list \<Rightarrow> string option) \<Rightarrow> (byte list \<Rightarrow> room_event option) \<Rightarrow> payload \<Rightarrow>
    session \<times> chan_world \<Rightarrow> session \<times> chan_world" where
  "session_mail E dec_nick dec_event msg = (\<lambda>(s, w).
    (case cy_unreply (ce_wire E) msg of
       Some (ChPush topic event payload) \<Rightarrow>
         (case event_of_push dec_nick dec_event topic event payload of Some ev \<Rightarrow> (send_event ev s, w) | None \<Rightarrow> (s, w))
     | _ \<Rightarrow>
        (let (results, cs, w1) = cs_handle_info_any msg (se_channels s, w)
         in (s\<lparr> se_channels := cs \<rparr>, session_results E (cs_client (se_channels s)) results w1))))"

section \<open>The loop of a session\<close>

definition try_recv_command :: "(byte list \<Rightarrow> client_command option) \<Rightarrow> session \<Rightarrow> client_command option \<times> session" where
  "try_recv_command dec s =
    (case chat_parse_frame dec (se_pending s) of
       Some (cmd, n) \<Rightarrow> (Some cmd, s\<lparr> se_pending := drop n (se_pending s) \<rparr>)
     | None \<Rightarrow> (None, s))"

lemma session_command_pending: "se_pending (fst (snd (session_command E enc_join cmd (s, w)))) = se_pending s"
  by (cases cmd)
    (auto simp: session_command_def session_nick_def session_join_def session_leave_def session_msg_def session_list_users_def
      session_list_rooms_def session_cleanup_def send_event_def split_def Let_def split: option.split channel_reply.split)

lemma chat_parse_frame_size: "chat_parse_frame dec buf = Some (m, n) \<Longrightarrow> 0 < n \<and> n \<le> length buf"
  by (auto simp: chat_parse_frame_def Let_def split: if_splits option.splits)

text \<open>The commands that are complete in the buffer, one after the other.\<close>

function session_commands :: "chat_env \<Rightarrow> (string \<Rightarrow> byte list) \<Rightarrow> (byte list \<Rightarrow> client_command option) \<Rightarrow> session \<times> chan_world \<Rightarrow>
    bool \<times> session \<times> chan_world" where
  "session_commands E enc_join dec (s, w) =
    (case chat_parse_frame dec (se_pending s) of
       None \<Rightarrow> (True, s, w)
     | Some (cmd, n) \<Rightarrow>
        (let r = session_command E enc_join cmd (s\<lparr> se_pending := drop n (se_pending s) \<rparr>, w)
         in if fst r then session_commands E enc_join dec (fst (snd r), snd (snd r)) else r))"
  by pat_completeness auto
termination
  by (relation "measure (\<lambda>(E, enc_join, dec, s, w). length (se_pending s))")
    (auto simp: session_command_pending split_beta dest: chat_parse_frame_size)

text \<open>What the loop meets: a message of its mailbox, bytes, the end of the connection, an error of reading.\<close>

datatype session_input = SiMail payload | SiBytes "byte list" | SiEnd | SiError

definition session_step :: "chat_env \<Rightarrow> (string \<Rightarrow> byte list) \<Rightarrow> (byte list \<Rightarrow> client_command option) \<Rightarrow> (byte list \<Rightarrow> string option) \<Rightarrow>
    (byte list \<Rightarrow> room_event option) \<Rightarrow> session_input \<Rightarrow> session \<times> chan_world \<Rightarrow> bool \<times> session \<times> chan_world" where
  "session_step E enc_join dec dec_nick dec_event i = (\<lambda>(s, w).
    (case i of
       SiMail msg \<Rightarrow> (True, session_mail E dec_nick dec_event msg (s, w))
     | SiBytes bs \<Rightarrow> session_commands E enc_join dec (s\<lparr> se_pending := se_pending s @ bs \<rparr>, w)
     | _ \<Rightarrow> (False, session_cleanup (s, w))))"

fun session_run :: "chat_env \<Rightarrow> (string \<Rightarrow> byte list) \<Rightarrow> (byte list \<Rightarrow> client_command option) \<Rightarrow> (byte list \<Rightarrow> string option) \<Rightarrow>
    (byte list \<Rightarrow> room_event option) \<Rightarrow> session_input list \<Rightarrow> session \<times> chan_world \<Rightarrow> bool \<times> session \<times> chan_world" where
  "session_run E enc_join dec dec_nick dec_event [] x = (True, x)"
| "session_run E enc_join dec dec_nick dec_event (i # is) x =
    (let (goes_on, x1) = session_step E enc_join dec dec_nick dec_event i x
     in if goes_on then session_run E enc_join dec dec_nick dec_event is x1 else (False, x1))"

text \<open>A session begins with the welcome; when that cannot be sent it ends at once.\<close>

definition session_begin :: "bool \<Rightarrow> session \<Rightarrow> session option" where
  "session_begin sent s =
    (if sent then Some (send_event (EvWelcome ''Welcome to Ambitious Chat! Use /nick <name> to set your nickname.'') s) else None)"

end
