(* ===== verification/Chat_Props.thy ===== *)
theory Chat_Props
  imports Chat Channel_Props
begin

text \<open>
  What the chat server (\<open>Chat\<close>) keeps: a client is in the group of a room exactly as long as its session has
  joined it, by the contract of channel sessions; commands do not depend on how their bytes are cut;
  rooms keep the last fifty messages.
\<close>

declare session_commands.simps [simp del] trim_history.simps [simp del]

section \<open>Sessions and groups\<close>

text \<open>The calls of a session to other servers leave the groups of the channels alone.\<close>

definition env_calm :: "chat_env \<Rightarrow> bool" where
  "env_calm E \<longleftrightarrow>
     (\<forall>n w. cw_groups (ce_create E n w) = cw_groups w) \<and> (\<forall>p w. cw_groups (snd (ce_history E p w)) = cw_groups w) \<and>
     (\<forall>p a b w. cw_groups (ce_store E p a b w) = cw_groups w) \<and> (\<forall>w. cw_groups (snd (ce_rooms E w)) = cw_groups w) \<and>
     (\<forall>t k p m w. cw_groups (ce_track E t k p m w) = cw_groups w) \<and> (\<forall>t k p w. cw_groups (ce_untrack E t k p w) = cw_groups w) \<and>
     (\<forall>t w. cw_groups (snd (ce_metas E t w)) = cw_groups w) \<and> (\<forall>t p w. cw_groups (ce_subscribe E t p w) = cw_groups w) \<and>
     (\<forall>t p w. cw_groups (ce_unsubscribe E t p w) = cw_groups w) \<and> (\<forall>p b w. cw_groups (ce_later E p b w) = cw_groups w)"

lemma env_calmD:
  assumes "env_calm E"
  shows "cw_groups (ce_create E n w) = cw_groups w" "cw_groups (snd (ce_history E p w)) = cw_groups w"
    "cw_groups (ce_store E p a b w) = cw_groups w" "cw_groups (snd (ce_rooms E w)) = cw_groups w"
    "cw_groups (ce_track E t k p m w) = cw_groups w" "cw_groups (ce_untrack E t k p w) = cw_groups w"
    "cw_groups (snd (ce_metas E t w)) = cw_groups w" "cw_groups (ce_subscribe E t p w) = cw_groups w"
    "cw_groups (ce_unsubscribe E t p w) = cw_groups w" "cw_groups (ce_later E p bs w) = cw_groups w"
  using assms unfolding env_calm_def by simp_all

lemma chan_push_groups [simp]:
  "cw_groups (push_event E so e ev w) = cw_groups w" "cw_groups (announce E so e ev w) = cw_groups w"
  by (simp_all add: push_event_def announce_def chan_push_json_def chan_push_def chan_broadcast_from_json_def chan_broadcast_from_def
      split: option.split)

lemma tell_changes_groups [simp]: "cw_groups (tell_changes E so e ev ms w) = cw_groups w"
proof -
  have "cw_groups (fold (\<lambda>(meta, p) w. case meta of
        Some m \<Rightarrow> if p \<noteq> so_pid so then push_event E so e (ev (um_nick m)) w else w | None \<Rightarrow> w) ms w) = cw_groups w"
    by (induction ms arbitrary: w) (auto split: option.split)
  then show ?thesis by (simp add: tell_changes_def)
qed

lemma presence_users_groups: "env_calm E \<Longrightarrow> cw_groups (snd (presence_users E t w)) = cw_groups w"
  by (simp add: presence_users_def env_calmD split_def Let_def)

lemma room_info_groups: "env_calm E \<Longrightarrow> cw_groups (snd (snd (room_handle_info E m so x))) = cw_groups (snd x)"
  using env_calmD(2) [of E _ "announce E so ''user_joined'' (ReUserJoined (rc_nick (fst x))) (snd x)"]
  by (cases x; cases m)
    (auto simp: room_handle_info_def Let_def split_def env_calmD presence_users_groups split: option.split list.split)

lemma room_info_raw_groups: "env_calm E \<Longrightarrow> cw_groups (snd (snd (room_handle_info_raw E m so x))) = cw_groups (snd x)"
  using room_info_groups [of E _ so x]
  by (cases x)
    (auto simp: room_handle_info_raw_def Let_def split_def split: option.split channel_reply.split room_event.split presence_note.split)

lemma room_handler_keeps: "env_calm E \<Longrightarrow> keeps_groups (room_handler E dec_join shown)"
  by (auto simp: keeps_groups_def room_handler_def typed_channel_handler_def typed_join_def room_join_def Let_def env_calmD
      room_handle_in_raw_def split_def room_info_raw_groups room_terminate_def split: sum.split option.split join_result.split)

definition se_moves :: "session \<times> chan_world \<Rightarrow> session \<times> chan_world \<Rightarrow> bool" where
  "se_moves x y \<longleftrightarrow> cs_moves (se_channels (fst x), snd x) (se_channels (fst y), snd y)"

lemma se_moves_trans: "se_moves x y \<Longrightarrow> se_moves y z \<Longrightarrow> se_moves x z"
  unfolding se_moves_def by (rule cs_moves_trans)

lemma se_moves_same:
  "cs_good (se_channels s) \<Longrightarrow> se_channels s1 = se_channels s \<Longrightarrow> cw_groups w1 = cw_groups w \<Longrightarrow> se_moves (s, w) (s1, w1)"
  by (simp add: se_moves_def cs_moves_def session_move.stay)

lemma send_event_channels [simp]: "se_channels (send_event ev s) = se_channels s"
  by (simp add: send_event_def)

lemma session_join_moves:
  assumes "env_calm E" "cs_good (se_channels s)"
  shows "se_moves (s, w) (session_join E enc name (s, w))"
proof (cases "se_nick s = None \<or> is_joined (''room:'' @ name) (se_channels s)")
  case True
  then show ?thesis using assms(2) by (auto simp: session_join_def Let_def intro: se_moves_same split: option.split)
next
  case False
  then obtain nick where nick: "se_nick s = Some nick" by auto
  obtain reply cs w1 where j: "cs_handle_join (''room:'' @ name) (enc nick) (''join-'' @ name) (se_channels s, ce_create E name w) = (reply, cs, w1)"
    by (metis prod_cases3)
  have "cs_moves (se_channels s, ce_create E name w) (cs, w1)" using cs_join_moves [OF assms(2)] j by (metis snd_conv)
  then have "cs_moves (se_channels s, w) (cs, w1)" by (simp add: cs_moves_def env_calmD [OF assms(1)])
  then show ?thesis using False nick j
    by (auto simp: session_join_def Let_def se_moves_def split: channel_reply.split)
qed

lemma session_leave_moves: "cs_good (se_channels s) \<Longrightarrow> se_moves (s, w) (session_leave name (s, w))"
  using cs_leave_moves [of "se_channels s" w "''room:'' @ name"]
  by (auto simp: session_leave_def Let_def split_def se_moves_def cs_moves_refl)

lemma session_msg_groups: "env_calm E \<Longrightarrow> cw_groups (snd (session_msg E name text (s, w))) = cw_groups w \<and>
    se_channels (fst (session_msg E name text (s, w))) = se_channels s"
  by (auto simp: session_msg_def Let_def env_calmD split: option.split)

lemma session_cleanup_moves:
  "cs_good (se_channels s) \<Longrightarrow> se_moves (s, w) (session_cleanup (s, w)) \<and> cs_joined (se_channels (fst (session_cleanup (s, w)))) = {}"
  using cs_terminate_moves [of "(se_channels s, w)" TerminateClosed]
  by (auto simp: session_cleanup_def split_def se_moves_def Let_def)

lemma session_command_moves:
  assumes "env_calm E" "cs_good (se_channels s)"
  shows "se_moves (s, w) (snd (session_command E enc cmd (s, w)))"
proof (cases "\<exists>name text. cmd = CMsg name text")
  case True
  then obtain name body where cmd: "cmd = CMsg name body" by auto
  obtain s1 w1 where m: "session_msg E name body (s, w) = (s1, w1)" by (metis prod.exhaust)
  show ?thesis using session_msg_groups [OF assms(1), of name body s w] se_moves_same [OF assms(2)] m
    by (simp add: session_command_def cmd)
next
  case False
  then show ?thesis
    by (cases cmd)
      (auto simp: session_command_def session_join_moves assms session_leave_moves session_cleanup_moves session_nick_def
        session_list_rooms_def session_list_users_def split_def Let_def presence_users_groups env_calmD intro!: se_moves_same)
qed

lemma se_moves_good: "se_moves x y \<Longrightarrow> cs_good (se_channels (fst y))"
  by (simp add: se_moves_def cs_moves_def)

lemma session_commands_moves:
  "env_calm E \<Longrightarrow> cs_good (se_channels (fst x)) \<Longrightarrow> se_moves x (snd (session_commands E enc dec x))"
proof (induction E enc dec x rule: session_commands.induct)
  case (1 E enc dec s w)
  show ?case
  proof (cases "chat_parse_frame dec (se_pending s)")
    case None
    then show ?thesis using 1(3) by (subst session_commands.simps) (simp add: se_moves_same)
  next
    case (Some r)
    obtain cmd n where r: "r = (cmd, n)" by (cases r)
    let ?s = "s\<lparr> se_pending := drop n (se_pending s) \<rparr>"
    obtain b s1 w1 where c: "session_command E enc cmd (?s, w) = (b, s1, w1)" by (metis prod_cases3)
    have "se_moves (s, w) (?s, w)" using 1(3) by (intro se_moves_same) simp_all
    moreover have "se_moves (?s, w) (s1, w1)" using session_command_moves [OF 1(2), of ?s w enc cmd] 1(3) c by simp
    ultimately have m: "se_moves (s, w) (s1, w1)" by (rule se_moves_trans)
    show ?thesis
    proof (cases b)
      case True
      then have "session_commands E enc dec (s, w) = session_commands E enc dec (s1, w1)"
        using Some r c by (subst session_commands.simps) simp
      then show ?thesis
        using 1(1) [OF Some [unfolded r] refl refl] c True 1(2) se_moves_good [OF m] se_moves_trans [OF m] by simp
    next
      case False
      then show ?thesis using Some r c m by (subst session_commands.simps) simp
    qed
  qed
qed

lemma session_results_groups [simp]: "cw_groups (session_results E me rs w) = cw_groups w"
  unfolding session_results_def by (induction rs arbitrary: w) (auto split: raw_result.split)

lemma session_mail_moves:
  assumes "cs_good (se_channels s)"
  shows "se_moves (s, w) (session_mail E dn de msg (s, w))"
proof (cases "\<exists>t e p. cy_unreply (ce_wire E) msg = Some (ChPush t e p)")
  case True
  then show ?thesis using assms by (auto simp: session_mail_def intro!: se_moves_same split: option.split)
next
  case False
  obtain rs cs w1 where i: "cs_handle_info_any msg (se_channels s, w) = (rs, cs, w1)" by (metis prod_cases3)
  have "cs_moves (se_channels s, w) (cs, w1)" using cs_info_any_moves [of "(se_channels s, w)" msg] assms i by simp
  then have "cs_moves (se_channels s, w) (cs, session_results E (cs_client (se_channels s)) rs w1)"
    by (rule cs_moves_groups) simp
  moreover have "session_mail E dn de msg (s, w) =
      (s\<lparr> se_channels := cs \<rparr>, session_results E (cs_client (se_channels s)) rs w1)"
    using False i by (auto simp: session_mail_def split: option.split channel_reply.split)
  ultimately show ?thesis by (simp add: se_moves_def)
qed

lemma session_step_moves:
  assumes "env_calm E" "cs_good (se_channels s)"
  shows "se_moves (s, w) (snd (session_step E enc dec dn de i (s, w)))"
proof (cases i)
  case (SiBytes bs)
  have "se_moves (s, w) (s\<lparr> se_pending := se_pending s @ bs \<rparr>, w)" using assms(2) by (intro se_moves_same) simp_all
  then show ?thesis using session_commands_moves [OF assms(1), of "(s\<lparr> se_pending := se_pending s @ bs \<rparr>, w)" enc dec] assms(2)
    by (simp add: session_step_def SiBytes se_moves_trans)
qed (simp_all add: session_step_def session_mail_moves session_cleanup_moves assms)

text \<open>Sessions of the chat fulfil the contract of channel sessions.\<close>

interpretation chat: channel_session "\<lambda>s. cs_client (se_channels s)" "\<lambda>s. cs_joined (se_channels s)"
  "\<lambda>s. env_calm E \<and> cs_good (se_channels s)" "\<lambda>i x. snd (session_step E enc dec dn de i x)" for E enc dec dn de
  using session_step_moves by unfold_locales (fastforce simp: se_moves_def cs_moves_def)+

section \<open>The end of a session\<close>

lemma session_command_end:
  "\<not> fst (session_command E enc cmd (s, w)) \<Longrightarrow> cs_good (se_channels s) \<Longrightarrow>
     cs_joined (se_channels (fst (snd (session_command E enc cmd (s, w))))) = {}"
  by (cases cmd) (simp_all add: session_command_def session_cleanup_moves)

lemma session_commands_end:
  "env_calm E \<Longrightarrow> cs_good (se_channels (fst x)) \<Longrightarrow> \<not> fst (session_commands E enc dec x) \<Longrightarrow>
     cs_joined (se_channels (fst (snd (session_commands E enc dec x)))) = {}"
proof (induction E enc dec x rule: session_commands.induct)
  case (1 E enc dec s w)
  show ?case
  proof (cases "chat_parse_frame dec (se_pending s)")
    case None
    then show ?thesis using 1(4) by (simp add: session_commands.simps [of E enc dec s w])
  next
    case (Some r)
    obtain cmd n where r: "r = (cmd, n)" by (cases r)
    let ?s = "s\<lparr> se_pending := drop n (se_pending s) \<rparr>"
    obtain b s1 w1 where c: "session_command E enc cmd (?s, w) = (b, s1, w1)" by (metis prod_cases3)
    have good: "cs_good (se_channels s1)"
      using session_command_moves [OF 1(2), of ?s w enc cmd] 1(3) c by (simp add: se_moves_def cs_moves_def)
    have rest: "session_commands E enc dec (s, w) = (if b then session_commands E enc dec (s1, w1) else (b, s1, w1))"
      using Some r c by (simp add: session_commands.simps [of E enc dec s w])
    show ?thesis
    proof (cases b)
      case True
      then show ?thesis using 1(1) [OF Some [unfolded r] refl refl] c 1(2,4) good rest by simp
    next
      case False
      then show ?thesis using session_command_end [of E enc cmd ?s w] 1(3) c rest by simp
    qed
  qed
qed

lemma session_step_end:
  assumes "env_calm E" "cs_good (se_channels s)" "\<not> fst (session_step E enc dec dn de i (s, w))"
  shows "cs_joined (se_channels (fst (snd (session_step E enc dec dn de i (s, w))))) = {}"
  using assms session_commands_end [OF assms(1), of "(s\<lparr> se_pending := se_pending s @ bs \<rparr>, w)" enc dec for bs]
  by (cases i) (simp_all add: session_step_def session_cleanup_moves)

text \<open>A run takes a prefix of its inputs; when it ends, every channel is left.\<close>

lemma session_run_prefix:
  "env_calm E \<Longrightarrow> cs_good (se_channels (fst x)) \<Longrightarrow>
   \<exists>n. snd (session_run E enc dec dn de is x) = chat.run E enc dec dn de (take n is) x \<and>
     (fst (session_run E enc dec dn de is x) \<or> cs_joined (se_channels (fst (snd (session_run E enc dec dn de is x)))) = {})"
proof (induction "is" arbitrary: x)
  case Nil
  then show ?case by (simp add: chat.run_def)
next
  case (Cons i js)
  obtain s w where x: "x = (s, w)" by (cases x)
  obtain b y where st: "session_step E enc dec dn de i x = (b, y)" by (cases "session_step E enc dec dn de i x")
  have good: "cs_good (se_channels (fst y))"
    using session_step_moves [OF Cons.prems(1), of s w enc dec dn de i] Cons.prems(2) x st by (simp add: se_moves_def cs_moves_def)
  show ?case
  proof (cases b)
    case True
    obtain n where "snd (session_run E enc dec dn de js y) = chat.run E enc dec dn de (take n js) y"
      "fst (session_run E enc dec dn de js y) \<or> cs_joined (se_channels (fst (snd (session_run E enc dec dn de js y)))) = {}"
      using Cons.IH [OF Cons.prems(1) good] by auto
    then show ?thesis using True st by (intro exI [of _ "Suc n"]) (simp add: chat.run_def)
  next
    case False
    then show ?thesis using session_step_end [OF Cons.prems(1), of s enc dec dn de i w] Cons.prems(2) x st
      by (intro exI [of _ "Suc 0"]) (simp add: chat.run_def)
  qed
qed

text \<open>C39. The members of a room.  Whatever a client of the chat sends, and whatever messages reach its session, the
  session is in the group of a room exactly as long as it has joined the room; when it ends, by \<open>Quit\<close>, the end of
  the connection or an error of reading, it is in none; the memberships of other processes do not change.\<close>

theorem chat_membership:
  assumes "env_calm E" "\<forall>t. \<not> chan_member t p (cw_groups w)"
    and run: "session_run E enc dec dn de is (session_new (room_handler E dj shown) p, w) = (goes_on, s, w')"
  shows "is_joined t (se_channels s) = chan_member t p (cw_groups w') \<and>
    (goes_on \<or> \<not> chan_member t p (cw_groups w')) \<and>
    (q = p \<or> chan_member t q (cw_groups w') = chan_member t q (cw_groups w))"
proof -
  let ?s = "session_new (room_handler E dj shown) p"
  have good: "cs_good (se_channels ?s)" and p: "cs_client (se_channels ?s) = p" and none: "cs_joined (se_channels ?s) = {}"
    using room_handler_keeps [OF assms(1)] by (simp_all add: session_new_def server_builder_build_def cs_good_def cs_joined_def)
  obtain n where n: "(s, w') = chat.run E enc dec dn de (take n is) (?s, w)" and fin: "goes_on \<or> cs_joined (se_channels s) = {}"
    using session_run_prefix [OF assms(1), of "(?s, w)" enc dec dn de "is"] good run by auto
  have "synced p (cs_joined (se_channels ?s), cw_groups w)" using assms(2) none by (simp add: synced_def)
  then have "synced p (cs_joined (se_channels (fst (s, w'))), cw_groups (snd (s, w')))"
    unfolding n using chat.run_synced(1) [of E ?s] assms(1) good p by simp
  moreover have "q \<noteq> p \<Longrightarrow> chan_member t q (cw_groups (snd (s, w'))) = chan_member t q (cw_groups w)"
    unfolding n using chat.run_synced(2) [of E ?s q] assms(1) good p by simp
  ultimately show ?thesis using fin by (auto simp: synced_def is_joined_def hm_contains_def cs_joined_def)
qed

definition ex_chat_env :: chat_env where
  "ex_chat_env = \<lparr> ce_create = (\<lambda>_ w. w), ce_room = (\<lambda>_ _. None), ce_history = (\<lambda>_ w. (None, w)), ce_store = (\<lambda>_ _ _ w. w),
     ce_rooms = (\<lambda>w. ([], w)), ce_track = (\<lambda>_ _ _ _ w. w), ce_untrack = (\<lambda>_ _ _ w. w), ce_metas = (\<lambda>_ w. ([], w)),
     ce_subscribe = (\<lambda>_ _ w. w), ce_unsubscribe = (\<lambda>_ _ w. w), ce_later = (\<lambda>_ _ w. w), ce_wire = ex_chan_wire,
     ce_json_event = (\<lambda>_. None), ce_json_out = (\<lambda>_. None), ce_out = (\<lambda>_. None), ce_json_text = (\<lambda>_. None),
     ce_json_nick = (\<lambda>_. None), ce_json_in = (\<lambda>_. None), ce_in = (\<lambda>_. None), ce_info = (\<lambda>_. [0]),
     ce_uninfo = (\<lambda>_. None), ce_event = (\<lambda>_. None), ce_presence = (\<lambda>_. None) \<rparr>"

text \<open>Two commands in one read: a nick and a room to join.\<close>

definition ex_decode :: "byte list \<Rightarrow> client_command option" where
  "ex_decode bs = (if bs = [1] then Some (CNick ''a'') else if bs = [2] then Some (CJoin ''x'') else None)"

definition ex_chat_run :: "bool \<times> session \<times> chan_world" where
  "ex_chat_run = session_run ex_chat_env (\<lambda>_. []) ex_decode (\<lambda>_. None) (\<lambda>_. None) [SiBytes [0, 0, 0, 1, 1, 0, 0, 0, 1, 2]]
     (session_new (room_handler ex_chat_env (\<lambda>_. Inr ''a'') (\<lambda>_. [])) ex_client, ex_chan_world)"

theorem chat_membership_witness:
  "fst ex_chat_run \<and> is_joined ''room:x'' (se_channels (fst (snd ex_chat_run))) \<and>
   chan_member ''room:x'' ex_client (cw_groups (snd (snd ex_chat_run)))"
proof -
  obtain g s w where r: "ex_chat_run = (g, s, w)" by (metis prod_cases3)
  have "fst ex_chat_run" "is_joined ''room:x'' (se_channels (fst (snd ex_chat_run)))" by code_simp+
  moreover have "env_calm ex_chat_env" by (simp add: env_calm_def ex_chat_env_def)
  ultimately show ?thesis
    using conjunct1 [OF chat_membership [OF _ _ r [unfolded ex_chat_run_def], where t = "''room:x''" and q = ex_client]] ex_start
    unfolding r by simp
qed

section \<open>Bytes and commands\<close>

definition session_fed :: "byte list \<Rightarrow> session \<Rightarrow> session" where
  "session_fed bs s = s\<lparr> se_pending := se_pending s @ bs \<rparr>"

lemma session_fed_simps [simp]:
  "session_fed [] s = s" "session_fed b (session_fed a s) = session_fed (a @ b) s" "se_pending (session_fed a s) = se_pending s @ a"
  by (simp_all add: session_fed_def)








text \<open>A complete frame that does not decode is taken for an incomplete one: it stays at the head of the buffer,
  whatever follows, and the session reads no other command.\<close>

lemma session_stuck:
  assumes "4 \<le> length (se_pending s)" "len = unat (of_be32 (se_pending s ! 0) (se_pending s ! 1) (se_pending s ! 2) (se_pending s ! 3))"
    "4 + len \<le> length (se_pending s)" "dec (take len (drop 4 (se_pending s))) = None"
  shows "session_run E enc dec dn de (map SiBytes bss) (s, w) = (True, session_fed (concat bss) s, w)"
proof -
  have none: "chat_parse_frame dec (se_pending s @ bs) = None" for bs
  proof -
    have i: "(se_pending s @ bs) ! i = se_pending s ! i" if "i < 4" for i using that assms(1) by (simp add: nth_append)
    have l: "unat (of_be32 ((se_pending s @ bs) ! 0) ((se_pending s @ bs) ! 1) ((se_pending s @ bs) ! 2) ((se_pending s @ bs) ! 3)) = len"
      using assms(2) i [of 0] i [of 1] i [of 2] i [of 3] by simp
    have t: "take len (drop 4 (se_pending s @ bs)) = take len (drop 4 (se_pending s))" using assms(1,3) by simp
    show ?thesis unfolding chat_parse_frame_def Let_def l t assms(4) by simp
  qed
  have "session_run E enc dec dn de (map SiBytes bss) (session_fed a s, w) = (True, session_fed (a @ concat bss) s, w)" for a
  proof (induction bss arbitrary: a)
    case Nil
    show ?case by simp
  next
    case (Cons b bss)
    have "session_step E enc dec dn de (SiBytes b) (session_fed a s, w) = (True, session_fed (a @ b) s, w)"
      using none [of "a @ b"] by (simp add: session_step_def session_fed_def session_commands.simps [of E enc dec _ w])
    then show ?case using Cons.IH [of "a @ b"] by simp
  qed
  from this [of "[]"] show ?thesis by simp
qed

section \<open>Rooms\<close>

lemma trim_history_eq: "trim_history h = drop (length h - max_history) h"
proof (induction h rule: trim_history.induct)
  case (1 h)
  show ?case
  proof (cases "length h > max_history")
    case True
    then obtain m h' where h: "h = m # h'" by (cases h) auto
    then have "length h - max_history = Suc (length h' - max_history)" using True by simp
    then show ?thesis using 1 [OF True] True h by (subst trim_history.simps) simp
  qed (subst trim_history.simps, simp)
qed

text \<open>A room keeps the last fifty messages in the order of their storing.\<close>

lemma room_history_kept:
  "rm_history (fold (\<lambda>(now, origin, body). room_store_message now origin body) ms (room_init n)) =
     drop (length ms - max_history) (map (\<lambda>(now, origin, body). \<lparr> hm_from = origin, hm_text = body, hm_timestamp = now \<rparr>) ms)"
proof (induction ms rule: rev_induct)
  case Nil
  show ?case by (simp add: room_init_def)
next
  case (snoc m ms)
  have "n - 50 + (n - (49 + (n - 50))) = n - 49" for n :: nat by arith
  with snoc show ?case
    by (cases m) (simp add: room_store_message_def trim_history_eq drop_drop ac_simps max_history_def)
qed

text \<open>A room found or created is found from then on.\<close>

lemma get_or_create_room_found:
  assumes "get_or_create_room shown me name s = (Inr p, s')"
  shows "get_room name s' = Some p" and "get_or_create_room shown me name s' = (Inr p, s')"
proof -
  have start: "rs_names s1 = rs_names s" if "start_room shown me name s = (res, s1)" for res s1
    using that by (auto simp: start_room_def split_def Let_def split: option.splits)
  show "get_room name s' = Some p"
  proof (cases "global_whereis (room_global_name name) (rs_names s)")
    case (Some q)
    then show ?thesis using assms by (auto simp: get_or_create_room_def get_room_def)
  next
    case None
    obtain res s1 where st: "start_room shown me name s = (res, s1)" by (metis prod.exhaust)
    then have "rs_names s1 = rs_names s" by (rule start)
    then show ?thesis using None assms st
      by (cases res) (auto simp: get_or_create_room_def get_room_def global_whereis_def global_register_def hm_contains_def Let_def)
  qed
  then show "get_or_create_room shown me name s' = (Inr p, s')" by (simp add: get_room_def get_or_create_room_def)
qed

text \<open>Bytes too short for a tag are no internal message of a channel; the message that asks for the presence
  state is sent without its tag.\<close>

lemma untagged_info_lost: "length bs < 2 \<Longrightarrow> decode_info E (PData bs) = None"
  by (simp add: decode_info_def decode_tag_def)

end
