(* ===== verification/Spec2Isabelle.thy ===== *)
theory Spec2Isabelle
  imports Crdt_Net App Sup_Claims Registry Codec GenFsm Dist_Props DynSup Gs_System Store_Reg Timer PubSub Channel_Props Presence_Props Beam_Props Peer_Props Jobs_Props Chat_Props
begin

text \<open>
  A verification library for \<open>ambitious\<close>, an actor runtime for Rust after the model of Erlang/OTP
  (\<open>crates/ambitious/src\<close>; paths below are relative to it).

  \<^bold>\<open>The program.\<close>  Processes with mailboxes, links and monitors (\<open>runtime/\<close>, \<open>process/\<close>) carry
  everything else: supervisors restart the processes they start (\<open>supervisor/\<close>), state machines and
  servers answer calls (\<open>gen_fsm/\<close>, \<open>gen_server/\<close>), registries and process groups find processes
  (\<open>registry.rs\<close>, \<open>distribution/pg.rs\<close>), stores keep the data of the processes that own them (\<open>store/\<close>),
  timers send or end later (\<open>timer/\<close>), applications are started in the order of their dependencies
  (\<open>application/\<close>), nodes connect to each other and to Erlang nodes and exchange messages, monitors, links
  and names (\<open>distribution/\<close>, \<open>node.rs\<close>), peer nodes are started and watched (\<open>peer/\<close>), messages are
  published (\<open>pubsub/\<close>), clients join topics over channels (\<open>channel/\<close>), and presence is replicated between
  nodes with a state-based set (\<open>presence/\<close>).  Two examples are built on all this: a chat server and a job
  queue (\<open>src/examples\<close>).

  \<^bold>\<open>The theories.\<close>  Each models one part of the code, by the names the code uses.

    \<^item> Prelude: hash maps and hash sets as association lists (\<open>hm_*\<close>), the loop that drains a vector by
      index, and the lemmas the components share.
    \<^item> Btree: the ordered maps of the standard library, behind ordered stores and JSON objects.
    \<^item> Core: atoms (\<open>atom/mod.rs\<close>), node names, process identifiers, exit reasons, references and system
      messages (\<open>core/\<close>).
    \<^item> Crdt, Crdt_Net: the replicated presence set (\<open>presence/crdt.rs\<close>), the merge of deltas against
      causal contexts, and a system of replicas over a network that loses, repeats and reorders.
    \<^item> App: the application controller (\<open>application/core.rs\<close>, \<open>types.rs\<close>, \<open>error.rs\<close>).
    \<^item> Runtime, Runtime_Inv: process handles, the process table, the context of a running process,
      spawning and exit (\<open>runtime/\<close>, \<open>process/runtime.rs\<close>), and the invariant of links and monitors.
    \<^item> Supervisor, Sup_Props, Sup_Loop, Sup_Runtime, Sup_Claims: the supervisor (\<open>supervisor/core.rs\<close>,
      \<open>types.rs\<close>, \<open>error.rs\<close>), written over an interface to the processes around it; the locale
      child_world states what it relies on, and Sup_Runtime interprets it on the model of the runtime.
    \<^item> Membership, Registry, Pg, Global: the registries of processes under keys (\<open>registry.rs\<close>), the
      replicated process groups (\<open>distribution/pg.rs\<close>) and the global names (\<open>distribution/global.rs\<close>).
      The locale membership_index is the contract the first two share, and is interpreted on both.
    \<^item> Via: names under which servers register (\<open>gen_server/via.rs\<close>).  Decimal: numbers as text.
      Plain_Wire: an encoding that satisfies the laws assumed of the serialisation library, for witnesses.
    \<^item> DynSup: dynamic supervisors (\<open>supervisor/dynamic_supervisor.rs\<close>), on the model of the runtime.
    \<^item> Codec: tagged messages (\<open>message.rs\<close>), the messages between nodes and their frames
      (\<open>distribution/protocol.rs\<close>), and the two readers of frames (\<open>distribution/tcp_transport.rs\<close>,
      \<open>distribution/transport.rs\<close>).
    \<^item> GenFsm: state machine processes (\<open>gen_fsm/\<close>).
    \<^item> ProcMonitor, NodeMonitor, Manager, Dist_Props: monitors and links across nodes
      (\<open>distribution/process_monitor.rs\<close>), monitors of nodes (\<open>distribution/monitor.rs\<close>), the
      distribution manager with its tables, handshakes, heartbeat and dispatch of messages
      (\<open>distribution/manager.rs\<close>), remote spawning (\<open>distribution/spawn.rs\<close>) and the calls of \<open>node.rs\<close>.
    \<^item> GenServer, Gs_Props, Gs_System: servers (\<open>gen_server/\<close>) with their loop and the calls of clients, the
      properties of one server, and what servers make of the system messages they get.
    \<^item> Store, Store_Reg: stores with their tables and access checks (\<open>store/mod.rs\<close>) and the registry of
      owners, names and heirs (\<open>store/registry.rs\<close>); the locale kv_data is the contract of the tables.
    \<^item> Timer: timers (\<open>timer/\<close>).  PubSub: publish and subscribe (\<open>pubsub/server.rs\<close>).
    \<^item> Channel, Channel_Ws, Chan_Transport, Channel_Props: channels (\<open>channel/core.rs\<close>) with their sessions
      over WebSocket (\<open>channel/websocket.rs\<close>) and over other transports (\<open>channel/transport.rs\<close>); the locale
      channel_session is the contract of all of them, sessions of the chat included.
    \<^item> Presence, Presence_Props: the presence server (\<open>presence/server.rs\<close>, \<open>types.rs\<close>) around the set of Crdt.
    \<^item> Erlang, Beam, Beam_Props: terms and connections of Erlang (\<open>distribution/erlang.rs\<close>, \<open>core/etf.rs\<close>) and
      the Erlang nodes of the manager.
    \<^item> Peer, Peer_Props: starting distribution (\<open>distribution/node.rs\<close>) and peer nodes (\<open>peer/\<close>).
    \<^item> Jobs, Jobs_Props: the job queue (\<open>src/examples/job_queue/src\<close>), on servers, dynamic supervisors and timers.
    \<^item> Chat, Chat_Props: the chat server (\<open>src/examples/chat/src\<close>), on channels, process groups and global names.

  \<^bold>\<open>How state and operations correspond.\<close>  A struct is a record, an enum a datatype, a machine integer a
  word; a \<open>HashMap\<close> or \<open>DashMap\<close> is an association list with distinct keys, whose order no theorem
  relies on.  An operation is a function on the record of its component, and returns an error as the
  left side of a sum.  Global state (the runtime, the manager, the counters) is a field of a record.
  What an operation hands to another task (a message to a mailbox, to the queue of a node, to a socket)
  is appended to a list.  Code of the user and of other libraries is an argument: callbacks, start
  functions, codecs, the clock, dialling a node.  Where an operation awaits the network and other tasks
  can run, it is cut there into two definitions.  A call of the user's code, also one that is awaited (a start
  function, a callback), runs without other tasks in between.

  \<^bold>\<open>What is shown.\<close>  For each component the lemmas establish an invariant its operations keep, and the
  properties are stated over all runs: the indexes of the presence set, the registries, the groups, the
  node monitors and the tables of nodes agree with what they index; links are symmetric and monitors
  agree at both ends; the order and the process map of a supervisor describe its children; a client is in
  the group of a topic exactly while its session has joined it; the ledger of the job queue balances.  The
  functional properties say what each operation does to every part of the state, errors included:
  merging, restarting, resolving dependencies, losing a node.  Refinement: a registry is a relation, a
  replica of the presence set a set with tombstones, a store a map, hashed or ordered.
  Composition: Sup_Runtime runs the supervisor on the runtime, Dist_Props lets two nodes with their runtimes monitor each other's processes.  Several
  properties state behaviour of the code that looks unintended; they are listed with the findings of
  the development's manifest.

  \<^bold>\<open>Bounds and fuel.\<close>  Counters of references, process identifiers and atoms wrap at their width, and the
  properties about their freshness carry the bound.  The wait of a supervisor for a child is a partial
  function whose missing result is a wait that never ends; supervisor_never_hangs and
  infinite_shutdown_hangs say when it returns.  Loops over messages are functions of the messages they
  read.  No definition uses fuel.

  \<^bold>\<open>Not modelled.\<close>  Sockets, TLS, the set-up of QUIC and the accept loops of listeners, which are calls of
  libraries; the libraries that serialise (postcard, JSON, the external format of Erlang) and that speak the
  protocols of WebSocket and Erlang, which are arguments; the macros of \<open>ambitious-macros\<close>, which run in the
  compiler; the task-local accessors and module functions that only forward to a global instance; the
  bounded capacity of queues between tasks; the entry points, the web pages and the terminal interfaces of
  the examples; the trait for the discovery of nodes, which nothing implements.
\<close>

end
